(* ===== verification/Prelude.thy ===== *)
theory Prelude
  imports Complex_Main "HOL-Library.AList" "HOL-Library.Multiset"
begin

text \<open>
  Shared vocabulary of the development.

  \<^item> Python exceptions are values of \<open>exn\<close>; a call that may raise returns \<open>exn + 'a\<close>.
  \<^item> A Python \<open>dict\<close> keeps its insertion order, and assigning to an existing key keeps the
    key's position; \<open>AList.update\<close> does exactly this, so a dict is an association list.
  \<^item> A \<open>datetime\<close> is an aware UTC time in microseconds, a \<open>date\<close> a day number.
  \<^item> A \<open>uuid\<close> is a natural number; \<open>new_id()\<close> draws from a counter in the state.
\<close>

named_theorems op_defs \<open>the operations of a component, for unfolding a step\<close>
named_theorems frame \<open>what an operation leaves unchanged\<close>

subsection \<open>Exceptions\<close>

text \<open>
  \<open>NotFinite\<close> is no exception of the program: it ends an operation of the model where the program
  goes on with a decimal number that is infinite or not a number, which \<open>decimal\<close> does not have.
\<close>

datatype exn =
    ValueError
  | KeyError
  | DecimalError
  | BrokerError
  | BrokerRejection string
  | BrokerUnavailable
  | TypeError
  | AttributeError
  | ZeroDivisionError
  | RuntimeError
  | OverflowError
  | NotFinite

fun bindr :: "exn + 'a \<Rightarrow> ('a \<Rightarrow> exn + 'b) \<Rightarrow> exn + 'b" where
  "bindr (Inl e) f = Inl e"
| "bindr (Inr x) f = f x"

lemma bindr_Inr_iff: "bindr m f = Inr y \<longleftrightarrow> (\<exists>x. m = Inr x \<and> f x = Inr y)"
  by (cases m) auto

lemma bindr_Inl_iff: "bindr m f = Inl e \<longleftrightarrow> m = Inl e \<or> (\<exists>x. m = Inr x \<and> f x = Inl e)"
  by (cases m) auto

type_synonym uuid = nat
type_synonym datetime = int
type_synonym date = int

definition us_per_hour :: int where
  "us_per_hour = 3600 * 1000000"

definition us_per_day :: int where
  "us_per_day = 24 * us_per_hour"

definition date_of :: "datetime \<Rightarrow> date" where
  "date_of ts = ts div us_per_day"

lemma date_of_mono: "s \<le> t \<Longrightarrow> date_of s \<le> date_of t"
  by (simp add: date_of_def us_per_day_def us_per_hour_def zdiv_mono1)

subsection \<open>Dictionaries\<close>

type_synonym ('k, 'v) dict = "('k \<times> 'v) list"

abbreviation dict_get :: "('k, 'v) dict \<Rightarrow> 'k \<Rightarrow> 'v option" where
  "dict_get d k \<equiv> map_of d k"

abbreviation dict_set :: "'k \<Rightarrow> 'v \<Rightarrow> ('k, 'v) dict \<Rightarrow> ('k, 'v) dict" where
  "dict_set \<equiv> AList.update"

abbreviation dict_del :: "'k \<Rightarrow> ('k, 'v) dict \<Rightarrow> ('k, 'v) dict" where
  "dict_del \<equiv> AList.delete"

definition dict_get_or :: "('k, 'v) dict \<Rightarrow> 'k \<Rightarrow> 'v \<Rightarrow> 'v" where
  "dict_get_or d k v = (case dict_get d k of None \<Rightarrow> v | Some x \<Rightarrow> x)"

definition dict_keys :: "('k, 'v) dict \<Rightarrow> 'k list" where
  "dict_keys d = map fst d"

lemma dict_get_set [simp]: "dict_get (dict_set k v d) k' = (if k' = k then Some v else dict_get d k')"
  by (simp add: update_conv')

lemma dict_get_del [simp]: "dict_get (dict_del k d) k' = (if k' = k then None else dict_get d k')"
  by (simp add: delete_conv')

lemma distinct_keys_set [simp]: "distinct (map fst d) \<Longrightarrow> distinct (map fst (dict_set k v d))"
  by (rule distinct_update)

lemma set_keys_set [simp]: "fst ` set (dict_set k v d) = insert k (fst ` set d)"
  by (induction d) auto

lemma dict_get_in_set: "distinct (map fst d) \<Longrightarrow> (k, v) \<in> set d \<longleftrightarrow> dict_get d k = Some v"
  by (simp add: map_of_eq_Some_iff)

lemma set_dict_set: "x \<in> set (dict_set k v d) \<Longrightarrow> x = (k, v) \<or> x \<in> set d"
  by (induction d) (auto split: if_splits)

lemma keys_set_present: "k \<in> fst ` set d \<Longrightarrow> map fst (dict_set k v d) = map fst d"
  by (induction d) auto

lemma dict_set_fresh: "k \<notin> fst ` set d \<Longrightarrow> dict_set k v d = d @ [(k, v)]"
  by (induction d) auto

subsection \<open>Letters\<close>

text \<open>\<^verbatim>\<open>str.lower\<close> and \<^verbatim>\<open>str.upper\<close> of ASCII text.\<close>

definition lower_char :: "char \<Rightarrow> char" where
  "lower_char c = (let n = of_char c :: nat in if 65 \<le> n \<and> n \<le> 90 then char_of (n + 32) else c)"

definition py_lower :: "string \<Rightarrow> string" where
  "py_lower s = map lower_char s"

definition upper_char :: "char \<Rightarrow> char" where
  "upper_char c = (let n = of_char c :: nat in if 97 \<le> n \<and> n \<le> 122 then char_of (n - 32) else c)"

definition py_upper :: "string \<Rightarrow> string" where
  "py_upper s = map upper_char s"

text \<open>\<^verbatim>\<open>t or dflt\<close> of a text.\<close>

definition or_text :: "string \<Rightarrow> string \<Rightarrow> string" where
  "or_text t dflt = (if t = [] then dflt else t)"

subsection \<open>Lists\<close>

lemma map_filter_append [simp]: "List.map_filter f (xs @ ys) = List.map_filter f xs @ List.map_filter f ys"
  by (induction xs) (simp_all add: map_filter_simps split: option.split)

lemma map_filter_Nil [simp]: "List.map_filter f [] = []"
  by (simp add: map_filter_simps)

lemma map_filter_single: "f x = Some y \<Longrightarrow> List.map_filter f [x] = [y]"
  by (simp add: map_filter_simps)

lemma distinct_keys_perm:
  assumes "distinct (map fst d)" "distinct (map fst e)" "map_of d = map_of e"
  shows "mset d = mset e"
proof -
  have "set d = set e"
    using assms by (metis map_of_eq_Some_iff subsetI subset_antisym prod.collapse)
  moreover have "distinct d" "distinct e"
    using assms(1,2) by (simp_all add: distinct_map)
  ultimately show ?thesis by (simp add: set_eq_iff_mset_eq_distinct)
qed

subsection \<open>Consumers that skip what they have seen\<close>

text \<open>
  A consumer of events that remembers the keys it has handled and ignores a second delivery:
  replaying a log it has consumed changes nothing, and a log and its replay with
  duplicates give the same state.
\<close>

locale dedup_consumer =
  fixes handle :: "'e \<Rightarrow> 's \<Rightarrow> 's"
    and key :: "'e \<Rightarrow> 'k"
    and seen :: "'s \<Rightarrow> 'k set"
  assumes handle_seen: "key e \<in> seen s \<Longrightarrow> handle e s = s"
    and seen_handle: "seen (handle e s) = insert (key e) (seen s)"
begin

definition feed :: "'e list \<Rightarrow> 's \<Rightarrow> 's" where
  "feed es s = foldl (\<lambda>s e. handle e s) s es"

lemma feed_simps [simp]: "feed [] s = s" "feed (e # es) s = feed es (handle e s)"
  by (simp_all add: feed_def)

lemma feed_append: "feed (es @ fs) s = feed fs (feed es s)"
  by (simp add: feed_def)

lemma seen_feed: "seen (feed es s) = key ` set es \<union> seen s"
  by (induction es arbitrary: s) (auto simp: seen_handle)

lemma feed_seen: "key ` set es \<subseteq> seen s \<Longrightarrow> feed es s = s"
  by (induction es) (auto simp: handle_seen)

lemma feed_again: "key ` set fs \<subseteq> key ` set es \<Longrightarrow> feed fs (feed es s) = feed es s"
  by (rule feed_seen) (auto simp: seen_feed)

lemma feed_duplicate: "key e \<in> key ` set es \<Longrightarrow> feed (es @ e # fs) s = feed (es @ fs) s"
  by (simp add: feed_append handle_seen seen_feed)

end

end
