(* ===== verification/Decimals.thy ===== *)
theory Decimals
  imports Prelude
begin

text \<open>
  Python's \<open>decimal.Decimal\<close> in its default context: every arithmetic operation returns
  the exact result rounded to 28 significant digits, ties to even. A decimal is a rational;
  \<open>dround\<close> is the rounding of the context and \<open>dadd\<close>, \<open>dsub\<close>, \<open>dmul\<close>, \<open>ddiv\<close>,
  \<open>dneg\<close>, \<open>dabs\<close> are the rounded operations. Comparisons, \<open>min\<close>, \<open>max\<close> and the
  constructor from a literal are exact. Not represented: the exponent range (results
  beyond \<open>10 ^ 999999\<close> overflow), infinities and NaN, signed and trailing zeros.

  The locale \<open>rounding\<close> states what the components rely on (monotone, exact on the
  numbers it returns, odd) and derives their lemmas; \<open>dround\<close> is its interpretation.
\<close>

type_synonym decimal = rat

subsection \<open>Powers of ten and the adjusted exponent\<close>

definition p10 :: "int \<Rightarrow> rat" where
  "p10 e = (if 0 \<le> e then 10 ^ nat e else 1 / 10 ^ nat (- e))"

lemma p10_powi: "p10 e = 10 powi e"
  by (simp add: p10_def power_int_def inverse_eq_divide power_one_over)

lemma p10_pos [simp]: "0 < p10 e"
  by (simp add: p10_powi)

lemma p10_nonneg [simp]: "0 \<le> p10 e" and p10_nz [simp]: "p10 e \<noteq> 0"
  using p10_pos [of e] by linarith+

lemma p10_add: "p10 (a + b) = p10 a * p10 b"
  by (simp add: p10_powi power_int_add)

lemma p10_0 [simp]: "p10 0 = 1" and p10_1 [simp]: "p10 1 = 10"
  by (simp_all add: p10_def)

lemma p10_minus: "p10 a * p10 (- a) = 1"
  using p10_add [of a "- a"] by simp

lemma p10_mono: "a \<le> b \<Longrightarrow> p10 a \<le> p10 b"
  unfolding p10_powi by (rule power_int_increasing) auto

lemma p10_strict: "a < b \<Longrightarrow> p10 a < p10 b"
  unfolding p10_powi by (rule power_int_strict_increasing) auto

lemma p10_less_iff: "p10 a < p10 b \<longleftrightarrow> a < b"
  by (meson linorder_not_less p10_mono p10_strict)

lemma p10_nat: "p10 (int n) = of_int (10 ^ n)"
  by (simp add: p10_def)

lemma p10_of_nat: "p10 (int n) = of_nat (10 ^ n)"
  by (simp add: p10_def)

lemma p10_pred: "1 \<le> n \<Longrightarrow> p10 (int n - 1) = of_nat (10 ^ (n - 1))"
  using p10_of_nat [of "n - 1"] by (simp add: of_nat_diff)

fun ndigits :: "nat \<Rightarrow> nat" where
  "ndigits n = (if n < 10 then 1 else Suc (ndigits (n div 10)))"

declare ndigits.simps [simp del]

lemma ndigits_pos: "1 \<le> ndigits n"
  by (subst ndigits.simps) simp

lemma ndigits_bounds: "0 < n \<Longrightarrow> 10 ^ (ndigits n - 1) \<le> n \<and> n < 10 ^ ndigits n"
proof (induction n rule: ndigits.induct)
  case (1 n)
  show ?case
  proof (cases "n < 10")
    case True
    with 1 show ?thesis by (simp add: ndigits.simps [of n])
  next
    case False
    let ?d = "ndigits (n div 10)"
    from False 1 have ih: "10 ^ (?d - 1) \<le> n div 10" "n div 10 < 10 ^ ?d" by auto
    have "10 * 10 ^ (?d - 1) = (10::nat) ^ ?d"
      using ndigits_pos [of "n div 10"] by (cases ?d) auto
    with ih have "10 ^ ?d \<le> n" by linarith
    moreover from ih have "n < 10 * 10 ^ ?d" by linarith
    ultimately show ?thesis using False by (simp add: ndigits.simps [of n])
  qed
qed

definition dexp :: "rat \<Rightarrow> int" where
  "dexp x = (let (a, b) = quotient_of x;
                 k = int (ndigits (nat a)) - int (ndigits (nat b))
             in if p10 k \<le> x then k else k - 1)"

lemma dexp_bounds: "0 < x \<Longrightarrow> p10 (dexp x) \<le> x \<and> x < p10 (dexp x + 1)"
proof -
  assume x: "0 < x"
  obtain a b where q: "quotient_of x = (a, b)" by fastforce
  have b: "0 < b" using q by (rule quotient_of_denom_pos)
  have xab: "x = of_int a / of_int b" using q by (rule quotient_of_div)
  with x b have a: "0 < a" by (simp add: zero_less_divide_iff)
  let ?m = "ndigits (nat a)" and ?n = "ndigits (nat b)"
  have na: "(of_int a :: rat) = of_nat (nat a)" and nb: "(of_int b :: rat) = of_nat (nat b)"
    using a b by simp_all
  have "(of_nat (10 ^ (?m - 1)) :: rat) \<le> of_nat (nat a)" "(of_nat (nat a) :: rat) < of_nat (10 ^ ?m)"
    using ndigits_bounds [of "nat a"] a by (simp_all only: of_nat_le_iff of_nat_less_iff)
  then have A: "p10 (int ?m - 1) \<le> of_int a" "of_int a < p10 (int ?m)"
    unfolding p10_pred [OF ndigits_pos] p10_of_nat na .
  have "(of_nat (10 ^ (?n - 1)) :: rat) \<le> of_nat (nat b)" "(of_nat (nat b) :: rat) < of_nat (10 ^ ?n)"
    using ndigits_bounds [of "nat b"] b by (simp_all only: of_nat_le_iff of_nat_less_iff)
  then have B: "p10 (int ?n - 1) \<le> of_int b" "of_int b < p10 (int ?n)"
    unfolding p10_pred [OF ndigits_pos] p10_of_nat nb .
  let ?k = "int ?m - int ?n"
  have "p10 (?k - 1) * of_int b \<le> p10 (?k - 1) * p10 (int ?n)"
    by (rule mult_left_mono) (use B in auto)
  also have "\<dots> = p10 (int ?m - 1)" by (simp flip: p10_add)
  also have "\<dots> \<le> of_int a" by (rule A)
  finally have lo: "p10 (?k - 1) \<le> x" using b xab by (simp add: pos_le_divide_eq)
  have "of_int a < p10 (int ?m)" by (rule A)
  also have "\<dots> = p10 (?k + 1) * p10 (int ?n - 1)" by (simp flip: p10_add)
  also have "\<dots> \<le> p10 (?k + 1) * of_int b" by (rule mult_left_mono) (use B in auto)
  finally have hi: "x < p10 (?k + 1)" using b xab by (simp add: pos_divide_less_eq)
  show ?thesis using lo hi q by (auto simp: dexp_def Let_def)
qed

lemma dexp_unique: "p10 e \<le> x \<Longrightarrow> x < p10 (e + 1) \<Longrightarrow> dexp x = e"
proof -
  assume *: "p10 e \<le> x" "x < p10 (e + 1)"
  then have "0 < x" using p10_pos [of e] by linarith
  note b = dexp_bounds [OF this]
  from * b have "p10 e < p10 (dexp x + 1)" "p10 (dexp x) < p10 (e + 1)" by linarith+
  then show ?thesis by (simp add: p10_less_iff)
qed

lemma dexp_mono: "0 < x \<Longrightarrow> x \<le> y \<Longrightarrow> dexp x \<le> dexp y"
  using dexp_bounds [of x] dexp_bounds [of y] p10_less_iff [of "dexp x" "dexp y + 1"] by fastforce

subsection \<open>Rounding half to even\<close>

definition rhe :: "rat \<Rightarrow> int" where
  "rhe x = (let f = \<lfloor>x\<rfloor>; r = x - of_int f in
     if r < 1 / 2 then f else if 1 / 2 < r then f + 1 else if even f then f else f + 1)"

lemma rhe_bounds: "\<lfloor>x\<rfloor> \<le> rhe x \<and> rhe x \<le> \<lfloor>x\<rfloor> + 1"
  by (simp add: rhe_def Let_def)

lemma rhe_of_int [simp]: "rhe (of_int n) = n"
  by (simp add: rhe_def)

lemma rhe_mono: "x \<le> y \<Longrightarrow> rhe x \<le> rhe y"
proof -
  assume xy: "x \<le> y"
  then have f: "\<lfloor>x\<rfloor> \<le> \<lfloor>y\<rfloor>" by (rule floor_mono)
  show ?thesis
  proof (cases "\<lfloor>x\<rfloor> = \<lfloor>y\<rfloor>")
    case True
    with xy show ?thesis by (auto simp: rhe_def Let_def)
  next
    case False
    with f have "\<lfloor>x\<rfloor> + 1 \<le> \<lfloor>y\<rfloor>" by simp
    with rhe_bounds [of x] rhe_bounds [of y] show ?thesis by linarith
  qed
qed

lemma rhe_error: "\<bar>of_int (rhe x) - x\<bar> \<le> 1 / 2"
  using floor_correct [of x] by (auto simp: rhe_def Let_def abs_le_iff)

lemma rhe_between: "of_int a \<le> x \<Longrightarrow> x \<le> of_int b \<Longrightarrow> a \<le> rhe x \<and> rhe x \<le> b"
  using rhe_mono [of "of_int a" x] rhe_mono [of x "of_int b"] by simp

subsection \<open>The context's rounding\<close>

definition pround :: "rat \<Rightarrow> rat" where
  "pround x = (let e = dexp x in of_int (rhe (x * p10 (27 - e))) * p10 (e - 27))"

definition dround :: "rat \<Rightarrow> rat" where
  "dround x = (if x = 0 then 0 else if 0 < x then pround x else - pround (- x))"

lemma scaled_bounds:
  assumes "0 < x"
  shows "of_int (10 ^ 27) \<le> x * p10 (27 - dexp x)" "x * p10 (27 - dexp x) < of_int (10 ^ 28)"
proof -
  note b = dexp_bounds [OF assms]
  have "p10 (dexp x) * p10 (27 - dexp x) \<le> x * p10 (27 - dexp x)"
    by (rule mult_right_mono) (use b in auto)
  then show "of_int (10 ^ 27) \<le> x * p10 (27 - dexp x)"
    by (simp flip: p10_add) (simp add: p10_def)
  have "x * p10 (27 - dexp x) < p10 (dexp x + 1) * p10 (27 - dexp x)"
    by (rule mult_strict_right_mono) (use b in auto)
  then show "x * p10 (27 - dexp x) < of_int (10 ^ 28)"
    by (simp flip: p10_add) (simp add: p10_def)
qed

lemma p10_shift: "of_int (10 ^ n) * p10 (e - int n) = p10 e"
  using p10_add [of "int n" "e - int n"] by (simp add: p10_nat)

lemma pround_bounds:
  assumes "0 < x"
  shows "p10 (dexp x) \<le> pround x" "pround x \<le> p10 (dexp x + 1)"
proof -
  let ?e = "dexp x"
  have r: "10 ^ 27 \<le> rhe (x * p10 (27 - ?e))" "rhe (x * p10 (27 - ?e)) \<le> 10 ^ 28"
    using rhe_between [of "10 ^ 27" "x * p10 (27 - ?e)" "10 ^ 28"] scaled_bounds [OF assms] by auto
  have "of_int (10 ^ 27) * p10 (?e - 27) \<le> pround x"
    unfolding pround_def Let_def by (rule mult_right_mono) (use r(1) in \<open>simp_all only: of_int_le_iff p10_nonneg\<close>)
  then show "p10 ?e \<le> pround x" using p10_shift [of 27 ?e] by simp
  have "pround x \<le> of_int (10 ^ 28) * p10 (?e - 27)"
    unfolding pround_def Let_def by (rule mult_right_mono) (use r(2) in \<open>simp_all only: of_int_le_iff p10_nonneg\<close>)
  then show "pround x \<le> p10 (?e + 1)" using p10_shift [of 28 "?e + 1"] by simp
qed

lemma pround_pos: "0 < x \<Longrightarrow> 0 < pround x"
  using pround_bounds(1) [of x] p10_pos [of "dexp x"] by linarith

lemma pround_mono:
  assumes "0 < x" "x \<le> y"
  shows "pround x \<le> pround y"
proof (cases "dexp x = dexp y")
  case True
  have "x * p10 (27 - dexp y) \<le> y * p10 (27 - dexp y)"
    by (rule mult_right_mono) (use assms in auto)
  then show ?thesis
    unfolding pround_def Let_def True by (intro mult_right_mono) (simp_all add: rhe_mono)
next
  case False
  with dexp_mono [OF assms] have "p10 (dexp x + 1) \<le> p10 (dexp y)" by (simp add: p10_mono)
  with pround_bounds(2) [of x] pround_bounds(1) [of y] assms show ?thesis by linarith
qed

lemma dround_0 [simp]: "dround 0 = 0"
  by (simp add: dround_def)

lemma dround_neg [simp]: "dround (- x) = - dround x"
  by (auto simp: dround_def)

lemma dround_pos_iff [simp]: "0 < dround x \<longleftrightarrow> 0 < x"
  using pround_pos [of x] pround_pos [of "- x"] by (auto simp: dround_def)

lemma dround_mono: "x \<le> y \<Longrightarrow> dround x \<le> dround y"
proof -
  assume xy: "x \<le> y"
  consider "0 < x" | "y < 0" | "x \<le> 0" "0 \<le> y" by linarith
  then show ?thesis
  proof cases
    case 1
    with xy show ?thesis by (simp add: dround_def pround_mono)
  next
    case 2
    with xy show ?thesis using pround_mono [of "- y" "- x"] by (simp add: dround_def)
  next
    case 3
    then show ?thesis
      using pround_pos [of y] pround_pos [of "- x"] by (auto simp: dround_def)
  qed
qed

subsection \<open>Representable numbers\<close>

text \<open>A number with at most 28 digits on the grid of step \<open>10 ^ - k\<close> is its own rounding.\<close>

definition on_grid :: "nat \<Rightarrow> rat \<Rightarrow> bool" where
  "on_grid k x \<longleftrightarrow> (\<exists>n. x * 10 ^ k = of_int n \<and> \<bar>n\<bar> \<le> 10 ^ 28)"

lemma pround_coeff:
  assumes n: "0 < n" "n \<le> 10 ^ 28" and x: "x = of_int n * p10 j"
  shows "pround x = x"
proof -
  have xp: "0 < x" using n x by simp
  let ?e = "dexp x"
  have "p10 ?e \<le> x" using dexp_bounds [OF xp] by simp
  also have "x \<le> of_int (10 ^ 28) * p10 j"
    unfolding x by (rule mult_right_mono) (use n in \<open>simp_all only: of_int_le_iff p10_nonneg\<close>)
  also have "\<dots> = p10 (j + 28)" using p10_shift [of 28 "j + 28"] by simp
  finally have ej: "?e \<le> j + 28" using p10_less_iff [of "j + 28" ?e] by linarith
  show ?thesis
  proof (cases "?e \<le> j + 27")
    case True
    have sh: "x * q = of_int n * (p10 j * q)" for q by (simp add: x mult.assoc)
    have "p10 j * p10 (27 - ?e) = p10 (int (nat (j + 27 - ?e)))"
      using True by (simp add: algebra_simps flip: p10_add)
    then have "x * p10 (27 - ?e) = of_int n * p10 (int (nat (j + 27 - ?e)))"
      by (simp only: sh)
    also have "\<dots> = of_int (n * 10 ^ nat (j + 27 - ?e))" by (simp only: p10_nat of_int_mult)
    finally have "x * p10 (27 - ?e) = of_int (n * 10 ^ nat (j + 27 - ?e))" .
    then have "of_int (rhe (x * p10 (27 - ?e))) = x * p10 (27 - ?e)" by (simp only: rhe_of_int)
    then show ?thesis by (simp add: pround_def Let_def mult.assoc flip: p10_add)
  next
    case False
    with ej have e: "?e = j + 28" by simp
    have "p10 (j + 28) \<le> x" using dexp_bounds [OF xp] e by simp
    with \<open>x \<le> of_int (10 ^ 28) * p10 j\<close> \<open>of_int (10 ^ 28) * p10 j = p10 (j + 28)\<close>
    have "x = p10 (j + 28)" by linarith
    then have "x * p10 (27 - (j + 28)) = of_int (10 ^ 27)"
      by (simp flip: p10_add) (simp add: p10_def)
    then have "of_int (rhe (x * p10 (27 - (j + 28)))) = (of_int (10 ^ 27) :: rat)" by (simp only: rhe_of_int)
    then have "pround x = of_int (10 ^ 27) * p10 (j + 28 - 27)" by (simp add: pround_def Let_def e)
    with \<open>x = p10 (j + 28)\<close> show ?thesis using p10_shift [of 27 "j + 28"] by simp
  qed
qed

lemma dround_grid: "on_grid k x \<Longrightarrow> dround x = x"
proof -
  assume "on_grid k x"
  then obtain n where n: "x * 10 ^ k = of_int n" "\<bar>n\<bar> \<le> 10 ^ 28" by (auto simp: on_grid_def)
  have "p10 (- int k) = 1 / 10 ^ k" by (cases "k = 0") (simp_all add: p10_def)
  then have "x = x * 10 ^ k * p10 (- int k)" by simp
  then have x: "x = of_int n * p10 (- int k)" by (simp only: n(1))
  consider "n = 0" | "0 < n" | "n < 0" by linarith
  then show ?thesis
  proof cases
    case 1
    with x show ?thesis by simp
  next
    case 2
    with n x show ?thesis using pround_coeff [of n x "- int k"] by (simp add: dround_def)
  next
    case 3
    with n x have "pround (- x) = - x" using pround_coeff [of "- n" "- x" "- int k"] by simp
    moreover from 3 x have "x < 0" by (simp add: mult_neg_pos)
    ultimately show ?thesis by (simp add: dround_def)
  qed
qed

lemma pround_idem: "0 < x \<Longrightarrow> pround (pround x) = pround x"
proof -
  assume x: "0 < x"
  let ?n = "rhe (x * p10 (27 - dexp x))"
  have "10 ^ 27 \<le> ?n" "?n \<le> 10 ^ 28"
    using rhe_between [of "10 ^ 27" "x * p10 (27 - dexp x)" "10 ^ 28"] scaled_bounds [OF x] by auto
  then show ?thesis
    by (intro pround_coeff [where n = ?n and j = "dexp x - 27"]) (simp_all add: pround_def Let_def)
qed

lemma dround_idem [simp]: "dround (dround x) = dround x"
  using pround_idem [of x] pround_idem [of "- x"] pround_pos [of x] pround_pos [of "- x"]
  by (auto simp: dround_def)

subsection \<open>The interface the components rely on\<close>

locale rounding =
  fixes rnd :: "rat \<Rightarrow> rat"
  assumes rnd_mono: "x \<le> y \<Longrightarrow> rnd x \<le> rnd y"
    and rnd_neg: "rnd (- x) = - rnd x"
    and rnd_pos: "0 < x \<Longrightarrow> 0 < rnd x"
    and rnd_idem: "rnd (rnd x) = rnd x"
begin

lemma rnd_zero: "rnd 0 = 0"
  using rnd_neg [of 0] by simp

lemma rnd_nonneg: "0 \<le> x \<Longrightarrow> 0 \<le> rnd x"
  using rnd_mono [of 0 x] rnd_zero by simp

lemma rnd_nonpos: "x \<le> 0 \<Longrightarrow> rnd x \<le> 0"
  using rnd_mono [of x 0] rnd_zero by simp

lemma rnd_le_fixed: "rnd c = c \<Longrightarrow> x \<le> c \<Longrightarrow> rnd x \<le> c"
  using rnd_mono [of x c] by simp

lemma rnd_ge_fixed: "rnd c = c \<Longrightarrow> c \<le> x \<Longrightarrow> c \<le> rnd x"
  using rnd_mono [of c x] by simp

lemma rnd_neg_iff: "rnd x < 0 \<longleftrightarrow> x < 0"
  using rnd_pos [of "- x"] rnd_neg [of x] rnd_nonneg [of x] by fastforce

lemma rnd_eq_zero_iff: "rnd x = 0 \<longleftrightarrow> x = 0"
  using rnd_pos [of x] rnd_neg_iff [of x] rnd_zero by (cases x "0 :: rat" rule: linorder_cases) auto

lemma rnd_abs: "rnd \<bar>x\<bar> = \<bar>rnd x\<bar>"
  using rnd_neg [of x] rnd_nonneg [of x] rnd_nonpos [of x] by (cases "0 \<le> x") auto

lemma rnd_diff_le: "rnd a = a \<Longrightarrow> 0 \<le> b \<Longrightarrow> rnd (a - b) \<le> a"
  by (rule rnd_le_fixed) simp_all

lemma rnd_diff_sign: "rnd (a - b) \<le> 0 \<longleftrightarrow> a \<le> b"
  using rnd_pos [of "a - b"] rnd_nonpos [of "a - b"] by fastforce

text \<open>A rounded quotient stays between representable bounds of the exact one.\<close>

lemma rnd_quotient_between:
  assumes "rnd lo = lo" "rnd hi = hi" "0 < q" "lo * q \<le> t" "t \<le> hi * q"
  shows "lo \<le> rnd (t / q) \<and> rnd (t / q) \<le> hi"
proof
  from assms have "lo \<le> t / q" "t / q \<le> hi"
    by (simp_all add: pos_le_divide_eq pos_divide_le_eq)
  with assms show "lo \<le> rnd (t / q)" "rnd (t / q) \<le> hi"
    by (auto intro: rnd_ge_fixed rnd_le_fixed)
qed

lemma rnd_scale_le: "rnd c = c \<Longrightarrow> 0 \<le> a \<Longrightarrow> a \<le> 1 \<Longrightarrow> 0 \<le> c \<Longrightarrow> rnd (a * c) \<le> c"
  by (rule rnd_le_fixed) (simp_all add: mult_left_le_one_le)

end

interpretation dec: rounding dround
  by unfold_locales (simp_all add: dround_mono)

lemmas dround_zero_iff [simp] = dec.rnd_eq_zero_iff
lemmas dround_neg_iff [simp] = dec.rnd_neg_iff

lemma dround_le_0_iff [simp]: "dround x \<le> 0 \<longleftrightarrow> x \<le> 0"
  using dround_pos_iff [of x] by linarith

lemma dround_ge_0_iff [simp]: "0 \<le> dround x \<longleftrightarrow> 0 \<le> x"
  using dround_neg_iff [of x] by linarith

subsection \<open>The operations\<close>

definition dadd :: "decimal \<Rightarrow> decimal \<Rightarrow> decimal" where "dadd a b = dround (a + b)"
definition dsub :: "decimal \<Rightarrow> decimal \<Rightarrow> decimal" where "dsub a b = dround (a - b)"
definition dmul :: "decimal \<Rightarrow> decimal \<Rightarrow> decimal" where "dmul a b = dround (a * b)"
definition ddiv :: "decimal \<Rightarrow> decimal \<Rightarrow> decimal" where "ddiv a b = dround (a / b)"
definition dneg :: "decimal \<Rightarrow> decimal" where "dneg a = dround (- a)"
definition dabs :: "decimal \<Rightarrow> decimal" where "dabs a = dround \<bar>a\<bar>"

text \<open>Division where the divisor is not known to be nonzero raises a decimal signal.\<close>

definition ddiv_chk :: "decimal \<Rightarrow> decimal \<Rightarrow> exn + decimal" where
  "ddiv_chk a b = (if b = 0 then Inl DecimalError else Inr (ddiv a b))"

lemmas dec_defs = dadd_def dsub_def dmul_def ddiv_def dneg_def dabs_def

text \<open>Python's \<open>sum\<close> starts from the integer 0 and adds from the left.\<close>

definition dsum :: "decimal list \<Rightarrow> decimal" where
  "dsum xs = foldl dadd 0 xs"

text \<open>
  \<open>x.quantize(Decimal(10) ** -k, rounding=ROUND_DOWN)\<close>: truncation to \<open>k\<close> places, a
  signal when the coefficient would need more than 28 digits.
\<close>

definition dtrunc :: "rat \<Rightarrow> int" where
  "dtrunc x = (if 0 \<le> x then \<lfloor>x\<rfloor> else - \<lfloor>- x\<rfloor>)"

definition quantize_down :: "nat \<Rightarrow> decimal \<Rightarrow> exn + decimal" where
  "quantize_down k x = (let n = dtrunc (x * 10 ^ k) in
     if \<bar>n\<bar> < 10 ^ 28 then Inr (of_int n / 10 ^ k) else Inl DecimalError)"

lemma quantize_down_bounds:
  assumes "quantize_down k x = Inr y" "0 \<le> x"
  shows "0 \<le> y" "y \<le> x"
proof -
  have p: "(0::rat) < 10 ^ k" by simp
  from assms have y: "y = of_int \<lfloor>x * 10 ^ k\<rfloor> / 10 ^ k"
    by (auto simp: quantize_down_def dtrunc_def Let_def zero_le_mult_iff split: if_splits)
  from assms(2) have "0 \<le> \<lfloor>x * 10 ^ k\<rfloor>" by simp
  then show "0 \<le> y" by (simp add: y)
  have "of_int \<lfloor>x * 10 ^ k\<rfloor> \<le> x * 10 ^ k" by simp
  with p show "y \<le> x" by (simp only: y pos_divide_le_eq)
qed

lemma quantize_down_fixed: "quantize_down k x = Inr y \<Longrightarrow> dround y = y"
  by (rule dround_grid [where k = k])
    (auto simp: quantize_down_def on_grid_def Let_def split: if_splits intro: exI [of _ "dtrunc (x * 10 ^ k)"])

lemma dadd_nonneg: "0 \<le> a \<Longrightarrow> 0 \<le> b \<Longrightarrow> 0 \<le> dadd a b"
  by (simp add: dadd_def)

lemma dmul_nonneg: "0 \<le> a \<Longrightarrow> 0 \<le> b \<Longrightarrow> 0 \<le> dmul a b"
  by (simp add: dmul_def)

lemma dfix_ops [simp]:
  "dround (dadd a b) = dadd a b" "dround (dsub a b) = dsub a b" "dround (dmul a b) = dmul a b"
  "dround (ddiv a b) = ddiv a b" "dround (dneg a) = dneg a" "dround (dabs a) = dabs a"
  by (simp_all add: dec_defs)

lemma dsum_snoc: "dsum (xs @ [x]) = dadd (dsum xs) x"
  by (simp add: dsum_def)

lemma foldl_dadd_nonneg: "0 \<le> a \<Longrightarrow> \<forall>x\<in>set xs. 0 \<le> x \<Longrightarrow> 0 \<le> foldl dadd a xs"
  by (induction xs arbitrary: a) (auto simp: dadd_nonneg)

lemma dsum_nonneg: "\<forall>x\<in>set xs. 0 \<le> x \<Longrightarrow> 0 \<le> dsum xs"
  unfolding dsum_def by (rule foldl_dadd_nonneg) simp_all

subsection \<open>Grids\<close>

text \<open>Sums and differences of grid numbers inside the range are exact.\<close>

definition on_step :: "nat \<Rightarrow> rat \<Rightarrow> bool" where
  "on_step k x \<longleftrightarrow> x * 10 ^ k \<in> \<int>"

lemma on_step_add: "on_step k x \<Longrightarrow> on_step k y \<Longrightarrow> on_step k (x + y)"
  by (simp add: on_step_def distrib_right)

lemma on_step_diff: "on_step k x \<Longrightarrow> on_step k y \<Longrightarrow> on_step k (x - y)"
  by (simp add: on_step_def left_diff_distrib)

lemma on_step_0 [simp]: "on_step k 0"
  by (simp add: on_step_def)

lemma dround_step: "on_step k x \<Longrightarrow> \<bar>x\<bar> * 10 ^ k \<le> 10 ^ 28 \<Longrightarrow> dround x = x"
proof (rule dround_grid)
  assume *: "on_step k x" "\<bar>x\<bar> * 10 ^ k \<le> 10 ^ 28"
  then obtain n where n: "x * 10 ^ k = of_int n" by (auto simp: on_step_def elim: Ints_cases)
  then have "\<bar>x\<bar> * 10 ^ k = \<bar>of_int n\<bar>" by (metis abs_mult abs_numeral power_abs)
  with * have "of_int \<bar>n\<bar> \<le> (of_int (10 ^ 28) :: rat)" by simp
  then have "\<bar>n\<bar> \<le> 10 ^ 28" by (simp only: of_int_le_iff)
  with n show "on_grid k x" by (auto simp: on_grid_def)
qed

text \<open>To evaluate a rounding: the exponent, and a coefficient closer than half a unit.\<close>

lemma rhe_eqI: "of_int k - 1 / 2 < x \<Longrightarrow> x < of_int k + 1 / 2 \<Longrightarrow> rhe x = k"
proof -
  assume x: "of_int k - 1 / 2 < x" "x < of_int k + 1 / 2"
  have "\<bar>of_int (rhe x) - x\<bar> \<le> 1 / 2" by (rule rhe_error)
  with x have "\<bar>of_int (rhe x) - of_int k\<bar> < (1 :: rat)" by linarith
  then have "\<bar>of_int (rhe x - k)\<bar> < (1 :: rat)" by simp
  then show ?thesis by linarith
qed

lemma dround_eqI:
  assumes "p10 e \<le> x" "x < p10 (e + 1)" "\<bar>x * p10 (27 - e) - of_int c\<bar> < 1 / 2"
  shows "dround x = of_int c * p10 (e - 27)"
proof -
  have "0 < x" using assms(1) p10_pos [of e] by linarith
  moreover have "dexp x = e" using assms(1,2) by (rule dexp_unique)
  moreover have "rhe (x * p10 (27 - e)) = c" using assms(3) by (intro rhe_eqI) linarith+
  ultimately show ?thesis by (simp add: dround_def pround_def)
qed

text \<open>For the evaluation of concrete decimals with at most twelve places.\<close>

lemma dround_small: "x * 10 ^ 12 \<in> \<int> \<Longrightarrow> \<bar>x\<bar> \<le> 10 ^ 16 \<Longrightarrow> dround x = x"
  by (rule dround_step [where k = 12]) (simp_all add: on_step_def)

lemmas dec_eval = dec_defs dround_small

end
