(* ===== verification/Core_Types.thy ===== *)
theory Core_Types
  imports Decimals
begin

text \<open>
  The domain types of \<^verbatim>\<open>core/types.py\<close>: enumerations, the frozen dataclasses as records and
  their derived properties. A frozen dataclass is copied by \<^verbatim>\<open>replace\<close>; the model uses
  record update. \<open>lot_post_init\<close> is the \<^verbatim>\<open>__post_init__\<close> of \<^verbatim>\<open>Lot\<close>, which runs on
  construction and on every \<^verbatim>\<open>replace\<close>.
\<close>

type_synonym intent_id = uuid
type_synonym order_id = uuid
type_synonym fill_id = uuid
type_synonym lot_id = uuid
type_synonym symbol = string

definition dust_notional_usd :: decimal where
  "dust_notional_usd = 1 / 100"

definition normalize_symbol :: "symbol \<Rightarrow> symbol" where
  "normalize_symbol s = (if CHR ''/'' \<in> set s then filter (\<lambda>c. c \<noteq> CHR ''/'') s else s)"

lemma normalize_symbol_eq: "normalize_symbol s = filter (\<lambda>c. c \<noteq> CHR ''/'') s"
  by (auto simp: normalize_symbol_def filter_id_conv intro!: filter_True [symmetric])

lemma normalize_symbol_no_slash [simp]: "CHR ''/'' \<notin> set (normalize_symbol s)"
  by (simp add: normalize_symbol_eq)

lemma normalize_symbol_idem [simp]: "normalize_symbol (normalize_symbol s) = normalize_symbol s"
  by (simp add: normalize_symbol_eq)

subsection \<open>Texts of ids\<close>

text \<open>
  \<open>uuid_text\<close> stands for the text \<^verbatim>\<open>str(uuid4())\<close> of an id: decimal digits. All the code relies
  on is that different ids have different texts.
\<close>

definition digit :: "nat \<Rightarrow> char" where
  "digit n = char_of (48 + n)"

fun uuid_text :: "uuid \<Rightarrow> string" where
  "uuid_text n = (if n < 10 then [digit n] else uuid_text (n div 10) @ [digit (n mod 10)])"

declare uuid_text.simps [simp del]

lemma digit_inj: "m < 10 \<Longrightarrow> n < 10 \<Longrightarrow> digit m = digit n \<Longrightarrow> m = n"
  by (auto simp: digit_def dest: arg_cong [where f = of_char])

lemma uuid_text_inj: "uuid_text m = uuid_text n \<Longrightarrow> m = n"
proof (induction m arbitrary: n rule: uuid_text.induct)
  case (1 m)
  have ne: "uuid_text k \<noteq> []" for k by (subst uuid_text.simps) simp
  show ?case
  proof (cases "m < 10 \<or> n < 10")
    case True
    with 1 ne ne [symmetric] digit_inj show ?thesis by (auto simp: uuid_text.simps [of m] uuid_text.simps [of n] split: if_splits)
  next
    case False
    with 1(2) have "uuid_text (m div 10) = uuid_text (n div 10)" "digit (m mod 10) = digit (n mod 10)"
      by (simp_all add: uuid_text.simps [of m] uuid_text.simps [of n])
    with False 1(1) digit_inj [of "m mod 10" "n mod 10"] have "m div 10 = n div 10" "m mod 10 = n mod 10"
      by auto
    then show ?thesis by (metis div_mult_mod_eq)
  qed
qed

subsection \<open>Enumerations\<close>

datatype agent_id = HAIKU | SONNET | OPUS | MANAGER
datatype sleeve = EQUITY_SLEEVE | CRYPTO_SLEEVE | OPTIONS_SLEEVE
datatype action = BUY_ACT | SELL_ACT | REBALANCE_TO | CLOSE_ACT
datatype order_side = BUY | SELL
datatype order_type = MARKET | LIMIT | STOP | STOP_LIMIT | TRAILING_STOP
datatype order_class = SIMPLE | BRACKET | OCO | OTO | MLEG
datatype time_in_force = DAY | GTC | OPG | CLS | IOC | FOK
datatype order_state =
  PENDING | SUBMITTED | ACCEPTED | PARTIAL | FILLED | CANCELLED | REJECTED | EXPIRED
datatype order_event = SUBMIT | ACCEPT | PARTIAL_FILL | FULL_FILL | CANCEL | REJECT | EXPIRE
datatype kill_switch_state =
    OK | DAILY_LOSS | DRAWDOWN_HALVED | DRAWDOWN_PAUSED | DRAWDOWN_LIQUIDATE
  | RECONCILIATION_BREAK | HEARTBEAT_MISSED | BUDGET_EXHAUSTED
datatype drawdown_bucket = NORMAL | YELLOW | ORANGE | RED | FORCED_CASH
datatype vix_bucket = VERY_LOW | SWEET_SPOT | ELEVATED | STRESS | CRISIS
datatype lot_method = FIFO | LIFO
datatype asset_class = EQUITY | ETF | CRYPTO | OPTION

definition all_agents :: "agent_id list" where
  "all_agents = [HAIKU, SONNET, OPUS, MANAGER]"

lemma all_agents_complete [simp]: "a \<in> set all_agents"
  by (cases a) (simp_all add: all_agents_def)

lemma all_agents_distinct [simp]: "distinct all_agents"
  by (simp add: all_agents_def)

text \<open>The position of a bucket in the ladder: a worse bucket is greater.\<close>

fun bucket_rank :: "drawdown_bucket \<Rightarrow> nat" where
  "bucket_rank NORMAL = 0"
| "bucket_rank YELLOW = 1"
| "bucket_rank ORANGE = 2"
| "bucket_rank RED = 3"
| "bucket_rank FORCED_CASH = 4"

lemma bucket_rank_inj: "bucket_rank a = bucket_rank b \<Longrightarrow> a = b"
  by (cases a; cases b) auto

instantiation drawdown_bucket :: linorder
begin

definition less_eq_drawdown_bucket :: "drawdown_bucket \<Rightarrow> drawdown_bucket \<Rightarrow> bool" where
  "less_eq_drawdown_bucket a b \<longleftrightarrow> bucket_rank a \<le> bucket_rank b"

definition less_drawdown_bucket :: "drawdown_bucket \<Rightarrow> drawdown_bucket \<Rightarrow> bool" where
  "less_drawdown_bucket a b \<longleftrightarrow> bucket_rank a < bucket_rank b"

instance
  by standard (auto simp: less_eq_drawdown_bucket_def less_drawdown_bucket_def intro: bucket_rank_inj)

end

lemmas bucket_order = less_eq_drawdown_bucket_def less_drawdown_bucket_def

text \<open>VIX buckets from calm to crisis.\<close>

fun vix_rank :: "vix_bucket \<Rightarrow> nat" where
  "vix_rank VERY_LOW = 0"
| "vix_rank SWEET_SPOT = 1"
| "vix_rank ELEVATED = 2"
| "vix_rank STRESS = 3"
| "vix_rank CRISIS = 4"

lemma vix_rank_inj: "vix_rank a = vix_rank b \<Longrightarrow> a = b"
  by (cases a; cases b) auto

instantiation vix_bucket :: linorder
begin

definition less_eq_vix_bucket :: "vix_bucket \<Rightarrow> vix_bucket \<Rightarrow> bool" where
  "less_eq_vix_bucket a b \<longleftrightarrow> vix_rank a \<le> vix_rank b"

definition less_vix_bucket :: "vix_bucket \<Rightarrow> vix_bucket \<Rightarrow> bool" where
  "less_vix_bucket a b \<longleftrightarrow> vix_rank a < vix_rank b"

instance
  by standard (auto simp: less_eq_vix_bucket_def less_vix_bucket_def intro: vix_rank_inj)

end

subsection \<open>Domain objects\<close>

record option_leg =
  leg_symbol :: symbol
  leg_side :: order_side
  leg_ratio_qty :: int

record intent =
  i_id :: intent_id
  i_agent_id :: agent_id
  i_symbol :: symbol
  i_action :: action
  i_target_weight :: decimal
  i_sleeve :: sleeve
  i_signal :: string
  i_conviction :: int
  i_rationale :: string
  i_timestamp :: datetime
  i_regime_observation :: string
  i_requires_approval :: bool
  i_legs :: "option_leg list"

record order =
  o_id :: order_id
  o_intent_id :: intent_id
  o_agent_id :: agent_id
  o_symbol :: symbol
  o_side :: order_side
  o_qty :: decimal
  o_order_type :: order_type
  o_order_class :: order_class
  o_time_in_force :: time_in_force
  o_state :: order_state
  o_created_at :: datetime
  o_limit_price :: "decimal option"
  o_stop_price :: "decimal option"
  o_trail_percent :: "decimal option"
  o_broker_order_id :: "string option"
  o_legs :: "option_leg list"
  o_submitted_at :: "datetime option"
  o_filled_at :: "datetime option"
  o_filled_qty :: decimal
  o_filled_avg_price :: "decimal option"
  o_rejection_reason :: "string option"
  o_is_letf :: bool
  o_letf_entry_date :: "date option"

record fill =
  f_id :: fill_id
  f_order_id :: order_id
  f_agent_id :: agent_id
  f_symbol :: symbol
  f_side :: order_side
  f_qty :: decimal
  f_price :: decimal
  f_timestamp :: datetime
  f_commission :: decimal
  f_is_partial :: bool

record position =
  p_agent_id :: agent_id
  p_symbol :: symbol
  p_qty :: decimal
  p_avg_entry_price :: decimal
  p_current_price :: decimal
  p_asset_class :: asset_class
  p_sleeve :: sleeve
  p_as_of :: datetime

definition market_value :: "position \<Rightarrow> decimal" where
  "market_value p = dmul (p_qty p) (p_current_price p)"

definition unrealized_pnl :: "position \<Rightarrow> decimal" where
  "unrealized_pnl p = dmul (dsub (p_current_price p) (p_avg_entry_price p)) (p_qty p)"

definition unrealized_pnl_pct :: "position \<Rightarrow> decimal" where
  "unrealized_pnl_pct p =
     (if p_avg_entry_price p = 0 then 0
      else ddiv (dsub (p_current_price p) (p_avg_entry_price p)) (p_avg_entry_price p))"

record lot =
  l_id :: lot_id
  l_agent_id :: agent_id
  l_symbol :: symbol
  l_qty :: decimal
  l_entry_price :: decimal
  l_entry_date :: date
  l_entry_fill_id :: fill_id
  l_remaining_qty :: decimal
  l_exit_fill_id :: "fill_id option"
  l_exit_date :: "date option"
  l_exit_price :: "decimal option"
  l_is_closed :: bool

definition lot_post_init :: "lot \<Rightarrow> lot" where
  "lot_post_init l =
     (if l_remaining_qty l = 0 \<and> \<not> l_is_closed l then l\<lparr>l_remaining_qty := l_qty l\<rparr> else l)"

definition holding_days :: "lot \<Rightarrow> int option" where
  "holding_days l = (case l_exit_date l of None \<Rightarrow> None | Some d \<Rightarrow> Some (d - l_entry_date l))"

definition is_long_term :: "lot \<Rightarrow> bool" where
  "is_long_term l = (case holding_days l of None \<Rightarrow> False | Some d \<Rightarrow> 366 \<le> d)"

definition realized_pnl :: "lot \<Rightarrow> decimal option" where
  "realized_pnl l = (case l_exit_price l of
       None \<Rightarrow> None
     | Some x \<Rightarrow> Some (dmul (dsub x (l_entry_price l)) (dsub (l_qty l) (l_remaining_qty l))))"

record agent_state =
  as_agent_id :: agent_id
  as_sleeve_equity :: decimal
  as_sleeve_peak_equity :: decimal
  as_drawdown_bucket :: drawdown_bucket
  as_drawdown_bucket_entry_date :: "date option"
  as_consecutive_losses :: int
  as_is_benched :: bool
  as_bench_until :: "datetime option"
  as_day_trade_count :: int
  as_orders_today :: int
  as_last_memo_id :: "uuid option"

definition drawdown_pct :: "agent_state \<Rightarrow> decimal" where
  "drawdown_pct s =
     (if as_sleeve_peak_equity s = 0 then 0
      else ddiv (dsub (as_sleeve_peak_equity s) (as_sleeve_equity s)) (as_sleeve_peak_equity s))"

record market_snapshot =
  ms_current_prices :: "(symbol, decimal) dict"
  ms_realized_vol_30d :: "(symbol, decimal) dict"
  ms_vix_bucket :: vix_bucket
  ms_timestamp :: datetime

subsection \<open>Facts on the data\<close>

lemma normalize_symbol_plain: "CHR ''/'' \<notin> set s \<Longrightarrow> normalize_symbol s = s"
  by (simp add: normalize_symbol_def)

lemma lot_post_init_closed [simp]: "l_is_closed l \<Longrightarrow> lot_post_init l = l"
  by (simp add: lot_post_init_def)

lemma lot_post_init_open [simp]: "l_remaining_qty l \<noteq> 0 \<Longrightarrow> lot_post_init l = l"
  by (simp add: lot_post_init_def)

lemma drawdown_pct_nonneg:
  "0 < as_sleeve_peak_equity s \<Longrightarrow> as_sleeve_equity s \<le> as_sleeve_peak_equity s \<Longrightarrow> 0 \<le> drawdown_pct s"
  by (simp add: drawdown_pct_def dec_defs)

end
