(* ===== verification/Broker.thy ===== *)
theory Broker
  imports Core_Types
begin

text \<open>
  The broker-side types of \<^verbatim>\<open>execution/broker.py\<close> and the contract of its protocol that
  crash recovery relies on, as a locale. A call that fires the registered callback returns
  the events it fires, in order.
\<close>

datatype broker_order_state =
  B_NEW | B_ACCEPTED | B_PARTIALLY_FILLED | B_FILLED | B_CANCELED | B_REJECTED | B_EXPIRED | B_UNKNOWN

record order_status =
  bs_broker_id :: string
  bs_client_id :: order_id
  bs_symbol :: symbol
  bs_side :: order_side
  bs_qty :: decimal
  bs_filled_qty :: decimal
  bs_avg_fill_price :: "decimal option"
  bs_state :: broker_order_state
  bs_submitted_at :: datetime
  bs_updated_at :: datetime
  bs_rejection_reason :: "string option"

record broker_position =
  bp_symbol :: symbol
  bp_qty :: decimal
  bp_avg_entry_price :: decimal
  bp_current_price :: decimal
  bp_asset_class :: asset_class

record broker_account =
  ba_cash :: decimal
  ba_equity :: decimal
  ba_buying_power :: decimal
  ba_pattern_day_trader :: bool
  ba_daytrade_count :: int

record order_event_msg =
  be_broker_id :: string
  be_client_id :: order_id
  be_state :: broker_order_state
  be_fill :: "fill option"
  be_reason :: "string option"
  be_timestamp :: "datetime option"

definition broker_terminal :: "broker_order_state \<Rightarrow> bool" where
  "broker_terminal s \<longleftrightarrow> s \<in> {B_FILLED, B_CANCELED, B_REJECTED, B_EXPIRED}"

subsection \<open>The contract\<close>

text \<open>
  \<open>submit\<close> is idempotent on the client id: once a submission got an id, the broker has a record
  of the order under that id, and another submission changes nothing and, when it answers,
  answers that id. \<open>kept\<close> is what any other traffic must preserve.
\<close>

locale broker_contract =
  fixes submit :: "order \<Rightarrow> 'b \<Rightarrow> (exn + string) \<times> order_event_msg list \<times> 'b"
    and lookup :: "order_id \<Rightarrow> 'b \<Rightarrow> order_status option"
    and good :: "'b \<Rightarrow> bool"
  assumes good_submit: "good b \<Longrightarrow> submit ord b = (res, evs, b') \<Longrightarrow> good b'"
    and submit_known: "good b \<Longrightarrow> lookup (o_id ord) b = Some st \<Longrightarrow> submit ord b = (Inr bid, evs, b') \<Longrightarrow>
      bid = bs_broker_id st \<and> evs = [] \<and> lookup (o_id ord) b' = Some st"
    and submit_accepted: "good b \<Longrightarrow> submit ord b = (Inr bid, evs, b') \<Longrightarrow>
      \<exists>st. lookup (o_id ord) b' = Some st \<and> bs_broker_id st = bid"
    and submit_refused: "good b \<Longrightarrow> lookup (o_id ord) b = Some st \<Longrightarrow> submit ord b = (Inl e, evs, b') \<Longrightarrow>
      lookup (o_id ord) b' = Some st"
begin

text \<open>A client that retries until it gets an answer, \<open>n\<close> times at most.\<close>

fun retry :: "nat \<Rightarrow> order \<Rightarrow> 'b \<Rightarrow> (exn + string) list \<times> 'b" where
  "retry 0 ord b = ([], b)"
| "retry (Suc n) ord b = (case submit ord b of (res, evs, b') \<Rightarrow>
     (case retry n ord b' of (rs, b'') \<Rightarrow> (res # rs, b'')))"

lemma retry_good: "good b \<Longrightarrow> good (snd (retry n ord b))"
  by (induction n arbitrary: b) (auto split: prod.splits dest: good_submit, metis good_submit snd_conv)

lemma retry_known:
  "good b \<Longrightarrow> lookup (o_id ord) b = Some st \<Longrightarrow> Inr bid \<in> set (fst (retry n ord b)) \<Longrightarrow> bid = bs_broker_id st"
proof (induction n arbitrary: b)
  case (Suc n)
  obtain res evs b' where s: "submit ord b = (res, evs, b')" by (cases "submit ord b") auto
  obtain rs b'' where r: "retry n ord b' = (rs, b'')" by (cases "retry n ord b'") auto
  have known: "lookup (o_id ord) b' = Some st"
    using submit_known [OF Suc.prems(1,2)] submit_refused [OF Suc.prems(1,2)] s by (cases res) auto
  from Suc.prems(3) s r consider "res = Inr bid" | "Inr bid \<in> set rs" by auto
  then show ?case
  proof cases
    case 1
    with submit_known [OF Suc.prems(1,2)] s show ?thesis by simp
  next
    case 2
    with Suc.IH [OF good_submit [OF Suc.prems(1) s] known] r show ?thesis by simp
  qed
qed simp

text \<open>All the answers a retrying client ever gets are the same id.\<close>

lemma retry_one_id:
  "good b \<Longrightarrow> Inr bid \<in> set (fst (retry n ord b)) \<Longrightarrow> Inr bid' \<in> set (fst (retry n ord b)) \<Longrightarrow> bid = bid'"
proof (induction n arbitrary: b)
  case (Suc n)
  obtain res evs b' where s: "submit ord b = (res, evs, b')" by (cases "submit ord b") auto
  obtain rs b'' where r: "retry n ord b' = (rs, b'')" by (cases "retry n ord b'") auto
  have g: "good b'" using good_submit [OF Suc.prems(1) s] .
  show ?case
  proof (cases res)
    case (Inl e)
    with Suc s r g show ?thesis by auto
  next
    case (Inr x)
    with submit_accepted [OF Suc.prems(1)] s obtain st where
      st: "lookup (o_id ord) b' = Some st" "bs_broker_id st = x" by blast
    have "y = x" if "Inr y \<in> set rs" for y
      using retry_known [OF g st(1), of y n] that r st(2) by simp
    with Suc.prems(2,3) s r Inr show ?thesis by auto
  qed
qed simp

end

end
