(* ===== verification/Events.thy ===== *)
theory Events
  imports Core_Types
begin

text \<open>
  The typed events and the bus of \<^verbatim>\<open>core/events.py\<close>. An event class is a constructor with the
  fields its class adds; the default time stamp is left out where no caller sets it. A handler
  is known by a number: \<open>publish\<close> gives the handlers it calls, in order. Components that
  publish keep the list of the events they published.
\<close>

datatype bus_event =
    IntentSubmitted intent
  | IntentApproved intent_id
  | IntentRejected intent_id string
  | OrderPlaced order
  | OrderStateChanged order_id order_state order_state datetime
  | FillReceived fill
  | KillSwitchTripped "agent_id option" kill_switch_state string
  | KillSwitchReset "agent_id option"
  | ReconciliationBreak symbol decimal decimal decimal
  | HeartbeatMissed rat
  | BudgetExhaustedEvent decimal
  | AgentBenched agent_id int
  | DrawdownLadderFired "agent_id option" decimal drawdown_bucket
  | LETFAutoLiquidated agent_id symbol int
  | LeverageRotationFlag agent_id symbol string int
  | IntentSized intent_id agent_id symbol decimal decimal decimal decimal decimal decimal string decimal
  | NewsHighImpactScored symbol int string datetime
  | PositionIntradayShock symbol decimal decimal decimal "agent_id list"

fun event_name :: "bus_event \<Rightarrow> string" where
  "event_name (IntentSubmitted _) = ''intent.submitted''"
| "event_name (IntentApproved _) = ''intent.approved''"
| "event_name (IntentRejected _ _) = ''intent.rejected''"
| "event_name (OrderPlaced _) = ''order.placed''"
| "event_name (OrderStateChanged _ _ _ _) = ''order.state_changed''"
| "event_name (FillReceived _) = ''fill.received''"
| "event_name (KillSwitchTripped _ _ _) = ''kill_switch.tripped''"
| "event_name (KillSwitchReset _) = ''kill_switch.reset''"
| "event_name (ReconciliationBreak _ _ _ _) = ''reconciliation.break''"
| "event_name (HeartbeatMissed _) = ''heartbeat.missed''"
| "event_name (BudgetExhaustedEvent _) = ''budget.exhausted''"
| "event_name (AgentBenched _ _) = ''agent.benched''"
| "event_name (DrawdownLadderFired _ _ _) = ''drawdown.ladder_fired''"
| "event_name (LETFAutoLiquidated _ _ _) = ''letf.auto_liquidated''"
| "event_name (LeverageRotationFlag _ _ _ _) = ''leverage.rotation_flag''"
| "event_name (IntentSized _ _ _ _ _ _ _ _ _ _ _) = ''intent.sized''"
| "event_name (NewsHighImpactScored _ _ _ _) = ''news.high_impact_scored''"
| "event_name (PositionIntradayShock _ _ _ _ _) = ''position.intraday_shock''"

type_synonym handler = nat
type_synonym event_bus = "(string, handler list) dict"

definition subscribe :: "string \<Rightarrow> handler \<Rightarrow> event_bus \<Rightarrow> event_bus" where
  "subscribe n h b = dict_set n (dict_get_or b n [] @ [h]) b"

definition unsubscribe :: "string \<Rightarrow> handler \<Rightarrow> event_bus \<Rightarrow> event_bus" where
  "unsubscribe n h b = dict_set n (filter (\<lambda>k. k \<noteq> h) (dict_get_or b n [])) b"

definition subscribe_all :: "handler \<Rightarrow> event_bus \<Rightarrow> event_bus" where
  "subscribe_all h b = subscribe ''*'' h b"

definition publish_to :: "bus_event \<Rightarrow> event_bus \<Rightarrow> handler list" where
  "publish_to e b = dict_get_or b (event_name e) [] @ dict_get_or b ''*'' []"

text \<open>No event is named like the wildcard, so no handler runs twice for one subscription.\<close>

lemma event_name_not_wild [simp]: "event_name e \<noteq> ''*''"
  by (cases e) simp_all

lemma publish_subscribe:
  "publish_to e (subscribe n h b) =
    (if n = event_name e then dict_get_or b n [] @ [h] @ dict_get_or b ''*'' []
     else if n = ''*'' then publish_to e b @ [h] else publish_to e b)"
  using event_name_not_wild [of e, symmetric] by (auto simp: publish_to_def subscribe_def dict_get_or_def split: option.split)

lemma publish_unsubscribe:
  "n \<noteq> ''*'' \<Longrightarrow> h \<notin> set (dict_get_or b ''*'' []) \<Longrightarrow> h \<notin> set (publish_to e (unsubscribe n h b)) \<or> n \<noteq> event_name e"
  by (auto simp: publish_to_def unsubscribe_def dict_get_or_def split: option.splits)

end
