(* ===== verification/Effects.thy ===== *)
theory Effects
  imports Prelude
begin

text \<open>
  Stateful operations that may raise: a function from the state to a result and the state it
  leaves. Python keeps every mutation made before an exception, so the state is returned in
  both cases. \<open>triple P m Q X\<close> is a Hoare triple with an exceptional postcondition.
\<close>

type_synonym ('s, 'a) eff = "'s \<Rightarrow> (exn + 'a) \<times> 's"

definition ret :: "'a \<Rightarrow> ('s, 'a) eff" where
  "ret x s = (Inr x, s)"

definition raise :: "exn \<Rightarrow> ('s, 'a) eff" where
  "raise e s = (Inl e, s)"

definition modify :: "('s \<Rightarrow> 's) \<Rightarrow> ('s, unit) eff" where
  "modify f s = (Inr (), f s)"

definition gets :: "('s \<Rightarrow> 'a) \<Rightarrow> ('s, 'a) eff" where
  "gets f s = (Inr (f s), s)"

definition lift_res :: "exn + 'a \<Rightarrow> ('s, 'a) eff" where
  "lift_res r s = (r, s)"

definition andthen :: "('s, 'a) eff \<Rightarrow> ('a \<Rightarrow> ('s, 'b) eff) \<Rightarrow> ('s, 'b) eff" where
  "andthen m f s = (case m s of (Inl e, t) \<Rightarrow> (Inl e, t) | (Inr x, t) \<Rightarrow> f x t)"

definition skip :: "('s, unit) eff" where
  "skip = ret ()"

text \<open>A key that must be present: \<open>KeyError\<close> otherwise.\<close>

definition fetch :: "('s \<Rightarrow> ('k, 'v) dict) \<Rightarrow> 'k \<Rightarrow> ('s, 'v) eff" where
  "fetch field k s = (case dict_get (field s) k of None \<Rightarrow> (Inl KeyError, s) | Some v \<Rightarrow> (Inr v, s))"

fun each :: "('a \<Rightarrow> ('s, unit) eff) \<Rightarrow> 'a list \<Rightarrow> ('s, unit) eff" where
  "each f [] = skip"
| "each f (x # xs) = andthen (f x) (\<lambda>_. each f xs)"

lemmas eff_defs = ret_def raise_def modify_def gets_def lift_res_def andthen_def skip_def fetch_def

lemma andthen_Inr: "andthen m f s = (Inr y, t) \<longleftrightarrow> (\<exists>x u. m s = (Inr x, u) \<and> f x u = (Inr y, t))"
  by (auto simp: andthen_def split: prod.split sum.split)

definition triple :: "('s \<Rightarrow> bool) \<Rightarrow> ('s, 'a) eff \<Rightarrow> ('a \<Rightarrow> 's \<Rightarrow> bool) \<Rightarrow> ('s \<Rightarrow> bool) \<Rightarrow> bool" where
  "triple P m Q X \<longleftrightarrow> (\<forall>s. P s \<longrightarrow> (case m s of (Inl _, t) \<Rightarrow> X t | (Inr x, t) \<Rightarrow> Q x t))"

abbreviation keeps :: "('s \<Rightarrow> bool) \<Rightarrow> ('s, 'a) eff \<Rightarrow> bool" where
  "keeps P m \<equiv> triple P m (\<lambda>_. P) P"

lemma triple_bind:
  "triple P m R X \<Longrightarrow> (\<And>x. triple (R x) (f x) Q X) \<Longrightarrow> triple P (andthen m f) Q X"
  by (fastforce simp: triple_def andthen_def split: prod.split sum.split)

lemma triple_ret: "(\<And>s. P s \<Longrightarrow> Q x s) \<Longrightarrow> triple P (ret x) Q X"
  by (simp add: triple_def ret_def)

lemma triple_weaken: "triple P m Q X \<Longrightarrow> (\<And>s. P' s \<Longrightarrow> P s) \<Longrightarrow> triple P' m Q X"
  by (auto simp: triple_def)

lemma triple_strengthen:
  "triple P m Q X \<Longrightarrow> (\<And>x s. Q x s \<Longrightarrow> Q' x s) \<Longrightarrow> (\<And>s. X s \<Longrightarrow> X' s) \<Longrightarrow> triple P m Q' X'"
  by (fastforce simp: triple_def split: prod.splits sum.splits)

lemma keeps_iff: "keeps P m \<longleftrightarrow> (\<forall>s. P s \<longrightarrow> P (snd (m s)))"
  by (auto simp: triple_def case_prod_beta split: sum.split)

lemma keepsD: "keeps P m \<Longrightarrow> P s \<Longrightarrow> m s = (r, t) \<Longrightarrow> P t"
  by (auto simp: keeps_iff)

lemma keeps_ret [intro!]: "keeps P (ret x)" and keeps_raise [intro!]: "keeps P (raise e)"
  and keeps_skip [intro!]: "keeps P skip" and keeps_gets [intro!]: "keeps P (gets f)"
  and keeps_lift [intro!]: "keeps P (lift_res r)" and keeps_fetch [intro!]: "keeps P (fetch g k)"
  by (auto simp: keeps_iff eff_defs split: option.split)

lemma keeps_modify: "(\<And>s. P s \<Longrightarrow> P (f s)) \<Longrightarrow> keeps P (modify f)"
  by (simp add: keeps_iff modify_def)

lemma keeps_bind [intro]: "keeps P m \<Longrightarrow> (\<And>x. keeps P (f x)) \<Longrightarrow> keeps P (andthen m f)"
  by (rule triple_bind)

lemma keeps_each [intro]: "(\<And>x. x \<in> set xs \<Longrightarrow> keeps P (f x)) \<Longrightarrow> keeps P (each f xs)"
  by (induction xs) auto

lemma each_append: "each f (xs @ ys) s = andthen (each f xs) (\<lambda>_. each f ys) s"
  by (induction xs arbitrary: s) (auto simp: eff_defs split: prod.split sum.split)

end
