(* ===== verification/State_Machine.thy ===== *)
theory State_Machine
  imports Core_Types
begin

text \<open>
  \<^verbatim>\<open>core/state_machine.py\<close>: the generic guarded machine and the order life cycle built
  from it. A guard reads and an action changes an external world of type \<open>'w\<close> (the
  variables their closures capture). The history records a forced reset with no event,
  where the code stores a sentinel.

  The locale \<open>lifecycle\<close> is the contract the order store relies on: arcs that never lead
  out of a terminal state, and \<open>ranked_lifecycle\<close> adds a rank no arc lowers. The order
  table interprets both.
\<close>

record ('s, 'e, 'w) transition =
  t_from :: 's
  t_event :: 'e
  t_to :: 's
  t_guard :: "('w \<Rightarrow> bool) option"
  t_action :: "('w \<Rightarrow> 'w) option"

record ('s, 'e, 'w) machine =
  m_state :: 's
  m_table :: "('s \<times> 'e, ('s, 'e, 'w) transition) dict"
  m_history :: "('s \<times> 'e option \<times> 's) list"

fun add_arcs ::
  "('s, 'e, 'w) transition list \<Rightarrow> ('s \<times> 'e, ('s, 'e, 'w) transition) dict
     \<Rightarrow> exn + ('s \<times> 'e, ('s, 'e, 'w) transition) dict" where
  "add_arcs [] tab = Inr tab"
| "add_arcs (t # ts) tab =
     (let key = (t_from t, t_event t) in
      if dict_get tab key \<noteq> None then Inl ValueError
      else add_arcs ts (dict_set key t tab))"

definition new_machine :: "'s \<Rightarrow> ('s, 'e, 'w) transition list \<Rightarrow> exn + ('s, 'e, 'w) machine" where
  "new_machine s0 ts = (case add_arcs ts [] of
       Inl e \<Rightarrow> Inl e
     | Inr tab \<Rightarrow> Inr \<lparr>m_state = s0, m_table = tab, m_history = []\<rparr>)"

definition can_trigger :: "('s, 'e, 'w) machine \<Rightarrow> 'e \<Rightarrow> 'w \<Rightarrow> bool" where
  "can_trigger m e w = (case dict_get (m_table m) (m_state m, e) of
       None \<Rightarrow> False
     | Some t \<Rightarrow> (case t_guard t of None \<Rightarrow> True | Some g \<Rightarrow> g w))"

definition trigger :: "('s, 'e, 'w) machine \<Rightarrow> 'e \<Rightarrow> 'w \<Rightarrow> bool \<times> ('s, 'e, 'w) machine \<times> 'w" where
  "trigger m e w = (case dict_get (m_table m) (m_state m, e) of
       None \<Rightarrow> (False, m, w)
     | Some t \<Rightarrow>
         if (case t_guard t of None \<Rightarrow> False | Some g \<Rightarrow> \<not> g w) then (False, m, w)
         else (let w' = (case t_action t of None \<Rightarrow> w | Some act \<Rightarrow> act w);
                   old = m_state m
               in (True, m\<lparr>m_state := t_to t, m_history := m_history m @ [(old, Some e, t_to t)]\<rparr>, w')))"

definition valid_events :: "('s, 'e, 'w) machine \<Rightarrow> 'e list" where
  "valid_events m = [e. (s, e) \<leftarrow> dict_keys (m_table m), s = m_state m]"

definition reset_machine :: "('s, 'e, 'w) machine \<Rightarrow> 's \<Rightarrow> ('s, 'e, 'w) machine" where
  "reset_machine m s = m\<lparr>m_history := m_history m @ [(m_state m, None, s)], m_state := s\<rparr>"

subsection \<open>The generic machine\<close>

text \<open>The history is a walk that ends in the current state.\<close>

fun walk :: "'s \<Rightarrow> ('s \<times> 'e option \<times> 's) list \<Rightarrow> 's \<Rightarrow> bool" where
  "walk a [] b = (a = b)"
| "walk a ((x, e, y) # h) b = (a = x \<and> walk y h b)"

lemma walk_snoc: "walk a (h @ [(x, e, y)]) b \<longleftrightarrow> walk a h x \<and> y = b"
  by (induction a h x rule: walk.induct) auto

lemma trigger_walk: "walk a (m_history m) (m_state m) \<Longrightarrow> trigger m e w = (ok, m', w') \<Longrightarrow>
   walk a (m_history m') (m_state m')"
  by (auto simp: trigger_def Let_def walk_snoc split: option.splits if_splits)

lemma reset_walk: "walk a (m_history m) (m_state m) \<Longrightarrow>
   walk a (m_history (reset_machine m s)) (m_state (reset_machine m s))"
  by (simp add: reset_machine_def walk_snoc)

lemma trigger_table: "trigger m e w = (ok, m', w') \<Longrightarrow> m_table m' = m_table m"
  by (auto simp: trigger_def Let_def split: option.splits if_splits)

lemma trigger_ok: "fst (trigger m e w) = can_trigger m e w"
  by (auto simp: trigger_def can_trigger_def Let_def split: option.splits)

lemma trigger_refused: "\<not> can_trigger m e w \<Longrightarrow> trigger m e w = (False, m, w)"
  by (auto simp: trigger_def can_trigger_def split: option.splits)

lemma add_arcs_sound:
  "add_arcs ts tab = Inr tab' \<Longrightarrow> dict_get tab' k = Some t \<Longrightarrow>
   dict_get tab k = Some t \<or> (t \<in> set ts \<and> k = (t_from t, t_event t))"
  by (induction ts tab rule: add_arcs.induct) (auto simp: Let_def split: if_splits)

lemma add_arcs_keeps:
  "add_arcs ts tab = Inr tab' \<Longrightarrow> dict_get tab k = Some t \<Longrightarrow> dict_get tab' k = Some t"
proof (induction ts tab rule: add_arcs.induct)
  case (2 u ts tab)
  then show ?case by (cases "k = (t_from u, t_event u)") (auto simp: Let_def split: if_splits)
qed simp

lemma add_arcs_complete:
  "add_arcs ts tab = Inr tab' \<Longrightarrow> t \<in> set ts \<Longrightarrow> dict_get tab' (t_from t, t_event t) = Some t"
  by (induction ts tab rule: add_arcs.induct)
    (auto simp: Let_def intro: add_arcs_keeps split: if_splits)

lemma add_arcs_distinct:
  "add_arcs ts tab = Inr tab' \<Longrightarrow> distinct (map (\<lambda>t. (t_from t, t_event t)) ts)"
proof (induction ts tab rule: add_arcs.induct)
  case (2 t ts tab)
  then have tl: "add_arcs ts (dict_set (t_from t, t_event t) t tab) = Inr tab'"
    by (auto simp: Let_def split: if_splits)
  have "(t_from t, t_event t) \<notin> (\<lambda>t. (t_from t, t_event t)) ` set ts"
  proof
    assume "(t_from t, t_event t) \<in> (\<lambda>t. (t_from t, t_event t)) ` set ts"
    then obtain u where "u \<in> set ts" "t_from u = t_from t" "t_event u = t_event t" by auto
    moreover have "add_arcs ts tb = Inr x \<Longrightarrow> dict_get tb (t_from u, t_event u) \<noteq> None \<Longrightarrow> u \<notin> set ts"
      for tb x u
      by (induction ts tb rule: add_arcs.induct) (auto simp: Let_def split: if_splits)
    ultimately show False using tl by fastforce
  qed
  with 2 tl show ?case by (auto simp: Let_def split: if_splits)
qed simp

subsection \<open>The order life cycle\<close>

type_synonym order_fsm = "(order_state, order_event, unit) machine"

definition arc :: "order_state \<Rightarrow> order_event \<Rightarrow> order_state \<Rightarrow> (order_state, order_event, unit) transition" where
  "arc s e t = \<lparr>t_from = s, t_event = e, t_to = t, t_guard = None, t_action = None\<rparr>"

definition order_arcs :: "(order_state, order_event, unit) transition list" where
  "order_arcs =
    [arc PENDING SUBMIT SUBMITTED,
     arc SUBMITTED ACCEPT ACCEPTED,
     arc ACCEPTED PARTIAL_FILL PARTIAL,
     arc ACCEPTED FULL_FILL FILLED,
     arc PARTIAL FULL_FILL FILLED,
     arc PARTIAL PARTIAL_FILL PARTIAL,
     arc SUBMITTED CANCEL CANCELLED,
     arc ACCEPTED CANCEL CANCELLED,
     arc PARTIAL CANCEL CANCELLED,
     arc PENDING REJECT REJECTED,
     arc SUBMITTED REJECT REJECTED,
     arc ACCEPTED REJECT REJECTED,
     arc ACCEPTED EXPIRE EXPIRED,
     arc PARTIAL EXPIRE EXPIRED]"

definition build_order_fsm :: "order_state \<Rightarrow> exn + order_fsm" where
  "build_order_fsm s0 = new_machine s0 order_arcs"

definition order_table :: "(order_state \<times> order_event, (order_state, order_event, unit) transition) dict" where
  "order_table = map (\<lambda>t. ((t_from t, t_event t), t)) order_arcs"

definition order_machine :: "order_state \<Rightarrow> order_fsm" where
  "order_machine s0 = \<lparr>m_state = s0, m_table = order_table, m_history = []\<rparr>"

text \<open>Registration of the fourteen arcs never raises.\<close>

lemma build_order_fsm_eq: "build_order_fsm s0 = Inr (order_machine s0)"
  by (simp add: build_order_fsm_def new_machine_def order_machine_def order_arcs_def order_table_def
      arc_def Let_def)

text \<open>The step function the table stands for.\<close>

fun order_next :: "order_state \<Rightarrow> order_event \<Rightarrow> order_state option" where
  "order_next PENDING SUBMIT = Some SUBMITTED"
| "order_next SUBMITTED ACCEPT = Some ACCEPTED"
| "order_next ACCEPTED PARTIAL_FILL = Some PARTIAL"
| "order_next ACCEPTED FULL_FILL = Some FILLED"
| "order_next PARTIAL FULL_FILL = Some FILLED"
| "order_next PARTIAL PARTIAL_FILL = Some PARTIAL"
| "order_next SUBMITTED CANCEL = Some CANCELLED"
| "order_next ACCEPTED CANCEL = Some CANCELLED"
| "order_next PARTIAL CANCEL = Some CANCELLED"
| "order_next PENDING REJECT = Some REJECTED"
| "order_next SUBMITTED REJECT = Some REJECTED"
| "order_next ACCEPTED REJECT = Some REJECTED"
| "order_next ACCEPTED EXPIRE = Some EXPIRED"
| "order_next PARTIAL EXPIRE = Some EXPIRED"
| "order_next _ _ = None"

lemma order_table_next: "dict_get order_table (s, e) = map_option (arc s e) (order_next s e)"
  by (cases s; cases e) (simp_all add: order_table_def order_arcs_def arc_def)

lemma trigger_order:
  "m_table m = order_table \<Longrightarrow>
   trigger m e () = (case order_next (m_state m) e of
       None \<Rightarrow> (False, m, ())
     | Some s \<Rightarrow> (True, m\<lparr>m_state := s, m_history := m_history m @ [(m_state m, Some e, s)]\<rparr>, ()))"
  by (auto simp: trigger_def order_table_next arc_def Let_def split: option.splits)

definition terminal :: "order_state \<Rightarrow> bool" where
  "terminal s \<longleftrightarrow> s \<in> {FILLED, CANCELLED, REJECTED, EXPIRED}"

lemma terminal_simps [simp]:
  "terminal FILLED" "terminal CANCELLED" "terminal REJECTED" "terminal EXPIRED"
  "\<not> terminal PENDING" "\<not> terminal SUBMITTED" "\<not> terminal ACCEPTED" "\<not> terminal PARTIAL"
  by (simp_all add: terminal_def)

fun state_rank :: "order_state \<Rightarrow> nat" where
  "state_rank PENDING = 0"
| "state_rank SUBMITTED = 1"
| "state_rank ACCEPTED = 2"
| "state_rank PARTIAL = 3"
| "state_rank _ = 4"

subsection \<open>Contracts of a life cycle\<close>

locale lifecycle =
  fixes nxt :: "'s \<Rightarrow> 'e \<Rightarrow> 's option"
    and final :: "'s \<Rightarrow> bool"
  assumes final_stuck: "final s \<Longrightarrow> nxt s e = None"
begin

text \<open>An event with no arc is ignored, as \<^verbatim>\<open>trigger\<close> does.\<close>

definition advance :: "'s \<Rightarrow> 'e \<Rightarrow> 's" where
  "advance s e = (case nxt s e of None \<Rightarrow> s | Some t \<Rightarrow> t)"

definition run :: "'s \<Rightarrow> 'e list \<Rightarrow> 's" where
  "run s es = foldl advance s es"

lemma advance_final: "final s \<Longrightarrow> advance s e = s"
  by (simp add: advance_def final_stuck)

lemma run_final: "final s \<Longrightarrow> run s es = s"
  by (induction es) (simp_all add: run_def advance_final)

lemma run_append: "run s (es @ fs) = run (run s es) fs"
  by (simp add: run_def)

lemma final_forever: "final (run s es) \<Longrightarrow> run s (es @ fs) = run s es"
  by (simp add: run_append run_final)

end

locale ranked_lifecycle = lifecycle nxt final
  for nxt :: "'s \<Rightarrow> 'e \<Rightarrow> 's option" and final :: "'s \<Rightarrow> bool" +
  fixes rank :: "'s \<Rightarrow> nat"
  assumes rank_step: "nxt s e = Some t \<Longrightarrow> s \<noteq> t \<Longrightarrow> rank s < rank t"
begin

lemma advance_rank: "rank s \<le> rank (advance s e)"
  using rank_step [of s e] by (cases "nxt s e") (force simp: advance_def)+

lemma run_rank: "rank s \<le> rank (run s es)"
proof (induction es arbitrary: s)
  case (Cons e es)
  then show ?case using advance_rank [of s e] order_trans by (fastforce simp: run_def)
qed (simp add: run_def)

text \<open>A state that was left is never entered again.\<close>

lemma no_return: "run s es = t \<Longrightarrow> t \<noteq> s \<Longrightarrow> run t fs \<noteq> s"
proof -
  have strict: "run s es \<noteq> s \<Longrightarrow> rank s < rank (run s es)" for s es
  proof (induction es arbitrary: s)
    case (Cons e es)
    show ?case
    proof (cases "advance s e = s")
      case True
      with Cons show ?thesis by (simp add: run_def)
    next
      case False
      then have "rank s < rank (advance s e)"
        using rank_step by (auto simp: advance_def split: option.splits)
      with run_rank [of "advance s e" es] show ?thesis by (simp add: run_def)
    qed
  qed (simp add: run_def)
  assume "run s es = t" "t \<noteq> s"
  with strict [of s es] run_rank [of t fs] show ?thesis by auto
qed

end

interpretation order_life: ranked_lifecycle order_next terminal state_rank
proof unfold_locales
  show "order_next s e = None" if "terminal s" for s e
    using that by (cases s) simp_all
  show "state_rank s < state_rank t" if "order_next s e = Some t" "s \<noteq> t" for s e t
    using that by (cases s; cases e) auto
qed

lemma order_next_rank: "order_next s e = Some t \<Longrightarrow> state_rank s \<le> state_rank t"
  by (cases s; cases e) auto

subsection \<open>Runs of the order machine\<close>

definition fired :: "order_event list \<Rightarrow> order_fsm \<Rightarrow> order_fsm" where
  "fired es m = foldl (\<lambda>m e. fst (snd (trigger m e ()))) m es"

lemma fired_simps [simp]:
  "fired [] m = m" "fired (es @ [e]) m = fst (snd (trigger (fired es m) e ()))"
  by (simp_all add: fired_def)

lemma fired_runs:
  assumes "m_table m = order_table" "walk a (m_history m) (m_state m)"
  shows "m_table (fired es m) = order_table \<and> m_state (fired es m) = order_life.run (m_state m) es
    \<and> walk a (m_history (fired es m)) (m_state (fired es m))"
proof (induction es rule: rev_induct)
  case (snoc e es)
  then show ?case
    by (auto simp: trigger_order order_life.run_def order_life.advance_def walk_snoc split: option.split)
qed (simp_all add: assms order_life.run_def)

lemma fired_terminal: "m_table m = order_table \<Longrightarrow> terminal (m_state m) \<Longrightarrow> fired es m = m"
  by (induction es rule: rev_induct) (simp_all add: trigger_order order_life.final_stuck)

text \<open>
  Building the order machine never raises, and feeding the machine any events moves it exactly along the order life
  cycle: the state is the one of the reference table, the history is a path to it, and a
  terminal order takes no further event.
\<close>

lemma order_machine_runs:
  "\<exists>m. build_order_fsm s0 = Inr m
    \<and> m_state (fired es m) = order_life.run s0 es
    \<and> walk s0 (m_history (fired es m)) (m_state (fired es m))
    \<and> (terminal (m_state (fired es m)) \<longrightarrow> fired fs (fired es m) = fired es m)"
proof -
  have m: "m_table (order_machine s0) = order_table" "m_state (order_machine s0) = s0"
    "walk s0 (m_history (order_machine s0)) s0" by (simp_all add: order_machine_def)
  with fired_runs [of "order_machine s0" s0 es] fired_terminal [of "fired es (order_machine s0)" fs]
  show ?thesis by (auto simp: build_order_fsm_eq)
qed

lemma order_machine_runs_example:
  "\<exists>m. build_order_fsm PENDING = Inr m \<and> m_state (fired [SUBMIT, ACCEPT, PARTIAL_FILL, FULL_FILL] m) = FILLED
    \<and> fired [CANCEL] (fired [SUBMIT, ACCEPT, PARTIAL_FILL, FULL_FILL] m) = fired [SUBMIT, ACCEPT, PARTIAL_FILL, FULL_FILL] m"
  using order_machine_runs [of PENDING "[SUBMIT, ACCEPT, PARTIAL_FILL, FULL_FILL]" "[CANCEL]"]
  by (auto simp: order_life.run_def order_life.advance_def)

end
