(* ===== verification/Event_Log.thy ===== *)
theory Event_Log
  imports State_Machine
begin

text \<open>
  The append-only log of \<^verbatim>\<open>execution/oms_store.py\<close> and the (de)serializers of
  \<^verbatim>\<open>execution/oms.py\<close> that fill it. A payload is a dictionary of tagged Python values; a row
  stores the JSON that \<^verbatim>\<open>dumps\<close> makes of it and a reader decodes it with \<^verbatim>\<open>loads\<close>.
  The text that \<^verbatim>\<open>str\<close> or \<^verbatim>\<open>isoformat\<close> gives for a decimal, a time or a uuid is
  kept symbolic (\<open>DecimalText d\<close> and so on): the standard library reads back what it
  wrote; \<open>PDecText d\<close> is the string a caller made with \<^verbatim>\<open>str(d)\<close>. SQLite, its WAL mode and the connection lock are not modelled: a store is the list
  of its rows in the order of \<^verbatim>\<open>seq\<close>.
\<close>

subsection \<open>Values and their JSON\<close>

datatype pyval =
    PStr string | PDec decimal | PTime datetime | PUuid uuid | PBool bool | PNone
  | PDecText decimal

type_synonym payload = "(string, pyval) dict"

datatype jtext = Plain string | DecimalText decimal | DatetimeText datetime | UuidText uuid

datatype json = JStr jtext | JBool bool | JNull | JObj "(string \<times> json) list"

fun encode_val :: "pyval \<Rightarrow> json" where
  "encode_val (PStr s) = JStr (Plain s)"
| "encode_val (PDec d) = JObj [(''__decimal__'', JStr (DecimalText d))]"
| "encode_val (PTime t) = JObj [(''__datetime__'', JStr (DatetimeText t))]"
| "encode_val (PUuid u) = JObj [(''__uuid__'', JStr (UuidText u))]"
| "encode_val (PBool b) = JBool b"
| "encode_val PNone = JNull"
| "encode_val (PDecText d) = JStr (DecimalText d)"

definition dumps :: "payload \<Rightarrow> json" where
  "dumps p = JObj (map (\<lambda>(k, v). (k, encode_val v)) p)"

text \<open>
  The object hook, applied to the inner objects first. A value none of the hooks accepts
  stays an object, which no payload of the program contains: \<open>None\<close>.
\<close>

definition decode_hook :: "(string \<times> json) list \<Rightarrow> pyval option" where
  "decode_hook obj =
     (case map_of obj ''__decimal__'' of
        Some (JStr (DecimalText d)) \<Rightarrow> Some (PDec d)
      | Some _ \<Rightarrow> None
      | None \<Rightarrow>
     (case map_of obj ''__datetime__'' of
        Some (JStr (DatetimeText t)) \<Rightarrow> Some (PTime t)
      | Some _ \<Rightarrow> None
      | None \<Rightarrow>
     (case map_of obj ''__uuid__'' of
        Some (JStr (UuidText u)) \<Rightarrow> Some (PUuid u)
      | _ \<Rightarrow> None)))"

fun decode_val :: "json \<Rightarrow> pyval option" where
  "decode_val (JStr (Plain s)) = Some (PStr s)"
| "decode_val (JStr (DecimalText d)) = Some (PDecText d)"
| "decode_val (JStr _) = None"
| "decode_val (JBool b) = Some (PBool b)"
| "decode_val JNull = Some PNone"
| "decode_val (JObj obj) = decode_hook obj"

definition reserved_keys :: "string list" where
  "reserved_keys = [''__decimal__'', ''__datetime__'', ''__uuid__'']"

fun decode_items :: "(string \<times> json) list \<Rightarrow> payload option" where
  "decode_items [] = Some []"
| "decode_items ((k, j) # items) = (case decode_val j of
       None \<Rightarrow> None
     | Some v \<Rightarrow> map_option (\<lambda>p. (k, v) # p) (decode_items items))"

text \<open>
  \<^verbatim>\<open>loads\<close> of a payload: the outer object passes through the hook as well, so a payload with a
  reserved key would not come back as a dictionary.
\<close>

definition loads :: "json \<Rightarrow> payload option" where
  "loads j = (case j of
       JObj obj \<Rightarrow> if \<exists>k \<in> set reserved_keys. k \<in> set (map fst obj) then None else decode_items obj
     | _ \<Rightarrow> None)"

definition plain_keys :: "payload \<Rightarrow> bool" where
  "plain_keys p \<longleftrightarrow> list_all (\<lambda>k. k \<notin> set (map fst p)) reserved_keys"

lemma decode_encode_val [simp]: "decode_val (encode_val v) = Some v"
  by (cases v) (simp_all add: decode_hook_def)

lemma decode_encode_items [simp]: "decode_items (map (\<lambda>(k, v). (k, encode_val v)) p) = Some p"
  by (induction p) auto

lemma loads_dumps [simp]: "plain_keys p \<Longrightarrow> loads (dumps p) = Some p"
  using decode_encode_items [of p]
  by (auto simp: loads_def dumps_def plain_keys_def reserved_keys_def image_iff split_def)

subsection \<open>Enumeration values\<close>

fun agent_str :: "agent_id \<Rightarrow> string" where
  "agent_str HAIKU = ''haiku''"
| "agent_str SONNET = ''sonnet''"
| "agent_str OPUS = ''opus''"
| "agent_str MANAGER = ''manager''"

fun side_str :: "order_side \<Rightarrow> string" where
  "side_str BUY = ''buy''"
| "side_str SELL = ''sell''"

fun order_type_str :: "order_type \<Rightarrow> string" where
  "order_type_str MARKET = ''market''"
| "order_type_str LIMIT = ''limit''"
| "order_type_str STOP = ''stop''"
| "order_type_str STOP_LIMIT = ''stop_limit''"
| "order_type_str TRAILING_STOP = ''trailing_stop''"

fun order_class_str :: "order_class \<Rightarrow> string" where
  "order_class_str SIMPLE = ''simple''"
| "order_class_str BRACKET = ''bracket''"
| "order_class_str OCO = ''oco''"
| "order_class_str OTO = ''oto''"
| "order_class_str MLEG = ''mleg''"

fun tif_str :: "time_in_force \<Rightarrow> string" where
  "tif_str DAY = ''day''"
| "tif_str GTC = ''gtc''"
| "tif_str OPG = ''opg''"
| "tif_str CLS = ''cls''"
| "tif_str IOC = ''ioc''"
| "tif_str FOK = ''fok''"

fun state_str :: "order_state \<Rightarrow> string" where
  "state_str PENDING = ''pending''"
| "state_str SUBMITTED = ''submitted''"
| "state_str ACCEPTED = ''accepted''"
| "state_str PARTIAL = ''partial''"
| "state_str FILLED = ''filled''"
| "state_str CANCELLED = ''cancelled''"
| "state_str REJECTED = ''rejected''"
| "state_str EXPIRED = ''expired''"

text \<open>An enumeration called on a string: the member with that value, or \<open>ValueError\<close>.\<close>

definition enum_of :: "('a \<Rightarrow> string) \<Rightarrow> 'a list \<Rightarrow> string \<Rightarrow> exn + 'a" where
  "enum_of str members s = (case map_of (map (\<lambda>x. (str x, x)) members) s of
       None \<Rightarrow> Inl ValueError | Some x \<Rightarrow> Inr x)"

abbreviation agent_of_str :: "string \<Rightarrow> exn + agent_id" where
  "agent_of_str \<equiv> enum_of agent_str all_agents"
abbreviation side_of_str :: "string \<Rightarrow> exn + order_side" where
  "side_of_str \<equiv> enum_of side_str [BUY, SELL]"
abbreviation order_type_of_str :: "string \<Rightarrow> exn + order_type" where
  "order_type_of_str \<equiv> enum_of order_type_str [MARKET, LIMIT, STOP, STOP_LIMIT, TRAILING_STOP]"
abbreviation order_class_of_str :: "string \<Rightarrow> exn + order_class" where
  "order_class_of_str \<equiv> enum_of order_class_str [SIMPLE, BRACKET, OCO, OTO, MLEG]"
abbreviation tif_of_str :: "string \<Rightarrow> exn + time_in_force" where
  "tif_of_str \<equiv> enum_of tif_str [DAY, GTC, OPG, CLS, IOC, FOK]"
abbreviation state_of_str :: "string \<Rightarrow> exn + order_state" where
  "state_of_str \<equiv> enum_of state_str
     [PENDING, SUBMITTED, ACCEPTED, PARTIAL, FILLED, CANCELLED, REJECTED, EXPIRED]"

lemma agent_roundtrip [simp]: "agent_of_str (agent_str a) = Inr a"
  by (cases a) (simp_all add: enum_of_def all_agents_def)

lemma side_roundtrip [simp]: "side_of_str (side_str b) = Inr b"
  by (cases b) (simp_all add: enum_of_def)

lemma order_type_roundtrip [simp]: "order_type_of_str (order_type_str b) = Inr b"
  by (cases b) (simp_all add: enum_of_def)

lemma order_class_roundtrip [simp]: "order_class_of_str (order_class_str b) = Inr b"
  by (cases b) (simp_all add: enum_of_def)

lemma tif_roundtrip [simp]: "tif_of_str (tif_str b) = Inr b"
  by (cases b) (simp_all add: enum_of_def)

lemma state_roundtrip [simp]: "state_of_str (state_str b) = Inr b"
  by (cases b) (simp_all add: enum_of_def)

subsection \<open>Serialization of orders and fills\<close>

fun opt_dec :: "decimal option \<Rightarrow> pyval" where
  "opt_dec None = PNone"
| "opt_dec (Some d) = PDec d"

definition serialize_order :: "order \<Rightarrow> payload" where
  "serialize_order ord =
    [(''id'', PUuid (o_id ord)),
     (''intent_id'', PUuid (o_intent_id ord)),
     (''agent_id'', PStr (agent_str (o_agent_id ord))),
     (''symbol'', PStr (o_symbol ord)),
     (''side'', PStr (side_str (o_side ord))),
     (''qty'', PDec (o_qty ord)),
     (''order_type'', PStr (order_type_str (o_order_type ord))),
     (''order_class'', PStr (order_class_str (o_order_class ord))),
     (''time_in_force'', PStr (tif_str (o_time_in_force ord))),
     (''state'', PStr (state_str (o_state ord))),
     (''created_at'', PTime (o_created_at ord)),
     (''limit_price'', opt_dec (o_limit_price ord)),
     (''stop_price'', opt_dec (o_stop_price ord)),
     (''is_letf'', PBool (o_is_letf ord))]"

definition serialize_fill :: "fill \<Rightarrow> payload" where
  "serialize_fill f =
    [(''id'', PUuid (f_id f)),
     (''order_id'', PUuid (f_order_id f)),
     (''agent_id'', PStr (agent_str (f_agent_id f))),
     (''symbol'', PStr (f_symbol f)),
     (''side'', PStr (side_str (f_side f))),
     (''qty'', PDec (f_qty f)),
     (''price'', PDec (f_price f)),
     (''timestamp'', PTime (f_timestamp f)),
     (''commission'', PDec (f_commission f)),
     (''is_partial'', PBool (f_is_partial f))]"

text \<open>
  Reading a key: \<open>KeyError\<close> where it is missing. A value of another kind than the writer
  stores is refused as well, where Python would carry it on.
\<close>

definition need :: "payload \<Rightarrow> string \<Rightarrow> exn + pyval" where
  "need p k = (case dict_get p k of None \<Rightarrow> Inl KeyError | Some v \<Rightarrow> Inr v)"

fun as_uuid :: "pyval \<Rightarrow> exn + uuid" where
  "as_uuid (PUuid u) = Inr u"
| "as_uuid _ = Inl ValueError"

fun as_str :: "pyval \<Rightarrow> exn + string" where
  "as_str (PStr u) = Inr u"
| "as_str _ = Inl ValueError"

fun as_dec :: "pyval \<Rightarrow> exn + decimal" where
  "as_dec (PDec u) = Inr u"
| "as_dec _ = Inl ValueError"

fun as_time :: "pyval \<Rightarrow> exn + datetime" where
  "as_time (PTime u) = Inr u"
| "as_time _ = Inl ValueError"

fun as_bool :: "pyval \<Rightarrow> exn + bool" where
  "as_bool (PBool u) = Inr u"
| "as_bool _ = Inl ValueError"

fun as_opt_dec :: "pyval option \<Rightarrow> exn + decimal option" where
  "as_opt_dec None = Inr None"
| "as_opt_dec (Some PNone) = Inr None"
| "as_opt_dec (Some (PDec d)) = Inr (Some d)"
| "as_opt_dec (Some _) = Inl ValueError"

definition get_uuid :: "payload \<Rightarrow> string \<Rightarrow> exn + uuid" where
  "get_uuid p k = bindr (need p k) as_uuid"

definition get_str :: "payload \<Rightarrow> string \<Rightarrow> exn + string" where
  "get_str p k = bindr (need p k) as_str"

definition get_dec :: "payload \<Rightarrow> string \<Rightarrow> exn + decimal" where
  "get_dec p k = bindr (need p k) as_dec"

definition get_time :: "payload \<Rightarrow> string \<Rightarrow> exn + datetime" where
  "get_time p k = bindr (need p k) as_time"

definition get_bool_or :: "payload \<Rightarrow> string \<Rightarrow> bool \<Rightarrow> exn + bool" where
  "get_bool_or p k b = (case dict_get p k of None \<Rightarrow> Inr b | Some v \<Rightarrow> as_bool v)"

definition get_dec_or :: "payload \<Rightarrow> string \<Rightarrow> decimal \<Rightarrow> exn + decimal" where
  "get_dec_or p k d = (case dict_get p k of None \<Rightarrow> Inr d | Some v \<Rightarrow> as_dec v)"

lemmas payload_reads = need_def get_uuid_def get_str_def get_dec_def get_time_def
  get_bool_or_def get_dec_or_def

definition deserialize_order :: "payload \<Rightarrow> exn + order" where
  "deserialize_order p =
     bindr (get_uuid p ''id'') (\<lambda>oid.
     bindr (get_uuid p ''intent_id'') (\<lambda>iid.
     bindr (bindr (get_str p ''agent_id'') agent_of_str) (\<lambda>agent.
     bindr (get_str p ''symbol'') (\<lambda>sym.
     bindr (bindr (get_str p ''side'') side_of_str) (\<lambda>side.
     bindr (get_dec p ''qty'') (\<lambda>qty.
     bindr (bindr (get_str p ''order_type'') order_type_of_str) (\<lambda>ty.
     bindr (bindr (get_str p ''order_class'') order_class_of_str) (\<lambda>cls.
     bindr (bindr (get_str p ''time_in_force'') tif_of_str) (\<lambda>tif.
     bindr (bindr (get_str p ''state'') state_of_str) (\<lambda>st.
     bindr (get_time p ''created_at'') (\<lambda>created.
     bindr (as_opt_dec (dict_get p ''limit_price'')) (\<lambda>lim.
     bindr (as_opt_dec (dict_get p ''stop_price'')) (\<lambda>stp.
     bindr (get_bool_or p ''is_letf'' False) (\<lambda>letf.
       Inr \<lparr>o_id = oid, o_intent_id = iid, o_agent_id = agent, o_symbol = sym, o_side = side,
            o_qty = qty, o_order_type = ty, o_order_class = cls, o_time_in_force = tif,
            o_state = st, o_created_at = created, o_limit_price = lim, o_stop_price = stp,
            o_trail_percent = None, o_broker_order_id = None, o_legs = [], o_submitted_at = None,
            o_filled_at = None, o_filled_qty = 0, o_filled_avg_price = None,
            o_rejection_reason = None, o_is_letf = letf, o_letf_entry_date = None\<rparr>))))))))))))))"

definition deserialize_fill :: "payload \<Rightarrow> exn + fill" where
  "deserialize_fill p =
     bindr (get_uuid p ''id'') (\<lambda>fid.
     bindr (get_uuid p ''order_id'') (\<lambda>oid.
     bindr (bindr (get_str p ''agent_id'') agent_of_str) (\<lambda>agent.
     bindr (get_str p ''symbol'') (\<lambda>sym.
     bindr (bindr (get_str p ''side'') side_of_str) (\<lambda>side.
     bindr (get_dec p ''qty'') (\<lambda>qty.
     bindr (get_dec p ''price'') (\<lambda>price.
     bindr (get_time p ''timestamp'') (\<lambda>ts.
     bindr (get_dec_or p ''commission'' 0) (\<lambda>comm.
     bindr (get_bool_or p ''is_partial'' False) (\<lambda>part.
       Inr \<lparr>f_id = fid, f_order_id = oid, f_agent_id = agent, f_symbol = sym, f_side = side,
            f_qty = qty, f_price = price, f_timestamp = ts, f_commission = comm,
            f_is_partial = part\<rparr>))))))))))"

text \<open>What survives the log: everything the payload names; the rest is reset to its default.\<close>

definition logged_part :: "order \<Rightarrow> order" where
  "logged_part ord = ord\<lparr>o_trail_percent := None, o_broker_order_id := None, o_legs := [],
     o_submitted_at := None, o_filled_at := None, o_filled_qty := 0, o_filled_avg_price := None,
     o_rejection_reason := None, o_letf_entry_date := None\<rparr>"

lemma as_opt_dec_opt_dec [simp]: "as_opt_dec (Some (opt_dec x)) = Inr x"
  by (cases x) simp_all

lemma deserialize_serialize_order [simp]:
  "deserialize_order (serialize_order ord) = Inr (logged_part ord)"
  by (simp add: deserialize_order_def serialize_order_def payload_reads logged_part_def)

lemma deserialize_serialize_fill [simp]: "deserialize_fill (serialize_fill f) = Inr f"
  by (simp add: deserialize_fill_def serialize_fill_def payload_reads)

lemma plain_serialize [simp]: "plain_keys (serialize_order ord)" "plain_keys (serialize_fill f)"
  by (simp_all add: plain_keys_def reserved_keys_def serialize_order_def serialize_fill_def)

subsection \<open>The store\<close>

datatype event_kind =
    ORDER_SUBMIT_INTENT | ORDER_ACCEPTED | ORDER_REJECTED | FILL_RECEIVED
  | ORDER_CANCEL_REQUESTED | ORDER_CANCELLED | ORDER_EXPIRED
  | RECONCILE_NOOP | RECONCILE_RECOVERED | RECONCILE_ABANDONED

record row =
  r_seq :: int
  r_ts :: datetime
  r_kind :: event_kind
  r_order_id :: order_id
  r_payload :: json

record logged_event =
  e_seq :: int
  e_ts :: datetime
  e_kind :: event_kind
  e_order_id :: order_id
  e_payload :: payload

type_synonym oms_store = "row list"

text \<open>\<^verbatim>\<open>AUTOINCREMENT\<close>: one more than the largest key ever used; rows are never deleted.\<close>

definition append_event ::
  "event_kind \<Rightarrow> order_id \<Rightarrow> payload \<Rightarrow> datetime \<Rightarrow> oms_store \<Rightarrow> oms_store" where
  "append_event k oid p ts st =
     st @ [\<lparr>r_seq = int (length st) + 1, r_ts = ts, r_kind = k, r_order_id = oid,
            r_payload = dumps p\<rparr>]"

definition read_row :: "row \<Rightarrow> logged_event option" where
  "read_row r = map_option (\<lambda>p. \<lparr>e_seq = r_seq r, e_ts = r_ts r, e_kind = r_kind r,
     e_order_id = r_order_id r, e_payload = p\<rparr>) (loads (r_payload r))"

definition iter_all :: "oms_store \<Rightarrow> logged_event list" where
  "iter_all st = List.map_filter read_row st"

definition recent_by_kind :: "event_kind \<Rightarrow> nat \<Rightarrow> oms_store \<Rightarrow> logged_event list" where
  "recent_by_kind k n st = List.map_filter read_row (take n (rev (filter (\<lambda>r. r_kind r = k) st)))"

definition iter_for_order :: "order_id \<Rightarrow> oms_store \<Rightarrow> logged_event list" where
  "iter_for_order oid st = List.map_filter read_row (filter (\<lambda>r. r_order_id r = oid) st)"

definition count_events :: "oms_store \<Rightarrow> int" where
  "count_events st = int (length st)"

text \<open>Every row the program wrote can be read back.\<close>

definition readable :: "oms_store \<Rightarrow> bool" where
  "readable st \<longleftrightarrow> (\<forall>r \<in> set st. loads (r_payload r) \<noteq> None)"

definition seq_ok :: "oms_store \<Rightarrow> bool" where
  "seq_ok st \<longleftrightarrow> map r_seq st = map (\<lambda>i. int i + 1) [0..<length st]"

lemma append_event_seq: "seq_ok st \<Longrightarrow> seq_ok (append_event k oid p ts st)"
  by (simp add: seq_ok_def append_event_def)

lemma append_event_readable:
  "readable st \<Longrightarrow> plain_keys p \<Longrightarrow> readable (append_event k oid p ts st)"
  by (auto simp: readable_def append_event_def)

lemma read_row_appended [simp]:
  "plain_keys p \<Longrightarrow> read_row \<lparr>r_seq = n, r_ts = ts, r_kind = k, r_order_id = oid, r_payload = dumps p\<rparr>
     = Some \<lparr>e_seq = n, e_ts = ts, e_kind = k, e_order_id = oid, e_payload = p\<rparr>"
  by (simp add: read_row_def)

lemma iter_all_append:
  "plain_keys p \<Longrightarrow> iter_all (append_event k oid p ts st) =
     iter_all st @ [\<lparr>e_seq = int (length st) + 1, e_ts = ts, e_kind = k, e_order_id = oid, e_payload = p\<rparr>]"
  by (simp add: iter_all_def append_event_def map_filter_single)

lemma iter_all_length: "readable st \<Longrightarrow> length (iter_all st) = length st"
  by (induction st) (auto simp: iter_all_def map_filter_simps read_row_def readable_def)

lemma iter_for_order_filter:
  "iter_for_order oid st = filter (\<lambda>e. e_order_id e = oid) (iter_all st)"
  by (induction st) (auto simp: iter_for_order_def iter_all_def map_filter_simps read_row_def split: option.split)

text \<open>A read of one kind is the newest part of the full scan, newest first.\<close>

lemma recent_by_kind_snoc:
  assumes "read_row r = Some e"
  shows "recent_by_kind k n (st @ [r]) = (if r_kind r = k then
      (case n of 0 \<Rightarrow> [] | Suc m \<Rightarrow> e # recent_by_kind k m st) else recent_by_kind k n st)"
  using assms by (cases n) (auto simp: recent_by_kind_def map_filter_simps)

lemma recent_by_kind_filter:
  "readable st \<Longrightarrow>
   recent_by_kind k n st = take n (rev (filter (\<lambda>e. e_kind e = k) (iter_all st)))"
proof (induction st arbitrary: n rule: rev_induct)
  case Nil
  then show ?case by (simp add: recent_by_kind_def iter_all_def)
next
  case (snoc r st)
  then obtain e where e: "read_row r = Some e" "e_kind e = r_kind r" and st: "readable st"
    by (auto simp: readable_def read_row_def)
  then have "iter_all (st @ [r]) = iter_all st @ [e]"
    by (simp add: iter_all_def map_filter_single)
  with e st show ?case
    by (cases n) (simp_all add: recent_by_kind_snoc [OF e(1)] snoc.IH)
qed

text \<open>
  \<^verbatim>\<open>recent_rejections_by_agent\<close>: rejections joined with their order's submit intents, newest
  first, at most \<open>5 * n\<close> rows, then those of the agent, at most \<open>n\<close>. Rows of equal time are
  kept in scan order, which SQLite leaves open.
\<close>

definition str_or :: "payload \<Rightarrow> string \<Rightarrow> string \<Rightarrow> string" where
  "str_or p k d = (case dict_get p k of Some (PStr s) \<Rightarrow> s | _ \<Rightarrow> d)"

definition rejection_rows :: "datetime \<Rightarrow> oms_store \<Rightarrow> (datetime \<times> payload \<times> payload) list" where
  "rejection_rows since st =
     sort_key (\<lambda>(ts, _, _). - ts)
       [(e_ts r, e_payload i, e_payload r).
          r \<leftarrow> iter_all st, i \<leftarrow> iter_all st,
          e_order_id r = e_order_id i \<and> e_kind i = ORDER_SUBMIT_INTENT
          \<and> e_kind r = ORDER_REJECTED \<and> since \<le> e_ts r]"

definition recent_rejections_by_agent ::
  "string \<Rightarrow> datetime \<Rightarrow> nat \<Rightarrow> oms_store \<Rightarrow> (datetime \<times> string \<times> string \<times> string) list" where
  "recent_rejections_by_agent agent since n st =
     take n [(ts - ts mod 1000000, str_or i ''symbol'' ''?'', str_or i ''side'' ''?'',
              str_or r ''reason'' ''?'').
       (ts, i, r) \<leftarrow> take (n * 5) (rejection_rows since st), str_or i ''agent_id'' [] = agent]"

subsection \<open>Properties\<close>

text \<open>
  What is appended to the store is read back as its last event, and the serialized order and
  fill in it are parsed to the order, without the fields the log does not carry, and to the very fill.
\<close>

lemma logged_order_and_fill_read_back:
  "\<exists>e e'. iter_all (append_event FILL_RECEIVED oid (serialize_fill f) ts'
            (append_event ORDER_SUBMIT_INTENT oid (serialize_order ord) ts st)) = iter_all st @ [e, e']
    \<and> e_ts e = ts \<and> e_kind e = ORDER_SUBMIT_INTENT \<and> deserialize_order (e_payload e) = Inr (logged_part ord)
    \<and> e_ts e' = ts' \<and> e_kind e' = FILL_RECEIVED \<and> deserialize_fill (e_payload e') = Inr f"
  by (simp add: iter_all_append)

text \<open>
  The recent events of a kind are the last ones of that kind, newest first, with no row lost to
  the limit.
\<close>

lemma recent_events_newest_first:
  assumes "readable st"
  shows "recent_by_kind k n st = take n (rev (filter (\<lambda>e. e_kind e = k) (iter_all st)))"
  using assms by (rule recent_by_kind_filter)

lemma recent_events_newest_first_example:
  "\<exists>st. map e_ts (recent_by_kind ORDER_REJECTED 1 st) = [7] \<and> length st = 3"
proof -
  let ?st = "append_event ORDER_CANCELLED 3 [] 8 (append_event ORDER_REJECTED 2 [(''reason'', PStr ''no'')] 7
    (append_event ORDER_REJECTED 1 [(''reason'', PStr ''no'')] 6 []))"
  have p: "plain_keys [(''reason'', PStr ''no'')]" "plain_keys []" by (simp_all add: plain_keys_def reserved_keys_def)
  have nil: "iter_all [] = []" by (simp add: iter_all_def)
  have "readable ?st" by (intro append_event_readable) (simp_all add: readable_def p)
  from recent_events_newest_first [OF this, of ORDER_REJECTED 1]
  have "map e_ts (recent_by_kind ORDER_REJECTED 1 ?st) = [7]" by (simp add: iter_all_append p nil)
  then show ?thesis by (intro exI [of _ ?st] conjI) (simp_all add: append_event_def)
qed

end
