(* ===== verification/OMS.thy ===== *)
theory OMS
  imports Broker Events Effects Event_Log
begin

text \<open>
  The order management system of \<^verbatim>\<open>execution/oms.py\<close>: live operations, replay of the log and
  reconciliation with the broker. \<open>om_log\<close> is the store, \<open>om_bus\<close> the events published so
  far, \<open>om_fresh\<close> the source of fresh ids and \<open>om_now\<close> the clock. The reentrant lock makes
  each operation one step. The broker is a parameter of the operation that calls it: what the
  call answers, and the events it delivers to the callback before it returns. Logging is left
  out; handlers of the bus do not call back into the system.
\<close>

record oms =
  om_orders :: "(order_id, order) dict"
  om_fsms :: "(order_id, order_fsm) dict"
  om_broker_ids :: "(string, order_id) dict"
  om_fills :: "(order_id, fill list) dict"
  om_log :: oms_store
  om_bus :: "bus_event list"
  om_fresh :: uuid
  om_now :: datetime

definition new_oms :: "oms_store \<Rightarrow> uuid \<Rightarrow> datetime \<Rightarrow> oms" where
  "new_oms lg fresh now = \<lparr>om_orders = [], om_fsms = [], om_broker_ids = [], om_fills = [],
     om_log = lg, om_bus = [], om_fresh = fresh, om_now = now\<rparr>"

type_synonym 'a oms_eff = "(oms, 'a) eff"

record submit_result =
  sr_order :: order
  sr_broker_id :: "string option"
  sr_accepted :: bool
  sr_reason :: "string option"

record reconcile_summary =
  rs_replayed :: nat
  rs_recovered :: nat
  rs_abandoned :: nat
  rs_terminal :: nat

definition fill_qty_tolerance :: decimal where
  "fill_qty_tolerance = 1 / 10 ^ 9"

definition is_fully_filled :: "decimal \<Rightarrow> decimal \<Rightarrow> bool" where
  "is_fully_filled order_qty filled_qty = (dsub order_qty filled_qty < fill_qty_tolerance)"

subsection \<open>Primitives\<close>

definition log_event :: "event_kind \<Rightarrow> order_id \<Rightarrow> payload \<Rightarrow> datetime \<Rightarrow> unit oms_eff" where
  "log_event k oid p ts = modify (\<lambda>s. s\<lparr>om_log := append_event k oid p ts (om_log s)\<rparr>)"

definition publish :: "bus_event \<Rightarrow> unit oms_eff" where
  "publish e = modify (\<lambda>s. s\<lparr>om_bus := om_bus s @ [e]\<rparr>)"

definition put_order :: "order_id \<Rightarrow> order \<Rightarrow> unit oms_eff" where
  "put_order oid ord = modify (\<lambda>s. s\<lparr>om_orders := dict_set oid ord (om_orders s)\<rparr>)"

definition put_fsm :: "order_id \<Rightarrow> order_fsm \<Rightarrow> unit oms_eff" where
  "put_fsm oid m = modify (\<lambda>s. s\<lparr>om_fsms := dict_set oid m (om_fsms s)\<rparr>)"

definition put_broker_id :: "string \<Rightarrow> order_id \<Rightarrow> unit oms_eff" where
  "put_broker_id bid oid = modify (\<lambda>s. s\<lparr>om_broker_ids := dict_set bid oid (om_broker_ids s)\<rparr>)"

definition add_fill :: "order_id \<Rightarrow> fill \<Rightarrow> unit oms_eff" where
  "add_fill oid f = andthen (fetch om_fills oid) (\<lambda>fs.
     modify (\<lambda>s. s\<lparr>om_fills := dict_set oid (fs @ [f]) (om_fills s)\<rparr>))"

definition new_id :: "uuid oms_eff" where
  "new_id s = (Inr (om_fresh s), s\<lparr>om_fresh := Suc (om_fresh s)\<rparr>)"

lemmas oms_prims = log_event_def publish_def put_order_def put_fsm_def put_broker_id_def add_fill_def new_id_def

subsection \<open>Transitions\<close>

text \<open>\<^verbatim>\<open>_transition\<close>: an event with no arc is logged as an error and ignored.\<close>

definition transition :: "order_id \<Rightarrow> order_event \<Rightarrow> datetime \<Rightarrow> unit oms_eff" where
  "transition oid ev ts =
     andthen (fetch om_fsms oid) (\<lambda>m.
       let (ok, m', _) = trigger m ev () in
       if \<not> ok then skip
       else andthen (put_fsm oid m') (\<lambda>_.
            andthen (fetch om_orders oid) (\<lambda>ord.
            andthen (put_order oid (ord\<lparr>o_state := m_state m'\<rparr>)) (\<lambda>_.
            publish (OrderStateChanged oid (m_state m) (m_state m') ts)))))"

definition record_accepted :: "order_id \<Rightarrow> string \<Rightarrow> datetime \<Rightarrow> unit oms_eff" where
  "record_accepted oid bid ts =
     andthen (fetch om_orders oid) (\<lambda>ord.
       if o_broker_order_id ord = Some bid then skip
       else andthen (log_event ORDER_ACCEPTED oid [(''broker_order_id'', PStr bid)] ts) (\<lambda>_.
            andthen (put_broker_id bid oid) (\<lambda>_.
            andthen (put_order oid (ord\<lparr>o_broker_order_id := Some bid, o_submitted_at := Some ts\<rparr>)) (\<lambda>_.
            transition oid ACCEPT ts))))"

text \<open>The running average of the fill price; \<open>None\<close> before the first fill.\<close>

definition average_price :: "order \<Rightarrow> fill \<Rightarrow> exn + decimal" where
  "average_price ord f = (case o_filled_avg_price ord of
       None \<Rightarrow> Inr (f_price f)
     | Some avg \<Rightarrow>
         ddiv_chk (dadd (dmul avg (o_filled_qty ord)) (dmul (f_price f) (f_qty f))) (dadd (o_filled_qty ord) (f_qty f)))"

definition filled_order :: "order \<Rightarrow> fill \<Rightarrow> decimal \<Rightarrow> datetime \<Rightarrow> order" where
  "filled_order ord f avg ts =
     ord\<lparr>o_filled_qty := dadd (o_filled_qty ord) (f_qty f), o_filled_avg_price := Some avg,
         o_filled_at := (if is_fully_filled (o_qty ord) (dadd (o_filled_qty ord) (f_qty f)) then Some ts
                         else o_filled_at ord)\<rparr>"

definition fill_event :: "order \<Rightarrow> fill \<Rightarrow> order_event" where
  "fill_event ord f = (if is_fully_filled (o_qty ord) (dadd (o_filled_qty ord) (f_qty f))
     then FULL_FILL else PARTIAL_FILL)"

definition canonical_fill :: "order \<Rightarrow> fill \<Rightarrow> fill" where
  "canonical_fill ord f =
     (let f1 = (if f_agent_id f \<noteq> o_agent_id ord then f\<lparr>f_agent_id := o_agent_id ord\<rparr> else f)
      in if f_symbol f1 \<noteq> o_symbol ord then f1\<lparr>f_symbol := o_symbol ord\<rparr> else f1)"

definition handle_fill :: "order_id \<Rightarrow> fill \<Rightarrow> datetime \<Rightarrow> unit oms_eff" where
  "handle_fill oid f0 ts =
     andthen (fetch om_orders oid) (\<lambda>ord. let f = canonical_fill ord f0 in
       andthen (log_event FILL_RECEIVED oid (serialize_fill f) ts) (\<lambda>_.
       andthen (add_fill oid f) (\<lambda>_.
       andthen (lift_res (average_price ord f)) (\<lambda>avg.
       andthen (put_order oid (filled_order ord f avg ts)) (\<lambda>_.
       andthen (transition oid (fill_event ord f) ts) (\<lambda>_.
       publish (FillReceived f)))))))"

definition handle_cancellation :: "order_id \<Rightarrow> datetime \<Rightarrow> unit oms_eff" where
  "handle_cancellation oid ts =
     andthen (fetch om_orders oid) (\<lambda>ord.
       if terminal (o_state ord) then skip
       else andthen (log_event ORDER_CANCELLED oid [] ts) (\<lambda>_. transition oid CANCEL ts))"

definition handle_rejection :: "order_id \<Rightarrow> string \<Rightarrow> datetime \<Rightarrow> unit oms_eff" where
  "handle_rejection oid reason ts =
     andthen (fetch om_orders oid) (\<lambda>ord.
       if terminal (o_state ord) then skip
       else andthen (log_event ORDER_REJECTED oid [(''reason'', PStr reason)] ts) (\<lambda>_.
            andthen (put_order oid (ord\<lparr>o_rejection_reason := Some reason\<rparr>)) (\<lambda>_.
            transition oid REJECT ts)))"

definition handle_expiry :: "order_id \<Rightarrow> datetime \<Rightarrow> unit oms_eff" where
  "handle_expiry oid ts =
     andthen (fetch om_orders oid) (\<lambda>ord.
       if terminal (o_state ord) then skip
       else andthen (log_event ORDER_EXPIRED oid [] ts) (\<lambda>_. transition oid EXPIRE ts))"

definition force_close_filled :: "order_id \<Rightarrow> datetime \<Rightarrow> unit oms_eff" where
  "force_close_filled oid ts s = (case dict_get (om_orders s) oid of
       None \<Rightarrow> skip s
     | Some ord \<Rightarrow>
         if terminal (o_state ord) then skip s
         else andthen (put_order oid (ord\<lparr>o_qty := o_filled_qty ord, o_filled_at := Some ts\<rparr>)) (\<lambda>_.
              transition oid FULL_FILL ts) s)"

subsection \<open>Events from the broker\<close>

definition or_reason :: "string option \<Rightarrow> string \<Rightarrow> string" where
  "or_reason r d = (case r of None \<Rightarrow> d | Some s \<Rightarrow> if s = [] then d else s)"

text \<open>An event for an order the system does not know is dropped.\<close>

definition on_broker_event :: "order_event_msg \<Rightarrow> unit oms_eff" where
  "on_broker_event ev s =
     (let oid = be_client_id ev in
      case dict_get (om_orders s) oid of
        None \<Rightarrow> skip s
      | Some ord \<Rightarrow>
          (let ts = (case be_timestamp ev of None \<Rightarrow> om_now s | Some t \<Rightarrow> t) in
           case be_state ev of
             B_ACCEPTED \<Rightarrow>
               if oid \<notin> snd ` set (om_broker_ids s) then record_accepted oid (be_broker_id ev) ts s else skip s
           | B_PARTIALLY_FILLED \<Rightarrow> (case be_fill ev of None \<Rightarrow> skip s | Some f \<Rightarrow> handle_fill oid f ts s)
           | B_FILLED \<Rightarrow> (case be_fill ev of None \<Rightarrow> skip s | Some f \<Rightarrow> handle_fill oid f ts s)
           | B_CANCELED \<Rightarrow> handle_cancellation oid ts s
           | B_REJECTED \<Rightarrow> handle_rejection oid (or_reason (be_reason ev) ''broker rejected'') ts s
           | B_EXPIRED \<Rightarrow> handle_expiry oid ts s
           | B_NEW \<Rightarrow> skip s
           | B_UNKNOWN \<Rightarrow> skip s))"

subsection \<open>Submitting and cancelling\<close>

text \<open>
  \<open>reply\<close>: the events the broker delivers during the call and what the call returns or raises.
  Only the two broker errors are named by the code; any other exception passes through.
\<close>

definition start_order :: "order \<Rightarrow> unit oms_eff" where
  "start_order ord =
     andthen (put_order (o_id ord) ord) (\<lambda>_.
     andthen (put_fsm (o_id ord) (order_machine PENDING)) (\<lambda>_.
     modify (\<lambda>s. s\<lparr>om_fills := dict_set (o_id ord) [] (om_fills s)\<rparr>)))"

definition submit_result_of :: "order_id \<Rightarrow> string option \<Rightarrow> bool \<Rightarrow> string option \<Rightarrow> submit_result oms_eff" where
  "submit_result_of oid bid acc reason = andthen (fetch om_orders oid) (\<lambda>ord.
     ret \<lparr>sr_order = ord, sr_broker_id = bid, sr_accepted = acc, sr_reason = reason\<rparr>)"

definition place_order :: "order \<Rightarrow> unit oms_eff" where
  "place_order ord =
     andthen (gets om_now) (\<lambda>now.
     andthen (start_order ord) (\<lambda>_.
     andthen (log_event ORDER_SUBMIT_INTENT (o_id ord) (serialize_order ord) now) (\<lambda>_.
     andthen (transition (o_id ord) SUBMIT now) (\<lambda>_.
     andthen (fetch om_orders (o_id ord)) (\<lambda>placed. publish (OrderPlaced placed))))))"

definition finish_submit :: "order_id \<Rightarrow> exn + string \<Rightarrow> submit_result oms_eff" where
  "finish_submit oid answer = (case answer of
       Inl (BrokerRejection reason) \<Rightarrow>
         andthen (gets om_now) (\<lambda>t.
         andthen (handle_rejection oid reason t) (\<lambda>_.
         submit_result_of oid None False (Some reason)))
     | Inl e \<Rightarrow> raise e
     | Inr bid \<Rightarrow>
         andthen (gets om_broker_ids) (\<lambda>known.
         andthen (if bid \<notin> fst ` set known
                  then andthen (gets om_now) (\<lambda>t. record_accepted oid bid t) else skip) (\<lambda>_.
         submit_result_of oid (Some bid) True None)))"

definition submit_order ::
  "(order \<Rightarrow> order_event_msg list \<times> (exn + string)) \<Rightarrow> order \<Rightarrow> submit_result oms_eff" where
  "submit_order reply ord =
     (if o_state ord \<noteq> PENDING then raise ValueError
      else andthen (place_order ord) (\<lambda>_.
           andthen (each on_broker_event (fst (reply ord))) (\<lambda>_.
           finish_submit (o_id ord) (snd (reply ord)))))"

definition cancel_order ::
  "(string \<Rightarrow> order_event_msg list \<times> (exn + unit)) \<Rightarrow> order_id \<Rightarrow> unit oms_eff" where
  "cancel_order reply oid =
     andthen (fetch om_orders oid) (\<lambda>ord.
       if terminal (o_state ord) then skip
       else (case o_broker_order_id ord of
           None \<Rightarrow>
             andthen (gets om_now) (\<lambda>now.
             andthen (log_event ORDER_CANCELLED oid [(''reason'', PStr ''cancel before broker accept'')] now) (\<lambda>_.
             transition oid CANCEL now))
         | Some bid \<Rightarrow>
             andthen (gets om_now) (\<lambda>now.
             andthen (log_event ORDER_CANCEL_REQUESTED oid [(''broker_order_id'', PStr bid)] now) (\<lambda>_.
             andthen (each on_broker_event (fst (reply bid))) (\<lambda>_. lift_res (snd (reply bid)))))))"

subsection \<open>Inspection\<close>

definition get_order :: "order_id \<Rightarrow> oms \<Rightarrow> order option" where
  "get_order oid s = dict_get (om_orders s) oid"

definition list_orders :: "oms \<Rightarrow> order list" where
  "list_orders s = map snd (om_orders s)"

definition list_open_orders :: "oms \<Rightarrow> order list" where
  "list_open_orders s = filter (\<lambda>ord. o_state ord \<in> {PENDING, SUBMITTED, ACCEPTED, PARTIAL}) (list_orders s)"

definition get_fills :: "order_id \<Rightarrow> oms \<Rightarrow> fill list" where
  "get_fills oid s = dict_get_or (om_fills s) oid []"

subsection \<open>Synthetic orders\<close>

definition ghost_order :: "order_id \<Rightarrow> intent_id \<Rightarrow> order_side \<Rightarrow> symbol \<Rightarrow> decimal \<Rightarrow> agent_id \<Rightarrow> datetime \<Rightarrow> order" where
  "ghost_order oid iid side symb qty agent ts = \<lparr>o_id = oid, o_intent_id = iid, o_agent_id = agent,
     o_symbol = symb, o_side = side, o_qty = qty, o_order_type = MARKET, o_order_class = SIMPLE,
     o_time_in_force = GTC, o_state = PENDING, o_created_at = ts, o_limit_price = None, o_stop_price = None,
     o_trail_percent = None, o_broker_order_id = None, o_legs = [], o_submitted_at = None,
     o_filled_at = None, o_filled_qty = 0, o_filled_avg_price = None, o_rejection_reason = None,
     o_is_letf = False, o_letf_entry_date = None\<rparr>"

definition ghost_fill :: "fill_id \<Rightarrow> order \<Rightarrow> decimal \<Rightarrow> datetime \<Rightarrow> fill" where
  "ghost_fill fid ord price ts = \<lparr>f_id = fid, f_order_id = o_id ord, f_agent_id = o_agent_id ord,
     f_symbol = o_symbol ord, f_side = o_side ord, f_qty = o_qty ord, f_price = price, f_timestamp = ts,
     f_commission = 0, f_is_partial = False\<rparr>"

text \<open>The machine steps and the snapshot is overwritten, without an event on the bus.\<close>

definition silent_step :: "order_id \<Rightarrow> order_event \<Rightarrow> order_state \<Rightarrow> unit oms_eff" where
  "silent_step oid ev st =
     andthen (fetch om_fsms oid) (\<lambda>m.
     andthen (put_fsm oid (fst (snd (trigger m ev ())))) (\<lambda>_.
     andthen (fetch om_orders oid) (\<lambda>ord. put_order oid (ord\<lparr>o_state := st\<rparr>))))"

definition run_ghost :: "string \<Rightarrow> order \<Rightarrow> fill \<Rightarrow> datetime \<Rightarrow> unit oms_eff" where
  "run_ghost bid ord f ts =
     andthen (start_order ord) (\<lambda>_.
     andthen (log_event ORDER_SUBMIT_INTENT (o_id ord) (serialize_order ord) ts) (\<lambda>_.
     andthen (silent_step (o_id ord) SUBMIT SUBMITTED) (\<lambda>_.
     andthen (log_event ORDER_ACCEPTED (o_id ord) [(''broker_order_id'', PStr bid)] ts) (\<lambda>_.
     andthen (put_broker_id bid (o_id ord)) (\<lambda>_.
     andthen (fetch om_orders (o_id ord)) (\<lambda>cur.
     andthen (put_order (o_id ord) (cur\<lparr>o_broker_order_id := Some bid, o_submitted_at := Some ts\<rparr>)) (\<lambda>_.
     andthen (silent_step (o_id ord) ACCEPT ACCEPTED) (\<lambda>_.
     handle_fill (o_id ord) f ts))))))))"

definition ghost :: "string \<Rightarrow> order_side \<Rightarrow> symbol \<Rightarrow> decimal \<Rightarrow> decimal \<Rightarrow> agent_id \<Rightarrow> datetime \<Rightarrow> unit oms_eff" where
  "ghost prefix side symb qty price agent ts =
     andthen new_id (\<lambda>oid. andthen new_id (\<lambda>iid. andthen new_id (\<lambda>fid.
       let ord = ghost_order oid iid side symb qty agent ts
       in run_ghost (prefix @ uuid_text oid) ord (ghost_fill fid ord price ts) ts)))"

definition adopt_orphan_position :: "symbol \<Rightarrow> decimal \<Rightarrow> decimal \<Rightarrow> agent_id \<Rightarrow> datetime \<Rightarrow> unit oms_eff" where
  "adopt_orphan_position symb qty price agent ts = ghost ''ghost-'' BUY symb qty price agent ts"

definition book_fee_offset :: "symbol \<Rightarrow> decimal \<Rightarrow> decimal \<Rightarrow> agent_id \<Rightarrow> datetime \<Rightarrow> unit oms_eff" where
  "book_fee_offset symb qty price agent ts = ghost ''ghost-fee-'' SELL symb qty price agent ts"

subsection \<open>Replay\<close>

text \<open>
  \<^verbatim>\<open>_apply_logged_event\<close>. The machine is triggered and the snapshot's state overwritten whether
  or not the arc exists. A missing order, machine or payload key raises.
\<close>

definition replay_step :: "order_id \<Rightarrow> order_event \<Rightarrow> order_state \<Rightarrow> unit oms_eff" where
  "replay_step = silent_step"

definition opt_str :: "pyval option \<Rightarrow> exn + string option" where
  "opt_str v = (case v of None \<Rightarrow> Inr None | Some PNone \<Rightarrow> Inr None | Some (PStr r) \<Rightarrow> Inr (Some r)
     | Some _ \<Rightarrow> Inl ValueError)"

definition apply_logged_event :: "logged_event \<Rightarrow> unit oms_eff" where
  "apply_logged_event e =
     (let oid = e_order_id e; ts = e_ts e; p = e_payload e in
      case e_kind e of
        ORDER_SUBMIT_INTENT \<Rightarrow>
          andthen (lift_res (deserialize_order p)) (\<lambda>ord.
          andthen (put_order oid ord) (\<lambda>_.
          andthen (put_fsm oid (order_machine PENDING)) (\<lambda>_.
          andthen (modify (\<lambda>s. s\<lparr>om_fills := dict_set oid (dict_get_or (om_fills s) oid []) (om_fills s)\<rparr>)) (\<lambda>_.
          replay_step oid SUBMIT SUBMITTED))))
      | ORDER_ACCEPTED \<Rightarrow>
          andthen (lift_res (get_str p ''broker_order_id'')) (\<lambda>bid.
          andthen (put_broker_id bid oid) (\<lambda>_.
          andthen (fetch om_orders oid) (\<lambda>ord.
          andthen (put_order oid (ord\<lparr>o_broker_order_id := Some bid, o_submitted_at := Some ts\<rparr>)) (\<lambda>_.
          replay_step oid ACCEPT ACCEPTED))))
      | ORDER_REJECTED \<Rightarrow>
          andthen (fetch om_orders oid) (\<lambda>ord.
          andthen (lift_res (opt_str (dict_get p ''reason''))) (\<lambda>reason.
          andthen (put_order oid (ord\<lparr>o_rejection_reason := reason\<rparr>)) (\<lambda>_.
          replay_step oid REJECT REJECTED)))
      | FILL_RECEIVED \<Rightarrow>
          andthen (lift_res (deserialize_fill p)) (\<lambda>f.
          andthen (modify (\<lambda>s. s\<lparr>om_fills := dict_set oid (dict_get_or (om_fills s) oid [] @ [f]) (om_fills s)\<rparr>)) (\<lambda>_.
          andthen (fetch om_orders oid) (\<lambda>ord.
          andthen (lift_res (average_price ord f)) (\<lambda>avg.
          andthen (put_order oid (filled_order ord f avg ts)) (\<lambda>_.
          if fill_event ord f = FULL_FILL then replay_step oid FULL_FILL FILLED
          else replay_step oid PARTIAL_FILL PARTIAL)))))
      | ORDER_CANCEL_REQUESTED \<Rightarrow> skip
      | ORDER_CANCELLED \<Rightarrow> replay_step oid CANCEL CANCELLED
      | ORDER_EXPIRED \<Rightarrow> replay_step oid EXPIRE EXPIRED
      | RECONCILE_NOOP \<Rightarrow> skip
      | RECONCILE_RECOVERED \<Rightarrow> skip
      | RECONCILE_ABANDONED \<Rightarrow> skip)"

definition replay_log :: "unit oms_eff" where
  "replay_log = andthen (gets om_log) (\<lambda>lg. each apply_logged_event (iter_all lg))"

subsection \<open>Reconciliation with the broker\<close>

fun broker_state_to_local :: "broker_order_state \<Rightarrow> order_state" where
  "broker_state_to_local B_NEW = ACCEPTED"
| "broker_state_to_local B_ACCEPTED = ACCEPTED"
| "broker_state_to_local B_PARTIALLY_FILLED = PARTIAL"
| "broker_state_to_local B_FILLED = FILLED"
| "broker_state_to_local B_CANCELED = CANCELLED"
| "broker_state_to_local B_REJECTED = REJECTED"
| "broker_state_to_local B_EXPIRED = EXPIRED"
| "broker_state_to_local B_UNKNOWN = PENDING"

fun broker_state_str :: "broker_order_state \<Rightarrow> string" where
  "broker_state_str B_NEW = ''new''"
| "broker_state_str B_ACCEPTED = ''accepted''"
| "broker_state_str B_PARTIALLY_FILLED = ''partially_filled''"
| "broker_state_str B_FILLED = ''filled''"
| "broker_state_str B_CANCELED = ''canceled''"
| "broker_state_str B_REJECTED = ''rejected''"
| "broker_state_str B_EXPIRED = ''expired''"
| "broker_state_str B_UNKNOWN = ''unknown''"

definition broker_state_matches :: "order \<Rightarrow> order_status \<Rightarrow> bool" where
  "broker_state_matches ord st =
     (if o_broker_order_id ord \<noteq> Some (bs_broker_id st) then False
      else if o_filled_qty ord \<noteq> bs_filled_qty st then False
      else broker_state_to_local (bs_state st) = o_state ord)"

definition synthetic_fill :: "fill_id \<Rightarrow> order_id \<Rightarrow> order \<Rightarrow> decimal \<Rightarrow> order_status \<Rightarrow> datetime \<Rightarrow> fill" where
  "synthetic_fill fid oid ord qty st ts = \<lparr>f_id = fid, f_order_id = oid, f_agent_id = o_agent_id ord,
     f_symbol = o_symbol ord, f_side = o_side ord, f_qty = qty,
     f_price = (case bs_avg_fill_price st of None \<Rightarrow> 0 | Some p \<Rightarrow> p), f_timestamp = ts, f_commission = 0,
     f_is_partial = (bs_state st \<noteq> B_FILLED)\<rparr>"

text \<open>The three parts of \<^verbatim>\<open>_catch_up_from_broker\<close>: the missing fill, the terminal state, the audit.\<close>

definition catch_fill :: "order_id \<Rightarrow> order_status \<Rightarrow> order \<Rightarrow> datetime \<Rightarrow> unit oms_eff" where
  "catch_fill oid st local ts =
     (let delta = dsub (bs_filled_qty st) (o_filled_qty local) in
      if 0 < delta then andthen new_id (\<lambda>fid. handle_fill oid (synthetic_fill fid oid local delta st ts) ts)
      else skip)"

definition catch_close :: "order_id \<Rightarrow> order_status \<Rightarrow> datetime \<Rightarrow> bool oms_eff" where
  "catch_close oid st ts = (case bs_state st of
       B_CANCELED \<Rightarrow> andthen (handle_cancellation oid ts) (\<lambda>_. ret True)
     | B_REJECTED \<Rightarrow>
         andthen (handle_rejection oid (or_reason (bs_rejection_reason st) ''broker rejected (recovered)'') ts) (\<lambda>_. ret True)
     | B_EXPIRED \<Rightarrow> andthen (handle_expiry oid ts) (\<lambda>_. ret True)
     | B_FILLED \<Rightarrow>
         andthen (fetch om_orders oid) (\<lambda>after.
           if \<not> terminal (o_state after) then andthen (force_close_filled oid ts) (\<lambda>_. ret True) else ret False)
     | _ \<Rightarrow> ret False)"

definition catch_up_from_broker :: "order_id \<Rightarrow> order_status \<Rightarrow> unit oms_eff" where
  "catch_up_from_broker oid st =
     andthen (fetch om_orders oid) (\<lambda>local0.
     andthen (gets om_now) (\<lambda>ts.
     andthen (if o_broker_order_id local0 = None then record_accepted oid (bs_broker_id st) ts else skip) (\<lambda>_.
     andthen (fetch om_orders oid) (\<lambda>local.
     let delta = dsub (bs_filled_qty st) (o_filled_qty local);
         accepted = (o_broker_order_id local0 = None) in
     andthen (catch_fill oid st local ts) (\<lambda>_.
     andthen (catch_close oid st ts) (\<lambda>closed.
     log_event (if accepted \<or> 0 < delta \<or> closed then RECONCILE_RECOVERED else RECONCILE_NOOP) oid
       [(''broker_state'', PStr (broker_state_str (bs_state st))), (''delta_qty'', PDecText delta)] ts))))))"

datatype reconcile_outcome = Was_terminal | Abandoned | Matched | Recovered

text \<open>\<open>look\<close> is the broker's answer to a look-up by client id; a broker that is down raises.\<close>

definition reconcile_one :: "(order_id \<Rightarrow> exn + order_status option) \<Rightarrow> order_id \<Rightarrow> reconcile_outcome oms_eff" where
  "reconcile_one look oid =
     andthen (fetch om_orders oid) (\<lambda>ord.
       if terminal (o_state ord) then ret Was_terminal
       else andthen (lift_res (look oid)) (\<lambda>found.
       andthen (gets om_now) (\<lambda>now.
         case found of
           None \<Rightarrow>
             andthen (log_event RECONCILE_ABANDONED oid
                        [(''reason'', PStr ''broker has no record after recovery'')] now) (\<lambda>_.
             andthen (handle_rejection oid ''abandoned_during_recovery'' now) (\<lambda>_. ret Abandoned))
         | Some st \<Rightarrow>
             if broker_state_matches ord st
             then andthen (log_event RECONCILE_NOOP oid
                    [(''broker_state'', PStr (broker_state_str (bs_state st)))] now) (\<lambda>_. ret Matched)
             else andthen (catch_up_from_broker oid st) (\<lambda>_. ret Recovered))))"

fun reconcile_all ::
  "(order_id \<Rightarrow> exn + order_status option) \<Rightarrow> order_id list \<Rightarrow> reconcile_outcome list oms_eff" where
  "reconcile_all look [] = ret []"
| "reconcile_all look (oid # oids) =
     andthen (reconcile_one look oid) (\<lambda>r. andthen (reconcile_all look oids) (\<lambda>rs. ret (r # rs)))"

definition reconcile_open_orders :: "(order_id \<Rightarrow> exn + order_status option) \<Rightarrow> reconcile_summary oms_eff" where
  "reconcile_open_orders look =
     andthen (gets (\<lambda>s. map fst (om_orders s))) (\<lambda>oids.
     andthen (reconcile_all look oids) (\<lambda>rs.
     ret \<lparr>rs_replayed = length oids, rs_recovered = length (filter (\<lambda>r. r = Recovered) rs),
          rs_abandoned = length (filter (\<lambda>r. r = Abandoned) rs),
          rs_terminal = length (filter (\<lambda>r. r = Was_terminal) rs)\<rparr>))"

definition recover :: "(order_id \<Rightarrow> exn + order_status option) \<Rightarrow> reconcile_summary oms_eff" where
  "recover look = andthen replay_log (\<lambda>_. reconcile_open_orders look)"

end
