(* ===== verification/OMS_Invariants.thy ===== *)
theory OMS_Invariants
  imports OMS
begin

text \<open>
  What the order management system keeps whatever the broker sends: the snapshot of an order
  and its machine show the same state (\<open>oms_wf\<close>), the log only grows, a terminal order
  stays as it is. The handlers are first given in closed form on a well-formed state.
\<close>

subsection \<open>Well-formed states\<close>

definition machine_at :: "oms \<Rightarrow> order_id \<Rightarrow> order_state \<Rightarrow> bool" where
  "machine_at s oid st \<longleftrightarrow>
     (\<exists>m. dict_get (om_fsms s) oid = Some m \<and> m_table m = order_table \<and> m_state m = st)"

definition oms_wf :: "oms \<Rightarrow> bool" where
  "oms_wf s \<longleftrightarrow> readable (om_log s) \<and>
     (\<forall>oid ord. dict_get (om_orders s) oid = Some ord \<longrightarrow>
        o_id ord = oid \<and> machine_at s oid (o_state ord) \<and> dict_get (om_fills s) oid \<noteq> None)"

lemma oms_wfD:
  assumes "oms_wf s" "dict_get (om_orders s) oid = Some ord"
  obtains m fs where "o_id ord = oid" "dict_get (om_fsms s) oid = Some m" "m_table m = order_table"
    "m_state m = o_state ord" "dict_get (om_fills s) oid = Some fs"
  using assms by (fastforce simp: oms_wf_def machine_at_def)

lemma new_oms_wf: "readable lg \<Longrightarrow> oms_wf (new_oms lg n t)"
  by (simp add: oms_wf_def new_oms_def)

text \<open>The machine after an event, arc or not.\<close>

definition stepped :: "order_fsm \<Rightarrow> order_event \<Rightarrow> order_fsm" where
  "stepped m ev = fst (snd (trigger m ev ()))"

lemma stepped_table [simp]: "m_table (stepped m ev) = m_table m"
  using trigger_table [of m ev "()"] by (cases "trigger m ev ()") (auto simp: stepped_def)

lemma stepped_state: "m_table m = order_table \<Longrightarrow> m_state (stepped m ev) = order_life.advance (m_state m) ev"
  by (simp add: stepped_def trigger_order order_life.advance_def split: option.split)

text \<open>The effect of \<open>transition\<close> where order and machine are present.\<close>

definition moved :: "order_id \<Rightarrow> order \<Rightarrow> order_fsm \<Rightarrow> order_event \<Rightarrow> datetime \<Rightarrow> oms \<Rightarrow> oms" where
  "moved oid ord m ev ts s = (case order_next (m_state m) ev of
       None \<Rightarrow> s
     | Some t \<Rightarrow> s\<lparr>om_fsms := dict_set oid (stepped m ev) (om_fsms s),
                   om_orders := dict_set oid (ord\<lparr>o_state := t\<rparr>) (om_orders s),
                   om_bus := om_bus s @ [OrderStateChanged oid (m_state m) t ts]\<rparr>)"

lemma transition_run:
  assumes "dict_get (om_fsms s) oid = Some m" "m_table m = order_table" "dict_get (om_orders s) oid = Some ord"
  shows "transition oid ev ts s = (Inr (), moved oid ord m ev ts s)"
  using assms
  by (cases "order_next (m_state m) ev")
    (simp_all add: transition_def eff_defs oms_prims moved_def trigger_order stepped_def Let_def)

lemma moved_frame [simp, frame]:
  "om_log (moved oid ord m ev ts s) = om_log s" "om_fills (moved oid ord m ev ts s) = om_fills s"
  "om_broker_ids (moved oid ord m ev ts s) = om_broker_ids s" "om_now (moved oid ord m ev ts s) = om_now s"
  "om_fresh (moved oid ord m ev ts s) = om_fresh s"
  by (simp_all add: moved_def split: option.split)

lemma moved_other:
  "k \<noteq> oid \<Longrightarrow> dict_get (om_orders (moved oid ord m ev ts s)) k = dict_get (om_orders s) k"
  "k \<noteq> oid \<Longrightarrow> dict_get (om_fsms (moved oid ord m ev ts s)) k = dict_get (om_fsms s) k"
  by (simp_all add: moved_def split: option.split)

lemma moved_order:
  assumes "dict_get (om_orders s) oid = Some ord" "m_state m = o_state ord"
  shows "dict_get (om_orders (moved oid ord m ev ts s)) oid = Some (ord\<lparr>o_state := order_life.advance (o_state ord) ev\<rparr>)"
  using assms by (simp add: moved_def order_life.advance_def split: option.split)

lemma moved_machine:
  assumes "dict_get (om_fsms s) oid = Some m" "m_table m = order_table"
  shows "machine_at (moved oid ord m ev ts s) oid (order_life.advance (m_state m) ev)"
  using assms stepped_state [of m ev]
  by (auto simp: moved_def machine_at_def order_life.advance_def split: option.split)

subsection \<open>The handlers in closed form\<close>

lemma record_accepted_run:
  assumes "dict_get (om_orders s) oid = Some ord" "dict_get (om_fsms s) oid = Some m" "m_table m = order_table"
  shows "record_accepted oid bid ts s = (Inr (),
    if o_broker_order_id ord = Some bid then s
    else let ord' = ord\<lparr>o_broker_order_id := Some bid, o_submitted_at := Some ts\<rparr> in
      moved oid ord' m ACCEPT ts
        (s\<lparr>om_log := append_event ORDER_ACCEPTED oid [(''broker_order_id'', PStr bid)] ts (om_log s),
           om_broker_ids := dict_set bid oid (om_broker_ids s),
           om_orders := dict_set oid ord' (om_orders s)\<rparr>))"
  using assms by (simp add: record_accepted_def eff_defs oms_prims transition_run Let_def)

definition after_fill :: "order_id \<Rightarrow> order \<Rightarrow> order_fsm \<Rightarrow> fill list \<Rightarrow> fill \<Rightarrow> decimal \<Rightarrow> datetime \<Rightarrow> oms \<Rightarrow> oms" where
  "after_fill oid ord m fs f avg ts s =
     moved oid (filled_order ord f avg ts) m (fill_event ord f) ts
       (s\<lparr>om_log := append_event FILL_RECEIVED oid (serialize_fill f) ts (om_log s),
          om_fills := dict_set oid (fs @ [f]) (om_fills s),
          om_orders := dict_set oid (filled_order ord f avg ts) (om_orders s)\<rparr>)"

lemma handle_fill_run:
  assumes "dict_get (om_orders s) oid = Some ord" "dict_get (om_fsms s) oid = Some m" "m_table m = order_table"
    "dict_get (om_fills s) oid = Some fs"
  shows "handle_fill oid f0 ts s = (let f = canonical_fill ord f0 in case average_price ord f of
      Inl e \<Rightarrow> (Inl e, s\<lparr>om_log := append_event FILL_RECEIVED oid (serialize_fill f) ts (om_log s),
                 om_fills := dict_set oid (fs @ [f]) (om_fills s)\<rparr>)
    | Inr avg \<Rightarrow> (Inr (), (after_fill oid ord m fs f avg ts s)\<lparr>om_bus :=
                 om_bus (after_fill oid ord m fs f avg ts s) @ [FillReceived f]\<rparr>))"
  using assms
  by (simp add: handle_fill_def eff_defs oms_prims Let_def transition_run after_fill_def split: sum.split)

lemma handle_cancellation_run:
  assumes "dict_get (om_orders s) oid = Some ord" "dict_get (om_fsms s) oid = Some m" "m_table m = order_table"
  shows "handle_cancellation oid ts s = (Inr (), if terminal (o_state ord) then s
    else moved oid ord m CANCEL ts (s\<lparr>om_log := append_event ORDER_CANCELLED oid [] ts (om_log s)\<rparr>))"
  using assms by (simp add: handle_cancellation_def eff_defs oms_prims transition_run)

lemma handle_rejection_run:
  assumes "dict_get (om_orders s) oid = Some ord" "dict_get (om_fsms s) oid = Some m" "m_table m = order_table"
  shows "handle_rejection oid reason ts s = (Inr (), if terminal (o_state ord) then s
    else let ord' = ord\<lparr>o_rejection_reason := Some reason\<rparr> in
      moved oid ord' m REJECT ts
        (s\<lparr>om_log := append_event ORDER_REJECTED oid [(''reason'', PStr reason)] ts (om_log s),
           om_orders := dict_set oid ord' (om_orders s)\<rparr>))"
  using assms by (simp add: handle_rejection_def eff_defs oms_prims transition_run Let_def)

lemma handle_expiry_run:
  assumes "dict_get (om_orders s) oid = Some ord" "dict_get (om_fsms s) oid = Some m" "m_table m = order_table"
  shows "handle_expiry oid ts s = (Inr (), if terminal (o_state ord) then s
    else moved oid ord m EXPIRE ts (s\<lparr>om_log := append_event ORDER_EXPIRED oid [] ts (om_log s)\<rparr>))"
  using assms by (simp add: handle_expiry_def eff_defs oms_prims transition_run)

lemma force_close_run:
  assumes "dict_get (om_orders s) oid = Some ord" "dict_get (om_fsms s) oid = Some m" "m_table m = order_table"
  shows "force_close_filled oid ts s = (Inr (), if terminal (o_state ord) then s
    else let ord' = ord\<lparr>o_qty := o_filled_qty ord, o_filled_at := Some ts\<rparr> in
      moved oid ord' m FULL_FILL ts (s\<lparr>om_orders := dict_set oid ord' (om_orders s)\<rparr>))"
  using assms by (simp add: force_close_filled_def eff_defs oms_prims transition_run Let_def)

lemma silent_step_run:
  assumes "dict_get (om_fsms s) oid = Some m" "dict_get (om_orders s) oid = Some ord"
  shows "silent_step oid ev st s = (Inr (), s\<lparr>om_fsms := dict_set oid (stepped m ev) (om_fsms s),
     om_orders := dict_set oid (ord\<lparr>o_state := st\<rparr>) (om_orders s)\<rparr>)"
  using assms by (simp add: silent_step_def eff_defs oms_prims stepped_def)

subsection \<open>What no operation undoes\<close>

text \<open>
  \<open>evolves s t\<close>: the log of \<open>t\<close> extends that of \<open>s\<close>, every order is still there with the same
  identity, its state did not go back, and a terminal state is final.
\<close>

definition same_identity :: "order \<Rightarrow> order \<Rightarrow> bool" where
  "same_identity a b \<longleftrightarrow> o_id a = o_id b \<and> o_intent_id a = o_intent_id b \<and> o_agent_id a = o_agent_id b
     \<and> o_symbol a = o_symbol b \<and> o_side a = o_side b \<and> o_created_at a = o_created_at b"

definition order_evolves :: "order \<Rightarrow> order \<Rightarrow> bool" where
  "order_evolves a b \<longleftrightarrow> same_identity a b \<and> state_rank (o_state a) \<le> state_rank (o_state b)
     \<and> (terminal (o_state a) \<longrightarrow> o_state b = o_state a)"

definition evolves :: "oms \<Rightarrow> oms \<Rightarrow> bool" where
  "evolves s t \<longleftrightarrow> (\<exists>rows. om_log t = om_log s @ rows) \<and>
     (\<forall>oid ord. dict_get (om_orders s) oid = Some ord \<longrightarrow>
        (\<exists>ord'. dict_get (om_orders t) oid = Some ord' \<and> order_evolves ord ord'))"

lemma order_evolves_refl [simp]: "order_evolves a a"
  by (simp add: order_evolves_def same_identity_def)

lemma order_evolves_trans: "order_evolves a b \<Longrightarrow> order_evolves b c \<Longrightarrow> order_evolves a c"
  by (auto simp: order_evolves_def same_identity_def)

lemma evolves_refl [simp]: "evolves s s"
  by (simp add: evolves_def)

lemma evolves_trans: "evolves s t \<Longrightarrow> evolves t u \<Longrightarrow> evolves s u"
  unfolding evolves_def by (fastforce intro: order_evolves_trans)

text \<open>A step on a well-formed state that keeps it so and evolves it.\<close>

definition good_step :: "oms \<Rightarrow> oms \<Rightarrow> bool" where
  "good_step s t \<longleftrightarrow> (oms_wf s \<longrightarrow> oms_wf t \<and> evolves s t)"

lemma good_refl [simp]: "good_step s s"
  by (simp add: good_step_def)

lemma good_trans: "good_step s t \<Longrightarrow> good_step t u \<Longrightarrow> good_step s u"
  by (auto simp: good_step_def intro: evolves_trans)

lemma good_frame:
  assumes "om_orders t = om_orders s" "om_fsms t = om_fsms s"
    "\<And>k. dict_get (om_fills s) k \<noteq> None \<Longrightarrow> dict_get (om_fills t) k \<noteq> None"
    "\<exists>rows. om_log t = om_log s @ rows \<and> readable rows"
  shows "good_step s t"
  using assms by (fastforce simp: good_step_def evolves_def oms_wf_def machine_at_def readable_def)

lemma good_put:
  assumes "dict_get (om_orders s) oid = Some ord" "same_identity ord ord'" "o_state ord' = o_state ord"
    "om_orders t = dict_set oid ord' (om_orders s)" "om_fsms t = om_fsms s"
    "\<And>k. dict_get (om_fills s) k \<noteq> None \<Longrightarrow> dict_get (om_fills t) k \<noteq> None"
    "\<exists>rows. om_log t = om_log s @ rows \<and> readable rows"
  shows "good_step s t"
  unfolding good_step_def
proof
  assume wf: "oms_wf s"
  have "oms_wf t"
    unfolding oms_wf_def
  proof (intro conjI allI impI)
    show "readable (om_log t)" using wf assms(7) by (auto simp: oms_wf_def readable_def)
    fix k x assume k: "dict_get (om_orders t) k = Some x"
    obtain x0 where x0: "dict_get (om_orders s) k = Some x0" "o_id x = o_id x0" "o_state x = o_state x0"
      using k assms(1-4) by (cases "k = oid") (auto simp: same_identity_def)
    with wf assms(5,6) show "o_id x = k" "machine_at t k (o_state x)" "dict_get (om_fills t) k \<noteq> None"
      by (auto simp: oms_wf_def machine_at_def)
  qed
  moreover have "evolves s t"
    using assms(1-4,7) by (auto simp: evolves_def order_evolves_def same_identity_def)
  ultimately show "oms_wf t \<and> evolves s t" ..
qed

lemma advance_rank_le: "state_rank st \<le> state_rank (order_life.advance st ev)"
  by (rule order_life.advance_rank)

lemma good_moved:
  assumes "dict_get (om_orders s) oid = Some ord" "dict_get (om_fsms s) oid = Some m"
  shows "good_step s (moved oid ord m ev ts s)"
  unfolding good_step_def
proof
  assume wf: "oms_wf s"
  with assms have m: "m_table m = order_table" "m_state m = o_state ord" "o_id ord = oid"
    by (auto elim: oms_wfD)
  let ?t = "moved oid ord m ev ts s"
  have ord': "dict_get (om_orders ?t) oid = Some (ord\<lparr>o_state := order_life.advance (o_state ord) ev\<rparr>)"
    by (rule moved_order [OF assms(1) m(2)])
  have mach: "machine_at ?t oid (order_life.advance (o_state ord) ev)"
    using moved_machine [OF assms(2) m(1)] by (simp add: m(2))
  have "oms_wf ?t"
    unfolding oms_wf_def
  proof (intro conjI allI impI)
    show "readable (om_log ?t)" using wf by (simp add: oms_wf_def)
    fix k x assume k: "dict_get (om_orders ?t) k = Some x"
    show "o_id x = k" "machine_at ?t k (o_state x)" "dict_get (om_fills ?t) k \<noteq> None"
      using wf k ord' mach m(3) assms(1)
      by (cases "k = oid"; auto simp: moved_other oms_wf_def machine_at_def)+
  qed
  moreover have "order_evolves ord (ord\<lparr>o_state := order_life.advance (o_state ord) ev\<rparr>)"
    by (simp add: order_evolves_def same_identity_def order_life.advance_final advance_rank_le)
  then have "evolves s ?t"
    unfolding evolves_def using ord' assms(1) by (auto, metis moved_other(1) order_evolves_refl option.inject)
  ultimately show "oms_wf ?t \<and> evolves s ?t" ..
qed

definition good_op :: "'a oms_eff \<Rightarrow> bool" where
  "good_op m \<longleftrightarrow> (\<forall>s. good_step s (snd (m s)))"

lemma good_op_bind: "good_op m \<Longrightarrow> (\<And>x. good_op (f x)) \<Longrightarrow> good_op (andthen m f)"
  by (force simp: good_op_def andthen_def split: prod.split sum.split intro: good_trans)

lemma good_op_simple [simp]:
  "good_op (ret x)" "good_op (raise e)" "good_op skip" "good_op (gets g)" "good_op (lift_res r)" "good_op (fetch h k)"
  by (auto simp: good_op_def eff_defs split: option.split)

lemma good_op_each: "(\<And>x. good_op (f x)) \<Longrightarrow> good_op (each f xs)"
  by (induction xs) (auto intro: good_op_bind)

lemma good_op_if: "good_op a \<Longrightarrow> good_op b \<Longrightarrow> good_op (if c then a else b)"
  by simp

lemma append_event_rows:
  "append_event k oid p ts lg = lg @ [\<lparr>r_seq = int (length lg) + 1, r_ts = ts, r_kind = k, r_order_id = oid, r_payload = dumps p\<rparr>]"
  by (simp add: append_event_def)

lemma readable_row: "plain_keys p \<Longrightarrow> readable [\<lparr>r_seq = n, r_ts = ts, r_kind = k, r_order_id = oid, r_payload = dumps p\<rparr>]"
  by (simp add: readable_def)

lemma plain_simple [simp]:
  "plain_keys []" "plain_keys [(''reason'', v)]" "plain_keys [(''broker_order_id'', v)]"
  "plain_keys [(''broker_state'', v)]" "plain_keys [(''broker_state'', v), (''delta_qty'', w)]"
  by (simp_all add: plain_keys_def reserved_keys_def)

subsection \<open>The handlers keep it\<close>

text \<open>It is enough to look at the states in which the order is known.\<close>

lemma good_opI:
  assumes "\<And>s. dict_get (om_orders s) oid = None \<Longrightarrow> snd (m s) = s"
    and "\<And>s ord fsm fs. oms_wf s \<Longrightarrow> dict_get (om_orders s) oid = Some ord \<Longrightarrow> dict_get (om_fsms s) oid = Some fsm \<Longrightarrow>
      m_table fsm = order_table \<Longrightarrow> m_state fsm = o_state ord \<Longrightarrow> dict_get (om_fills s) oid = Some fs \<Longrightarrow>
      good_step s (snd (m s))"
  shows "good_op m"
  unfolding good_op_def
proof
  fix s
  show "good_step s (snd (m s))"
  proof (cases "oms_wf s")
    case True
    show ?thesis
    proof (cases "dict_get (om_orders s) oid")
      case (Some ord)
      with True show ?thesis by (metis assms(2) oms_wfD)
    qed (simp add: assms(1))
  qed (simp add: good_step_def)
qed

lemma good_log: "plain_keys p \<Longrightarrow> good_op (log_event k oid p ts)"
  unfolding good_op_def
  by (auto simp: log_event_def modify_def append_event_rows intro!: good_frame readable_row)

lemma good_publish: "good_op (publish e)"
  unfolding good_op_def
  by (auto simp: publish_def modify_def readable_def intro!: good_frame )

lemma good_new_id: "good_op new_id"
  unfolding good_op_def
  by (auto simp: new_id_def readable_def intro!: good_frame )

lemma good_record_accepted: "good_op (record_accepted oid bid ts)"
proof (rule good_opI [of oid])
  fix s :: oms and ord fsm fs
  assume *: "dict_get (om_orders s) oid = Some ord" "dict_get (om_fsms s) oid = Some fsm" "m_table fsm = order_table"
  let ?ord = "ord\<lparr>o_broker_order_id := Some bid, o_submitted_at := Some ts\<rparr>"
  let ?t = "s\<lparr>om_log := append_event ORDER_ACCEPTED oid [(''broker_order_id'', PStr bid)] ts (om_log s),
           om_broker_ids := dict_set bid oid (om_broker_ids s), om_orders := dict_set oid ?ord (om_orders s)\<rparr>"
  have "good_step s ?t"
    by (rule good_put [OF *(1), of ?ord]) (simp_all add: same_identity_def append_event_rows readable_row)
  moreover have "good_step ?t (moved oid ?ord fsm ACCEPT ts ?t)"
    by (rule good_moved) (simp_all add: *)
  ultimately show "good_step s (snd (record_accepted oid bid ts s))"
    by (auto simp: record_accepted_run [OF *] Let_def intro: good_trans)
qed (simp add: record_accepted_def eff_defs)

lemma good_after_fill:
  assumes "dict_get (om_orders s) oid = Some ord" "dict_get (om_fsms s) oid = Some fsm"
  shows "good_step s (after_fill oid ord fsm fs f avg ts s)"
proof -
  let ?ord = "filled_order ord f avg ts"
  let ?t = "s\<lparr>om_log := append_event FILL_RECEIVED oid (serialize_fill f) ts (om_log s),
          om_fills := dict_set oid (fs @ [f]) (om_fills s), om_orders := dict_set oid ?ord (om_orders s)\<rparr>"
  have "good_step s ?t"
    by (rule good_put [OF assms(1), of ?ord])
      (simp_all add: filled_order_def same_identity_def append_event_rows readable_row split: if_splits)
  moreover have "good_step ?t (after_fill oid ord fsm fs f avg ts s)"
    unfolding after_fill_def by (rule good_moved) (simp_all add: assms)
  ultimately show ?thesis by (rule good_trans)
qed

lemma good_handle_fill: "good_op (handle_fill oid f ts)"
proof (rule good_opI [of oid])
  fix s :: oms and ord fsm fs
  assume *: "dict_get (om_orders s) oid = Some ord" "dict_get (om_fsms s) oid = Some fsm" "m_table fsm = order_table"
    "dict_get (om_fills s) oid = Some fs"
  let ?f = "canonical_fill ord f"
  have 1: "good_step s (s\<lparr>om_log := append_event FILL_RECEIVED oid (serialize_fill ?f) ts (om_log s),
      om_fills := dict_set oid (fs @ [?f]) (om_fills s)\<rparr>)"
    by (rule good_frame) (simp_all add: append_event_rows readable_row)
  have 2: "good_step u (u\<lparr>om_bus := b\<rparr>)" for u b
    by (rule good_frame ) (simp_all add: readable_def)
  have 3: "good_step s ((after_fill oid ord fsm fs ?f avg ts s)\<lparr>om_bus := b\<rparr>)" for avg b
    by (rule good_trans [OF good_after_fill [OF *(1,2)] 2])
  show "good_step s (snd (handle_fill oid f ts s))"
    by (simp add: handle_fill_run [OF *] Let_def 1 3 split: sum.split)
qed (simp add: handle_fill_def eff_defs)

lemma good_handle_cancellation: "good_op (handle_cancellation oid ts)"
proof (rule good_opI [of oid])
  fix s :: oms and ord fsm fs
  assume *: "dict_get (om_orders s) oid = Some ord" "dict_get (om_fsms s) oid = Some fsm" "m_table fsm = order_table"
  let ?t = "s\<lparr>om_log := append_event ORDER_CANCELLED oid [] ts (om_log s)\<rparr>"
  have "good_step s ?t" by (rule good_frame) (simp_all add: append_event_rows readable_row)
  moreover have "good_step ?t (moved oid ord fsm CANCEL ts ?t)" by (rule good_moved) (simp_all add: *)
  ultimately show "good_step s (snd (handle_cancellation oid ts s))"
    by (auto simp: handle_cancellation_run [OF *] intro: good_trans)
qed (simp add: handle_cancellation_def eff_defs)

lemma good_handle_expiry: "good_op (handle_expiry oid ts)"
proof (rule good_opI [of oid])
  fix s :: oms and ord fsm fs
  assume *: "dict_get (om_orders s) oid = Some ord" "dict_get (om_fsms s) oid = Some fsm" "m_table fsm = order_table"
  let ?t = "s\<lparr>om_log := append_event ORDER_EXPIRED oid [] ts (om_log s)\<rparr>"
  have "good_step s ?t" by (rule good_frame) (simp_all add: append_event_rows readable_row)
  moreover have "good_step ?t (moved oid ord fsm EXPIRE ts ?t)" by (rule good_moved) (simp_all add: *)
  ultimately show "good_step s (snd (handle_expiry oid ts s))"
    by (auto simp: handle_expiry_run [OF *] intro: good_trans)
qed (simp add: handle_expiry_def eff_defs)

lemma good_handle_rejection: "good_op (handle_rejection oid reason ts)"
proof (rule good_opI [of oid])
  fix s :: oms and ord fsm fs
  assume *: "dict_get (om_orders s) oid = Some ord" "dict_get (om_fsms s) oid = Some fsm" "m_table fsm = order_table"
  let ?ord = "ord\<lparr>o_rejection_reason := Some reason\<rparr>"
  let ?t = "s\<lparr>om_log := append_event ORDER_REJECTED oid [(''reason'', PStr reason)] ts (om_log s),
      om_orders := dict_set oid ?ord (om_orders s)\<rparr>"
  have "good_step s ?t"
    by (rule good_put [OF *(1), of ?ord]) (simp_all add: same_identity_def append_event_rows readable_row)
  moreover have "good_step ?t (moved oid ?ord fsm REJECT ts ?t)" by (rule good_moved) (simp_all add: *)
  ultimately show "good_step s (snd (handle_rejection oid reason ts s))"
    by (auto simp: handle_rejection_run [OF *] Let_def intro: good_trans)
qed (simp add: handle_rejection_def eff_defs)

lemma good_force_close: "good_op (force_close_filled oid ts)"
proof (rule good_opI [of oid])
  fix s :: oms and ord fsm fs
  assume *: "dict_get (om_orders s) oid = Some ord" "dict_get (om_fsms s) oid = Some fsm" "m_table fsm = order_table"
  let ?ord = "ord\<lparr>o_qty := o_filled_qty ord, o_filled_at := Some ts\<rparr>"
  let ?t = "s\<lparr>om_orders := dict_set oid ?ord (om_orders s)\<rparr>"
  have "good_step s ?t"
    by (rule good_put [OF *(1), of ?ord]) (simp_all add: same_identity_def readable_def)
  moreover have "good_step ?t (moved oid ?ord fsm FULL_FILL ts ?t)" by (rule good_moved) (simp_all add: *)
  ultimately show "good_step s (snd (force_close_filled oid ts s))"
    by (auto simp: force_close_run [OF *] Let_def intro: good_trans)
qed (simp add: force_close_filled_def eff_defs)

lemmas good_handlers = good_record_accepted good_handle_fill good_handle_cancellation
  good_handle_expiry good_handle_rejection good_force_close

lemma good_opD: "good_op m \<Longrightarrow> good_step s (snd (m s))"
  by (simp add: good_op_def)

lemma good_on_broker_event: "good_op (on_broker_event ev)"
  unfolding good_op_def
  by (auto simp: on_broker_event_def Let_def good_opD good_handlers
      split: option.split broker_order_state.split)

lemma good_transition: "good_op (transition oid ev ts)"
  unfolding good_op_def
proof
  fix s :: oms
  show "good_step s (snd (transition oid ev ts s))"
  proof (cases "oms_wf s")
    case True
    show ?thesis
    proof (cases "dict_get (om_orders s) oid")
      case None
      have "om_orders (snd (transition oid ev ts s)) = om_orders s \<and> om_log (snd (transition oid ev ts s)) = om_log s
          \<and> om_fills (snd (transition oid ev ts s)) = om_fills s
          \<and> (\<forall>k. k \<noteq> oid \<longrightarrow> dict_get (om_fsms (snd (transition oid ev ts s))) k = dict_get (om_fsms s) k)"
        using None by (simp add: transition_def eff_defs oms_prims case_prod_beta split: option.split)
      then show ?thesis using None True
        by (auto simp: good_step_def evolves_def oms_wf_def machine_at_def) (metis option.distinct(1))
    next
      case (Some ord)
      with True obtain m where "dict_get (om_fsms s) oid = Some m" "m_table m = order_table" by (auto elim: oms_wfD)
      with Some show ?thesis by (simp add: transition_run good_moved)
    qed
  qed (simp add: good_step_def)
qed

subsection \<open>Public operations\<close>

definition started :: "order \<Rightarrow> oms \<Rightarrow> oms" where
  "started ord s = s\<lparr>om_orders := dict_set (o_id ord) ord (om_orders s),
     om_fsms := dict_set (o_id ord) (order_machine PENDING) (om_fsms s),
     om_fills := dict_set (o_id ord) [] (om_fills s)\<rparr>"

lemma start_order_run: "start_order ord s = (Inr (), started ord s)"
  by (simp add: start_order_def eff_defs oms_prims started_def)

lemma order_machine_simps [simp]: "m_table (order_machine st) = order_table" "m_state (order_machine st) = st"
  by (simp_all add: order_machine_def)

lemma good_new_order:
  assumes "dict_get (om_orders s) oid = None" "o_id ord = oid" "m_table fsm = order_table" "m_state fsm = o_state ord"
    "om_orders t = dict_set oid ord (om_orders s)" "om_fsms t = dict_set oid fsm (om_fsms s)"
    "om_fills t = dict_set oid fs (om_fills s)" "\<exists>rows. om_log t = om_log s @ rows \<and> readable rows"
  shows "good_step s t"
  unfolding good_step_def
proof
  assume wf: "oms_wf s"
  have "oms_wf t"
    unfolding oms_wf_def
  proof (intro conjI allI impI)
    show "readable (om_log t)" using wf assms(8) by (auto simp: oms_wf_def readable_def)
    fix k x assume "dict_get (om_orders t) k = Some x"
    then show "o_id x = k" "machine_at t k (o_state x)" "dict_get (om_fills t) k \<noteq> None"
      using wf assms(2-7) by (cases "k = oid"; auto simp: oms_wf_def machine_at_def)+
  qed
  moreover have "evolves s t"
    using assms(1,5,8) by (auto simp: evolves_def)
  ultimately show "oms_wf t \<and> evolves s t" ..
qed

lemma good_started:
  "dict_get (om_orders s) (o_id ord) = None \<Longrightarrow> o_state ord = PENDING \<Longrightarrow> good_step s (started ord s)"
  by (rule good_new_order [of s "o_id ord" ord "order_machine PENDING" _ "[]"])
    (simp_all add: started_def readable_def)

lemmas good_combine = good_op_bind good_op_each good_op_if good_log good_publish good_new_id good_transition
  good_handlers good_on_broker_event

lemma good_submit_result: "good_op (submit_result_of oid bid acc reason)"
  unfolding submit_result_of_def by (intro good_combine) simp_all

lemma good_finish_submit: "good_op (finish_submit oid answer)"
  unfolding finish_submit_def
  by (cases answer; cases "projl answer") (auto intro!: good_combine good_submit_result)

text \<open>A placed order is submitted and logged; the rest of the call starts from here.\<close>

definition after_place :: "order \<Rightarrow> oms \<Rightarrow> oms" where
  "after_place ord s =
     (let t = (started ord s)\<lparr>om_log := append_event ORDER_SUBMIT_INTENT (o_id ord) (serialize_order ord) (om_now s) (om_log s)\<rparr>;
          u = moved (o_id ord) ord (order_machine PENDING) SUBMIT (om_now s) t
      in u\<lparr>om_bus := om_bus u @ [OrderPlaced (ord\<lparr>o_state := SUBMITTED\<rparr>)]\<rparr>)"

lemma place_order_run: "place_order ord s = (Inr (), after_place ord s)"
  by (simp add: place_order_def andthen_def gets_def start_order_run log_event_def modify_def
      transition_run [where ord = ord and m = "order_machine PENDING"] started_def fetch_def publish_def
      after_place_def moved_def Let_def)

lemma good_place:
  assumes "dict_get (om_orders s) (o_id ord) = None" "o_state ord = PENDING"
  shows "good_step s (after_place ord s)"
proof -
  define t where "t = (started ord s)\<lparr>om_log := append_event ORDER_SUBMIT_INTENT (o_id ord) (serialize_order ord) (om_now s) (om_log s)\<rparr>"
  have "good_step (started ord s) t"
    by (rule good_frame) (simp_all add: t_def append_event_rows readable_row started_def)
  moreover have "good_step t (moved (o_id ord) ord (order_machine PENDING) SUBMIT (om_now s) t)"
    by (rule good_moved) (simp_all add: t_def started_def)
  moreover have "good_step u (u\<lparr>om_bus := b\<rparr>)" for u b
    by (rule good_frame) (simp_all add: readable_def)
  ultimately show ?thesis
    using good_started [OF assms] unfolding after_place_def Let_def t_def [symmetric] by (meson good_trans)
qed

lemma good_submit:
  assumes "dict_get (om_orders s) (o_id ord) = None"
  shows "good_step s (snd (submit_order reply ord s))"
proof (cases "o_state ord = PENDING")
  case True
  have g: "good_op (andthen (each on_broker_event (fst (reply ord))) (\<lambda>_. finish_submit (o_id ord) (snd (reply ord))))"
    by (intro good_combine good_finish_submit)
  show ?thesis
    using True good_trans [OF good_place [OF assms True] good_opD [OF g]]
    by (simp add: submit_order_def andthen_def [of "place_order ord"] place_order_run)
qed (simp add: submit_order_def raise_def)

lemma good_cancel_order: "good_op (cancel_order reply oid)"
  unfolding cancel_order_def
  by (intro good_combine; simp split: option.split; intro allI conjI impI good_combine; simp)

text \<open>A synthetic order is ready for its fill: accepted, with its own broker id, and logged.\<close>

definition ghost_ready :: "string \<Rightarrow> order \<Rightarrow> datetime \<Rightarrow> oms \<Rightarrow> oms" where
  "ghost_ready bid ord ts s = s\<lparr>
     om_fills := dict_set (o_id ord) [] (om_fills s),
     om_log := append_event ORDER_ACCEPTED (o_id ord) [(''broker_order_id'', PStr bid)] ts
        (append_event ORDER_SUBMIT_INTENT (o_id ord) (serialize_order ord) ts (om_log s)),
     om_broker_ids := dict_set bid (o_id ord) (om_broker_ids s),
     om_fsms := dict_set (o_id ord) (stepped (stepped (order_machine PENDING) SUBMIT) ACCEPT) (om_fsms s),
     om_orders := dict_set (o_id ord) (ord\<lparr>o_broker_order_id := Some bid, o_submitted_at := Some ts,
        o_state := ACCEPTED\<rparr>) (om_orders s)\<rparr>"

lemma dict_set_again [simp]: "dict_set k v (dict_set k w d) = dict_set k v d"
  by (induction d) auto

lemma run_ghost_ready: "run_ghost bid ord f ts s = handle_fill (o_id ord) f ts (ghost_ready bid ord ts s)"
  by (simp add: run_ghost_def start_order_def silent_step_def eff_defs oms_prims ghost_ready_def stepped_def)

lemma good_ghost_ready:
  assumes "dict_get (om_orders s) (o_id ord) = None" "o_state ord = PENDING"
  shows "good_step s (ghost_ready bid ord ts s)"
  by (rule good_new_order [of s "o_id ord"
        "ord\<lparr>o_broker_order_id := Some bid, o_submitted_at := Some ts, o_state := ACCEPTED\<rparr>"
        "stepped (stepped (order_machine PENDING) SUBMIT) ACCEPT" _ "[]"])
    (simp_all add: assms ghost_ready_def stepped_state order_life.advance_def append_event_rows readable_def)

lemma ghost_run:
  "ghost pre side symb qty price agent ts s =
     (let ord = ghost_order (om_fresh s) (Suc (om_fresh s)) side symb qty agent ts
      in handle_fill (om_fresh s) (ghost_fill (Suc (Suc (om_fresh s))) ord price ts) ts
           (ghost_ready (pre @ uuid_text (om_fresh s)) ord ts (s\<lparr>om_fresh := Suc (Suc (Suc (om_fresh s)))\<rparr>)))"
  by (simp add: ghost_def andthen_def new_id_def Let_def run_ghost_ready) (simp add: ghost_order_def)

lemma good_ghost:
  assumes "dict_get (om_orders s) (om_fresh s) = None"
  shows "good_step s (snd (ghost pre side symb qty price agent ts s))"
proof -
  let ?ord = "ghost_order (om_fresh s) (Suc (om_fresh s)) side symb qty agent ts"
  let ?s = "s\<lparr>om_fresh := Suc (Suc (Suc (om_fresh s)))\<rparr>"
  have "good_step s ?s" by (rule good_frame) (simp_all add: readable_def)
  moreover have "good_step ?s (ghost_ready (pre @ uuid_text (om_fresh s)) ?ord ts ?s)"
    by (rule good_ghost_ready) (simp_all add: assms ghost_order_def)
  ultimately show ?thesis
    unfolding ghost_run Let_def using good_opD [OF good_handle_fill] by (blast intro: good_trans)
qed

lemma good_catch_fill: "good_op (catch_fill oid st local ts)"
  unfolding catch_fill_def Let_def by (intro good_combine; simp)

lemma good_catch_close: "good_op (catch_close oid st ts)"
  unfolding catch_close_def by (cases "bs_state st") (auto intro!: good_combine)

lemma good_catch_up: "good_op (catch_up_from_broker oid st)"
  unfolding catch_up_from_broker_def Let_def
  by (intro good_combine good_catch_fill good_catch_close; simp)

lemma good_reconcile_one: "good_op (reconcile_one look oid)"
  unfolding reconcile_one_def
  by (intro good_combine; (simp; fail)?; simp split: option.split; intro allI conjI impI good_combine good_catch_up; simp)

lemma good_reconcile_all: "good_op (reconcile_all look oids)"
  by (induction oids) (auto intro!: good_combine good_reconcile_one)

lemma good_reconcile: "good_op (reconcile_open_orders look)"
  unfolding reconcile_open_orders_def by (intro good_combine good_reconcile_all; simp)

subsection \<open>Every run of the live system\<close>

text \<open>
  A step is one public call, with any broker. A submission carries a new id: the planner draws
  one for every order. \<open>tick\<close> is the passing of time.
\<close>

inductive oms_step :: "oms \<Rightarrow> oms \<Rightarrow> bool" where
  step_submit: "dict_get (om_orders s) (o_id ord) = None \<Longrightarrow> oms_step s (snd (submit_order reply ord s))"
| step_cancel: "oms_step s (snd (cancel_order creply oid s))"
| step_event: "oms_step s (snd (on_broker_event ev s))"
| step_close: "oms_step s (snd (force_close_filled oid ts s))"
| step_adopt: "dict_get (om_orders s) (om_fresh s) = None \<Longrightarrow>
    oms_step s (snd (adopt_orphan_position symb qty price agent ts s))"
| step_fee: "dict_get (om_orders s) (om_fresh s) = None \<Longrightarrow>
    oms_step s (snd (book_fee_offset symb qty price agent ts s))"
| step_reconcile: "oms_step s (snd (reconcile_open_orders look s))"
| step_tick: "oms_step s (s\<lparr>om_now := t\<rparr>)"

inductive oms_run :: "oms \<Rightarrow> oms \<Rightarrow> bool" where
  run_refl: "oms_run s s"
| run_step: "oms_run s t \<Longrightarrow> oms_step t u \<Longrightarrow> oms_run s u"

lemma good_oms_step: "oms_step s t \<Longrightarrow> good_step s t"
proof (induction rule: oms_step.induct)
  case (step_tick s t)
  show ?case by (rule good_frame) (simp_all add: readable_def)
qed (simp_all add: good_submit good_ghost adopt_orphan_position_def book_fee_offset_def
      good_opD [OF good_cancel_order] good_opD [OF good_on_broker_event] good_opD [OF good_force_close]
      good_opD [OF good_reconcile])

lemma good_oms_run: "oms_run s t \<Longrightarrow> good_step s t"
  by (induction rule: oms_run.induct) (auto intro: good_trans good_oms_step)

subsection \<open>A small run\<close>

text \<open>An order for two shares, accepted by the broker at once.\<close>

definition sample_order :: order where
  "sample_order = \<lparr>o_id = 1, o_intent_id = 2, o_agent_id = SONNET,
     o_symbol = ''SPY'', o_side = BUY, o_qty = 2, o_order_type = MARKET, o_order_class = SIMPLE,
     o_time_in_force = DAY, o_state = PENDING, o_created_at = 0, o_limit_price = None, o_stop_price = None,
     o_trail_percent = None, o_broker_order_id = None, o_legs = [], o_submitted_at = None,
     o_filled_at = None, o_filled_qty = 0, o_filled_avg_price = None, o_rejection_reason = None,
     o_is_letf = False, o_letf_entry_date = None\<rparr>"

definition sample_oms :: oms where
  "sample_oms = snd (submit_order (\<lambda>_. ([], Inr ''b1'')) sample_order (new_oms [] 10 0))"

definition sample_accepted :: order where
  "sample_accepted = sample_order\<lparr>o_broker_order_id := Some ''b1'', o_submitted_at := Some 0, o_state := ACCEPTED\<rparr>"

definition sample_status :: "broker_order_state \<Rightarrow> decimal \<Rightarrow> order_status" where
  "sample_status st filled = \<lparr>bs_broker_id = ''b1'', bs_client_id = 1, bs_symbol = ''SPY'', bs_side = BUY, bs_qty = 2,
     bs_filled_qty = filled, bs_avg_fill_price = Some 100, bs_state = st, bs_submitted_at = 0, bs_updated_at = 0,
     bs_rejection_reason = None\<rparr>"

definition sample_part :: fill where
  "sample_part = \<lparr>f_id = 9, f_order_id = 1, f_agent_id = SONNET, f_symbol = ''SPY'', f_side = BUY,
     f_qty = 1, f_price = 100, f_timestamp = 0, f_commission = 0, f_is_partial = True\<rparr>"

lemma sample_oms_order: "dict_get (om_orders sample_oms) 1 = Some sample_accepted"
    "om_broker_ids sample_oms = [(''b1'', 1)]" "om_fresh sample_oms = 10" "om_now sample_oms = 0"
    "om_orders sample_oms = [(1, sample_accepted)]" "om_fills sample_oms = [(1, [])]"
    "om_fsms sample_oms = [(1, \<lparr>m_state = ACCEPTED, m_table = order_table,
        m_history = [(PENDING, Some SUBMIT, SUBMITTED), (SUBMITTED, Some ACCEPT, ACCEPTED)]\<rparr>)]"
  by (simp_all add: sample_oms_def sample_order_def sample_accepted_def submit_order_def place_order_def start_order_def finish_submit_def
      submit_result_of_def record_accepted_def transition_def eff_defs oms_prims new_oms_def trigger_order order_machine_def Let_def)

lemmas sample_eval = eff_defs oms_prims transition_def trigger_order handle_fill_def canonical_fill_def
  average_price_def filled_order_def fill_event_def is_fully_filled_def fill_qty_tolerance_def Let_def
  sample_oms_order sample_accepted_def sample_order_def sample_part_def ddiv_chk_def dec_eval

text \<open>Half of it filled.\<close>

lemma sample_filled:
  "handle_fill 1 sample_part 0 sample_oms = (Inr (), snd (handle_fill 1 sample_part 0 sample_oms))"
  "dict_get (om_orders (snd (handle_fill 1 sample_part 0 sample_oms))) 1 =
     Some (sample_accepted\<lparr>o_state := PARTIAL, o_filled_qty := 1, o_filled_avg_price := Some 100\<rparr>)"
  by (simp_all add: sample_eval)

lemma sample_filled_twice:
  "fst (handle_fill 1 sample_part 0 (snd (handle_fill 1 sample_part 0 sample_oms))) = Inr ()"
  by (simp add: sample_eval)

lemma sample_oms_wf: "oms_wf sample_oms"
proof -
  have "oms_wf (new_oms [] 10 0)" by (rule new_oms_wf) (simp add: readable_def)
  moreover have "good_step (new_oms [] 10 0) sample_oms"
    unfolding sample_oms_def by (rule good_submit) (simp add: new_oms_def)
  ultimately show ?thesis by (simp add: good_step_def)
qed

text \<open>
  C4 Whatever the broker answers or sends: in a run of submissions of orders with unknown ids, cancellations, events,
  reconciliations, forced closings and adoptions (\<open>oms_run\<close>), an order stays in the system with its
  identity, its machine shows the state of its snapshot, its state never moves back and is final once
  terminal, and the log is only extended. Not among these steps are the submission of a known id, which starts the
  order anew (\<open>resubmission_forgets_the_order\<close>), and the replay at a start.
\<close>

theorem orders_only_move_forward:
  assumes "oms_wf s" "oms_run s t" "get_order oid s = Some ord"
  shows "\<exists>ord' rows. get_order oid t = Some ord' \<and> same_identity ord ord' \<and> machine_at t oid (o_state ord')
    \<and> state_rank (o_state ord) \<le> state_rank (o_state ord') \<and> (terminal (o_state ord) \<longrightarrow> o_state ord' = o_state ord)
    \<and> om_log t = om_log s @ rows"
proof -
  have "oms_wf t" "evolves s t" using good_oms_run [OF assms(2)] assms(1) by (simp_all add: good_step_def)
  then show ?thesis
    using assms(3) by (fastforce simp: evolves_def order_evolves_def get_order_def oms_wf_def)
qed

theorem orders_only_move_forward_witness:
  "\<exists>ord'. get_order 1 (snd (cancel_order (\<lambda>_. ([], Inl BrokerUnavailable)) 1 sample_oms)) = Some ord'
    \<and> state_rank ACCEPTED \<le> state_rank (o_state ord')"
proof -
  have "get_order 1 sample_oms = Some sample_accepted" "o_state sample_accepted = ACCEPTED"
    by (simp_all add: get_order_def sample_oms_order sample_accepted_def)
  then show ?thesis
    using orders_only_move_forward [OF sample_oms_wf run_step [OF run_refl step_cancel]] by metis
qed

end
