(* ===== verification/OMS_Recovery.thy ===== *)
theory OMS_Recovery
  imports OMS_Invariants
begin

text \<open>
  Crash recovery: replaying the log of a run gives back the state of that run.

  \<open>agree s r\<close> relates a live state \<open>s\<close> to a replayed state \<open>r\<close>: the same orders up to what the log
  does not carry (\<open>persisted\<close>), the same machine states, fills and broker ids. Replay
  overwrites the state of an order whether or not its machine has the arc, so the relation is
  kept by the handlers called where the arc exists (\<open>orderly\<close>); \<open>replay_disagrees\<close> shows a run
  in which it is lost otherwise.
\<close>

subsection \<open>Live and replayed states\<close>

definition persisted :: "order \<Rightarrow> order" where
  "persisted ord = ord\<lparr>o_trail_percent := None, o_legs := [], o_letf_entry_date := None\<rparr>"

definition agree :: "oms \<Rightarrow> oms \<Rightarrow> bool" where
  "agree s r \<longleftrightarrow>
     (\<forall>oid. dict_get (om_orders r) oid = map_option persisted (dict_get (om_orders s) oid))
     \<and> (\<forall>oid ord. dict_get (om_orders s) oid = Some ord \<longrightarrow> machine_at r oid (o_state ord))
     \<and> (\<forall>oid. dict_get (om_fills r) oid = dict_get (om_fills s) oid)
     \<and> (\<forall>bid. dict_get (om_broker_ids r) bid = dict_get (om_broker_ids s) bid)"

lemma persisted_fields [simp]:
  "o_id (persisted ord) = o_id ord" "o_state (persisted ord) = o_state ord" "o_qty (persisted ord) = o_qty ord"
  "o_filled_qty (persisted ord) = o_filled_qty ord" "o_filled_avg_price (persisted ord) = o_filled_avg_price ord"
  "o_broker_order_id (persisted ord) = o_broker_order_id ord" "o_agent_id (persisted ord) = o_agent_id ord"
  "o_symbol (persisted ord) = o_symbol ord" "o_side (persisted ord) = o_side ord"
  by (simp_all add: persisted_def)

lemma persisted_updates [simp]:
  "persisted (ord\<lparr>o_state := st\<rparr>) = (persisted ord)\<lparr>o_state := st\<rparr>"
  "persisted (ord\<lparr>o_rejection_reason := x\<rparr>) = (persisted ord)\<lparr>o_rejection_reason := x\<rparr>"
  "persisted (ord\<lparr>o_broker_order_id := b\<rparr>) = (persisted ord)\<lparr>o_broker_order_id := b\<rparr>"
  "persisted (ord\<lparr>o_submitted_at := t\<rparr>) = (persisted ord)\<lparr>o_submitted_at := t\<rparr>"
  by (cases ord; simp add: persisted_def)+

lemma average_persisted [simp]: "average_price (persisted ord) f = average_price ord f"
  by (simp add: average_price_def split: option.split)

lemma fill_event_persisted [simp]: "fill_event (persisted ord) f = fill_event ord f"
  by (simp add: fill_event_def)

lemma filled_persisted [simp]: "filled_order (persisted ord) f avg ts = persisted (filled_order ord f avg ts)"
  by (simp add: filled_order_def persisted_def)

text \<open>The state an event leads to is the same from every state that has the arc.\<close>

fun event_target :: "order_event \<Rightarrow> order_state" where
  "event_target SUBMIT = SUBMITTED"
| "event_target ACCEPT = ACCEPTED"
| "event_target PARTIAL_FILL = PARTIAL"
| "event_target FULL_FILL = FILLED"
| "event_target CANCEL = CANCELLED"
| "event_target REJECT = REJECTED"
| "event_target EXPIRE = EXPIRED"

definition has_arc :: "order_state \<Rightarrow> order_event \<Rightarrow> bool" where
  "has_arc st ev \<longleftrightarrow> order_next st ev \<noteq> None"

lemma has_arc_next: "has_arc st ev \<Longrightarrow> order_next st ev = Some (event_target ev)"
  by (cases st; cases ev) (simp_all add: has_arc_def)

lemma has_arc_advance [simp]: "has_arc st ev \<Longrightarrow> order_life.advance st ev = event_target ev"
  by (simp add: order_life.advance_def has_arc_next)

lemma agree_set:
  assumes "agree s r"
    and "om_orders t = dict_set oid ord (om_orders s)" "om_orders r' = dict_set oid (persisted ord) (om_orders r)"
    and "machine_at r' oid (o_state ord)" "\<And>k. k \<noteq> oid \<Longrightarrow> dict_get (om_fsms r') k = dict_get (om_fsms r) k"
    and "\<And>k. dict_get (om_fills t) k = dict_get (om_fills s) k \<and> dict_get (om_fills r') k = dict_get (om_fills r) k
          \<or> dict_get (om_fills r') k = dict_get (om_fills t) k"
    and "\<And>b. dict_get (om_broker_ids t) b = dict_get (om_broker_ids s) b \<and> dict_get (om_broker_ids r') b = dict_get (om_broker_ids r) b
          \<or> dict_get (om_broker_ids r') b = dict_get (om_broker_ids t) b"
  shows "agree t r'"
proof -
  have "machine_at r' k (o_state x)" if x: "dict_get (om_orders t) k = Some x" for k x
  proof (cases "k = oid")
    case True
    with x assms(2,4) show ?thesis by simp
  next
    case False
    with x assms(1,2) have "machine_at r k (o_state x)" by (auto simp: agree_def)
    with False assms(5) show ?thesis by (auto simp: machine_at_def)
  qed
  moreover have "dict_get (om_fills r') k = dict_get (om_fills t) k" for k
    using assms(1,6) by (metis agree_def)
  moreover have "dict_get (om_broker_ids r') b = dict_get (om_broker_ids t) b" for b
    using assms(1,7) by (metis agree_def)
  ultimately show ?thesis using assms(1-3) by (auto simp: agree_def)
qed

lemma agreeD:
  assumes "agree s r" "dict_get (om_orders s) oid = Some ord"
  obtains m where "dict_get (om_orders r) oid = Some (persisted ord)" "dict_get (om_fsms r) oid = Some m"
    "m_table m = order_table" "m_state m = o_state ord"
  using assms by (fastforce simp: agree_def machine_at_def)

subsection \<open>One logged event\<close>

text \<open>
  \<open>replays r0 s r\<close>: replaying the log of \<open>s\<close> from \<open>r0\<close> succeeds and leaves \<open>r\<close>, in agreement with \<open>s\<close>.
\<close>

definition replays :: "oms \<Rightarrow> oms \<Rightarrow> oms \<Rightarrow> bool" where
  "replays r0 s r \<longleftrightarrow> each apply_logged_event (iter_all (om_log s)) r0 = (Inr (), r) \<and> agree s r"

definition row_event :: "event_kind \<Rightarrow> order_id \<Rightarrow> payload \<Rightarrow> datetime \<Rightarrow> int \<Rightarrow> logged_event" where
  "row_event k oid p ts n = \<lparr>e_seq = n, e_ts = ts, e_kind = k, e_order_id = oid, e_payload = p\<rparr>"

lemma row_event_fields [simp]:
  "e_kind (row_event k oid p ts n) = k" "e_order_id (row_event k oid p ts n) = oid"
  "e_payload (row_event k oid p ts n) = p" "e_ts (row_event k oid p ts n) = ts"
  by (simp_all add: row_event_def)

lemma replays_logged:
  assumes "replays r0 s r" "om_log t = append_event k oid p ts (om_log s)" "plain_keys p"
    and "\<And>n. apply_logged_event (row_event k oid p ts n) r = (Inr (), r')" "agree t r'"
  shows "replays r0 t r'"
proof -
  have "iter_all (om_log t) = iter_all (om_log s) @ [row_event k oid p ts (int (length (om_log s)) + 1)]"
    using assms(2,3) by (simp add: iter_all_append row_event_def)
  with assms(1,4,5) show ?thesis
    by (simp add: replays_def each_append andthen_def skip_def ret_def)
qed

lemma replays_frame:
  assumes "replays r0 s r" "om_log t = om_log s" "om_orders t = om_orders s" "om_fills t = om_fills s"
    "om_broker_ids t = om_broker_ids s"
  shows "replays r0 t r"
  using assms by (simp add: replays_def agree_def)

lemma apply_accepted_run:
  assumes "dict_get (om_orders r) oid = Some ord" "dict_get (om_fsms r) oid = Some m"
  shows "apply_logged_event (row_event ORDER_ACCEPTED oid [(''broker_order_id'', PStr bid)] ts n) r = (Inr (),
    r\<lparr>om_broker_ids := dict_set bid oid (om_broker_ids r), om_fsms := dict_set oid (stepped m ACCEPT) (om_fsms r),
      om_orders := dict_set oid (ord\<lparr>o_broker_order_id := Some bid, o_submitted_at := Some ts, o_state := ACCEPTED\<rparr>)
        (om_orders r)\<rparr>)"
  using assms
  by (simp add: apply_logged_event_def Let_def payload_reads replay_step_def silent_step_def eff_defs
      oms_prims stepped_def)

lemma apply_rejected_run:
  assumes "dict_get (om_orders r) oid = Some ord" "dict_get (om_fsms r) oid = Some m"
  shows "apply_logged_event (row_event ORDER_REJECTED oid [(''reason'', PStr reason)] ts n) r = (Inr (),
    r\<lparr>om_fsms := dict_set oid (stepped m REJECT) (om_fsms r),
      om_orders := dict_set oid (ord\<lparr>o_rejection_reason := Some reason, o_state := REJECTED\<rparr>) (om_orders r)\<rparr>)"
  using assms
  by (simp add: apply_logged_event_def Let_def opt_str_def replay_step_def silent_step_def eff_defs
      oms_prims stepped_def)

lemma apply_fill_run:
  assumes "dict_get (om_orders r) oid = Some ord" "dict_get (om_fsms r) oid = Some m"
    "dict_get (om_fills r) oid = Some fs" "average_price ord f = Inr avg"
  shows "apply_logged_event (row_event FILL_RECEIVED oid (serialize_fill f) ts n) r = (Inr (),
    r\<lparr>om_fills := dict_set oid (fs @ [f]) (om_fills r),
      om_fsms := dict_set oid (stepped m (fill_event ord f)) (om_fsms r),
      om_orders := dict_set oid ((filled_order ord f avg ts)\<lparr>o_state := event_target (fill_event ord f)\<rparr>)
        (om_orders r)\<rparr>)"
  using assms
  by (auto simp: apply_logged_event_def Let_def replay_step_def silent_step_def eff_defs
      oms_prims stepped_def dict_get_or_def fill_event_def split: if_splits)

lemma apply_closed_run:
  assumes "dict_get (om_orders r) oid = Some ord" "dict_get (om_fsms r) oid = Some m"
  shows "apply_logged_event (row_event ORDER_CANCELLED oid p ts n) r = (Inr (),
      r\<lparr>om_fsms := dict_set oid (stepped m CANCEL) (om_fsms r),
        om_orders := dict_set oid (ord\<lparr>o_state := CANCELLED\<rparr>) (om_orders r)\<rparr>)"
    and "apply_logged_event (row_event ORDER_EXPIRED oid p ts n) r = (Inr (),
      r\<lparr>om_fsms := dict_set oid (stepped m EXPIRE) (om_fsms r),
        om_orders := dict_set oid (ord\<lparr>o_state := EXPIRED\<rparr>) (om_orders r)\<rparr>)"
  using assms
  by (simp_all add: apply_logged_event_def Let_def replay_step_def silent_step_def eff_defs oms_prims stepped_def)

lemma apply_submit_run:
  "apply_logged_event (row_event ORDER_SUBMIT_INTENT oid (serialize_order ord) ts n) r = (Inr (),
     r\<lparr>om_fills := dict_set oid (dict_get_or (om_fills r) oid []) (om_fills r),
       om_fsms := dict_set oid (stepped (order_machine PENDING) SUBMIT) (om_fsms r),
       om_orders := dict_set oid ((logged_part ord)\<lparr>o_state := SUBMITTED\<rparr>) (om_orders r)\<rparr>)"
  by (simp add: apply_logged_event_def Let_def replay_step_def silent_step_def eff_defs oms_prims stepped_def)

lemma apply_audit_run:
  "k \<in> {ORDER_CANCEL_REQUESTED, RECONCILE_NOOP, RECONCILE_RECOVERED, RECONCILE_ABANDONED} \<Longrightarrow>
   apply_logged_event (row_event k oid p ts n) r = (Inr (), r)"
  by (auto simp: apply_logged_event_def Let_def skip_def ret_def)

subsection \<open>One handler\<close>

text \<open>\<open>can_replay r0 s\<close>: the log of \<open>s\<close> replays to a state in agreement with \<open>s\<close>.\<close>

definition can_replay :: "oms \<Rightarrow> oms \<Rightarrow> bool" where
  "can_replay r0 s \<longleftrightarrow> oms_wf s \<and> (\<exists>r. replays r0 s r)"

lemma can_replay_frame:
  assumes "can_replay r0 s" "om_log t = om_log s" "om_orders t = om_orders s" "om_fills t = om_fills s"
    "om_broker_ids t = om_broker_ids s" "om_fsms t = om_fsms s"
  shows "can_replay r0 t"
  using assms replays_frame [of r0 s _ t] by (auto simp: can_replay_def oms_wf_def machine_at_def)

text \<open>
  The common shape of the handlers: one event is logged, the order becomes \<open>ord'\<close> and its machine
  takes an arc it has. \<open>mimics\<close>: on an agreeing state, replaying that event does the same.
\<close>

definition mimics ::
  "event_kind \<Rightarrow> payload \<Rightarrow> datetime \<Rightarrow> order_id \<Rightarrow> order \<Rightarrow> order \<Rightarrow> order_event \<Rightarrow> oms \<Rightarrow> oms \<Rightarrow> bool" where
  "mimics k p ts oid ord ord' ev s t \<longleftrightarrow>
     (\<forall>r n m. agree s r \<longrightarrow> dict_get (om_orders r) oid = Some (persisted ord) \<longrightarrow> dict_get (om_fsms r) oid = Some m \<longrightarrow>
      (\<exists>r'. apply_logged_event (row_event k oid p ts n) r = (Inr (), r')
        \<and> om_orders r' = dict_set oid (persisted (ord'\<lparr>o_state := event_target ev\<rparr>)) (om_orders r)
        \<and> om_fsms r' = dict_set oid (stepped m ev) (om_fsms r)
        \<and> (\<forall>j. dict_get (om_fills r') j = dict_get (om_fills t) j)
        \<and> (\<forall>b. dict_get (om_broker_ids r') b = dict_get (om_broker_ids t) b)))"

lemma agree_same:
  "agree s r \<Longrightarrow> dict_get (om_fills r) j = dict_get (om_fills s) j"
  "agree s r \<Longrightarrow> dict_get (om_broker_ids r) b = dict_get (om_broker_ids s) b"
  by (simp_all add: agree_def)

lemma can_replay_wf: "can_replay r0 s \<Longrightarrow> oms_wf s"
  by (simp add: can_replay_def)

lemma can_replay_moved:
  assumes cr: "can_replay r0 s" and ord: "dict_get (om_orders s) oid = Some ord"
    and fsm: "dict_get (om_fsms s) oid = Some m" and arc: "has_arc (o_state ord) ev"
    and ord': "same_identity ord ord'" "o_state ord' = o_state ord"
    and t: "om_orders t = dict_set oid ord' (om_orders s)" "om_fsms t = om_fsms s"
      "om_log t = append_event k oid p ts (om_log s)" "plain_keys p"
      "\<And>j. dict_get (om_fills s) j \<noteq> None \<Longrightarrow> dict_get (om_fills t) j \<noteq> None"
    and r: "mimics k p ts oid ord ord' ev s t"
  shows "can_replay r0 (moved oid ord' m ev ts' t)"
proof -
  from cr obtain r1 where wf: "oms_wf s" and rep: "replays r0 s r1" by (auto simp: can_replay_def)
  have m: "m_table m = order_table" "m_state m = o_state ord"
    using wf ord fsm by (auto elim: oms_wfD)
  have "good_step s t"
    by (rule good_put [OF ord ord' t(1,2,5)]) (simp_all add: t(3,4) append_event_rows readable_row)
  moreover have "good_step t (moved oid ord' m ev ts' t)"
    by (rule good_moved) (simp_all add: t fsm)
  ultimately have wf': "oms_wf (moved oid ord' m ev ts' t)" using wf by (auto simp: good_step_def)
  from rep have ag: "agree s r1" by (simp add: replays_def)
  then obtain m1 where m1: "dict_get (om_orders r1) oid = Some (persisted ord)" "dict_get (om_fsms r1) oid = Some m1"
    "m_table m1 = order_table" "m_state m1 = o_state ord" using ord by (rule agreeD)
  define u where "u = moved oid ord' m ev ts' t"
  have uord: "om_orders u = dict_set oid (ord'\<lparr>o_state := event_target ev\<rparr>) (om_orders s)"
    using arc by (simp add: u_def moved_def m has_arc_next t)
  obtain n where n: "n = int (length (om_log s)) + 1" by simp
  from r ag m1(1,2) obtain r' where
    r': "apply_logged_event (row_event k oid p ts n) r1 = (Inr (), r')"
      "om_orders r' = dict_set oid (persisted (ord'\<lparr>o_state := event_target ev\<rparr>)) (om_orders r1)"
      "om_fsms r' = dict_set oid (stepped m1 ev) (om_fsms r1)"
      "\<And>j. dict_get (om_fills r') j = dict_get (om_fills t) j"
      "\<And>b. dict_get (om_broker_ids r') b = dict_get (om_broker_ids t) b"
    unfolding mimics_def by blast
  have "agree u r'"
  proof (rule agree_set [OF ag uord r'(2)])
    show "machine_at r' oid (o_state (ord'\<lparr>o_state := event_target ev\<rparr>))"
      using m1 arc by (simp add: machine_at_def r'(3) stepped_state)
  qed (simp_all add: r'(3-5) u_def)
  moreover have "iter_all (om_log u) = iter_all (om_log s) @ [row_event k oid p ts n]"
    using t(4) by (simp add: u_def t(3) iter_all_append row_event_def n)
  ultimately have "replays r0 u r'"
    using rep r'(1) by (simp add: replays_def each_append andthen_def skip_def ret_def)
  with wf' show ?thesis by (auto simp: can_replay_def u_def)
qed

lemma can_replay_accepted:
  assumes cr: "can_replay r0 s" and ord: "dict_get (om_orders s) oid = Some ord"
    and arc: "o_broker_order_id ord = Some bid \<or> has_arc (o_state ord) ACCEPT"
  shows "can_replay r0 (snd (record_accepted oid bid ts s))"
proof -
  from can_replay_wf [OF cr] ord obtain m where m: "dict_get (om_fsms s) oid = Some m" "m_table m = order_table"
    by (auto elim: oms_wfD)
  let ?ord = "ord\<lparr>o_broker_order_id := Some bid, o_submitted_at := Some ts\<rparr>"
  show ?thesis
  proof (cases "o_broker_order_id ord = Some bid")
    case False
    define t where "t = s\<lparr>om_log := append_event ORDER_ACCEPTED oid [(''broker_order_id'', PStr bid)] ts (om_log s),
           om_broker_ids := dict_set bid oid (om_broker_ids s), om_orders := dict_set oid ?ord (om_orders s)\<rparr>"
    have "mimics ORDER_ACCEPTED [(''broker_order_id'', PStr bid)] ts oid ord ?ord ACCEPT s t"
      by (simp add: mimics_def apply_accepted_run agree_same t_def)
    with False arc have "can_replay r0 (moved oid ?ord m ACCEPT ts t)"
      by (intro can_replay_moved [OF cr ord m(1), where k = ORDER_ACCEPTED]) (auto simp: same_identity_def t_def)
    with False show ?thesis by (simp add: record_accepted_run [OF ord m] Let_def t_def)
  qed (simp add: record_accepted_run [OF ord m] cr)
qed

lemma can_replay_fill:
  assumes cr: "can_replay r0 s" and ord: "dict_get (om_orders s) oid = Some ord"
    and arc: "has_arc (o_state ord) (fill_event ord f0)" and avg: "average_price ord f0 = Inr avg"
  shows "can_replay r0 (snd (handle_fill oid f0 ts s))"
proof -
  from can_replay_wf [OF cr] ord obtain m fs where m: "dict_get (om_fsms s) oid = Some m" "m_table m = order_table"
    and fs: "dict_get (om_fills s) oid = Some fs" by (auto elim: oms_wfD)
  define f where "f = canonical_fill ord f0"
  have f: "f_qty f = f_qty f0" "f_price f = f_price f0" by (simp_all add: f_def canonical_fill_def Let_def)
  have fe: "fill_event ord f = fill_event ord f0" and av: "average_price ord f = Inr avg"
    using avg by (simp_all add: fill_event_def average_price_def f cong: option.case_cong)
  define t where "t = s\<lparr>om_log := append_event FILL_RECEIVED oid (serialize_fill f) ts (om_log s),
          om_fills := dict_set oid (fs @ [f]) (om_fills s), om_orders := dict_set oid (filled_order ord f avg ts) (om_orders s)\<rparr>"
  have "mimics FILL_RECEIVED (serialize_fill f) ts oid ord (filled_order ord f avg ts) (fill_event ord f) s t"
    by (simp add: mimics_def apply_fill_run [where fs = fs and avg = avg] agree_same t_def fs av)
  then have "can_replay r0 (after_fill oid ord m fs f avg ts s)"
    unfolding after_fill_def t_def [symmetric] using arc
    by (intro can_replay_moved [OF cr ord m(1), where k = FILL_RECEIVED])
      (auto simp: same_identity_def t_def filled_order_def fe)
  then have "can_replay r0 ((after_fill oid ord m fs f avg ts s)\<lparr>om_bus := b\<rparr>)" for b
    by (rule can_replay_frame) simp_all
  then show ?thesis by (simp add: handle_fill_run [OF ord m fs] Let_def av flip: f_def)
qed

lemma can_replay_closing:
  assumes cr: "can_replay r0 s" and ord: "dict_get (om_orders s) oid = Some ord"
  shows "terminal (o_state ord) \<or> has_arc (o_state ord) CANCEL \<Longrightarrow> can_replay r0 (snd (handle_cancellation oid ts s))"
    and "terminal (o_state ord) \<or> has_arc (o_state ord) EXPIRE \<Longrightarrow> can_replay r0 (snd (handle_expiry oid ts s))"
    and "terminal (o_state ord) \<or> has_arc (o_state ord) REJECT \<Longrightarrow> can_replay r0 (snd (handle_rejection oid reason ts s))"
proof -
  from can_replay_wf [OF cr] ord obtain m where m: "dict_get (om_fsms s) oid = Some m" "m_table m = order_table"
    by (auto elim: oms_wfD)
  have log_only: "can_replay r0 (moved oid ord m ev ts (s\<lparr>om_log := append_event k oid p ts (om_log s)\<rparr>))"
    if "has_arc (o_state ord) ev" "(k, ev) \<in> {(ORDER_CANCELLED, CANCEL), (ORDER_EXPIRED, EXPIRE)}" "plain_keys p" for k ev p
  proof -
    define t where "t = s\<lparr>om_log := append_event k oid p ts (om_log s), om_orders := dict_set oid ord (om_orders s)\<rparr>"
    have same: "moved oid ord m ev ts t = moved oid ord m ev ts (s\<lparr>om_log := append_event k oid p ts (om_log s)\<rparr>)"
      using that(1) m by (cases "order_next (m_state m) ev")
        (use can_replay_wf [OF cr] ord in \<open>auto simp: moved_def t_def has_arc_def elim: oms_wfD\<close>)
    have "mimics k p ts oid ord ord ev s t"
      using that(2) by (auto simp: mimics_def apply_closed_run agree_same t_def)
    then have "can_replay r0 (moved oid ord m ev ts t)" using that
      by (intro can_replay_moved [OF cr ord m(1), where k = k]) (auto simp: same_identity_def t_def)
    then show ?thesis by (simp only: same)
  qed
  show "can_replay r0 (snd (handle_cancellation oid ts s))" if "terminal (o_state ord) \<or> has_arc (o_state ord) CANCEL"
    using that cr log_only [of CANCEL ORDER_CANCELLED "[]"] by (auto simp: handle_cancellation_run [OF ord m])
  show "can_replay r0 (snd (handle_expiry oid ts s))" if "terminal (o_state ord) \<or> has_arc (o_state ord) EXPIRE"
    using that cr log_only [of EXPIRE ORDER_EXPIRED "[]"] by (auto simp: handle_expiry_run [OF ord m])
  let ?ord = "ord\<lparr>o_rejection_reason := Some reason\<rparr>"
  define t where "t = s\<lparr>om_log := append_event ORDER_REJECTED oid [(''reason'', PStr reason)] ts (om_log s),
           om_orders := dict_set oid ?ord (om_orders s)\<rparr>"
  have "mimics ORDER_REJECTED [(''reason'', PStr reason)] ts oid ord ?ord REJECT s t"
    by (simp add: mimics_def apply_rejected_run agree_same t_def)
  then have "has_arc (o_state ord) REJECT \<Longrightarrow> can_replay r0 (moved oid ?ord m REJECT ts t)"
    by (intro can_replay_moved [OF cr ord m(1), where k = ORDER_REJECTED]) (auto simp: same_identity_def t_def)
  then show "can_replay r0 (snd (handle_rejection oid reason ts s))" if "terminal (o_state ord) \<or> has_arc (o_state ord) REJECT"
    using that cr by (auto simp: handle_rejection_run [OF ord m] Let_def t_def)
qed

lemma can_replay_audit:
  assumes "can_replay r0 s" "plain_keys p"
    "k \<in> {ORDER_CANCEL_REQUESTED, RECONCILE_NOOP, RECONCILE_RECOVERED, RECONCILE_ABANDONED}"
  shows "can_replay r0 (s\<lparr>om_log := append_event k oid p ts (om_log s)\<rparr>)"
proof -
  from assms(1) obtain r where wf: "oms_wf s" and r: "replays r0 s r" by (auto simp: can_replay_def)
  have "replays r0 (s\<lparr>om_log := append_event k oid p ts (om_log s)\<rparr>) r"
    by (rule replays_logged [OF r, of _ k oid p ts])
      (use r assms(2,3) in \<open>auto simp: apply_audit_run replays_def agree_def\<close>)
  moreover have "oms_wf (s\<lparr>om_log := append_event k oid p ts (om_log s)\<rparr>)"
    using good_opD [OF good_log [OF assms(2)], of s k oid ts] wf by (simp add: good_step_def log_event_def modify_def)
  ultimately show ?thesis by (auto simp: can_replay_def)
qed

subsection \<open>Orderly runs\<close>

definition orderly_event :: "oms \<Rightarrow> order_event_msg \<Rightarrow> bool" where
  "orderly_event s ev = (case dict_get (om_orders s) (be_client_id ev) of
       None \<Rightarrow> True
     | Some ord \<Rightarrow> (case be_state ev of
         B_ACCEPTED \<Rightarrow> be_client_id ev \<in> snd ` set (om_broker_ids s) \<or> has_arc (o_state ord) ACCEPT
       | B_PARTIALLY_FILLED \<Rightarrow> (case be_fill ev of None \<Rightarrow> True
           | Some f \<Rightarrow> has_arc (o_state ord) (fill_event ord f) \<and> \<not> isl (average_price ord f))
       | B_FILLED \<Rightarrow> (case be_fill ev of None \<Rightarrow> True
           | Some f \<Rightarrow> has_arc (o_state ord) (fill_event ord f) \<and> \<not> isl (average_price ord f))
       | B_CANCELED \<Rightarrow> terminal (o_state ord) \<or> has_arc (o_state ord) CANCEL
       | B_REJECTED \<Rightarrow> terminal (o_state ord) \<or> has_arc (o_state ord) REJECT
       | B_EXPIRED \<Rightarrow> terminal (o_state ord) \<or> has_arc (o_state ord) EXPIRE
       | B_NEW \<Rightarrow> True
       | B_UNKNOWN \<Rightarrow> True))"

fun orderly_events :: "oms \<Rightarrow> order_event_msg list \<Rightarrow> bool" where
  "orderly_events s [] = True"
| "orderly_events s (ev # evs) = (orderly_event s ev \<and> orderly_events (snd (on_broker_event ev s)) evs)"

lemma can_replay_event:
  assumes cr: "can_replay r0 s" and ev: "orderly_event s ev"
  shows "can_replay r0 (snd (on_broker_event ev s))"
proof (cases "dict_get (om_orders s) (be_client_id ev)")
  case None
  with cr show ?thesis by (simp add: on_broker_event_def Let_def skip_def ret_def)
next
  case (Some ord)
  have fill: "can_replay r0 (snd (handle_fill (be_client_id ev) f ts s))"
    if "has_arc (o_state ord) (fill_event ord f)" "\<not> isl (average_price ord f)" for f ts
    using can_replay_fill [OF cr Some that(1)] that(2) by (cases "average_price ord f") auto
  have skip: "can_replay r0 (snd (skip s))" using cr by (simp add: skip_def ret_def)
  show ?thesis
    using ev Some fill skip can_replay_accepted [OF cr Some] can_replay_closing [OF cr Some]
    by (cases "be_state ev") (auto simp: on_broker_event_def orderly_event_def Let_def split: option.splits)
qed

lemma can_replay_events:
  "can_replay r0 s \<Longrightarrow> orderly_events s evs \<Longrightarrow> can_replay r0 (snd (each on_broker_event evs s))"
proof (induction evs arbitrary: s)
  case Nil
  then show ?case by (simp add: skip_def ret_def)
next
  case (Cons ev evs)
  then have "can_replay r0 (snd (on_broker_event ev s))" by (simp add: can_replay_event)
  with Cons show ?case by (auto simp: andthen_def split: prod.split sum.split)
qed

text \<open>An order as the planner makes it: nothing of its later life is filled in yet.\<close>

definition blank_order :: "order \<Rightarrow> bool" where
  "blank_order ord \<longleftrightarrow> o_state ord = PENDING \<and> logged_part ord = persisted ord"

definition fresh_in :: "oms \<Rightarrow> order_id \<Rightarrow> bool" where
  "fresh_in s oid \<longleftrightarrow> dict_get (om_orders s) oid = None \<and> dict_get (om_fills s) oid = None"

definition logged_start :: "order \<Rightarrow> datetime \<Rightarrow> oms \<Rightarrow> oms" where
  "logged_start ord ts s = s\<lparr>
     om_fills := dict_set (o_id ord) [] (om_fills s),
     om_log := append_event ORDER_SUBMIT_INTENT (o_id ord) (serialize_order ord) ts (om_log s),
     om_fsms := dict_set (o_id ord) (stepped (order_machine PENDING) SUBMIT) (om_fsms s),
     om_orders := dict_set (o_id ord) (ord\<lparr>o_state := SUBMITTED\<rparr>) (om_orders s)\<rparr>"

lemma submitted_machine: "m_state (stepped (order_machine PENDING) SUBMIT) = SUBMITTED"
  by (simp add: stepped_state order_life.advance_def)

lemma can_replay_start:
  assumes cr: "can_replay r0 s" and fresh: "fresh_in s (o_id ord)" and blank: "blank_order ord"
  shows "can_replay r0 (logged_start ord ts s)"
proof -
  let ?oid = "o_id ord" and ?t = "logged_start ord ts s"
  from cr obtain r where wf: "oms_wf s" and rep: "replays r0 s r" by (auto simp: can_replay_def)
  then have ag: "agree s r" by (simp add: replays_def)
  have "good_step s ?t"
    by (rule good_new_order [of s ?oid "ord\<lparr>o_state := SUBMITTED\<rparr>" "stepped (order_machine PENDING) SUBMIT" _ "[]"])
      (use fresh in \<open>simp_all add: fresh_in_def logged_start_def submitted_machine append_event_rows readable_row\<close>)
  with wf have wf': "oms_wf ?t" by (simp add: good_step_def)
  have nofills: "dict_get (om_fills r) ?oid = None" using ag fresh by (simp add: agree_def fresh_in_def)
  define r' where "r' = r\<lparr>om_fills := dict_set ?oid [] (om_fills r),
       om_fsms := dict_set ?oid (stepped (order_machine PENDING) SUBMIT) (om_fsms r),
       om_orders := dict_set ?oid (persisted (ord\<lparr>o_state := SUBMITTED\<rparr>)) (om_orders r)\<rparr>"
  have step: "apply_logged_event (row_event ORDER_SUBMIT_INTENT ?oid (serialize_order ord) ts n) r = (Inr (), r')" for n
    using blank nofills by (simp add: apply_submit_run r'_def dict_get_or_def blank_order_def)
  have "agree ?t r'"
  proof (rule agree_set [OF ag, of _ ?oid "ord\<lparr>o_state := SUBMITTED\<rparr>"])
    show "machine_at r' ?oid (o_state (ord\<lparr>o_state := SUBMITTED\<rparr>))"
      using submitted_machine by (simp add: machine_at_def r'_def)
  qed (simp_all add: logged_start_def r'_def)
  from replays_logged [OF rep _ _ step this] have "replays r0 ?t r'" by (simp add: logged_start_def)
  with wf' show ?thesis by (auto simp: can_replay_def)
qed

lemma after_place_start:
  assumes "o_state ord = PENDING"
  shows "om_orders (after_place ord s) = om_orders (logged_start ord (om_now s) s)"
    "om_fsms (after_place ord s) = om_fsms (logged_start ord (om_now s) s)"
    "om_fills (after_place ord s) = om_fills (logged_start ord (om_now s) s)"
    "om_broker_ids (after_place ord s) = om_broker_ids (logged_start ord (om_now s) s)"
    "om_log (after_place ord s) = om_log (logged_start ord (om_now s) s)"
  by (simp_all add: after_place_def logged_start_def started_def moved_def Let_def)

lemma can_replay_place:
  "can_replay r0 s \<Longrightarrow> fresh_in s (o_id ord) \<Longrightarrow> blank_order ord \<Longrightarrow> can_replay r0 (after_place ord s)"
  by (rule can_replay_frame [OF can_replay_start [where ts = "om_now s"]])
    (simp_all add: after_place_start blank_order_def)

lemma can_replay_ghost_ready:
  assumes cr: "can_replay r0 s" and fresh: "fresh_in s (o_id ord)" and blank: "blank_order ord"
  shows "can_replay r0 (ghost_ready bid ord ts s)"
proof -
  let ?oid = "o_id ord" and ?ord = "ord\<lparr>o_state := SUBMITTED\<rparr>" and ?m = "stepped (order_machine PENDING) SUBMIT"
  let ?s = "logged_start ord ts s"
  let ?ord' = "?ord\<lparr>o_broker_order_id := Some bid, o_submitted_at := Some ts\<rparr>"
  have cs: "can_replay r0 ?s" by (rule can_replay_start [OF assms])
  define t where "t = ?s\<lparr>om_log := append_event ORDER_ACCEPTED ?oid [(''broker_order_id'', PStr bid)] ts (om_log ?s),
       om_broker_ids := dict_set bid ?oid (om_broker_ids ?s), om_orders := dict_set ?oid ?ord' (om_orders ?s)\<rparr>"
  have "mimics ORDER_ACCEPTED [(''broker_order_id'', PStr bid)] ts ?oid ?ord ?ord' ACCEPT ?s t"
    by (simp add: mimics_def apply_accepted_run agree_same t_def)
  then have "can_replay r0 (moved ?oid ?ord' ?m ACCEPT ts t)"
    by (intro can_replay_moved [OF cs, where k = ORDER_ACCEPTED and ord = ?ord])
      (auto simp: same_identity_def t_def logged_start_def has_arc_def)
  then show ?thesis
    by (rule can_replay_frame)
      (simp_all add: ghost_ready_def moved_def submitted_machine t_def logged_start_def)
qed

lemma ghost_ready_order:
  "dict_get (om_orders (ghost_ready bid ord ts s)) (o_id ord) =
     Some (ord\<lparr>o_broker_order_id := Some bid, o_submitted_at := Some ts, o_state := ACCEPTED\<rparr>)"
  by (simp add: ghost_ready_def)

lemma can_replay_ghost:
  assumes cr: "can_replay r0 s" and fresh: "fresh_in s (om_fresh s)"
  shows "can_replay r0 (snd (ghost pre side symb qty price agent ts s))"
proof -
  let ?oid = "om_fresh s" and ?s = "s\<lparr>om_fresh := Suc (Suc (Suc (om_fresh s)))\<rparr>"
  let ?ord = "ghost_order ?oid (Suc ?oid) side symb qty agent ts"
  have id: "o_id ?ord = ?oid" by (simp add: ghost_order_def)
  have "can_replay r0 ?s" by (rule can_replay_frame [OF cr]) simp_all
  then have ready: "can_replay r0 (ghost_ready (pre @ uuid_text ?oid) ?ord ts ?s)"
    by (rule can_replay_ghost_ready) (use fresh in \<open>simp_all add: fresh_in_def id blank_order_def
      logged_part_def persisted_def ghost_order_def\<close>)
  show ?thesis
    unfolding ghost_run Let_def
    by (rule can_replay_fill [OF ready ghost_ready_order [of _ ?ord, unfolded id], where avg = price])
      (auto simp: has_arc_def fill_event_def average_price_def ghost_order_def ghost_fill_def)
qed

definition orderly_answer :: "order_id \<Rightarrow> exn + string \<Rightarrow> oms \<Rightarrow> bool" where
  "orderly_answer oid answer s = (case dict_get (om_orders s) oid of
       None \<Rightarrow> False
     | Some ord \<Rightarrow> (case answer of
         Inl (BrokerRejection _) \<Rightarrow> terminal (o_state ord) \<or> has_arc (o_state ord) REJECT
       | Inl _ \<Rightarrow> True
       | Inr bid \<Rightarrow> bid \<in> fst ` set (om_broker_ids s) \<or> has_arc (o_state ord) ACCEPT))"

lemma submit_result_state: "snd (submit_result_of oid b a r s) = s"
  by (simp add: submit_result_of_def eff_defs split: option.split)

lemma snd_andthen_reader: "(\<And>x t. snd (f x t) = t) \<Longrightarrow> snd (andthen m f s) = snd (m s)"
  by (simp add: andthen_def split: prod.split sum.split)

lemma can_replay_finish:
  assumes cr: "can_replay r0 s" and ans: "orderly_answer oid answer s"
  shows "can_replay r0 (snd (finish_submit oid answer s))"
proof -
  from ans obtain ord where ord: "dict_get (om_orders s) oid = Some ord"
    by (auto simp: orderly_answer_def split: option.splits)
  show ?thesis
  proof (cases answer)
    case (Inr bid)
    then show ?thesis
      using ans ord can_replay_accepted [OF cr ord, of bid "om_now s"] cr
      by (auto simp: finish_submit_def andthen_def [of "gets f" for f] gets_def orderly_answer_def skip_def ret_def
          snd_andthen_reader submit_result_state)
  next
    case (Inl e)
    then show ?thesis
      using ans ord can_replay_closing(3) [OF cr ord] cr
      by (cases e) (auto simp: finish_submit_def andthen_def [of "gets f" for f] gets_def orderly_answer_def
          snd_andthen_reader submit_result_state raise_def)
  qed
qed

text \<open>
  The public calls with a broker that respects the life cycle: fills only for accepted orders,
  no rejection once an order is partly filled, and so on. \<open>force_close_filled\<close> is not among
  them: it leaves no trace in the log.
\<close>

inductive orderly_step :: "oms \<Rightarrow> oms \<Rightarrow> bool" where
  ord_submit: "fresh_in s (o_id ord) \<Longrightarrow> blank_order ord \<Longrightarrow> orderly_events (after_place ord s) (fst (reply ord)) \<Longrightarrow>
    orderly_answer (o_id ord) (snd (reply ord)) (snd (each on_broker_event (fst (reply ord)) (after_place ord s))) \<Longrightarrow>
    orderly_step s (snd (submit_order reply ord s))"
| ord_cancel: "dict_get (om_orders s) oid = Some ord \<Longrightarrow> o_broker_order_id ord = Some bid \<Longrightarrow>
    orderly_events (s\<lparr>om_log := append_event ORDER_CANCEL_REQUESTED oid [(''broker_order_id'', PStr bid)] (om_now s) (om_log s)\<rparr>)
      (fst (creply bid)) \<Longrightarrow>
    orderly_step s (snd (cancel_order creply oid s))"
| ord_event: "orderly_event s ev \<Longrightarrow> orderly_step s (snd (on_broker_event ev s))"
| ord_adopt: "fresh_in s (om_fresh s) \<Longrightarrow> orderly_step s (snd (adopt_orphan_position symb qty price agent ts s))"
| ord_fee: "fresh_in s (om_fresh s) \<Longrightarrow> orderly_step s (snd (book_fee_offset symb qty price agent ts s))"
| ord_tick: "orderly_step s (s\<lparr>om_now := t\<rparr>)"

inductive orderly_run :: "oms \<Rightarrow> oms \<Rightarrow> bool" where
  orderly_refl: "orderly_run s s"
| orderly_more: "orderly_run s t \<Longrightarrow> orderly_step t u \<Longrightarrow> orderly_run s u"

lemma can_replay_step: "orderly_step s t \<Longrightarrow> can_replay r0 s \<Longrightarrow> can_replay r0 t"
proof (induction rule: orderly_step.induct)
  case (ord_submit s ord reply)
  have place: "can_replay r0 (after_place ord s)"
    by (rule can_replay_place) (use ord_submit in simp_all)
  have st: "o_state ord = PENDING" using ord_submit by (simp add: blank_order_def)
  let ?u = "each on_broker_event (fst (reply ord)) (after_place ord s)"
  have u: "can_replay r0 (snd ?u)" by (rule can_replay_events [OF place ord_submit.hyps(3)])
  have "can_replay r0 (snd (finish_submit (o_id ord) (snd (reply ord)) (snd ?u)))"
    by (rule can_replay_finish [OF u ord_submit.hyps(4)])
  with u show ?case
    by (auto simp: submit_order_def st andthen_def place_order_run split: prod.split sum.split)
next
  case (ord_cancel s oid ord bid creply)
  let ?s = "s\<lparr>om_log := append_event ORDER_CANCEL_REQUESTED oid [(''broker_order_id'', PStr bid)] (om_now s) (om_log s)\<rparr>"
  have "can_replay r0 ?s" by (rule can_replay_audit [OF ord_cancel.prems]) simp_all
  then have "can_replay r0 (snd (each on_broker_event (fst (creply bid)) ?s))"
    by (rule can_replay_events) (rule ord_cancel.hyps)
  with ord_cancel show ?case
    by (auto simp: cancel_order_def andthen_def fetch_def gets_def log_event_def modify_def lift_res_def skip_def ret_def
        split: prod.split sum.split)
next
  case (ord_tick s t)
  show ?case by (rule can_replay_frame [OF ord_tick]) simp_all
qed (simp_all add: can_replay_event can_replay_ghost adopt_orphan_position_def book_fee_offset_def)

lemma can_replay_run: "orderly_run s t \<Longrightarrow> can_replay r0 s \<Longrightarrow> can_replay r0 t"
  by (induction rule: orderly_run.induct) (auto intro: can_replay_step)

lemma can_replay_new: "can_replay (new_oms lg n t) (new_oms [] m u)"
proof -
  have "oms_wf (new_oms [] m u)" by (rule new_oms_wf) (simp add: readable_def)
  then show ?thesis
    by (auto simp: can_replay_def replays_def agree_def new_oms_def iter_all_def skip_def ret_def)
qed

lemma orderly_replays:
  assumes "orderly_run (new_oms [] m u) s"
  shows "\<exists>r. replay_log (new_oms (om_log s) n t) = (Inr (), r) \<and> agree s r"
proof -
  have "can_replay (new_oms (om_log s) n t) s" by (rule can_replay_run [OF assms can_replay_new])
  then show ?thesis
    by (auto simp: can_replay_def replays_def replay_log_def andthen_def gets_def) (simp add: new_oms_def)
qed

end
