(* ===== verification/OMS_Reconcile.thy ===== *)
theory OMS_Reconcile
  imports OMS_Recovery
begin

text \<open>
  The second half of recovery: what the comparison with the broker does to the replayed orders.
  A broker that agrees changes nothing but the audit log; one that reports an order filled
  leaves no order open. The last section shows where live state and replay part.
\<close>

subsection \<open>A broker that agrees\<close>

definition broker_agrees :: "(order_id \<Rightarrow> exn + order_status option) \<Rightarrow> oms \<Rightarrow> bool" where
  "broker_agrees look s \<longleftrightarrow>
     (\<forall>oid ord. dict_get (om_orders s) oid = Some ord \<longrightarrow> \<not> terminal (o_state ord) \<longrightarrow>
        (\<exists>st. look oid = Inr (Some st) \<and> broker_state_matches ord st))"

lemma reconcile_one_agrees:
  assumes "broker_agrees look s" "dict_get (om_orders s) oid = Some ord"
  shows "\<exists>lg. reconcile_one look oid s =
    (Inr (if terminal (o_state ord) then Was_terminal else Matched), s\<lparr>om_log := lg\<rparr>)"
proof (cases "terminal (o_state ord)")
  case True
  with assms(2) show ?thesis
    by (auto simp: reconcile_one_def andthen_def fetch_def ret_def intro: exI [of _ "om_log s"])
next
  case False
  with assms obtain st where "look oid = Inr (Some st)" "broker_state_matches ord st"
    by (auto simp: broker_agrees_def)
  with assms(2) False show ?thesis
    by (auto simp: reconcile_one_def eff_defs log_event_def)
qed

lemma reconcile_all_agrees:
  "broker_agrees look s \<Longrightarrow> \<forall>oid\<in>set oids. dict_get (om_orders s) oid \<noteq> None \<Longrightarrow>
   \<exists>rs lg. reconcile_all look oids s = (Inr rs, s\<lparr>om_log := lg\<rparr>) \<and> set rs \<subseteq> {Was_terminal, Matched}"
proof (induction oids arbitrary: s)
  case Nil
  show ?case by (auto simp: ret_def intro: exI [of _ "om_log s"])
next
  case (Cons oid oids)
  then obtain ord where ord: "dict_get (om_orders s) oid = Some ord" by auto
  from reconcile_one_agrees [OF Cons.prems(1) ord] obtain lg where
    one: "reconcile_one look oid s = (Inr (if terminal (o_state ord) then Was_terminal else Matched), s\<lparr>om_log := lg\<rparr>)"
    by blast
  have "broker_agrees look (s\<lparr>om_log := lg\<rparr>)" using Cons.prems(1) by (simp add: broker_agrees_def)
  with Cons.prems(2) Cons.IH [of "s\<lparr>om_log := lg\<rparr>"] obtain rs lg' where
    "reconcile_all look oids (s\<lparr>om_log := lg\<rparr>) = (Inr rs, s\<lparr>om_log := lg'\<rparr>)" "set rs \<subseteq> {Was_terminal, Matched}"
    by auto
  with one show ?case by (auto simp: andthen_def ret_def)
qed

lemma reconcile_agrees:
  assumes "broker_agrees look s"
  shows "\<exists>sum lg. reconcile_open_orders look s = (Inr sum, s\<lparr>om_log := lg\<rparr>)
    \<and> rs_recovered sum = 0 \<and> rs_abandoned sum = 0 \<and> rs_replayed sum = length (om_orders s)"
proof -
  have "\<forall>oid\<in>set (map fst (om_orders s)). dict_get (om_orders s) oid \<noteq> None"
    by (auto simp: map_of_eq_None_iff image_iff)
  from reconcile_all_agrees [OF assms this] obtain rs lg where
    *: "reconcile_all look (map fst (om_orders s)) s = (Inr rs, s\<lparr>om_log := lg\<rparr>)" "set rs \<subseteq> {Was_terminal, Matched}"
    by blast
  from *(2) have "filter (\<lambda>r. r = Recovered) rs = []" "filter (\<lambda>r. r = Abandoned) rs = []"
    by (auto simp: filter_empty_conv)
  with *(1) show ?thesis by (auto simp: reconcile_open_orders_def andthen_def gets_def ret_def)
qed

lemma broker_matches_persisted [simp]: "broker_state_matches (persisted ord) st = broker_state_matches ord st"
  by (simp add: broker_state_matches_def)

lemma broker_agrees_persisted:
  "agree s r \<Longrightarrow> broker_agrees look s \<Longrightarrow> broker_agrees look r"
  unfolding broker_agrees_def
proof (intro allI impI)
  fix oid ord'
  assume ag: "agree s r" and br: "\<forall>oid ord. dict_get (om_orders s) oid = Some ord \<longrightarrow> \<not> terminal (o_state ord) \<longrightarrow>
        (\<exists>st. look oid = Inr (Some st) \<and> broker_state_matches ord st)"
    and o': "dict_get (om_orders r) oid = Some ord'" "\<not> terminal (o_state ord')"
  from ag o'(1) obtain ord where "dict_get (om_orders s) oid = Some ord" "ord' = persisted ord"
    by (auto simp: agree_def)
  with br o'(2) show "\<exists>st. look oid = Inr (Some st) \<and> broker_state_matches ord' st"
    by auto
qed

subsection \<open>A broker that is ahead\<close>

text \<open>\<open>in_state oid S s\<close>: the order is known and its state is among \<open>S\<close>.\<close>

definition in_state :: "order_id \<Rightarrow> order_state set \<Rightarrow> oms \<Rightarrow> bool" where
  "in_state oid S s \<longleftrightarrow> oms_wf s \<and> (\<exists>ord. dict_get (om_orders s) oid = Some ord \<and> o_state ord \<in> S)"

lemma in_stateE:
  assumes "in_state oid S s"
  obtains ord m fs where "oms_wf s" "dict_get (om_orders s) oid = Some ord" "o_state ord \<in> S"
    "dict_get (om_fsms s) oid = Some m" "m_table m = order_table" "m_state m = o_state ord"
    "dict_get (om_fills s) oid = Some fs"
  using assms by (auto simp: in_state_def elim: oms_wfD)

lemma in_state_moved:
  assumes "dict_get (om_orders s) oid = Some ord" "m_state m = o_state ord"
    "\<And>st. st = order_life.advance (o_state ord) ev \<Longrightarrow> st \<in> S"
  shows "\<exists>ord'. dict_get (om_orders (moved oid ord m ev ts s)) oid = Some ord' \<and> o_state ord' \<in> S"
  using moved_order [OF assms(1,2)] assms(3) by auto

lemma in_state_accept:
  assumes "in_state oid {SUBMITTED, ACCEPTED, PARTIAL} s" "dict_get (om_orders s) oid = Some ord"
    "o_broker_order_id ord = None"
  shows "in_state oid {ACCEPTED, PARTIAL} (snd (record_accepted oid bid ts s))"
  using assms(1)
proof (rule in_stateE)
  fix ord' m fs
  assume *: "oms_wf s" "dict_get (om_orders s) oid = Some ord'" "o_state ord' \<in> {SUBMITTED, ACCEPTED, PARTIAL}"
    "dict_get (om_fsms s) oid = Some m" "m_table m = order_table" "m_state m = o_state ord'"
  have "oms_wf (snd (record_accepted oid bid ts s))"
    using good_opD [OF good_record_accepted, of s oid bid ts] *(1) by (simp add: good_step_def)
  moreover have "\<exists>x. dict_get (om_orders (snd (record_accepted oid bid ts s))) oid = Some x \<and> o_state x \<in> {ACCEPTED, PARTIAL}"
    using assms(2,3) *
    by (auto simp: record_accepted_run [OF *(2,4,5)] Let_def moved_def)
  ultimately show ?thesis by (simp add: in_state_def)
qed

lemma in_state_fill:
  assumes "in_state oid {ACCEPTED, PARTIAL} s" "handle_fill oid f ts s = (Inr (), t)"
  shows "in_state oid {ACCEPTED, PARTIAL, FILLED} t"
  using assms(1)
proof (rule in_stateE)
  fix ord m fs
  assume *: "oms_wf s" "dict_get (om_orders s) oid = Some ord" "o_state ord \<in> {ACCEPTED, PARTIAL}"
    "dict_get (om_fsms s) oid = Some m" "m_table m = order_table" "m_state m = o_state ord"
    "dict_get (om_fills s) oid = Some fs"
  have "oms_wf t"
    using good_opD [OF good_handle_fill, of s oid f ts] *(1) assms(2) by (simp add: good_step_def)
  moreover have "\<exists>x. dict_get (om_orders (after_fill oid ord m fs g avg ts s)) oid = Some x \<and> o_state x \<in> {ACCEPTED, PARTIAL, FILLED}"
    for g avg
    using *(3,6) unfolding after_fill_def
    by (intro in_state_moved) (auto simp: filled_order_def fill_event_def order_life.advance_def)
  ultimately show ?thesis
    using assms(2) by (auto simp: handle_fill_run [OF *(2,4,5,7)] Let_def in_state_def split: sum.splits)
qed

lemma in_state_force_close:
  assumes "in_state oid {ACCEPTED, PARTIAL, FILLED} s"
  shows "in_state oid {FILLED} (snd (force_close_filled oid ts s))"
  using assms(1)
proof (rule in_stateE)
  fix ord m fs
  assume *: "oms_wf s" "dict_get (om_orders s) oid = Some ord" "o_state ord \<in> {ACCEPTED, PARTIAL, FILLED}"
    "dict_get (om_fsms s) oid = Some m" "m_table m = order_table" "m_state m = o_state ord"
  have "oms_wf (snd (force_close_filled oid ts s))"
    using good_opD [OF good_force_close, of s oid ts] *(1) by (simp add: good_step_def)
  moreover have "\<exists>x. dict_get (om_orders (snd (force_close_filled oid ts s))) oid = Some x \<and> o_state x \<in> {FILLED}"
    using * by (auto simp: force_close_run [OF *(2,4,5)] Let_def moved_def)
  ultimately show ?thesis by (simp add: in_state_def)
qed

lemma in_state_log: "in_state oid S s \<Longrightarrow> plain_keys p \<Longrightarrow> in_state oid S (s\<lparr>om_log := append_event k j p ts (om_log s)\<rparr>)"
  using good_opD [OF good_log, of p s k j ts] by (auto simp: in_state_def good_step_def log_event_def modify_def)

lemma in_state_fresh: "in_state oid S s \<Longrightarrow> in_state oid S (s\<lparr>om_fresh := n\<rparr>)"
  by (auto simp: in_state_def oms_wf_def machine_at_def)

text \<open>Whatever the rounding left open, an order the broker calls filled ends up filled.\<close>

lemma catch_up_filled:
  assumes live: "in_state oid {SUBMITTED, ACCEPTED, PARTIAL} s"
    and ord: "dict_get (om_orders s) oid = Some ord" "o_state ord = SUBMITTED \<Longrightarrow> o_broker_order_id ord = None"
    and st: "bs_state st = B_FILLED" and res: "catch_up_from_broker oid st s = (Inr (), t)"
  shows "in_state oid {FILLED} t"
proof -
  define s1 where "s1 = (if o_broker_order_id ord = None then snd (record_accepted oid (bs_broker_id st) (om_now s) s) else s)"
  have s1: "in_state oid {ACCEPTED, PARTIAL} s1"
    using in_state_accept [OF live ord(1)] live ord by (auto simp: s1_def in_state_def)
  obtain local where local: "dict_get (om_orders s1) oid = Some local" using s1 by (auto simp: in_state_def)
  have "(if o_broker_order_id ord = None then record_accepted oid (bs_broker_id st) (om_now s) else skip) s = (Inr (), s1)"
    using live by (rule in_stateE) (simp add: s1_def record_accepted_run skip_def ret_def)
  with res ord(1) local obtain s2 s3 b k p where
    s2: "catch_fill oid st local (om_now s) s1 = (Inr (), s2)" and s3: "catch_close oid st (om_now s) s2 = (Inr b, s3)"
    and t: "t = s3\<lparr>om_log := append_event k oid p (om_now s) (om_log s3)\<rparr>" "plain_keys p"
    by (auto simp: catch_up_from_broker_def andthen_Inr Let_def fetch_def gets_def log_event_def modify_def)
  have s2': "in_state oid {ACCEPTED, PARTIAL, FILLED} s2"
  proof (cases "0 < dsub (bs_filled_qty st) (o_filled_qty local)")
    case True
    then show ?thesis using s2 in_state_fill [OF in_state_fresh [OF s1]] by (auto simp: catch_fill_def andthen_Inr new_id_def Let_def)
  next
    case False
    then show ?thesis using s2 s1 by (auto simp: catch_fill_def skip_def ret_def in_state_def Let_def)
  qed
  then obtain after where after: "dict_get (om_orders s2) oid = Some after" "o_state after \<in> {ACCEPTED, PARTIAL, FILLED}"
    by (auto simp: in_state_def)
  have "in_state oid {FILLED} s3"
  proof (cases "terminal (o_state after)")
    case True
    then show ?thesis using s3 after s2' by (auto simp: catch_close_def st andthen_Inr fetch_def ret_def in_state_def)
  next
    case False
    then show ?thesis using s3 after in_state_force_close [OF s2', of "om_now s"]
      by (auto simp: catch_close_def st andthen_Inr fetch_def ret_def)
  qed
  then show ?thesis using t by (simp add: in_state_log)
qed

subsection \<open>Recovery as a whole\<close>

lemma agree_log: "agree s r \<Longrightarrow> agree s (r\<lparr>om_log := lg\<rparr>)"
  by (auto simp: agree_def machine_at_def)

lemma recover_orderly:
  assumes "orderly_run (new_oms [] m u) s" "broker_agrees look s"
  shows "\<exists>sum r. recover look (new_oms (om_log s) n t) = (Inr sum, r) \<and> agree s r
     \<and> rs_recovered sum = 0 \<and> rs_abandoned sum = 0 \<and> rs_replayed sum = length (om_orders r)"
proof -
  from orderly_replays [OF assms(1)] obtain r where r: "replay_log (new_oms (om_log s) n t) = (Inr (), r)" "agree s r"
    by blast
  from reconcile_agrees [OF broker_agrees_persisted [OF r(2) assms(2)]] obtain sum lg where
    "reconcile_open_orders look r = (Inr sum, r\<lparr>om_log := lg\<rparr>)" "rs_recovered sum = 0" "rs_abandoned sum = 0"
    "rs_replayed sum = length (om_orders r)" by blast
  with r agree_log [OF r(2)] show ?thesis by (auto simp: recover_def andthen_def)
qed

subsection \<open>Where live state and log part\<close>

text \<open>
  There is no arc for a rejection of a partly filled order. The live order stays \<open>PARTIAL\<close>, but
  the rejection is in the log, and replay closes the order.
\<close>

lemma reject_partial_live:
  assumes "oms_wf s" "dict_get (om_orders s) oid = Some ord" "o_state ord = PARTIAL"
  shows "om_orders (snd (handle_rejection oid reason ts s)) = dict_set oid (ord\<lparr>o_rejection_reason := Some reason\<rparr>) (om_orders s)"
    "om_log (snd (handle_rejection oid reason ts s)) = append_event ORDER_REJECTED oid [(''reason'', PStr reason)] ts (om_log s)"
  using assms by (auto elim!: oms_wfD simp: handle_rejection_run Let_def moved_def)

lemma reject_partial_replay:
  assumes cr: "can_replay r0 s" and ord: "dict_get (om_orders s) oid = Some ord" "o_state ord = PARTIAL"
  shows "\<exists>r dead. each apply_logged_event (iter_all (om_log (snd (handle_rejection oid reason ts s)))) r0 = (Inr (), r)
    \<and> dict_get (om_orders r) oid = Some dead \<and> o_state dead = REJECTED"
proof -
  from cr obtain r where wf: "oms_wf s" and rep: "replays r0 s r" by (auto simp: can_replay_def)
  from rep have "agree s r" by (simp add: replays_def)
  then obtain m where m: "dict_get (om_orders r) oid = Some (persisted ord)" "dict_get (om_fsms r) oid = Some m"
    using ord(1) by (rule agreeD)
  show ?thesis
    using rep apply_rejected_run [OF m, of reason ts]
    by (auto simp: reject_partial_live [OF wf ord] iter_all_append replays_def each_append andthen_def skip_def ret_def
        simp flip: row_event_def)
qed

text \<open>
  Submitting an order again after the broker had answered \<open>unavailable\<close>, when its acceptance has
  arrived in between: the snapshot starts over and the known broker id is not attached to it.
\<close>

lemma resubmit_forgets:
  assumes "o_state ord = PENDING" "dict_get (om_broker_ids s) bid = Some oid'"
  shows "\<exists>t. submit_order (\<lambda>_. ([], Inr bid)) ord s =
      (Inr \<lparr>sr_order = ord\<lparr>o_state := SUBMITTED\<rparr>, sr_broker_id = Some bid, sr_accepted = True, sr_reason = None\<rparr>, t)
    \<and> get_order (o_id ord) t = Some (ord\<lparr>o_state := SUBMITTED\<rparr>) \<and> get_fills (o_id ord) t = []"
proof -
  have known: "bid \<in> fst ` set (om_broker_ids s)"
    using assms(2) by (metis map_of_eq_None_iff option.distinct(1))
  have place: "om_orders (after_place ord s) = dict_set (o_id ord) (ord\<lparr>o_state := SUBMITTED\<rparr>) (om_orders s)"
    "om_fills (after_place ord s) = dict_set (o_id ord) [] (om_fills s)"
    "om_broker_ids (after_place ord s) = om_broker_ids s"
    by (simp_all add: after_place_start [OF assms(1)] logged_start_def)
  show ?thesis
    using known assms(1)
    by (simp add: submit_order_def andthen_def place_order_run finish_submit_def gets_def skip_def ret_def
        submit_result_of_def fetch_def place get_order_def get_fills_def dict_get_or_def)
qed

text \<open>A fill delivered twice is counted twice.\<close>

lemma duplicate_fill_counts:
  assumes "oms_wf s" "dict_get (om_orders s) oid = Some ord"
    and "handle_fill oid f ts s = (Inr (), s1)" "handle_fill oid f ts s1 = (Inr (), s2)"
  shows "\<exists>ord2. dict_get (om_orders s2) oid = Some ord2
    \<and> o_filled_qty ord2 = dadd (dadd (o_filled_qty ord) (f_qty f)) (f_qty f)"
proof -
  have one: "\<exists>ord'. dict_get (om_orders u) oid = Some ord' \<and> o_filled_qty ord' = dadd (o_filled_qty x) (f_qty f)"
    if "oms_wf v" "dict_get (om_orders v) oid = Some x" "handle_fill oid f ts v = (Inr (), u)" for u v x
    using that(1,2)
  proof (rule oms_wfD)
    fix m fs assume m: "dict_get (om_fsms v) oid = Some m" "m_table m = order_table" "m_state m = o_state x"
      and fs: "dict_get (om_fills v) oid = Some fs"
    show ?thesis
      using that(3) m(3)
      by (auto simp: handle_fill_run [OF that(2) m(1,2) fs] Let_def after_fill_def moved_def filled_order_def
          canonical_fill_def split: sum.splits option.splits)
  qed
  have "oms_wf s1" using good_opD [OF good_handle_fill, of s oid f ts] assms(1,3) by (simp add: good_step_def)
  with one [OF assms(1-3)] one assms(4) show ?thesis by metis
qed

subsection \<open>Properties\<close>

text \<open>The small run is orderly.\<close>

lemma sample_run: "orderly_run (new_oms [] 10 0) sample_oms"
proof -
  let ?s = "new_oms [] 10 0"
  have "orderly_step ?s sample_oms"
    unfolding sample_oms_def
  proof (rule ord_submit)
    show "orderly_answer (o_id sample_order) (snd ([], Inr ''b1''))
       (snd (each on_broker_event (fst ([], Inr ''b1'')) (after_place sample_order ?s)))"
      by (simp add: orderly_answer_def after_place_def started_def moved_def sample_order_def new_oms_def
          order_machine_def Let_def skip_def ret_def has_arc_def)
  qed (simp_all add: fresh_in_def new_oms_def blank_order_def sample_order_def logged_part_def persisted_def)
  then show ?thesis by (rule orderly_more [OF orderly_refl])
qed

text \<open>
  C3 A crash loses nothing that the broker agrees with. Let a run start from an empty log and be orderly (\<open>orderly_run\<close>): its
  calls are submissions of orders under new ids, cancellations, broker events, adoptions and fee offsets, no forced
  closings, and every answer and event of the broker fits the state of its order; a rejection of a partly filled
  order, for instance, does not (\<open>late_rejection_diverges\<close>). Then a new process that replays the log and asks a broker
  which reports each order as the process had it (\<open>broker_agrees\<close>) has the same orders up to what the log does not
  carry, the same machine states, fills and broker ids, and recovers and abandons no order.
\<close>

theorem recovery_restores_the_run:
  assumes "orderly_run (new_oms [] m u) s" "broker_agrees look s"
  shows "\<exists>sum r. recover look (new_oms (om_log s) n t) = (Inr sum, r) \<and> agree s r
     \<and> rs_recovered sum = 0 \<and> rs_abandoned sum = 0 \<and> rs_replayed sum = length (om_orders r)"
  using assms by (rule recover_orderly)

theorem recovery_restores_the_run_witness:
  "\<exists>sum r. recover (\<lambda>_. Inr (Some (sample_status B_ACCEPTED 0))) (new_oms (om_log sample_oms) 20 5) = (Inr sum, r)
     \<and> get_order 1 r = Some sample_accepted \<and> rs_recovered sum = 0"
proof -
  let ?look = "\<lambda>_. Inr (Some (sample_status B_ACCEPTED 0))"
  have "broker_agrees ?look sample_oms"
    by (simp add: broker_agrees_def sample_oms_order broker_state_matches_def sample_accepted_def sample_order_def sample_status_def)
  from recovery_restores_the_run [OF sample_run this, of 20 5] show ?thesis
    by (auto simp: agree_def get_order_def sample_oms_order) (simp add: persisted_def sample_accepted_def sample_order_def)
qed

text \<open>
  C8 When the broker reports an order as filled, reconciliation always ends with the order filled
  locally, whatever was missed: the acceptance, any part of the fills, or dust below the tolerance.
\<close>

theorem broker_filled_ends_filled:
  assumes "in_state oid {SUBMITTED, ACCEPTED, PARTIAL} s"
    and "get_order oid s = Some ord" "o_state ord = SUBMITTED \<Longrightarrow> o_broker_order_id ord = None"
    and "bs_state st = B_FILLED" and "catch_up_from_broker oid st s = (Inr (), t)"
  shows "in_state oid {FILLED} t"
  using assms by (auto simp: get_order_def intro: catch_up_filled)

theorem broker_filled_ends_filled_witness:
  "\<exists>t. catch_up_from_broker 1 (sample_status B_FILLED 1) sample_oms = (Inr (), t) \<and> in_state 1 {FILLED} t"
proof -
  have live: "in_state 1 {SUBMITTED, ACCEPTED, PARTIAL} sample_oms"
    using sample_oms_wf by (simp add: in_state_def sample_oms_order sample_accepted_def)
  obtain e t where e: "catch_up_from_broker 1 (sample_status B_FILLED 1) sample_oms = (e, t)" by fastforce
  have "fst (catch_up_from_broker 1 (sample_status B_FILLED 1) sample_oms) = Inr ()"
    by (simp add: sample_eval catch_up_from_broker_def catch_fill_def synthetic_fill_def catch_close_def
        force_close_filled_def sample_status_def)
  with e have "e = Inr ()" by simp
  with broker_filled_ends_filled [OF live, of sample_accepted "sample_status B_FILLED 1" t] e show ?thesis
    by (simp add: get_order_def sample_oms_order) (simp add: sample_accepted_def sample_status_def)
qed

text \<open>
  A rejection that reaches a partly filled order is logged, but its machine has no arc for it: the live
  order stays partly filled, while a replay of the same log makes it rejected.
\<close>

lemma late_rejection_diverges:
  assumes "can_replay r0 s" "get_order oid s = Some ord" "o_state ord = PARTIAL"
  shows "\<exists>live r dead. get_order oid (snd (handle_rejection oid reason ts s)) = Some live \<and> o_state live = PARTIAL
    \<and> each apply_logged_event (iter_all (om_log (snd (handle_rejection oid reason ts s)))) r0 = (Inr (), r)
    \<and> get_order oid r = Some dead \<and> o_state dead = REJECTED"
proof -
  have ord: "dict_get (om_orders s) oid = Some ord" using assms(2) by (simp add: get_order_def)
  have "get_order oid (snd (handle_rejection oid reason ts s)) = Some (ord\<lparr>o_rejection_reason := Some reason\<rparr>)"
    using reject_partial_live(1) [OF can_replay_wf [OF assms(1)] ord assms(3)] by (simp add: get_order_def)
  then show ?thesis
    using reject_partial_replay [OF assms(1) ord assms(3), of reason ts] assms(3) by (auto simp: get_order_def)
qed

lemma late_rejection_diverges_example:
  "\<exists>s live r dead. get_order 1 (snd (handle_rejection 1 ''late'' 0 s)) = Some live \<and> o_state live = PARTIAL
    \<and> each apply_logged_event (iter_all (om_log (snd (handle_rejection 1 ''late'' 0 s)))) (new_oms [] 0 0) = (Inr (), r)
    \<and> get_order 1 r = Some dead \<and> o_state dead = REJECTED"
proof -
  let ?s = "snd (handle_fill 1 sample_part 0 sample_oms)"
  have "can_replay (new_oms [] 0 0) sample_oms"
    by (rule can_replay_run [OF sample_run]) (use can_replay_new [of "[]" 0 0 10 0] in \<open>simp add: new_oms_def\<close>)
  then have "can_replay (new_oms [] 0 0) ?s"
    by (rule can_replay_fill [OF _ sample_oms_order(1), where avg = 100]) (simp_all add: sample_eval has_arc_def)
  from late_rejection_diverges [OF this, of 1 _ "''late''" 0] sample_filled(2) show ?thesis
    by (intro exI [of _ ?s]) (simp add: get_order_def)
qed


text \<open>
  Submitting an order again after the broker could not be reached resets it: if the broker answers with
  the id it gave the first time, the order stays submitted, without broker id and without the fills it had.
\<close>

lemma resubmission_forgets_the_order:
  assumes "o_state ord = PENDING" "dict_get (om_broker_ids s) bid = Some oid'"
  shows "\<exists>t. submit_order (\<lambda>_. ([], Inr bid)) ord s =
      (Inr \<lparr>sr_order = ord\<lparr>o_state := SUBMITTED\<rparr>, sr_broker_id = Some bid, sr_accepted = True, sr_reason = None\<rparr>, t)
    \<and> get_order (o_id ord) t = Some (ord\<lparr>o_state := SUBMITTED\<rparr>) \<and> get_fills (o_id ord) t = []"
  using assms by (rule resubmit_forgets)

lemma resubmission_forgets_the_order_example:
  "\<exists>t. snd (submit_order (\<lambda>_. ([], Inr ''b1'')) sample_order sample_oms) = t
    \<and> get_order 1 t = Some (sample_order\<lparr>o_state := SUBMITTED\<rparr>)"
  using resubmission_forgets_the_order [of sample_order sample_oms "''b1''" 1]
  by (auto simp: sample_oms_order) (auto simp: sample_order_def)

text \<open>
  A fill delivered twice counts twice: the handler does not look at the id of the fill.
\<close>

lemma redelivered_fill_counts_twice:
  assumes "oms_wf s" "get_order oid s = Some ord"
    and "handle_fill oid f ts s = (Inr (), s1)" "handle_fill oid f ts s1 = (Inr (), s2)"
  shows "\<exists>ord2. get_order oid s2 = Some ord2 \<and> o_filled_qty ord2 = dadd (dadd (o_filled_qty ord) (f_qty f)) (f_qty f)"
  using duplicate_fill_counts [OF assms(1) _ assms(3,4)] assms(2) by (simp add: get_order_def)

lemma redelivered_fill_counts_twice_example:
  "\<exists>s1 s2 ord2. handle_fill 1 sample_part 0 sample_oms = (Inr (), s1) \<and> handle_fill 1 sample_part 0 s1 = (Inr (), s2)
    \<and> get_order 1 s2 = Some ord2 \<and> o_filled_qty ord2 = 2"
proof -
  let ?s1 = "snd (handle_fill 1 sample_part 0 sample_oms)"
  let ?s2 = "snd (handle_fill 1 sample_part 0 ?s1)"
  have "get_order 1 sample_oms = Some sample_accepted" by (simp add: get_order_def sample_oms_order)
  moreover have "handle_fill 1 sample_part 0 ?s1 = (Inr (), ?s2)" using sample_filled_twice by (metis prod.collapse)
  moreover have "dadd (dadd (o_filled_qty sample_accepted) (f_qty sample_part)) (f_qty sample_part) = 2"
    by (simp add: sample_accepted_def sample_order_def sample_part_def dec_eval)
  ultimately show ?thesis
    using redelivered_fill_counts_twice [OF sample_oms_wf _ sample_filled(1)] sample_filled(1) by metis
qed

end
