(* ===== verification/Kill_Switch.thy ===== *)
theory Kill_Switch
  imports Core_Types
begin

text \<open>
  The global kill switch and the per-agent bench of \<^verbatim>\<open>execution/kill_switch.py\<close>. Every
  method holds the engine's lock for its whole body, so it is one function of the engine.
  The per-agent records are created for every agent and never removed: a total function.
\<close>

definition daily_loss_threshold :: decimal where "daily_loss_threshold = 2 / 100"
definition drawdown_halved_threshold :: decimal where "drawdown_halved_threshold = 15 / 100"
definition drawdown_paused_threshold :: decimal where "drawdown_paused_threshold = 25 / 100"
definition drawdown_liquidate_threshold :: decimal where "drawdown_liquidate_threshold = 33 / 100"

lemmas drawdown_thresholds = drawdown_halved_threshold_def drawdown_paused_threshold_def
  drawdown_liquidate_threshold_def

definition consecutive_loss_bench_trigger :: int where "consecutive_loss_bench_trigger = 5"
definition bench_duration :: int where "bench_duration = 24 * us_per_hour"

record agent_record =
  ar_losses :: int
  ar_until :: "datetime option"

record kill_engine =
  ks_state :: kill_switch_state
  ks_daily_pnl :: decimal
  ks_peak_nav :: "decimal option"
  ks_nav :: "decimal option"
  ks_heartbeat :: "datetime option"
  ks_timeout :: int
  ks_agents :: "agent_id \<Rightarrow> agent_record"

definition new_engine :: "int \<Rightarrow> kill_engine" where
  "new_engine timeout = \<lparr>ks_state = OK, ks_daily_pnl = 0, ks_peak_nav = None, ks_nav = None,
     ks_heartbeat = None, ks_timeout = timeout, ks_agents = (\<lambda>_. \<lparr>ar_losses = 0, ar_until = None\<rparr>)\<rparr>"

subsection \<open>Reading the state\<close>

definition blocks_new_entries :: "kill_switch_state \<Rightarrow> bool" where
  "blocks_new_entries s \<longleftrightarrow> s \<in> {DRAWDOWN_PAUSED, DRAWDOWN_LIQUIDATE, DAILY_LOSS, HEARTBEAT_MISSED,
     RECONCILIATION_BREAK, BUDGET_EXHAUSTED}"

definition drawdown_worse :: "kill_switch_state \<Rightarrow> bool" where
  "drawdown_worse s \<longleftrightarrow> s \<in> {DRAWDOWN_PAUSED, DRAWDOWN_LIQUIDATE}"

definition can_trade :: "kill_engine \<Rightarrow> bool" where
  "can_trade k = (ks_state k \<noteq> DRAWDOWN_LIQUIDATE)"

definition can_open_new :: "kill_engine \<Rightarrow> bool" where
  "can_open_new k = (\<not> blocks_new_entries (ks_state k))"

definition portfolio_drawdown :: "kill_engine \<Rightarrow> decimal" where
  "portfolio_drawdown k = (case (ks_peak_nav k, ks_nav k) of
       (Some peak, Some nav) \<Rightarrow> if peak = 0 then 0 else ddiv (dsub peak nav) peak
     | _ \<Rightarrow> 0)"

subsection \<open>Updates\<close>

definition update_daily_pnl :: "decimal \<Rightarrow> kill_engine \<Rightarrow> kill_switch_state option \<times> kill_engine" where
  "update_daily_pnl pnl k =
     (let k1 = k\<lparr>ks_daily_pnl := pnl\<rparr> in
      if pnl \<le> dneg daily_loss_threshold \<and> ks_state k1 = OK
      then (Some DAILY_LOSS, k1\<lparr>ks_state := DAILY_LOSS\<rparr>) else (None, k1))"

definition apply_drawdown :: "decimal \<Rightarrow> kill_engine \<Rightarrow> kill_switch_state option \<times> kill_engine" where
  "apply_drawdown dd k =
     (let new = (if drawdown_liquidate_threshold \<le> dd then DRAWDOWN_LIQUIDATE
                 else if drawdown_paused_threshold \<le> dd
                 then (if ks_state k \<noteq> DRAWDOWN_LIQUIDATE then DRAWDOWN_PAUSED else ks_state k)
                 else if drawdown_halved_threshold \<le> dd \<and> \<not> drawdown_worse (ks_state k)
                 then DRAWDOWN_HALVED else ks_state k)
      in (if new \<noteq> ks_state k then Some new else None, k\<lparr>ks_state := new\<rparr>))"

definition update_nav :: "decimal \<Rightarrow> kill_engine \<Rightarrow> kill_switch_state option \<times> kill_engine" where
  "update_nav nav k =
     (let peak = (case ks_peak_nav k of None \<Rightarrow> nav | Some p \<Rightarrow> if p < nav then nav else p);
          k1 = k\<lparr>ks_peak_nav := Some peak, ks_nav := Some nav\<rparr>
      in apply_drawdown (portfolio_drawdown k1) k1)"

definition record_heartbeat :: "datetime \<Rightarrow> kill_engine \<Rightarrow> kill_engine" where
  "record_heartbeat ts k =
     k\<lparr>ks_heartbeat := Some ts, ks_state := (if ks_state k = HEARTBEAT_MISSED then OK else ks_state k)\<rparr>"

definition check_heartbeat :: "datetime \<Rightarrow> kill_engine \<Rightarrow> bool \<times> kill_engine" where
  "check_heartbeat ts k = (case ks_heartbeat k of
       None \<Rightarrow> (True, k)
     | Some h \<Rightarrow> if ks_timeout k * 1000000 < ts - h then (False, k\<lparr>ks_state := HEARTBEAT_MISSED\<rparr>)
                 else (True, k))"

definition trip_reconciliation_break :: "kill_engine \<Rightarrow> kill_engine" where
  "trip_reconciliation_break k = k\<lparr>ks_state := RECONCILIATION_BREAK\<rparr>"

definition trip_budget_exhausted :: "kill_engine \<Rightarrow> kill_engine" where
  "trip_budget_exhausted k = k\<lparr>ks_state := BUDGET_EXHAUSTED\<rparr>"

definition reset_daily :: "kill_engine \<Rightarrow> kill_engine" where
  "reset_daily k = k\<lparr>ks_daily_pnl := 0, ks_state := (if ks_state k = DAILY_LOSS then OK else ks_state k)\<rparr>"

definition clear_reconciliation_break :: "kill_engine \<Rightarrow> kill_engine" where
  "clear_reconciliation_break k =
     (if ks_state k = RECONCILIATION_BREAK then k\<lparr>ks_state := OK\<rparr> else k)"

subsection \<open>The bench\<close>

definition record_agent_result :: "agent_id \<Rightarrow> bool \<Rightarrow> datetime \<Rightarrow> kill_engine \<Rightarrow> bool \<times> kill_engine" where
  "record_agent_result a is_loss ts k =
     (let rec = ks_agents k a in
      if is_loss then
        (let n = ar_losses rec + 1 in
         if consecutive_loss_bench_trigger \<le> n
         then (True, k\<lparr>ks_agents := (ks_agents k)(a := \<lparr>ar_losses = n, ar_until = Some (ts + bench_duration)\<rparr>)\<rparr>)
         else (False, k\<lparr>ks_agents := (ks_agents k)(a := rec\<lparr>ar_losses := n\<rparr>)\<rparr>))
      else (False, k\<lparr>ks_agents := (ks_agents k)(a := \<lparr>ar_losses = 0, ar_until = None\<rparr>)\<rparr>))"

definition is_agent_benched :: "agent_id \<Rightarrow> datetime \<Rightarrow> kill_engine \<Rightarrow> bool \<times> kill_engine" where
  "is_agent_benched a ts k = (case ar_until (ks_agents k a) of
       None \<Rightarrow> (False, k)
     | Some u \<Rightarrow> if ts < u then (True, k)
                 else (False, k\<lparr>ks_agents := (ks_agents k)(a := \<lparr>ar_losses = 0, ar_until = None\<rparr>)\<rparr>))"

definition agent_losses :: "agent_id \<Rightarrow> kill_engine \<Rightarrow> int" where
  "agent_losses a k = ar_losses (ks_agents k a)"

definition classify_drawdown :: "decimal \<Rightarrow> drawdown_bucket" where
  "classify_drawdown d =
     (if 25 / 100 \<le> d then FORCED_CASH else if 15 / 100 \<le> d then RED
      else if 10 / 100 \<le> d then ORANGE else if 5 / 100 \<le> d then YELLOW else NORMAL)"

lemmas kill_ops [op_defs] = update_daily_pnl_def update_nav_def apply_drawdown_def record_heartbeat_def
  check_heartbeat_def trip_reconciliation_break_def trip_budget_exhausted_def reset_daily_def
  clear_reconciliation_break_def record_agent_result_def is_agent_benched_def

subsection \<open>Drawdown states\<close>

lemma classify_mono: "x \<le> y \<Longrightarrow> classify_drawdown x \<le> classify_drawdown y"
  by (auto simp: classify_drawdown_def less_eq_drawdown_bucket_def)

text \<open>The severity of the four states a drawdown produces; the other switches count as none.\<close>

fun severity :: "kill_switch_state \<Rightarrow> nat" where
  "severity DRAWDOWN_HALVED = 1"
| "severity DRAWDOWN_PAUSED = 2"
| "severity DRAWDOWN_LIQUIDATE = 3"
| "severity _ = 0"

definition level :: "decimal \<Rightarrow> nat" where
  "level dd = (if drawdown_liquidate_threshold \<le> dd then 3 else if drawdown_paused_threshold \<le> dd then 2
     else if drawdown_halved_threshold \<le> dd then 1 else 0)"

lemma apply_drawdown_severity:
  "severity (ks_state (snd (apply_drawdown dd k))) = max (severity (ks_state k)) (level dd)"
  by (cases "ks_state k")
    (auto simp: apply_drawdown_def Let_def level_def drawdown_worse_def drawdown_thresholds)

lemma apply_drawdown_reports:
  "fst (apply_drawdown dd k) = (if ks_state (snd (apply_drawdown dd k)) = ks_state k then None
     else Some (ks_state (snd (apply_drawdown dd k))))"
  by (auto simp: apply_drawdown_def Let_def)

lemma update_nav_fields [simp]:
  "ks_nav (snd (update_nav nav k)) = Some nav"
  "ks_peak_nav (snd (update_nav nav k)) = Some (case ks_peak_nav k of None \<Rightarrow> nav | Some p \<Rightarrow> max p nav)"
  by (auto simp: update_nav_def apply_drawdown_def Let_def max_def split: option.split)

lemma update_nav_drawdown:
  "portfolio_drawdown (snd (update_nav nav k)) =
     portfolio_drawdown (k\<lparr>ks_peak_nav := Some (case ks_peak_nav k of None \<Rightarrow> nav | Some p \<Rightarrow> max p nav),
       ks_nav := Some nav\<rparr>)"
  by (simp add: portfolio_drawdown_def)

lemma update_nav_severity:
  "severity (ks_state (snd (update_nav nav k))) =
     max (severity (ks_state k)) (level (portfolio_drawdown (snd (update_nav nav k))))"
proof -
  define k1 where "k1 = k\<lparr>ks_peak_nav := Some (case ks_peak_nav k of None \<Rightarrow> nav | Some p \<Rightarrow> max p nav),
       ks_nav := Some nav\<rparr>"
  have "update_nav nav k = apply_drawdown (portfolio_drawdown k1) k1"
    by (cases "ks_peak_nav k") (simp_all add: update_nav_def k1_def Let_def max_def)
  moreover have "portfolio_drawdown (snd (update_nav nav k)) = portfolio_drawdown k1"
    by (simp add: update_nav_drawdown k1_def)
  ultimately show ?thesis
    using apply_drawdown_severity [of "portfolio_drawdown k1" k1] by (simp add: k1_def)
qed

lemma severity_blocks: "2 \<le> severity s \<Longrightarrow> blocks_new_entries s"
  by (cases s) (simp_all add: blocks_new_entries_def)

lemma severity_liquidate: "severity s = 3 \<longleftrightarrow> s = DRAWDOWN_LIQUIDATE"
  by (cases s) simp_all

subsection \<open>A day of marks\<close>

definition marks :: "decimal list \<Rightarrow> kill_engine \<Rightarrow> kill_engine" where
  "marks navs k = foldl (\<lambda>k nav. snd (update_nav nav k)) k navs"

lemma marks_simps [simp]:
  "marks [] k = k" "marks (navs @ [n]) k = snd (update_nav n (marks navs k))"
  by (simp_all add: marks_def)

lemma marks_peak:
  "navs \<noteq> [] \<Longrightarrow> ks_peak_nav (marks navs (new_engine t)) = Some (Max (set navs))"
proof (induction navs rule: rev_induct)
  case (snoc n navs)
  show ?case
  proof (cases "navs = []")
    case True
    then show ?thesis using marks_simps(2) [of "[]" n] by (simp add: new_engine_def)
  next
    case False
    with snoc.IH show ?thesis by (simp add: max.commute)
  qed
qed simp

lemma marks_nav: "navs \<noteq> [] \<Longrightarrow> ks_nav (marks navs k) = Some (last navs)"
  by (induction navs rule: rev_induct) simp_all

text \<open>The drawdown after the last mark, from the marks alone.\<close>

definition drawdown_of :: "decimal list \<Rightarrow> decimal" where
  "drawdown_of navs =
     (if navs = [] \<or> Max (set navs) = 0 then 0 else ddiv (dsub (Max (set navs)) (last navs)) (Max (set navs)))"

lemma marks_drawdown: "portfolio_drawdown (marks navs (new_engine t)) = drawdown_of navs"
proof (cases "navs = []")
  case False
  then show ?thesis by (simp add: portfolio_drawdown_def drawdown_of_def marks_peak marks_nav)
qed (simp add: portfolio_drawdown_def drawdown_of_def new_engine_def)

definition worst_level :: "decimal list \<Rightarrow> nat" where
  "worst_level navs = foldl max 0 (map (\<lambda>i. level (drawdown_of (take i navs))) [0..<Suc (length navs)])"

lemma worst_level_snoc: "worst_level (navs @ [n]) = max (worst_level navs) (level (drawdown_of (navs @ [n])))"
proof -
  let ?F = "\<lambda>i. level (drawdown_of (take i (navs @ [n])))"
  have eq: "map ?F [0..<Suc (length navs)] = map (\<lambda>i. level (drawdown_of (take i navs))) [0..<Suc (length navs)]"
    by (rule map_cong) auto
  have "worst_level (navs @ [n]) = foldl max 0 (map ?F [0..<Suc (length navs)] @ [?F (length (navs @ [n]))])"
    by (simp add: worst_level_def)
  then show ?thesis unfolding eq by (simp add: worst_level_def)
qed

lemma marks_severity: "severity (ks_state (marks navs (new_engine t))) = worst_level navs"
proof (induction navs rule: rev_induct)
  case Nil
  then show ?case by (simp add: new_engine_def worst_level_def drawdown_of_def level_def drawdown_thresholds)
next
  case (snoc n navs)
  have "portfolio_drawdown (snd (update_nav n (marks navs (new_engine t)))) = drawdown_of (navs @ [n])"
    using marks_drawdown [of "navs @ [n]" t] by simp
  with snoc show ?case by (simp add: update_nav_severity worst_level_snoc)
qed

lemma marks_states: "ks_state (marks navs (new_engine t)) \<in> {OK, DRAWDOWN_HALVED, DRAWDOWN_PAUSED, DRAWDOWN_LIQUIDATE}"
proof (induction navs rule: rev_induct)
  case (snoc n navs)
  then show ?case by (auto simp: update_nav_def apply_drawdown_def Let_def)
qed (simp add: new_engine_def)

fun state_of_level :: "nat \<Rightarrow> kill_switch_state" where
  "state_of_level 0 = OK"
| "state_of_level (Suc 0) = DRAWDOWN_HALVED"
| "state_of_level (Suc (Suc 0)) = DRAWDOWN_PAUSED"
| "state_of_level _ = DRAWDOWN_LIQUIDATE"

lemma marks_state: "ks_state (marks navs (new_engine t)) = state_of_level (worst_level navs)"
  using marks_states [of navs t] marks_severity [of navs t, symmetric]
  by (auto simp: numeral_2_eq_2 numeral_3_eq_3)

subsection \<open>The bench\<close>

definition losses :: "agent_id \<Rightarrow> datetime list \<Rightarrow> kill_engine \<Rightarrow> kill_engine" where
  "losses a tss k = foldl (\<lambda>k ts. snd (record_agent_result a True ts k)) k tss"

lemma losses_simps [simp]:
  "losses a [] k = k" "losses a (tss @ [ts]) k = snd (record_agent_result a True ts (losses a tss k))"
  by (simp_all add: losses_def)

lemma losses_count: "agent_losses a (losses a tss k) = agent_losses a k + int (length tss)"
  by (induction tss rule: rev_induct) (auto simp: record_agent_result_def Let_def agent_losses_def)

lemma losses_until:
  "agent_losses a k = 0 \<Longrightarrow> ar_until (ks_agents k a) = None \<Longrightarrow>
   ar_until (ks_agents (losses a tss k) a) =
     (if length tss < 5 then None else Some (last tss + bench_duration))"
proof (induction tss rule: rev_induct)
  case (snoc ts tss)
  then show ?case
    using losses_count [of a tss k]
    by (auto simp: record_agent_result_def Let_def agent_losses_def consecutive_loss_bench_trigger_def)
qed simp

lemma record_other_agent: "b \<noteq> a \<Longrightarrow> ks_agents (snd (record_agent_result a l ts k)) b = ks_agents k b"
  by (auto simp: record_agent_result_def Let_def)

lemma benched_other_agent: "b \<noteq> a \<Longrightarrow> ks_agents (snd (is_agent_benched a ts k)) b = ks_agents k b"
  by (auto simp: is_agent_benched_def split: option.split)

subsection \<open>Properties\<close>

text \<open>
  C13 After any sequence of net asset values the switch is in the state of the worst drawdown
  level seen at any of the marks, each measured from the peak up to it: halved from 15\%, paused from
  25\%, liquidate from 33\%. A recovery never lowers it.
\<close>

theorem drawdown_state_is_worst_level:
  "ks_state (marks navs (new_engine t)) = state_of_level (worst_level navs)"
  by (rule marks_state)

text \<open>
  After a win, whatever happened before, an agent that loses at the times \<open>tss\<close> is benched
  at \<open>ts\<close> exactly if it lost at least five times and less than a day has gone by since the last
  loss; the records of the other agents are as before.
\<close>

lemma benched_iff_five_losses:
  "fst (is_agent_benched a ts (losses a tss (snd (record_agent_result a False w k)))) \<longleftrightarrow>
     5 \<le> length tss \<and> ts < last tss + bench_duration"
  using losses_until [of a "snd (record_agent_result a False w k)" tss]
  by (simp add: agent_losses_def record_agent_result_def Let_def is_agent_benched_def split: option.split)

text \<open>
  A mark with a drawdown from 15\% up to 25\% replaces any of the other switches by
  \<open>DRAWDOWN_HALVED\<close>: a book that was closed for new entries by a reconciliation break, a
  daily loss, an exhausted budget or a missed heartbeat is open again.
\<close>

lemma halving_reopens_entries:
  assumes "ks_state k \<in> {RECONCILIATION_BREAK, DAILY_LOSS, BUDGET_EXHAUSTED, HEARTBEAT_MISSED}"
    and "drawdown_halved_threshold \<le> portfolio_drawdown (snd (update_nav nav k))"
    and "portfolio_drawdown (snd (update_nav nav k)) < drawdown_paused_threshold"
  shows "\<not> can_open_new k \<and> can_open_new (snd (update_nav nav k))"
proof -
  have "severity (ks_state (snd (update_nav nav k))) = 1"
    using assms unfolding update_nav_severity level_def by (auto simp: drawdown_thresholds)
  then have "ks_state (snd (update_nav nav k)) = DRAWDOWN_HALVED"
    by (cases "ks_state (snd (update_nav nav k))") simp_all
  then show ?thesis using assms(1) by (auto simp: can_open_new_def blocks_new_entries_def)
qed

lemma halving_reopens_entries_example:
  "\<exists>k. ks_state k = RECONCILIATION_BREAK \<and> \<not> can_open_new k \<and> can_open_new (snd (update_nav 80 k))"
proof -
  let ?k = "trip_reconciliation_break (snd (update_nav 100 (new_engine 600)))"
  have dd: "portfolio_drawdown (snd (update_nav 80 ?k)) = 1 / 5"
    by (simp add: update_nav_def apply_drawdown_def Let_def new_engine_def trip_reconciliation_break_def
        portfolio_drawdown_def dec_eval drawdown_thresholds drawdown_worse_def)
  have "\<not> can_open_new ?k \<and> can_open_new (snd (update_nav 80 ?k))"
  proof (rule halving_reopens_entries)
    show "drawdown_halved_threshold \<le> portfolio_drawdown (snd (update_nav 80 ?k))"
      "portfolio_drawdown (snd (update_nav 80 ?k)) < drawdown_paused_threshold"
      unfolding dd drawdown_thresholds by simp_all
  qed (simp add: trip_reconciliation_break_def)
  then show ?thesis by (intro exI [of _ ?k]) (simp add: trip_reconciliation_break_def)
qed

end
