(* ===== verification/Reconciler.thy ===== *)
theory Reconciler
  imports OMS_Reconcile Kill_Switch
begin

text \<open>
  The periodic reconciler of \<^verbatim>\<open>execution/reconciler.py\<close>: one pass of \<open>reconcile_once\<close> over the
  order system, the kill switch and the broker's answers. The thread that repeats it is not
  modelled. The union of the symbol sets is visited in a fixed order, expected symbols first;
  Python leaves the order of a set open.
\<close>

record reconciler =
  rc_oms :: oms
  rc_kill :: kill_engine
  rc_tolerance :: decimal
  rc_bus :: "bus_event list option"
  rc_last :: kill_switch_state
  rc_orphan :: agent_id
  rc_alerted :: "symbol set"

record reconcile_result =
  rr_checked :: nat
  rr_updated :: nat
  rr_mismatches :: nat
  rr_tripped :: bool

definition qty_tolerance_default :: decimal where "qty_tolerance_default = 1"
definition dollar_tolerance :: decimal where "dollar_tolerance = 1"

definition new_reconciler :: "oms \<Rightarrow> kill_engine \<Rightarrow> decimal \<Rightarrow> bool \<Rightarrow> agent_id \<Rightarrow> reconciler" where
  "new_reconciler s k tol has_bus orphan = \<lparr>rc_oms = s, rc_kill = k, rc_tolerance = tol,
     rc_bus = (if has_bus then Some [] else None), rc_last = ks_state k, rc_orphan = orphan, rc_alerted = {}\<rparr>"

subsection \<open>Orders\<close>

definition status_requires_update :: "order_state \<Rightarrow> broker_order_state \<Rightarrow> bool" where
  "status_requires_update st b =
     (if terminal st then False
      else b \<in> {B_FILLED, B_PARTIALLY_FILLED, B_CANCELED, B_REJECTED, B_EXPIRED})"

definition polled_fill :: "fill_id \<Rightarrow> order \<Rightarrow> decimal \<Rightarrow> order_status \<Rightarrow> fill" where
  "polled_fill fid ord qty st = \<lparr>f_id = fid, f_order_id = o_id ord, f_agent_id = o_agent_id ord,
     f_symbol = o_symbol ord, f_side = o_side ord, f_qty = qty,
     f_price = (case bs_avg_fill_price st of None \<Rightarrow> 0 | Some p \<Rightarrow> p), f_timestamp = bs_updated_at st,
     f_commission = 0, f_is_partial = (bs_state st \<noteq> B_FILLED)\<rparr>"

definition polled_event :: "order_status \<Rightarrow> fill option \<Rightarrow> order_event_msg" where
  "polled_event st f = \<lparr>be_broker_id = bs_broker_id st, be_client_id = bs_client_id st, be_state = bs_state st,
     be_fill = f, be_reason = None, be_timestamp = Some (bs_updated_at st)\<rparr>"

text \<open>One order against the broker's status; the snapshot is the one listed at the start of the pass.\<close>

definition poll_order :: "order \<Rightarrow> order_status \<Rightarrow> unit oms_eff" where
  "poll_order ord st =
     (let delta = dsub (bs_filled_qty st) (o_filled_qty ord);
          filling = (bs_state st \<in> {B_PARTIALLY_FILLED, B_FILLED})
      in if filling \<and> 0 < delta then
           andthen new_id (\<lambda>fid. on_broker_event (polled_event st (Some (polled_fill fid ord delta st))))
         else if filling \<and> bs_state st = B_FILLED \<and> delta \<le> 0 then force_close_filled (o_id ord) (bs_updated_at st)
         else on_broker_event (polled_event st None))"

fun reconcile_orders :: "(string \<Rightarrow> exn + order_status) \<Rightarrow> order list \<Rightarrow> nat \<Rightarrow> nat oms_eff" where
  "reconcile_orders get [] n = ret n"
| "reconcile_orders get (ord # ords) n = (case o_broker_order_id ord of
       None \<Rightarrow> reconcile_orders get ords n
     | Some bid \<Rightarrow> (case get bid of
         Inl _ \<Rightarrow> reconcile_orders get ords n
       | Inr st \<Rightarrow>
           if status_requires_update (o_state ord) (bs_state st)
           then andthen (poll_order ord st) (\<lambda>_. reconcile_orders get ords (Suc n))
           else reconcile_orders get ords n))"

subsection \<open>Positions\<close>

definition signed_qty :: "fill \<Rightarrow> decimal" where
  "signed_qty f = dmul (if f_side f = BUY then 1 else - 1) (f_qty f)"

definition add_fill_qty :: "(symbol, decimal) dict \<Rightarrow> fill \<Rightarrow> (symbol, decimal) dict" where
  "add_fill_qty ps f = dict_set (f_symbol f) (dadd (dict_get_or ps (f_symbol f) 0) (signed_qty f)) ps"

definition oms_fills :: "oms \<Rightarrow> fill list" where
  "oms_fills s = concat (map (\<lambda>ord. get_fills (o_id ord) s) (list_orders s))"

definition expected_positions :: "oms \<Rightarrow> (symbol, decimal) dict" where
  "expected_positions s = filter (\<lambda>(_, q). q \<noteq> 0) (foldl add_fill_qty [] (oms_fills s))"

record drift =
  dr_ours :: decimal
  dr_broker :: decimal
  dr_price :: decimal
  dr_qty :: decimal
  dr_dollars :: decimal

definition drift_of :: "(symbol, decimal) dict \<Rightarrow> (symbol, broker_position) dict \<Rightarrow> symbol \<Rightarrow> drift" where
  "drift_of expected bps s =
     (let ours = dict_get_or expected s 0;
          bq = (case dict_get bps s of None \<Rightarrow> 0 | Some p \<Rightarrow> bp_qty p);
          price = (case dict_get bps s of None \<Rightarrow> 0 | Some p \<Rightarrow> bp_current_price p);
          dq = dabs (dsub ours bq)
      in \<lparr>dr_ours = ours, dr_broker = bq, dr_price = price, dr_qty = dq, dr_dollars = dmul dq price\<rparr>)"

definition within_tolerance :: "decimal \<Rightarrow> drift \<Rightarrow> bool" where
  "within_tolerance tol d \<longleftrightarrow> dr_qty d < tol \<and> dr_dollars d \<le> dollar_tolerance"

definition adoptable :: "drift \<Rightarrow> bool" where
  "adoptable d \<longleftrightarrow> dr_ours d = 0 \<and> 0 < dr_broker d"

text \<open>The walk over the symbols: adopted or skipped, or a mismatch with its details.\<close>

fun check_symbols ::
  "decimal \<Rightarrow> agent_id \<Rightarrow> datetime \<Rightarrow> (symbol, decimal) dict \<Rightarrow> (symbol, broker_position) dict \<Rightarrow> symbol list
    \<Rightarrow> oms \<Rightarrow> symbol list \<times> (symbol, decimal \<times> decimal \<times> decimal) dict \<times> oms" where
  "check_symbols tol orphan ts expected bps [] s = ([], [], s)"
| "check_symbols tol orphan ts expected bps (sy # sys) s =
     (let d = drift_of expected bps sy in
      if within_tolerance tol d then check_symbols tol orphan ts expected bps sys s
      else if adoptable d then
        (let (res, s1) = adopt_orphan_position sy (dr_broker d) (dr_price d) orphan ts s;
             (ms, det, s2) = check_symbols tol orphan ts expected bps sys s1
         in (if isl res then sy # ms else ms, det, s2))
      else (let (ms, det, s1) = check_symbols tol orphan ts expected bps sys s
            in (sy # ms, dict_set sy (dr_ours d, dr_broker d, dr_dollars d) det, s1)))"

text \<open>
  The publishing loop: a symbol without details raises \<open>KeyError\<close>, which the code swallows, so
  the symbols after it are not published.
\<close>

fun publish_breaks ::
  "symbol list \<Rightarrow> (symbol, decimal \<times> decimal \<times> decimal) dict \<Rightarrow> symbol set \<Rightarrow> bus_event list \<Rightarrow> symbol set \<times> bus_event list" where
  "publish_breaks [] det alerted bus = (alerted, bus)"
| "publish_breaks (sy # sys) det alerted bus = (case dict_get det sy of
       None \<Rightarrow> (alerted, bus)
     | Some (ours, theirs, dollars) \<Rightarrow>
         publish_breaks sys det (insert sy alerted) (bus @ [ReconciliationBreak sy ours theirs dollars]))"

definition all_symbols :: "(symbol, decimal) dict \<Rightarrow> (symbol, broker_position) dict \<Rightarrow> symbol list" where
  "all_symbols expected bps = remdups (map fst expected @ map fst bps)"

definition positions_by_symbol :: "broker_position list \<Rightarrow> (symbol, broker_position) dict" where
  "positions_by_symbol ps = foldl (\<lambda>d p. dict_set (bp_symbol p) p d) [] ps"

definition reconcile_positions ::
  "exn + broker_position list \<Rightarrow> datetime \<Rightarrow> reconciler \<Rightarrow> (nat \<times> bool) \<times> reconciler" where
  "reconcile_positions listed ts rc = (case listed of
       Inl _ \<Rightarrow> ((0, False), rc)
     | Inr ps \<Rightarrow>
        (let expected = expected_positions (rc_oms rc);
             bps = positions_by_symbol ps;
             (ms, det, s) = check_symbols (rc_tolerance rc) (rc_orphan rc) ts expected bps (all_symbols expected bps) (rc_oms rc);
             rc1 = rc\<lparr>rc_oms := s, rc_alerted := rc_alerted rc \<inter> set ms\<rparr>
         in if ms = [] then ((0, False), rc1)
            else (let rc2 = rc1\<lparr>rc_kill := trip_reconciliation_break (rc_kill rc1)\<rparr>;
                      rc3 = (case rc_bus rc2 of
                          None \<Rightarrow> rc2
                        | Some bus \<Rightarrow>
                            (let fresh = filter (\<lambda>sy. sy \<notin> rc_alerted rc2) (take 5 ms);
                                 (alerted, bus') = publish_breaks fresh det (rc_alerted rc2) bus
                             in rc2\<lparr>rc_alerted := alerted, rc_bus := Some bus'\<rparr>))
                  in ((length ms, True), rc3))))"

subsection \<open>One pass\<close>

fun kill_state_str :: "kill_switch_state \<Rightarrow> string" where
  "kill_state_str OK = ''ok''"
| "kill_state_str DAILY_LOSS = ''daily_loss''"
| "kill_state_str DRAWDOWN_HALVED = ''drawdown_halved''"
| "kill_state_str DRAWDOWN_PAUSED = ''drawdown_paused''"
| "kill_state_str DRAWDOWN_LIQUIDATE = ''drawdown_liquidate''"
| "kill_state_str RECONCILIATION_BREAK = ''reconciliation_break''"
| "kill_state_str HEARTBEAT_MISSED = ''heartbeat_missed''"
| "kill_state_str BUDGET_EXHAUSTED = ''budget_exhausted''"

definition watch_heartbeat :: "datetime \<Rightarrow> reconciler \<Rightarrow> reconciler" where
  "watch_heartbeat ts rc =
     (let k = snd (check_heartbeat ts (rc_kill rc)); rc1 = rc\<lparr>rc_kill := k\<rparr> in
      if ks_state (rc_kill rc) = OK \<and> ks_state k = HEARTBEAT_MISSED
      then rc1\<lparr>rc_bus := map_option (\<lambda>b. b @ [HeartbeatMissed 0]) (rc_bus rc1)\<rparr> else rc1)"

definition announce_kill_state :: "bool \<Rightarrow> reconciler \<Rightarrow> reconciler" where
  "announce_kill_state tripped rc =
     (let new = ks_state (rc_kill rc) in
      case rc_bus rc of
        None \<Rightarrow> rc
      | Some bus \<Rightarrow>
          if new = rc_last rc then rc
          else rc\<lparr>rc_last := new, rc_bus := Some (bus @ [if new = OK then KillSwitchReset None
             else KillSwitchTripped None new (if tripped then ''reconciliation_break'' else kill_state_str new)])\<rparr>)"

definition reconcile_once ::
  "(string \<Rightarrow> exn + order_status) \<Rightarrow> exn + broker_position list \<Rightarrow> datetime \<Rightarrow> reconciler
    \<Rightarrow> (exn + reconcile_result) \<times> reconciler" where
  "reconcile_once get listed ts rc0 =
     (let rc = watch_heartbeat ts rc0; open_orders = list_open_orders (rc_oms rc) in
      case reconcile_orders get open_orders 0 (rc_oms rc) of
        (Inl e, s) \<Rightarrow> (Inl e, rc\<lparr>rc_oms := s\<rparr>)
      | (Inr updated, s) \<Rightarrow>
          (let ((mis, tripped), rc1) = reconcile_positions listed ts (rc\<lparr>rc_oms := s\<rparr>);
               rc2 = (if mis = 0 then rc1\<lparr>rc_kill := clear_reconciliation_break (rc_kill rc1)\<rparr> else rc1);
               rc3 = announce_kill_state tripped rc2
           in (Inr \<lparr>rr_checked = length open_orders, rr_updated = updated, rr_mismatches = mis,
                  rr_tripped = tripped\<rparr>, rc3)))"

subsection \<open>Adopted positions\<close>

lemma moved_orders:
  "om_orders s = dict_set oid ord d \<Longrightarrow>
   \<exists>x. om_orders (moved oid ord m ev ts s) = dict_set oid x d \<and> o_id x = o_id ord"
  by (cases "order_next (m_state m) ev") (auto simp: moved_def)

text \<open>A synthetic order never raises and adds one order with one fill.\<close>

lemma ghost_effect:
  "\<exists>ord f t. ghost pre side symb qty price agent ts s = (Inr (), t)
    \<and> om_orders t = dict_set (om_fresh s) ord (om_orders s) \<and> o_id ord = om_fresh s
    \<and> om_fills t = dict_set (om_fresh s) [f] (om_fills s)
    \<and> f_symbol f = symb \<and> f_side f = side \<and> f_qty f = qty \<and> om_fresh t = Suc (Suc (Suc (om_fresh s)))"
proof -
  let ?oid = "om_fresh s"
  let ?ord = "ghost_order ?oid (Suc ?oid) side symb qty agent ts"
  let ?f = "ghost_fill (Suc (Suc ?oid)) ?ord price ts"
  let ?s = "ghost_ready (pre @ uuid_text ?oid) ?ord ts (s\<lparr>om_fresh := Suc (Suc (Suc ?oid))\<rparr>)"
  let ?m = "stepped (stepped (order_machine PENDING) SUBMIT) ACCEPT"
  define cur where "cur = ?ord\<lparr>o_broker_order_id := Some (pre @ uuid_text ?oid), o_submitted_at := Some ts, o_state := ACCEPTED\<rparr>"
  have cur: "dict_get (om_orders ?s) ?oid = Some cur" "o_filled_avg_price cur = None" "o_id cur = ?oid"
      "om_orders ?s = dict_set ?oid cur (om_orders s)"
    by (simp_all add: ghost_ready_def cur_def ghost_order_def)
  have rest: "dict_get (om_fsms ?s) ?oid = Some ?m" "m_table ?m = order_table" "dict_get (om_fills ?s) ?oid = Some []"
      "om_fills ?s = dict_set ?oid [] (om_fills s)"
    by (simp_all add: ghost_ready_def ghost_order_def order_machine_def)
  have f: "canonical_fill cur ?f = ?f" by (simp add: canonical_fill_def cur_def ghost_fill_def ghost_order_def)
  let ?x = "filled_order cur ?f price ts"
  let ?t = "after_fill ?oid cur ?m [] ?f price ts ?s"
  have "\<exists>x. om_orders ?t = dict_set ?oid x (om_orders s) \<and> o_id x = o_id ?x"
    unfolding after_fill_def by (rule moved_orders) (simp add: cur(4))
  moreover have "o_id ?x = ?oid" by (simp add: filled_order_def cur(3))
  moreover have "om_fills ?t = dict_set ?oid [?f] (om_fills s)" by (simp add: after_fill_def rest(4))
  moreover have "f_symbol ?f = symb" "f_side ?f = side" "f_qty ?f = qty"
    by (simp_all add: ghost_fill_def ghost_order_def)
  moreover have "om_fresh ?t = Suc (Suc (Suc (om_fresh s)))" by (simp add: after_fill_def ghost_ready_def)
  moreover have "f_price ?f = price" by (simp add: ghost_fill_def)
  then have "ghost pre side symb qty price agent ts s = (Inr (), ?t\<lparr>om_bus := om_bus ?t @ [FillReceived ?f]\<rparr>)"
    by (simp add: ghost_run handle_fill_run [OF cur(1) rest(1-3)] f average_price_def cur(2) Let_def)
  ultimately show ?thesis by force
qed

lemma oms_fills_eq: "oms_fills s = concat (map (\<lambda>ord. dict_get_or (om_fills s) (o_id ord) []) (map snd (om_orders s)))"
  by (simp add: oms_fills_def get_fills_def list_orders_def)

definition ids_used :: "oms \<Rightarrow> bool" where
  "ids_used s \<longleftrightarrow> (\<forall>(k, ord)\<in>set (om_orders s). o_id ord = k \<and> k < om_fresh s)"

lemma ghost_fills:
  assumes "ids_used s" "ghost pre side symb qty price agent ts s = (r, t)"
  shows "r = Inr () \<and> ids_used t
    \<and> (\<exists>f. oms_fills t = oms_fills s @ [f] \<and> f_symbol f = symb \<and> f_side f = side \<and> f_qty f = qty)"
proof -
  let ?n = "om_fresh s"
  from ghost_effect [of pre side symb qty price agent ts s] assms(2) obtain ord f where
    t: "r = Inr ()" "om_orders t = dict_set ?n ord (om_orders s)" "o_id ord = ?n"
      "om_fills t = dict_set ?n [f] (om_fills s)" "om_fresh t = Suc (Suc (Suc ?n))" and f: "f_symbol f = symb" "f_side f = side" "f_qty f = qty"
    by auto
  have "?n \<notin> fst ` set (om_orders s)" using assms(1) by (force simp: ids_used_def)
  then have ords: "om_orders t = om_orders s @ [(?n, ord)]" by (simp add: t(2) dict_set_fresh)
  then have "ids_used t" using assms(1) t(3,5) by (force simp: ids_used_def)
  moreover note ords
  moreover have "concat (map (\<lambda>x. dict_get_or (om_fills t) (o_id (snd x)) []) (om_orders s)) = oms_fills s"
    unfolding oms_fills_eq map_map comp_def
    by (rule arg_cong [where f = concat], rule map_cong) (use assms(1) in \<open>auto simp: ids_used_def t(4) dict_get_or_def\<close>)
  moreover have "dict_get_or (om_fills t) ?n [] = [f]" by (simp add: t(4) dict_get_or_def)
  ultimately have "oms_fills t = oms_fills s @ [f]" unfolding oms_fills_eq [of t] by (simp add: comp_def t(3))
  with t(1) f \<open>ids_used t\<close> show ?thesis by blast
qed

lemma expected_get:
  "dict_get_or (expected_positions s) sy 0 = dict_get_or (foldl add_fill_qty [] (oms_fills s)) sy 0"
proof -
  have keys: "distinct (map fst (foldl add_fill_qty d fs))" if "distinct (map fst d)" for d fs
    using that by (induction fs arbitrary: d) (simp_all add: add_fill_qty_def)
  have "map_of (filter (\<lambda>(_, q). q \<noteq> 0) d) sy = (case map_of d sy of None \<Rightarrow> None | Some q \<Rightarrow> if q \<noteq> 0 then Some q else None)"
    if "distinct (map fst d)" for d :: "(symbol, decimal) dict"
    using that by (induction d) (auto simp: map_of_eq_None_iff split: option.splits intro: rev_image_eqI)
  from this [OF keys [of "[]"]] show ?thesis
    by (simp add: expected_positions_def dict_get_or_def split: option.split)
qed

lemma expected_snoc:
  assumes "oms_fills t = oms_fills s @ [f]"
  shows "dict_get_or (expected_positions t) sy 0 = (if sy = f_symbol f
    then dadd (dict_get_or (expected_positions s) sy 0) (signed_qty f) else dict_get_or (expected_positions s) sy 0)"
  by (simp add: expected_get assms add_fill_qty_def) (simp add: dict_get_or_def)

lemma adopted_position:
  assumes "ids_used s" "dict_get_or (expected_positions s) symb 0 = 0" "dround qty = qty"
    and "adopt_orphan_position symb qty price agent ts s = (r, t)"
  shows "r = Inr () \<and> ids_used t \<and> dict_get_or (expected_positions t) symb 0 = qty
    \<and> (\<forall>sy. sy \<noteq> symb \<longrightarrow> dict_get_or (expected_positions t) sy 0 = dict_get_or (expected_positions s) sy 0)"
proof -
  from ghost_fills [OF assms(1), of "''ghost-''" BUY symb qty price agent ts r t] assms(4) obtain f where
    f: "oms_fills t = oms_fills s @ [f]" "f_symbol f = symb" "f_side f = BUY" "f_qty f = qty" and "r = Inr ()" "ids_used t"
    by (auto simp: adopt_orphan_position_def)
  moreover have "dadd 0 (signed_qty f) = qty" using f assms(3) by (simp add: signed_qty_def dec_defs)
  ultimately show ?thesis using assms(2) by (simp add: expected_snoc [OF f(1)])
qed

subsection \<open>The walk over the symbols\<close>

definition broken :: "decimal \<Rightarrow> (symbol, decimal) dict \<Rightarrow> (symbol, broker_position) dict \<Rightarrow> symbol \<Rightarrow> bool" where
  "broken tol expected bps sy \<longleftrightarrow>
     \<not> within_tolerance tol (drift_of expected bps sy) \<and> \<not> adoptable (drift_of expected bps sy)"

lemma adopt_never_raises: "fst (adopt_orphan_position symb qty price agent ts s) = Inr ()"
  using ghost_effect [of "''ghost-''" BUY symb qty price agent ts s] by (auto simp: adopt_orphan_position_def)

lemma check_symbols_broken:
  "fst (check_symbols tol orphan ts expected bps sys s) = filter (broken tol expected bps) sys"
proof (induction sys arbitrary: s)
  case (Cons sy sys)
  let ?d = "drift_of expected bps sy"
  obtain s1 where "adopt_orphan_position sy (dr_broker ?d) (dr_price ?d) orphan ts s = (Inr (), s1)"
    using adopt_never_raises by (metis prod.collapse)
  with Cons show ?case by (simp add: Let_def broken_def case_prod_beta)
qed simp

lemma check_symbols_none:
  "\<forall>sy\<in>set sys. within_tolerance tol (drift_of expected bps sy) \<Longrightarrow>
   check_symbols tol orphan ts expected bps sys s = ([], [], s)"
  by (induction sys) (simp_all add: Let_def)

definition broken_symbols :: "broker_position list \<Rightarrow> reconciler \<Rightarrow> symbol list" where
  "broken_symbols ps rc = (let expected = expected_positions (rc_oms rc); bps = positions_by_symbol ps in
     filter (broken (rc_tolerance rc) expected bps) (all_symbols expected bps))"

lemma reconcile_positions_result:
  "fst (reconcile_positions (Inr ps) ts rc) = (length (broken_symbols ps rc), broken_symbols ps rc \<noteq> [])"
  "rc_kill (snd (reconcile_positions (Inr ps) ts rc)) =
     (if broken_symbols ps rc = [] then rc_kill rc else trip_reconciliation_break (rc_kill rc))"
  using check_symbols_broken [of "rc_tolerance rc" "rc_orphan rc" ts "expected_positions (rc_oms rc)"
      "positions_by_symbol ps" "all_symbols (expected_positions (rc_oms rc)) (positions_by_symbol ps)" "rc_oms rc"]
  by (auto simp: reconcile_positions_def Let_def case_prod_beta broken_symbols_def split: option.split)

text \<open>What the walk makes of the expected positions: every adoptable drift is closed.\<close>

definition adopts :: "decimal \<Rightarrow> drift \<Rightarrow> bool" where
  "adopts tol d \<longleftrightarrow> \<not> within_tolerance tol d \<and> adoptable d"

lemma check_symbols_expected:
  assumes "distinct sys" "ids_used s" "\<forall>sy\<in>set sys. dround (dr_broker (drift_of expected bps sy)) = dr_broker (drift_of expected bps sy)"
    and "\<forall>sy\<in>set sys. dict_get_or (expected_positions s) sy 0 = dict_get_or expected sy 0"
    and "check_symbols tol orphan ts expected bps sys s = (ms, det, t)"
  shows "dict_get_or (expected_positions t) x 0 =
    (if x \<in> set sys \<and> adopts tol (drift_of expected bps x) then dr_broker (drift_of expected bps x)
     else dict_get_or (expected_positions s) x 0)"
  using assms
proof (induction sys arbitrary: s ms det)
  case (Cons sy sys)
  let ?d = "drift_of expected bps sy"
  show ?case
  proof (cases "adopts tol ?d")
    case True
    obtain r s1 where s1: "adopt_orphan_position sy (dr_broker ?d) (dr_price ?d) orphan ts s = (r, s1)" by fastforce
    have "dict_get_or (expected_positions s) sy 0 = 0"
      using Cons.prems(4) True by (simp add: adopts_def adoptable_def drift_of_def Let_def)
    then have ad: "ids_used s1" "dict_get_or (expected_positions s1) sy 0 = dr_broker ?d"
        "\<And>z. z \<noteq> sy \<Longrightarrow> dict_get_or (expected_positions s1) z 0 = dict_get_or (expected_positions s) z 0"
      using adopted_position [OF Cons.prems(2) _ _ s1] Cons.prems(3) by auto
    then have "\<forall>z\<in>set sys. dict_get_or (expected_positions s1) z 0 = dict_get_or expected z 0"
      using Cons.prems(1,4) by fastforce
    obtain ms' det' where w: "check_symbols tol orphan ts expected bps sys s1 = (ms', det', t)"
      using Cons.prems(5) True s1 by (auto simp: adopts_def Let_def split: prod.splits)
    show ?thesis
      using Cons.IH [OF _ ad(1) _ \<open>\<forall>z\<in>set sys. _\<close> w] ad(2) ad(3) [of x] Cons.prems(1,3) True by (cases "x = sy") auto
  next
    case False
    obtain ms' det' where w: "check_symbols tol orphan ts expected bps sys s = (ms', det', t)"
      using Cons.prems(5) False by (auto simp: adopts_def Let_def split: prod.splits if_splits)
    show ?thesis using Cons.IH [OF _ _ _ _ w] Cons.prems(1-4) False by auto
  qed
qed simp

lemma within_zero: "0 < tol \<Longrightarrow> dr_qty d = 0 \<Longrightarrow> dr_dollars d = 0 \<Longrightarrow> within_tolerance tol d"
  by (simp add: within_tolerance_def dollar_tolerance_def)

lemma drift_zero:
  "dict_get_or expected sy 0 = (case dict_get bps sy of None \<Rightarrow> 0 | Some p \<Rightarrow> bp_qty p) \<Longrightarrow>
   0 < tol \<Longrightarrow> within_tolerance tol (drift_of expected bps sy)"
  by (rule within_zero) (simp_all add: drift_of_def Let_def dec_defs)

lemma drift_cong:
  "dict_get_or e sy 0 = dict_get_or e' sy 0 \<Longrightarrow> drift_of e bps sy = drift_of e' bps sy"
  by (simp add: drift_of_def)

lemma reconcile_positions_settles:
  assumes "ids_used (rc_oms rc)" "0 < rc_tolerance rc" "broken_symbols ps rc = []"
    and "\<forall>p\<in>set ps. dround (bp_qty p) = bp_qty p"
    and "reconcile_positions (Inr ps) ts rc = (res, rc')"
  shows "reconcile_positions (Inr ps) ts' rc' = ((0, False), rc')"
proof -
  let ?e = "expected_positions (rc_oms rc)" and ?b = "positions_by_symbol ps"
  let ?sys = "all_symbols ?e ?b"
  obtain ms det t where w: "check_symbols (rc_tolerance rc) (rc_orphan rc) ts ?e ?b ?sys (rc_oms rc) = (ms, det, t)"
    by (metis prod_cases3)
  have ms: "ms = []" using assms(3) w check_symbols_broken [of "rc_tolerance rc" "rc_orphan rc" ts ?e ?b ?sys "rc_oms rc"]
    by (simp add: broken_symbols_def Let_def)
  then have rc': "rc' = rc\<lparr>rc_oms := t, rc_alerted := {}\<rparr>"
    using assms(5) w by (auto simp: reconcile_positions_def Let_def)
  have get: "bp \<in> set ps" if "dict_get ?b sy = Some bp" for sy bp
  proof -
    have "dict_get (foldl (\<lambda>d p. dict_set (bp_symbol p) p d) d qs) sy = Some bp \<Longrightarrow> bp \<in> set qs \<or> dict_get d sy = Some bp" for d qs
      by (induction qs arbitrary: d) (fastforce split: if_splits)+
    with that show ?thesis by (fastforce simp: positions_by_symbol_def)
  qed
  have exp: "dict_get_or (expected_positions t) sy 0 =
    (if sy \<in> set ?sys \<and> adopts (rc_tolerance rc) (drift_of ?e ?b sy) then dr_broker (drift_of ?e ?b sy)
     else dict_get_or ?e sy 0)" for sy
    by (rule check_symbols_expected [OF _ assms(1) _ _ w])
      (use assms(4) get in \<open>auto simp: all_symbols_def drift_of_def Let_def split: option.split\<close>)
  have "within_tolerance (rc_tolerance rc) (drift_of (expected_positions t) ?b sy)" for sy
  proof (cases "sy \<in> set ?sys \<and> adopts (rc_tolerance rc) (drift_of ?e ?b sy)")
    case True
    with exp [of sy] have "dict_get_or (expected_positions t) sy 0 = dr_broker (drift_of ?e ?b sy)" by simp
    then show ?thesis by (intro drift_zero assms(2)) (simp add: drift_of_def Let_def)
  next
    case False
    then have "drift_of (expected_positions t) ?b sy = drift_of ?e ?b sy" by (intro drift_cong) (use False in \<open>auto simp: exp\<close>)
    moreover have "within_tolerance (rc_tolerance rc) (drift_of ?e ?b sy)"
    proof (cases "sy \<in> set ?sys")
      case True
      with assms(3) False show ?thesis by (auto simp: broken_symbols_def Let_def broken_def adopts_def filter_empty_conv)
    next
      case out: False
      then have "dict_get ?e sy = None" "dict_get ?b sy = None" by (auto simp: all_symbols_def map_of_eq_None_iff)
      then show ?thesis by (intro drift_zero assms(2)) (simp add: dict_get_or_def)
    qed
    ultimately show ?thesis by simp
  qed
  then show ?thesis by (simp add: reconcile_positions_def rc' check_symbols_none Let_def)
qed

subsection \<open>Properties\<close>

lemma trip_blocks [simp]:
  "ks_state (trip_reconciliation_break k) = RECONCILIATION_BREAK" "\<not> can_open_new (trip_reconciliation_break k)"
  by (simp_all add: trip_reconciliation_break_def can_open_new_def blocks_new_entries_def)

lemma announce_kill [simp]: "rc_kill (announce_kill_state b rc) = rc_kill rc"
  by (simp add: announce_kill_state_def Let_def split: option.split)

lemma watch_heartbeat_oms [simp]:
  "rc_oms (watch_heartbeat ts rc) = rc_oms rc" "rc_tolerance (watch_heartbeat ts rc) = rc_tolerance rc"
  by (simp_all add: watch_heartbeat_def Let_def)

lemma cleared: "ks_state (clear_reconciliation_break k) \<noteq> RECONCILIATION_BREAK"
  by (simp add: clear_reconciliation_break_def)

text \<open>
  C17 A pass that reads the broker's positions counts exactly the symbols that are outside the tolerance and
  cannot be adopted, after the open orders were polled; it ends with the reconciliation break
  set, and new entries blocked, if there is one, and without a break if there is none.
\<close>

theorem pass_blocks_iff_broken:
  assumes "reconcile_once get (Inr ps) ts rc = (Inr res, rc')"
  shows "\<exists>mid. reconcile_orders get (list_open_orders (rc_oms rc)) 0 (rc_oms rc) = (Inr (rr_updated res), mid)
    \<and> rr_mismatches res = length (broken_symbols ps (rc\<lparr>rc_oms := mid\<rparr>))
    \<and> (if rr_mismatches res = 0 then ks_state (rc_kill rc') \<noteq> RECONCILIATION_BREAK
       else ks_state (rc_kill rc') = RECONCILIATION_BREAK \<and> \<not> can_open_new (rc_kill rc'))"
proof -
  obtain r mid where o: "reconcile_orders get (list_open_orders (rc_oms rc)) 0 (rc_oms rc) = (r, mid)" by fastforce
  with assms obtain n where r: "r = Inr n"
    by (cases r) (auto simp: reconcile_once_def Let_def)
  let ?rc = "(watch_heartbeat ts rc)\<lparr>rc_oms := mid\<rparr>"
  obtain mis tr rc1 where p: "reconcile_positions (Inr ps) ts ?rc = ((mis, tr), rc1)" by (metis prod.collapse)
  from assms o r p have res: "rr_updated res = n" "rr_mismatches res = mis"
    "rc_kill rc' = (if mis = 0 then clear_reconciliation_break (rc_kill rc1) else rc_kill rc1)"
    by (auto simp: reconcile_once_def Let_def)
  have "broken_symbols ps ?rc = broken_symbols ps (rc\<lparr>rc_oms := mid\<rparr>)" by (simp add: broken_symbols_def)
  with reconcile_positions_result [of ps ts ?rc] p have "mis = length (broken_symbols ps (rc\<lparr>rc_oms := mid\<rparr>))"
    "mis \<noteq> 0 \<Longrightarrow> rc_kill rc1 = trip_reconciliation_break (rc_kill ?rc)" by auto
  with o r res show ?thesis by (auto simp: cleared)
qed

text \<open>A reconciler over the small run, with a broker that holds one symbol.\<close>

definition sample_reconciler :: reconciler where
  "sample_reconciler = new_reconciler sample_oms (new_engine 600) qty_tolerance_default True HAIKU"

definition sample_position :: "decimal \<Rightarrow> broker_position" where
  "sample_position q = \<lparr>bp_symbol = ''QQQ'', bp_qty = q, bp_avg_entry_price = 50, bp_current_price = 50,
     bp_asset_class = EQUITY\<rparr>"

lemma sample_expected: "expected_positions sample_oms = []"
  by (simp add: expected_positions_def oms_fills_eq sample_oms_order dict_get_or_def)

lemma sample_drift:
  "drift_of [] (positions_by_symbol [sample_position q]) ''QQQ'' =
     \<lparr>dr_ours = 0, dr_broker = q, dr_price = 50, dr_qty = dabs (dsub 0 q), dr_dollars = dmul (dabs (dsub 0 q)) 50\<rparr>"
  by (simp add: drift_of_def positions_by_symbol_def sample_position_def dict_get_or_def Let_def)

lemma sample_broken: "broken_symbols [sample_position q] (sample_reconciler\<lparr>rc_oms := sample_oms\<rparr>) =
    (if within_tolerance 1 (drift_of [] (positions_by_symbol [sample_position q]) ''QQQ'') \<or> 0 < q then [] else [''QQQ''])"
proof -
  have "map fst (positions_by_symbol [sample_position q]) = [''QQQ'']"
    by (simp add: positions_by_symbol_def sample_position_def)
  then show ?thesis
    by (simp add: broken_symbols_def sample_expected Let_def all_symbols_def broken_def sample_drift adoptable_def
        sample_reconciler_def new_reconciler_def qty_tolerance_default_def)
qed

theorem pass_blocks_iff_broken_witness:
  "\<exists>res rc'. reconcile_once (\<lambda>_. Inl BrokerUnavailable) (Inr [sample_position (- 4)]) 7 sample_reconciler = (Inr res, rc')
    \<and> rr_mismatches res = 1 \<and> \<not> can_open_new (rc_kill rc')"
proof -
  have ords: "reconcile_orders (\<lambda>_. Inl BrokerUnavailable) ords n s = (Inr n, s)" for ords n s
    by (induction ords arbitrary: n) (simp_all add: ret_def split: option.split)
  obtain r rc' where r: "reconcile_once (\<lambda>_. Inl BrokerUnavailable) (Inr [sample_position (- 4)]) 7 sample_reconciler = (r, rc')"
    by fastforce
  then obtain res where res: "r = Inr res" by (auto simp: reconcile_once_def ords Let_def split: prod.splits)
  from pass_blocks_iff_broken [OF r [unfolded res]] ords
  have "rr_mismatches res = length (broken_symbols [sample_position (- 4)] (sample_reconciler\<lparr>rc_oms := sample_oms\<rparr>))"
    "rr_mismatches res \<noteq> 0 \<longrightarrow> \<not> can_open_new (rc_kill rc')"
    by (auto simp: sample_reconciler_def new_reconciler_def)
  moreover have "\<not> within_tolerance 1 (drift_of [] (positions_by_symbol [sample_position (- 4)]) ''QQQ'')"
    by (simp add: sample_drift within_tolerance_def dec_eval)
  ultimately show ?thesis using r res by (simp add: sample_broken)
qed

lemma sample_ready:
  "ids_used (rc_oms sample_reconciler)" "0 < rc_tolerance sample_reconciler"
  "\<forall>p\<in>set [sample_position 4]. dround (bp_qty p) = bp_qty p"
  by (simp_all add: sample_reconciler_def new_reconciler_def ids_used_def sample_oms_order sample_accepted_def
      sample_order_def qty_tolerance_default_def sample_position_def dround_small)

text \<open>
  C10 Let the tolerance be positive, no symbol be broken (each drift either within the tolerance or a long position
  that only the broker holds), the broker's quantities have at most 28 digits, and the ids of the order system lie
  below its source of fresh ids. Then one pass over the positions adopts what only the broker holds, and a second
  pass with the same answer finds the books in agreement and changes nothing.
\<close>

theorem adoption_settles_the_books:
  assumes "ids_used (rc_oms rc)" "0 < rc_tolerance rc" "broken_symbols ps rc = []"
    and "\<forall>p\<in>set ps. dround (bp_qty p) = bp_qty p"
    and "reconcile_positions (Inr ps) ts rc = (res, rc')"
  shows "res = (0, False) \<and> reconcile_positions (Inr ps) ts' rc' = ((0, False), rc')"
  using reconcile_positions_settles [OF assms] reconcile_positions_result(1) [of ps ts rc] assms(3,5) by simp

theorem adoption_settles_the_books_witness:
  "\<exists>rc'. snd (reconcile_positions (Inr [sample_position 4]) 7 sample_reconciler) = rc'
    \<and> reconcile_positions (Inr [sample_position 4]) 8 rc' = ((0, False), rc')"
proof -
  have "broken_symbols [sample_position 4] sample_reconciler = []"
    using sample_broken [of 4] by (simp add: sample_reconciler_def new_reconciler_def)
  then have "reconcile_positions (Inr [sample_position 4]) 8 (snd (reconcile_positions (Inr [sample_position 4]) 7 sample_reconciler))
      = ((0, False), snd (reconcile_positions (Inr [sample_position 4]) 7 sample_reconciler))"
    using adoption_settles_the_books [of sample_reconciler "[sample_position 4]" 7 _ _ 8]
    by (metis prod.collapse sample_ready)
  then show ?thesis by simp
qed

text \<open>
  A pass in which the broker's positions cannot be read counts as a pass without mismatch: a
  reconciliation break set before is cleared, and new entries are allowed again.
\<close>

lemma outage_clears_the_break:
  assumes "ks_state (rc_kill rc) = RECONCILIATION_BREAK" "fst (check_heartbeat ts (rc_kill rc))"
    and "reconcile_once get (Inl e) ts rc = (Inr res, rc')"
  shows "rr_mismatches res = 0 \<and> ks_state (rc_kill rc') = OK \<and> can_open_new (rc_kill rc')"
proof -
  have k: "snd (check_heartbeat ts (rc_kill rc)) = rc_kill rc"
    using assms(2) by (auto simp: check_heartbeat_def split: option.splits if_splits)
  have "rc_kill (watch_heartbeat ts rc) = rc_kill rc" by (simp add: watch_heartbeat_def k Let_def)
  then show ?thesis
    using assms(1,3) by (auto simp: reconcile_once_def reconcile_positions_def Let_def clear_reconciliation_break_def
        can_open_new_def blocks_new_entries_def split: prod.splits sum.splits)
qed

lemma outage_clears_the_break_example:
  "let rc = sample_reconciler\<lparr>rc_kill := trip_reconciliation_break (new_engine 600)\<rparr>
   in can_open_new (rc_kill (snd (reconcile_once (\<lambda>_. Inl BrokerUnavailable) (Inl BrokerUnavailable) 7 rc)))"
proof -
  let ?rc = "sample_reconciler\<lparr>rc_kill := trip_reconciliation_break (new_engine 600)\<rparr>"
  have ords: "reconcile_orders (\<lambda>_. Inl BrokerUnavailable) ords n s = (Inr n, s)" for ords n s
    by (induction ords arbitrary: n) (simp_all add: ret_def split: option.split)
  obtain r rc' where r: "reconcile_once (\<lambda>_. Inl BrokerUnavailable) (Inl BrokerUnavailable) 7 ?rc = (r, rc')" by fastforce
  then obtain res where res: "r = Inr res" by (auto simp: reconcile_once_def ords Let_def split: prod.splits)
  have "fst (check_heartbeat 7 (rc_kill ?rc))"
    by (simp add: check_heartbeat_def trip_reconciliation_break_def new_engine_def)
  with outage_clears_the_break [OF _ _ r [unfolded res]] r show ?thesis by simp
qed

text \<open>
  When the broker reports an order as cancelled after filling part of it, polling closes the order without
  the part that was missed: its filled quantity and its fills stay as they were, and no later poll looks at it again.
\<close>

lemma cancelled_fill_is_dropped:
  assumes "in_state oid {SUBMITTED, ACCEPTED, PARTIAL} s" "get_order oid s = Some ord"
    and "bs_client_id st = oid" "bs_state st = B_CANCELED"
  shows "\<exists>t. poll_order ord st s = (Inr (), t) \<and> get_order oid t = Some (ord\<lparr>o_state := CANCELLED\<rparr>)
    \<and> get_fills oid t = get_fills oid s \<and> \<not> status_requires_update CANCELLED b"
proof -
  have ord: "dict_get (om_orders s) oid = Some ord" using assms(2) by (simp add: get_order_def)
  with assms(1) have live: "o_state ord \<in> {SUBMITTED, ACCEPTED, PARTIAL}" "oms_wf s" by (auto simp: in_state_def)
  obtain m where m: "dict_get (om_fsms s) oid = Some m" "m_table m = order_table" "m_state m = o_state ord"
    using oms_wfD [OF live(2) ord] by metis
  have "poll_order ord st s = handle_cancellation oid (bs_updated_at st) s"
    using assms(3,4) ord by (simp add: poll_order_def Let_def on_broker_event_def polled_event_def)
  then show ?thesis
    using live(1) ord m
    by (auto simp: handle_cancellation_run [OF ord m(1,2)] moved_def get_order_def get_fills_def status_requires_update_def)
qed

lemma cancelled_fill_is_dropped_example:
  "\<exists>t. poll_order sample_accepted (sample_status B_CANCELED 1) sample_oms = (Inr (), t)
    \<and> get_order 1 t = Some (sample_accepted\<lparr>o_state := CANCELLED\<rparr>) \<and> o_filled_qty sample_accepted = 0"
  using cancelled_fill_is_dropped [of 1 sample_oms sample_accepted "sample_status B_CANCELED 1"] sample_oms_wf
  by (auto simp: in_state_def get_order_def sample_oms_order sample_status_def)
    (auto simp: sample_accepted_def sample_order_def)

end
