(* ===== verification/Fake_Broker.thy ===== *)
theory Fake_Broker
  imports Broker
begin

text \<open>
  The deterministic in-memory broker of \<^verbatim>\<open>execution/fake_broker.py\<close>, which runs the system
  offline. \<open>fb_now\<close> is its clock, \<open>fb_next\<close> the source of fresh ids. Events reach the registered callback while the
  reentrant lock is held; they are returned in the order they are fired.
\<close>

datatype fill_mode = INSTANT | MANUAL | REJECT_MODE | PARTIAL_THEN_HOLD

record broker_order =
  fr_status :: order_status
  fr_fills :: "fill list"
  fr_agent :: agent_id
  fr_limit :: "decimal option"

record fake_broker =
  fb_now :: datetime
  fb_next :: uuid
  fb_mode :: fill_mode
  fb_starting :: decimal
  fb_cash :: decimal
  fb_orders :: "(string, broker_order) dict"
  fb_client :: "(order_id, string) dict"
  fb_positions :: "(symbol, broker_position) dict"
  fb_prices :: "(symbol, decimal) dict"
  fb_callback :: bool
  fb_fail_submit :: "exn option"
  fb_fail_cancel :: "exn option"

definition new_fake_broker :: "datetime \<Rightarrow> fill_mode \<Rightarrow> decimal \<Rightarrow> fake_broker" where
  "new_fake_broker now mode cash = \<lparr>fb_now = now, fb_next = 0, fb_mode = mode, fb_starting = cash,
     fb_cash = cash, fb_orders = [], fb_client = [], fb_positions = [], fb_prices = [],
     fb_callback = False, fb_fail_submit = None, fb_fail_cancel = None\<rparr>"

subsection \<open>Filling\<close>

definition price_for :: "symbol \<Rightarrow> decimal option \<Rightarrow> fake_broker \<Rightarrow> decimal" where
  "price_for s fallback b = (case dict_get (fb_prices b) s of
       Some p \<Rightarrow> p
     | None \<Rightarrow> (case fallback of Some p \<Rightarrow> p | None \<Rightarrow> 100))"

definition emit :: "order_event_msg \<Rightarrow> fake_broker \<Rightarrow> order_event_msg list" where
  "emit e b = (if fb_callback b then [e] else [])"

definition apply_fill_to_account ::
  "symbol \<Rightarrow> order_side \<Rightarrow> decimal \<Rightarrow> decimal \<Rightarrow> fake_broker \<Rightarrow> exn + fake_broker" where
  "apply_fill_to_account s side qty price b =
     (let signed = (if side = BUY then qty else dneg qty);
          b1 = b\<lparr>fb_cash := dsub (fb_cash b) (dmul signed price)\<rparr>
      in case dict_get (fb_positions b1) s of
        None \<Rightarrow>
          if signed = 0 then Inr b1
          else Inr (b1\<lparr>fb_positions := dict_set s \<lparr>bp_symbol = s, bp_qty = signed,
                 bp_avg_entry_price = price, bp_current_price = price, bp_asset_class = EQUITY\<rparr>
                 (fb_positions b1)\<rparr>)
      | Some old \<Rightarrow>
          (let new_qty = dadd (bp_qty old) signed in
           if new_qty = 0 then Inr (b1\<lparr>fb_positions := dict_del s (fb_positions b1)\<rparr>)
           else bindr (if (0 < bp_qty old \<and> 0 < signed) \<or> (bp_qty old < 0 \<and> signed < 0)
                       then ddiv_chk (dadd (dmul (bp_avg_entry_price old) (bp_qty old)) (dmul price signed)) new_qty
                       else Inr (bp_avg_entry_price old)) (\<lambda>avg.
                Inr (b1\<lparr>fb_positions := dict_set s (old\<lparr>bp_qty := new_qty, bp_avg_entry_price := avg,
                       bp_current_price := price\<rparr>) (fb_positions b1)\<rparr>))))"

definition is_full :: "broker_order \<Rightarrow> decimal \<Rightarrow> bool" where
  "is_full rec qty = (bs_qty (fr_status rec) \<le> dadd (bs_filled_qty (fr_status rec)) qty)"

definition new_fill :: "broker_order \<Rightarrow> decimal \<Rightarrow> decimal \<Rightarrow> fake_broker \<Rightarrow> fill" where
  "new_fill rec qty price b = (let st = fr_status rec in
     \<lparr>f_id = fb_next b, f_order_id = bs_client_id st, f_agent_id = fr_agent rec,
      f_symbol = bs_symbol st, f_side = bs_side st, f_qty = qty, f_price = price,
      f_timestamp = fb_now b, f_commission = 0, f_is_partial = (\<not> is_full rec qty)\<rparr>)"

definition filled_record :: "broker_order \<Rightarrow> decimal \<Rightarrow> decimal \<Rightarrow> decimal \<Rightarrow> fake_broker \<Rightarrow> broker_order" where
  "filled_record rec qty price new_avg b =
     rec\<lparr>fr_status := (fr_status rec)\<lparr>bs_filled_qty := dadd (bs_filled_qty (fr_status rec)) qty,
           bs_avg_fill_price := Some new_avg,
           bs_state := (if is_full rec qty then B_FILLED else B_PARTIALLY_FILLED),
           bs_updated_at := fb_now b\<rparr>,
         fr_fills := fr_fills rec @ [new_fill rec qty price b]\<rparr>"

text \<open>The event of the fill is fired once the order, its fills and the account are updated.\<close>

definition record_fill ::
  "string \<Rightarrow> broker_order \<Rightarrow> decimal \<Rightarrow> decimal \<Rightarrow> fake_broker \<Rightarrow> exn + order_event_msg list \<times> fake_broker" where
  "record_fill bid rec qty price b =
     (let st = fr_status rec; new_filled = dadd (bs_filled_qty st) qty in
      bindr (case bs_avg_fill_price st of
               None \<Rightarrow> Inr price
             | Some avg \<Rightarrow> ddiv_chk (dadd (dmul avg (bs_filled_qty st)) (dmul price qty)) new_filled) (\<lambda>new_avg.
      bindr (apply_fill_to_account (bs_symbol st) (bs_side st) qty price
               (b\<lparr>fb_orders := dict_set bid (filled_record rec qty price new_avg b) (fb_orders b),
                  fb_next := Suc (fb_next b)\<rparr>)) (\<lambda>b2.
        Inr (emit \<lparr>be_broker_id = bs_broker_id st, be_client_id = bs_client_id st,
                   be_state = (if is_full rec qty then B_FILLED else B_PARTIALLY_FILLED),
                   be_fill = Some (new_fill rec qty price b), be_reason = None,
                   be_timestamp = Some (fb_now b)\<rparr> b2, b2))))"

subsection \<open>The test knobs\<close>

definition set_fill_mode :: "fill_mode \<Rightarrow> fake_broker \<Rightarrow> fake_broker" where
  "set_fill_mode m b = b\<lparr>fb_mode := m\<rparr>"

definition set_price :: "symbol \<Rightarrow> decimal \<Rightarrow> fake_broker \<Rightarrow> fake_broker" where
  "set_price s p b = b\<lparr>fb_prices := dict_set s p (fb_prices b)\<rparr>"

definition inject_submit_failure :: "exn \<Rightarrow> fake_broker \<Rightarrow> fake_broker" where
  "inject_submit_failure e b = b\<lparr>fb_fail_submit := Some e\<rparr>"

definition inject_cancel_failure :: "exn \<Rightarrow> fake_broker \<Rightarrow> fake_broker" where
  "inject_cancel_failure e b = b\<lparr>fb_fail_cancel := Some e\<rparr>"

definition client_record :: "order_id \<Rightarrow> fake_broker \<Rightarrow> exn + string \<times> broker_order" where
  "client_record oid b = (case dict_get (fb_client b) oid of
       None \<Rightarrow> Inl KeyError
     | Some bid \<Rightarrow> (case dict_get (fb_orders b) bid of None \<Rightarrow> Inl KeyError | Some rec \<Rightarrow> Inr (bid, rec)))"

definition force_full_fill ::
  "order_id \<Rightarrow> decimal option \<Rightarrow> fake_broker \<Rightarrow> exn + order_event_msg list \<times> fake_broker" where
  "force_full_fill oid price b = bindr (client_record oid b) (\<lambda>(bid, rec).
     let rest = dsub (bs_qty (fr_status rec)) (bs_filled_qty (fr_status rec)) in
     if rest \<le> 0 then Inr ([], b)
     else record_fill bid rec rest
       (case price of Some p \<Rightarrow> p | None \<Rightarrow> price_for (bs_symbol (fr_status rec)) None b) b)"

definition force_partial_fill ::
  "order_id \<Rightarrow> decimal \<Rightarrow> decimal option \<Rightarrow> fake_broker \<Rightarrow> exn + order_event_msg list \<times> fake_broker" where
  "force_partial_fill oid qty price b = bindr (client_record oid b) (\<lambda>(bid, rec).
     let rest = dsub (bs_qty (fr_status rec)) (bs_filled_qty (fr_status rec)) in
     if rest < qty then Inl ValueError
     else record_fill bid rec qty
       (case price of Some p \<Rightarrow> p | None \<Rightarrow> price_for (bs_symbol (fr_status rec)) None b) b)"

definition force_reject :: "order_id \<Rightarrow> string \<Rightarrow> fake_broker \<Rightarrow> exn + order_event_msg list \<times> fake_broker" where
  "force_reject oid reason b = bindr (client_record oid b) (\<lambda>(bid, rec).
     let rec' = rec\<lparr>fr_status := (fr_status rec)\<lparr>bs_state := B_REJECTED, bs_rejection_reason := Some reason,
                  bs_updated_at := fb_now b\<rparr>\<rparr>;
         b1 = b\<lparr>fb_orders := dict_set bid rec' (fb_orders b)\<rparr>
     in Inr (emit \<lparr>be_broker_id = bid, be_client_id = oid, be_state = B_REJECTED, be_fill = None,
               be_reason = Some reason, be_timestamp = Some (fb_now b)\<rparr> b1, b1))"

definition fb_open_orders :: "fake_broker \<Rightarrow> order_status list" where
  "fb_open_orders b = filter (\<lambda>s. bs_state s \<in> {B_NEW, B_ACCEPTED, B_PARTIALLY_FILLED})
     (map (fr_status \<circ> snd) (fb_orders b))"

definition all_fills :: "fake_broker \<Rightarrow> fill list" where
  "all_fills b = concat (map (fr_fills \<circ> snd) (fb_orders b))"

subsection \<open>The protocol\<close>

definition new_status :: "order \<Rightarrow> string \<Rightarrow> broker_order_state \<Rightarrow> string option \<Rightarrow> fake_broker \<Rightarrow> order_status" where
  "new_status ord bid st reason b = \<lparr>bs_broker_id = bid, bs_client_id = o_id ord, bs_symbol = o_symbol ord,
     bs_side = o_side ord, bs_qty = o_qty ord, bs_filled_qty = 0, bs_avg_fill_price = None, bs_state = st,
     bs_submitted_at = fb_now b, bs_updated_at = fb_now b, bs_rejection_reason = reason\<rparr>"

definition reject_reason :: string where "reject_reason = ''fake_broker REJECT mode''"

definition open_record :: "order \<Rightarrow> string \<Rightarrow> broker_order_state \<Rightarrow> string option \<Rightarrow> fake_broker \<Rightarrow> fake_broker" where
  "open_record ord bid st reason b =
     b\<lparr>fb_next := Suc (fb_next b), fb_client := dict_set (o_id ord) bid (fb_client b),
       fb_orders := dict_set bid \<lparr>fr_status = new_status ord bid st reason b, fr_fills = [],
         fr_agent = o_agent_id ord, fr_limit = o_limit_price ord\<rparr> (fb_orders b)\<rparr>"

text \<open>The automatic fill of a fresh order; its first fill involves no division, so it does not raise.\<close>

definition auto_fill :: "order \<Rightarrow> string \<Rightarrow> fake_broker \<Rightarrow> exn + order_event_msg list \<times> fake_broker" where
  "auto_fill ord bid b = (case dict_get (fb_orders b) bid of
       None \<Rightarrow> Inl KeyError
     | Some rec \<Rightarrow> (case fb_mode b of
           INSTANT \<Rightarrow> record_fill bid rec (o_qty ord) (price_for (o_symbol ord) (o_limit_price ord) b) b
         | PARTIAL_THEN_HOLD \<Rightarrow>
             record_fill bid rec (ddiv (o_qty ord) 2) (price_for (o_symbol ord) (o_limit_price ord) b) b
         | _ \<Rightarrow> Inr ([], b)))"

definition fb_submit_order :: "order \<Rightarrow> fake_broker \<Rightarrow> (exn + string) \<times> order_event_msg list \<times> fake_broker" where
  "fb_submit_order ord b = (case fb_fail_submit b of
       Some e \<Rightarrow> (Inl e, [], b\<lparr>fb_fail_submit := None\<rparr>)
     | None \<Rightarrow> (case dict_get (fb_client b) (o_id ord) of
         Some bid \<Rightarrow> (Inr bid, [], b)
       | None \<Rightarrow>
          (let bid = uuid_text (fb_next b) in
           if fb_mode b = REJECT_MODE then
             (let b1 = open_record ord bid B_REJECTED (Some reject_reason) b
              in (Inl (BrokerRejection reject_reason),
                  emit \<lparr>be_broker_id = bid, be_client_id = o_id ord, be_state = B_REJECTED, be_fill = None,
                    be_reason = Some reject_reason, be_timestamp = Some (fb_now b)\<rparr> b1, b1))
           else
             (let b1 = open_record ord bid B_ACCEPTED None b;
                  evs = emit \<lparr>be_broker_id = bid, be_client_id = o_id ord, be_state = B_ACCEPTED, be_fill = None,
                    be_reason = None, be_timestamp = Some (fb_now b)\<rparr> b1
              in case auto_fill ord bid b1 of
                   Inl e \<Rightarrow> (Inl e, evs, b1)
                 | Inr (evs', b2) \<Rightarrow> (Inr bid, evs @ evs', b2)))))"

definition fb_cancel_order :: "string \<Rightarrow> fake_broker \<Rightarrow> (exn + unit) \<times> order_event_msg list \<times> fake_broker" where
  "fb_cancel_order bid b = (case fb_fail_cancel b of
       Some e \<Rightarrow> (Inl e, [], b\<lparr>fb_fail_cancel := None\<rparr>)
     | None \<Rightarrow> (case dict_get (fb_orders b) bid of
         None \<Rightarrow> (Inl BrokerUnavailable, [], b)
       | Some rec \<Rightarrow>
          if broker_terminal (bs_state (fr_status rec)) then (Inr (), [], b)
          else (let b1 = b\<lparr>fb_orders := dict_set bid (rec\<lparr>fr_status := (fr_status rec)\<lparr>bs_state := B_CANCELED,
                       bs_updated_at := fb_now b\<rparr>\<rparr>) (fb_orders b)\<rparr>
                in (Inr (), emit \<lparr>be_broker_id = bid, be_client_id = bs_client_id (fr_status rec),
                      be_state = B_CANCELED, be_fill = None, be_reason = None,
                      be_timestamp = Some (fb_now b)\<rparr> b1, b1))))"

definition fb_get_order :: "string \<Rightarrow> fake_broker \<Rightarrow> exn + order_status" where
  "fb_get_order bid b = (case dict_get (fb_orders b) bid of
       None \<Rightarrow> Inl BrokerUnavailable | Some rec \<Rightarrow> Inr (fr_status rec))"

definition find_by_client_id :: "order_id \<Rightarrow> fake_broker \<Rightarrow> order_status option" where
  "find_by_client_id oid b = (case dict_get (fb_client b) oid of
       None \<Rightarrow> None | Some bid \<Rightarrow> map_option fr_status (dict_get (fb_orders b) bid))"

definition fb_list_positions :: "fake_broker \<Rightarrow> broker_position list" where
  "fb_list_positions b = map snd (fb_positions b)"

definition get_account :: "fake_broker \<Rightarrow> broker_account" where
  "get_account b = \<lparr>ba_cash = fb_cash b,
     ba_equity = dadd (fb_cash b) (dsum (map (\<lambda>p. dmul (bp_qty p) (bp_current_price p)) (fb_list_positions b))),
     ba_buying_power = dmul (fb_cash b) 2, ba_pattern_day_trader = False, ba_daytrade_count = 0\<rparr>"

definition register_event_callback :: "fake_broker \<Rightarrow> fake_broker" where
  "register_event_callback b = b\<lparr>fb_callback := True\<rparr>"

subsection \<open>The books of the broker\<close>

text \<open>The two indexes agree: each client id leads to the record kept under its broker id.\<close>

definition index_ok :: "fake_broker \<Rightarrow> bool" where
  "index_ok b \<longleftrightarrow>
     (\<forall>oid bid. dict_get (fb_client b) oid = Some bid \<longrightarrow>
        (\<exists>rec. dict_get (fb_orders b) bid = Some rec \<and> bs_broker_id (fr_status rec) = bid
           \<and> bs_client_id (fr_status rec) = oid))
     \<and> (\<forall>bid rec. dict_get (fb_orders b) bid = Some rec \<longrightarrow> bs_broker_id (fr_status rec) = bid
           \<and> dict_get (fb_client b) (bs_client_id (fr_status rec)) = Some bid
           \<and> (\<exists>n<fb_next b. bid = uuid_text n))"

lemma index_okD:
  assumes "index_ok b"
  shows "dict_get (fb_client b) oid = Some bid \<Longrightarrow>
      \<exists>rec. dict_get (fb_orders b) bid = Some rec \<and> bs_broker_id (fr_status rec) = bid
           \<and> bs_client_id (fr_status rec) = oid"
    and "dict_get (fb_orders b) bid = Some rec \<Longrightarrow> bs_broker_id (fr_status rec) = bid
           \<and> dict_get (fb_client b) (bs_client_id (fr_status rec)) = Some bid
           \<and> (\<exists>n<fb_next b. bid = uuid_text n)"
  using assms by (auto simp: index_ok_def)

lemma index_ok_update:
  assumes ok: "index_ok b" and rec: "dict_get (fb_orders b) bid = Some rec"
    and rec': "bs_broker_id (fr_status rec') = bs_broker_id (fr_status rec)"
      "bs_client_id (fr_status rec') = bs_client_id (fr_status rec)"
    and b': "fb_orders b' = dict_set bid rec' (fb_orders b)" "fb_client b' = fb_client b" "fb_next b \<le> fb_next b'"
  shows "index_ok b'"
  unfolding index_ok_def
proof (intro conjI allI impI)
  fix oid x assume "dict_get (fb_client b') oid = Some x"
  then show "\<exists>r. dict_get (fb_orders b') x = Some r \<and> bs_broker_id (fr_status r) = x \<and> bs_client_id (fr_status r) = oid"
    using index_okD(1) [OF ok, of oid x] rec rec' b' by (cases "x = bid") auto
next
  fix x r assume "dict_get (fb_orders b') x = Some r"
  then have "\<exists>r0. dict_get (fb_orders b) x = Some r0 \<and> bs_broker_id (fr_status r) = bs_broker_id (fr_status r0)
      \<and> bs_client_id (fr_status r) = bs_client_id (fr_status r0)"
    using rec rec' b' by (cases "x = bid") auto
  then obtain r0 where r0: "dict_get (fb_orders b) x = Some r0"
    "bs_broker_id (fr_status r) = bs_broker_id (fr_status r0)" "bs_client_id (fr_status r) = bs_client_id (fr_status r0)" by blast
  note * = index_okD(2) [OF ok r0(1)]
  show "bs_broker_id (fr_status r) = x" "dict_get (fb_client b') (bs_client_id (fr_status r)) = Some x"
    using * r0 b' by simp_all
  show "\<exists>n<fb_next b'. x = uuid_text n" using * b'(3) by (meson order_less_le_trans)
qed

lemma apply_fill_frame [frame]:
  assumes "apply_fill_to_account s side q p b = Inr b'"
  shows "fb_orders b' = fb_orders b" "fb_client b' = fb_client b" "fb_next b' = fb_next b"
    "fb_fail_submit b' = fb_fail_submit b" "fb_callback b' = fb_callback b" "fb_now b' = fb_now b"
  using assms by (auto simp: apply_fill_to_account_def Let_def bindr_Inr_iff split: option.splits if_splits)

lemma record_fill_index:
  assumes "index_ok b" "dict_get (fb_orders b) bid = Some rec" "record_fill bid rec q p b = Inr (evs, b')"
  shows "index_ok b' \<and> fb_client b' = fb_client b"
proof -
  from assms(3) obtain avg b1 where b1: "b1 = b\<lparr>fb_orders := dict_set bid (filled_record rec q p avg b) (fb_orders b),
        fb_next := Suc (fb_next b)\<rparr>"
    and acc: "apply_fill_to_account (bs_symbol (fr_status rec)) (bs_side (fr_status rec)) q p b1 = Inr b'"
    by (auto simp: record_fill_def Let_def bindr_Inr_iff)
  have "index_ok b'"
    by (rule index_ok_update [OF assms(1,2), of "filled_record rec q p avg b"])
      (simp_all add: apply_fill_frame [OF acc] b1 filled_record_def)
  then show ?thesis by (simp add: apply_fill_frame [OF acc] b1)
qed

lemma open_record_index:
  assumes "index_ok b" "dict_get (fb_client b) (o_id ord) = None" "bid = uuid_text (fb_next b)"
  shows "index_ok (open_record ord bid st reason b)"
proof -
  have "dict_get (fb_orders b) bid = None"
  proof (rule ccontr)
    assume "dict_get (fb_orders b) bid \<noteq> None"
    with assms(1) obtain n where "n < fb_next b" "bid = uuid_text n" unfolding index_ok_def by blast
    with assms(3) uuid_text_inj show False by blast
  qed
  then have fresh: "dict_get (fb_orders b) x = Some r \<Longrightarrow> x \<noteq> bid" for x r by auto
  have known: "dict_get (fb_client b) oid = Some x \<Longrightarrow> oid \<noteq> o_id ord" for oid x using assms(2) by auto
  show ?thesis
    unfolding index_ok_def
  proof (intro conjI allI impI)
    fix oid x assume "dict_get (fb_client (open_record ord bid st reason b)) oid = Some x"
    then show "\<exists>r. dict_get (fb_orders (open_record ord bid st reason b)) x = Some r
        \<and> bs_broker_id (fr_status r) = x \<and> bs_client_id (fr_status r) = oid"
      using index_okD(1) [OF assms(1), of oid x] fresh
      by (cases "oid = o_id ord") (auto simp: open_record_def new_status_def)
  next
    fix x r assume *: "dict_get (fb_orders (open_record ord bid st reason b)) x = Some r"
    show "bs_broker_id (fr_status r) = x"
      "dict_get (fb_client (open_record ord bid st reason b)) (bs_client_id (fr_status r)) = Some x"
      "\<exists>n<fb_next (open_record ord bid st reason b). x = uuid_text n"
      using index_okD(2) [OF assms(1), of x r] * assms(2,3)
      by (cases "x = bid"; force simp: open_record_def new_status_def less_Suc_eq)+
  qed
qed

lemma opened_record:
  "dict_get (fb_orders (open_record ord bid st reason b)) bid =
     Some \<lparr>fr_status = new_status ord bid st reason b, fr_fills = [], fr_agent = o_agent_id ord,
           fr_limit = o_limit_price ord\<rparr>"
  "dict_get (fb_client (open_record ord bid st reason b)) (o_id ord) = Some bid"
  by (simp_all add: open_record_def)

lemma auto_fill_index:
  assumes "index_ok b" "auto_fill ord bid b = Inr (evs, b')"
  shows "index_ok b' \<and> fb_client b' = fb_client b"
  using assms record_fill_index [OF assms(1)]
  by (fastforce simp: auto_fill_def split: option.splits fill_mode.splits)

text \<open>The branches of a submission.\<close>

lemma submit_cases:
  assumes "fb_submit_order ord b = (res, evs, b')"
  obtains (injected) e where "fb_fail_submit b = Some e" "res = Inl e" "evs = []" "b' = b\<lparr>fb_fail_submit := None\<rparr>"
  | (known) bid where "dict_get (fb_client b) (o_id ord) = Some bid" "res = Inr bid" "evs = []" "b' = b"
  | (rejected) "dict_get (fb_client b) (o_id ord) = None" "res = Inl (BrokerRejection reject_reason)"
      "b' = open_record ord (uuid_text (fb_next b)) B_REJECTED (Some reject_reason) b"
  | (raised) e where "dict_get (fb_client b) (o_id ord) = None" "res = Inl e"
      "b' = open_record ord (uuid_text (fb_next b)) B_ACCEPTED None b"
  | (taken) evs' where "dict_get (fb_client b) (o_id ord) = None" "res = Inr (uuid_text (fb_next b))"
      "auto_fill ord (uuid_text (fb_next b)) (open_record ord (uuid_text (fb_next b)) B_ACCEPTED None b) = Inr (evs', b')"
  using assms by (auto simp: fb_submit_order_def Let_def split: option.splits if_splits sum.splits)

lemma submit_index: "index_ok b \<Longrightarrow> fb_submit_order ord b = (res, evs, b') \<Longrightarrow> index_ok b'"
proof (erule submit_cases)
  fix e assume "index_ok b" "b' = b\<lparr>fb_fail_submit := None\<rparr>"
  then show "index_ok b'" by (simp add: index_ok_def)
next
  fix evs'
  assume *: "index_ok b" "dict_get (fb_client b) (o_id ord) = None"
    "auto_fill ord (uuid_text (fb_next b)) (open_record ord (uuid_text (fb_next b)) B_ACCEPTED None b) = Inr (evs', b')"
  from auto_fill_index [OF open_record_index [OF *(1,2) refl] *(3)] show "index_ok b'" by blast
qed (auto intro: open_record_index)

lemma find_by_client:
  "index_ok b \<Longrightarrow> dict_get (fb_client b) oid = Some bid \<Longrightarrow>
   \<exists>st. find_by_client_id oid b = Some st \<and> bs_broker_id st = bid"
  by (auto simp: find_by_client_id_def dest: index_okD(1))

lemma find_known: "find_by_client_id oid b = Some st \<Longrightarrow> \<exists>bid. dict_get (fb_client b) oid = Some bid"
  by (auto simp: find_by_client_id_def split: option.splits)

lemma submit_accepted_known:
  assumes ok: "index_ok b" and s: "fb_submit_order ord b = (Inr bid, evs, b')"
  shows "\<exists>st. find_by_client_id (o_id ord) b' = Some st \<and> bs_broker_id st = bid"
proof (rule find_by_client [OF submit_index [OF ok s]])
  from s show "dict_get (fb_client b') (o_id ord) = Some bid"
  proof (cases rule: submit_cases)
    case (taken evs')
    with auto_fill_index [OF open_record_index [OF ok taken(1) refl] taken(3)] show ?thesis
      by (simp add: opened_record)
  qed simp_all
qed

interpretation fake: broker_contract fb_submit_order find_by_client_id index_ok
proof unfold_locales
  fix b ord st bid evs b'
  assume ok: "index_ok b" and st: "find_by_client_id (o_id ord) b = Some st"
    and s: "fb_submit_order ord b = (Inr bid, evs, b')"
  from find_known [OF st] obtain x where x: "dict_get (fb_client b) (o_id ord) = Some x" by blast
  from s x have "bid = x \<and> evs = [] \<and> b' = b" by (cases rule: submit_cases) auto
  with find_by_client [OF ok x] st
  show "bid = bs_broker_id st \<and> evs = [] \<and> find_by_client_id (o_id ord) b' = Some st" by auto
next
  fix b ord st e evs b'
  assume "index_ok b" and st: "find_by_client_id (o_id ord) b = Some st"
    and s: "fb_submit_order ord b = (Inl e, evs, b')"
  from find_known [OF st] obtain x where x: "dict_get (fb_client b) (o_id ord) = Some x" by blast
  from s x have "b' = b\<lparr>fb_fail_submit := None\<rparr>" by (cases rule: submit_cases) auto
  with st show "find_by_client_id (o_id ord) b' = Some st" by (simp add: find_by_client_id_def split: option.splits)
qed (blast intro: submit_index submit_accepted_known)+

subsection \<open>Other traffic keeps the indexes\<close>

lemma cancel_cases:
  assumes "fb_cancel_order bid b = (res, evs, b')"
  obtains (injected) e where "res = Inl e" "evs = []" "b' = b\<lparr>fb_fail_cancel := None\<rparr>"
  | (nothing) "b' = b" "evs = []"
  | (cancelled) rec where "dict_get (fb_orders b) bid = Some rec" "\<not> broker_terminal (bs_state (fr_status rec))"
      "res = Inr ()" "b' = b\<lparr>fb_orders := dict_set bid (rec\<lparr>fr_status := (fr_status rec)\<lparr>bs_state := B_CANCELED,
          bs_updated_at := fb_now b\<rparr>\<rparr>) (fb_orders b)\<rparr>"
  using assms by (auto simp: fb_cancel_order_def Let_def split: option.splits if_splits)

lemma cancel_index:
  assumes ok: "index_ok b" and c: "fb_cancel_order bid b = (res, evs, b')"
  shows "index_ok b'"
  using c
proof (cases rule: cancel_cases)
  case (injected e)
  with ok show ?thesis by (simp add: index_ok_def)
next
  case (cancelled rec)
  show ?thesis
    by (rule index_ok_update [OF ok cancelled(1), of "rec\<lparr>fr_status := (fr_status rec)\<lparr>bs_state := B_CANCELED,
          bs_updated_at := fb_now b\<rparr>\<rparr>"]) (simp_all add: cancelled(4))
qed (use ok in simp)

lemma client_record_get: "client_record oid b = Inr (bid, rec) \<Longrightarrow> dict_get (fb_orders b) bid = Some rec"
  by (auto simp: client_record_def split: option.splits)

lemma force_full_fill_index: "index_ok b \<Longrightarrow> force_full_fill oid p b = Inr (evs, b') \<Longrightarrow> index_ok b'"
  by (auto simp: force_full_fill_def bindr_Inr_iff Let_def dest!: client_record_get
      dest: record_fill_index split: if_splits)

lemma force_partial_fill_index: "index_ok b \<Longrightarrow> force_partial_fill oid q p b = Inr (evs, b') \<Longrightarrow> index_ok b'"
  by (auto simp: force_partial_fill_def bindr_Inr_iff Let_def dest!: client_record_get
      dest: record_fill_index split: if_splits)

subsection \<open>Properties\<close>

text \<open>
  However often a client repeats a submission, through injected failures and rejections,
  every id the broker ever answers is the same: one client id has one order.
\<close>

lemma retries_get_one_id:
  assumes "index_ok b" "Inr bid \<in> set (fst (fake.retry n ord b))" "Inr bid' \<in> set (fst (fake.retry n ord b))"
  shows "bid = bid'"
  using assms by (rule fake.retry_one_id)

lemma retries_get_one_id_example:
  "\<forall>ord. \<exists>b bid bid'. fst (fake.retry 3 ord b) = [Inl BrokerUnavailable, Inr bid, Inr bid'] \<and> bid = bid'"
proof
  fix ord
  let ?b = "inject_submit_failure BrokerUnavailable (new_fake_broker 0 MANUAL 1000)"
  have "index_ok ?b" by (simp add: index_ok_def inject_submit_failure_def new_fake_broker_def)
  moreover have "\<exists>bid bid'. fst (fake.retry 3 ord ?b) = [Inl BrokerUnavailable, Inr bid, Inr bid']"
    by (simp add: numeral_3_eq_3 fb_submit_order_def inject_submit_failure_def new_fake_broker_def open_record_def
        auto_fill_def Let_def)
  ultimately show "\<exists>b bid bid'. fst (fake.retry 3 ord b) = [Inl BrokerUnavailable, Inr bid, Inr bid'] \<and> bid = bid'"
    using retries_get_one_id [of ?b _ 3 ord] by fastforce
qed

end
