(* ===== verification/Lots.thy ===== *)
theory Lots
  imports Event_Log
begin

text \<open>
  The tax-lot ledger of \<^verbatim>\<open>execution/lots.py\<close>. The in-memory dictionary keeps insertion order,
  which breaks ties between lots of one day. \<open>lg_db\<close> is the SQLite copy, \<open>None\<close> without a
  database path: \<^verbatim>\<open>INSERT OR REPLACE\<close> deletes the rows that collide (same id or same entry
  fill) and appends the new one. \<open>lg_next\<close> is the source of fresh lot ids. The lock is not
  modelled: every operation is one atomic step.
\<close>

record ledger_db =
  db_lots :: "(lot_id, lot) dict"
  db_booked :: "fill_id list"

record ledger =
  lg_lots :: "(lot_id, lot) dict"
  lg_booked :: "fill_id set"
  lg_db :: "ledger_db option"
  lg_next :: uuid

definition empty_ledger :: "ledger_db option \<Rightarrow> ledger" where
  "empty_ledger db = \<lparr>lg_lots = [], lg_booked = {}, lg_db = db, lg_next = 0\<rparr>"

definition put_lots :: "lot list \<Rightarrow> (lot_id, lot) dict \<Rightarrow> (lot_id, lot) dict" where
  "put_lots ls d = foldl (\<lambda>d l. dict_set (l_id l) l d) d ls"

definition load_from_db :: "ledger_db \<Rightarrow> uuid \<Rightarrow> ledger" where
  "load_from_db db nxt =
     \<lparr>lg_lots = put_lots (map (lot_post_init \<circ> snd) (db_lots db)) [],
      lg_booked = set (db_booked db), lg_db = Some db, lg_next = nxt\<rparr>"

definition db_put_lot :: "lot \<Rightarrow> ledger_db \<Rightarrow> ledger_db" where
  "db_put_lot l db = db\<lparr>db_lots :=
     filter (\<lambda>(k, r). k \<noteq> l_id l \<and> l_entry_fill_id r \<noteq> l_entry_fill_id l) (db_lots db) @ [(l_id l, l)]\<rparr>"

definition persist_lot :: "lot \<Rightarrow> ledger \<Rightarrow> ledger" where
  "persist_lot l g = g\<lparr>lg_db := map_option (db_put_lot l) (lg_db g)\<rparr>"

definition persist_booked :: "fill_id \<Rightarrow> ledger \<Rightarrow> ledger" where
  "persist_booked fid g = (case lg_db g of
       None \<Rightarrow> g
     | Some db \<Rightarrow>
         if fid \<in> set (db_booked db) then g
         else g\<lparr>lg_db := Some (db\<lparr>db_booked := db_booked db @ [fid]\<rparr>)\<rparr>)"

definition is_empty :: "ledger \<Rightarrow> bool" where
  "is_empty g = (lg_booked g = {})"

subsection \<open>Opening\<close>

definition open_lot :: "fill \<Rightarrow> ledger \<Rightarrow> exn + lot \<times> ledger" where
  "open_lot f g =
     (if f_side f \<noteq> BUY then Inl ValueError
      else (let l = lot_post_init
                  \<lparr>l_id = lg_next g, l_agent_id = f_agent_id f, l_symbol = normalize_symbol (f_symbol f),
                   l_qty = f_qty f, l_entry_price = f_price f, l_entry_date = date_of (f_timestamp f),
                   l_entry_fill_id = f_id f, l_remaining_qty = 0, l_exit_fill_id = None,
                   l_exit_date = None, l_exit_price = None, l_is_closed = False\<rparr>
            in Inr (l, persist_lot l
                 (g\<lparr>lg_lots := dict_set (l_id l) l (lg_lots g), lg_next := Suc (lg_next g)\<rparr>))))"

subsection \<open>Closing\<close>

definition is_candidate :: "agent_id \<Rightarrow> symbol \<Rightarrow> lot \<Rightarrow> bool" where
  "is_candidate a s l \<longleftrightarrow>
     l_agent_id l = a \<and> l_symbol l = s \<and> \<not> l_is_closed l \<and> 0 < l_remaining_qty l"

text \<open>Python's sort is stable, also with \<^verbatim>\<open>reverse=True\<close>.\<close>

definition candidates :: "agent_id \<Rightarrow> symbol \<Rightarrow> lot_method \<Rightarrow> ledger \<Rightarrow> lot list" where
  "candidates a s meth g =
     (let cs = filter (is_candidate a s) (map snd (lg_lots g)) in
      if meth = LIFO then sort_key (\<lambda>l. - l_entry_date l) cs else sort_key l_entry_date cs)"

definition snapped_remaining :: "fill \<Rightarrow> decimal \<Rightarrow> decimal" where
  "snapped_remaining ex r =
     (if 0 < r \<and> 0 < f_price ex \<and> dmul r (f_price ex) < dust_notional_usd then 0 else r)"

definition consume_lot :: "fill \<Rightarrow> decimal \<Rightarrow> lot \<Rightarrow> lot" where
  "consume_lot ex consume l =
     (let r = snapped_remaining ex (dsub (l_remaining_qty l) consume); closed = (r = 0) in
      lot_post_init (l\<lparr>l_remaining_qty := r,
         l_is_closed := closed,
         l_exit_fill_id := (if closed then Some (f_id ex) else l_exit_fill_id l),
         l_exit_date := (if closed then Some (date_of (f_timestamp ex)) else l_exit_date l),
         l_exit_price := (if closed then Some (f_price ex) else l_exit_price l)\<rparr>))"

fun consume_lots :: "fill \<Rightarrow> decimal \<Rightarrow> lot list \<Rightarrow> lot list" where
  "consume_lots ex rtc [] = []"
| "consume_lots ex rtc (l # ls) =
     (if rtc \<le> 0 then []
      else (let consume = min (l_remaining_qty l) rtc
            in consume_lot ex consume l # consume_lots ex (dsub rtc consume) ls))"

definition close_lots ::
  "agent_id \<Rightarrow> symbol \<Rightarrow> decimal \<Rightarrow> fill \<Rightarrow> lot_method \<Rightarrow> ledger \<Rightarrow> exn + lot list \<times> ledger" where
  "close_lots a s qty ex meth g =
     (if f_side ex \<noteq> SELL then Inl ValueError
      else (let cs = candidates a (normalize_symbol s) meth g;
                available = dsum (map l_remaining_qty cs)
            in if available < qty then Inl ValueError
               else (let affected = consume_lots ex qty cs;
                         g' = g\<lparr>lg_lots := put_lots affected (lg_lots g)\<rparr>
                     in Inr (affected, foldl (\<lambda>h l. persist_lot l h) g' affected))))"

subsection \<open>Booking\<close>

definition book_fill :: "fill \<Rightarrow> lot_method \<Rightarrow> ledger \<Rightarrow> ledger" where
  "book_fill f meth g =
     (if f_id f \<in> lg_booked g then g
      else (let g1 = persist_booked (f_id f) (g\<lparr>lg_booked := insert (f_id f) (lg_booked g)\<rparr>) in
        if f_side f = BUY then (case open_lot f g1 of Inl _ \<Rightarrow> g1 | Inr (_, g2) \<Rightarrow> g2)
        else (case close_lots (f_agent_id f) (f_symbol f) (f_qty f) f meth g1 of
                Inl _ \<Rightarrow> g1 | Inr (_, g2) \<Rightarrow> g2)))"

fun replay_events :: "logged_event list \<Rightarrow> ledger \<Rightarrow> nat \<times> ledger" where
  "replay_events [] g = (0, g)"
| "replay_events (e # es) g =
     (if e_kind e \<noteq> FILL_RECEIVED then replay_events es g
      else (case deserialize_fill (e_payload e) of
              Inl _ \<Rightarrow> replay_events es g
            | Inr f \<Rightarrow>
                (let g' = book_fill f FIFO g; (n, g'') = replay_events es g'
                 in (if card (lg_booked g) < card (lg_booked g') then Suc n else n, g''))))"

definition replay_from_oms_store :: "oms_store \<Rightarrow> ledger \<Rightarrow> nat \<times> ledger" where
  "replay_from_oms_store st g = replay_events (iter_all st) g"

subsection \<open>Reading\<close>

definition open_lots :: "agent_id \<Rightarrow> symbol \<Rightarrow> ledger \<Rightarrow> lot list" where
  "open_lots a s g =
     filter (\<lambda>l. l_agent_id l = a \<and> l_symbol l = normalize_symbol s \<and> \<not> l_is_closed l)
       (map snd (lg_lots g))"

definition all_lots :: "ledger \<Rightarrow> lot list" where
  "all_lots g = map snd (lg_lots g)"

definition total_open_qty :: "agent_id \<Rightarrow> symbol \<Rightarrow> ledger \<Rightarrow> decimal" where
  "total_open_qty a s g = dsum (map l_remaining_qty (open_lots a s g))"

definition lots_by_exit_fill :: "fill_id \<Rightarrow> ledger \<Rightarrow> lot list" where
  "lots_by_exit_fill fid g = filter (\<lambda>l. l_exit_fill_id l = Some fid) (all_lots g)"

definition add_open_qty :: "agent_id \<Rightarrow> (symbol, decimal) dict \<Rightarrow> lot \<Rightarrow> (symbol, decimal) dict" where
  "add_open_qty a out l =
     (if l_agent_id l \<noteq> a \<or> l_is_closed l then out
      else dict_set (l_symbol l) (dadd (dict_get_or out (l_symbol l) 0) (l_remaining_qty l)) out)"

definition open_qty_by_symbol :: "agent_id \<Rightarrow> ledger \<Rightarrow> (symbol, decimal) dict" where
  "open_qty_by_symbol a g = filter (\<lambda>(s, q). 0 < q) (foldl (add_open_qty a) [] (all_lots g))"

subsection \<open>One lot\<close>

text \<open>An open lot holds a positive representable rest of its quantity, a closed one nothing.\<close>

definition lot_ok :: "lot \<Rightarrow> bool" where
  "lot_ok l \<longleftrightarrow>
     (if l_is_closed l
      then l_remaining_qty l = 0 \<and> l_exit_fill_id l \<noteq> None \<and> l_exit_date l \<noteq> None \<and> l_exit_price l \<noteq> None
      else 0 < l_remaining_qty l \<and> l_remaining_qty l \<le> l_qty l)
     \<and> dround (l_remaining_qty l) = l_remaining_qty l \<and> normalize_symbol (l_symbol l) = l_symbol l"

definition same_purchase :: "lot \<Rightarrow> lot \<Rightarrow> bool" where
  "same_purchase l m \<longleftrightarrow> l_id l = l_id m \<and> l_agent_id l = l_agent_id m \<and> l_symbol l = l_symbol m
     \<and> l_qty l = l_qty m \<and> l_entry_price l = l_entry_price m \<and> l_entry_date l = l_entry_date m
     \<and> l_entry_fill_id l = l_entry_fill_id m"

lemma consume_lot_purchase [simp]: "same_purchase (consume_lot ex c l) l"
  by (simp add: same_purchase_def consume_lot_def Let_def lot_post_init_def)

lemmas consume_lot_frame [simp] = consume_lot_purchase [unfolded same_purchase_def]

lemma consume_lot_remaining [simp]:
  "l_remaining_qty (consume_lot ex c l) = snapped_remaining ex (dsub (l_remaining_qty l) c)"
  by (simp add: consume_lot_def Let_def lot_post_init_def)

lemma consume_lot_closed [simp]:
  "l_is_closed (consume_lot ex c l) \<longleftrightarrow> l_remaining_qty (consume_lot ex c l) = 0"
  by (simp add: consume_lot_def Let_def lot_post_init_def)

lemma snapped_remaining_cases: "snapped_remaining ex r = r \<or> snapped_remaining ex r = 0"
  by (simp add: snapped_remaining_def)

lemma consume_lot_ok:
  assumes "lot_ok l" "\<not> l_is_closed l" "0 \<le> c" "c \<le> l_remaining_qty l"
  shows "lot_ok (consume_lot ex c l)"
proof -
  let ?r = "dsub (l_remaining_qty l) c"
  have "0 \<le> ?r" "?r \<le> l_remaining_qty l"
    using assms dec.rnd_diff_le [of "l_remaining_qty l" c] by (auto simp: lot_ok_def dsub_def)
  then show ?thesis
    using assms(1,2) snapped_remaining_cases [of ex ?r]
    by (auto simp: lot_ok_def consume_lot_def Let_def)
qed

lemma consume_lots_ok:
  assumes "\<forall>l\<in>set ls. lot_ok l \<and> \<not> l_is_closed l"
  shows "\<forall>l\<in>set (consume_lots ex q ls). lot_ok l"
  using assms
proof (induction ex q ls rule: consume_lots.induct)
  case (2 ex rtc l ls)
  then show ?case
    by (auto simp: Let_def lot_ok_def [of l] min_def intro!: consume_lot_ok)
qed simp

lemma consume_lots_ids: "map l_id (consume_lots ex q ls) = take (length (consume_lots ex q ls)) (map l_id ls)"
  by (induction ex q ls rule: consume_lots.induct) (auto simp: Let_def)

lemma consume_lots_length: "length (consume_lots ex q ls) \<le> length ls"
  by (induction ex q ls rule: consume_lots.induct) (auto simp: Let_def)

lemma consume_lots_closed: "\<forall>l\<in>set (butlast (consume_lots ex q ls)). l_is_closed l"
proof (induction ex q ls rule: consume_lots.induct)
  case (2 ex rtc l ls)
  show ?case
  proof (cases "rtc \<le> 0")
    case False
    show ?thesis
    proof (cases "l_remaining_qty l \<le> rtc")
      case True
      then have "l_is_closed (consume_lot ex (l_remaining_qty l) l)"
        by (simp add: dsub_def snapped_remaining_def)
      with True False 2 show ?thesis by (auto simp: Let_def min_def)
    next
      case False': False
      then have "consume_lots ex (dsub rtc (min (l_remaining_qty l) rtc)) ls = []"
        by (cases ls) (auto simp: dsub_def min_def)
      then show ?thesis by (simp add: Let_def)
    qed
  qed simp
qed simp

subsection \<open>Writing lots back\<close>

lemma put_lots_simps [simp]:
  "put_lots [] d = d" "put_lots (l # ls) d = put_lots ls (dict_set (l_id l) l d)"
  by (simp_all add: put_lots_def)

lemma put_lots_snoc: "put_lots (ls @ [l]) d = dict_set (l_id l) l (put_lots ls d)"
  by (simp add: put_lots_def)

lemma put_lots_other: "k \<notin> l_id ` set ls \<Longrightarrow> dict_get (put_lots ls d) k = dict_get d k"
  by (induction ls arbitrary: d) simp_all

lemma put_lots_in: "distinct (map l_id ls) \<Longrightarrow> l \<in> set ls \<Longrightarrow> dict_get (put_lots ls d) (l_id l) = Some l"
  by (induction ls arbitrary: d) (auto simp: put_lots_other)

lemma put_lots_keys:
  "\<forall>l\<in>set ls. l_id l \<in> fst ` set d \<Longrightarrow> map fst (put_lots ls d) = map fst d"
  by (induction ls arbitrary: d) (simp_all add: keys_set_present)

lemma put_lots_distinct: "distinct (map fst d) \<Longrightarrow> distinct (map fst (put_lots ls d))"
  by (induction ls arbitrary: d) simp_all

lemma put_lots_fresh:
  "distinct (map l_id ls) \<Longrightarrow> l_id ` set ls \<inter> fst ` set d = {} \<Longrightarrow>
   put_lots ls d = d @ map (\<lambda>l. (l_id l, l)) ls"
  by (induction ls arbitrary: d) (auto simp: dict_set_fresh)

subsection \<open>The invariant of a ledger\<close>

text \<open>
  \<open>lots_ok nxt booked d\<close>: the keys are the ids, all drawn already; every lot is well formed;
  every lot was opened by a booked fill, no two by the same. \<open>db_sync\<close>: the database holds
  the same lots and the same booked fills.
\<close>

definition lots_ok :: "uuid \<Rightarrow> fill_id set \<Rightarrow> (lot_id, lot) dict \<Rightarrow> bool" where
  "lots_ok nxt booked d \<longleftrightarrow> distinct (map fst d)
     \<and> distinct (map (\<lambda>(k, l). l_entry_fill_id l) d)
     \<and> (\<forall>(k, l)\<in>set d. k = l_id l \<and> k < nxt \<and> lot_ok l \<and> l_entry_fill_id l \<in> booked)"

definition mirrors :: "ledger_db \<Rightarrow> (lot_id, lot) dict \<Rightarrow> bool" where
  "mirrors db d \<longleftrightarrow> distinct (map fst (db_lots db)) \<and> map_of (db_lots db) = map_of d"

definition db_sync :: "ledger \<Rightarrow> bool" where
  "db_sync g \<longleftrightarrow> (case lg_db g of None \<Rightarrow> True
     | Some db \<Rightarrow> mirrors db (lg_lots g) \<and> set (db_booked db) = lg_booked g)"

definition ledger_ok :: "ledger \<Rightarrow> bool" where
  "ledger_ok g \<longleftrightarrow> finite (lg_booked g) \<and> lots_ok (lg_next g) (lg_booked g) (lg_lots g) \<and> db_sync g"

lemma same_purchase_refl [simp]: "same_purchase l l"
  by (simp add: same_purchase_def)

lemma same_purchase_trans: "same_purchase l m \<Longrightarrow> same_purchase m n \<Longrightarrow> same_purchase l n"
  by (simp add: same_purchase_def)

lemma same_purchase_sym: "same_purchase l m \<Longrightarrow> same_purchase m l"
  by (simp add: same_purchase_def)

lemma consume_lots_purchase: "m \<in> set (consume_lots ex q ls) \<Longrightarrow> \<exists>l\<in>set ls. same_purchase m l"
  by (induction ex q ls rule: consume_lots.induct) (auto simp: Let_def split: if_splits)

text \<open>\<open>updates ls d\<close>: every lot of \<open>ls\<close> is a later version of one in \<open>d\<close>.\<close>

definition updates :: "lot list \<Rightarrow> (lot_id, lot) dict \<Rightarrow> bool" where
  "updates ls d \<longleftrightarrow> (\<forall>l\<in>set ls. lot_ok l \<and> (\<exists>l0. dict_get d (l_id l) = Some l0 \<and> same_purchase l l0))"

lemma updates_Cons:
  "updates (l # ls) d \<Longrightarrow> updates ls (dict_set (l_id l) l d)"
  unfolding updates_def
proof
  fix m
  assume *: "\<forall>l\<in>set (l # ls). lot_ok l \<and> (\<exists>l0. dict_get d (l_id l) = Some l0 \<and> same_purchase l l0)"
    and "m \<in> set ls"
  then obtain l0 m0 where "dict_get d (l_id l) = Some l0" "same_purchase l l0"
    "dict_get d (l_id m) = Some m0" "same_purchase m m0" "lot_ok m" by auto
  then show "lot_ok m \<and> (\<exists>l0. dict_get (dict_set (l_id l) l d) (l_id m) = Some l0 \<and> same_purchase m l0)"
    by (cases "l_id m = l_id l") (auto intro: same_purchase_trans same_purchase_sym)
qed

lemma entries_set:
  "dict_get d k = Some l0 \<Longrightarrow> l_entry_fill_id l = l_entry_fill_id l0 \<Longrightarrow>
   map (\<lambda>(k, l). l_entry_fill_id l) (dict_set k l d) = map (\<lambda>(k, l). l_entry_fill_id l) d"
  by (induction d) (auto split: if_splits)

lemma lots_ok_set:
  assumes ok: "lots_ok n b d" and l: "dict_get d (l_id l) = Some l0" "same_purchase l l0" "lot_ok l"
  shows "lots_ok n b (dict_set (l_id l) l d)"
proof -
  have "(l_id l, l0) \<in> set d" using l(1) by (rule map_of_SomeD)
  with ok l(2) have "l_id l < n \<and> l_entry_fill_id l \<in> b"
    by (auto simp: lots_ok_def same_purchase_def)
  moreover have "map (\<lambda>(k, l). l_entry_fill_id l) (dict_set (l_id l) l d) = map (\<lambda>(k, l). l_entry_fill_id l) d"
    using l(1,2) by (intro entries_set) (auto simp: same_purchase_def)
  ultimately show ?thesis
    using ok l(3) unfolding lots_ok_def by (auto dest!: set_dict_set simp del: map_eq_conv)
qed

lemma lots_ok_put: "lots_ok n b d \<Longrightarrow> updates ls d \<Longrightarrow> lots_ok n b (put_lots ls d)"
proof (induction ls arbitrary: d)
  case (Cons l ls)
  then have "lots_ok n b (dict_set (l_id l) l d)"
    by (auto simp: updates_def intro: lots_ok_set)
  with Cons updates_Cons show ?case by simp
qed simp

lemma lots_ok_new:
  assumes "lots_ok n b d" "l_id l = n" "lot_ok l" "l_entry_fill_id l \<notin> b"
  shows "lots_ok (Suc n) (insert (l_entry_fill_id l) b) (dict_set (l_id l) l d)"
proof -
  have "n \<notin> fst ` set d" using assms(1) by (fastforce simp: lots_ok_def)
  with assms show ?thesis
    by (fastforce simp: lots_ok_def dict_set_fresh)
qed

lemma lots_ok_booked: "lots_ok n b d \<Longrightarrow> b \<subseteq> b' \<Longrightarrow> lots_ok n b' d"
  by (fastforce simp: lots_ok_def)

subsection \<open>The database copy\<close>

lemma map_of_filter_distinct:
  "distinct (map fst d) \<Longrightarrow>
   map_of (filter P d) k = (case map_of d k of None \<Rightarrow> None | Some v \<Rightarrow> if P (k, v) then Some v else None)"
  by (induction d) (auto simp: map_of_eq_None_iff split: option.split intro: rev_image_eqI)

lemma mirrors_put:
  assumes m: "mirrors db d" and u: "\<And>k r. dict_get d k = Some r \<Longrightarrow> l_entry_fill_id r = l_entry_fill_id l \<Longrightarrow> k = l_id l"
  shows "mirrors (db_put_lot l db) (dict_set (l_id l) l d)"
proof -
  let ?P = "\<lambda>(k, r). k \<noteq> l_id l \<and> l_entry_fill_id r \<noteq> l_entry_fill_id l"
  have dis: "distinct (map fst (db_lots db))" and eq: "map_of (db_lots db) = map_of d"
    using m by (simp_all add: mirrors_def)
  have "map_of (db_lots (db_put_lot l db)) k = map_of (dict_set (l_id l) l d) k" for k
  proof (cases "k = l_id l")
    case True
    have "map_of (filter ?P (db_lots db)) (l_id l) = None"
      by (simp add: map_of_filter_distinct [OF dis] split: option.split)
    with True show ?thesis by (simp add: db_put_lot_def map_add_def)
  next
    case False
    with u [of k] show ?thesis
      by (auto simp: db_put_lot_def map_add_def map_of_filter_distinct [OF dis] eq split: option.split)
  qed
  moreover have "distinct (map fst (db_lots (db_put_lot l db)))"
    using dis by (auto simp: db_put_lot_def intro: distinct_map_filter)
  ultimately show ?thesis by (auto simp: mirrors_def)
qed

lemma lots_ok_inj:
  assumes "lots_ok n b d" "dict_get d k = Some r" "dict_get d k' = Some r'"
    "l_entry_fill_id r = l_entry_fill_id r'"
  shows "k = k'"
proof -
  have "inj_on (\<lambda>(k, l). l_entry_fill_id l) (set d)"
    using assms(1) by (auto simp: lots_ok_def distinct_map)
  from inj_onD [OF this, of "(k, r)" "(k', r')"] assms(2-4) show ?thesis
    by (auto dest!: map_of_SomeD)
qed

lemma mirrors_put_all:
  "mirrors db d \<Longrightarrow> lots_ok n b d \<Longrightarrow> updates ls d \<Longrightarrow>
   mirrors (foldl (\<lambda>db l. db_put_lot l db) db ls) (put_lots ls d)"
proof (induction ls arbitrary: db d)
  case (Cons l ls)
  then obtain l0 where l0: "dict_get d (l_id l) = Some l0" "same_purchase l l0" "lot_ok l"
    by (auto simp: updates_def)
  have "mirrors (db_put_lot l db) (dict_set (l_id l) l d)"
    using Cons.prems(1,2) l0 lots_ok_inj by (intro mirrors_put) (auto simp: same_purchase_def)
  moreover have "lots_ok n b (dict_set (l_id l) l d)"
    using Cons.prems(2) l0 by (intro lots_ok_set)
  moreover have "updates ls (dict_set (l_id l) l d)"
    using Cons.prems(3) by (rule updates_Cons)
  ultimately show ?case using Cons.IH by simp
qed simp

lemma db_put_lots_booked [simp]:
  "db_booked (db_put_lot l db) = db_booked db"
  "db_booked (foldl (\<lambda>db l. db_put_lot l db) db ls) = db_booked db"
  by (induction ls arbitrary: db) (simp_all add: db_put_lot_def)

lemma foldl_persist:
  "foldl (\<lambda>h l. persist_lot l h) g ls = g\<lparr>lg_db := map_option (\<lambda>db. foldl (\<lambda>db l. db_put_lot l db) db ls) (lg_db g)\<rparr>"
  by (induction ls arbitrary: g) (auto simp: persist_lot_def option.map_comp comp_def option.map_ident)

subsection \<open>Booking keeps the invariant\<close>

lemma candidate_sorts [simp]:
  "set (candidates a s meth g) = {l \<in> snd ` set (lg_lots g). is_candidate a s l}"
  by (auto simp: candidates_def Let_def)

lemma candidates_open: "ledger_ok g \<Longrightarrow> \<forall>l\<in>set (candidates a s meth g). lot_ok l \<and> \<not> l_is_closed l"
  by (auto simp: ledger_ok_def lots_ok_def is_candidate_def)

lemma ledger_get:
  "lots_ok n b d \<Longrightarrow> l \<in> snd ` set d \<Longrightarrow> dict_get d (l_id l) = Some l"
  by (auto simp: lots_ok_def)

lemma affected_updates:
  assumes "ledger_ok g"
  shows "updates (consume_lots ex q (candidates a s meth g)) (lg_lots g)"
  unfolding updates_def
proof
  fix m
  assume m: "m \<in> set (consume_lots ex q (candidates a s meth g))"
  then have "lot_ok m" using consume_lots_ok [OF candidates_open [OF assms]] by blast
  moreover obtain l where l: "l \<in> snd ` set (lg_lots g)" "same_purchase m l"
    using consume_lots_purchase [OF m] by auto
  then have "dict_get (lg_lots g) (l_id m) = Some l"
    using assms ledger_get [of _ _ "lg_lots g" l] by (auto simp: ledger_ok_def same_purchase_def)
  ultimately show "lot_ok m \<and> (\<exists>l0. dict_get (lg_lots g) (l_id m) = Some l0 \<and> same_purchase m l0)"
    using l(2) by blast
qed

lemma close_lots_ok:
  assumes ok: "ledger_ok g" and res: "close_lots a s q ex meth g = Inr (aff, g')"
  shows "ledger_ok g'"
proof -
  from res have aff: "aff = consume_lots ex q (candidates a (normalize_symbol s) meth g)"
    and g': "g' = foldl (\<lambda>h l. persist_lot l h) (g\<lparr>lg_lots := put_lots aff (lg_lots g)\<rparr>) aff"
    by (auto simp: close_lots_def Let_def split: if_splits)
  have u: "updates aff (lg_lots g)" unfolding aff by (rule affected_updates [OF ok])
  have lk: "lots_ok (lg_next g) (lg_booked g) (lg_lots g)" using ok by (simp add: ledger_ok_def)
  show ?thesis
    using ok u lots_ok_put [OF lk u] mirrors_put_all [OF _ lk u]
    by (auto simp: g' foldl_persist ledger_ok_def db_sync_def split: option.splits)
qed

lemma open_lot_ok:
  assumes ok: "ledger_ok g" and f: "0 < f_qty f" "dround (f_qty f) = f_qty f"
    and new: "f_id f \<notin> b" "lg_booked g = insert (f_id f) b" "\<forall>(k, l)\<in>set (lg_lots g). l_entry_fill_id l \<in> b"
    and res: "open_lot f g = Inr (l, g')"
  shows "ledger_ok g'"
proof -
  have l: "l_id l = lg_next g" "lot_ok l" "l_entry_fill_id l = f_id f"
    and g': "g' = persist_lot l (g\<lparr>lg_lots := dict_set (l_id l) l (lg_lots g), lg_next := Suc (lg_next g)\<rparr>)"
    using res f by (auto simp: open_lot_def Let_def lot_post_init_def lot_ok_def split: if_splits)
  have lk: "lots_ok (lg_next g) (lg_booked g) (lg_lots g)" using ok by (simp add: ledger_ok_def)
  then have "lots_ok (lg_next g) b (lg_lots g)" using new(3) by (fastforce simp: lots_ok_def)
  with l have 1: "lots_ok (Suc (lg_next g)) (lg_booked g) (dict_set (l_id l) l (lg_lots g))"
    using new(1,2) lots_ok_new [of "lg_next g" b "lg_lots g" l] by simp
  have 2: "mirrors (db_put_lot l db) (dict_set (l_id l) l (lg_lots g))" if "mirrors db (lg_lots g)" for db
    using that
  proof (rule mirrors_put)
    fix k r
    assume "dict_get (lg_lots g) k = Some r" "l_entry_fill_id r = l_entry_fill_id l"
    with new(1,3) l(3) show "k = l_id l" by (auto dest!: map_of_SomeD)
  qed
  show ?thesis
    using ok 1 2 by (auto simp: g' persist_lot_def ledger_ok_def db_sync_def split: option.splits)
qed

lemma mark_booked_ok:
  assumes "ledger_ok g" and "f_id f \<notin> lg_booked g"
  shows "ledger_ok (persist_booked (f_id f) (g\<lparr>lg_booked := insert (f_id f) (lg_booked g)\<rparr>))"
proof -
  have "lots_ok (lg_next g) (insert (f_id f) (lg_booked g)) (lg_lots g)"
    by (rule lots_ok_booked [of _ "lg_booked g"]) (use assms(1) in \<open>auto simp: ledger_ok_def\<close>)
  with assms show ?thesis
    by (auto simp: ledger_ok_def persist_booked_def db_sync_def mirrors_def split: option.splits)
qed

lemma persist_booked_frame [simp]:
  "lg_lots (persist_booked i g) = lg_lots g" "lg_booked (persist_booked i g) = lg_booked g"
  "lg_next (persist_booked i g) = lg_next g"
  by (simp_all add: persist_booked_def split: option.split)

lemma persist_lot_frame [simp]:
  "lg_lots (persist_lot l g) = lg_lots g" "lg_booked (persist_lot l g) = lg_booked g"
  "lg_next (persist_lot l g) = lg_next g"
  by (simp_all add: persist_lot_def)

lemma book_fill_ok:
  assumes ok: "ledger_ok g" and f: "0 < f_qty f" "dround (f_qty f) = f_qty f"
  shows "ledger_ok (book_fill f meth g)"
proof (cases "f_id f \<in> lg_booked g")
  case False
  define g1 where "g1 = persist_booked (f_id f) (g\<lparr>lg_booked := insert (f_id f) (lg_booked g)\<rparr>)"
  have g1: "ledger_ok g1" unfolding g1_def by (rule mark_booked_ok [OF ok False])
  have old: "\<forall>(k, l)\<in>set (lg_lots g1). l_entry_fill_id l \<in> lg_booked g"
    using ok by (fastforce simp: g1_def ledger_ok_def lots_ok_def)
  have op: "ledger_ok g2" if "open_lot f g1 = Inr (l, g2)" for l g2
    using open_lot_ok [OF g1 f False _ old that] by (simp add: g1_def)
  have cl: "ledger_ok g2" if "close_lots (f_agent_id f) (f_symbol f) (f_qty f) f meth g1 = Inr (l, g2)" for l g2
    using close_lots_ok [OF g1 that] .
  show ?thesis
    using False g1 op cl by (auto simp: book_fill_def Let_def simp flip: g1_def split: sum.split)
qed (use ok in \<open>simp add: book_fill_def\<close>)

lemma close_lots_booked: "close_lots a s q ex meth g = Inr (aff, g') \<Longrightarrow> lg_booked g' = lg_booked g"
  by (auto simp: close_lots_def Let_def foldl_persist split: if_splits)

lemma open_lot_booked: "open_lot f g = Inr (l, g') \<Longrightarrow> lg_booked g' = lg_booked g"
  by (auto simp: open_lot_def Let_def split: if_splits)

lemma book_fill_booked: "lg_booked (book_fill f meth g) = insert (f_id f) (lg_booked g)"
proof (cases "f_id f \<in> lg_booked g")
  case False
  define g1 where "g1 = persist_booked (f_id f) (g\<lparr>lg_booked := insert (f_id f) (lg_booked g)\<rparr>)"
  have "lg_booked g1 = insert (f_id f) (lg_booked g)" by (simp add: g1_def)
  with False open_lot_booked [of f g1] close_lots_booked [of _ _ _ f meth g1] show ?thesis
    by (simp add: book_fill_def Let_def flip: g1_def split: sum.split)
qed (auto simp: book_fill_def)

lemma book_fill_seen: "f_id f \<in> lg_booked g \<Longrightarrow> book_fill f meth g = g"
  by (simp add: book_fill_def)

subsection \<open>Conservation\<close>

text \<open>
  \<open>held a s d\<close>: the exact sum of what the lots of an agent in a symbol still hold.
  \<open>grid_book k d\<close>: quantities are multiples of \<open>10 ^ - k\<close> and the whole book fits the
  28 digits of the context, so no sum of quantities rounds.
\<close>

definition held_part :: "agent_id \<Rightarrow> symbol \<Rightarrow> lot \<Rightarrow> decimal" where
  "held_part a s l = (if l_agent_id l = a \<and> l_symbol l = s then l_remaining_qty l else 0)"

definition held :: "agent_id \<Rightarrow> symbol \<Rightarrow> (lot_id, lot) dict \<Rightarrow> decimal" where
  "held a s d = sum_list (map (held_part a s \<circ> snd) d)"

definition grid_book :: "nat \<Rightarrow> (lot_id, lot) dict \<Rightarrow> bool" where
  "grid_book k d \<longleftrightarrow> (\<forall>l\<in>snd ` set d. on_step k (l_remaining_qty l))
     \<and> sum_list (map (l_remaining_qty \<circ> snd) d) * 10 ^ k \<le> 10 ^ 28"

lemma dsum_exact:
  assumes "\<forall>x\<in>set xs. 0 \<le> x \<and> on_step k x" "sum_list xs * 10 ^ k \<le> 10 ^ 28"
  shows "dsum xs = sum_list xs \<and> on_step k (sum_list xs)"
  using assms
proof (induction xs rule: rev_induct)
  case (snoc x xs)
  have "0 \<le> sum_list xs" using snoc.prems by (auto intro: sum_list_nonneg)
  moreover have "sum_list xs * 10 ^ k \<le> (sum_list xs + x) * 10 ^ k"
    by (rule mult_right_mono) (use snoc.prems in auto)
  then have "sum_list xs * 10 ^ k \<le> 10 ^ 28"
    by (rule order_trans) (use snoc.prems(2) in simp)
  ultimately have ih: "dsum xs = sum_list xs" "on_step k (sum_list xs)" and nn: "0 \<le> sum_list xs"
    using snoc.IH snoc.prems(1) by simp_all
  have st: "on_step k (sum_list xs + x)" using ih snoc.prems by (auto intro: on_step_add)
  moreover have "dround (sum_list xs + x) = sum_list xs + x"
    using st snoc.prems nn by (intro dround_step) auto
  ultimately show ?case by (simp add: dsum_snoc ih dadd_def)
qed (simp add: dsum_def)

lemma held_set:
  "distinct (map fst d) \<Longrightarrow> dict_get d k = Some l0 \<Longrightarrow>
   held a s (dict_set k l d) = held a s d - held_part a s l0 + held_part a s l"
  by (induction d) (auto simp: held_def split: if_splits)

lemma held_new: "k \<notin> fst ` set d \<Longrightarrow> held a s (dict_set k l d) = held a s d + held_part a s l"
  by (simp add: dict_set_fresh held_def)

lemma held_put_other:
  "distinct (map fst d) \<Longrightarrow> updates ls d \<Longrightarrow> \<forall>l\<in>set ls. \<not> (l_agent_id l = a \<and> l_symbol l = s) \<Longrightarrow>
   held a s (put_lots ls d) = held a s d"
proof (induction ls arbitrary: d)
  case (Cons l ls)
  then obtain l0 where "dict_get d (l_id l) = Some l0" "same_purchase l l0"
    by (auto simp: updates_def)
  with Cons updates_Cons [OF Cons.prems(2)] show ?case
    by (auto simp: held_set held_part_def same_purchase_def)
qed simp

text \<open>Selling \<open>q\<close> takes exactly \<open>q\<close> out, plus at most one sliver worth less than a cent.\<close>

definition sold :: "decimal \<Rightarrow> decimal \<Rightarrow> decimal \<Rightarrow> decimal \<Rightarrow> bool" where
  "sold px q before after \<longleftrightarrow>
     (\<exists>d. 0 \<le> d \<and> after = before - q - d \<and> (d = 0 \<or> d * px < 1 / 100))"

lemma dround_cent: "dround (1 / 100) = 1 / 100"
  by (rule dround_grid [where k = 2]) (auto simp: on_grid_def intro!: exI [of _ 1])

lemma snapped_sliver:
  "0 \<le> r \<Longrightarrow> \<exists>d. 0 \<le> d \<and> snapped_remaining ex r = r - d \<and> (d = 0 \<or> d * f_price ex < 1 / 100)"
  using dec.rnd_ge_fixed [OF dround_cent, of "r * f_price ex"]
  by (cases "snapped_remaining ex r = r")
    (force simp: snapped_remaining_def dust_notional_usd_def dmul_def not_less split: if_splits
      intro: exI [of _ 0])+

lemma consume_lots_held:
  assumes "distinct (map fst d)" "distinct (map l_id ls)"
    and "\<forall>l\<in>set ls. dict_get d (l_id l) = Some l \<and> l_agent_id l = a \<and> l_symbol l = s
           \<and> 0 < l_remaining_qty l \<and> on_step k (l_remaining_qty l)"
    and "0 \<le> q" "on_step k q" "q \<le> sum_list (map l_remaining_qty ls)"
    and "sum_list (map l_remaining_qty ls) * 10 ^ k \<le> 10 ^ 28"
  shows "sold (f_price ex) q (held a s d) (held a s (put_lots (consume_lots ex q ls) d))"
  using assms
proof (induction ex q ls arbitrary: d rule: consume_lots.induct)
  case (1 ex rtc)
  then show ?case by (simp add: sold_def)
next
  case (2 ex q l ls)
  let ?r = "l_remaining_qty l" and ?S = "sum_list (map l_remaining_qty ls)"
  have S: "0 \<le> ?S" by (rule sum_list_nonneg) (use 2(4) in \<open>auto intro: less_imp_le\<close>)
  have l: "dict_get d (l_id l) = Some l" "held_part a s l = ?r" "0 < ?r" "on_step k ?r"
    using 2(4) by (auto simp: held_part_def)
  have part: "held_part a s (consume_lot ex c l) = snapped_remaining ex (dsub ?r c)" for c
    using 2(4) by (simp add: held_part_def)
  consider "q = 0" | "0 < q" "?r \<le> q" | "0 < q" "q < ?r" using 2(5) by linarith
  then show ?case
  proof cases
    case 1
    then show ?thesis by (simp add: sold_def)
  next
    case ge: 2
    let ?m = "consume_lot ex ?r l" and ?q = "q - ?r"
    let ?d = "dict_set (l_id l) ?m d"
    have z: "held_part a s ?m = 0" using part [of ?r] by (simp add: dsub_def snapped_remaining_def)
    have "?q * 10 ^ k \<le> (?r + ?S) * 10 ^ k"
      by (rule mult_right_mono) (use 2(7) l(3) S in auto)
    then have "?q * 10 ^ k \<le> 10 ^ 28" by (rule order_trans) (use 2(8) in simp)
    then have q': "dsub q ?r = ?q" unfolding dsub_def
      using ge(2) 2(6) l(4) by (intro dround_step [where k = k]) (auto intro: on_step_diff)
    have "?S * 10 ^ k \<le> (?r + ?S) * 10 ^ k" by (rule mult_right_mono) (use l(3) in auto)
    then have small: "?S * 10 ^ k \<le> 10 ^ 28" by (rule order_trans) (use 2(8) in simp)
    have still: "\<forall>m\<in>set ls. dict_get ?d (l_id m) = Some m \<and> l_agent_id m = a \<and> l_symbol m = s
        \<and> 0 < l_remaining_qty m \<and> on_step k (l_remaining_qty m)"
    proof
      fix m assume m: "m \<in> set ls"
      with 2(3) have "l_id m \<noteq> l_id l" by (auto simp: image_iff)
      with bspec [OF 2(4), of m] m show "dict_get ?d (l_id m) = Some m \<and> l_agent_id m = a \<and> l_symbol m = s
        \<and> 0 < l_remaining_qty m \<and> on_step k (l_remaining_qty m)" by simp
    qed
    have "on_step k ?q" using 2(6) l(4) by (rule on_step_diff)
    have "sold (f_price ex) ?q (held a s ?d) (held a s (put_lots (consume_lots ex ?q ls) ?d))"
      by (rule 2(1) [of ?r ?d, unfolded q', OF _ _ _ _ still _ \<open>on_step k ?q\<close> _ small])
        (use ge 2(2,3,7) in simp_all)
    moreover have "consume_lots ex q (l # ls) = ?m # consume_lots ex ?q ls"
      using ge q' by (simp add: Let_def min_def)
    ultimately show ?thesis
      using held_set [OF 2(2) l(1), of a s ?m] l(2) z by (auto simp: sold_def)
  next
    case 3
    let ?m = "consume_lot ex q l"
    have cl: "consume_lots ex q (l # ls) = [?m]"
      using 3 by (cases ls) (simp_all add: Let_def min_def dsub_def)
    have "(?r - q) * 10 ^ k \<le> (?r + ?S) * 10 ^ k"
      by (rule mult_right_mono) (use 3 S in auto)
    then have "(?r - q) * 10 ^ k \<le> 10 ^ 28" by (rule order_trans) (use 2(8) in simp)
    then have "dsub ?r q = ?r - q" unfolding dsub_def
      using 3 2(6) l(4) by (intro dround_step [where k = k]) (auto intro: on_step_diff)
    then show ?thesis unfolding cl
      using held_set [OF 2(2) l(1), of a s ?m] l(2) part [of q] 3 snapped_sliver [of "?r - q" ex]
      by (auto simp: sold_def)
  qed
qed

subsection \<open>A sale against the book\<close>

lemma sum_list_sort: "sum_list (map f (sort_key h xs)) = (sum_list (map f xs) :: decimal)"
proof -
  have "sum_mset (image_mset f (mset (sort_key h xs))) = sum_mset (image_mset f (mset xs))"
    by simp
  then show ?thesis by (simp only: mset_map [symmetric] sum_mset_sum_list)
qed

lemma lot_rest_nonneg: "lot_ok l \<Longrightarrow> 0 \<le> l_remaining_qty l"
  by (auto simp: lot_ok_def split: if_splits)

lemma candidate_sum:
  "\<forall>l\<in>snd ` set d. lot_ok l \<Longrightarrow>
   sum_list (map l_remaining_qty (filter (is_candidate a s) (map snd d))) = held a s d"
  by (induction d) (auto simp: held_def held_part_def is_candidate_def lot_ok_def split: if_splits)

lemma ledger_lots_ok: "ledger_ok g \<Longrightarrow> \<forall>l\<in>snd ` set (lg_lots g). lot_ok l"
  by (fastforce simp: ledger_ok_def lots_ok_def)

lemma held_candidates:
  "ledger_ok g \<Longrightarrow> sum_list (map l_remaining_qty (candidates a s meth g)) = held a s (lg_lots g)"
  using candidate_sum [OF ledger_lots_ok, of g a s]
  by (simp add: candidates_def Let_def sum_list_sort)

lemma held_le_all:
  "\<forall>l\<in>snd ` set d. lot_ok l \<Longrightarrow> held a s d \<le> sum_list (map (l_remaining_qty \<circ> snd) d)"
  unfolding held_def by (rule sum_list_mono) (auto simp: held_part_def lot_rest_nonneg)

lemma held_bound:
  assumes "ledger_ok g" "grid_book k (lg_lots g)"
  shows "held a s (lg_lots g) * 10 ^ k \<le> 10 ^ 28"
proof -
  have "held a s (lg_lots g) * 10 ^ k \<le> sum_list (map (l_remaining_qty \<circ> snd) (lg_lots g)) * 10 ^ k"
    by (rule mult_right_mono [OF held_le_all [OF ledger_lots_ok [OF assms(1)]]]) simp
  then show ?thesis by (rule order_trans) (use assms(2) in \<open>simp add: grid_book_def\<close>)
qed

text \<open>What the code calls \<open>available\<close> is the exact holding.\<close>

lemma available_exact:
  assumes "ledger_ok g" "grid_book k (lg_lots g)"
  shows "dsum (map l_remaining_qty (candidates a s meth g)) = held a s (lg_lots g)"
proof -
  have "\<forall>x\<in>set (map l_remaining_qty (candidates a s meth g)). 0 \<le> x \<and> on_step k x"
    using candidates_open [OF assms(1), of a s meth] assms(2) by (auto simp: grid_book_def lot_rest_nonneg)
  from dsum_exact [OF this] show ?thesis
    using held_bound [OF assms] by (simp add: held_candidates [OF assms(1)])
qed

lemma candidates_distinct:
  assumes "ledger_ok g"
  shows "distinct (map l_id (candidates a s meth g))"
proof -
  have "map l_id (map snd (lg_lots g)) = map fst (lg_lots g)" "distinct (map fst (lg_lots g))"
    using assms by (auto simp: ledger_ok_def lots_ok_def)
  then have "distinct (map l_id (filter (is_candidate a s) (map snd (lg_lots g))))"
    by (metis distinct_map_filter)
  then show ?thesis
    by (auto simp: candidates_def Let_def distinct_map)
qed

lemma close_lots_iff:
  assumes "ledger_ok g" "grid_book k (lg_lots g)" "f_side ex = SELL"
  shows "close_lots a s q ex meth g =
    (if held a (normalize_symbol s) (lg_lots g) < q then Inl ValueError
     else (let aff = consume_lots ex q (candidates a (normalize_symbol s) meth g) in
           Inr (aff, foldl (\<lambda>h l. persist_lot l h) (g\<lparr>lg_lots := put_lots aff (lg_lots g)\<rparr>) aff)))"
  by (simp add: close_lots_def Let_def available_exact [OF assms(1,2)] assms(3))

lemma close_lots_lots:
  "close_lots a s q ex meth g = Inr (aff, g') \<Longrightarrow>
   aff = consume_lots ex q (candidates a (normalize_symbol s) meth g) \<and> lg_lots g' = put_lots aff (lg_lots g)"
  by (auto simp: close_lots_def Let_def foldl_persist split: if_splits)

lemma close_lots_sold:
  assumes ok: "ledger_ok g" "grid_book k (lg_lots g)"
    and q: "0 \<le> q" "on_step k q" and res: "close_lots a s q ex meth g = Inr (aff, g')"
  shows "sold (f_price ex) q (held a (normalize_symbol s) (lg_lots g)) (held a (normalize_symbol s) (lg_lots g'))"
proof -
  let ?s = "normalize_symbol s" and ?cs = "candidates a (normalize_symbol s) meth g"
  have "f_side ex = SELL" using res by (auto simp: close_lots_def order_side.exhaust split: if_splits)
  then have le: "q \<le> held a ?s (lg_lots g)"
    using close_lots_iff [OF ok, of ex a s q meth] res by (auto split: if_splits)
  have cs: "\<forall>l\<in>set ?cs. dict_get (lg_lots g) (l_id l) = Some l \<and> l_agent_id l = a \<and> l_symbol l = ?s
      \<and> 0 < l_remaining_qty l \<and> on_step k (l_remaining_qty l)"
    using ok by (auto simp: ledger_ok_def lots_ok_def is_candidate_def grid_book_def)
  have "distinct (map fst (lg_lots g))" using ok by (simp add: ledger_ok_def lots_ok_def)
  from consume_lots_held [OF this candidates_distinct [OF ok(1)] cs q] le held_bound [OF ok]
    close_lots_lots [OF res]
  show ?thesis by (simp add: held_candidates [OF ok(1)])
qed

lemma close_lots_held_other:
  assumes ok: "ledger_ok g" and res: "close_lots a s q ex meth g = Inr (aff, g')"
    and other: "\<not> (b = a \<and> t = normalize_symbol s)"
  shows "held b t (lg_lots g') = held b t (lg_lots g)"
proof -
  note aff = close_lots_lots [OF res]
  have "\<forall>l\<in>set aff. l_agent_id l = a \<and> l_symbol l = normalize_symbol s"
    using aff by (fastforce dest: consume_lots_purchase simp: same_purchase_def is_candidate_def)
  with other have "\<forall>l\<in>set aff. \<not> (l_agent_id l = b \<and> l_symbol l = t)" by blast
  then show ?thesis
    using aff affected_updates [OF ok] ok by (auto simp: ledger_ok_def lots_ok_def intro!: held_put_other)
qed

subsection \<open>Order of consumption\<close>

lemma consume_lots_take:
  assumes "\<And>l m. same_purchase m l \<Longrightarrow> f m = f l"
  shows "map f (consume_lots ex q ls) = take (length (consume_lots ex q ls)) (map f ls)"
proof (induction ex q ls rule: consume_lots.induct)
  case (2 ex q l ls)
  then show ?case by (simp add: Let_def assms [OF consume_lot_purchase])
qed simp

definition consumed_first :: "lot_method \<Rightarrow> lot \<Rightarrow> lot \<Rightarrow> bool" where
  "consumed_first meth m l \<longleftrightarrow>
     (if meth = LIFO then l_entry_date l \<le> l_entry_date m else l_entry_date m \<le> l_entry_date l)"

lemma candidates_sorted:
  "sorted_wrt (consumed_first meth) (candidates a s meth g)"
proof -
  have "sorted (map (\<lambda>l. - l_entry_date l) (sort_key (\<lambda>l. - l_entry_date l) xs))"
    "sorted (map l_entry_date (sort_key l_entry_date xs))" for xs by simp_all
  then show ?thesis
    by (cases meth) (simp_all add: candidates_def Let_def consumed_first_def [abs_def] sorted_map)
qed

lemma consumed_order:
  assumes ok: "ledger_ok g" and res: "close_lots a s q ex meth g = Inr (aff, g')"
    and m: "m \<in> set aff" and l: "l \<in> set (open_lots a s g)" "l_id l \<notin> l_id ` set aff"
  shows "consumed_first meth m l"
proof -
  let ?cs = "candidates a (normalize_symbol s) meth g"
  let ?n = "length aff"
  have aff: "aff = consume_lots ex q ?cs" using close_lots_lots [OF res] by blast
  have "lot_ok l" using ledger_lots_ok [OF ok] l(1) by (auto simp: open_lots_def)
  with l(1) have lc: "l \<in> set ?cs" by (auto simp: open_lots_def is_candidate_def lot_ok_def)
  have ids: "map l_id aff = take ?n (map l_id ?cs)"
    and dates: "map l_entry_date aff = take ?n (map l_entry_date ?cs)"
    unfolding aff by (rule consume_lots_take; simp add: same_purchase_def)+
  obtain i where i: "i < ?n" "m = aff ! i" using m by (auto simp: in_set_conv_nth)
  obtain j where j: "j < length ?cs" "l = ?cs ! j" using lc unfolding in_set_conv_nth by blast
  have len: "?n \<le> length ?cs" unfolding aff by (rule consume_lots_length)
  have "?n \<le> j"
  proof (rule ccontr)
    assume "\<not> ?n \<le> j"
    then have "l_id l = map l_id aff ! j" using j len by (simp add: ids)
    also have "\<dots> \<in> l_id ` set aff" using \<open>\<not> ?n \<le> j\<close> by auto
    finally show False using l(2) by simp
  qed
  have "l_entry_date m = map l_entry_date aff ! i" using i by simp
  also have "\<dots> = l_entry_date (?cs ! i)" using i len by (simp add: dates)
  finally have "l_entry_date m = l_entry_date (?cs ! i)" .
  moreover have "consumed_first meth (?cs ! i) (?cs ! j)"
    by (rule sorted_wrt_nth_less [OF candidates_sorted]) (use i j \<open>?n \<le> j\<close> in auto)
  ultimately show ?thesis by (cases meth) (simp_all add: consumed_first_def j)
qed

subsection \<open>Replay and reload\<close>

interpretation booking: dedup_consumer "\<lambda>f. book_fill f meth" f_id lg_booked
  for meth by unfold_locales (simp_all add: book_fill_seen book_fill_booked)

definition log_fills :: "logged_event list \<Rightarrow> fill list" where
  "log_fills es = List.map_filter
     (\<lambda>e. if e_kind e \<noteq> FILL_RECEIVED then None
          else (case deserialize_fill (e_payload e) of Inl _ \<Rightarrow> None | Inr f \<Rightarrow> Some f)) es"

lemma replay_events_feed: "snd (replay_events es g) = booking.feed FIFO (log_fills es) g"
  by (induction es g rule: replay_events.induct)
    (auto simp: log_fills_def map_filter_simps Let_def case_prod_beta split: sum.split)

lemma log_fills_Cons:
  "log_fills (e # es) = (if e_kind e \<noteq> FILL_RECEIVED then log_fills es
     else (case deserialize_fill (e_payload e) of Inl _ \<Rightarrow> log_fills es | Inr f \<Rightarrow> f # log_fills es))"
  by (auto simp: log_fills_def map_filter_simps split: sum.split)

lemma replay_events_none:
  "f_id ` set (log_fills es) \<subseteq> lg_booked g \<Longrightarrow> replay_events es g = (0, g)"
  by (induction es) (auto simp: log_fills_Cons Let_def book_fill_seen split: sum.splits if_splits)

lemma replay_again: "replay_events es (snd (replay_events es g)) = (0, snd (replay_events es g))"
  by (rule replay_events_none) (auto simp: replay_events_feed booking.seen_feed)

lemma load_get:
  assumes "lots_ok n b d" "mirrors db d"
  shows "put_lots (map (lot_post_init \<circ> snd) (db_lots db)) [] = db_lots db"
proof -
  have lot: "lot_post_init (snd x) = snd x \<and> l_id (snd x) = fst x" if "x \<in> set (db_lots db)" for x
  proof -
    have "map_of d (fst x) = Some (snd x)"
      using that assms(2) dict_get_in_set [of "db_lots db" "fst x" "snd x"] by (simp add: mirrors_def)
    then have "(fst x, snd x) \<in> set d" by (rule map_of_SomeD)
    with assms(1) show ?thesis by (auto simp: lots_ok_def lot_ok_def split: if_splits)
  qed
  then have eq: "map (lot_post_init \<circ> snd) (db_lots db) = map snd (db_lots db)"
    and ids: "map l_id (map snd (db_lots db)) = map fst (db_lots db)" by auto
  have "distinct (map l_id (map snd (db_lots db)))"
    using assms(2) by (simp only: ids) (simp add: mirrors_def)
  then show ?thesis
    using lot put_lots_fresh [of "map snd (db_lots db)" "[]"] unfolding eq by (simp add: map_idI comp_def)
qed

lemma load_from_db_ok:
  assumes ok: "ledger_ok g" and db: "lg_db g = Some db"
  shows "map_of (lg_lots (load_from_db db n)) = map_of (lg_lots g)"
    "lg_booked (load_from_db db n) = lg_booked g" "lg_db (load_from_db db n) = Some db"
proof -
  from ok db have "lots_ok (lg_next g) (lg_booked g) (lg_lots g)" "mirrors db (lg_lots g)"
    "set (db_booked db) = lg_booked g" by (auto simp: ledger_ok_def db_sync_def)
  then show "map_of (lg_lots (load_from_db db n)) = map_of (lg_lots g)"
    "lg_booked (load_from_db db n) = lg_booked g" "lg_db (load_from_db db n) = Some db"
    by (auto simp: load_from_db_def load_get) (simp_all add: mirrors_def)
qed

lemma held_perm: "mset d = mset e \<Longrightarrow> held a s d = held a s e"
  unfolding held_def by (metis mset_map sum_mset_sum_list)

lemma load_from_db_held:
  assumes ok: "ledger_ok g" and db: "lg_db g = Some db"
  shows "held a s (lg_lots (load_from_db db n)) = held a s (lg_lots g)"
proof -
  from ok db have m: "lots_ok (lg_next g) (lg_booked g) (lg_lots g)" "mirrors db (lg_lots g)"
    by (auto simp: ledger_ok_def db_sync_def)
  then have "mset (db_lots db) = mset (lg_lots g)"
    by (intro distinct_keys_perm) (auto simp: mirrors_def lots_ok_def)
  with m show ?thesis
    by (intro held_perm) (simp add: load_from_db_def load_get)
qed

subsection \<open>A small book\<close>

text \<open>Two purchases of the same agent on consecutive days, with a database.\<close>

definition sample_fill :: "fill_id \<Rightarrow> order_side \<Rightarrow> decimal \<Rightarrow> datetime \<Rightarrow> fill" where
  "sample_fill i side qty ts = \<lparr>f_id = i, f_order_id = 0, f_agent_id = SONNET, f_symbol = ''SPY'', f_side = side,
     f_qty = qty, f_price = 100, f_timestamp = ts, f_commission = 0, f_is_partial = False\<rparr>"

lemma sample_fill_fields [simp]:
  "f_id (sample_fill i side qty ts) = i" "f_side (sample_fill i side qty ts) = side"
  "f_qty (sample_fill i side qty ts) = qty" "f_agent_id (sample_fill i side qty ts) = SONNET"
  "f_symbol (sample_fill i side qty ts) = ''SPY''" "f_price (sample_fill i side qty ts) = 100"
  "f_timestamp (sample_fill i side qty ts) = ts"
  by (simp_all add: sample_fill_def)

definition sample_lot :: "lot_id \<Rightarrow> fill_id \<Rightarrow> decimal \<Rightarrow> date \<Rightarrow> lot" where
  "sample_lot i fid qty d = \<lparr>l_id = i, l_agent_id = SONNET, l_symbol = ''SPY'', l_qty = qty, l_entry_price = 100,
     l_entry_date = d, l_entry_fill_id = fid, l_remaining_qty = qty, l_exit_fill_id = None, l_exit_date = None,
     l_exit_price = None, l_is_closed = False\<rparr>"

definition sample_book :: ledger where
  "sample_book = foldl (\<lambda>g f. book_fill f FIFO g) (empty_ledger (Some \<lparr>db_lots = [], db_booked = []\<rparr>))
     [sample_fill 1 BUY 3 0, sample_fill 2 BUY 2 us_per_day]"

lemma empty_ledger_ok: "ledger_ok (empty_ledger (Some \<lparr>db_lots = [], db_booked = []\<rparr>))"
  by (simp add: ledger_ok_def empty_ledger_def lots_ok_def db_sync_def mirrors_def)

lemma sample_book_ok: "ledger_ok sample_book"
  unfolding sample_book_def foldl.simps
  by (intro book_fill_ok empty_ledger_ok) (simp_all add: dround_small)

lemma sample_book_lots:
  "lg_lots sample_book = [(0, sample_lot 0 1 3 0), (1, sample_lot 1 2 2 1)]" "lg_booked sample_book = {1, 2}"
  "lg_db sample_book \<noteq> None"
  by (auto simp: sample_book_def empty_ledger_def book_fill_def persist_booked_def open_lot_def persist_lot_def
      sample_lot_def Let_def lot_post_init_def normalize_symbol_def date_of_def us_per_day_def us_per_hour_def)

lemma sample_book_grid: "grid_book 0 (lg_lots sample_book)"
  by (auto simp: grid_book_def sample_book_lots sample_lot_def on_step_def)

lemma sample_book_held: "held SONNET ''SPY'' (lg_lots sample_book) = 5"
  by (simp add: held_def held_part_def sample_book_lots sample_lot_def)

lemma plain_spy: "normalize_symbol ''SPY'' = ''SPY''"
  by (simp add: normalize_symbol_def)

lemma sample_sale:
  "close_lots SONNET ''SPY'' 4 (sample_fill 9 SELL 4 t) FIFO sample_book \<noteq> Inl e"
  "close_lots SONNET ''SPY'' 6 (sample_fill 9 SELL 6 t) FIFO sample_book = Inl ValueError"
  by (simp_all add: close_lots_iff [OF sample_book_ok sample_book_grid] plain_spy sample_book_held Let_def)

text \<open>
  C12 Booking any sequence of fills keeps the ledger well formed: unique ids, one lot per entry
  fill, every open lot with a positive rest within its quantity, every closed one with its exit, and the database
  an exact copy.
\<close>

theorem booking_keeps_ledger:
  assumes "ledger_ok g" "\<forall>f\<in>set fs. 0 < f_qty f \<and> dround (f_qty f) = f_qty f"
  shows "ledger_ok (foldl (\<lambda>g f. book_fill f meth g) g fs)"
  using assms by (induction fs arbitrary: g) (auto intro: book_fill_ok)

theorem booking_keeps_ledger_witness:
  "ledger_ok (foldl (\<lambda>g f. book_fill f LIFO g) sample_book [sample_fill 3 SELL 4 us_per_day, sample_fill 4 BUY 1 us_per_day])"
  by (rule booking_keeps_ledger [OF sample_book_ok]) (simp add: dround_small)

text \<open>
  C7 A sale of \<open>q\<close> is refused exactly if the agent holds less of the symbol. Otherwise the holding
  falls by exactly \<open>q\<close> and at most a sliver worth less than a cent, and no other
  holding changes.
\<close>

theorem sale_settles:
  assumes "ledger_ok g" "grid_book k (lg_lots g)" "0 \<le> q" "on_step k q" "f_side ex = SELL"
  shows "case close_lots a s q ex meth g of
      Inl e \<Rightarrow> e = ValueError \<and> held a (normalize_symbol s) (lg_lots g) < q
    | Inr (aff, g') \<Rightarrow> q \<le> held a (normalize_symbol s) (lg_lots g)
        \<and> sold (f_price ex) q (held a (normalize_symbol s) (lg_lots g)) (held a (normalize_symbol s) (lg_lots g'))
        \<and> (\<forall>b t. (b, t) \<noteq> (a, normalize_symbol s) \<longrightarrow> held b t (lg_lots g') = held b t (lg_lots g))"
proof (cases "close_lots a s q ex meth g")
  case (Inl e)
  then show ?thesis using close_lots_iff [OF assms(1,2,5), of a s q meth] by (auto simp: Let_def split: if_splits)
next
  case (Inr r)
  obtain aff g' where r: "r = (aff, g')" by fastforce
  have res: "close_lots a s q ex meth g = Inr (aff, g')" using Inr r by simp
  then have "q \<le> held a (normalize_symbol s) (lg_lots g)"
    using close_lots_iff [OF assms(1,2,5), of a s q meth] by (auto simp: Let_def split: if_splits)
  then show ?thesis
    using close_lots_sold [OF assms(1-4) res] close_lots_held_other [OF assms(1) res] by (simp add: Inr r)
qed

theorem sale_settles_witness:
  "\<exists>aff g'. close_lots SONNET ''SPY'' 4 (sample_fill 9 SELL 4 0) FIFO sample_book = Inr (aff, g')
    \<and> sold 100 4 5 (held SONNET ''SPY'' (lg_lots g'))"
  using sale_settles [OF sample_book_ok sample_book_grid, of 4 "sample_fill 9 SELL 4 0" SONNET "''SPY''" FIFO]
  by (auto simp: on_step_def plain_spy sample_book_held sample_sale(1) split: sum.splits)

text \<open>
  Lots are consumed in the order of the method: no lot left untouched was bought before (FIFO) or
  after (LIFO) a consumed one, and every consumed lot but the last is closed.
\<close>

lemma sale_follows_method:
  assumes "ledger_ok g" "close_lots a s q ex meth g = Inr (aff, g')"
  shows "(\<forall>m\<in>set aff. \<forall>l\<in>set (open_lots a s g). l_id l \<notin> l_id ` set aff \<longrightarrow> consumed_first meth m l)
    \<and> (\<forall>l\<in>set (butlast aff). l_is_closed l)"
  using consumed_order [OF assms] close_lots_lots [OF assms(2)] consume_lots_closed by blast

lemma sale_follows_method_example:
  "\<exists>aff g'. close_lots SONNET ''SPY'' 4 (sample_fill 9 SELL 4 0) FIFO sample_book = Inr (aff, g')
    \<and> (\<forall>l\<in>set (butlast aff). l_is_closed l)"
proof (cases "close_lots SONNET ''SPY'' 4 (sample_fill 9 SELL 4 0) FIFO sample_book")
  case (Inr r)
  then show ?thesis using sale_follows_method [OF sample_book_ok, of SONNET "''SPY''" 4 _ FIFO "fst r" "snd r"]
    by (intro exI [of _ "fst r"] exI [of _ "snd r"]) auto
qed (simp add: sample_sale(1))

text \<open>
  Replaying an order log whose fills were all booked live books nothing and leaves the
  ledger as it is, however often and in whatever order they were delivered: no fill counts twice.
\<close>

lemma replay_never_books_twice:
  assumes "f_id ` set (log_fills (iter_all st)) \<subseteq> f_id ` set fs"
  shows "replay_from_oms_store st (foldl (\<lambda>g f. book_fill f meth g) g fs) = (0, foldl (\<lambda>g f. book_fill f meth g) g fs)"
  unfolding replay_from_oms_store_def
  by (rule replay_events_none) (use assms booking.seen_feed [of meth fs g] in \<open>auto simp: booking.feed_def\<close>)

lemma replay_never_books_twice_example:
  "\<exists>st g. length st = 1 \<and> lg_booked g = {7} \<and> replay_from_oms_store st g = (0, g)"
proof -
  let ?f = "sample_fill 7 BUY 1 0"
  let ?st = "append_event FILL_RECEIVED 0 (serialize_fill ?f) 0 []"
  let ?g = "foldl (\<lambda>g f. book_fill f FIFO g) (empty_ledger None) [?f]"
  have "iter_all [] = []" by (simp add: iter_all_def)
  then have "log_fills (iter_all ?st) = [?f]" by (simp add: iter_all_append log_fills_Cons) (simp add: log_fills_def)
  then have "replay_from_oms_store ?st ?g = (0, ?g)" by (intro replay_never_books_twice) simp
  then show ?thesis
    by (intro exI [of _ ?st] exI [of _ ?g]) (simp add: append_event_def book_fill_booked, simp add: empty_ledger_def)
qed

definition empty_db :: ledger_db where
  "empty_db = \<lparr>db_lots = [], db_booked = []\<rparr>"

lemma empty_db_ok: "ledger_ok (empty_ledger (Some empty_db))"
  unfolding empty_db_def by (rule empty_ledger_ok)

definition book_all :: "(fill \<times> lot_method) list \<Rightarrow> ledger \<Rightarrow> ledger" where
  "book_all fs g = foldl (\<lambda>g (f, meth). book_fill f meth g) g fs"

lemma book_all_ok: "ledger_ok g \<Longrightarrow> \<forall>(f, meth)\<in>set fs. 0 < f_qty f \<and> dround (f_qty f) = f_qty f \<Longrightarrow> ledger_ok (book_all fs g)"
  unfolding book_all_def by (induction fs arbitrary: g) (auto intro: book_fill_ok)

lemma book_all_db: "lg_db (book_all fs g) = None \<longleftrightarrow> lg_db g = None"
proof (induction fs arbitrary: g)
  case (Cons x fs)
  have p: "lg_db (persist_booked i g) = None \<longleftrightarrow> lg_db g = None" for i g
    by (simp add: persist_booked_def split: option.split)
  have op: "open_lot f g = Inr (l, g') \<Longrightarrow> lg_db g' = None \<longleftrightarrow> lg_db g = None" for f g l g'
    by (auto simp: open_lot_def Let_def persist_lot_def split: if_splits)
  have cl: "close_lots a s q ex meth g = Inr (aff, g') \<Longrightarrow> lg_db g' = None \<longleftrightarrow> lg_db g = None" for a s q ex meth g aff g'
    by (auto simp: close_lots_def Let_def foldl_persist split: if_splits)
  have "lg_db (book_fill f meth g) = None \<longleftrightarrow> lg_db g = None" for f meth
    by (auto simp: book_fill_def Let_def p split: sum.split) (auto simp: op cl p)
  with Cons.IH show ?case by (cases x) (simp add: book_all_def)
qed (simp add: book_all_def)

text \<open>
  C16 Whatever fills with exact positive quantities are booked from an empty database on, under either method, refused
  sales and repeated fills included: a ledger loaded from the database then has the same lots, the same booked
  fills and the same holdings as the one in memory.
\<close>

theorem ledger_reloads:
  assumes "\<forall>(f, meth)\<in>set fs. 0 < f_qty f \<and> dround (f_qty f) = f_qty f"
  shows "\<exists>db. lg_db (book_all fs (empty_ledger (Some empty_db))) = Some db
    \<and> map_of (lg_lots (load_from_db db n)) = map_of (lg_lots (book_all fs (empty_ledger (Some empty_db))))
    \<and> lg_booked (load_from_db db n) = lg_booked (book_all fs (empty_ledger (Some empty_db)))
    \<and> held a s (lg_lots (load_from_db db n)) = held a s (lg_lots (book_all fs (empty_ledger (Some empty_db))))"
proof -
  let ?g = "book_all fs (empty_ledger (Some empty_db))"
  have ok: "ledger_ok ?g" by (rule book_all_ok [OF empty_db_ok assms])
  obtain db where db: "lg_db ?g = Some db" using book_all_db [of fs "empty_ledger (Some empty_db)"] by (auto simp: empty_ledger_def)
  show ?thesis using db load_from_db_ok [OF ok db] load_from_db_held [OF ok db] by auto
qed

theorem ledger_reloads_witness:
  "\<exists>db. lg_db (book_all [(sample_fill 1 BUY 2 0, FIFO), (sample_fill 2 BUY 3 us_per_day, FIFO)] (empty_ledger (Some empty_db))) = Some db
     \<and> lg_booked (load_from_db db 7) = {1, 2}"
proof -
  let ?fs = "[(sample_fill 1 BUY 2 0, FIFO), (sample_fill 2 BUY 3 us_per_day, FIFO)]"
  have "lg_booked (book_all ?fs (empty_ledger (Some empty_db))) = {1, 2}"
    by (auto simp: book_all_def book_fill_booked empty_ledger_def)
  moreover have "\<forall>(f, meth)\<in>set ?fs. 0 < f_qty f \<and> dround (f_qty f) = f_qty f" by (simp add: dround_small)
  ultimately show ?thesis using ledger_reloads [of ?fs 7] by fastforce
qed

text \<open>
  A sale of more than is held leaves every lot as it is, yet the fill is marked as booked: no
  replay books it later, not even after the missing purchase has arrived.
\<close>

lemma oversold_fill_is_lost:
  assumes "ledger_ok g" "grid_book k (lg_lots g)" "f_side f = SELL" "f_id f \<notin> lg_booked g"
    and "held (f_agent_id f) (normalize_symbol (f_symbol f)) (lg_lots g) < f_qty f"
  shows "lg_lots (book_fill f meth g) = lg_lots g
    \<and> book_fill f meth' (foldl (\<lambda>g f. book_fill f meth g) (book_fill f meth g) fs)
        = foldl (\<lambda>g f. book_fill f meth g) (book_fill f meth g) fs"
proof -
  define g1 where "g1 = persist_booked (f_id f) (g\<lparr>lg_booked := insert (f_id f) (lg_booked g)\<rparr>)"
  have "ledger_ok g1" unfolding g1_def by (rule mark_booked_ok [OF assms(1,4)])
  then have "close_lots (f_agent_id f) (f_symbol f) (f_qty f) f meth g1 = Inl ValueError"
    using close_lots_iff [of g1 k f "f_agent_id f" "f_symbol f" "f_qty f" meth] assms(2,3,5) by (simp add: g1_def)
  then have "lg_lots (book_fill f meth g) = lg_lots g"
    using assms(3,4) by (simp add: book_fill_def Let_def g1_def)
  moreover have "f_id f \<in> lg_booked (booking.feed meth fs (book_fill f meth g))"
    by (simp add: booking.seen_feed book_fill_booked)
  ultimately show ?thesis by (simp add: book_fill_seen flip: booking.feed_def)
qed

lemma oversold_fill_is_lost_example:
  "lg_lots (book_fill (sample_fill 9 SELL 6 0) FIFO sample_book) = lg_lots sample_book"
  using oversold_fill_is_lost [OF sample_book_ok sample_book_grid, of "sample_fill 9 SELL 6 0" FIFO]
  by (simp add: sample_book_lots(2) plain_spy sample_book_held)

end
