(* ===== verification/Budget.thy ===== *)
theory Budget
  imports Kill_Switch
begin

text \<open>
  The daily spend ledger and its watcher (\<^verbatim>\<open>execution/budget.py\<close>) and the budget-gated
  client (\<^verbatim>\<open>agents/llm.py\<close>). The JSON file is a value of \<open>day_file\<close>; \<^verbatim>\<open>_flush\<close> writes
  it on every change. The provider's API is a parameter: \<open>api k\<close> is its answer to the
  \<open>k\<close>-th attempt of a call. Jitter on the waiting times, the response log and the hash of
  the prompt are not modelled; the watcher's thread is its repeated \<open>check_once\<close>.
\<close>

record spend_entry =
  se_ts :: datetime
  se_agent :: string
  se_call_type :: string
  se_cost :: decimal

datatype day_file = NoFile | CorruptFile | DayFile date decimal "spend_entry list"

record budget_ledger =
  bl_limit :: decimal
  bl_today :: "date option"
  bl_total :: decimal
  bl_entries :: "spend_entry list"
  bl_file :: day_file

definition default_daily_limit :: decimal where "default_daily_limit = 95 / 100"

subsection \<open>The ledger\<close>

definition load_budget :: "day_file \<Rightarrow> decimal \<Rightarrow> date \<Rightarrow> budget_ledger" where
  "load_budget file limit now =
     (let fresh = \<lparr>bl_limit = limit, bl_today = None, bl_total = 0, bl_entries = [], bl_file = file\<rparr> in
      case file of
        DayFile d tot es \<Rightarrow>
          if d \<noteq> now then fresh else fresh\<lparr>bl_today := Some d, bl_total := tot, bl_entries := es\<rparr>
      | _ \<Rightarrow> fresh)"

definition flush_budget :: "date \<Rightarrow> budget_ledger \<Rightarrow> budget_ledger" where
  "flush_budget wall b = b\<lparr>bl_file := DayFile (case bl_today b of None \<Rightarrow> wall | Some d \<Rightarrow> d)
     (bl_total b) (bl_entries b)\<rparr>"

definition ensure_date :: "date \<Rightarrow> budget_ledger \<Rightarrow> budget_ledger" where
  "ensure_date today b =
     (if bl_today b \<noteq> Some today then b\<lparr>bl_today := Some today, bl_total := 0, bl_entries := []\<rparr> else b)"

definition record_spend :: "string \<Rightarrow> decimal \<Rightarrow> string \<Rightarrow> datetime \<Rightarrow> budget_ledger \<Rightarrow> budget_ledger" where
  "record_spend agent cost call_type ts b =
     (let b1 = ensure_date (date_of ts) b in
      flush_budget (date_of ts)
        (b1\<lparr>bl_total := dadd (bl_total b1) cost,
            bl_entries := bl_entries b1 @ [\<lparr>se_ts = ts, se_agent = agent, se_call_type = call_type, se_cost = cost\<rparr>]\<rparr>))"

definition reset_if_new_day :: "date \<Rightarrow> budget_ledger \<Rightarrow> bool \<times> budget_ledger" where
  "reset_if_new_day today b =
     (if bl_today b = Some today then (False, b)
      else (True, flush_budget today (b\<lparr>bl_today := Some today, bl_total := 0, bl_entries := []\<rparr>)))"

definition remaining :: "budget_ledger \<Rightarrow> decimal" where
  "remaining b = max (dsub (bl_limit b) (bl_total b)) 0"

definition is_exhausted :: "budget_ledger \<Rightarrow> bool" where
  "is_exhausted b = (bl_limit b \<le> bl_total b)"

subsection \<open>The watcher\<close>

record watcher =
  bw_ledger :: budget_ledger
  bw_kill :: kill_engine
  bw_tripped :: bool
  bw_bus :: "decimal list option"

definition check_once :: "watcher \<Rightarrow> bool \<times> watcher" where
  "check_once w =
     (if bw_tripped w then (False, w)
      else if is_exhausted (bw_ledger w)
      then (True, w\<lparr>bw_kill := trip_budget_exhausted (bw_kill w), bw_tripped := True,
              bw_bus := map_option (\<lambda>es. es @ [bl_total (bw_ledger w)]) (bw_bus w)\<rparr>)
      else (False, w))"

definition reset_watcher :: "watcher \<Rightarrow> watcher" where
  "reset_watcher w = w\<lparr>bw_tripped := False\<rparr>"

subsection \<open>The gated client\<close>

definition haiku_model :: string where "haiku_model = ''claude-haiku-4-5-20251001''"
definition sonnet_model :: string where "sonnet_model = ''claude-sonnet-4-6''"
definition opus_model :: string where "opus_model = ''claude-opus-4-7''"

definition pricing :: "(string, decimal \<times> decimal \<times> decimal \<times> decimal) dict" where
  "pricing =
     [(haiku_model, (80 / 100000, 100 / 100000, 8 / 100000, 400 / 100000)),
      (sonnet_model, (300 / 100000, 375 / 100000, 30 / 100000, 1500 / 100000)),
      (opus_model, (1500 / 100000, 1875 / 100000, 150 / 100000, 7500 / 100000))]"

definition llm_cost :: "string \<Rightarrow> int \<Rightarrow> int \<Rightarrow> int \<Rightarrow> int \<Rightarrow> decimal" where
  "llm_cost model inp out cw ch =
     (let (p_in, p_cw, p_ch, p_out) =
        dict_get_or pricing model (80 / 100000, 100 / 100000, 8 / 100000, 400 / 100000)
      in ddiv (dadd (dadd (dadd (dmul (of_int inp) p_in) (dmul (of_int cw) p_cw))
                 (dmul (of_int ch) p_ch)) (dmul (of_int out) p_out)) 1000)"

datatype api_error = RateLimit | StatusError int | TimeoutError | ConnectionError | OtherError

record message =
  msg_text :: string
  msg_input :: int
  msg_output :: int
  msg_cache_write :: int
  msg_cache_hit :: int

datatype llm_error = BudgetExhausted | NoAttempts | ApiFailure api_error

definition backoff_529 :: "rat list" where "backoff_529 = [1, 4, 16]"

fun retryable :: "api_error \<Rightarrow> bool" where
  "retryable OtherError = False"
| "retryable _ = True"

text \<open>The wait, in seconds, before the attempt after number \<open>k\<close>.\<close>

fun backoff :: "api_error \<Rightarrow> nat \<Rightarrow> rat" where
  "backoff RateLimit k = 2 ^ k"
| "backoff (StatusError code) k = (if code = 529 \<and> k < length backoff_529 then backoff_529 ! k else 1)"
| "backoff _ k = (if k < length backoff_529 then backoff_529 ! k else last backoff_529)"

text \<open>\<open>attempts api r k\<close>: the loop with \<open>r\<close> attempts left, the next one being number \<open>k\<close>.\<close>

fun attempts :: "(nat \<Rightarrow> api_error + message) \<Rightarrow> nat \<Rightarrow> nat \<Rightarrow> (llm_error + message) \<times> rat list" where
  "attempts api 0 k = (Inl NoAttempts, [])"
| "attempts api (Suc r) k = (case api k of
       Inr m \<Rightarrow> (Inr m, [])
     | Inl e \<Rightarrow>
         if \<not> retryable e \<or> r = 0 then (Inl (ApiFailure e), [])
         else (let (res, sleeps) = attempts api r (Suc k) in (res, backoff e k # sleeps)))"

definition call_with_retry :: "(nat \<Rightarrow> api_error + message) \<Rightarrow> nat \<Rightarrow> (llm_error + message) \<times> rat list" where
  "call_with_retry api max_retries = attempts api max_retries 0"

definition estimated_cost :: "string \<Rightarrow> string \<Rightarrow> string \<Rightarrow> int \<Rightarrow> decimal" where
  "estimated_cost model system user max_tokens =
     llm_cost model ((int (length system) + int (length user)) div 4) max_tokens 0 0"

definition llm_call ::
  "string \<Rightarrow> nat \<Rightarrow> string \<Rightarrow> string \<Rightarrow> string \<Rightarrow> string \<Rightarrow> int \<Rightarrow> datetime
    \<Rightarrow> (nat \<Rightarrow> api_error + message) \<Rightarrow> budget_ledger \<Rightarrow> (llm_error + string) \<times> budget_ledger" where
  "llm_call model max_retries system user agent call_type max_tokens ts api b =
     (if remaining b < estimated_cost model system user max_tokens then (Inl BudgetExhausted, b)
      else (case fst (call_with_retry api max_retries) of
              Inl e \<Rightarrow> (Inl e, b)
            | Inr m \<Rightarrow>
                (let actual = llm_cost model (msg_input m) (msg_output m) (msg_cache_write m) (msg_cache_hit m)
                 in (Inr (msg_text m), record_spend agent actual call_type ts b))))"

lemmas budget_ops [op_defs] = flush_budget_def ensure_date_def record_spend_def reset_if_new_day_def
  check_once_def

subsection \<open>The ledger and its file\<close>

text \<open>The total is the decimal sum of the day's entries; the file holds the state of a dated ledger.\<close>

definition budget_ok :: "budget_ledger \<Rightarrow> bool" where
  "budget_ok b \<longleftrightarrow> bl_total b = dsum (map se_cost (bl_entries b))
     \<and> (\<forall>e\<in>set (bl_entries b). bl_today b = Some (date_of (se_ts e)))
     \<and> (\<forall>d. bl_today b = Some d \<longrightarrow> bl_file b = DayFile d (bl_total b) (bl_entries b))"

lemma dsum_Nil [simp]: "dsum [] = 0"
  by (simp add: dsum_def)

lemma record_spend_ok: "budget_ok b \<Longrightarrow> budget_ok (record_spend a c t ts b)"
  by (auto simp: budget_ok_def budget_ops Let_def dsum_snoc)

lemma reset_if_new_day_ok: "budget_ok b \<Longrightarrow> budget_ok (snd (reset_if_new_day d b))"
  by (auto simp: budget_ok_def budget_ops)

lemma fresh_budget_ok:
  "file = NoFile \<or> file = CorruptFile \<Longrightarrow> budget_ok (load_budget file limit now)"
  by (auto simp: budget_ok_def load_budget_def)

text \<open>A restart on the same day reads the state back.\<close>

lemma reload_budget:
  "budget_ok b \<Longrightarrow> bl_today b = Some d \<Longrightarrow> load_budget (bl_file b) (bl_limit b) d = b"
  by (auto simp: budget_ok_def load_budget_def Let_def)

lemma record_spend_frame [frame]:
  "bl_limit (record_spend a c t ts b) = bl_limit b" "bl_today (record_spend a c t ts b) = Some (date_of ts)"
  by (simp_all add: budget_ops Let_def)

lemma record_spend_total:
  "bl_total (record_spend a c t ts b) =
     dadd (if bl_today b = Some (date_of ts) then bl_total b else 0) c"
  by (simp add: budget_ops Let_def)

lemma remaining_exhausted: "is_exhausted b \<longleftrightarrow> remaining b = 0"
  by (auto simp: is_exhausted_def remaining_def dsub_def max_def)

subsection \<open>Retries\<close>

lemma attempts_first_success:
  "\<forall>i<n. \<exists>e. api (k + i) = Inl e \<and> retryable e \<Longrightarrow> api (k + n) = Inr m \<Longrightarrow> n < r \<Longrightarrow>
   fst (attempts api r k) = Inr m"
proof (induction n arbitrary: k r)
  case 0
  then show ?case by (cases r) simp_all
next
  case (Suc n)
  then obtain r' e where r: "r = Suc r'" "r' \<noteq> 0" and e: "api k = Inl e" "retryable e"
    by (cases r) (auto dest: spec [of _ 0])
  have "\<forall>i<n. \<exists>e. api (Suc k + i) = Inl e \<and> retryable e"
    using Suc.prems(1) by (auto dest: spec [of _ "Suc _"])
  with Suc.IH [of "Suc k" r'] Suc.prems r e show ?case by (simp add: case_prod_beta)
qed

lemma attempts_sleeps: "length (snd (attempts api r k)) < max r 1"
  by (induction api r k rule: attempts.induct) (auto simp: case_prod_beta split: sum.split)

lemma attempts_result:
  "fst (attempts api r k) = Inr m \<Longrightarrow>
   \<exists>n<r. api (k + n) = Inr m \<and> (\<forall>i<n. \<exists>e. api (k + i) = Inl e \<and> retryable e)"
proof (induction api r k rule: attempts.induct)
  case (2 api r k)
  show ?case
  proof (cases "api k")
    case (Inl e)
    with 2 obtain n where n: "n < r" "api (Suc k + n) = Inr m"
        "\<forall>i<n. \<exists>e. api (Suc k + i) = Inl e \<and> retryable e" and e: "retryable e"
      by (auto simp: case_prod_beta split: if_splits)
    have "\<exists>e. api (k + i) = Inl e \<and> retryable e" if "i < Suc n" for i
      using that n(3) Inl e by (cases i) auto
    with n show ?thesis by (intro exI [of _ "Suc n"]) simp
  qed (use 2 in auto)
qed simp

lemma attempts_iff:
  "fst (attempts api r 0) = Inr m \<longleftrightarrow>
     (\<exists>n<r. api n = Inr m \<and> (\<forall>i<n. \<exists>e. api i = Inl e \<and> retryable e))"
  using attempts_result [of api r 0 m] attempts_first_success [of _ api 0 m r] by auto

subsection \<open>The gate\<close>

lemma llm_cost_nonneg: "0 \<le> i \<Longrightarrow> 0 \<le> j \<Longrightarrow> 0 \<le> w \<Longrightarrow> 0 \<le> h \<Longrightarrow> 0 \<le> llm_cost model i j w h"
  by (auto simp: llm_cost_def dict_get_or_def pricing_def dec_defs split: option.split prod.split)

lemma llm_call_blocked:
  "is_exhausted b \<Longrightarrow> 0 < estimated_cost model system user mt \<Longrightarrow>
   llm_call model r system user a t mt ts api b = (Inl BudgetExhausted, b)"
  by (simp add: llm_call_def remaining_exhausted)

lemma llm_call_ok: "budget_ok b \<Longrightarrow> llm_call model r system user a t mt ts api b = (res, b') \<Longrightarrow> budget_ok b'"
  by (auto simp: llm_call_def Let_def record_spend_ok split: if_splits sum.splits)

subsection \<open>Properties\<close>

text \<open>
  A call of the client returns a text exactly if its estimated cost is within what remains of
  the budget and one of the allowed attempts succeeds after retryable failures only; the text is the
  one of that attempt.
\<close>

lemma llm_call_succeeds_iff:
  "fst (llm_call model r system user a ct mt ts api b) = Inr txt \<longleftrightarrow>
     estimated_cost model system user mt \<le> remaining b
     \<and> (\<exists>n m. n < r \<and> (\<forall>i<n. \<exists>e. api i = Inl e \<and> retryable e) \<and> api n = Inr m \<and> msg_text m = txt)"
proof -
  have "fst (llm_call model r system user a ct mt ts api b) = Inr txt \<longleftrightarrow>
     estimated_cost model system user mt \<le> remaining b
     \<and> (\<exists>m. fst (attempts api r 0) = Inr m \<and> msg_text m = txt)"
    by (auto simp: llm_call_def call_with_retry_def Let_def split: sum.split)
  then show ?thesis unfolding attempts_iff by blast
qed

lemma llm_call_succeeds_iff_example:
  "fst (llm_call haiku_model 3 [] [] ''haiku'' ''signal'' 0 7
      (\<lambda>k. if k = 0 then Inl RateLimit else Inr \<lparr>msg_text = ''ok'', msg_input = 1000, msg_output = 0,
         msg_cache_write = 0, msg_cache_hit = 0\<rparr>) (load_budget NoFile 1 0)) = Inr ''ok''"
  unfolding llm_call_succeeds_iff
proof (intro conjI exI)
  show "estimated_cost haiku_model [] [] 0 \<le> remaining (load_budget NoFile 1 0)"
    by (simp add: estimated_cost_def llm_cost_def dict_get_or_def pricing_def haiku_model_def remaining_def
        load_budget_def dec_eval)
  show "(1::nat) < 3" by simp
qed auto

text \<open>
  Whatever the provider answers, a call keeps the ledger's invariant (the total is the decimal sum of
  the day's entries, and the file holds it), so a process restarted on the same day reads
  exactly the ledger it had; a call that raises leaves the ledger as it was.
\<close>

lemma spend_survives_restart:
  assumes "llm_call model r system user a ct mt ts api b = (res, b')"
    and "budget_ok b" and "bl_today b = Some (date_of ts)"
  shows "load_budget (bl_file b') (bl_limit b) (date_of ts) = b'
    \<and> bl_total b' = dsum (map se_cost (bl_entries b')) \<and> (isl res \<longrightarrow> b' = b)"
proof -
  have "budget_ok b'" using assms by (simp add: llm_call_ok)
  moreover have "bl_limit b' = bl_limit b" "bl_today b' = Some (date_of ts)" "isl res \<longrightarrow> b' = b"
    using assms(1,3) by (auto simp: llm_call_def Let_def record_spend_frame split: if_splits sum.splits)
  ultimately show ?thesis using reload_budget [of b' "date_of ts"] by (simp add: budget_ok_def)
qed

lemma spend_survives_restart_example:
  "\<exists>b b'. llm_call haiku_model 3 [] [] ''haiku'' ''signal'' 0 7
      (\<lambda>k. if k = 0 then Inl RateLimit else Inr \<lparr>msg_text = ''ok'', msg_input = 1000, msg_output = 0,
         msg_cache_write = 0, msg_cache_hit = 0\<rparr>) b = (Inr ''ok'', b')
    \<and> b' \<noteq> b \<and> load_budget (bl_file b') (bl_limit b) 0 = b'"
proof -
  let ?api = "\<lambda>k. if k = (0::nat) then Inl RateLimit else Inr \<lparr>msg_text = ''ok'', msg_input = 1000, msg_output = 0,
         msg_cache_write = 0, msg_cache_hit = 0\<rparr>"
  define b where "b = snd (reset_if_new_day 0 (load_budget NoFile default_daily_limit 0))"
  obtain res b' where c: "llm_call haiku_model 3 [] [] ''haiku'' ''signal'' 0 7 ?api b = (res, b')" by fastforce
  have ok: "budget_ok b" unfolding b_def by (rule reset_if_new_day_ok [OF fresh_budget_ok]) simp
  have b: "bl_today b = Some (date_of 7)" "bl_entries b = []" "bl_total b = 0" "bl_limit b = 95 / 100"
    by (simp_all add: b_def reset_if_new_day_def load_budget_def flush_budget_def date_of_def us_per_day_def
        us_per_hour_def default_daily_limit_def)
  have "estimated_cost haiku_model [] [] 0 \<le> remaining b"
    by (simp add: estimated_cost_def llm_cost_def dict_get_or_def pricing_def haiku_model_def remaining_def b dec_eval)
  with c have "res = Inr ''ok''" "bl_entries b' \<noteq> []"
    by (auto simp: llm_call_def call_with_retry_def numeral_3_eq_3 Let_def record_spend_def flush_budget_def)
  with c b spend_survives_restart [OF c ok b(1)] show ?thesis
    by (intro exI [of _ b] exI [of _ b']) (auto simp: date_of_def us_per_day_def us_per_hour_def)
qed

text \<open>
  Once the ledger is exhausted the watcher trips the kill switch at its next check and never again:
  after any number of checks there is one trip, one event, and no new entry is allowed.
\<close>

lemma watcher_trips_once:
  assumes "is_exhausted (bw_ledger w)" "\<not> bw_tripped w" "bw_bus w = Some evs"
  shows "ks_state (bw_kill (((snd \<circ> check_once) ^^ Suc n) w)) = BUDGET_EXHAUSTED
    \<and> \<not> can_open_new (bw_kill (((snd \<circ> check_once) ^^ Suc n) w))
    \<and> bw_bus (((snd \<circ> check_once) ^^ Suc n) w) = Some (evs @ [bl_total (bw_ledger w)])"
proof -
  have "bw_tripped v \<Longrightarrow> ((snd \<circ> check_once) ^^ n) v = v" for v
    by (induction n) (simp_all add: check_once_def)
  then show ?thesis
    using assms by (simp add: funpow_Suc_right check_once_def trip_budget_exhausted_def can_open_new_def
        blocks_new_entries_def del: funpow.simps)
qed

lemma watcher_trips_once_example:
  "let b = \<lparr>bl_limit = 1, bl_today = Some 0, bl_total = 1, bl_entries = [], bl_file = NoFile\<rparr>;
       w = \<lparr>bw_ledger = b, bw_kill = new_engine 600, bw_tripped = False, bw_bus = Some []\<rparr>
   in bw_bus (((snd \<circ> check_once) ^^ Suc 4) w) = Some [1]"
  using watcher_trips_once [of "\<lparr>bw_ledger = \<lparr>bl_limit = 1, bl_today = Some 0, bl_total = 1, bl_entries = [], bl_file = NoFile\<rparr>,
     bw_kill = new_engine 600, bw_tripped = False, bw_bus = Some []\<rparr>" "[]" 4]
  by (simp only: Let_def) (simp add: is_exhausted_def)

end
