(* ===== verification/Tax.thy ===== *)
theory Tax
  imports Core_Types
begin

text \<open>
  The wash-sale checker of \<^verbatim>\<open>execution/tax.py\<close>: the records of loss sales, the buy block
  of thirty days after each, and the open lots worth harvesting.
\<close>

definition wash_sale_window :: int where "wash_sale_window = 30"

record wash_record =
  ws_symbol :: symbol
  ws_agent :: agent_id
  ws_date :: date
  ws_loss :: decimal

definition record_sale :: "lot \<Rightarrow> wash_record list \<Rightarrow> wash_record list" where
  "record_sale l recs = (case realized_pnl l of
       None \<Rightarrow> recs
     | Some pnl \<Rightarrow>
         if 0 \<le> pnl then recs
         else (case l_exit_date l of
                 None \<Rightarrow> recs
               | Some d \<Rightarrow> recs @ [\<lparr>ws_symbol = l_symbol l, ws_agent = l_agent_id l, ws_date = d, ws_loss = pnl\<rparr>]))"

fun is_blocked :: "agent_id \<Rightarrow> symbol \<Rightarrow> date \<Rightarrow> wash_record list \<Rightarrow> bool" where
  "is_blocked a s d [] = False"
| "is_blocked a s d (r # rs) =
     (if ws_agent r \<noteq> a \<or> ws_symbol r \<noteq> s then is_blocked a s d rs
      else if 0 \<le> d - ws_date r \<and> d - ws_date r \<le> wash_sale_window then True
      else is_blocked a s d rs)"

definition harvesting_candidates :: "lot list \<Rightarrow> (symbol, decimal) dict \<Rightarrow> lot list" where
  "harvesting_candidates ls prices =
     filter (\<lambda>l. \<not> l_is_closed l \<and> (case dict_get prices (l_symbol l) of
        None \<Rightarrow> False | Some p \<Rightarrow> p < l_entry_price l)) ls"

definition days_remaining :: "agent_id \<Rightarrow> symbol \<Rightarrow> date \<Rightarrow> wash_record list \<Rightarrow> int" where
  "days_remaining a s d recs =
     foldl (\<lambda>best r.
        if ws_agent r \<noteq> a \<or> ws_symbol r \<noteq> s then best
        else (let w = ws_date r + wash_sale_window in if d \<le> w then max best (w - d) else best)) 0 recs"

lemma is_blocked_iff:
  "is_blocked a s d recs \<longleftrightarrow>
   (\<exists>r\<in>set recs. ws_agent r = a \<and> ws_symbol r = s \<and> ws_date r \<le> d \<and> d \<le> ws_date r + 30)"
  by (induction recs) (auto simp: wash_sale_window_def)

lemma realized_loss:
  "l_exit_price l = Some x \<Longrightarrow> l_remaining_qty l = 0 \<Longrightarrow> 0 < l_qty l \<Longrightarrow>
   (\<exists>p. realized_pnl l = Some p \<and> p < 0) \<longleftrightarrow> x < l_entry_price l"
  by (auto simp: realized_pnl_def dec_defs mult_less_0_iff)

text \<open>Until the window of its latest loss sale ends, the block is on and the days are positive.\<close>

lemma days_remaining_foldl:
  "foldl (\<lambda>best r.
      if ws_agent r \<noteq> a \<or> ws_symbol r \<noteq> s then best
      else (let w = ws_date r + wash_sale_window in if d \<le> w then max best (w - d) else best)) b recs
   = max b (days_remaining a s d recs)" if "0 \<le> b" for b
  using that
proof (induction recs arbitrary: b)
  case (Cons r recs)
  show ?case
    unfolding days_remaining_def foldl_Cons Let_def
    by (subst (1 2) Cons.IH [unfolded Let_def]) (use Cons.prems in auto)
qed (simp add: days_remaining_def)

lemma days_remaining_Cons:
  "days_remaining a s d (r # recs) =
    (if ws_agent r = a \<and> ws_symbol r = s then max (max 0 (ws_date r + 30 - d)) (days_remaining a s d recs)
     else days_remaining a s d recs)"
proof -
  have nn: "0 \<le> days_remaining a s d recs"
    using days_remaining_foldl [of 0 a s d recs] by (simp add: days_remaining_def)
  define b where "b = (if ws_agent r \<noteq> a \<or> ws_symbol r \<noteq> s then 0
      else (let w = ws_date r + wash_sale_window in if d \<le> w then max 0 (w - d) else 0))"
  have "0 \<le> b" by (simp add: b_def Let_def)
  have "days_remaining a s d (r # recs) = max b (days_remaining a s d recs)"
    using days_remaining_foldl [OF \<open>0 \<le> b\<close>, of a s d recs] by (simp add: days_remaining_def b_def)
  with nn show ?thesis by (auto simp: b_def Let_def wash_sale_window_def max_def)
qed

lemma days_remaining_ge: "n \<le> days_remaining a s d recs \<longleftrightarrow>
   n \<le> 0 \<or> (\<exists>r\<in>set recs. ws_agent r = a \<and> ws_symbol r = s \<and> n \<le> ws_date r + 30 - d)"
  by (induction recs) (auto simp: days_remaining_Cons, auto simp: days_remaining_def)

lemma is_blocked_append: "is_blocked a s d (xs @ ys) \<longleftrightarrow> is_blocked a s d xs \<or> is_blocked a s d ys"
  by (auto simp: is_blocked_iff)

subsection \<open>Properties\<close>

text \<open>
  Recording the closing of a lot blocks buying its symbol for its agent from the day
  of the sale to thirty days after it if the lot was sold below its entry price, and changes no block
  otherwise.
\<close>

lemma loss_sale_blocks_thirty_days:
  assumes "l_exit_price l = Some x" "l_exit_date l = Some e" "l_remaining_qty l = 0" "0 < l_qty l"
  shows "is_blocked a s d (record_sale l recs) \<longleftrightarrow> is_blocked a s d recs
    \<or> (x < l_entry_price l \<and> l_agent_id l = a \<and> l_symbol l = s \<and> e \<le> d \<and> d \<le> e + 30)"
proof -
  obtain p where p: "realized_pnl l = Some p" "p < 0 \<longleftrightarrow> x < l_entry_price l"
    using realized_loss [OF assms(1,3,4)] assms(1) by (auto simp: realized_pnl_def)
  show ?thesis
    using p assms(2) by (auto simp: record_sale_def is_blocked_iff)
qed

lemma loss_sale_blocks_thirty_days_example:
  "\<exists>l. is_blocked OPUS ''TQQQ'' 130 (record_sale l []) \<and> \<not> is_blocked OPUS ''TQQQ'' 131 (record_sale l [])"
proof -
  let ?l = "\<lparr>l_id = 0, l_agent_id = OPUS, l_symbol = ''TQQQ'', l_qty = 2, l_entry_price = 50, l_entry_date = 90,
    l_entry_fill_id = 1, l_remaining_qty = 0, l_exit_fill_id = Some 2, l_exit_date = Some 100,
    l_exit_price = Some 45, l_is_closed = True\<rparr>"
  have "is_blocked OPUS ''TQQQ'' d (record_sale ?l []) \<longleftrightarrow> 100 \<le> d \<and> d \<le> 130" for d
    by (subst loss_sale_blocks_thirty_days [of ?l 45 100]) simp_all
  then show ?thesis by (intro exI [of _ ?l]) simp
qed

end
