(* ===== verification/Approval.thy ===== *)
theory Approval
  imports Core_Types
begin

text \<open>
  The queue of intents that wait for a human (\<^verbatim>\<open>execution/approval_queue.py\<close>). A decision
  changes the flags of the entry in place; the entry itself is never removed.
\<close>

record pending_intent =
  pi_intent :: intent
  pi_received :: datetime
  pi_expires :: datetime
  pi_approved :: bool
  pi_rejected :: bool

definition is_pending :: "pending_intent \<Rightarrow> bool" where
  "is_pending p = (\<not> pi_approved p \<and> \<not> pi_rejected p)"

definition is_expired :: "pending_intent \<Rightarrow> bool" where
  "is_expired p = (pi_rejected p \<and> \<not> pi_approved p)"

record approval_queue =
  aq_queue :: "(intent_id, pending_intent) dict"
  aq_hours :: int

definition approval_expiry_hours :: int where "approval_expiry_hours = 4"

definition enqueue :: "intent \<Rightarrow> datetime \<Rightarrow> approval_queue \<Rightarrow> pending_intent \<times> approval_queue" where
  "enqueue i ts q =
     (let p = \<lparr>pi_intent = i, pi_received = ts, pi_expires = ts + aq_hours q * us_per_hour,
               pi_approved = False, pi_rejected = False\<rparr>
      in (p, q\<lparr>aq_queue := dict_set (i_id i) p (aq_queue q)\<rparr>))"

definition pending :: "approval_queue \<Rightarrow> pending_intent list" where
  "pending q = filter is_pending (map snd (aq_queue q))"

definition approve :: "intent_id \<Rightarrow> datetime \<Rightarrow> approval_queue \<Rightarrow> intent option \<times> approval_queue" where
  "approve i ts q = (case dict_get (aq_queue q) i of
       None \<Rightarrow> (None, q)
     | Some p \<Rightarrow>
         if \<not> is_pending p then (None, q)
         else if pi_expires p < ts
         then (None, q\<lparr>aq_queue := dict_set i (p\<lparr>pi_rejected := True\<rparr>) (aq_queue q)\<rparr>)
         else (Some (pi_intent p), q\<lparr>aq_queue := dict_set i (p\<lparr>pi_approved := True\<rparr>) (aq_queue q)\<rparr>))"

definition reject :: "intent_id \<Rightarrow> approval_queue \<Rightarrow> bool \<times> approval_queue" where
  "reject i q = (case dict_get (aq_queue q) i of
       None \<Rightarrow> (False, q)
     | Some p \<Rightarrow>
         if \<not> is_pending p then (False, q)
         else (True, q\<lparr>aq_queue := dict_set i (p\<lparr>pi_rejected := True\<rparr>) (aq_queue q)\<rparr>))"

definition due :: "datetime \<Rightarrow> pending_intent \<Rightarrow> bool" where
  "due ts p = (is_pending p \<and> pi_expires p < ts)"

definition expire_old :: "datetime \<Rightarrow> approval_queue \<Rightarrow> pending_intent list \<times> approval_queue" where
  "expire_old ts q =
     (map (\<lambda>(k, p). p\<lparr>pi_rejected := True\<rparr>) (filter (\<lambda>(k, p). due ts p) (aq_queue q)),
      q\<lparr>aq_queue := map (\<lambda>(k, p). (k, if due ts p then p\<lparr>pi_rejected := True\<rparr> else p)) (aq_queue q)\<rparr>)"

lemmas approval_ops [op_defs] = enqueue_def approve_def reject_def expire_old_def

subsection \<open>Steps\<close>

text \<open>A step of the queue other than a new entry, with the intent it releases, if any.\<close>

inductive decide :: "approval_queue \<Rightarrow> intent option \<Rightarrow> approval_queue \<Rightarrow> bool" where
  decide_approve: "approve i ts q = (r, q') \<Longrightarrow> decide q r q'"
| decide_reject: "reject i q = (b, q') \<Longrightarrow> decide q None q'"
| decide_expire: "expire_old ts q = (ps, q') \<Longrightarrow> decide q None q'"

inductive_cases decideE: "decide q r q'"

text \<open>\<open>decisions q rs q'\<close>: a run of decisions with the intents it released, in order.\<close>

inductive decisions :: "approval_queue \<Rightarrow> intent list \<Rightarrow> approval_queue \<Rightarrow> bool" where
  decisions_none: "decisions q [] q"
| decisions_step: "decisions q rs q' \<Longrightarrow> decide q' r q'' \<Longrightarrow>
    decisions q (rs @ (case r of None \<Rightarrow> [] | Some i \<Rightarrow> [i])) q''"

text \<open>No entry is both approved and rejected; the keys are the ids of the intents.\<close>

definition queue_ok :: "approval_queue \<Rightarrow> bool" where
  "queue_ok q \<longleftrightarrow> distinct (map fst (aq_queue q))
     \<and> (\<forall>(k, p)\<in>set (aq_queue q). k = i_id (pi_intent p) \<and> \<not> (pi_approved p \<and> pi_rejected p))"

lemma queue_ok_get:
  "queue_ok q \<Longrightarrow> dict_get (aq_queue q) i = Some p \<Longrightarrow>
   i_id (pi_intent p) = i \<and> \<not> (pi_approved p \<and> pi_rejected p)"
  by (auto simp: queue_ok_def dest!: map_of_SomeD)

lemma queue_ok_set:
  "queue_ok q \<Longrightarrow> i_id (pi_intent p) = i \<Longrightarrow> \<not> (pi_approved p \<and> pi_rejected p) \<Longrightarrow>
   queue_ok (q\<lparr>aq_queue := dict_set i p (aq_queue q)\<rparr>)"
  by (auto simp: queue_ok_def dest!: set_dict_set)

lemma enqueue_ok: "queue_ok q \<Longrightarrow> queue_ok (snd (enqueue i ts q))"
  by (simp add: enqueue_def Let_def queue_ok_set)

lemma approve_cases:
  assumes "approve i ts q = (r, q')"
  obtains "q' = q" "r = None"
  | p where "dict_get (aq_queue q) i = Some p" "is_pending p" "pi_expires p < ts" "r = None"
      "q' = q\<lparr>aq_queue := dict_set i (p\<lparr>pi_rejected := True\<rparr>) (aq_queue q)\<rparr>"
  | p where "dict_get (aq_queue q) i = Some p" "is_pending p" "ts \<le> pi_expires p" "r = Some (pi_intent p)"
      "q' = q\<lparr>aq_queue := dict_set i (p\<lparr>pi_approved := True\<rparr>) (aq_queue q)\<rparr>"
  using assms by (auto simp: approve_def split: option.splits if_splits)

lemma reject_cases:
  assumes "reject i q = (b, q')"
  obtains "q' = q" "\<not> b"
  | p where "dict_get (aq_queue q) i = Some p" "is_pending p" "b"
      "q' = q\<lparr>aq_queue := dict_set i (p\<lparr>pi_rejected := True\<rparr>) (aq_queue q)\<rparr>"
  using assms by (auto simp: reject_def split: option.splits if_splits)

lemma expire_get:
  "dict_get (aq_queue (snd (expire_old ts q))) i =
     map_option (\<lambda>p. if due ts p then p\<lparr>pi_rejected := True\<rparr> else p) (dict_get (aq_queue q) i)"
proof -
  have "map_of (map (\<lambda>(k, p). (k, f p)) d) i = map_option f (map_of d i)" for f :: "pending_intent \<Rightarrow> _" and d
    by (induction d) auto
  then show ?thesis by (simp add: expire_old_def)
qed

lemma decide_ok: "decide q r q' \<Longrightarrow> queue_ok q \<Longrightarrow> queue_ok q'"
proof (erule decideE)
  fix i ts assume "approve i ts q = (r, q')" "queue_ok q"
  then show "queue_ok q'"
    by (elim approve_cases) (auto simp: is_pending_def dest: queue_ok_get intro!: queue_ok_set)
next
  fix i b assume "reject i q = (b, q')" "queue_ok q"
  then show "queue_ok q'"
    by (elim reject_cases) (auto simp: is_pending_def dest: queue_ok_get intro!: queue_ok_set)
next
  fix ts ps assume "expire_old ts q = (ps, q')" "queue_ok q"
  then show "queue_ok q'"
    by (fastforce simp: expire_old_def queue_ok_def due_def is_pending_def comp_def case_prod_beta
        split: if_splits)
qed

text \<open>A decided entry is never touched again.\<close>

lemma decide_final:
  assumes "decide q r q'" "dict_get (aq_queue q) i = Some p" "\<not> is_pending p"
  shows "dict_get (aq_queue q') i = Some p"
  using assms(1)
proof cases
  case (decide_approve j ts)
  then show ?thesis using assms(2,3) by (elim approve_cases) auto
next
  case (decide_reject j b)
  then show ?thesis using assms(2,3) by (elim reject_cases) auto
next
  case (decide_expire ts ps)
  then have "q' = snd (expire_old ts q)" by simp
  then show ?thesis using assms(2,3) by (simp add: expire_get due_def)
qed

text \<open>An intent is released in the very step that approves it, while it was pending.\<close>

lemma decide_released:
  assumes "decide q (Some i) q'" "queue_ok q"
  obtains p where "dict_get (aq_queue q) (i_id i) = Some p" "is_pending p" "pi_intent p = i"
    "dict_get (aq_queue q') (i_id i) = Some (p\<lparr>pi_approved := True\<rparr>)"
  using assms(1)
proof cases
  case (decide_approve j ts)
  then show ?thesis
  proof (cases rule: approve_cases)
    case (3 p)
    with queue_ok_get [OF assms(2) 3(1)] show ?thesis by (intro that [of p]) auto
  qed simp_all
qed

lemma decisions_ok: "decisions q rs q' \<Longrightarrow> queue_ok q \<Longrightarrow> queue_ok q'"
  by (induction rule: decisions.induct) (auto intro: decide_ok)

lemma decisions_released:
  assumes "decisions q rs q'" "queue_ok q"
  shows "distinct (map i_id rs) \<and>
    (\<forall>i\<in>set rs. \<exists>p. dict_get (aq_queue q') (i_id i) = Some p \<and> pi_approved p)"
  using assms
proof (induction rule: decisions.induct)
  case (decisions_step q rs q' r q'')
  then have ok: "queue_ok q'" by (blast intro: decisions_ok)
  have kept: "\<exists>p. dict_get (aq_queue q'') (i_id i) = Some p \<and> pi_approved p" if "i \<in> set rs" for i
  proof -
    from that decisions_step obtain p where p: "dict_get (aq_queue q') (i_id i) = Some p" "pi_approved p"
      by blast
    with decide_final [OF decisions_step.hyps(2) p(1)] show ?thesis by (auto simp: is_pending_def)
  qed
  show ?case
  proof (cases r)
    case (Some i)
    with decisions_step.hyps(2) ok obtain p where p: "dict_get (aq_queue q') (i_id i) = Some p"
      "is_pending p" "dict_get (aq_queue q'') (i_id i) = Some (p\<lparr>pi_approved := True\<rparr>)"
      by (auto elim: decide_released)
    have "i_id i \<notin> i_id ` set rs"
    proof
      assume "i_id i \<in> i_id ` set rs"
      with decisions_step obtain p' where "dict_get (aq_queue q') (i_id i) = Some p'" "pi_approved p'"
        by fastforce
      with p show False by (simp add: is_pending_def)
    qed
    with Some kept p decisions_step show ?thesis by auto
  qed (use kept decisions_step in auto)
qed simp

subsection \<open>Properties\<close>

text \<open>
  In any run of approvals, rejections and expiries no intent is released twice, and every
  released intent is one the queue held and now shows as approved.
\<close>

lemma intents_released_once:
  assumes "decisions q rs q'" "queue_ok q"
  shows "distinct (map i_id rs) \<and> (\<forall>i\<in>set rs. \<exists>p. dict_get (aq_queue q') (i_id i) = Some p \<and> pi_approved p)"
  using assms by (rule decisions_released)

lemma intents_released_once_example:
  "\<exists>q i q'. decisions q [i] q' \<and> distinct (map i_id [i])
    \<and> (\<exists>p. dict_get (aq_queue q') (i_id i) = Some p \<and> pi_approved p)"
proof -
  let ?i = "\<lparr>i_id = 4, i_agent_id = SONNET, i_symbol = ''SOLUSD'', i_action = BUY_ACT, i_target_weight = 1 / 10,
    i_sleeve = CRYPTO_SLEEVE, i_signal = [], i_conviction = 3, i_rationale = [], i_timestamp = 0,
    i_regime_observation = [], i_requires_approval = True, i_legs = []\<rparr>"
  let ?q = "snd (enqueue ?i 0 \<lparr>aq_queue = [], aq_hours = approval_expiry_hours\<rparr>)"
  have ok: "queue_ok ?q" by (rule enqueue_ok) (simp add: queue_ok_def)
  have "fst (approve 4 5 ?q) = Some ?i"
    by (simp add: approve_def enqueue_def Let_def is_pending_def approval_expiry_hours_def us_per_hour_def)
  then have "decide ?q (Some ?i) (snd (approve 4 5 ?q))"
    by (metis decide_approve prod.collapse)
  from decisions_step [OF decisions_none this] have run: "decisions ?q [?i] (snd (approve 4 5 ?q))" by simp
  then show ?thesis
    using intents_released_once [OF run ok]
    by (intro exI [of _ ?q] exI [of _ ?i] exI [of _ "snd (approve 4 5 ?q)"]) simp
qed

end
