(* ===== verification/Clock.thy ===== *)
theory Clock
  imports Prelude
begin

text \<open>
  The trading calendar of \<^verbatim>\<open>core/clock.py\<close>. Local Eastern time is a number of microseconds
  since local midnight of 1970-01-01; the conversion from UTC (\<^verbatim>\<open>ZoneInfo\<close>) is the caller's.
  \<^verbatim>\<open>WallClock\<close> and \<^verbatim>\<open>BacktestClock\<close> answer the calendar questions with the same code; what
  differs is where \<^verbatim>\<open>now\<close> comes from, which is an argument here.
\<close>

subsection \<open>Dates\<close>

text \<open>The day number of a proleptic Gregorian date, as \<^verbatim>\<open>datetime.date\<close> counts (day 0 is 1970-01-01).\<close>

definition ymd :: "int \<Rightarrow> int \<Rightarrow> int \<Rightarrow> date" where
  "ymd y m d =
     (let y' = (if m \<le> 2 then y - 1 else y);
          era = y' div 400; yoe = y' mod 400;
          doy = (153 * ((m + 9) mod 12) + 2) div 5 + d - 1;
          doe = yoe * 365 + yoe div 4 - yoe div 100 + doy
      in era * 146097 + doe - 719468)"

text \<open>Monday is 0; 1970-01-01 was a Thursday.\<close>

definition weekday :: "date \<Rightarrow> int" where
  "weekday d = (d + 3) mod 7"

definition nyse_holidays :: "date list" where
  "nyse_holidays =
     [ymd 2026 1 1, ymd 2026 1 19, ymd 2026 2 16, ymd 2026 4 3, ymd 2026 5 25, ymd 2026 6 19,
      ymd 2026 7 3, ymd 2026 9 7, ymd 2026 11 26, ymd 2026 11 27, ymd 2026 12 24, ymd 2026 12 25]"

definition nyse_early_closes :: "(date, int) dict" where
  "nyse_early_closes = [(ymd 2026 11 27, 13), (ymd 2026 12 24, 13)]"

definition is_trading_day :: "date \<Rightarrow> bool" where
  "is_trading_day d = (if 5 \<le> weekday d then False else d \<notin> set nyse_holidays)"

definition at_time :: "date \<Rightarrow> int \<Rightarrow> int \<Rightarrow> datetime" where
  "at_time d h m = d * us_per_day + h * us_per_hour + m * 60 * 1000000"

definition open_time :: "date \<Rightarrow> datetime" where
  "open_time d = at_time d 9 30"

definition market_open :: "datetime \<Rightarrow> bool" where
  "market_open now =
     (let d = date_of now in
      if \<not> is_trading_day d then False
      else (let close = at_time d (dict_get_or nyse_early_closes d 16) 0
            in open_time d \<le> now \<and> now < close))"

subsection \<open>The next opening\<close>

text \<open>The holidays of the table as numbers.\<close>

lemma nyse_holidays_eq:
  "nyse_holidays = [20454, 20472, 20500, 20546, 20598, 20623, 20637, 20703, 20783, 20784, 20811, 20812]"
  by (simp add: nyse_holidays_def ymd_def Let_def)

definition closed_weekday :: "date \<Rightarrow> bool" where
  "closed_weekday d \<longleftrightarrow>
     d \<in> {20454, 20472, 20500, 20546, 20598, 20623, 20637, 20703, 20783, 20784, 20811, 20812}"

lemma trading_day_iff: "is_trading_day d \<longleftrightarrow> (d + 3) mod 7 < 5 \<and> \<not> closed_weekday d"
  by (auto simp: is_trading_day_def weekday_def nyse_holidays_eq closed_weekday_def)

lemma closed_weekday_sparse:
  "closed_weekday d \<Longrightarrow> \<not> closed_weekday (d + 2) \<and> \<not> closed_weekday (d + 3) \<and> \<not> closed_weekday (d + 4)"
  by (auto simp: closed_weekday_def)

text \<open>Of any five days in a row one is a trading day: the longest closure is four days.\<close>

lemma trading_day_within: "\<exists>i\<in>{0, 1, 2, 3, 4}. is_trading_day (d + i)"
proof -
  define q where "q = (d + 3) div 7"
  define c where "c = (d + 3) mod 7"
  have d: "d + 3 = 7 * q + c" and "0 \<le> c" "c < 7" by (simp_all add: q_def c_def)
  then consider "c = 0" | "c = 1" | "c = 2" | "c = 3" | "c = 4" | "c = 5" | "c = 6" by linarith
  then show ?thesis
  proof cases
    case 4
    with d have "(d + 3) mod 7 < 5" "(d + 4 + 3) mod 7 < 5" by presburger+
    with closed_weekday_sparse [of d] show ?thesis by (force simp: trading_day_iff)
  next
    case 5
    with d have "(d + 3) mod 7 < 5" "(d + 3 + 3) mod 7 < 5" by presburger+
    with closed_weekday_sparse [of d] show ?thesis by (force simp: trading_day_iff)
  next
    case 6
    with d have "(d + 2 + 3) mod 7 < 5" "(d + 4 + 3) mod 7 < 5" by presburger+
    with closed_weekday_sparse [of "d + 2"] show ?thesis by (auto simp: trading_day_iff add.commute)
  next
    case 7
    with d have "(d + 1 + 3) mod 7 < 5" "(d + 3 + 3) mod 7 < 5" by presburger+
    with closed_weekday_sparse [of "d + 1"] show ?thesis by (auto simp: trading_day_iff add.commute)
  next
    case 1
    with d have "(d + 3) mod 7 < 5" "(d + 2 + 3) mod 7 < 5" by presburger+
    with closed_weekday_sparse [of d] show ?thesis by (force simp: trading_day_iff)
  next
    case 2
    with d have "(d + 3) mod 7 < 5" "(d + 2 + 3) mod 7 < 5" by presburger+
    with closed_weekday_sparse [of d] show ?thesis by (force simp: trading_day_iff)
  next
    case 3
    with d have "(d + 3) mod 7 < 5" "(d + 2 + 3) mod 7 < 5" by presburger+
    with closed_weekday_sparse [of d] show ?thesis by (force simp: trading_day_iff)
  qed
qed

function next_trading_day :: "date \<Rightarrow> date" where
  "next_trading_day d = (if is_trading_day d then d else next_trading_day (d + 1))"
  by pat_completeness auto

text \<open>The distance to the next trading day, at most four, decreases.\<close>

definition closed_run :: "date \<Rightarrow> nat" where
  "closed_run d = length (takeWhile (\<lambda>i. \<not> is_trading_day (d + i)) [0, 1, 2, 3, 4])"

lemma closed_run_step:
  assumes "\<not> is_trading_day d"
  shows "closed_run (d + 1) < closed_run d"
proof -
  from trading_day_within [of d] show ?thesis
    using assms by (auto simp: closed_run_def add.commute add.left_commute)
qed

termination next_trading_day
  by (relation "measure closed_run") (simp_all add: closed_run_step)

declare next_trading_day.simps [simp del]

definition next_open :: "datetime \<Rightarrow> datetime" where
  "next_open now =
     (let d = date_of now in
      if now < open_time d \<and> is_trading_day d then open_time d
      else open_time (next_trading_day (d + 1)))"

lemma next_trading_day_spec:
  "is_trading_day (next_trading_day d) \<and> d \<le> next_trading_day d
   \<and> (\<forall>e. d \<le> e \<and> e < next_trading_day d \<longrightarrow> \<not> is_trading_day e)"
proof (induction d rule: next_trading_day.induct)
  case (1 d)
  show ?case
  proof (cases "is_trading_day d")
    case False
    with 1 have "\<forall>e. d + 1 \<le> e \<and> e < next_trading_day d \<longrightarrow> \<not> is_trading_day e"
      "is_trading_day (next_trading_day d)" "d + 1 \<le> next_trading_day d"
      by (simp_all add: next_trading_day.simps [of d])
    with False show ?thesis
      by (metis linorder_not_less zle_add1_eq_le nle_le order_less_le zless_add1_eq)
  next
    case True
    then show ?thesis by (auto simp: next_trading_day.simps [of d])
  qed
qed

lemma next_trading_day_soon: "next_trading_day d \<le> d + 4"
proof (rule ccontr)
  assume *: "\<not> next_trading_day d \<le> d + 4"
  from trading_day_within [of d] obtain i where "i \<in> {0, 1, 2, 3, 4}" "is_trading_day (d + i)" by blast
  then have "0 \<le> i" "i \<le> 4" "is_trading_day (d + i)" by auto
  with next_trading_day_spec [of d] * show False by auto
qed

lemma date_of_open_time [simp]: "date_of (open_time d) = d"
  by (simp add: date_of_def open_time_def at_time_def us_per_day_def us_per_hour_def)

lemma open_time_less [simp]: "open_time d < open_time e \<longleftrightarrow> d < e"
  by (simp add: open_time_def at_time_def us_per_day_def us_per_hour_def)

lemma open_time_le [simp]: "open_time d \<le> open_time e \<longleftrightarrow> d \<le> e"
  by (simp add: open_time_def at_time_def us_per_day_def us_per_hour_def)

lemma before_next_day: "t < open_time (date_of t + 1)"
  by (simp add: date_of_def open_time_def at_time_def us_per_day_def us_per_hour_def)

lemma next_open_spec:
  "now < next_open now \<and> (\<exists>d. is_trading_day d \<and> next_open now = open_time d)
   \<and> (\<forall>d. is_trading_day d \<and> now < open_time d \<longrightarrow> next_open now \<le> open_time d)"
proof (cases "now < open_time (date_of now) \<and> is_trading_day (date_of now)")
  case True
  have "date_of now \<le> d" if "now < open_time d" for d
    using date_of_mono [of now "open_time d"] that by simp
  with True show ?thesis by (auto simp: next_open_def)
next
  case False
  let ?n = "next_trading_day (date_of now + 1)"
  note n = next_trading_day_spec [of "date_of now + 1"]
  have "now < open_time ?n" using before_next_day [of now] n
    by (meson open_time_le order_less_le_trans)
  moreover have "?n \<le> d" if d: "is_trading_day d" "now < open_time d" for d
  proof (rule ccontr)
    assume "\<not> ?n \<le> d"
    have "date_of now \<le> d" using date_of_mono [of now "open_time d"] d(2) by simp
    moreover have "d \<noteq> date_of now" using False d by auto
    ultimately show False using n d(1) \<open>\<not> ?n \<le> d\<close> by auto
  qed
  ultimately show ?thesis using False n by (auto simp: next_open_def Let_def)
qed

text \<open>The early closes are listed as full holidays, so the table of early closes is never used.\<close>

lemma early_closes_closed: "dict_get nyse_early_closes d \<noteq> None \<Longrightarrow> \<not> is_trading_day d"
  by (auto simp: nyse_early_closes_def ymd_def Let_def trading_day_iff closed_weekday_def split: if_splits)

subsection \<open>Properties\<close>

text \<open>
  The next opening is the least opening time of a trading day that is later than now.
\<close>

lemma next_open_is_least:
  "now < next_open now \<and> (\<exists>d. is_trading_day d \<and> next_open now = open_time d)
   \<and> (\<forall>d. is_trading_day d \<and> now < open_time d \<longrightarrow> next_open now \<le> open_time d)"
  by (rule next_open_spec)

lemma next_open_is_least_example:
  "next_open (at_time (ymd 2026 11 25) 16 0) = at_time (ymd 2026 11 30) 9 30"
proof -
  have t: "is_trading_day 20787" "\<not> is_trading_day 20783" "\<not> is_trading_day 20784" "\<not> is_trading_day 20785"
    "\<not> is_trading_day 20786" by (simp_all add: is_trading_day_def weekday_def nyse_holidays_eq)
  obtain d where d: "is_trading_day d" "next_open (at_time 20782 16 0) = open_time d"
    "at_time 20782 16 0 < open_time d" "open_time d \<le> open_time 20787"
    using next_open_is_least [of "at_time 20782 16 0"] t(1)
    by (auto simp: open_time_def at_time_def us_per_day_def us_per_hour_def)
  then have "20782 < d" "d \<le> 20787"
    by (auto simp: open_time_def at_time_def us_per_day_def us_per_hour_def)
  then have "d \<in> {20783, 20784, 20785, 20786, 20787}" by auto
  with t d(1) have "d = 20787" by auto
  with d show ?thesis by (simp add: ymd_def Let_def open_time_def)
qed

text \<open>
  The market counts as open exactly from 9:30 to 16:00 of a trading day: the table of
  early closes has no effect, because its days are also listed as full holidays.
\<close>

lemma early_closes_have_no_effect:
  "market_open now \<longleftrightarrow> is_trading_day (date_of now) \<and> open_time (date_of now) \<le> now
     \<and> now < at_time (date_of now) 16 0"
  using early_closes_closed [of "date_of now"]
  by (auto simp: market_open_def Let_def dict_get_or_def split: option.split)

end
