(* ===== verification/Decimal_Sqrt.thy ===== *)
theory Decimal_Sqrt
  imports Decimals
begin

text \<open>
  \<^verbatim>\<open>Decimal.sqrt\<close>: the square root rounded to 28 significant digits, ties to even. The
  coefficient comes from the integer square root \<open>isqrt\<close> of the number scaled by an even power
  of ten. A negative argument raises.
\<close>

subsection \<open>The integer square root\<close>

fun isqrt :: "nat \<Rightarrow> nat" where
  "isqrt n = (if n = 0 then 0 else (let r = 2 * isqrt (n div 4) in if (r + 1) * (r + 1) \<le> n then r + 1 else r))"

declare isqrt.simps [simp del]

lemma isqrt_bounds: "isqrt n * isqrt n \<le> n \<and> n < (isqrt n + 1) * (isqrt n + 1)"
proof (induction n rule: isqrt.induct)
  case (1 n)
  show ?case
  proof (cases "n = 0")
    case False
    define r where "r = isqrt (n div 4)"
    from 1 [OF False] have "r * r \<le> n div 4" "n div 4 < (r + 1) * (r + 1)" by (simp_all add: r_def)
    then have lo: "4 * (r * r) \<le> n" and hi: "n < 4 * ((r + 1) * (r + 1))" by linarith+
    have sq: "(2 * r) * (2 * r) = 4 * (r * r)" "(2 * r + 2) * (2 * r + 2) = 4 * ((r + 1) * (r + 1))"
      by (simp_all add: algebra_simps)
    have "isqrt n = (if (2 * r + 1) * (2 * r + 1) \<le> n then 2 * r + 1 else 2 * r)"
      using False by (simp add: isqrt.simps [of n] r_def Let_def)
    then show ?thesis using lo hi sq by (auto simp: not_le)
  qed (simp add: isqrt.simps)
qed

lemma isqrt_unique: "s * s \<le> n \<Longrightarrow> n < (s + 1) * (s + 1) \<Longrightarrow> isqrt n = s"
proof -
  assume s: "s * s \<le> n" "n < (s + 1) * (s + 1)"
  note b = isqrt_bounds [of n]
  have "a < b" if "a * a < b * b" for a b :: nat
    using that mult_le_mono [of b a b a] by (cases "a < b") auto
  from this [of s "isqrt n + 1"] this [of "isqrt n" "s + 1"] s b show ?thesis by linarith
qed

subsection \<open>The rounded root\<close>

text \<open>The nearest integer to the square root of \<open>n\<close>, ties to even.\<close>

definition near_root :: "rat \<Rightarrow> int" where
  "near_root n = (let s = int (isqrt (nat \<lfloor>n\<rfloor>)); m = of_int ((2 * s + 1) * (2 * s + 1)) in
     if 4 * n < m then s else if m < 4 * n then s + 1 else if even s then s else s + 1)"

definition root_exp :: "rat \<Rightarrow> int" where
  "root_exp x = dexp x div 2"

definition dsqrt :: "decimal \<Rightarrow> exn + decimal" where
  "dsqrt x = (if x < 0 then Inl DecimalError else if x = 0 then Inr 0
     else Inr (of_int (near_root (x * p10 (2 * (27 - root_exp x)))) * p10 (root_exp x - 27)))"

lemma near_root_bounds:
  assumes "0 \<le> n"
  shows "0 \<le> near_root n" "of_int ((2 * near_root n - 1) * (2 * near_root n - 1)) \<le> 4 * n \<or> near_root n = 0"
    "4 * n \<le> of_int ((2 * near_root n + 1) * (2 * near_root n + 1))"
proof -
  define s where "s = int (isqrt (nat \<lfloor>n\<rfloor>))"
  have f: "int (nat \<lfloor>n\<rfloor>) = \<lfloor>n\<rfloor>" using assms by simp
  have "isqrt (nat \<lfloor>n\<rfloor>) * isqrt (nat \<lfloor>n\<rfloor>) \<le> nat \<lfloor>n\<rfloor>" "nat \<lfloor>n\<rfloor> < (isqrt (nat \<lfloor>n\<rfloor>) + 1) * (isqrt (nat \<lfloor>n\<rfloor>) + 1)"
    using isqrt_bounds by auto
  then have "int (isqrt (nat \<lfloor>n\<rfloor>) * isqrt (nat \<lfloor>n\<rfloor>)) \<le> int (nat \<lfloor>n\<rfloor>)"
    "int (nat \<lfloor>n\<rfloor>) < int ((isqrt (nat \<lfloor>n\<rfloor>) + 1) * (isqrt (nat \<lfloor>n\<rfloor>) + 1))" by (simp_all only: of_nat_le_iff of_nat_less_iff)
  then have "s * s \<le> \<lfloor>n\<rfloor>" "\<lfloor>n\<rfloor> < (s + 1) * (s + 1)" unfolding f s_def by (simp_all add: algebra_simps)
  then have lo: "of_int (s * s) \<le> n" and hi: "n < of_int ((s + 1) * (s + 1))"
    by (simp_all only: le_floor_iff floor_less_iff)
  have s0: "0 \<le> s" by (simp add: s_def)
  have c: "near_root n = s \<and> 4 * n \<le> of_int ((2 * s + 1) * (2 * s + 1))
      \<or> near_root n = s + 1 \<and> of_int ((2 * s + 1) * (2 * s + 1)) \<le> 4 * n"
    unfolding near_root_def s_def [symmetric] Let_def by auto
  then show "0 \<le> near_root n" using s0 by auto
  have sq: "of_int ((2 * s - 1) * (2 * s - 1)) \<le> (4 * of_int (s * s) :: rat)" if "s \<noteq> 0"
  proof -
    have "(2 * s - 1) * (2 * s - 1) \<le> 4 * (s * s)" using s0 that by (simp add: algebra_simps)
    then have "of_int ((2 * s - 1) * (2 * s - 1)) \<le> (of_int (4 * (s * s)) :: rat)" by (simp only: of_int_le_iff)
    then show ?thesis by simp
  qed
  show "of_int ((2 * near_root n - 1) * (2 * near_root n - 1)) \<le> 4 * n \<or> near_root n = 0"
    using c
  proof
    assume "near_root n = s \<and> 4 * n \<le> of_int ((2 * s + 1) * (2 * s + 1))"
    then show ?thesis using sq lo by (cases "s = 0") auto
  next
    assume a: "near_root n = s + 1 \<and> of_int ((2 * s + 1) * (2 * s + 1)) \<le> 4 * n"
    have "2 * (s + 1) - 1 = 2 * s + 1" by simp
    with a show ?thesis by (simp only: simp_thms)
  qed
  show "4 * n \<le> of_int ((2 * near_root n + 1) * (2 * near_root n + 1))"
    using c
  proof
    assume "near_root n = s + 1 \<and> of_int ((2 * s + 1) * (2 * s + 1)) \<le> 4 * n"
    moreover have "(4 * of_int ((s + 1) * (s + 1)) :: rat) \<le> of_int ((2 * (s + 1) + 1) * (2 * (s + 1) + 1))"
    proof -
      have "4 * ((s + 1) * (s + 1)) \<le> (2 * (s + 1) + 1) * (2 * (s + 1) + 1)" using s0 by (simp add: algebra_simps)
      then have "of_int (4 * ((s + 1) * (s + 1))) \<le> (of_int ((2 * (s + 1) + 1) * (2 * (s + 1) + 1)) :: rat)"
        by (simp only: of_int_le_iff)
      then show ?thesis by simp
    qed
    ultimately show ?thesis using hi by auto
  qed simp
qed

text \<open>
  The root of a positive number is positive, has at most 28 digits, and the number lies between the squares of the
  points half a unit in the last place below and above it.
\<close>

lemma dsqrt_pos:
  assumes "0 < x"
  obtains y where "dsqrt x = Inr y" "0 < y" "dround y = y"
    "(y - p10 (root_exp x - 27) / 2)\<^sup>2 \<le> x" "x \<le> (y + p10 (root_exp x - 27) / 2)\<^sup>2"
proof -
  let ?e = "root_exp x"
  define u where "u = p10 (?e - 27)"
  define n where "n = x * p10 (2 * (27 - ?e))"
  define c where "c = near_root n"
  have u: "0 < u" by (simp add: u_def)
  have nu: "n * (u * u) = x"
    unfolding n_def u_def by (simp add: mult.assoc flip: p10_add)
  have n0: "0 \<le> n" using assms by (simp add: n_def)
  have e: "2 * ?e \<le> dexp x" "dexp x + 1 \<le> 2 * (?e + 1)" by (simp_all add: root_exp_def)
  have "p10 (2 * ?e) \<le> x" "x < p10 (2 * (?e + 1))"
    using dexp_bounds [OF assms] p10_mono [OF e(1)] p10_mono [OF e(2)] by linarith+
  then have "p10 (2 * ?e) * p10 (2 * (27 - ?e)) \<le> n" "n < p10 (2 * (?e + 1)) * p10 (2 * (27 - ?e))"
    unfolding n_def by (intro mult_right_mono mult_strict_right_mono; simp)+
  then have n: "10 ^ 54 \<le> n" "n < 10 ^ 56" by (simp_all flip: p10_add) (simp_all add: p10_def)
  note b = near_root_bounds [OF n0, folded c_def]
  have c0: "c \<noteq> 0" using b(3) n(1) by auto
  have c1: "c \<le> 10 ^ 28"
  proof (rule ccontr)
    assume "\<not> c \<le> 10 ^ 28"
    then have "2 * 10 ^ 28 + 1 \<le> 2 * c - 1" by simp
    then have "(2 * 10 ^ 28 + 1) * (2 * 10 ^ 28 + 1) \<le> (2 * c - 1) * (2 * c - 1)" by (intro mult_mono) auto
    then have "of_int ((2 * 10 ^ 28 + 1) * (2 * 10 ^ 28 + 1)) \<le> (of_int ((2 * c - 1) * (2 * c - 1)) :: rat)"
      by (simp only: of_int_le_iff)
    with b(2) c0 n(2) show False by simp
  qed
  define y where "y = of_int c * u"
  have "dsqrt x = Inr y" using assms by (simp add: dsqrt_def y_def c_def n_def u_def)
  moreover have "0 < y" using b(1) c0 u by (simp add: y_def)
  moreover have "dround y = y"
    using pround_coeff [of c y "?e - 27"] b(1) c0 c1 \<open>0 < y\<close> by (simp add: dround_def y_def u_def)
  moreover have "(y - u / 2)\<^sup>2 \<le> x"
  proof -
    have "(y - u / 2)\<^sup>2 = of_int ((2 * c - 1) * (2 * c - 1)) * (u * u) / 4"
      by (simp add: y_def power2_eq_square algebra_simps)
    also have "\<dots> \<le> 4 * n * (u * u) / 4"
      using b(2) c0 u by (intro divide_right_mono mult_right_mono) auto
    also have "\<dots> = x" using nu by simp
    finally show ?thesis .
  qed
  moreover have "x \<le> (y + u / 2)\<^sup>2"
  proof -
    have "x = 4 * n * (u * u) / 4" using nu by simp
    also have "\<dots> \<le> of_int ((2 * c + 1) * (2 * c + 1)) * (u * u) / 4"
      using b(3) u by (intro divide_right_mono mult_right_mono) auto
    also have "\<dots> = (y + u / 2)\<^sup>2"
      by (simp add: y_def power2_eq_square algebra_simps)
    finally show ?thesis .
  qed
  ultimately show ?thesis using that unfolding u_def by blast
qed

lemma dsqrt_cases:
  obtains (raises) "x < 0" "dsqrt x = Inl DecimalError"
  | (root) y where "0 \<le> x" "dsqrt x = Inr y" "0 \<le> y" "dround y = y"
proof (cases x "0 :: decimal" rule: linorder_cases)
  case less
  then show ?thesis by (intro raises) (simp_all add: dsqrt_def)
next
  case equal
  then show ?thesis by (intro root [of 0]) (simp_all add: dsqrt_def)
next
  case greater
  obtain y where "dsqrt x = Inr y" "0 < y" "dround y = y" using dsqrt_pos [OF greater] by blast
  with greater show ?thesis by (intro root [of y]) simp_all
qed

end
