(* ===== verification/Sizing.thy ===== *)
theory Sizing
  imports Decimal_Sqrt Event_Log
begin

text \<open>
  Leverage caps and volatility targeting (\<^verbatim>\<open>execution/sizing.py\<close>) with the sleeve weights the
  Manager writes (\<^verbatim>\<open>agents/manager_bridge.py\<close>). The weights file is a parameter of the
  functions that read it: absent, not readable as a JSON object, or the pairs of the object,
  a value being \<open>None\<close> when its text is not a number. Weights are finite numbers.
\<close>

subsection \<open>Constants\<close>

definition ewma_lambda :: decimal where "ewma_lambda = 94 / 100"
definition vol_floor_annual :: decimal where "vol_floor_annual = 8 / 100"
definition vol_target_cap_leverage :: decimal where "vol_target_cap_leverage = 175 / 100"
definition leverage_day_change_cap :: decimal where "leverage_day_change_cap = 10 / 100"
definition trading_days :: decimal where "trading_days = 252"
definition max_master_capability :: decimal where "max_master_capability = 15 / 10"

definition sqrt_252 :: decimal where
  "sqrt_252 = (case dsqrt trading_days of Inl _ \<Rightarrow> 0 | Inr y \<Rightarrow> y)"

definition floor_daily :: decimal where "floor_daily = ddiv vol_floor_annual sqrt_252"

fun agent_base_max_gross :: "agent_id \<Rightarrow> decimal" where
  "agent_base_max_gross HAIKU = 150 / 100"
| "agent_base_max_gross SONNET = 125 / 100"
| "agent_base_max_gross OPUS = 1"
| "agent_base_max_gross MANAGER = 1"

fun agent_base_vol_target :: "agent_id \<Rightarrow> decimal" where
  "agent_base_vol_target HAIKU = 30 / 100"
| "agent_base_vol_target SONNET = 25 / 100"
| "agent_base_vol_target OPUS = 20 / 100"
| "agent_base_vol_target MANAGER = 10 / 100"

fun vix_scalar :: "vix_bucket \<Rightarrow> decimal" where
  "vix_scalar VERY_LOW = 6 / 10"
| "vix_scalar SWEET_SPOT = 1"
| "vix_scalar ELEVATED = 8 / 10"
| "vix_scalar STRESS = 5 / 10"
| "vix_scalar CRISIS = 25 / 100"

fun drawdown_scalar :: "drawdown_bucket \<Rightarrow> decimal" where
  "drawdown_scalar NORMAL = 1"
| "drawdown_scalar YELLOW = 75 / 100"
| "drawdown_scalar ORANGE = 50 / 100"
| "drawdown_scalar RED = 25 / 100"
| "drawdown_scalar FORCED_CASH = 0"

definition classify_vix :: "decimal \<Rightarrow> vix_bucket" where
  "classify_vix vix = (if vix < 12 then VERY_LOW else if vix < 18 then SWEET_SPOT
     else if vix < 25 then ELEVATED else if vix < 35 then STRESS else CRISIS)"

subsection \<open>Sleeve weights\<close>

datatype weights_file = No_weights | Bad_weights | Weights "(string \<times> decimal option) list"

definition read_weight :: "(agent_id, decimal) dict \<Rightarrow> string \<times> decimal option \<Rightarrow> (agent_id, decimal) dict" where
  "read_weight out kv = (case agent_of_str (py_lower (fst kv)) of
       Inl _ \<Rightarrow> out
     | Inr a \<Rightarrow> (case snd kv of None \<Rightarrow> out | Some w \<Rightarrow> dict_set a w out))"

definition read_sleeve_weights :: "weights_file \<Rightarrow> (agent_id, decimal) dict" where
  "read_sleeve_weights file = (case file of Weights kvs \<Rightarrow> foldl read_weight [] kvs | _ \<Rightarrow> [])"

definition write_sleeve_weights :: "(agent_id, decimal) dict \<Rightarrow> weights_file" where
  "write_sleeve_weights ws = Weights (map (\<lambda>(a, w). (agent_str a, Some w)) ws)"

subsection \<open>The gross cap\<close>

definition clamp_weight :: "decimal \<Rightarrow> decimal" where
  "clamp_weight w = max (25 / 100) (min 2 w)"

definition effective_max_gross ::
  "weights_file \<Rightarrow> agent_id \<Rightarrow> decimal \<Rightarrow> vix_bucket \<Rightarrow> drawdown_bucket \<Rightarrow> exn + decimal" where
  "effective_max_gross file a mc vix dd =
     (if max_master_capability < mc then Inl ValueError
      else (let w = clamp_weight (dict_get_or (read_sleeve_weights file) a 1);
                result = dmul (dmul (dmul (dmul (agent_base_max_gross a) mc) (vix_scalar vix)) (drawdown_scalar dd)) w
            in Inr (max result 0)))"

subsection \<open>The volatility estimator\<close>

record vol_estimator =
  ve_lambda :: decimal
  ve_variance :: decimal

definition new_estimator :: "decimal \<Rightarrow> vol_estimator" where
  "new_estimator lam = \<lparr>ve_lambda = lam, ve_variance = 0\<rparr>"

definition update_vol :: "decimal \<Rightarrow> vol_estimator \<Rightarrow> vol_estimator" where
  "update_vol ret v = (let r2 = dmul ret ret in
     v\<lparr>ve_variance := dadd (dmul (ve_lambda v) (ve_variance v)) (dmul (dsub 1 (ve_lambda v)) r2)\<rparr>)"

definition daily_vol :: "vol_estimator \<Rightarrow> exn + decimal" where
  "daily_vol v = (if ve_variance v = 0 then Inr floor_daily
     else bindr (dsqrt (ve_variance v)) (\<lambda>raw. Inr (max raw floor_daily)))"

definition annual_vol :: "vol_estimator \<Rightarrow> exn + decimal" where
  "annual_vol v = bindr (daily_vol v) (\<lambda>d. Inr (dmul d sqrt_252))"

subsection \<open>The sizer\<close>

record vol_sizer =
  vs_estimator :: vol_estimator
  vs_target :: decimal
  vs_prev :: "decimal option"

definition new_sizer :: "vol_estimator \<Rightarrow> decimal \<Rightarrow> vol_sizer" where
  "new_sizer v t = \<lparr>vs_estimator = v, vs_target = t, vs_prev = None\<rparr>"

definition day_limited :: "decimal option \<Rightarrow> decimal \<Rightarrow> decimal" where
  "day_limited prev capped = (case prev of
       None \<Rightarrow> capped
     | Some p \<Rightarrow> (let max_up = dmul p (dadd 1 leverage_day_change_cap);
                      max_down = dmul p (dsub 1 leverage_day_change_cap)
                  in min (max capped max_down) max_up))"

definition target_leverage :: "vol_sizer \<Rightarrow> (exn + decimal) \<times> vol_sizer" where
  "target_leverage s =
     (case bindr (annual_vol (vs_estimator s)) (\<lambda>vol. ddiv_chk (vs_target s) vol) of
        Inl e \<Rightarrow> (Inl e, s)
      | Inr raw \<Rightarrow> (let capped = day_limited (vs_prev s) (min raw vol_target_cap_leverage)
                    in (Inr capped, s\<lparr>vs_prev := Some capped\<rparr>)))"

definition final_leverage :: "decimal \<Rightarrow> vol_sizer \<Rightarrow> (exn + decimal) \<times> vol_sizer" where
  "final_leverage max_gross s = (case target_leverage s of
       (Inl e, s') \<Rightarrow> (Inl e, s') | (Inr l, s') \<Rightarrow> (Inr (min l max_gross), s'))"

text \<open>The volatility of a position is floored, so the division is never by zero.\<close>

definition sizing_multiplier :: "decimal \<Rightarrow> decimal \<Rightarrow> decimal" where
  "sizing_multiplier vol target = min (ddiv target (max vol vol_floor_annual)) vol_target_cap_leverage"

definition vol_targeted_position_value :: "decimal \<Rightarrow> decimal \<Rightarrow> decimal \<Rightarrow> decimal \<Rightarrow> decimal" where
  "vol_targeted_position_value weight equity vol target =
     dmul (dmul weight equity) (sizing_multiplier vol target)"

subsection \<open>Scalar tables\<close>

text \<open>
  What the cap relies on: a table of scalars between 0 and 1; a ladder also falls as the
  bucket gets worse.
\<close>

locale scalar_table =
  fixes scalar :: "'b \<Rightarrow> decimal"
  assumes scalar_nonneg: "0 \<le> scalar b" and scalar_le_one: "scalar b \<le> 1"
begin

lemma scaled_nonneg: "0 \<le> x \<Longrightarrow> 0 \<le> dmul x (scalar b)"
  by (intro dmul_nonneg scalar_nonneg)

lemma scaled_le: "0 \<le> x \<Longrightarrow> x \<le> c \<Longrightarrow> dround c = c \<Longrightarrow> dmul x (scalar b) \<le> c"
proof -
  assume x: "0 \<le> x" "x \<le> c" "dround c = c"
  have "x * scalar b \<le> x" using x(1) scalar_le_one by (simp add: mult_left_le)
  with x show ?thesis unfolding dmul_def by (intro dec.rnd_le_fixed) auto
qed

end

locale scalar_ladder = scalar_table scalar for scalar :: "'b::linorder \<Rightarrow> decimal" +
  assumes scalar_antimono: "b \<le> b' \<Longrightarrow> scalar b' \<le> scalar b"
begin

lemma scaled_antimono: "0 \<le> x \<Longrightarrow> b \<le> b' \<Longrightarrow> dmul x (scalar b') \<le> dmul x (scalar b)"
  unfolding dmul_def by (intro dround_mono mult_left_mono scalar_antimono)

end

interpretation vix_table: scalar_table vix_scalar
proof unfold_locales
  show "0 \<le> vix_scalar b" "vix_scalar b \<le> 1" for b by (cases b; simp)+
qed

interpretation drawdown_ladder: scalar_ladder drawdown_scalar
proof unfold_locales
  show "0 \<le> drawdown_scalar b" "drawdown_scalar b \<le> 1" for b by (cases b; simp)+
  show "drawdown_scalar b' \<le> drawdown_scalar b" if "b \<le> b'" for b b'
    using that by (cases b; cases b') (simp_all add: bucket_order)
qed

lemma dmul_mono: "0 \<le> a \<Longrightarrow> a \<le> b \<Longrightarrow> 0 \<le> c \<Longrightarrow> dmul a c \<le> dmul b c"
  unfolding dmul_def by (intro dround_mono mult_right_mono)

lemma clamp_weight_bounds: "25 / 100 \<le> clamp_weight w" "clamp_weight w \<le> 2" "0 \<le> clamp_weight w"
  by (auto simp: clamp_weight_def)

lemma base_gross_bounds: "1 \<le> agent_base_max_gross a" "agent_base_max_gross a \<le> 15 / 10"
  by (cases a; simp)+

text \<open>The base of the product: between 0 and one and a half times the agent's cap.\<close>

lemma base_times_mc:
  assumes "0 \<le> mc" "mc \<le> max_master_capability"
  shows "0 \<le> dmul (agent_base_max_gross a) mc" "dmul (agent_base_max_gross a) mc \<le> agent_base_max_gross a * (15 / 10)"
proof -
  show "0 \<le> dmul (agent_base_max_gross a) mc"
    using assms base_gross_bounds(1) [of a] by (intro dmul_nonneg) auto
  have "dround (agent_base_max_gross a * (15 / 10)) = agent_base_max_gross a * (15 / 10)"
    by (cases a) (simp_all add: dround_small)
  then show "dmul (agent_base_max_gross a) mc \<le> agent_base_max_gross a * (15 / 10)"
    unfolding dmul_def using assms base_gross_bounds(1) [of a]
    by (intro dec.rnd_le_fixed) (auto simp: max_master_capability_def intro!: mult_left_mono)
qed

text \<open>The floor of the daily volatility, annualized again, is exactly the floor.\<close>

lemma dsqrt_252: "dsqrt 252 = Inr (1587450786638754354300969452 / 10 ^ 26)"
proof -
  have "dexp 252 = 2" by (rule dexp_unique) (simp_all add: p10_def)
  then have e: "root_exp 252 = 1" by (simp add: root_exp_def)
  have "isqrt (252 * 10 ^ 52) = 1587450786638754354300969452" by (rule isqrt_unique) simp_all
  moreover have "nat \<lfloor>252 * 10 ^ 52 :: rat\<rfloor> = 252 * 10 ^ 52"
  proof -
    have "\<lfloor>of_int (252 * 10 ^ 52) :: rat\<rfloor> = 252 * 10 ^ 52" by (rule floor_of_int)
    then show ?thesis by simp
  qed
  ultimately have "near_root (252 * 10 ^ 52) = 1587450786638754354300969452" by (simp add: near_root_def Let_def)
  then show ?thesis by (simp add: dsqrt_def e) (simp add: p10_def)
qed

lemma annual_floor: "0 < floor_daily" "0 < sqrt_252" "dmul floor_daily sqrt_252 = vol_floor_annual"
proof -
  have s: "sqrt_252 = 1587450786638754354300969452 / 10 ^ 26"
    by (simp add: sqrt_252_def trading_days_def dsqrt_252)
  have "floor_daily = of_int 5039526306789696362860220484 * p10 (- 3 - 27)"
    unfolding floor_daily_def ddiv_def vol_floor_annual_def s
    by (rule dround_eqI) (simp_all add: p10_def)
  then have f: "floor_daily = 5039526306789696362860220484 / 10 ^ 30" by (simp add: p10_def)
  show "0 < floor_daily" "0 < sqrt_252" by (simp_all add: f s)
  have "dmul floor_daily sqrt_252 = of_int (8 * 10 ^ 27) * p10 (- 2 - 27)"
    unfolding dmul_def f s by (rule dround_eqI) (simp_all add: p10_def)
  then show "dmul floor_daily sqrt_252 = vol_floor_annual" by (simp add: p10_def vol_floor_annual_def)
qed

lemma annual_vol_floor:
  assumes "0 \<le> ve_variance v"
  shows "\<exists>a. annual_vol v = Inr a \<and> vol_floor_annual \<le> a"
proof -
  have "\<exists>y. daily_vol v = Inr y \<and> floor_daily \<le> y"
  proof (cases "ve_variance v = 0")
    case False
    with assms dsqrt_pos(1) [of "ve_variance v"] obtain y where "dsqrt (ve_variance v) = Inr y" by auto
    with False show ?thesis by (simp add: daily_vol_def)
  qed (simp add: daily_vol_def)
  then obtain y where "daily_vol v = Inr y" "floor_daily \<le> y" by blast
  then show ?thesis
    using annual_floor dmul_mono [of floor_daily y sqrt_252] by (auto simp: annual_vol_def)
qed

subsection \<open>Days of the sizer\<close>

text \<open>A day: the return is fed to the estimator, then the leverage is asked for.\<close>

definition sizer_day :: "decimal \<Rightarrow> vol_sizer \<Rightarrow> (exn + decimal) \<times> vol_sizer" where
  "sizer_day ret s = target_leverage (s\<lparr>vs_estimator := update_vol ret (vs_estimator s)\<rparr>)"

definition sizer_ok :: "vol_sizer \<Rightarrow> bool" where
  "sizer_ok s \<longleftrightarrow> 0 \<le> ve_lambda (vs_estimator s) \<and> ve_lambda (vs_estimator s) \<le> 1 \<and> 0 \<le> ve_variance (vs_estimator s)
     \<and> 0 \<le> vs_target s \<and> (\<forall>p. vs_prev s = Some p \<longrightarrow> 0 \<le> p \<and> p \<le> vol_target_cap_leverage)"

definition day_change_ok :: "decimal option \<Rightarrow> decimal \<Rightarrow> bool" where
  "day_change_ok prev l \<longleftrightarrow> (\<forall>p. prev = Some p \<longrightarrow> dmul p (9 / 10) \<le> l \<and> l \<le> dmul p (11 / 10))"

lemma update_vol_nonneg:
  "0 \<le> ve_lambda v \<Longrightarrow> ve_lambda v \<le> 1 \<Longrightarrow> 0 \<le> ve_variance v \<Longrightarrow> 0 \<le> ve_variance (update_vol r v)"
  by (auto simp: update_vol_def Let_def dec_defs intro!: add_nonneg_nonneg mult_nonneg_nonneg)

lemma change_factors: "dadd 1 leverage_day_change_cap = 11 / 10" "dsub 1 leverage_day_change_cap = 9 / 10"
  by (simp_all add: leverage_day_change_cap_def dec_eval)

lemma day_limited_ok:
  assumes "0 \<le> c" "c \<le> vol_target_cap_leverage" "\<forall>p. prev = Some p \<longrightarrow> 0 \<le> p \<and> p \<le> vol_target_cap_leverage"
  shows "0 \<le> day_limited prev c \<and> day_limited prev c \<le> vol_target_cap_leverage \<and> day_change_ok prev (day_limited prev c)"
proof (cases prev)
  case (Some p)
  have p: "0 \<le> p" "p \<le> vol_target_cap_leverage" using assms(3) Some by auto
  have le: "dmul p (9 / 10) \<le> dmul p (11 / 10)" unfolding dmul_def using p by (intro dround_mono mult_left_mono) auto
  have "dmul p (9 / 10) \<le> vol_target_cap_leverage"
    unfolding dmul_def using p by (intro dec.rnd_le_fixed) (auto simp: vol_target_cap_leverage_def dround_small)
  moreover have "0 \<le> dmul p (11 / 10)" "0 \<le> dmul p (9 / 10)" using p by (simp_all add: dmul_nonneg)
  ultimately show ?thesis
    using Some assms(1,2) le by (auto simp: day_limited_def day_change_ok_def Let_def change_factors min_def max_def)
qed (use assms in \<open>simp add: day_limited_def day_change_ok_def\<close>)

lemma sizer_day_ok:
  assumes "sizer_ok s"
  shows "\<exists>l. sizer_day ret s = (Inr l, s\<lparr>vs_estimator := update_vol ret (vs_estimator s), vs_prev := Some l\<rparr>)
    \<and> sizer_ok (snd (sizer_day ret s)) \<and> 0 \<le> l \<and> l \<le> vol_target_cap_leverage \<and> day_change_ok (vs_prev s) l"
proof -
  let ?v = "update_vol ret (vs_estimator s)"
  have var: "0 \<le> ve_variance ?v" "ve_lambda ?v = ve_lambda (vs_estimator s)"
    using assms by (auto simp: sizer_ok_def update_vol_nonneg) (simp add: update_vol_def Let_def)
  then obtain a where a: "annual_vol ?v = Inr a" "vol_floor_annual \<le> a" using annual_vol_floor by blast
  have "0 < a" using a(2) by (simp add: vol_floor_annual_def)
  then have "0 \<le> ddiv (vs_target s) a" using assms by (simp add: sizer_ok_def ddiv_def)
  then have c: "0 \<le> min (ddiv (vs_target s) a) vol_target_cap_leverage" by (simp add: vol_target_cap_leverage_def)
  have ok: "\<forall>p. vs_prev s = Some p \<longrightarrow> 0 \<le> p \<and> p \<le> vol_target_cap_leverage" using assms by (simp add: sizer_ok_def)
  let ?l = "day_limited (vs_prev s) (min (ddiv (vs_target s) a) vol_target_cap_leverage)"
  have "sizer_day ret s = (Inr ?l, s\<lparr>vs_estimator := ?v, vs_prev := Some ?l\<rparr>)"
    using a(1) \<open>0 < a\<close> by (simp add: sizer_day_def target_leverage_def ddiv_chk_def Let_def)
  then show ?thesis
    using day_limited_ok [OF c _ ok] assms var by (auto simp: sizer_ok_def)
qed

lemma gross_between:
  assumes "0 \<le> mc" "effective_max_gross file a mc vix dd = Inr r"
  shows "0 \<le> r" "r \<le> 3 * agent_base_max_gross a"
proof -
  let ?w = "clamp_weight (dict_get_or (read_sleeve_weights file) a 1)" and ?c = "agent_base_max_gross a * (15 / 10)"
  from assms(2) have mc: "mc \<le> max_master_capability"
    and r: "r = max (dmul (dmul (dmul (dmul (agent_base_max_gross a) mc) (vix_scalar vix)) (drawdown_scalar dd)) ?w) 0"
    by (auto simp: effective_max_gross_def Let_def split: if_splits)
  note b = base_times_mc [OF assms(1) mc, of a]
  have c: "dround ?c = ?c" "dround (3 * agent_base_max_gross a) = 3 * agent_base_max_gross a"
    by (cases a; simp add: dround_small)+
  let ?x = "dmul (dmul (dmul (agent_base_max_gross a) mc) (vix_scalar vix)) (drawdown_scalar dd)"
  have x: "0 \<le> ?x" "?x \<le> ?c"
    by (intro drawdown_ladder.scaled_nonneg drawdown_ladder.scaled_le vix_table.scaled_nonneg vix_table.scaled_le b c(1))+
  have "dmul ?x ?w \<le> 3 * agent_base_max_gross a"
    unfolding dmul_def [of ?x]
  proof (rule dec.rnd_le_fixed [OF c(2)])
    have "?x * ?w \<le> ?c * 2" using x clamp_weight_bounds by (intro mult_mono) auto
    then show "?x * ?w \<le> 3 * agent_base_max_gross a" by simp
  qed
  then show "0 \<le> r" "r \<le> 3 * agent_base_max_gross a"
    using r base_gross_bounds(1) [of a] by auto
qed

lemma gross_antimono:
  assumes "0 \<le> mc" "effective_max_gross file a mc vix dd = Inr r" "dd \<le> dd'"
  shows "\<exists>r'. effective_max_gross file a mc vix dd' = Inr r' \<and> r' \<le> r"
proof -
  from assms(2) have mc: "mc \<le> max_master_capability" by (auto simp: effective_max_gross_def split: if_splits)
  have "0 \<le> dmul (dmul (agent_base_max_gross a) mc) (vix_scalar vix)"
    using base_times_mc(1) [OF assms(1) mc] by (rule vix_table.scaled_nonneg)
  from drawdown_ladder.scaled_antimono [OF this assms(3)] drawdown_ladder.scaled_nonneg [OF this]
  have "dmul (dmul (dmul (dmul (agent_base_max_gross a) mc) (vix_scalar vix)) (drawdown_scalar dd')) w
    \<le> dmul (dmul (dmul (dmul (agent_base_max_gross a) mc) (vix_scalar vix)) (drawdown_scalar dd)) w" if "0 \<le> w" for w
    using that by (intro dmul_mono)
  from max.mono [OF this [OF clamp_weight_bounds(3)] order_refl] assms(2) mc show ?thesis
    by (auto simp: effective_max_gross_def Let_def split: if_splits)
qed

lemma gross_forced_cash: "effective_max_gross file a mc vix FORCED_CASH = Inr r \<Longrightarrow> r = 0"
  by (auto simp: effective_max_gross_def dmul_def Let_def split: if_splits)

lemma position_value_bounds:
  assumes "0 \<le> w" "0 \<le> e" "0 \<le> t"
  shows "0 \<le> vol_targeted_position_value w e v t" "vol_targeted_position_value w e v t \<le> dmul (dmul w e) (175 / 100)"
proof -
  have m: "0 \<le> sizing_multiplier v t" "sizing_multiplier v t \<le> 175 / 100"
    using assms by (auto simp: sizing_multiplier_def vol_target_cap_leverage_def vol_floor_annual_def ddiv_def
        intro!: divide_nonneg_pos)
  have x: "0 \<le> dmul w e" using assms by (intro dmul_nonneg)
  show "0 \<le> vol_targeted_position_value w e v t"
    unfolding vol_targeted_position_value_def using x m(1) by (rule dmul_nonneg)
  show "vol_targeted_position_value w e v t \<le> dmul (dmul w e) (175 / 100)"
    unfolding vol_targeted_position_value_def dmul_def [of "dmul w e"]
    by (intro dround_mono mult_left_mono m(2) x)
qed

lemma read_written_weights:
  assumes "distinct (map fst ws)"
  shows "read_sleeve_weights (write_sleeve_weights ws) = ws"
proof -
  have low: "py_lower (agent_str a) = agent_str a" for a by (cases a) (simp_all add: py_lower_def lower_char_def)
  have "distinct (map fst (out @ ws)) \<Longrightarrow> foldl read_weight out (map (\<lambda>(a, w). (agent_str a, Some w)) ws) = out @ ws" for out
  proof (induction ws arbitrary: out)
    case (Cons p ws)
    obtain a w where p: "p = (a, w)" by fastforce
    have "read_weight out (agent_str a, Some w) = out @ [(a, w)]"
      using Cons.prems by (simp add: read_weight_def low p) (rule dict_set_fresh, auto)
    with Cons.IH [of "out @ [(a, w)]"] Cons.prems p show ?case by simp
  qed simp
  from this [of "[]"] assms show ?thesis by (simp add: read_sleeve_weights_def write_sleeve_weights_def)
qed


text \<open>A run: the leverage of every day.\<close>

fun sizer_run :: "decimal list \<Rightarrow> vol_sizer \<Rightarrow> (exn + decimal) list \<times> vol_sizer" where
  "sizer_run [] s = ([], s)"
| "sizer_run (r # rs) s = (case sizer_day r s of (l, s1) \<Rightarrow> case sizer_run rs s1 of (ls, s2) \<Rightarrow> (l # ls, s2))"

fun smooth :: "decimal option \<Rightarrow> decimal list \<Rightarrow> bool" where
  "smooth prev [] \<longleftrightarrow> True"
| "smooth prev (l # ls) \<longleftrightarrow> 0 \<le> l \<and> l \<le> 175 / 100 \<and> day_change_ok prev l \<and> smooth (Some l) ls"

lemma sizer_run_smooth:
  "sizer_ok s \<Longrightarrow> \<exists>ls. fst (sizer_run rets s) = map Inr ls \<and> length ls = length rets
     \<and> smooth (vs_prev s) ls \<and> sizer_ok (snd (sizer_run rets s))"
proof (induction rets arbitrary: s)
  case (Cons r rets)
  from sizer_day_ok [OF Cons.prems, of r] obtain l where
    l: "sizer_day r s = (Inr l, s\<lparr>vs_estimator := update_vol r (vs_estimator s), vs_prev := Some l\<rparr>)"
    "0 \<le> l" "l \<le> vol_target_cap_leverage" "day_change_ok (vs_prev s) l" and ok: "sizer_ok (snd (sizer_day r s))"
    by blast
  from Cons.IH [OF ok] obtain ls where "fst (sizer_run rets (snd (sizer_day r s))) = map Inr ls"
    "length ls = length rets" "smooth (Some l) ls" "sizer_ok (snd (sizer_run rets (snd (sizer_day r s))))"
    by (auto simp: l(1))
  with l show ?case
    by (intro exI [of _ "l # ls"]) (simp add: l(1) vol_target_cap_leverage_def case_prod_beta)
qed simp

subsection \<open>Properties\<close>

text \<open>
  The gross cap is refused exactly for a master capability above one and a half; otherwise it
  lies between zero and three times the base of the agent, is zero in forced cash, and never grows
  when the drawdown bucket gets worse.
\<close>

lemma gross_cap_bounds:
  assumes "0 \<le> mc"
  shows "(effective_max_gross file a mc vix dd = Inl ValueError \<longleftrightarrow> 15 / 10 < mc)
    \<and> (\<forall>r. effective_max_gross file a mc vix dd = Inr r \<longrightarrow>
         0 \<le> r \<and> r \<le> 3 * agent_base_max_gross a \<and> (dd = FORCED_CASH \<longrightarrow> r = 0)
         \<and> (\<forall>dd'\<ge>dd. \<exists>r'. effective_max_gross file a mc vix dd' = Inr r' \<and> r' \<le> r))"
proof (intro conjI allI impI)
  show "effective_max_gross file a mc vix dd = Inl ValueError \<longleftrightarrow> 15 / 10 < mc"
    by (simp add: effective_max_gross_def Let_def max_master_capability_def)
  fix r
  assume r: "effective_max_gross file a mc vix dd = Inr r"
  show "0 \<le> r" "r \<le> 3 * agent_base_max_gross a" using gross_between [OF assms r] by auto
  show "r = 0" if "dd = FORCED_CASH" using r that gross_forced_cash by blast
  show "\<exists>r'. effective_max_gross file a mc vix dd' = Inr r' \<and> r' \<le> r" if "dd \<le> dd'" for dd'
    using gross_antimono [OF assms r that] .
qed

lemma gross_cap_bounds_example:
  "\<exists>r. effective_max_gross No_weights OPUS 1 SWEET_SPOT NORMAL = Inr r \<and> 0 \<le> r \<and> r \<le> 3"
proof -
  have "effective_max_gross No_weights OPUS 1 SWEET_SPOT NORMAL \<noteq> Inl ValueError"
    using gross_cap_bounds [of 1 No_weights OPUS SWEET_SPOT NORMAL] by simp
  then obtain r where "effective_max_gross No_weights OPUS 1 SWEET_SPOT NORMAL = Inr r"
    by (auto simp: effective_max_gross_def Let_def split: if_splits)
  then show ?thesis using gross_cap_bounds [of 1 No_weights OPUS SWEET_SPOT NORMAL] by auto
qed

text \<open>
  On any sequence of daily returns the sizer never fails, its leverage stays between 0 and
  1.75, and each day's leverage is within ten percent of the day before.
\<close>

lemma leverage_moves_slowly:
  assumes "sizer_ok s"
  shows "\<exists>ls. fst (sizer_run rets s) = map Inr ls \<and> length ls = length rets \<and> smooth (vs_prev s) ls"
  using sizer_run_smooth [OF assms] by blast

lemma leverage_moves_slowly_example:
  "\<exists>ls. fst (sizer_run [1 / 100, - 2 / 100, 0] (new_sizer (new_estimator ewma_lambda) (1 / 5))) = map Inr ls
     \<and> length ls = 3 \<and> smooth None ls"
proof -
  have "sizer_ok (new_sizer (new_estimator ewma_lambda) (1 / 5))"
    by (simp add: sizer_ok_def new_sizer_def new_estimator_def ewma_lambda_def)
  from leverage_moves_slowly [OF this, of "[1 / 100, - 2 / 100, 0]"] show ?thesis
    by (simp add: new_sizer_def numeral_3_eq_3 del: sizer_run.simps)
qed

text \<open>
  The sleeve weights the Manager writes are the weights the gross cap reads back.
\<close>

lemma weights_read_back:
  assumes "distinct (map fst ws)"
  shows "read_sleeve_weights (write_sleeve_weights ws) = ws"
  by (rule read_written_weights [OF assms])

lemma weights_read_back_example:
  "read_sleeve_weights (write_sleeve_weights [(HAIKU, 5 / 4), (OPUS, 3 / 4)]) = [(HAIKU, 5 / 4), (OPUS, 3 / 4)]"
  by (rule weights_read_back) simp

end
