(* ===== verification/Risk_Gate.thy ===== *)
theory Risk_Gate
  imports Kill_Switch Tax Lots Events Sizing
begin

text \<open>
  The pre-trade risk gate of \<^verbatim>\<open>execution/risk.py\<close>. The gate shares the kill engine, the wash
  records and the lot ledger with the rest of the program and keeps its own list of leveraged
  ETF openings; \<open>rg_bus\<close> is the list of published events, \<open>None\<close> when no bus was given. A veto is
  a value instead of a formatted text. Asking whether an agent is benched clears an
  expired bench, so the check returns the gate as well.
\<close>

subsection \<open>Policy tables\<close>

fun single_name_cap :: "agent_id \<Rightarrow> decimal" where
  "single_name_cap HAIKU = 25 / 100"
| "single_name_cap SONNET = 12 / 100"
| "single_name_cap OPUS = 18 / 100"
| "single_name_cap MANAGER = 30 / 100"

definition letf_whitelist :: "symbol list" where
  "letf_whitelist = [''TQQQ'', ''SQQQ'', ''UPRO'', ''SPXU'', ''SOXL'', ''SOXS'', ''TMF'', ''TMV'']"

definition letf_max_hold_days :: int where "letf_max_hold_days = 5"
definition options_max_fraction :: decimal where "options_max_fraction = 20 / 100"

definition wash_sale_proxies :: "(symbol, symbol) dict" where
  "wash_sale_proxies =
     [(''SPY'', ''IVV''), (''IVV'', ''SPY''), (''QQQ'', ''QQQM''), (''QQQM'', ''QQQ''),
      (''TQQQ'', ''UPRO''), (''UPRO'', ''TQQQ''), (''SQQQ'', ''SPXU''), (''SPXU'', ''SQQQ'')]"

definition letf_equiv_map :: "(symbol, string) dict" where
  "letf_equiv_map =
     [(''TQQQ'', ''NDX_LONG_3X''), (''UPRO'', ''NDX_LONG_3X''), (''SQQQ'', ''NDX_SHORT_3X''),
      (''SPXU'', ''NDX_SHORT_3X''), (''SOXL'', ''SOX_LONG_3X''), (''SOXS'', ''SOX_SHORT_3X''),
      (''TMF'', ''BOND_LONG_3X''), (''TMV'', ''BOND_SHORT_3X'')]"

definition letf_rotation_window :: int where "letf_rotation_window = 21"
definition letf_rotation_threshold :: nat where "letf_rotation_threshold = 3"

definition opens_pos :: "action \<Rightarrow> bool" where "opens_pos a \<longleftrightarrow> a \<in> {BUY_ACT, REBALANCE_TO}"
definition closes_pos :: "action \<Rightarrow> bool" where "closes_pos a \<longleftrightarrow> a \<in> {SELL_ACT, CLOSE_ACT}"

subsection \<open>Decisions and the state of the gate\<close>

datatype veto =
    Liquidate_only kill_switch_state
  | Entries_blocked kill_switch_state
  | Benched agent_id
  | Forced_cash
  | Wash_sale symbol int
  | Wash_proxy symbol symbol int
  | Held_too_long symbol int
  | Rotation symbol string nat
  | Options_exposure symbol decimal
  | Naked symbol
  | One_sided symbol order_side
  | Zero_gross

record risk_decision =
  rd_allowed :: bool
  rd_veto :: "veto option"
  rd_capped :: "decimal option"

definition vetoed :: "veto \<Rightarrow> risk_decision" where
  "vetoed v = \<lparr>rd_allowed = False, rd_veto = Some v, rd_capped = None\<rparr>"

record letf_record =
  lr_agent :: agent_id
  lr_category :: string
  lr_date :: date

record risk_gate =
  rg_kill :: kill_engine
  rg_wash :: "wash_record list"
  rg_lots :: ledger
  rg_bus :: "bus_event list option"
  rg_activity :: "letf_record list"

definition new_gate :: "kill_engine \<Rightarrow> wash_record list \<Rightarrow> ledger \<Rightarrow> bus_event list option \<Rightarrow> risk_gate" where
  "new_gate k w g b = \<lparr>rg_kill = k, rg_wash = w, rg_lots = g, rg_bus = b, rg_activity = []\<rparr>"

subsection \<open>The single checks\<close>

definition check_wash_sale :: "intent \<Rightarrow> date \<Rightarrow> risk_gate \<Rightarrow> risk_decision option" where
  "check_wash_sale i today g =
     (if is_blocked (i_agent_id i) (i_symbol i) today (rg_wash g)
      then Some (vetoed (Wash_sale (i_symbol i) (days_remaining (i_agent_id i) (i_symbol i) today (rg_wash g))))
      else (case dict_get wash_sale_proxies (i_symbol i) of
              None \<Rightarrow> None
            | Some proxy \<Rightarrow>
                if is_blocked (i_agent_id i) proxy today (rg_wash g)
                then Some (vetoed (Wash_proxy (i_symbol i) proxy (days_remaining (i_agent_id i) proxy today (rg_wash g))))
                else None))"

text \<open>\<^verbatim>\<open>(today - min(lot.entry_date ...)).days\<close>, for a non-empty list of lots.\<close>

definition days_held :: "date \<Rightarrow> lot list \<Rightarrow> int" where
  "days_held today ls = today - Min (set (map l_entry_date ls))"

definition check_letf :: "intent \<Rightarrow> date \<Rightarrow> risk_gate \<Rightarrow> risk_decision option" where
  "check_letf i today g =
     (if closes_pos (i_action i) then None
      else (let ls = open_lots (i_agent_id i) (i_symbol i) (rg_lots g) in
            if ls \<noteq> [] \<and> letf_max_hold_days < days_held today ls
            then Some (vetoed (Held_too_long (i_symbol i) (days_held today ls))) else None))"

definition reopen_count :: "agent_id \<Rightarrow> string \<Rightarrow> date \<Rightarrow> letf_record list \<Rightarrow> nat" where
  "reopen_count a c start recs =
     length (filter (\<lambda>r. lr_agent r = a \<and> lr_category r = c \<and> start \<le> lr_date r) recs)"

definition check_letf_rotation :: "intent \<Rightarrow> date \<Rightarrow> risk_gate \<Rightarrow> risk_decision option \<times> risk_gate" where
  "check_letf_rotation i today g = (case dict_get letf_equiv_map (i_symbol i) of
       None \<Rightarrow> (None, g)
     | Some c \<Rightarrow>
         (let n = reopen_count (i_agent_id i) c (today - letf_rotation_window) (rg_activity g) in
          if letf_rotation_threshold \<le> n
          then (Some (vetoed (Rotation (i_symbol i) c n)),
                g\<lparr>rg_bus := map_option (\<lambda>b. b @ [LeverageRotationFlag (i_agent_id i) (i_symbol i) c (int n)]) (rg_bus g)\<rparr>)
          else (None, g)))"

definition options_fraction :: "intent \<Rightarrow> position list \<Rightarrow> decimal \<Rightarrow> decimal" where
  "options_fraction i ps equity =
     dadd (ddiv (dsum (map (dabs \<circ> market_value)
        (filter (\<lambda>p. p_agent_id p = i_agent_id i \<and> p_sleeve p = OPTIONS_SLEEVE) ps))) equity) (i_target_weight i)"

definition check_options :: "intent \<Rightarrow> position list \<Rightarrow> decimal \<Rightarrow> risk_decision option" where
  "check_options i ps equity =
     (if equity = 0 then None
      else if options_max_fraction < options_fraction i ps equity
      then Some (vetoed (Options_exposure (i_symbol i) (options_fraction i ps equity))) else None)"

definition check_options_structure :: "intent \<Rightarrow> risk_decision option" where
  "check_options_structure i = (case i_legs i of
       [] \<Rightarrow> Some (vetoed (Naked (i_symbol i)))
     | l # ls \<Rightarrow> if \<forall>m\<in>set ls. leg_side m = leg_side l
                 then Some (vetoed (One_sided (i_symbol i) (leg_side l))) else None)"

subsection \<open>The gate\<close>

text \<open>Checks 6 and 7, for whitelisted symbols of the equity sleeve only.\<close>

definition check_letfs :: "intent \<Rightarrow> date \<Rightarrow> risk_gate \<Rightarrow> risk_decision option \<times> risk_gate" where
  "check_letfs i today g =
     (if i_sleeve i = EQUITY_SLEEVE \<and> i_symbol i \<in> set letf_whitelist
      then (case check_letf i today g of
              Some d \<Rightarrow> (Some d, g)
            | None \<Rightarrow> if opens_pos (i_action i) then check_letf_rotation i today g else (None, g))
      else (None, g))"

text \<open>Checks 8 to 11.\<close>

definition check_size :: "intent \<Rightarrow> agent_state \<Rightarrow> decimal \<Rightarrow> position list \<Rightarrow> risk_decision" where
  "check_size i s gross ps =
     (let options = (i_sleeve i = OPTIONS_SLEEVE) in
      case (if options then check_options i ps (as_sleeve_equity s) else None) of
        Some d \<Rightarrow> d
      | None \<Rightarrow>
          (case (if options \<and> opens_pos (i_action i) then check_options_structure i else None) of
             Some d \<Rightarrow> d
           | None \<Rightarrow>
               if single_name_cap (i_agent_id i) < i_target_weight i
               then \<lparr>rd_allowed = True, rd_veto = None, rd_capped = Some (single_name_cap (i_agent_id i))\<rparr>
               else if gross = 0 \<and> opens_pos (i_action i) then vetoed Zero_gross
               else \<lparr>rd_allowed = True, rd_veto = None, rd_capped = None\<rparr>))"

definition check_intent ::
  "intent \<Rightarrow> agent_state \<Rightarrow> decimal \<Rightarrow> position list \<Rightarrow> datetime \<Rightarrow> risk_gate \<Rightarrow> risk_decision \<times> risk_gate" where
  "check_intent i s gross ps ts g =
     (let ks = ks_state (rg_kill g); today = date_of ts in
      if ks = DRAWDOWN_LIQUIDATE \<and> \<not> closes_pos (i_action i) then (vetoed (Liquidate_only ks), g)
      else if opens_pos (i_action i) \<and> \<not> can_open_new (rg_kill g) then (vetoed (Entries_blocked ks), g)
      else (case is_agent_benched (as_agent_id s) ts (rg_kill g) of (benched, k) \<Rightarrow>
        (let g1 = g\<lparr>rg_kill := k\<rparr> in
         if benched then (vetoed (Benched (as_agent_id s)), g1)
         else if as_drawdown_bucket s = FORCED_CASH \<and> opens_pos (i_action i) then (vetoed Forced_cash, g1)
         else (case (if opens_pos (i_action i) then check_wash_sale i today g1 else None) of
                 Some d \<Rightarrow> (d, g1)
               | None \<Rightarrow> (case check_letfs i today g1 of
                            (Some d, g2) \<Rightarrow> (d, g2)
                          | (None, g2) \<Rightarrow> (check_size i s gross ps, g2))))))"

subsection \<open>Leveraged ETFs\<close>

definition record_letf_open :: "agent_id \<Rightarrow> symbol \<Rightarrow> date \<Rightarrow> risk_gate \<Rightarrow> risk_gate" where
  "record_letf_open a s d g = (case dict_get letf_equiv_map s of
       None \<Rightarrow> g
     | Some c \<Rightarrow> g\<lparr>rg_activity := rg_activity g @ [\<lparr>lr_agent = a, lr_category = c, lr_date = d\<rparr>]\<rparr>)"

definition record_letf_exit :: "agent_id \<Rightarrow> symbol \<Rightarrow> date \<Rightarrow> risk_gate \<Rightarrow> risk_gate" where
  "record_letf_exit a s d g = g"

definition auto_liquidate :: "agent_id \<Rightarrow> date \<Rightarrow> ledger \<Rightarrow> position \<Rightarrow> bool" where
  "auto_liquidate a today g p \<longleftrightarrow> p_agent_id p = a \<and> p_symbol p \<in> set letf_whitelist
     \<and> (let ls = open_lots a (p_symbol p) g in ls \<noteq> [] \<and> letf_max_hold_days < days_held today ls)"

definition check_letf_auto_liquidations :: "agent_id \<Rightarrow> position list \<Rightarrow> datetime \<Rightarrow> risk_gate \<Rightarrow> symbol list" where
  "check_letf_auto_liquidations a ps ts g = map p_symbol (filter (auto_liquidate a (date_of ts) (rg_lots g)) ps)"


subsection \<open>Facts on the checks\<close>

lemmas action_kinds = opens_pos_def closes_pos_def

lemma not_both_kinds: "opens_pos a \<longleftrightarrow> \<not> closes_pos a"
  by (cases a) (simp_all add: action_kinds)

lemma vetoed_fields [simp]:
  "\<not> rd_allowed (vetoed v)" "rd_veto (vetoed v) = Some v" "rd_capped (vetoed v) = None"
  by (simp_all add: vetoed_def)

lemma bench_reading:
  "fst (is_agent_benched a ts k) \<longleftrightarrow> (\<exists>u. ar_until (ks_agents k a) = Some u \<and> ts < u)"
  "ks_state (snd (is_agent_benched a ts k)) = ks_state k"
  by (simp_all add: is_agent_benched_def split: option.split)

lemma liquidate_blocks: "can_open_new k \<Longrightarrow> ks_state k \<noteq> DRAWDOWN_LIQUIDATE"
  by (auto simp: can_open_new_def blocks_new_entries_def)

lemma days_held_less: "ls \<noteq> [] \<Longrightarrow> n < days_held today ls \<longleftrightarrow> (\<exists>l\<in>set ls. l_entry_date l + n < today)"
proof -
  assume "ls \<noteq> []"
  then have "Min (set (map l_entry_date ls)) < today - n \<longleftrightarrow> (\<exists>l\<in>set ls. l_entry_date l < today - n)"
    by (subst Min_less_iff) auto
  then show ?thesis by (auto simp: days_held_def algebra_simps)
qed

lemma too_long_iff:
  "(ls \<noteq> [] \<and> letf_max_hold_days < days_held today ls) \<longleftrightarrow> (\<exists>l\<in>set ls. l_entry_date l + 5 < today)"
  by (cases "ls = []") (simp_all add: days_held_less letf_max_hold_days_def)

lemma wash_check_iff:
  "check_wash_sale i today g = None \<longleftrightarrow>
     (\<forall>r\<in>set (rg_wash g). ws_agent r = i_agent_id i
        \<and> (ws_symbol r = i_symbol i \<or> dict_get wash_sale_proxies (i_symbol i) = Some (ws_symbol r))
        \<longrightarrow> today < ws_date r \<or> ws_date r + 30 < today)"
  by (auto simp: check_wash_sale_def is_blocked_iff split: option.split)

lemma letf_check_iff:
  "check_letf i today g = None \<longleftrightarrow> closes_pos (i_action i)
     \<or> (\<forall>l\<in>set (open_lots (i_agent_id i) (i_symbol i) (rg_lots g)). today \<le> l_entry_date l + 5)"
  unfolding check_letf_def Let_def too_long_iff by (simp add: not_le [symmetric] del: not_le)

lemma rotation_check_iff:
  "fst (check_letf_rotation i today g) = None \<longleftrightarrow>
     (\<forall>c. dict_get letf_equiv_map (i_symbol i) = Some c \<longrightarrow>
        reopen_count (i_agent_id i) c (today - 21) (rg_activity g) < 3)"
  by (auto simp: check_letf_rotation_def Let_def letf_rotation_threshold_def letf_rotation_window_def
      split: option.split)

lemma structure_check_iff:
  "check_options_structure i = None \<longleftrightarrow>
     (\<exists>l\<in>set (i_legs i). leg_side l = BUY) \<and> (\<exists>l\<in>set (i_legs i). leg_side l = SELL)"
proof (cases "i_legs i")
  case (Cons l ls)
  have "x \<noteq> BUY \<longleftrightarrow> x = SELL" for x by (cases x) auto
  then show ?thesis
    by (cases "leg_side l") (auto simp: check_options_structure_def Cons)
qed (simp add: check_options_structure_def)

lemma options_check_iff:
  "check_options i ps equity = None \<longleftrightarrow> equity = 0 \<or> options_fraction i ps equity \<le> 20 / 100"
  by (simp add: check_options_def options_max_fraction_def not_less)

lemma every_letf_has_a_category: "s \<in> set letf_whitelist \<longleftrightarrow> dict_get letf_equiv_map s \<noteq> None"
  by (simp add: letf_whitelist_def letf_equiv_map_def)

lemma checked_veto [simp]:
  "check_wash_sale i today g = Some d \<Longrightarrow> \<not> rd_allowed d"
  "check_letf i today g = Some d \<Longrightarrow> \<not> rd_allowed d"
  "check_letf_rotation i today g = (Some d, g') \<Longrightarrow> \<not> rd_allowed d"
  "check_letfs i today g = (Some d, g') \<Longrightarrow> \<not> rd_allowed d"
  "check_options i ps e = Some d \<Longrightarrow> \<not> rd_allowed d"
  "check_options_structure i = Some d \<Longrightarrow> \<not> rd_allowed d"
proof -
  show w: "check_wash_sale i today g = Some d \<Longrightarrow> \<not> rd_allowed d"
    by (auto simp: check_wash_sale_def split: if_splits option.splits)
  show l: "check_letf i today g = Some d \<Longrightarrow> \<not> rd_allowed d"
    by (auto simp: check_letf_def Let_def split: if_splits)
  show r: "check_letf_rotation i today g = (Some d, g') \<Longrightarrow> \<not> rd_allowed d"
    by (auto simp: check_letf_rotation_def Let_def split: if_splits option.splits)
  show "check_letfs i today g = (Some d, g') \<Longrightarrow> \<not> rd_allowed d"
    using l r by (auto simp: check_letfs_def split: if_splits option.splits)
  show "check_options i ps e = Some d \<Longrightarrow> \<not> rd_allowed d"
    by (auto simp: check_options_def split: if_splits)
  show "check_options_structure i = Some d \<Longrightarrow> \<not> rd_allowed d"
    by (auto simp: check_options_structure_def split: if_splits list.splits)
qed

lemma letfs_check_iff:
  "fst (check_letfs i today g) = None \<longleftrightarrow>
     (i_sleeve i = EQUITY_SLEEVE \<and> i_symbol i \<in> set letf_whitelist \<and> opens_pos (i_action i) \<longrightarrow>
        (\<forall>l\<in>set (open_lots (i_agent_id i) (i_symbol i) (rg_lots g)). today \<le> l_entry_date l + 5)
        \<and> (\<forall>c. dict_get letf_equiv_map (i_symbol i) = Some c \<longrightarrow>
             reopen_count (i_agent_id i) c (today - 21) (rg_activity g) < 3))"
proof (cases "i_sleeve i = EQUITY_SLEEVE \<and> i_symbol i \<in> set letf_whitelist")
  case True
  then have "fst (check_letfs i today g) = None \<longleftrightarrow> check_letf i today g = None
      \<and> (opens_pos (i_action i) \<longrightarrow> fst (check_letf_rotation i today g) = None)"
    by (simp add: check_letfs_def split: option.split)
  then show ?thesis
    using True unfolding letf_check_iff rotation_check_iff not_both_kinds by blast
next
  case False
  then have "check_letfs i today g = (None, g)" by (simp only: check_letfs_def if_False)
  with False show ?thesis by auto
qed

lemma size_check_iff:
  "rd_allowed (check_size i s gross ps) \<longleftrightarrow>
     (i_sleeve i = OPTIONS_SLEEVE \<longrightarrow>
        (as_sleeve_equity s = 0 \<or> options_fraction i ps (as_sleeve_equity s) \<le> 20 / 100)
        \<and> (opens_pos (i_action i) \<longrightarrow>
             (\<exists>l\<in>set (i_legs i). leg_side l = BUY) \<and> (\<exists>l\<in>set (i_legs i). leg_side l = SELL)))
     \<and> (opens_pos (i_action i) \<and> gross = 0 \<longrightarrow> single_name_cap (i_agent_id i) < i_target_weight i)"
proof (cases "i_sleeve i = OPTIONS_SLEEVE")
  case True
  then have "rd_allowed (check_size i s gross ps) \<longleftrightarrow> check_options i ps (as_sleeve_equity s) = None
      \<and> (opens_pos (i_action i) \<longrightarrow> check_options_structure i = None)
      \<and> (opens_pos (i_action i) \<and> gross = 0 \<longrightarrow> single_name_cap (i_agent_id i) < i_target_weight i)"
    by (auto simp: check_size_def split: option.split)
  then show ?thesis
    using True unfolding options_check_iff structure_check_iff by blast
qed (auto simp: check_size_def)

text \<open>What an opening intent must satisfy besides the size checks.\<close>

definition entry_policy :: "intent \<Rightarrow> agent_state \<Rightarrow> datetime \<Rightarrow> risk_gate \<Rightarrow> bool" where
  "entry_policy i s ts g \<longleftrightarrow>
     can_open_new (rg_kill g)
     \<and> (\<forall>u. ar_until (ks_agents (rg_kill g) (as_agent_id s)) = Some u \<longrightarrow> u \<le> ts)
     \<and> as_drawdown_bucket s \<noteq> FORCED_CASH
     \<and> (\<forall>r\<in>set (rg_wash g). ws_agent r = i_agent_id i
          \<and> (ws_symbol r = i_symbol i \<or> dict_get wash_sale_proxies (i_symbol i) = Some (ws_symbol r))
          \<longrightarrow> date_of ts < ws_date r \<or> ws_date r + 30 < date_of ts)
     \<and> (i_sleeve i = EQUITY_SLEEVE \<and> i_symbol i \<in> set letf_whitelist \<longrightarrow>
          (\<forall>l\<in>set (open_lots (i_agent_id i) (i_symbol i) (rg_lots g)). date_of ts \<le> l_entry_date l + 5)
          \<and> (\<forall>c. dict_get letf_equiv_map (i_symbol i) = Some c \<longrightarrow>
               reopen_count (i_agent_id i) c (date_of ts - 21) (rg_activity g) < 3))"

lemma bench_split:
  assumes "is_agent_benched a ts k = (b, k')"
  shows "b \<longleftrightarrow> \<not> (\<forall>u. ar_until (ks_agents k a) = Some u \<longrightarrow> u \<le> ts)" "ks_state k' = ks_state k"
  using bench_reading [of a ts k] assms by (auto simp: not_le)

lemma opening_allowed_iff:
  assumes "opens_pos (i_action i)"
  shows "rd_allowed (fst (check_intent i s gross ps ts g)) \<longleftrightarrow>
    entry_policy i s ts g \<and> rd_allowed (check_size i s gross ps)"
proof -
  obtain b k where bk: "is_agent_benched (as_agent_id s) ts (rg_kill g) = (b, k)" by fastforce
  let ?g = "g\<lparr>rg_kill := k\<rparr>" and ?d = "date_of ts"
  have "rd_allowed (fst (check_intent i s gross ps ts g)) \<longleftrightarrow>
      can_open_new (rg_kill g) \<and> \<not> b \<and> as_drawdown_bucket s \<noteq> FORCED_CASH
      \<and> check_wash_sale i ?d ?g = None \<and> fst (check_letfs i ?d ?g) = None \<and> rd_allowed (check_size i s gross ps)"
  proof (cases "can_open_new (rg_kill g) \<and> \<not> b \<and> as_drawdown_bucket s \<noteq> FORCED_CASH")
    case True
    then show ?thesis
      using assms liquidate_blocks [of "rg_kill g"]
      by (cases "check_wash_sale i ?d ?g"; cases "check_letfs i ?d ?g"; cases "fst (check_letfs i ?d ?g)")
        (simp_all add: check_intent_def Let_def bk)
  next
    case False
    then show ?thesis using assms by (auto simp: check_intent_def Let_def bk)
  qed
  then show ?thesis
    using assms unfolding entry_policy_def bench_split(1) [OF bk] wash_check_iff letfs_check_iff by simp
qed

lemma closing_allowed_iff:
  assumes "closes_pos (i_action i)"
  shows "rd_allowed (fst (check_intent i s gross ps ts g)) \<longleftrightarrow>
    (\<forall>u. ar_until (ks_agents (rg_kill g) (as_agent_id s)) = Some u \<longrightarrow> u \<le> ts)
    \<and> (i_sleeve i = OPTIONS_SLEEVE \<longrightarrow> as_sleeve_equity s = 0 \<or> options_fraction i ps (as_sleeve_equity s) \<le> 20 / 100)"
proof -
  obtain b k where bk: "is_agent_benched (as_agent_id s) ts (rg_kill g) = (b, k)" by fastforce
  let ?g = "g\<lparr>rg_kill := k\<rparr>"
  have o: "\<not> opens_pos (i_action i)" using assms by (simp add: not_both_kinds)
  then have "fst (check_letfs i (date_of ts) ?g) = None" by (simp add: letfs_check_iff)
  with assms o have "rd_allowed (fst (check_intent i s gross ps ts g)) \<longleftrightarrow> \<not> b \<and> rd_allowed (check_size i s gross ps)"
    by (cases "check_letfs i (date_of ts) ?g") (simp add: check_intent_def Let_def bk)
  then show ?thesis
    using o unfolding bench_split(1) [OF bk] size_check_iff by simp
qed


text \<open>Rotation: only recorded openings count.\<close>

definition record_opens :: "(agent_id \<times> symbol \<times> date) list \<Rightarrow> risk_gate \<Rightarrow> risk_gate" where
  "record_opens os g = foldl (\<lambda>g (a, s, d). record_letf_open a s d g) g os"

lemma reopen_count_append: "reopen_count a c d (xs @ ys) = reopen_count a c d xs + reopen_count a c d ys"
  by (simp add: reopen_count_def)

lemma record_open_frame [simp]:
  "rg_bus (record_letf_open a s d g) = rg_bus g" "rg_kill (record_letf_open a s d g) = rg_kill g"
  "rg_wash (record_letf_open a s d g) = rg_wash g" "rg_lots (record_letf_open a s d g) = rg_lots g"
  by (simp_all add: record_letf_open_def split: option.split)

lemma record_opens_count:
  "reopen_count a c start (rg_activity (record_opens os g)) = reopen_count a c start (rg_activity g)
     + length (filter (\<lambda>(b, s, d). b = a \<and> dict_get letf_equiv_map s = Some c \<and> start \<le> d) os)"
proof (induction os arbitrary: g)
  case (Cons x os)
  obtain b s d where x: "x = (b, s, d)" by (cases x)
  have "reopen_count a c start (rg_activity (record_letf_open b s d g)) = reopen_count a c start (rg_activity g)
      + (if b = a \<and> dict_get letf_equiv_map s = Some c \<and> start \<le> d then 1 else 0)"
    by (auto simp: record_letf_open_def reopen_count_append split: option.split)
      (auto simp: reopen_count_def)
  then show ?case using Cons.IH [of "record_letf_open b s d g"] by (simp add: record_opens_def x)
qed (simp add: record_opens_def)

lemma record_opens_frame: "rg_bus (record_opens os g) = rg_bus g" "rg_kill (record_opens os g) = rg_kill g"
  by (induction os arbitrary: g) (auto simp: record_opens_def)

text \<open>Objects of the examples: a sleeve of 100, an intent for a fifth of it, one lot of TQQQ.\<close>

definition sample_intent :: "symbol \<Rightarrow> action \<Rightarrow> sleeve \<Rightarrow> decimal \<Rightarrow> intent" where
  "sample_intent s a sl w = \<lparr>i_id = 1, i_agent_id = OPUS, i_symbol = s, i_action = a, i_target_weight = w,
     i_sleeve = sl, i_signal = [], i_conviction = 5, i_rationale = [], i_timestamp = 0,
     i_regime_observation = [], i_requires_approval = False, i_legs = []\<rparr>"

definition sample_state :: agent_state where
  "sample_state = \<lparr>as_agent_id = OPUS, as_sleeve_equity = 100, as_sleeve_peak_equity = 100,
     as_drawdown_bucket = NORMAL, as_drawdown_bucket_entry_date = None, as_consecutive_losses = 0,
     as_is_benched = False, as_bench_until = None, as_day_trade_count = 0, as_orders_today = 0, as_last_memo_id = None\<rparr>"

definition sample_gate :: risk_gate where
  "sample_gate = new_gate (new_engine 60) [] (empty_ledger None) (Some [])"

lemma sample_intent_fields [simp]:
  "i_agent_id (sample_intent s a sl w) = OPUS" "i_symbol (sample_intent s a sl w) = s"
  "i_action (sample_intent s a sl w) = a" "i_target_weight (sample_intent s a sl w) = w"
  "i_sleeve (sample_intent s a sl w) = sl" "i_legs (sample_intent s a sl w) = []"
  "i_id (sample_intent s a sl w) = 1"
  by (simp_all add: sample_intent_def)

lemma sample_state_fields [simp]:
  "as_agent_id sample_state = OPUS" "as_sleeve_equity sample_state = 100" "as_drawdown_bucket sample_state = NORMAL"
  by (simp_all add: sample_state_def)

lemma sample_policy: "entry_policy (sample_intent ''SPY'' a sl w) sample_state ts sample_gate"
  by (simp add: entry_policy_def sample_gate_def new_gate_def new_engine_def can_open_new_def
      blocks_new_entries_def letf_whitelist_def)

subsection \<open>Properties\<close>

text \<open>
  C5 The gate lets an opening intent pass exactly if the entry policy holds (no kill switch that
  blocks entries, agent not benched, sleeve not in forced cash, no loss sale of the symbol or of its
  substantially identical proxy within thirty days, no leveraged ETF held for more than five days or
  reopened three times in twenty-one days) and the size rules hold: options stay within a fifth of
  the sleeve and have legs on both sides, and the gross cap is not zero -- the last rule being
  skipped when the weight exceeds the agent's single-name cap.
\<close>

theorem opening_intent_passes_iff:
  assumes "opens_pos (i_action i)"
  shows "rd_allowed (fst (check_intent i s gross ps ts g)) \<longleftrightarrow> entry_policy i s ts g
    \<and> (i_sleeve i = OPTIONS_SLEEVE \<longrightarrow>
        (as_sleeve_equity s = 0 \<or> options_fraction i ps (as_sleeve_equity s) \<le> 20 / 100)
        \<and> (\<exists>l\<in>set (i_legs i). leg_side l = BUY) \<and> (\<exists>l\<in>set (i_legs i). leg_side l = SELL))
    \<and> (gross \<noteq> 0 \<or> single_name_cap (i_agent_id i) < i_target_weight i)"
  using assms unfolding opening_allowed_iff [OF assms] size_check_iff by blast

theorem opening_intent_passes_iff_witness:
  "rd_allowed (fst (check_intent (sample_intent ''SPY'' BUY_ACT EQUITY_SLEEVE (1 / 10)) sample_state 1 [] 0 sample_gate))
   \<and> \<not> rd_allowed (fst (check_intent (sample_intent ''SPY'' BUY_ACT OPTIONS_SLEEVE (1 / 10)) sample_state 1 [] 0 sample_gate))"
  by (subst (1 2) opening_intent_passes_iff) (simp_all add: action_kinds sample_policy)

text \<open>
  Closing intents pass in every state of the kill switch: only the bench of the agent and, for
  options, the exposure cap stop them. The capped exposure counts the options held already, so
  with more than a fifth of the sleeve in options no options position can be closed.
\<close>

lemma overexposed_options_cannot_close:
  assumes "closes_pos (i_action i)"
  shows "rd_allowed (fst (check_intent i s gross ps ts g)) \<longleftrightarrow>
      (\<forall>u. ar_until (ks_agents (rg_kill g) (as_agent_id s)) = Some u \<longrightarrow> u \<le> ts)
      \<and> (i_sleeve i = OPTIONS_SLEEVE \<longrightarrow> as_sleeve_equity s = 0 \<or> options_fraction i ps (as_sleeve_equity s) \<le> 20 / 100)"
  by (rule closing_allowed_iff [OF assms])

lemma overexposed_options_cannot_close_example:
  "\<not> rd_allowed (fst (check_intent (sample_intent ''SPY'' CLOSE_ACT OPTIONS_SLEEVE 0) sample_state 1
     [\<lparr>p_agent_id = OPUS, p_symbol = ''SPY'', p_qty = 1, p_avg_entry_price = 10, p_current_price = 30,
       p_asset_class = OPTION, p_sleeve = OPTIONS_SLEEVE, p_as_of = 0\<rparr>] 0 sample_gate))"
  by (subst overexposed_options_cannot_close)
    (simp_all add: action_kinds sample_gate_def new_gate_def new_engine_def options_fraction_def market_value_def
      dsum_def dec_eval)

text \<open>
  An opening intent whose weight exceeds the single-name cap gets the same decision whatever
  the effective gross is: with a gross cap of zero it is still allowed.
\<close>

lemma heavy_intent_skips_gross_check:
  assumes "single_name_cap (i_agent_id i) < i_target_weight i"
  shows "check_intent i s gross ps ts g = check_intent i s 0 ps ts g"
proof -
  have "check_size i s gross ps = check_size i s 0 ps" using assms by (simp add: check_size_def Let_def)
  then show ?thesis by (simp only: check_intent_def Let_def)
qed

lemma heavy_intent_skips_gross_check_example:
  "check_intent (sample_intent ''SPY'' BUY_ACT EQUITY_SLEEVE 1) sample_state 1 [] 0 sample_gate =
     check_intent (sample_intent ''SPY'' BUY_ACT EQUITY_SLEEVE 1) sample_state 0 [] 0 sample_gate
   \<and> rd_allowed (fst (check_intent (sample_intent ''SPY'' BUY_ACT EQUITY_SLEEVE 1) sample_state 0 [] 0 sample_gate))"
  using heavy_intent_skips_gross_check [of "sample_intent ''SPY'' BUY_ACT EQUITY_SLEEVE 1" sample_state 1]
  by (simp add: opening_allowed_iff action_kinds sample_policy size_check_iff)

text \<open>
  After any recorded openings of a fresh gate, another opening of a leveraged ETF is vetoed for
  rotation exactly if the agent has recorded at least three openings of ETFs of the same category in the
  last twenty-one days, and the flag is published exactly then.
\<close>

lemma third_reopening_is_flagged:
  assumes "dict_get letf_equiv_map (i_symbol i) = Some c"
    and "n = length (filter (\<lambda>(a, s, d). a = i_agent_id i \<and> dict_get letf_equiv_map s = Some c \<and> today - 21 \<le> d) os)"
  shows "check_letf_rotation i today (record_opens os (new_gate k w l (Some []))) =
    (if 3 \<le> n
     then (Some (vetoed (Rotation (i_symbol i) c n)),
           (record_opens os (new_gate k w l (Some [])))\<lparr>rg_bus := Some [LeverageRotationFlag (i_agent_id i) (i_symbol i) c (int n)]\<rparr>)
     else (None, record_opens os (new_gate k w l (Some []))))"
  using assms record_opens_count [of "i_agent_id i" c "today - 21" os "new_gate k w l (Some [])"]
  by (simp add: check_letf_rotation_def Let_def letf_rotation_window_def letf_rotation_threshold_def record_opens_frame)
    (simp add: new_gate_def reopen_count_def)

lemma third_reopening_is_flagged_example:
  "rd_veto (the (fst (check_letf_rotation (sample_intent ''TQQQ'' BUY_ACT EQUITY_SLEEVE (1 / 10)) 100
     (record_opens [(OPUS, ''TQQQ'', 79), (OPUS, ''UPRO'', 90), (SONNET, ''TQQQ'', 91), (OPUS, ''TQQQ'', 99)]
       (new_gate (new_engine 60) [] (empty_ledger None) (Some [])))))) = Some (Rotation ''TQQQ'' ''NDX_LONG_3X'' 3)"
  by (subst third_reopening_is_flagged [where c = "''NDX_LONG_3X''" and n = 3])
    (simp_all add: letf_equiv_map_def)

end
