(* ===== verification/Universes.thy ===== *)
theory Universes
  imports Core_Types
begin

text \<open>
  The tradable universes and slippage tiers of \<^verbatim>\<open>config/universes.py\<close> and the runtime store of
  \<^verbatim>\<open>config/runtime_store.py\<close>. The persisted file is a value: absent, not readable, or
  the master capability it holds. Writing it may fail (\<open>writes\<close>), which is logged and ignored.
\<close>

subsection \<open>Universes\<close>

definition haiku_etf_universe :: "symbol list" where
  "haiku_etf_universe =
    [''SPY'', ''QQQ'', ''IWM'', ''EFA'', ''EEM'', ''TLT'', ''IEF'', ''GLD'', ''USO'', ''VNQ'']"

definition haiku_letf_universe :: "symbol list" where
  "haiku_letf_universe =
    [''TQQQ'', ''SQQQ'', ''UPRO'', ''SOXL'']"

definition haiku_crypto_universe :: "symbol list" where
  "haiku_crypto_universe =
    [''BTCUSD'', ''ETHUSD'', ''SOLUSD'']"

definition sonnet_equity_universe :: "symbol list" where
  "sonnet_equity_universe =
    [''AAPL'', ''NVDA'', ''MSFT'', ''GOOGL'', ''AMZN'', ''META'', ''AVGO'', ''ORCL'', ''CRM'',
     ''ADBE'', ''JPM'', ''BAC'', ''GS'', ''MS'', ''BLK'', ''V'', ''MA'', ''AXP'', ''SCHW'',
     ''UNH'', ''JNJ'', ''LLY'', ''PFE'', ''ABBV'', ''TMO'', ''MRK'', ''DHR'', ''ISRG'',
     ''TSLA'', ''HD'', ''MCD'', ''NKE'', ''LOW'', ''SBUX'', ''BKNG'', ''WMT'', ''COST'',
     ''PG'', ''KO'', ''PEP'', ''XOM'', ''CVX'', ''COP'', ''EOG'', ''GE'', ''BA'', ''CAT'',
     ''HON'', ''UPS'', ''RTX'', ''NFLX'', ''DIS'', ''VZ'', ''CMCSA'', ''NEE'', ''LIN'',
     ''PLD'', ''AMT'']"

definition growth_slice_universe :: "symbol list" where
  "growth_slice_universe =
    [''RBLX'', ''HIMS'', ''CELH'', ''SOFI'', ''PLTR'', ''DDOG'', ''NET'', ''CRWD'', ''SNOW'',
     ''MDB'', ''AFRM'', ''SHOP'', ''COIN'', ''RIVN'', ''PINS'']"

definition opus_equity_universe :: "symbol list" where
  "opus_equity_universe = sonnet_equity_universe @ growth_slice_universe"

fun dedupe :: "symbol set \<Rightarrow> symbol list \<Rightarrow> symbol list" where
  "dedupe seen [] = []"
| "dedupe seen (x # xs) = (if x \<notin> seen then x # dedupe (insert x seen) xs else dedupe seen xs)"

definition dedupe_preserve_order :: "symbol list \<Rightarrow> symbol list" where
  "dedupe_preserve_order items = dedupe {} items"

definition plumbing_universe :: "symbol list" where
  "plumbing_universe = dedupe_preserve_order
     (haiku_etf_universe @ haiku_letf_universe @ haiku_crypto_universe @ sonnet_equity_universe @ growth_slice_universe)"

subsection \<open>Slippage\<close>

datatype tier = MEGA | LARGE | MID | SMALL | LETF_TIER | CRYPTO_TIER

fun slippage_bps_by_tier :: "tier \<Rightarrow> decimal" where
  "slippage_bps_by_tier MEGA = 2"
| "slippage_bps_by_tier LARGE = 4"
| "slippage_bps_by_tier MID = 8"
| "slippage_bps_by_tier SMALL = 18"
| "slippage_bps_by_tier LETF_TIER = 6"
| "slippage_bps_by_tier CRYPTO_TIER = 8"

definition symbol_tier :: "(symbol, tier) dict" where
  "symbol_tier =
     [(''SPY'', MEGA), (''QQQ'', MEGA), (''IWM'', LARGE), (''EFA'', LARGE), (''EEM'', LARGE),
      (''TLT'', LARGE), (''IEF'', LARGE), (''GLD'', LARGE), (''USO'', LARGE), (''VNQ'', LARGE),
      (''TQQQ'', LETF_TIER), (''SQQQ'', LETF_TIER), (''UPRO'', LETF_TIER), (''SOXL'', LETF_TIER),
      (''BTCUSD'', CRYPTO_TIER), (''ETHUSD'', CRYPTO_TIER), (''SOLUSD'', CRYPTO_TIER),
      (''AAPL'', MEGA), (''NVDA'', MEGA), (''MSFT'', MEGA), (''GOOGL'', MEGA), (''AMZN'', MEGA),
      (''META'', MEGA), (''AVGO'', LARGE), (''ORCL'', LARGE), (''CRM'', LARGE),
      (''ADBE'', LARGE), (''JPM'', LARGE), (''BAC'', LARGE), (''GS'', LARGE), (''MS'', LARGE),
      (''BLK'', LARGE), (''V'', LARGE), (''MA'', LARGE), (''AXP'', LARGE), (''SCHW'', LARGE),
      (''UNH'', LARGE), (''JNJ'', LARGE), (''LLY'', LARGE), (''PFE'', LARGE), (''ABBV'', LARGE),
      (''TMO'', LARGE), (''MRK'', LARGE), (''DHR'', LARGE), (''ISRG'', LARGE), (''TSLA'', LARGE),
      (''HD'', LARGE), (''MCD'', LARGE), (''NKE'', LARGE), (''LOW'', LARGE), (''SBUX'', LARGE),
      (''BKNG'', LARGE), (''WMT'', LARGE), (''COST'', LARGE), (''PG'', LARGE), (''KO'', LARGE),
      (''PEP'', LARGE), (''XOM'', LARGE), (''CVX'', LARGE), (''COP'', LARGE), (''EOG'', LARGE),
      (''GE'', LARGE), (''BA'', LARGE), (''CAT'', LARGE), (''HON'', LARGE), (''UPS'', LARGE),
      (''RTX'', LARGE), (''NFLX'', LARGE), (''DIS'', LARGE), (''VZ'', LARGE), (''CMCSA'', LARGE),
      (''NEE'', LARGE), (''LIN'', LARGE), (''PLD'', LARGE), (''AMT'', LARGE), (''DDOG'', MID),
      (''NET'', MID), (''CRWD'', MID), (''SNOW'', MID), (''MDB'', MID), (''PLTR'', MID),
      (''SHOP'', MID), (''COIN'', MID), (''RBLX'', SMALL), (''HIMS'', SMALL), (''CELH'', SMALL),
      (''SOFI'', SMALL), (''AFRM'', SMALL), (''RIVN'', SMALL), (''PINS'', SMALL)]"

definition liquidity_tier :: "symbol \<Rightarrow> tier" where
  "liquidity_tier s = dict_get_or symbol_tier s LARGE"

definition estimated_slippage_bps :: "symbol \<Rightarrow> decimal" where
  "estimated_slippage_bps s = slippage_bps_by_tier (liquidity_tier s)"

subsection \<open>The runtime store\<close>

definition store_max_capability :: decimal where "store_max_capability = 15 / 10"

datatype mc_file = No_mc_file | Bad_mc_file | Mc_file decimal

definition load_persisted_mc :: "mc_file \<Rightarrow> decimal \<Rightarrow> decimal" where
  "load_persisted_mc file dflt = (case file of Mc_file v \<Rightarrow> v | _ \<Rightarrow> dflt)"

record runtime_store =
  rs_mc :: decimal
  rs_file :: mc_file

definition new_store :: "mc_file \<Rightarrow> decimal \<Rightarrow> runtime_store" where
  "new_store file dflt = \<lparr>rs_mc = load_persisted_mc file dflt, rs_file = file\<rparr>"

definition persist_mc :: "bool \<Rightarrow> decimal \<Rightarrow> runtime_store \<Rightarrow> runtime_store" where
  "persist_mc writes v r = (if writes then r\<lparr>rs_file := Mc_file v\<rparr> else r)"

definition set_master_capability :: "bool \<Rightarrow> bool \<Rightarrow> decimal \<Rightarrow> runtime_store \<Rightarrow> runtime_store" where
  "set_master_capability override writes v r =
     (let v' = (if store_max_capability < v \<and> \<not> override then store_max_capability else v)
      in persist_mc writes v' (r\<lparr>rs_mc := v'\<rparr>))"

subsection \<open>Facts\<close>

lemma dedupe_set: "set (dedupe seen xs) = set xs - seen" and dedupe_distinct: "distinct (dedupe seen xs)"
  by (induction seen xs rule: dedupe.induct) auto

lemma plumbing_set:
  "set plumbing_universe = set haiku_etf_universe \<union> set haiku_letf_universe \<union> set haiku_crypto_universe
     \<union> set opus_equity_universe"
  by (auto simp: plumbing_universe_def dedupe_preserve_order_def dedupe_set opus_equity_universe_def)

lemma slippage_bounds: "2 \<le> estimated_slippage_bps s" "estimated_slippage_bps s \<le> 18"
  by (cases "liquidity_tier s"; simp add: estimated_slippage_bps_def)+

lemma store_reload: "rs_mc (new_store (rs_file (set_master_capability ov True v r)) d) = rs_mc (set_master_capability ov True v r)"
  by (simp add: set_master_capability_def persist_mc_def new_store_def load_persisted_mc_def Let_def)

lemma store_capped: "rs_mc (set_master_capability False w v r) \<le> 15 / 10"
  by (simp add: set_master_capability_def persist_mc_def store_max_capability_def Let_def)

end
