(* ===== verification/Planner.thy ===== *)
theory Planner
  imports Risk_Gate Universes
begin

text \<open>
  The execution planner of \<^verbatim>\<open>execution/planner.py\<close>: an approved intent becomes a pending order
  or a reason why it is dropped. What a plan reads -- lot ledger, sleeve weights, master
  capability, clock -- is a record; what it changes -- counters, published events, the source
  of fresh ids -- is the planner. Raising the cap computation is an exception of the plan.
\<close>

definition min_notional :: decimal where "min_notional = 1"
definition options_multiplier :: decimal where "options_multiplier = 100"
definition fractional_places :: nat where "fractional_places = 9"
definition rebalance_band :: decimal where "rebalance_band = 2 / 100"
definition default_vol :: decimal where "default_vol = 8 / 100"

datatype plan_reject = Sub_min | No_position | No_mark | Zero_qty | Near_target | Already_at_target | Sleeve_gross_breach

record planner =
  pl_no_mark :: nat
  pl_no_position :: nat
  pl_sub_min :: nat
  pl_zero_qty :: nat
  pl_near_target :: nat
  pl_already_at_target :: nat
  pl_sleeve_gross_breach :: nat
  pl_bus :: "bus_event list"
  pl_fresh :: uuid

definition new_planner :: "uuid \<Rightarrow> planner" where
  "new_planner fresh = \<lparr>pl_no_mark = 0, pl_no_position = 0, pl_sub_min = 0, pl_zero_qty = 0, pl_near_target = 0,
     pl_already_at_target = 0, pl_sleeve_gross_breach = 0, pl_bus = [], pl_fresh = fresh\<rparr>"

record plan_env =
  pe_ledger :: ledger
  pe_weights :: weights_file
  pe_mc :: decimal
  pe_now :: datetime

fun count_drop :: "plan_reject \<Rightarrow> planner \<Rightarrow> planner" where
  "count_drop Sub_min p = p\<lparr>pl_sub_min := Suc (pl_sub_min p)\<rparr>"
| "count_drop No_position p = p\<lparr>pl_no_position := Suc (pl_no_position p)\<rparr>"
| "count_drop No_mark p = p\<lparr>pl_no_mark := Suc (pl_no_mark p)\<rparr>"
| "count_drop Zero_qty p = p\<lparr>pl_zero_qty := Suc (pl_zero_qty p)\<rparr>"
| "count_drop Near_target p = p\<lparr>pl_near_target := Suc (pl_near_target p)\<rparr>"
| "count_drop Already_at_target p = p\<lparr>pl_already_at_target := Suc (pl_already_at_target p)\<rparr>"
| "count_drop Sleeve_gross_breach p = p\<lparr>pl_sleeve_gross_breach := Suc (pl_sleeve_gross_breach p)\<rparr>"

type_synonym plan_result = "exn + plan_reject + order"

definition dropped :: "plan_reject \<Rightarrow> planner \<Rightarrow> plan_result \<times> planner" where
  "dropped r p = (Inr (Inl r), count_drop r p)"

text \<open>A usable mark: present and positive.\<close>

definition mark_of :: "market_snapshot \<Rightarrow> symbol \<Rightarrow> decimal option" where
  "mark_of ms s = (case dict_get (ms_current_prices ms) s of
       None \<Rightarrow> None | Some m \<Rightarrow> if m \<le> 0 then None else Some m)"

subsection \<open>Sizing an intent\<close>

record sizing =
  sz_emg :: decimal
  sz_vol_target :: decimal
  sz_vol :: decimal
  sz_target :: decimal
  sz_cap :: decimal
  sz_binding :: string

definition size_intent :: "plan_env \<Rightarrow> intent \<Rightarrow> agent_state \<Rightarrow> market_snapshot \<Rightarrow> exn + sizing" where
  "size_intent env i s ms =
     bindr (effective_max_gross (pe_weights env) (i_agent_id i) (pe_mc env) (ms_vix_bucket ms) (as_drawdown_bucket s))
       (\<lambda>emg. let vt = dmul (agent_base_vol_target (i_agent_id i)) (pe_mc env);
                  vol = dict_get_or (ms_realized_vol_30d ms) (normalize_symbol (i_symbol i)) default_vol;
                  target = vol_targeted_position_value (i_target_weight i) (as_sleeve_equity s) vol vt;
                  cap = dmul emg (as_sleeve_equity s)
              in Inr \<lparr>sz_emg = emg, sz_vol_target = vt, sz_vol = vol,
                   sz_target = (if cap < target then cap else target), sz_cap = cap,
                   sz_binding = (if cap < target then ''max_gross'' else ''vol_target'')\<rparr>)"

definition held_qty :: "plan_env \<Rightarrow> intent \<Rightarrow> decimal" where
  "held_qty env i = (if i_legs i \<noteq> [] then 0
     else total_open_qty (i_agent_id i) (normalize_symbol (i_symbol i)) (pe_ledger env))"

definition held_notional :: "plan_env \<Rightarrow> intent \<Rightarrow> market_snapshot \<Rightarrow> decimal" where
  "held_notional env i ms = (if i_legs i \<noteq> [] then 0
     else (case mark_of ms (normalize_symbol (i_symbol i)) of None \<Rightarrow> 0 | Some m \<Rightarrow> dmul (held_qty env i) m))"

definition delta_notional :: "plan_env \<Rightarrow> intent \<Rightarrow> market_snapshot \<Rightarrow> sizing \<Rightarrow> decimal" where
  "delta_notional env i ms z = dsub (sz_target z) (held_notional env i ms)"

definition position_notional :: "market_snapshot \<Rightarrow> agent_id \<Rightarrow> ledger \<Rightarrow> decimal \<Rightarrow> symbol \<times> decimal \<Rightarrow> decimal" where
  "position_notional ms a g acc sq = (case sq of (s, q) \<Rightarrow>
     if q \<le> 0 then acc
     else dadd acc (dmul q (case mark_of ms (normalize_symbol s) of
            Some m \<Rightarrow> m
          | None \<Rightarrow> (case open_lots a s g of [] \<Rightarrow> 0 | l # _ \<Rightarrow> l_entry_price l))))"

definition sleeve_gross_notional :: "agent_id \<Rightarrow> market_snapshot \<Rightarrow> ledger \<Rightarrow> decimal" where
  "sleeve_gross_notional a ms g = foldl (position_notional ms a g) 0 (open_qty_by_symbol a g)"

definition position_value :: "plan_env \<Rightarrow> intent \<Rightarrow> market_snapshot \<Rightarrow> sizing \<Rightarrow> decimal" where
  "position_value env i ms z = (if i_legs i \<noteq> [] then sz_target z else dabs (delta_notional env i ms z))"

text \<open>The guards between sizing and quantity, first failure first.\<close>

definition plan_guard ::
  "plan_env \<Rightarrow> intent \<Rightarrow> agent_state \<Rightarrow> market_snapshot \<Rightarrow> sizing \<Rightarrow> plan_reject option" where
  "plan_guard env i s ms z =
     (let delta = delta_notional env i ms z; equity = as_sleeve_equity s in
      if i_action i = BUY_ACT \<and> delta \<le> 0 then Some Already_at_target
      else if i_action i = SELL_ACT \<and> 0 \<le> delta then Some Near_target
      else if 0 < equity \<and> ddiv (dabs delta) equity < rebalance_band then Some Near_target
      else if i_legs i = [] \<and> 0 < delta
              \<and> sz_cap z < dadd (sleeve_gross_notional (i_agent_id i) ms (pe_ledger env)) delta
           then Some Sleeve_gross_breach
      else if position_value env i ms z < min_notional then Some Sub_min
      else if mark_of ms (normalize_symbol (i_symbol i)) = None then Some No_mark
      else None)"

definition order_qty :: "intent \<Rightarrow> decimal \<Rightarrow> decimal \<Rightarrow> exn + decimal" where
  "order_qty i v m = (if i_legs i \<noteq> [] then quantize_down 0 (ddiv v (dmul m options_multiplier))
     else quantize_down fractional_places (ddiv v m))"

definition side_for :: "intent \<Rightarrow> decimal \<Rightarrow> order_side" where
  "side_for i delta =
     (if i_legs i \<noteq> [] then (if closes_pos (i_action i) then SELL else BUY)
      else if i_action i = SELL_ACT then SELL
      else if i_action i = REBALANCE_TO then (if delta < 0 then SELL else BUY)
      else BUY)"

definition capped_qty :: "plan_env \<Rightarrow> intent \<Rightarrow> order_side \<Rightarrow> decimal \<Rightarrow> decimal" where
  "capped_qty env i side q =
     (if side = SELL \<and> i_legs i = [] \<and> 0 < held_qty env i then min q (held_qty env i) else q)"

definition new_order ::
  "uuid \<Rightarrow> intent \<Rightarrow> order_side \<Rightarrow> decimal \<Rightarrow> order_class \<Rightarrow> datetime \<Rightarrow> option_leg list \<Rightarrow> order" where
  "new_order oid i side q cls now legs =
     \<lparr>o_id = oid, o_intent_id = i_id i, o_agent_id = i_agent_id i, o_symbol = normalize_symbol (i_symbol i),
      o_side = side, o_qty = q, o_order_type = MARKET, o_order_class = cls, o_time_in_force = DAY,
      o_state = PENDING, o_created_at = now, o_limit_price = None, o_stop_price = None, o_trail_percent = None,
      o_broker_order_id = None, o_legs = legs, o_submitted_at = None, o_filled_at = None, o_filled_qty = 0,
      o_filled_avg_price = None, o_rejection_reason = None,
      o_is_letf = (normalize_symbol (i_symbol i) \<in> set letf_whitelist), o_letf_entry_date = None\<rparr>"

definition sized_event :: "intent \<Rightarrow> decimal \<Rightarrow> decimal \<Rightarrow> decimal \<Rightarrow> decimal \<Rightarrow> decimal \<Rightarrow> decimal \<Rightarrow> string \<Rightarrow> bus_event" where
  "sized_event i w v q vt emg vol binding =
     IntentSized (i_id i) (i_agent_id i) (normalize_symbol (i_symbol i)) w v q vt emg vol binding
       (estimated_slippage_bps (normalize_symbol (i_symbol i)))"

definition finish_plan :: "order \<Rightarrow> bus_event \<Rightarrow> planner \<Rightarrow> plan_result \<times> planner" where
  "finish_plan ord e p = (Inr (Inr ord), p\<lparr>pl_fresh := Suc (pl_fresh p), pl_bus := pl_bus p @ [e]\<rparr>)"

subsection \<open>Closing a position\<close>

definition plan_close :: "plan_env \<Rightarrow> intent \<Rightarrow> agent_state \<Rightarrow> market_snapshot \<Rightarrow> planner \<Rightarrow> plan_result \<times> planner" where
  "plan_close env i s ms p =
     (let symb = normalize_symbol (i_symbol i); q = total_open_qty (i_agent_id i) symb (pe_ledger env) in
      if q \<le> 0 then dropped No_position p
      else (case mark_of ms symb of
              None \<Rightarrow> dropped No_mark p
            | Some m \<Rightarrow>
                (let notional = dmul q m in
                 if notional < min_notional then dropped Sub_min p
                 else (case effective_max_gross (pe_weights env) (i_agent_id i) (pe_mc env) (ms_vix_bucket ms) (as_drawdown_bucket s) of
                         Inl e \<Rightarrow> (Inl e, p)
                       | Inr emg \<Rightarrow> finish_plan (new_order (pl_fresh p) i SELL q SIMPLE (pe_now env) [])
                           (sized_event i 0 notional q (dmul (agent_base_vol_target (i_agent_id i)) (pe_mc env)) emg
                              default_vol ''close'') p))))"

subsection \<open>Planning\<close>

definition plan_sized ::
  "plan_env \<Rightarrow> intent \<Rightarrow> agent_state \<Rightarrow> market_snapshot \<Rightarrow> sizing \<Rightarrow> planner \<Rightarrow> plan_result \<times> planner" where
  "plan_sized env i s ms z p = (case plan_guard env i s ms z of
       Some r \<Rightarrow> dropped r p
     | None \<Rightarrow>
         (let v = position_value env i ms z; side = side_for i (delta_notional env i ms z) in
          case order_qty i v (the (mark_of ms (normalize_symbol (i_symbol i)))) of
            Inl e \<Rightarrow> (Inl e, p)
          | Inr q \<Rightarrow>
              if q \<le> 0 then dropped Zero_qty p
              else (let q' = capped_qty env i side q in
                    finish_plan (new_order (pl_fresh p) i side q' (if i_legs i \<noteq> [] then MLEG else SIMPLE) (pe_now env) (i_legs i))
                      (sized_event i (i_target_weight i) v q' (sz_vol_target z) (sz_emg z) (sz_vol z) (sz_binding z)) p)))"

definition plan :: "plan_env \<Rightarrow> intent \<Rightarrow> agent_state \<Rightarrow> market_snapshot \<Rightarrow> planner \<Rightarrow> plan_result \<times> planner" where
  "plan env i s ms p =
     (if i_action i = CLOSE_ACT \<or> (i_action i = SELL_ACT \<and> i_target_weight i \<le> 0) then plan_close env i s ms p
      else if i_action i = SELL_ACT
              \<and> total_open_qty (i_agent_id i) (normalize_symbol (i_symbol i)) (pe_ledger env) \<le> 0
           then dropped No_position p
      else (case size_intent env i s ms of
              Inl e \<Rightarrow> (Inl e, p)
            | Inr z \<Rightarrow> plan_sized env i s ms z p))"


subsection \<open>What a plan does\<close>

lemma mark_of_pos: "mark_of ms s = Some m \<Longrightarrow> 0 < m"
  by (auto simp: mark_of_def not_le split: option.splits if_splits)

lemma finish_plan_eq [simp]: "finish_plan ord e p = (Inr (Inr o'), p') \<longleftrightarrow>
    o' = ord \<and> p' = p\<lparr>pl_fresh := Suc (pl_fresh p), pl_bus := pl_bus p @ [e]\<rparr>"
  by (auto simp: finish_plan_def)

lemma dropped_no_order [simp]: "dropped r p \<noteq> (Inr (Inr o'), p')"
  by (simp add: dropped_def)

lemma new_order_fields [simp]:
  "o_id (new_order oid i sd q cls t ls) = oid" "o_intent_id (new_order oid i sd q cls t ls) = i_id i"
  "o_agent_id (new_order oid i sd q cls t ls) = i_agent_id i" "o_state (new_order oid i sd q cls t ls) = PENDING"
  "o_symbol (new_order oid i sd q cls t ls) = normalize_symbol (i_symbol i)"
  "o_side (new_order oid i sd q cls t ls) = sd" "o_qty (new_order oid i sd q cls t ls) = q"
  "o_legs (new_order oid i sd q cls t ls) = ls" "o_filled_qty (new_order oid i sd q cls t ls) = 0"
  by (simp_all add: new_order_def)

lemma plan_closeD:
  assumes "plan_close env i s ms p = (Inr (Inr ord), p')"
  shows "o_side ord = SELL" "o_qty ord = total_open_qty (i_agent_id i) (normalize_symbol (i_symbol i)) (pe_ledger env)"
    "0 < o_qty ord" "o_agent_id ord = i_agent_id i" "o_symbol ord = normalize_symbol (i_symbol i)"
    "\<exists>emg. effective_max_gross (pe_weights env) (i_agent_id i) (pe_mc env) (ms_vix_bucket ms) (as_drawdown_bucket s) = Inr emg"
  using assms by (auto simp: plan_close_def Let_def split: if_splits option.splits sum.splits)

lemma order_qty_bounds:
  assumes "order_qty i v m = Inr q" "0 \<le> v" "0 < m"
  shows "0 \<le> q" "i_legs i = [] \<Longrightarrow> q \<le> ddiv v m" "dround q = q"
proof -
  have "0 \<le> ddiv v m" "0 \<le> ddiv v (dmul m options_multiplier)"
    using assms(2,3) by (simp_all add: ddiv_def dmul_def options_multiplier_def)
  then show "0 \<le> q" "i_legs i = [] \<Longrightarrow> q \<le> ddiv v m"
    using assms(1) quantize_down_bounds by (auto simp: order_qty_def split: if_splits)
  show "dround q = q" using assms(1) quantize_down_fixed by (auto simp: order_qty_def split: if_splits)
qed

lemma plan_sizedD:
  assumes "plan_sized env i s ms z p = (Inr (Inr ord), p')"
  obtains q m where "plan_guard env i s ms z = None" "mark_of ms (normalize_symbol (i_symbol i)) = Some m"
    "order_qty i (position_value env i ms z) m = Inr q" "0 < q"
    "o_side ord = side_for i (delta_notional env i ms z)" "o_qty ord = capped_qty env i (o_side ord) q"
    "o_agent_id ord = i_agent_id i" "o_symbol ord = normalize_symbol (i_symbol i)" "o_legs ord = i_legs i"
proof -
  from assms have g: "plan_guard env i s ms z = None" by (auto simp: plan_sized_def split: option.splits)
  then obtain m where m: "mark_of ms (normalize_symbol (i_symbol i)) = Some m"
    by (auto simp: plan_guard_def Let_def split: if_splits)
  from assms g m obtain q where "order_qty i (position_value env i ms z) m = Inr q" "0 < q"
    "ord = new_order (pl_fresh p) i (side_for i (delta_notional env i ms z))
       (capped_qty env i (side_for i (delta_notional env i ms z)) q)
       (if i_legs i \<noteq> [] then MLEG else SIMPLE) (pe_now env) (i_legs i)"
    by (auto simp: plan_sized_def Let_def split: sum.splits if_splits)
  with g m show thesis by (intro that) simp_all
qed

lemma planD:
  assumes "plan env i s ms p = (Inr (Inr ord), p')"
  obtains (close) "plan_close env i s ms p = (Inr (Inr ord), p')"
      "i_action i = CLOSE_ACT \<or> i_action i = SELL_ACT \<and> i_target_weight i \<le> 0"
    | (sized) z where "size_intent env i s ms = Inr z" "plan_sized env i s ms z p = (Inr (Inr ord), p')"
      "i_action i \<noteq> CLOSE_ACT"
      "i_action i = SELL_ACT \<Longrightarrow> 0 < total_open_qty (i_agent_id i) (normalize_symbol (i_symbol i)) (pe_ledger env)"
  using assms by (auto simp: plan_def not_le split: if_splits sum.splits)

text \<open>The quantity the planner reads is the holding of the ledger.\<close>

lemma open_sum:
  "\<forall>l\<in>snd ` set d. lot_ok l \<Longrightarrow>
   sum_list (map l_remaining_qty (filter (\<lambda>l. l_agent_id l = a \<and> l_symbol l = s \<and> \<not> l_is_closed l) (map snd d))) = held a s d"
  by (induction d) (auto simp: held_def held_part_def lot_ok_def split: if_splits)

lemma total_open_exact:
  assumes "ledger_ok g" "grid_book k (lg_lots g)"
  shows "total_open_qty a s g = held a (normalize_symbol s) (lg_lots g)"
proof -
  have ok: "\<forall>l\<in>snd ` set (lg_lots g). lot_ok l" by (rule ledger_lots_ok [OF assms(1)])
  have "sum_list (map l_remaining_qty (open_lots a s g)) = held a (normalize_symbol s) (lg_lots g)"
    unfolding open_lots_def by (rule open_sum [OF ok])
  moreover have "\<forall>x\<in>set (map l_remaining_qty (open_lots a s g)). 0 \<le> x \<and> on_step k x"
    using ok assms(2) by (auto simp: open_lots_def grid_book_def lot_rest_nonneg)
  ultimately show ?thesis
    using dsum_exact [of "map l_remaining_qty (open_lots a s g)" k] held_bound [OF assms]
    by (simp add: total_open_qty_def)
qed

lemma capped_le_held: "0 < held_qty env i \<Longrightarrow> i_legs i = [] \<Longrightarrow> capped_qty env i SELL q \<le> held_qty env i"
  by (simp add: capped_qty_def)


lemma total_open_step:
  assumes "ledger_ok g" "grid_book k (lg_lots g)"
  shows "on_step k (total_open_qty a s g)" "0 \<le> total_open_qty a s g"
proof -
  have "\<forall>x\<in>set (map l_remaining_qty (open_lots a s g)). 0 \<le> x \<and> on_step k x"
    using ledger_lots_ok [OF assms(1)] assms(2) by (auto simp: open_lots_def grid_book_def lot_rest_nonneg)
  moreover have "sum_list (map l_remaining_qty (open_lots a s g)) = held a (normalize_symbol s) (lg_lots g)"
    unfolding open_lots_def by (rule open_sum [OF ledger_lots_ok [OF assms(1)]])
  ultimately show "on_step k (total_open_qty a s g)"
    using dsum_exact [of "map l_remaining_qty (open_lots a s g)" k] held_bound [OF assms]
    by (simp add: total_open_qty_def)
  show "0 \<le> total_open_qty a s g"
    using ledger_lots_ok [OF assms(1)]
    unfolding total_open_qty_def by (intro dsum_nonneg) (auto simp: open_lots_def lot_rest_nonneg)
qed

lemma held_zero_no_lots:
  assumes "ledger_ok g" "held a (normalize_symbol s) (lg_lots g) \<le> 0"
  shows "open_lots a s g = []"
proof (rule ccontr)
  assume "open_lots a s g \<noteq> []"
  then obtain l where l: "l \<in> set (open_lots a s g)" by (cases "open_lots a s g") auto
  have ok: "\<forall>l\<in>snd ` set (lg_lots g). lot_ok l" by (rule ledger_lots_ok [OF assms(1)])
  have "0 < l_remaining_qty l" using l ok by (auto simp: open_lots_def lot_ok_def)
  moreover have "l_remaining_qty l \<le> sum_list (map l_remaining_qty (open_lots a s g))"
    using l ok by (intro member_le_sum_list) (auto simp: open_lots_def lot_rest_nonneg)
  ultimately show False using assms(2) open_sum [OF ok, of a "normalize_symbol s"] by (simp add: open_lots_def)
qed

text \<open>A fill of everything that is held leaves no open lot.\<close>

lemma full_sale_empties:
  assumes ok: "ledger_ok g" "grid_book k (lg_lots g)" and f: "f_side f = SELL" "f_id f \<notin> lg_booked g"
    and q: "f_qty f = total_open_qty (f_agent_id f) (f_symbol f) g" "0 < f_qty f"
  shows "open_lots (f_agent_id f) (f_symbol f) (book_fill f meth g) = []"
proof -
  define g1 where "g1 = persist_booked (f_id f) (g\<lparr>lg_booked := insert (f_id f) (lg_booked g)\<rparr>)"
  have g1: "ledger_ok g1" "grid_book k (lg_lots g1)" "lg_lots g1 = lg_lots g"
    using mark_booked_ok [OF ok(1) f(2)] ok(2) by (simp_all add: g1_def)
  let ?s = "normalize_symbol (f_symbol f)"
  have h: "held (f_agent_id f) ?s (lg_lots g1) = f_qty f" by (simp add: g1 q(1) total_open_exact [OF ok])
  have st: "on_step k (f_qty f)" unfolding q(1) by (rule total_open_step(1) [OF ok])
  obtain aff g2 where r: "close_lots (f_agent_id f) (f_symbol f) (f_qty f) f meth g1 = Inr (aff, g2)"
    using close_lots_iff [OF g1(1,2) f(1), of "f_agent_id f" "f_symbol f" "f_qty f" meth] h by (simp add: Let_def)
  have "sold (f_price f) (f_qty f) (f_qty f) (held (f_agent_id f) ?s (lg_lots g2))"
    using close_lots_sold [OF g1(1,2) _ st r] q(2) h by simp
  then have "held (f_agent_id f) ?s (lg_lots g2) \<le> 0" by (auto simp: sold_def)
  moreover have "book_fill f meth g = g2" using f r by (simp add: book_fill_def Let_def flip: g1_def)
  ultimately show ?thesis using held_zero_no_lots close_lots_ok [OF g1(1) r] by simp
qed

lemma override_capability [simp]: "rs_mc (set_master_capability True w v r) = v"
  by (simp add: set_master_capability_def persist_mc_def Let_def)

text \<open>The quantities of planned orders.\<close>

lemma planned_qty_covered:
  assumes "fst (plan env i s ms p) = Inr (Inr ord)" "o_side ord = SELL" "i_legs i = []"
  shows "0 < o_qty ord
    \<and> (i_action i \<noteq> REBALANCE_TO \<or> 0 < held_qty env i \<longrightarrow> o_qty ord \<le> held_qty env i)"
proof -
  have "plan env i s ms p = (Inr (Inr ord), snd (plan env i s ms p))" using assms(1) by (simp add: prod_eq_iff)
  then show ?thesis
  proof (cases rule: planD)
    case close
    then show ?thesis using plan_closeD [OF close(1)] assms(3) by (simp add: held_qty_def)
  next
    case (sized z)
    from plan_sizedD [OF sized(2)] obtain q where q: "0 < q" "o_qty ord = capped_qty env i SELL q"
      "SELL = side_for i (delta_notional env i ms z)" using assms(2) by metis
    have "i_action i \<noteq> BUY_ACT" using q(3) assms(3) by (auto simp: side_for_def)
    then have "i_action i \<noteq> REBALANCE_TO \<Longrightarrow> 0 < held_qty env i"
      using sized(3,4) assms(3) by (cases "i_action i") (simp_all add: held_qty_def)
    then show ?thesis using q assms(3) capped_le_held [of env i q] by (auto simp: capped_qty_def)
  qed
qed

lemma purchase_within_cap:
  assumes "fst (plan env i s ms p) = Inr (Inr ord)" "o_side ord = BUY" "i_legs i = []"
  shows "\<exists>z m v. size_intent env i s ms = Inr z \<and> mark_of ms (o_symbol ord) = Some m
    \<and> v = dsub (sz_target z) (dmul (total_open_qty (o_agent_id ord) (o_symbol ord) (pe_ledger env)) m) \<and> 1 \<le> v
    \<and> 0 < o_qty ord \<and> o_qty ord \<le> ddiv v m
    \<and> dadd (sleeve_gross_notional (o_agent_id ord) ms (pe_ledger env)) v \<le> sz_cap z
    \<and> o_agent_id ord = i_agent_id i \<and> normalize_symbol (o_symbol ord) = o_symbol ord"
proof -
  have "plan env i s ms p = (Inr (Inr ord), snd (plan env i s ms p))" using assms(1) by (simp add: prod_eq_iff)
  then show ?thesis
  proof (cases rule: planD)
    case close
    then show ?thesis using plan_closeD(1) [OF close(1)] assms(2) by simp
  next
    case (sized z)
    let ?d = "delta_notional env i ms z"
    from sized(2) obtain q m where q: "plan_guard env i s ms z = None" "mark_of ms (o_symbol ord) = Some m"
      "order_qty i (position_value env i ms z) m = Inr q" "0 < q" "o_qty ord = q"
      "side_for i ?d = BUY" "o_agent_id ord = i_agent_id i" "o_symbol ord = normalize_symbol (i_symbol i)"
      by (rule plan_sizedD) (use assms(2) in \<open>auto simp: capped_qty_def\<close>)
    have "0 \<le> ?d"
      using q(1,6) assms(3) sized(3)
      by (cases "i_action i") (simp_all add: side_for_def plan_guard_def Let_def split: if_splits)
    then have v: "position_value env i ms z = ?d"
      using assms(3) by (simp add: position_value_def dabs_def delta_notional_def)
    have ge: "1 \<le> ?d" using q(1) v by (auto simp: plan_guard_def Let_def min_notional_def split: if_splits)
    then have "dadd (sleeve_gross_notional (i_agent_id i) ms (pe_ledger env)) ?d \<le> sz_cap z"
      using q(1) assms(3) by (auto simp: plan_guard_def Let_def split: if_splits)
    moreover have "q \<le> ddiv ?d m"
      using order_qty_bounds(2) [OF q(3)] v ge mark_of_pos [OF q(2)] assms(3) by simp
    moreover have "?d = dsub (sz_target z) (dmul (total_open_qty (o_agent_id ord) (o_symbol ord) (pe_ledger env)) m)"
      using q(2,7,8) assms(3) by (simp add: delta_notional_def held_notional_def held_qty_def)
    ultimately show ?thesis using sized(1) q ge by (intro exI [of _ z] exI [of _ m] exI [of _ ?d]) simp
  qed
qed

text \<open>Objects of the examples: SPY at 50, a volatility equal to the target, a sleeve of 1000.\<close>

definition sample_market :: market_snapshot where
  "sample_market = \<lparr>ms_current_prices = [(''SPY'', 50)], ms_realized_vol_30d = [(''SPY'', 20 / 100)],
     ms_vix_bucket = SWEET_SPOT, ms_timestamp = 0\<rparr>"

definition sample_env :: "ledger \<Rightarrow> plan_env" where
  "sample_env g = \<lparr>pe_ledger = g, pe_weights = No_weights, pe_mc = 1, pe_now = 0\<rparr>"

definition rich_state :: agent_state where
  "rich_state = sample_state\<lparr>as_sleeve_equity := 1000\<rparr>"

lemma sample_env_fields [simp]:
  "pe_ledger (sample_env g) = g" "pe_weights (sample_env g) = No_weights" "pe_mc (sample_env g) = 1"
  "as_sleeve_equity rich_state = 1000" "as_agent_id rich_state = OPUS" "as_drawdown_bucket rich_state = NORMAL"
  by (simp_all add: sample_env_def rich_state_def)

lemma rich_policy: "entry_policy i rich_state ts g = entry_policy i sample_state ts g"
  by (simp add: entry_policy_def)

lemma sample_mark: "mark_of sample_market ''SPY'' = Some 50"
  by (simp add: mark_of_def sample_market_def)

lemma sample_size:
  assumes "i_agent_id i = OPUS" "i_symbol i = ''SPY''" "i_target_weight i * 10 \<in> \<int>" "\<bar>i_target_weight i\<bar> \<le> 1"
    and "as_sleeve_equity s = 1000" "as_drawdown_bucket s = NORMAL"
  shows "size_intent (sample_env g) i s sample_market =
    Inr \<lparr>sz_emg = 1, sz_vol_target = 1 / 5, sz_vol = 1 / 5, sz_target = i_target_weight i * 1000, sz_cap = 1000, sz_binding = ''vol_target''\<rparr>"
proof -
  have "dround (i_target_weight i * 1000) = i_target_weight i * 1000"
  proof (rule dround_small)
    have "i_target_weight i * 1000 * 10 ^ 12 = i_target_weight i * 10 * of_int (10 ^ 14)" by simp
    moreover have "i_target_weight i * 10 * of_int (10 ^ 14) \<in> \<int>" by (rule Ints_mult [OF assms(3) Ints_of_int])
    ultimately show "i_target_weight i * 1000 * 10 ^ 12 \<in> \<int>" by (simp only:)
  qed (use assms(4) in auto)
  moreover have "i_target_weight i \<le> 1" using assms(4) by simp
  ultimately show ?thesis
    by (simp add: size_intent_def effective_max_gross_def max_master_capability_def assms(1,2,5,6) sample_env_def
        sample_market_def read_sleeve_weights_def dict_get_or_def clamp_weight_def Let_def
        vol_targeted_position_value_def sizing_multiplier_def vol_floor_annual_def vol_target_cap_leverage_def
        plain_spy dec_eval)
qed

lemma empty_book [simp]:
  "open_qty_by_symbol a (empty_ledger db) = []" "total_open_qty a t (empty_ledger db) = 0"
  by (simp_all add: open_qty_by_symbol_def all_lots_def empty_ledger_def total_open_qty_def open_lots_def dsum_def)

lemma sample_held: "total_open_qty SONNET ''SPY'' sample_book = 5"
  by (simp add: total_open_exact [OF sample_book_ok sample_book_grid] plain_spy sample_book_held)

lemma quantize_two: "quantize_down 9 2 = Inr 2"
  by (simp add: quantize_down_def dtrunc_def Let_def)

lemmas sample_plan = plan_guard_def delta_notional_def held_notional_def held_qty_def position_value_def
  order_qty_def side_for_def sleeve_gross_notional_def plain_spy sample_mark rebalance_band_def min_notional_def
  fractional_places_def finish_plan_def quantize_two capped_qty_def Let_def

lemma sample_close:
  "\<exists>ord. fst (plan (sample_env sample_book) ((sample_intent ''SPY'' CLOSE_ACT EQUITY_SLEEVE 0)\<lparr>i_agent_id := SONNET\<rparr>)
       s sample_market p) = Inr (Inr ord)
     \<and> o_side ord = SELL \<and> o_qty ord = 5 \<and> o_agent_id ord = SONNET \<and> o_symbol ord = ''SPY''"
  by (simp add: plan_def plan_close_def sample_intent_def sample_env_def plain_spy sample_held sample_mark Let_def
      min_notional_def effective_max_gross_def max_master_capability_def finish_plan_def dec_eval)

lemma sample_buy:
  assumes "as_sleeve_equity s = 1000" "as_drawdown_bucket s = NORMAL"
  shows "\<exists>ord. fst (plan (sample_env (empty_ledger None)) (sample_intent ''SPY'' BUY_ACT EQUITY_SLEEVE (1 / 10))
       s sample_market p) = Inr (Inr ord) \<and> o_side ord = BUY \<and> o_symbol ord = ''SPY'' \<and> o_qty ord = 2"
  by (simp add: plan_def sample_size assms plan_sized_def sample_plan dec_eval)

subsection \<open>Properties\<close>

text \<open>
  A planned sale is covered: a sell order of a symbol the agent holds is for a positive
  quantity of at most what is held, whatever the action, the prices and the target; selling
  without a holding is only planned for a rebalancing.
\<close>

lemma planned_sale_is_covered:
  assumes "fst (plan env i s ms p) = Inr (Inr ord)" "o_side ord = SELL" "i_legs i = []"
  shows "0 < o_qty ord
    \<and> (i_action i \<noteq> REBALANCE_TO \<or> 0 < held_qty env i \<longrightarrow> o_qty ord \<le> held_qty env i)"
  by (rule planned_qty_covered [OF assms])

lemma planned_sale_is_covered_example:
  "\<exists>ord. fst (plan (sample_env sample_book) ((sample_intent ''SPY'' CLOSE_ACT EQUITY_SLEEVE 0)\<lparr>i_agent_id := SONNET\<rparr>)
      rich_state sample_market (new_planner 0)) = Inr (Inr ord) \<and> 0 < o_qty ord"
proof -
  obtain ord where o: "fst (plan (sample_env sample_book) ((sample_intent ''SPY'' CLOSE_ACT EQUITY_SLEEVE 0)\<lparr>i_agent_id := SONNET\<rparr>)
       rich_state sample_market (new_planner 0)) = Inr (Inr ord)" "o_side ord = SELL"
    using sample_close by blast
  from planned_sale_is_covered [OF o] o(1) show ?thesis by (simp add: sample_intent_def)
qed

text \<open>
  C9 A planned purchase without option legs is for at most the missing value: the value at the mark by which the
  agent's open lots of the symbol fall short of the target of the sizing, at least one dollar. And the gross
  holdings of the sleeve plus that value do not exceed the cap.
\<close>

theorem planned_purchase_within_cap:
  assumes "fst (plan env i s ms p) = Inr (Inr ord)" "o_side ord = BUY" "i_legs i = []"
  shows "\<exists>z m v. size_intent env i s ms = Inr z \<and> mark_of ms (o_symbol ord) = Some m
    \<and> v = dsub (sz_target z) (dmul (total_open_qty (o_agent_id ord) (o_symbol ord) (pe_ledger env)) m) \<and> 1 \<le> v
    \<and> 0 < o_qty ord \<and> o_qty ord \<le> ddiv v m
    \<and> dadd (sleeve_gross_notional (o_agent_id ord) ms (pe_ledger env)) v \<le> sz_cap z"
  using purchase_within_cap [OF assms] by blast

theorem planned_purchase_within_cap_witness:
  "\<exists>ord v. fst (plan (sample_env (empty_ledger None)) (sample_intent ''SPY'' BUY_ACT EQUITY_SLEEVE (1 / 10))
      rich_state sample_market (new_planner 0)) = Inr (Inr ord) \<and> 1 \<le> v \<and> 0 < o_qty ord \<and> o_qty ord \<le> ddiv v 50"
proof -
  let ?p = "plan (sample_env (empty_ledger None)) (sample_intent ''SPY'' BUY_ACT EQUITY_SLEEVE (1 / 10))
      rich_state sample_market (new_planner 0)"
  obtain ord where o: "fst ?p = Inr (Inr ord)" "o_side ord = BUY" "o_symbol ord = ''SPY''"
    using sample_buy [of rich_state "new_planner 0"] by auto
  from planned_purchase_within_cap [OF o(1,2)] sample_mark o(1,3) show ?thesis by auto
qed

text \<open>
  C6 A close intent sells all: when the order it plans is filled for its whole quantity, booking
  the fill leaves the agent without an open lot of the symbol, under either lot method.
\<close>

theorem close_empties_the_position:
  assumes "ledger_ok (pe_ledger env)" "grid_book k (lg_lots (pe_ledger env))"
    and "fst (plan env i s ms p) = Inr (Inr ord)" "i_action i = CLOSE_ACT"
    and "f_side f = SELL" "f_agent_id f = o_agent_id ord" "f_symbol f = o_symbol ord" "f_qty f = o_qty ord"
    and "f_id f \<notin> lg_booked (pe_ledger env)"
  shows "open_lots (o_agent_id ord) (o_symbol ord) (book_fill f meth (pe_ledger env)) = []"
proof -
  have "plan_close env i s ms p = (Inr (Inr ord), snd (plan env i s ms p))"
    using assms(3,4) by (simp add: plan_def prod_eq_iff)
  from plan_closeD [OF this] full_sale_empties [OF assms(1,2,5,9)] show ?thesis
    using assms(6-8) by simp
qed

theorem close_empties_the_position_witness:
  "\<exists>ord. fst (plan (sample_env sample_book) ((sample_intent ''SPY'' CLOSE_ACT EQUITY_SLEEVE 0)\<lparr>i_agent_id := SONNET\<rparr>)
       rich_state sample_market (new_planner 0)) = Inr (Inr ord)
     \<and> open_lots SONNET ''SPY'' (book_fill (sample_fill 9 SELL 5 0) LIFO sample_book) = []"
proof -
  obtain ord where o: "fst (plan (sample_env sample_book) ((sample_intent ''SPY'' CLOSE_ACT EQUITY_SLEEVE 0)\<lparr>i_agent_id := SONNET\<rparr>)
       rich_state sample_market (new_planner 0)) = Inr (Inr ord)"
    "o_side ord = SELL" "o_qty ord = 5" "o_agent_id ord = SONNET" "o_symbol ord = ''SPY''"
    using sample_close by blast
  have "open_lots (o_agent_id ord) (o_symbol ord) (book_fill (sample_fill 9 SELL 5 0) LIFO (pe_ledger (sample_env sample_book))) = []"
    by (rule close_empties_the_position [OF _ _ o(1), of 0])
      (simp_all add: o sample_env_def sample_book_ok sample_book_grid sample_book_lots(2) sample_intent_def)
  with o show ?thesis by (simp add: sample_env_def)
qed

text \<open>
  With \<^verbatim>\<open>OVERRIDE_KEY\<close> the runtime store accepts a master capability above one and a half,
  and then no intent can be planned any more: the cap computation refuses the value in spite of
  the override, so that closing a position raises as well.
\<close>

lemma override_stops_all_plans:
  assumes "15 / 10 < v" "pe_mc env = rs_mc (set_master_capability True writes v r)"
  shows "fst (plan env i s ms p) \<noteq> Inr (Inr ord)
    \<and> (i_action i = CLOSE_ACT \<and> mark_of ms (normalize_symbol (i_symbol i)) = Some m
       \<and> 0 < total_open_qty (i_agent_id i) (normalize_symbol (i_symbol i)) (pe_ledger env)
       \<and> 1 \<le> dmul (total_open_qty (i_agent_id i) (normalize_symbol (i_symbol i)) (pe_ledger env)) m
       \<longrightarrow> plan env i s ms p = (Inl ValueError, p))"
proof -
  have refused: "effective_max_gross wf a (pe_mc env) vix dd = Inl ValueError" for wf a vix dd
    using assms by (simp add: effective_max_gross_def max_master_capability_def)
  have "size_intent env i s ms = Inl ValueError" by (simp add: size_intent_def refused)
  then show ?thesis
    by (auto simp: plan_def plan_close_def refused Let_def dropped_def min_notional_def split: option.split)
qed

lemma override_stops_all_plans_example:
  "fst (plan ((sample_env sample_book)\<lparr>pe_mc := 2\<rparr>) ((sample_intent ''SPY'' CLOSE_ACT EQUITY_SLEEVE 0)\<lparr>i_agent_id := SONNET\<rparr>)
      rich_state sample_market (new_planner 0)) = Inl ValueError"
proof -
  have "plan ((sample_env sample_book)\<lparr>pe_mc := 2\<rparr>) ((sample_intent ''SPY'' CLOSE_ACT EQUITY_SLEEVE 0)\<lparr>i_agent_id := SONNET\<rparr>)
      rich_state sample_market (new_planner 0) = (Inl ValueError, new_planner 0)"
    by (rule override_stops_all_plans [where v = 2 and writes = True and r = "new_store No_mc_file 1" and m = 50, THEN conjunct2, rule_format])
      (simp_all add: sample_intent_def plain_spy sample_mark sample_held dec_eval)
  then show ?thesis by simp
qed

text \<open>
  A rebalancing to a negative weight of a symbol the sleeve does not hold is planned as a sale:
  the weight of an intent is not checked, and a sale without holdings is neither refused nor capped.
\<close>

lemma negative_weight_sells_short:
  "\<exists>ord. fst (plan (sample_env (empty_ledger None)) (sample_intent ''SPY'' REBALANCE_TO EQUITY_SLEEVE (- 1 / 10))
      rich_state sample_market (new_planner 0)) = Inr (Inr ord)
     \<and> o_side ord = SELL \<and> o_qty ord = 2 \<and> total_open_qty (o_agent_id ord) (o_symbol ord) (empty_ledger None) = 0
     \<and> rd_allowed (fst (check_intent (sample_intent ''SPY'' REBALANCE_TO EQUITY_SLEEVE (- 1 / 10)) rich_state 1 [] 1 sample_gate))"
proof -
  have "rd_allowed (fst (check_intent (sample_intent ''SPY'' REBALANCE_TO EQUITY_SLEEVE (- 1 / 10)) rich_state 1 [] 1 sample_gate))"
    by (subst opening_allowed_iff) (simp_all add: action_kinds size_check_iff sample_policy rich_policy)
  then show ?thesis by (simp add: plan_def sample_size plan_sized_def sample_plan dec_eval)
qed

end
