(* ===== verification/Tracker.thy ===== *)
theory Tracker
  imports Risk_Gate Effects "HOL-Library.Sublist"
begin

text \<open>
  The tracker of sleeve equity and drawdown buckets of \<^verbatim>\<open>execution/agent_state_tracker.py\<close>. It
  shares the kill engine and the lot ledger. \<open>tk_db\<close> is the SQLite table, \<open>None\<close> without a path; a
  row keeps enumerations as their texts and numbers as numbers. The current time is an argument
  of the operations that read it. Costs and quantities per symbol are only in memory.
\<close>

definition recovery_days_required :: int where "recovery_days_required = 5"
definition bench_hours :: int where "bench_hours = 24 * us_per_hour"

record agent_rec =
  tr_starting :: decimal
  tr_current :: decimal
  tr_peak :: decimal
  tr_losses :: int
  tr_benched :: bool
  tr_until :: "datetime option"
  tr_bucket :: drawdown_bucket
  tr_target :: "drawdown_bucket option"
  tr_since :: "date option"
  tr_days :: int
  tr_last :: "date option"
  tr_avg_cost :: "(symbol, decimal) dict"
  tr_open_qty :: "(symbol, decimal) dict"

definition fresh_rec :: "decimal \<Rightarrow> agent_rec" where
  "fresh_rec e = \<lparr>tr_starting = e, tr_current = e, tr_peak = e, tr_losses = 0, tr_benched = False, tr_until = None,
     tr_bucket = NORMAL, tr_target = None, tr_since = None, tr_days = 0, tr_last = None, tr_avg_cost = [], tr_open_qty = []\<rparr>"

record tracker_row =
  row_agent :: string
  row_starting :: decimal
  row_current :: decimal
  row_peak :: decimal
  row_losses :: int
  row_benched :: int
  row_until :: "datetime option"
  row_bucket :: string
  row_target :: "string option"
  row_since :: "date option"
  row_days :: int
  row_last :: "date option"

record tracker =
  tk_records :: "(agent_id, agent_rec) dict"
  tk_db :: "tracker_row list option"
  tk_bus :: "bus_event list option"
  tk_kill :: kill_engine
  tk_ledger :: ledger
  tk_starting :: decimal

type_synonym 'a tk = "(tracker, 'a) eff"

subsection \<open>Persistence\<close>

fun bucket_str :: "drawdown_bucket \<Rightarrow> string" where
  "bucket_str NORMAL = ''normal''"
| "bucket_str YELLOW = ''yellow''"
| "bucket_str ORANGE = ''orange''"
| "bucket_str RED = ''red''"
| "bucket_str FORCED_CASH = ''forced_cash''"

abbreviation bucket_of_str :: "string \<Rightarrow> exn + drawdown_bucket" where
  "bucket_of_str \<equiv> enum_of bucket_str [NORMAL, YELLOW, ORANGE, RED, FORCED_CASH]"

definition row_of :: "agent_id \<times> agent_rec \<Rightarrow> tracker_row" where
  "row_of ar = (case ar of (a, r) \<Rightarrow>
     \<lparr>row_agent = agent_str a, row_starting = tr_starting r, row_current = tr_current r, row_peak = tr_peak r,
      row_losses = tr_losses r, row_benched = (if tr_benched r then 1 else 0), row_until = tr_until r,
      row_bucket = bucket_str (tr_bucket r), row_target = map_option bucket_str (tr_target r),
      row_since = tr_since r, row_days = tr_days r, row_last = tr_last r\<rparr>)"

text \<open>\<^verbatim>\<open>INSERT OR REPLACE\<close> on the primary key.\<close>

definition put_row :: "tracker_row \<Rightarrow> tracker_row list \<Rightarrow> tracker_row list" where
  "put_row r rows = filter (\<lambda>q. row_agent q \<noteq> row_agent r) rows @ [r]"

definition maybe_persist :: "tracker \<Rightarrow> tracker" where
  "maybe_persist t = t\<lparr>tk_db := map_option (\<lambda>rows. foldl (\<lambda>rs ar. put_row (row_of ar) rs) rows (tk_records t)) (tk_db t)\<rparr>"

definition rec_of_row :: "tracker_row \<Rightarrow> exn + agent_rec" where
  "rec_of_row q =
     bindr (case row_target q of None \<Rightarrow> Inr None | Some s \<Rightarrow> if s = [] then Inr None else bindr (bucket_of_str s) (\<lambda>b. Inr (Some b)))
       (\<lambda>tgt. bindr (bucket_of_str (row_bucket q)) (\<lambda>b.
          Inr \<lparr>tr_starting = row_starting q, tr_current = row_current q, tr_peak = row_peak q,
               tr_losses = row_losses q, tr_benched = (row_benched q \<noteq> 0), tr_until = row_until q,
               tr_bucket = b, tr_target = tgt, tr_since = row_since q, tr_days = row_days q,
               tr_last = row_last q, tr_avg_cost = [], tr_open_qty = []\<rparr>))"

fun load_rows :: "tracker_row list \<Rightarrow> (agent_id, agent_rec) dict \<Rightarrow> exn + (agent_id, agent_rec) dict" where
  "load_rows [] recs = Inr recs"
| "load_rows (q # qs) recs = (case agent_of_str (row_agent q) of
       Inl _ \<Rightarrow> load_rows qs recs
     | Inr a \<Rightarrow> bindr (rec_of_row q) (\<lambda>r. load_rows qs (dict_set a r recs)))"

definition fill_missing :: "decimal \<Rightarrow> (agent_id, agent_rec) dict \<Rightarrow> (agent_id, agent_rec) dict" where
  "fill_missing e recs = foldl (\<lambda>d a. if dict_get d a = None then dict_set a (fresh_rec e) d else d) recs all_agents"

definition initial_records :: "decimal \<Rightarrow> (agent_id, agent_rec) dict" where
  "initial_records e = map (\<lambda>a. (a, fresh_rec e)) all_agents"

definition load_or_init_records :: "tracker_row list option \<Rightarrow> decimal \<Rightarrow> exn + (agent_id, agent_rec) dict" where
  "load_or_init_records db e = (case db of
       None \<Rightarrow> Inr (initial_records e)
     | Some rows \<Rightarrow> if rows = [] then Inr (initial_records e)
                    else bindr (load_rows rows []) (\<lambda>recs. Inr (fill_missing e recs)))"

definition new_tracker ::
  "kill_engine \<Rightarrow> ledger \<Rightarrow> decimal \<Rightarrow> tracker_row list option \<Rightarrow> bus_event list option \<Rightarrow> exn + tracker" where
  "new_tracker k g e db bus = bindr (load_or_init_records db e)
     (\<lambda>recs. Inr \<lparr>tk_records = recs, tk_db = db, tk_bus = bus, tk_kill = k, tk_ledger = g, tk_starting = e\<rparr>)"

subsection \<open>Costs and losses\<close>

definition update_avg_cost :: "fill \<Rightarrow> agent_rec \<Rightarrow> agent_rec" where
  "update_avg_cost f r =
     (let pq = dict_get_or (tr_open_qty r) (f_symbol f) 0; pc = dict_get_or (tr_avg_cost r) (f_symbol f) 0;
          nq = dadd pq (f_qty f)
      in if 0 < nq
         then r\<lparr>tr_avg_cost := dict_set (f_symbol f)
                  (ddiv (dadd (dmul pc pq) (dmul (f_price f) (f_qty f))) nq) (tr_avg_cost r),
                tr_open_qty := dict_set (f_symbol f) nq (tr_open_qty r)\<rparr>
         else r)"

definition is_loss :: "agent_rec \<Rightarrow> fill \<Rightarrow> bool" where
  "is_loss r f = (case dict_get (tr_avg_cost r) (f_symbol f) of None \<Rightarrow> False | Some c \<Rightarrow> f_price f < c)"

definition clear_avg_cost :: "fill \<Rightarrow> agent_rec \<Rightarrow> agent_rec" where
  "clear_avg_cost f r =
     (let nq = max (dsub (dict_get_or (tr_open_qty r) (f_symbol f) 0) (f_qty f)) 0 in
      if nq \<le> 0 then r\<lparr>tr_open_qty := dict_del (f_symbol f) (tr_open_qty r), tr_avg_cost := dict_del (f_symbol f) (tr_avg_cost r)\<rparr>
      else r\<lparr>tr_open_qty := dict_set (f_symbol f) nq (tr_open_qty r)\<rparr>)"

definition put_rec :: "agent_id \<Rightarrow> agent_rec \<Rightarrow> tracker \<Rightarrow> tracker" where
  "put_rec a r t = t\<lparr>tk_records := dict_set a r (tk_records t)\<rparr>"

definition tracker_publish :: "bus_event \<Rightarrow> tracker \<Rightarrow> tracker" where
  "tracker_publish e t = t\<lparr>tk_bus := map_option (\<lambda>b. b @ [e]) (tk_bus t)\<rparr>"

definition record_loss :: "agent_id \<Rightarrow> datetime \<Rightarrow> agent_rec \<Rightarrow> tracker \<Rightarrow> tracker" where
  "record_loss a now r t =
     (let n = tr_losses r + 1 in
      if consecutive_loss_bench_trigger \<le> n
      then tracker_publish (AgentBenched a n)
             (put_rec a (r\<lparr>tr_losses := n, tr_benched := True, tr_until := Some (now + bench_hours)\<rparr>)
               (t\<lparr>tk_kill := snd (record_agent_result a True now (tk_kill t))\<rparr>))
      else put_rec a (r\<lparr>tr_losses := n\<rparr>) t)"

definition record_win :: "agent_rec \<Rightarrow> agent_rec" where
  "record_win r = (let r1 = r\<lparr>tr_losses := 0\<rparr> in
     if tr_benched r1 then r1\<lparr>tr_benched := False, tr_until := None\<rparr> else r1)"

definition update_on_fill :: "fill \<Rightarrow> datetime \<Rightarrow> unit tk" where
  "update_on_fill f now t = (case dict_get (tk_records t) (f_agent_id f) of
       None \<Rightarrow> (Inl KeyError, t)
     | Some r \<Rightarrow>
         (Inr (), maybe_persist
            (if f_side f = BUY then put_rec (f_agent_id f) (update_avg_cost f r) t
             else if is_loss r f then record_loss (f_agent_id f) now (clear_avg_cost f r) t
             else put_rec (f_agent_id f) (record_win (clear_avg_cost f r)) t)))"

subsection \<open>Profit and loss\<close>

definition tracked_realized :: "agent_id \<Rightarrow> ledger \<Rightarrow> decimal" where
  "tracked_realized a g = foldl (\<lambda>acc l.
     if l_agent_id l = a \<and> l_is_closed l then (case realized_pnl l of None \<Rightarrow> acc | Some x \<Rightarrow> dadd acc x) else acc) 0 (all_lots g)"

definition mark_for :: "(symbol, decimal) dict \<Rightarrow> symbol \<Rightarrow> decimal option" where
  "mark_for px s = (case dict_get px (normalize_symbol s) of None \<Rightarrow> dict_get px s | Some m \<Rightarrow> Some m)"

definition tracked_unrealized :: "agent_id \<Rightarrow> (symbol, decimal) dict \<Rightarrow> ledger \<Rightarrow> decimal" where
  "tracked_unrealized a px g = foldl (\<lambda>acc l.
     if l_agent_id l = a \<and> \<not> l_is_closed l
     then if dmul (l_remaining_qty l) (l_entry_price l) < dust_notional_usd then acc
          else (case mark_for px (l_symbol l) of
                  None \<Rightarrow> acc | Some m \<Rightarrow> dadd acc (dmul (dsub m (l_entry_price l)) (l_remaining_qty l)))
     else acc) 0 (all_lots g)"

definition tracked_equity :: "decimal \<Rightarrow> agent_id \<Rightarrow> (symbol, decimal) dict \<Rightarrow> ledger \<Rightarrow> decimal" where
  "tracked_equity base a px g = dadd (dadd base (tracked_realized a g)) (tracked_unrealized a px g)"

definition tracked_drawdown :: "decimal \<Rightarrow> decimal \<Rightarrow> decimal" where
  "tracked_drawdown peak equity = (if 0 < peak then ddiv (dsub peak equity) peak else 0)"

subsection \<open>Buckets\<close>

definition apply_bucket :: "drawdown_bucket \<Rightarrow> date \<Rightarrow> agent_rec \<Rightarrow> agent_rec" where
  "apply_bucket raw today r =
     (if tr_bucket r \<le> raw
      then r\<lparr>tr_bucket := raw, tr_target := None, tr_since := None, tr_days := 0, tr_last := Some today\<rparr>
      else (let r1 = (if tr_target r \<noteq> Some raw then r\<lparr>tr_target := Some raw, tr_since := Some today, tr_days := 1\<rparr>
                      else if tr_last r \<noteq> Some today then r\<lparr>tr_days := tr_days r + 1\<rparr> else r);
                r2 = (if recovery_days_required \<le> tr_days r1
                      then r1\<lparr>tr_bucket := raw, tr_target := None, tr_since := None, tr_days := 0\<rparr> else r1)
            in r2\<lparr>tr_last := Some today\<rparr>))"

definition apply_bucket_with_recovery :: "agent_id \<Rightarrow> drawdown_bucket \<Rightarrow> date \<Rightarrow> agent_rec \<Rightarrow> tracker \<Rightarrow> tracker" where
  "apply_bucket_with_recovery a raw today r t =
     put_rec a (apply_bucket raw today r)
       (if tr_bucket r < raw
        then tracker_publish (DrawdownLadderFired (Some a) (tracked_drawdown (tr_peak r) (tr_current r)) raw) t else t)"

definition expire_bench :: "datetime \<Rightarrow> agent_rec \<Rightarrow> agent_rec" where
  "expire_bench now r = (case tr_until r of
       Some u \<Rightarrow> if tr_benched r \<and> u \<le> now then r\<lparr>tr_benched := False, tr_until := None, tr_losses := 0\<rparr> else r
     | None \<Rightarrow> r)"

definition mark_equity :: "decimal \<Rightarrow> datetime \<Rightarrow> agent_rec \<Rightarrow> agent_rec" where
  "mark_equity e now r = (let r1 = expire_bench now (r\<lparr>tr_current := e\<rparr>) in
     if tr_peak r1 < e then r1\<lparr>tr_peak := e\<rparr> else r1)"

definition update_on_mark :: "agent_id \<Rightarrow> (symbol, decimal) dict \<Rightarrow> datetime \<Rightarrow> unit tk" where
  "update_on_mark a px now t = (case dict_get (tk_records t) a of
       None \<Rightarrow> (Inl KeyError, t)
     | Some r \<Rightarrow>
         (let r1 = mark_equity (tracked_equity (tr_starting r) a px (tk_ledger t)) now r in
          (Inr (), maybe_persist (apply_bucket_with_recovery a
             (classify_drawdown (tracked_drawdown (tr_peak r1) (tr_current r1))) (date_of now) r1 t))))"

subsection \<open>Reading and rebuilding\<close>

definition state_of_rec :: "agent_id \<Rightarrow> agent_rec \<Rightarrow> agent_state" where
  "state_of_rec a r = \<lparr>as_agent_id = a, as_sleeve_equity = tr_current r, as_sleeve_peak_equity = tr_peak r,
     as_drawdown_bucket = tr_bucket r, as_drawdown_bucket_entry_date = tr_since r,
     as_consecutive_losses = tr_losses r, as_is_benched = tr_benched r, as_bench_until = tr_until r,
     as_day_trade_count = 0, as_orders_today = 0, as_last_memo_id = None\<rparr>"

definition get_state :: "agent_id \<Rightarrow> datetime \<Rightarrow> agent_state tk" where
  "get_state a now t = (case dict_get (tk_records t) a of
       None \<Rightarrow> (Inl KeyError, t)
     | Some r \<Rightarrow> (Inr (state_of_rec a (expire_bench now r)), put_rec a (expire_bench now r) t))"

definition date_min :: date where "date_min = - 719162"

definition replay_consecutive_losses :: "agent_id \<Rightarrow> ledger \<Rightarrow> int" where
  "replay_consecutive_losses a g = foldl (\<lambda>n l. case realized_pnl l of None \<Rightarrow> n | Some x \<Rightarrow> if x < 0 then n + 1 else 0) 0
     (sort_key (\<lambda>l. case l_exit_date l of None \<Rightarrow> date_min | Some d \<Rightarrow> d)
        (filter (\<lambda>l. l_agent_id l = a \<and> l_is_closed l) (all_lots g)))"

definition rebuild_agent :: "(symbol, decimal) dict \<Rightarrow> agent_id \<Rightarrow> unit tk" where
  "rebuild_agent px a t =
     (let base = (case dict_get (tk_records t) a of None \<Rightarrow> tk_starting t | Some r \<Rightarrow> tr_starting r);
          equity = tracked_equity base a px (tk_ledger t); peak = max equity base
      in case dict_get (tk_records t) a of
           None \<Rightarrow> (Inl KeyError, t)
         | Some r \<Rightarrow> (Inr (), put_rec a (r\<lparr>tr_current := equity, tr_peak := peak,
             tr_losses := replay_consecutive_losses a (tk_ledger t),
             tr_bucket := classify_drawdown (tracked_drawdown peak equity),
             tr_target := None, tr_since := None, tr_days := 0\<rparr>) t))"

definition rebuild_from_ledger :: "(symbol, decimal) dict \<Rightarrow> unit tk" where
  "rebuild_from_ledger px = andthen (each (rebuild_agent px) all_agents) (\<lambda>_. modify maybe_persist)"


subsection \<open>The recovery rule\<close>

definition bucket_run :: "(drawdown_bucket \<times> date) list \<Rightarrow> agent_rec \<Rightarrow> agent_rec" where
  "bucket_run es r = foldl (\<lambda>r (b, d). apply_bucket b d r) r es"

lemma bucket_run_simps [simp]:
  "bucket_run [] r = r" "bucket_run ((b, d) # es) r = bucket_run es (apply_bucket b d r)"
  "bucket_run (es @ [(b, d)]) r = apply_bucket b d (bucket_run es r)"
  by (simp_all add: bucket_run_def)

lemma apply_bucket_last [simp]: "tr_last (apply_bucket b d r) = Some d"
  by (simp add: apply_bucket_def Let_def)

lemma apply_bucket_tighten: "tr_bucket r \<le> b \<Longrightarrow> tr_bucket (apply_bucket b d r) = b \<and> tr_target (apply_bucket b d r) = None"
  by (simp add: apply_bucket_def)

text \<open>The days counted for a target, when a mark in a better bucket comes in.\<close>

definition counted :: "drawdown_bucket \<Rightarrow> date \<Rightarrow> agent_rec \<Rightarrow> int" where
  "counted b d r = (if tr_target r \<noteq> Some b then 1 else if tr_last r \<noteq> Some d then tr_days r + 1 else tr_days r)"

lemma apply_bucket_better:
  assumes "b < tr_bucket r"
  shows "apply_bucket b d r =
    (if 5 \<le> counted b d r then r\<lparr>tr_bucket := b, tr_target := None, tr_since := None, tr_days := 0, tr_last := Some d\<rparr>
     else r\<lparr>tr_target := Some b, tr_since := (if tr_target r \<noteq> Some b then Some d else tr_since r),
            tr_days := counted b d r, tr_last := Some d\<rparr>)"
  using assms by (auto simp: apply_bucket_def counted_def Let_def recovery_days_required_def not_le)

text \<open>A pending recovery is backed by the px at the end of the history.\<close>

definition backed :: "(drawdown_bucket \<times> date) list \<Rightarrow> drawdown_bucket \<Rightarrow> int \<Rightarrow> bool" where
  "backed es b n \<longleftrightarrow> (\<exists>fs. fs \<noteq> [] \<and> suffix fs es \<and> (\<forall>e\<in>set fs. fst e = b) \<and> n \<le> int (card (snd ` set fs)))"

definition recovery_ok :: "(drawdown_bucket \<times> date) list \<Rightarrow> agent_rec \<Rightarrow> bool" where
  "recovery_ok es r \<longleftrightarrow> (es \<noteq> [] \<longrightarrow> tr_last r = Some (snd (last es)))
     \<and> (\<forall>b. tr_target r = Some b \<longrightarrow> backed es b (tr_days r))"

lemma backed_single: "backed (es @ [(b, d)]) b 1"
  unfolding backed_def by (intro exI [of _ "[(b, d)]"]) simp

lemma sorted_le_last: "sorted xs \<Longrightarrow> x \<in> set xs \<Longrightarrow> x \<le> last xs"
  by (induction xs rule: rev_induct) (auto simp: sorted_append)

lemma backed_extend:
  assumes "backed es b n" "sorted (map snd (es @ [(b, d)]))"
  shows "backed (es @ [(b, d)]) b (if snd (last es) \<noteq> d then n + 1 else n)"
proof -
  from assms(1) obtain fs where fs: "fs \<noteq> []" "suffix fs es" "\<forall>e\<in>set fs. fst e = b" "n \<le> int (card (snd ` set fs))"
    by (auto simp: backed_def)
  have bound: "\<forall>e\<in>set fs. snd e \<le> snd (last es)"
  proof
    fix e assume "e \<in> set fs"
    with fs(2) have "snd e \<in> set (map snd es)" using set_mono_suffix by fastforce
    moreover have "sorted (map snd es)" "map snd es \<noteq> []" using assms(2) fs by (auto simp: sorted_append)
    ultimately show "snd e \<le> snd (last es)"
      using sorted_le_last [of "map snd es" "snd e"] by (simp add: last_map)
  qed
  have le: "snd (last es) \<le> d"
  proof -
    have "es \<noteq> []" using fs(1,2) by auto
    then have "snd (last es) \<in> set (map snd es)" by simp
    with assms(2) show ?thesis by (auto simp: sorted_append)
  qed
  show ?thesis
  proof (cases "snd (last es) = d")
    case True
    have "n \<le> int (card (snd ` set (fs @ [(b, d)])))"
      using fs(4) card_insert_le [of "snd ` set fs" d] by simp
    then show ?thesis
      using True fs(2,3) unfolding backed_def by (intro exI [of _ "fs @ [(b, d)]"]) (auto simp: suffix_def)
  next
    case False
    with le bound have "d \<notin> snd ` set fs" by fastforce
    then have "card (snd ` set (fs @ [(b, d)])) = Suc (card (snd ` set fs))" by simp
    then show ?thesis
      using False fs(2-4) unfolding backed_def by (intro exI [of _ "fs @ [(b, d)]"]) (auto simp: suffix_def)
  qed
qed

lemma backed_counted:
  assumes "recovery_ok es r" "sorted (map snd (es @ [(b, d)]))"
  shows "backed (es @ [(b, d)]) b (counted b d r)"
proof (cases "tr_target r = Some b")
  case True
  then have bk: "backed es b (tr_days r)" using assms(1) by (simp add: recovery_ok_def)
  then have "es \<noteq> []" by (auto simp: backed_def)
  then have "tr_last r = Some (snd (last es))" using assms(1) by (simp add: recovery_ok_def)
  then show ?thesis using backed_extend [OF bk assms(2)] True by (simp add: counted_def)
qed (simp add: counted_def backed_single)

lemma recovery_ok_step:
  assumes "recovery_ok es r" "sorted (map snd (es @ [(b, d)]))"
  shows "recovery_ok (es @ [(b, d)]) (apply_bucket b d r)"
proof (cases "b < tr_bucket r")
  case True
  then show ?thesis using backed_counted [OF assms] by (simp add: recovery_ok_def apply_bucket_better)
next
  case False
  then show ?thesis using apply_bucket_tighten [of r b d] by (simp add: recovery_ok_def)
qed

lemma recovery_ok_run:
  "tr_target r = None \<Longrightarrow> sorted (map snd es) \<Longrightarrow> recovery_ok es (bucket_run es r)"
proof (induction es rule: rev_induct)
  case (snoc e es)
  obtain b d where "e = (b, d)" by fastforce
  with snoc recovery_ok_step [of es "bucket_run es r" b d] show ?case by (simp add: sorted_append)
qed (simp add: recovery_ok_def)

text \<open>Marks in one better bucket on different days count up.\<close>

lemma good_days_count:
  assumes "b < tr_bucket r" "tr_target r \<noteq> None \<longrightarrow> 1 \<le> tr_days r" "sorted_wrt (<) ds" "ds \<noteq> []"
  shows "tr_bucket (bucket_run (map (Pair b) ds) r) = b
    \<or> tr_bucket (bucket_run (map (Pair b) ds) r) = tr_bucket r
      \<and> tr_target (bucket_run (map (Pair b) ds) r) = Some b \<and> int (length ds) \<le> tr_days (bucket_run (map (Pair b) ds) r)"
  using assms(3,4)
proof (induction ds rule: rev_induct)
  case (snoc d ds)
  let ?r = "bucket_run (map (Pair b) ds) r"
  show ?case
  proof (cases "ds = []")
    case True
    then show ?thesis using assms(1,2) by (auto simp: apply_bucket_better counted_def)
  next
    case False
    have last: "tr_last ?r = Some (last ds)"
      using False by (cases ds rule: rev_exhaust) simp_all
    have "last ds \<noteq> d" using snoc.prems(1) False by (auto simp: sorted_wrt_append)
    from snoc.IH False snoc.prems(1) consider "tr_bucket ?r = b"
      | "tr_bucket ?r = tr_bucket r" "tr_target ?r = Some b" "int (length ds) \<le> tr_days ?r"
      by (auto simp: sorted_wrt_append)
    then show ?thesis
    proof cases
      case 1
      then show ?thesis using apply_bucket_tighten [of ?r b d] by simp
    next
      case 2
      then show ?thesis
        using assms(1) last \<open>last ds \<noteq> d\<close> by (simp add: apply_bucket_better counted_def)
    qed
  qed
qed simp

lemma five_days_reach:
  assumes "b < tr_bucket r" "tr_target r \<noteq> None \<longrightarrow> 1 \<le> tr_days r" "sorted_wrt (<) ds" "5 \<le> length ds"
  shows "tr_bucket (bucket_run (map (Pair b) ds) r) = b"
proof -
  obtain d ds' where ds: "ds = ds' @ [d]" using assms(4) by (cases ds rule: rev_exhaust) auto
  have ne: "ds' \<noteq> []" and s: "sorted_wrt (<) ds'" using assms(3,4) ds by (auto simp: sorted_wrt_append)
  let ?r = "bucket_run (map (Pair b) ds') r"
  have last: "tr_last ?r = Some (last ds')" using ne by (cases ds' rule: rev_exhaust) simp_all
  have nd: "last ds' \<noteq> d" using assms(3) ne ds by (auto simp: sorted_wrt_append)
  from good_days_count [OF assms(1,2) s ne] show ?thesis
  proof
    assume "tr_bucket ?r = b"
    then show ?thesis using apply_bucket_tighten [of ?r b d] by (simp add: ds)
  next
    assume *: "tr_bucket ?r = tr_bucket r \<and> tr_target ?r = Some b \<and> int (length ds') \<le> tr_days ?r"
    then have "5 \<le> counted b d ?r" using last nd assms(4) ds by (simp add: counted_def)
    then show ?thesis using * assms(1) by (simp add: ds apply_bucket_better)
  qed
qed


subsection \<open>Saving and loading\<close>

definition forget_costs :: "agent_rec \<Rightarrow> agent_rec" where
  "forget_costs r = r\<lparr>tr_avg_cost := [], tr_open_qty := []\<rparr>"

lemma bucket_roundtrip [simp]: "bucket_of_str (bucket_str b) = Inr b" "bucket_str b \<noteq> []"
  by (cases b; simp add: enum_of_def)+

lemma rec_of_row_of [simp]: "rec_of_row (row_of (a, r)) = Inr (forget_costs r)"
  by (cases "tr_target r") (simp_all add: rec_of_row_def row_of_def forget_costs_def)

lemma row_of_agent [simp]: "row_agent (row_of (a, r)) = agent_str a"
  by (simp add: row_of_def)

lemma agent_str_inj: "agent_str a = agent_str b \<longleftrightarrow> a = b"
  by (cases a; cases b; simp)

lemma persisted_rows:
  "distinct (map fst rs) \<Longrightarrow> foldl (\<lambda>rows ar. put_row (row_of ar) rows) rows rs =
     filter (\<lambda>q. row_agent q \<notin> agent_str ` fst ` set rs) rows @ map row_of rs"
proof (induction rs arbitrary: rows)
  case (Cons x rs)
  obtain a r where x: "x = (a, r)" by fastforce
  have "agent_str a \<notin> agent_str ` fst ` set rs"
    using Cons.prems by (auto simp: x agent_str_inj image_iff)
  then show ?case
    using Cons by (simp add: x put_row_def)
qed simp

lemma load_unknown:
  "\<forall>q\<in>set qs. row_agent q \<notin> range agent_str \<Longrightarrow> load_rows (qs @ rs) recs = load_rows rs recs"
proof (induction qs)
  case (Cons q qs)
  then have "row_agent q \<noteq> agent_str a" for a by auto
  from this [of HAIKU] this [of SONNET] this [of OPUS] this [of MANAGER]
  have "agent_of_str (row_agent q) = Inl ValueError" by (simp add: enum_of_def all_agents_def)
  with Cons show ?case by simp
qed simp

lemma load_saved:
  "distinct (map fst (out @ rs)) \<Longrightarrow> load_rows (map row_of rs) out = Inr (out @ map (\<lambda>(a, r). (a, forget_costs r)) rs)"
proof (induction rs arbitrary: out)
  case (Cons x rs)
  obtain a r where x: "x = (a, r)" by fastforce
  have "dict_set a (forget_costs r) out = out @ [(a, forget_costs r)]"
    using Cons.prems by (intro dict_set_fresh) (auto simp: x)
  with Cons.IH [of "out @ [(a, forget_costs r)]"] Cons.prems show ?case by (simp add: x)
qed simp

lemma fill_missing_present:
  assumes "\<And>a. dict_get recs a \<noteq> None"
  shows "fill_missing e recs = recs"
proof -
  have "foldl (\<lambda>d a. if dict_get d a = None then dict_set a (fresh_rec e) d else d) recs as = recs" for as
    by (induction as) (simp_all add: assms)
  then show ?thesis by (simp add: fill_missing_def)
qed

lemma saved_reloads:
  assumes "distinct (map fst (tk_records t))" "fst ` set (tk_records t) = UNIV" "tk_db t = Some rows"
  shows "load_or_init_records (tk_db (maybe_persist t)) e = Inr (map (\<lambda>(a, r). (a, forget_costs r)) (tk_records t))"
proof -
  let ?old = "filter (\<lambda>q. row_agent q \<notin> agent_str ` fst ` set (tk_records t)) rows"
  let ?new = "map (\<lambda>(a, r). (a, forget_costs r)) (tk_records t)"
  have db: "tk_db (maybe_persist t) = Some (?old @ map row_of (tk_records t))"
    using assms(3) by (simp add: maybe_persist_def persisted_rows [OF assms(1)])
  have ne: "tk_records t \<noteq> []" using assms(2) by auto
  have "load_rows (?old @ map row_of (tk_records t)) [] = Inr ?new"
    using load_saved [of "[]" "tk_records t"] assms(1) by (subst load_unknown) (auto simp: assms(2))
  moreover have "fill_missing e ?new = ?new"
  proof (rule fill_missing_present)
    fix a
    have "a \<in> fst ` set ?new" using assms(2) by (force simp: image_iff)
    then show "dict_get ?new a \<noteq> None" by (metis map_of_eq_None_iff)
  qed
  ultimately show ?thesis using ne by (simp add: load_or_init_records_def db)
qed

text \<open>A loaded record of any agent exists and knows no costs.\<close>

definition costless :: "(agent_id, agent_rec) dict \<Rightarrow> bool" where
  "costless d \<longleftrightarrow> (\<forall>a r. dict_get d a = Some r \<longrightarrow> tr_avg_cost r = [])"

lemma costless_set: "costless d \<Longrightarrow> tr_avg_cost r = [] \<Longrightarrow> costless (dict_set a r d)"
  by (simp add: costless_def)

lemma load_rows_costless: "costless recs \<Longrightarrow> load_rows qs recs = Inr recs' \<Longrightarrow> costless recs'"
proof (induction qs arbitrary: recs)
  case (Cons q qs)
  show ?case
  proof (cases "agent_of_str (row_agent q)")
    case (Inr a)
    with Cons.prems(2) obtain r where r: "rec_of_row q = Inr r" "load_rows qs (dict_set a r recs) = Inr recs'"
      by (auto simp: bindr_Inr_iff)
    then have "tr_avg_cost r = []" by (auto simp: rec_of_row_def bindr_Inr_iff)
    then show ?thesis using Cons.IH [OF costless_set [OF Cons.prems(1)]] r(2) by blast
  qed (use Cons in simp)
qed simp

lemma fill_missing_costless: "costless recs \<Longrightarrow> costless (fill_missing e recs)"
  by (simp add: fill_missing_def all_agents_def costless_set fresh_rec_def)

lemma fill_missing_total: "dict_get (fill_missing e recs) a \<noteq> None"
  by (cases a) (auto simp: fill_missing_def all_agents_def)

lemma new_tracker_records:
  assumes "new_tracker k g e db bus = Inr t"
  obtains r where "dict_get (tk_records t) a = Some r" "tr_avg_cost r = []"
proof -
  have init: "costless (initial_records e)" "dict_get (initial_records e) a \<noteq> None"
    by (cases a; simp add: initial_records_def all_agents_def costless_def fresh_rec_def)+
  from assms obtain recs where recs: "load_or_init_records db e = Inr recs" "tk_records t = recs"
    by (auto simp: new_tracker_def bindr_Inr_iff)
  have "costless recs \<and> dict_get recs a \<noteq> None"
    using recs(1) init load_rows_costless [of "[]"] fill_missing_costless fill_missing_total
    by (auto simp: load_or_init_records_def bindr_Inr_iff costless_def [of "[]"] split: option.splits if_splits)
  with recs(2) that show thesis by (auto simp: costless_def)
qed

subsection \<open>Losing runs\<close>

definition sell_run :: "(fill \<times> datetime) list \<Rightarrow> tracker \<Rightarrow> tracker" where
  "sell_run fs t = foldl (\<lambda>t (f, now). snd (update_on_fill f now t)) t fs"

fun losing :: "agent_id \<Rightarrow> (fill \<times> datetime) list \<Rightarrow> tracker \<Rightarrow> bool" where
  "losing a [] t \<longleftrightarrow> True"
| "losing a ((f, now) # fs) t \<longleftrightarrow> f_agent_id f = a \<and> f_side f = SELL
     \<and> (case dict_get (tk_records t) a of None \<Rightarrow> False | Some r \<Rightarrow> is_loss r f)
     \<and> losing a fs (snd (update_on_fill f now t))"

text \<open>After \<open>n\<close> losses in a row, the last at time \<open>u\<close>: the tracker has counted \<open>n\<close>, the engine four fewer.\<close>

definition streak :: "agent_id \<Rightarrow> nat \<Rightarrow> datetime \<Rightarrow> tracker \<Rightarrow> bool" where
  "streak a n u t \<longleftrightarrow> (\<exists>r. dict_get (tk_records t) a = Some r \<and> tr_losses r = int n \<and> (tr_benched r \<longleftrightarrow> 5 \<le> n))
     \<and> ar_losses (ks_agents (tk_kill t) a) = int (n - 4)
     \<and> ar_until (ks_agents (tk_kill t) a) = (if 9 \<le> n then Some (u + bench_duration) else None)"

lemma tracker_frame [simp]:
  "tk_kill (maybe_persist t) = tk_kill t" "tk_records (maybe_persist t) = tk_records t"
  "tk_kill (put_rec a r t) = tk_kill t" "tk_records (put_rec a r t) = dict_set a r (tk_records t)"
  "tk_kill (tracker_publish e t) = tk_kill t" "tk_records (tracker_publish e t) = tk_records t"
  by (simp_all add: maybe_persist_def put_rec_def tracker_publish_def)

lemma clear_cost_frame [simp]:
  "tr_losses (clear_avg_cost f r) = tr_losses r" "tr_benched (clear_avg_cost f r) = tr_benched r"
  by (simp_all add: clear_avg_cost_def Let_def)

lemma streak_step:
  assumes "streak a n u t" "f_agent_id f = a" "f_side f = SELL"
    and "case dict_get (tk_records t) a of None \<Rightarrow> False | Some r \<Rightarrow> is_loss r f"
  shows "streak a (Suc n) now (snd (update_on_fill f now t))"
proof -
  from assms(1) obtain r where r: "dict_get (tk_records t) a = Some r" "tr_losses r = int n" "tr_benched r \<longleftrightarrow> 5 \<le> n"
    and e: "ar_losses (ks_agents (tk_kill t) a) = int (n - 4)"
      "ar_until (ks_agents (tk_kill t) a) = (if 9 \<le> n then Some (u + bench_duration) else None)"
    by (auto simp: streak_def)
  have t: "snd (update_on_fill f now t) = maybe_persist (record_loss a now (clear_avg_cost f r) t)"
    using assms(2-4) r(1) by (simp add: update_on_fill_def)
  show ?thesis
  proof (cases "4 \<le> n")
    case True
    then have "int (n - 4) + 1 = int (Suc n - 4)" by simp
    then show ?thesis using True e r
      by (auto simp: streak_def t record_loss_def Let_def consecutive_loss_bench_trigger_def record_agent_result_def)
  next
    case False
    then show ?thesis using e r
      by (auto simp: streak_def t record_loss_def Let_def consecutive_loss_bench_trigger_def)
  qed
qed

lemma streak_run:
  "streak a n u t \<Longrightarrow> losing a fs t \<Longrightarrow> streak a (n + length fs) (if fs = [] then u else snd (last fs)) (sell_run fs t)"
proof (induction fs arbitrary: n u t)
  case (Cons x fs)
  obtain f now where x: "x = (f, now)" by fastforce
  from Cons.prems x have "streak a (Suc n) now (snd (update_on_fill f now t))" "losing a fs (snd (update_on_fill f now t))"
    by (auto intro: streak_step)
  from Cons.IH [OF this] show ?case by (simp add: x sell_run_def split: if_splits)
qed (simp add: sell_run_def)


text \<open>Objects of the examples.\<close>

definition spy_fill :: "fill_id \<Rightarrow> order_side \<Rightarrow> decimal \<Rightarrow> decimal \<Rightarrow> fill" where
  "spy_fill n sd q px = \<lparr>f_id = n, f_order_id = n, f_agent_id = SONNET, f_symbol = ''SPY'', f_side = sd, f_qty = q,
     f_price = px, f_timestamp = 0, f_commission = 0, f_is_partial = False\<rparr>"

lemma spy_fill_fields [simp]:
  "f_id (spy_fill n sd q px) = n" "f_agent_id (spy_fill n sd q px) = SONNET" "f_symbol (spy_fill n sd q px) = ''SPY''"
  "f_side (spy_fill n sd q px) = sd" "f_qty (spy_fill n sd q px) = q" "f_price (spy_fill n sd q px) = px"
  "f_timestamp (spy_fill n sd q px) = 0"
  by (simp_all add: spy_fill_def)

definition sample_tracker :: tracker where
  "sample_tracker = \<lparr>tk_records = map (\<lambda>a. (a, (fresh_rec 1000)\<lparr>tr_avg_cost := [(''SPY'', 50)], tr_open_qty := [(''SPY'', 100)]\<rparr>)) all_agents,
     tk_db = Some [], tk_bus = Some [], tk_kill = new_engine 60, tk_ledger = empty_ledger None, tk_starting = 1000\<rparr>"

lemma sample_tracker_fields:
  "dict_get (tk_records sample_tracker) a = Some ((fresh_rec 1000)\<lparr>tr_avg_cost := [(''SPY'', 50)], tr_open_qty := [(''SPY'', 100)]\<rparr>)"
  "distinct (map fst (tk_records sample_tracker))" "fst ` set (tk_records sample_tracker) = UNIV" "tk_db sample_tracker = Some []"
proof -
  show "dict_get (tk_records sample_tracker) a = Some ((fresh_rec 1000)\<lparr>tr_avg_cost := [(''SPY'', 50)], tr_open_qty := [(''SPY'', 100)]\<rparr>)"
    by (cases a) (simp_all add: sample_tracker_def all_agents_def)
qed (auto simp: sample_tracker_def image_image comp_def all_agents_complete)

definition half_sold :: "order_side list \<Rightarrow> ledger" where
  "half_sold sds = foldl (\<lambda>g sd. book_fill (if sd = BUY then spy_fill 1 BUY 10 50 else spy_fill 2 SELL 5 60) FIFO g) (empty_ledger None) sds"

subsection \<open>Properties\<close>

text \<open>
  C11 Starting with no recovery pending, over any run of marks on days in order, the next mark
  tightens the bucket used for sizing at once; it loosens it only to the bucket of that mark, and
  only if the run ends with marks in exactly that bucket on at least five different days.
\<close>

theorem buckets_loosen_slowly:
  assumes "tr_target r = None" "sorted (map snd (es @ [(b, d)]))"
  shows "(tr_bucket (bucket_run es r) \<le> b \<longrightarrow> tr_bucket (bucket_run (es @ [(b, d)]) r) = b)
    \<and> (b < tr_bucket (bucket_run es r) \<longrightarrow>
         tr_bucket (bucket_run (es @ [(b, d)]) r) = tr_bucket (bucket_run es r)
         \<or> tr_bucket (bucket_run (es @ [(b, d)]) r) = b
           \<and> (\<exists>fs. suffix fs (es @ [(b, d)]) \<and> (\<forall>e\<in>set fs. fst e = b) \<and> 5 \<le> card (snd ` set fs)))"
proof -
  have ok: "recovery_ok es (bucket_run es r)" using assms by (intro recovery_ok_run) (auto simp: sorted_append)
  obtain fs where fs: "suffix fs (es @ [(b, d)])" "\<forall>e\<in>set fs. fst e = b" "counted b d (bucket_run es r) \<le> int (card (snd ` set fs))"
    using backed_counted [OF ok assms(2)] by (auto simp: backed_def)
  show ?thesis
  proof (cases "b < tr_bucket (bucket_run es r)")
    case True
    show ?thesis
    proof (cases "5 \<le> counted b d (bucket_run es r)")
      case five: True
      then have "5 \<le> card (snd ` set fs)" using fs(3) by linarith
      with fs(1,2) True five show ?thesis by (auto simp: apply_bucket_better simp del: suffix_snoc)
    qed (use True in \<open>auto simp: apply_bucket_better\<close>)
  next
    case False
    then show ?thesis using apply_bucket_tighten [of "bucket_run es r" b d] by simp
  qed
qed

theorem buckets_loosen_slowly_witness:
  "tr_bucket (bucket_run [(RED, 1), (NORMAL, 2)] (fresh_rec 1000)) = RED"
  using buckets_loosen_slowly [of "fresh_rec 1000" "[(RED, 1)]" NORMAL 2]
  by (auto simp: fresh_rec_def apply_bucket_def bucket_order suffix_Cons dest!: arg_cong [of _ _ length])

text \<open>
  Marks in one better bucket on five days in a row do loosen the bucket to it, also out of forced
  cash: no decision of the Manager is asked for.
\<close>

lemma five_good_days_loosen:
  assumes "b < tr_bucket r" "tr_target r = None" "sorted_wrt (<) ds" "5 \<le> length ds"
  shows "tr_bucket (bucket_run (map (Pair b) ds) r) = b"
  by (rule five_days_reach [OF assms(1) _ assms(3,4)]) (simp add: assms(2))

lemma five_good_days_loosen_example:
  "tr_bucket (bucket_run (map (Pair NORMAL) [1, 2, 3, 4, 5]) ((fresh_rec 1000)\<lparr>tr_bucket := FORCED_CASH\<rparr>)) = NORMAL"
  by (rule five_good_days_loosen) (simp_all add: fresh_rec_def bucket_order)

text \<open>
  What the tracker saves is what it loads, whatever rows the table had before, up to the costs
  and quantities per symbol, which are not saved.
\<close>

lemma tracker_reloads:
  assumes "distinct (map fst (tk_records t))" "fst ` set (tk_records t) = UNIV" "tk_db t = Some rows"
  shows "load_or_init_records (tk_db (maybe_persist t)) e = Inr (map (\<lambda>(a, r). (a, forget_costs r)) (tk_records t))"
  by (rule saved_reloads [OF assms])

lemma tracker_reloads_example:
  "load_or_init_records (tk_db (maybe_persist sample_tracker)) 5 = Inr (map (\<lambda>a. (a, fresh_rec 1000)) all_agents)"
  using tracker_reloads [OF sample_tracker_fields(2-4), of 5]
  by (simp add: sample_tracker_def forget_costs_def fresh_rec_def comp_def)

text \<open>
  After a restart the first sale of an agent ends its losing streak and its bench, at whatever
  price: the costs are gone, and a sale without a known cost counts as a win.
\<close>

lemma restart_ends_losing_streak:
  assumes "new_tracker k g e db bus = Inr t" "f_side f = SELL"
  shows "\<exists>r. dict_get (tk_records (snd (update_on_fill f now t))) (f_agent_id f) = Some r
    \<and> tr_losses r = 0 \<and> \<not> tr_benched r"
proof -
  from new_tracker_records [OF assms(1)] obtain r where r: "dict_get (tk_records t) (f_agent_id f) = Some r" "tr_avg_cost r = []" .
  then have "\<not> is_loss r f" by (simp add: is_loss_def)
  then show ?thesis
    using r assms(2) by (simp add: update_on_fill_def record_win_def Let_def)
qed

lemma restart_ends_losing_streak_example:
  "\<exists>t r. new_tracker (new_engine 60) (empty_ledger None) 5
       (Some [row_of (SONNET, (fresh_rec 1000)\<lparr>tr_losses := 7, tr_benched := True, tr_until := Some 9\<rparr>)]) None = Inr t
     \<and> dict_get (tk_records (snd (update_on_fill (spy_fill 1 SELL 1 1) 0 t))) SONNET = Some r
     \<and> tr_losses r = 0 \<and> \<not> tr_benched r"
proof -
  obtain t where t: "new_tracker (new_engine 60) (empty_ledger None) 5
       (Some [row_of (SONNET, (fresh_rec 1000)\<lparr>tr_losses := 7, tr_benched := True, tr_until := Some 9\<rparr>)]) None = Inr t"
    by (simp add: new_tracker_def load_or_init_records_def agent_roundtrip [of SONNET, simplified])
  from restart_ends_losing_streak [OF this, of "spy_fill 1 SELL 1 1" 0] t show ?thesis by auto
qed

text \<open>
  The tracker benches an agent after five losing sales in a row, but the kill engine, which the
  risk gate asks, only after nine: the engine is told of losses from the fifth on and counts to
  five by itself.
\<close>

lemma gate_benches_after_nine_losses:
  assumes "dict_get (tk_records t) a = Some r" "tr_losses r = 0" "\<not> tr_benched r"
    and "ks_agents (tk_kill t) a = \<lparr>ar_losses = 0, ar_until = None\<rparr>" "losing a fs t"
  shows "(\<exists>r'. dict_get (tk_records (sell_run fs t)) a = Some r' \<and> (tr_benched r' \<longleftrightarrow> 5 \<le> length fs))
    \<and> (fst (is_agent_benched a ts (tk_kill (sell_run fs t))) \<longleftrightarrow>
         9 \<le> length fs \<and> ts < snd (last fs) + bench_duration)"
proof -
  have "streak a 0 0 t" using assms(1-4) by (simp add: streak_def)
  from streak_run [OF this assms(5)] show ?thesis
    by (auto simp: streak_def is_agent_benched_def)
qed

lemma gate_benches_after_nine_losses_example:
  "\<not> fst (is_agent_benched SONNET 1 (tk_kill (sell_run [(spy_fill 1 SELL 1 45, 0), (spy_fill 2 SELL 1 45, 0)] sample_tracker)))"
proof -
  have "losing SONNET [(spy_fill 1 SELL 1 45, 0), (spy_fill 2 SELL 1 45, 0)] sample_tracker"
    by (simp add: sample_tracker_fields is_loss_def update_on_fill_def record_loss_def Let_def
        consecutive_loss_bench_trigger_def fresh_rec_def clear_avg_cost_def dict_get_or_def dec_eval)
  from gate_benches_after_nine_losses [OF sample_tracker_fields(1) _ _ _ this, of 1] show ?thesis
    by (simp add: fresh_rec_def sample_tracker_def new_engine_def)
qed

text \<open>
  Profit taken by closing part of a lot is missing from the equity: ten shares bought at 50
  and marked at 60 make an equity of 1100, after the sale of five of them at 60 it is 1050.
\<close>

lemma partial_sale_loses_profit:
  "tracked_equity 1000 SONNET [(''SPY'', 60)] (half_sold [BUY]) = 1100
   \<and> tracked_equity 1000 SONNET [(''SPY'', 60)] (half_sold [BUY, SELL]) = 1050"
  by (simp add: half_sold_def book_fill_def persist_booked_def empty_ledger_def open_lot_def Let_def lot_post_init_def
      persist_lot_def plain_spy date_of_def close_lots_def candidates_def is_candidate_def consume_lot_def
      snapped_remaining_def dust_notional_usd_def tracked_equity_def tracked_realized_def tracked_unrealized_def
      all_lots_def mark_for_def dsum_def dec_eval)

end
