(* ===== verification/Dispatch.thy ===== *)
theory Dispatch
  imports Planner Tracker OMS_Invariants Budget
begin

text \<open>
  The path of an intent through the application, \<^verbatim>\<open>app.py\<close>: risk gate, review by the Manager,
  planner, account guards, OMS, and back: a fill is booked in the lot ledger and then seen by the
  tracker. The components share the kill engine, the lot ledger, the bus and the source of ids: they
  are one state here, and \<open>with_gate\<close>, \<open>with_planner\<close> and \<open>with_tracker\<close> run an operation of a component on
  its part. The bus runs the handlers of a fill inside the operation of the OMS that publishes it;
  as they touch nothing the OMS reads, they are run after the operation, in the order of the events.
  What the outside answers -- broker, Manager, marks, account -- and the wording of a veto are in the environment.
\<close>

datatype review = Approve | Veto | Downsize "decimal option option"

datatype guard_veto = Buying_power | Buying_power_zero | Leverage_cap

datatype outcome = Gate_veto veto | Manager_veto | Plan_drop plan_reject | Guard_veto guard_veto | Submit_error | Dispatch_error

record app =
  ap_kill :: kill_engine
  ap_wash :: "wash_record list"
  ap_lots :: ledger
  ap_activity :: "letf_record list"
  ap_records :: "(agent_id, agent_rec) dict"
  ap_tracker_db :: "tracker_row list option"
  ap_starting :: decimal
  ap_drops :: planner
  ap_oms :: oms
  ap_outcomes :: "(intent_id \<times> agent_id \<times> outcome) list"
  ap_fingerprint :: "(agent_id, string) dict"

record dispatch_env =
  de_gross :: decimal
  de_snapshot :: market_snapshot
  de_weights :: weights_file
  de_mc :: decimal
  de_now :: datetime
  de_account :: "exn + broker_account"
  de_reply :: "order \<Rightarrow> order_event_msg list \<times> (exn + string)"
  de_risk_check :: "intent \<Rightarrow> exn + review"
  de_risk_check_lite :: "intent \<Rightarrow> exn + review"
  de_spend :: "spend_entry list"
  de_veto_text :: "veto \<Rightarrow> string"

type_synonym 'a disp = "(app, 'a) eff"

definition announce :: "bus_event \<Rightarrow> app \<Rightarrow> app" where
  "announce e ap = ap\<lparr>ap_oms := (ap_oms ap)\<lparr>om_bus := om_bus (ap_oms ap) @ [e]\<rparr>\<rparr>"

definition record_outcome :: "intent \<Rightarrow> outcome \<Rightarrow> app \<Rightarrow> app" where
  "record_outcome i oc ap = ap\<lparr>ap_outcomes := ap_outcomes ap @ [(i_id i, i_agent_id i, oc)]\<rparr>"

definition gate_of :: "app \<Rightarrow> risk_gate" where
  "gate_of ap = \<lparr>rg_kill = ap_kill ap, rg_wash = ap_wash ap, rg_lots = ap_lots ap,
     rg_bus = Some (om_bus (ap_oms ap)), rg_activity = ap_activity ap\<rparr>"

definition with_gate :: "(risk_gate \<Rightarrow> 'a \<times> risk_gate) \<Rightarrow> app \<Rightarrow> 'a \<times> app" where
  "with_gate f ap = (case f (gate_of ap) of (x, g) \<Rightarrow>
     (x, ap\<lparr>ap_kill := rg_kill g, ap_oms := (ap_oms ap)\<lparr>om_bus := the (rg_bus g)\<rparr>, ap_activity := rg_activity g\<rparr>))"

definition tracker_of :: "app \<Rightarrow> tracker" where
  "tracker_of ap = \<lparr>tk_records = ap_records ap, tk_db = ap_tracker_db ap, tk_bus = Some (om_bus (ap_oms ap)),
     tk_kill = ap_kill ap, tk_ledger = ap_lots ap, tk_starting = ap_starting ap\<rparr>"

definition with_tracker :: "'a tk \<Rightarrow> app \<Rightarrow> (exn + 'a) \<times> app" where
  "with_tracker f ap = (case f (tracker_of ap) of (x, t) \<Rightarrow>
     (x, ap\<lparr>ap_kill := tk_kill t, ap_records := tk_records t, ap_tracker_db := tk_db t,
            ap_oms := (ap_oms ap)\<lparr>om_bus := the (tk_bus t)\<rparr>\<rparr>))"

definition with_planner :: "(planner \<Rightarrow> 'a \<times> planner) \<Rightarrow> app \<Rightarrow> 'a \<times> app" where
  "with_planner f ap = (case f ((ap_drops ap)\<lparr>pl_bus := om_bus (ap_oms ap), pl_fresh := om_fresh (ap_oms ap)\<rparr>) of (x, p) \<Rightarrow>
     (x, ap\<lparr>ap_drops := p, ap_oms := (ap_oms ap)\<lparr>om_bus := pl_bus p, om_fresh := pl_fresh p\<rparr>\<rparr>))"

subsection \<open>Fills\<close>

definition on_fill_received :: "fill \<Rightarrow> datetime \<Rightarrow> app \<Rightarrow> app" where
  "on_fill_received f now ap =
     snd (with_tracker (update_on_fill f now) (ap\<lparr>ap_lots := book_fill f FIFO (ap_lots ap)\<rparr>))"

definition published_fills :: "bus_event list \<Rightarrow> fill list" where
  "published_fills es = List.map_filter (\<lambda>e. case e of FillReceived f \<Rightarrow> Some f | _ \<Rightarrow> None) es"

definition with_oms :: "'a oms_eff \<Rightarrow> datetime \<Rightarrow> app \<Rightarrow> (exn + 'a) \<times> app" where
  "with_oms f now ap = (case f (ap_oms ap) of (x, s) \<Rightarrow>
     (x, foldl (\<lambda>a f. on_fill_received f now a) (ap\<lparr>ap_oms := s\<rparr>)
           (published_fills (drop (length (om_bus (ap_oms ap))) (om_bus s)))))"

subsection \<open>The account guards\<close>

definition account_leverage_cap :: decimal where "account_leverage_cap = 15 / 10"
definition buying_power_cap :: decimal where "buying_power_cap = 9 / 10"

definition account_level_pre_check :: "order \<Rightarrow> market_snapshot \<Rightarrow> exn + broker_account \<Rightarrow> guard_veto option" where
  "account_level_pre_check ord ms account =
     (if o_side ord \<noteq> BUY then None
      else (case (account, mark_of ms (normalize_symbol (o_symbol ord))) of
              (Inr acc, Some m) \<Rightarrow>
                (let notional = dmul (o_qty ord) m in
                 if 0 < ba_buying_power acc \<and> dmul buying_power_cap (ba_buying_power acc) < notional then Some Buying_power
                 else if ba_buying_power acc \<le> 0 \<and> 0 < notional then Some Buying_power_zero
                 else if 0 < ba_equity acc
                         \<and> account_leverage_cap < ddiv (dadd (dsub (ba_equity acc) (ba_cash acc)) notional) (ba_equity acc)
                      then Some Leverage_cap
                 else None)
            | _ \<Rightarrow> None))"

subsection \<open>The review by the Manager\<close>

definition conviction_min :: int where "conviction_min = 9"
definition target_weight_min :: decimal where "target_weight_min = 8 / 100"
definition opus_daily_ceiling :: nat where "opus_daily_ceiling = 2"

definition risk_check_count :: "spend_entry list \<Rightarrow> nat" where
  "risk_check_count es = length (filter (\<lambda>e. se_call_type e = ''risk_check'') es)"

definition manager_risk_check :: "dispatch_env \<Rightarrow> intent \<Rightarrow> app \<Rightarrow> intent option \<times> app" where
  "manager_risk_check env i ap =
     (if i_conviction i < conviction_min \<or> i_target_weight i < target_weight_min then (Some i, ap)
      else (case (if risk_check_count (de_spend env) < opus_daily_ceiling then de_risk_check env i else de_risk_check_lite env i) of
              Inl _ \<Rightarrow> (Some i, ap)
            | Inr Veto \<Rightarrow>
                (None, record_outcome i Manager_veto (announce (IntentRejected (i_id i) ''vetoed:manager_risk_check'') ap))
            | Inr (Downsize (Some (Some w))) \<Rightarrow> (Some (i\<lparr>i_target_weight := w\<rparr>), ap)
            | Inr _ \<Rightarrow> (Some i, ap)))"

subsection \<open>One intent\<close>

text \<open>The gate is asked with no positions, as the application does.\<close>

definition evaluate_with_risk_gate :: "dispatch_env \<Rightarrow> intent \<Rightarrow> agent_state \<Rightarrow> app \<Rightarrow> risk_decision \<times> app" where
  "evaluate_with_risk_gate env i s ap =
     with_gate (check_intent i s (de_gross env) [] (ms_timestamp (de_snapshot env))) ap"

definition plan_env_of :: "dispatch_env \<Rightarrow> app \<Rightarrow> plan_env" where
  "plan_env_of env ap = \<lparr>pe_ledger = ap_lots ap, pe_weights = de_weights env, pe_mc = de_mc env, pe_now = de_now env\<rparr>"

text \<open>Everything up to the order: \<open>None\<close> when the intent is stopped.\<close>

definition plan_and_guard :: "dispatch_env \<Rightarrow> intent \<Rightarrow> agent_state \<Rightarrow> order option disp" where
  "plan_and_guard env i s ap =
     (case with_planner (plan (plan_env_of env ap) i s (de_snapshot env)) ap of
        (Inl e, ap') \<Rightarrow> (Inl e, ap')
      | (Inr (Inl r), ap') \<Rightarrow> (Inr None, record_outcome i (Plan_drop r) ap')
      | (Inr (Inr ord), ap') \<Rightarrow>
          (case account_level_pre_check ord (de_snapshot env) (de_account env) of
             Some v \<Rightarrow> (Inr None, record_outcome i (Guard_veto v) ap')
           | None \<Rightarrow> (Inr (Some ord), ap')))"

definition route_intent :: "dispatch_env \<Rightarrow> intent \<Rightarrow> order option disp" where
  "route_intent env i = andthen (with_tracker (get_state (i_agent_id i) (de_now env))) (\<lambda>s ap.
     case evaluate_with_risk_gate env i s (announce (IntentSubmitted i) ap) of
       (d, ap1) \<Rightarrow>
         if \<not> rd_allowed d
         then (Inr None, record_outcome i (Gate_veto (the (rd_veto d)))
                 (announce (IntentRejected (i_id i) (de_veto_text env (the (rd_veto d)))) ap1))
         else (case manager_risk_check env i (announce (IntentApproved (i_id i)) ap1) of
                 (None, ap2) \<Rightarrow> (Inr None, ap2)
               | (Some i', ap2) \<Rightarrow> plan_and_guard env i' s ap2))"

definition submit_one_intent :: "dispatch_env \<Rightarrow> intent \<Rightarrow> bool disp" where
  "submit_one_intent env i = andthen (route_intent env i) (\<lambda>res ap. case res of
       None \<Rightarrow> (Inr False, ap)
     | Some ord \<Rightarrow> (case with_oms (submit_order (de_reply env) ord) (de_now env) ap of
           (Inl _, ap') \<Rightarrow> (Inr False, record_outcome i Submit_error ap')
         | (Inr _, ap') \<Rightarrow> (Inr True, ap')))"

subsection \<open>One observation\<close>

definition dispatch_intent :: "dispatch_env \<Rightarrow> intent list \<times> app \<Rightarrow> intent \<Rightarrow> intent list \<times> app" where
  "dispatch_intent env acc i = (case acc of (accepted, ap) \<Rightarrow>
     (case submit_one_intent env i ap of
        (Inl _, ap') \<Rightarrow> (accepted, record_outcome i Dispatch_error ap')
      | (Inr b, ap') \<Rightarrow> (if b then accepted @ [i] else accepted, ap')))"

definition dispatch_observation ::
  "agent_id \<Rightarrow> string option \<Rightarrow> exn + intent list \<Rightarrow> dispatch_env \<Rightarrow> app \<Rightarrow> (exn + intent list) \<times> app" where
  "dispatch_observation a fp observed env ap =
     (if ks_state (ap_kill ap) = BUDGET_EXHAUSTED \<and> a \<noteq> HAIKU then (Inr [], ap)
      else (case with_tracker (update_on_mark a (ms_current_prices (de_snapshot env)) (de_now env)) ap of
              (Inl e, ap1) \<Rightarrow> (Inl e, ap1)
            | (Inr _, ap1) \<Rightarrow>
                if fp \<noteq> None \<and> dict_get (ap_fingerprint ap1) a = fp then (Inr [], ap1)
                else (case observed of
                        Inl _ \<Rightarrow> (Inr [], ap1)
                      | Inr intents \<Rightarrow>
                          (let ap2 = (case fp of None \<Rightarrow> ap1 | Some x \<Rightarrow> ap1\<lparr>ap_fingerprint := dict_set a x (ap_fingerprint ap1)\<rparr>)
                           in case foldl (dispatch_intent env) ([], ap2) intents of (acc, ap3) \<Rightarrow> (Inr acc, ap3)))))"

subsection \<open>What a routed order has passed\<close>

lemma entry_policy_cong:
  "rg_kill g = rg_kill h \<Longrightarrow> rg_wash g = rg_wash h \<Longrightarrow> rg_lots g = rg_lots h \<Longrightarrow> rg_activity g = rg_activity h \<Longrightarrow>
   entry_policy i s ts g = entry_policy i s ts h"
  by (simp add: entry_policy_def)

lemma announce_frame [simp]:
  "ap_kill (announce e ap) = ap_kill ap" "ap_wash (announce e ap) = ap_wash ap" "ap_lots (announce e ap) = ap_lots ap"
  "ap_activity (announce e ap) = ap_activity ap" "ap_records (announce e ap) = ap_records ap"
  by (simp_all add: announce_def)

lemma record_outcome_frame [simp]: "ap_lots (record_outcome i oc ap) = ap_lots ap"
  by (simp add: record_outcome_def)

definition current_state :: "dispatch_env \<Rightarrow> agent_id \<Rightarrow> app \<Rightarrow> agent_state option" where
  "current_state env a ap = map_option (\<lambda>r. state_of_rec a (expire_bench (de_now env) r)) (dict_get (ap_records ap) a)"

lemma get_state_app:
  assumes "with_tracker (get_state a (de_now env)) ap = (Inr s, ap')"
  shows "current_state env a ap = Some s" "ap_kill ap' = ap_kill ap" "ap_wash ap' = ap_wash ap" "ap_lots ap' = ap_lots ap"
    "ap_activity ap' = ap_activity ap"
  using assms by (auto simp: with_tracker_def get_state_def tracker_of_def current_state_def put_rec_def split: option.splits)

lemma review_cases:
  assumes "manager_risk_check env i ap = (Some i', ap')"
  shows "(i' = i \<or> (\<exists>w. i' = i\<lparr>i_target_weight := w\<rparr>)) \<and> ap' = ap"
  using assms by (auto simp: manager_risk_check_def split: if_splits sum.splits review.splits option.splits)

lemma routeD:
  assumes "fst (route_intent env i ap) = Inr (Some ord)"
  obtains s i' p g where "current_state env (i_agent_id i) ap = Some s"
    "rd_allowed (fst (check_intent i s (de_gross env) [] (ms_timestamp (de_snapshot env)) g))"
    "rg_kill g = ap_kill ap" "rg_wash g = ap_wash ap" "rg_lots g = ap_lots ap" "rg_activity g = ap_activity ap"
    "i' = i \<or> (\<exists>w. i' = i\<lparr>i_target_weight := w\<rparr>)"
    "fst (plan (plan_env_of env ap) i' s (de_snapshot env) p) = Inr (Inr ord)"
    "account_level_pre_check ord (de_snapshot env) (de_account env) = None"
proof -
  from assms obtain s ap1 where s: "with_tracker (get_state (i_agent_id i) (de_now env)) ap = (Inr s, ap1)"
    by (auto simp: route_intent_def andthen_def split: prod.splits sum.splits)
  note frame = get_state_app [OF s]
  let ?ap = "announce (IntentSubmitted i) ap1"
  obtain d g' where c: "check_intent i s (de_gross env) [] (ms_timestamp (de_snapshot env)) (gate_of ?ap) = (d, g')" by fastforce
  define ap2 where "ap2 = ?ap\<lparr>ap_kill := rg_kill g', ap_oms := (ap_oms ?ap)\<lparr>om_bus := the (rg_bus g')\<rparr>, ap_activity := rg_activity g'\<rparr>"
  have e: "evaluate_with_risk_gate env i s ?ap = (d, ap2)"
    by (simp add: evaluate_with_risk_gate_def with_gate_def c ap2_def)
  from assms s e have d: "rd_allowed d" by (auto simp: route_intent_def andthen_def split: if_splits)
  then obtain i' ap3 where r: "manager_risk_check env i (announce (IntentApproved (i_id i)) ap2) = (Some i', ap3)"
    and p: "fst (plan_and_guard env i' s ap3) = Inr (Some ord)"
    using assms s e by (auto simp: route_intent_def andthen_def split: prod.splits option.splits)
  note rc = review_cases [OF r]
  have lots: "ap_lots ap3 = ap_lots ap" using rc frame by (simp add: ap2_def)
  then have pe: "plan_env_of env ap3 = plan_env_of env ap" by (simp add: plan_env_of_def)
  let ?pl = "(ap_drops ap3)\<lparr>pl_bus := om_bus (ap_oms ap3), pl_fresh := om_fresh (ap_oms ap3)\<rparr>"
  from p have pl: "fst (plan (plan_env_of env ap) i' s (de_snapshot env) ?pl) = Inr (Inr ord)"
      "account_level_pre_check ord (de_snapshot env) (de_account env) = None"
    by (auto simp: plan_and_guard_def with_planner_def pe split: prod.splits sum.splits option.splits)
  show thesis
    by (rule that [OF frame(1) _ _ _ _ _ _ pl, of "gate_of ?ap"])
      (use c d frame rc in \<open>simp_all add: gate_of_def\<close>)
qed

lemma closing_plans_sell:
  assumes "fst (plan env i s ms p) = Inr (Inr ord)" "closes_pos (i_action i)"
  shows "o_side ord = SELL"
proof -
  have "plan env i s ms p = (Inr (Inr ord), snd (plan env i s ms p))" using assms(1) by (simp add: prod_eq_iff)
  then show ?thesis
  proof (cases rule: planD)
    case close
    then show ?thesis using plan_closeD(1) by blast
  next
    case (sized z)
    then have "i_action i = SELL_ACT" using assms(2) by (auto simp: action_kinds)
    from sized(2) show ?thesis
      by (rule plan_sizedD) (use \<open>i_action i = SELL_ACT\<close> in \<open>simp add: side_for_def action_kinds\<close>)
  qed
qed

lemma guard_passed:
  assumes "account_level_pre_check ord ms (Inr acc) = None" "o_side ord = BUY"
    and "mark_of ms (normalize_symbol (o_symbol ord)) = Some m"
  shows "(0 < dmul (o_qty ord) m \<longrightarrow> 0 < ba_buying_power acc \<and> dmul (o_qty ord) m \<le> dmul (9 / 10) (ba_buying_power acc))
    \<and> (0 < ba_equity acc \<longrightarrow>
         ddiv (dadd (dsub (ba_equity acc) (ba_cash acc)) (dmul (o_qty ord) m)) (ba_equity acc) \<le> 15 / 10)"
  using assms by (auto simp: account_level_pre_check_def Let_def buying_power_cap_def account_leverage_cap_def not_less
      split: if_splits)


text \<open>How the examples reach the OMS.\<close>

lemma route_intro:
  assumes s: "current_state env (i_agent_id i) ap = Some s" and "i_conviction i < 9"
    and allowed: "\<And>g. rg_kill g = ap_kill ap \<Longrightarrow> rg_wash g = ap_wash ap \<Longrightarrow> rg_lots g = ap_lots ap \<Longrightarrow> rg_activity g = ap_activity ap \<Longrightarrow>
      rd_allowed (fst (check_intent i s (de_gross env) [] (ms_timestamp (de_snapshot env)) g))"
    and plan: "\<And>p. \<exists>ord. fst (plan (plan_env_of env ap) i s (de_snapshot env) p) = Inr (Inr ord) \<and> P ord
      \<and> account_level_pre_check ord (de_snapshot env) (de_account env) = None"
  shows "\<exists>ord. fst (route_intent env i ap) = Inr (Some ord) \<and> P ord"
proof -
  from s obtain r where "dict_get (ap_records ap) (i_agent_id i) = Some r" "s = state_of_rec (i_agent_id i) (expire_bench (de_now env) r)"
    by (auto simp: current_state_def)
  then obtain ap1 where t: "with_tracker (get_state (i_agent_id i) (de_now env)) ap = (Inr s, ap1)"
    by (auto simp: with_tracker_def get_state_def tracker_of_def)
  note frame = get_state_app [OF t]
  let ?ap = "announce (IntentSubmitted i) ap1"
  obtain d g' where c: "check_intent i s (de_gross env) [] (ms_timestamp (de_snapshot env)) (gate_of ?ap) = (d, g')" by fastforce
  then have d: "rd_allowed d" using allowed [of "gate_of ?ap"] frame by (simp add: gate_of_def)
  define ap2 where "ap2 = announce (IntentApproved (i_id i))
    (?ap\<lparr>ap_kill := rg_kill g', ap_oms := (ap_oms ?ap)\<lparr>om_bus := the (rg_bus g')\<rparr>, ap_activity := rg_activity g'\<rparr>)"
  have pe: "plan_env_of env ap2 = plan_env_of env ap" using frame by (simp add: plan_env_of_def ap2_def)
  let ?pl = "(ap_drops ap2)\<lparr>pl_bus := om_bus (ap_oms ap2), pl_fresh := om_fresh (ap_oms ap2)\<rparr>"
  from plan [of ?pl] obtain ord where o: "fst (plan (plan_env_of env ap2) i s (de_snapshot env) ?pl) = Inr (Inr ord)" "P ord"
    "account_level_pre_check ord (de_snapshot env) (de_account env) = None" by (auto simp: pe)
  then have "fst (plan_and_guard env i s ap2) = Inr (Some ord)"
    by (auto simp: plan_and_guard_def with_planner_def split: prod.splits)
  moreover have "fst (route_intent env i ap) = fst (plan_and_guard env i s ap2)"
    using assms(2) d
    by (simp add: route_intent_def andthen_def t evaluate_with_risk_gate_def with_gate_def c manager_risk_check_def
        conviction_min_def ap2_def)
  ultimately show ?thesis using o(2) by auto
qed

definition sample_app :: "kill_engine \<Rightarrow> ledger \<Rightarrow> app" where
  "sample_app k g = \<lparr>ap_kill = k, ap_wash = [], ap_lots = g, ap_activity = [], ap_records = initial_records 1000,
     ap_tracker_db = None, ap_starting = 1000, ap_drops = new_planner 0, ap_oms = new_oms [] 0 0, ap_outcomes = [], ap_fingerprint = []\<rparr>"

definition sample_dispatch :: dispatch_env where
  "sample_dispatch = \<lparr>de_gross = 1, de_snapshot = sample_market, de_weights = No_weights, de_mc = 1, de_now = 0,
     de_account = Inr \<lparr>ba_cash = 1000, ba_equity = 1000, ba_buying_power = 1000, ba_pattern_day_trader = False, ba_daytrade_count = 0\<rparr>,
     de_reply = (\<lambda>_. ([], Inl BrokerUnavailable)), de_risk_check = (\<lambda>_. Inl ValueError), de_risk_check_lite = (\<lambda>_. Inl ValueError),
     de_spend = [], de_veto_text = (\<lambda>_. [])\<rparr>"

lemma sample_dispatch_fields [simp]:
  "de_snapshot sample_dispatch = sample_market" "de_gross sample_dispatch = 1" "de_account sample_dispatch =
     Inr \<lparr>ba_cash = 1000, ba_equity = 1000, ba_buying_power = 1000, ba_pattern_day_trader = False, ba_daytrade_count = 0\<rparr>"
  by (simp_all add: sample_dispatch_def)

lemma sample_app_state:
  "current_state sample_dispatch a (sample_app k g) = Some (state_of_rec a (fresh_rec 1000))"
  by (cases a) (simp_all add: current_state_def sample_app_def initial_records_def all_agents_def expire_bench_def fresh_rec_def)

lemma sample_app_env: "plan_env_of sample_dispatch (sample_app k g) = sample_env g"
  by (simp add: plan_env_of_def sample_dispatch_def sample_app_def sample_env_def)

lemma sample_close_routed:
  "\<exists>ord. fst (route_intent sample_dispatch ((sample_intent ''SPY'' CLOSE_ACT EQUITY_SLEEVE 0)\<lparr>i_agent_id := SONNET\<rparr>)
     (sample_app ((new_engine 60)\<lparr>ks_state := DRAWDOWN_LIQUIDATE\<rparr>) sample_book)) = Inr (Some ord) \<and> True"
proof (rule route_intro [where s = "state_of_rec SONNET (fresh_rec 1000)"])
  fix p
  from sample_close [of "state_of_rec SONNET (fresh_rec 1000)" p] obtain ord where
    "fst (plan (sample_env sample_book) ((sample_intent ''SPY'' CLOSE_ACT EQUITY_SLEEVE 0)\<lparr>i_agent_id := SONNET\<rparr>)
       (state_of_rec SONNET (fresh_rec 1000)) sample_market p) = Inr (Inr ord)" "o_side ord = SELL" by blast
  then show "\<exists>ord. fst (plan (plan_env_of sample_dispatch (sample_app ((new_engine 60)\<lparr>ks_state := DRAWDOWN_LIQUIDATE\<rparr>) sample_book))
       ((sample_intent ''SPY'' CLOSE_ACT EQUITY_SLEEVE 0)\<lparr>i_agent_id := SONNET\<rparr>)
       (state_of_rec SONNET (fresh_rec 1000)) (de_snapshot sample_dispatch) p) = Inr (Inr ord) \<and> True
     \<and> account_level_pre_check ord (de_snapshot sample_dispatch) (de_account sample_dispatch) = None"
    by (intro exI [of _ ord]) (simp add: sample_app_env account_level_pre_check_def)
next
  fix g :: risk_gate
  assume "rg_kill g = ap_kill (sample_app ((new_engine 60)\<lparr>ks_state := DRAWDOWN_LIQUIDATE\<rparr>) sample_book)"
  then show "rd_allowed (fst (check_intent ((sample_intent ''SPY'' CLOSE_ACT EQUITY_SLEEVE 0)\<lparr>i_agent_id := SONNET\<rparr>)
     (state_of_rec SONNET (fresh_rec 1000)) (de_gross sample_dispatch) [] (ms_timestamp (de_snapshot sample_dispatch)) g))"
    by (subst closing_allowed_iff) (simp_all add: sample_intent_def action_kinds sample_app_def new_engine_def)
qed (simp_all add: sample_app_state sample_intent_def)

lemma sample_buy_routed:
  "\<exists>ord. fst (route_intent sample_dispatch (sample_intent ''SPY'' BUY_ACT EQUITY_SLEEVE (1 / 10))
     (sample_app (new_engine 60) (empty_ledger None))) = Inr (Some ord) \<and> o_side ord = BUY"
proof (rule route_intro [where s = "state_of_rec OPUS (fresh_rec 1000)"])
  fix p
  from sample_buy [of "state_of_rec OPUS (fresh_rec 1000)" p] obtain ord where
    "fst (plan (sample_env (empty_ledger None)) (sample_intent ''SPY'' BUY_ACT EQUITY_SLEEVE (1 / 10))
       (state_of_rec OPUS (fresh_rec 1000)) sample_market p) = Inr (Inr ord)" "o_side ord = BUY" "o_symbol ord = ''SPY''" "o_qty ord = 2"
    by (auto simp: state_of_rec_def fresh_rec_def)
  then show "\<exists>ord. fst (plan (plan_env_of sample_dispatch (sample_app (new_engine 60) (empty_ledger None)))
       (sample_intent ''SPY'' BUY_ACT EQUITY_SLEEVE (1 / 10)) (state_of_rec OPUS (fresh_rec 1000)) (de_snapshot sample_dispatch) p)
         = Inr (Inr ord) \<and> o_side ord = BUY
     \<and> account_level_pre_check ord (de_snapshot sample_dispatch) (de_account sample_dispatch) = None"
    by (intro exI [of _ ord]) (simp add: sample_app_env account_level_pre_check_def Let_def sample_mark plain_spy
        buying_power_cap_def account_leverage_cap_def dec_eval)
next
  fix g :: risk_gate
  assume "rg_kill g = ap_kill (sample_app (new_engine 60) (empty_ledger None))"
    "rg_wash g = ap_wash (sample_app (new_engine 60) (empty_ledger None))"
  then show "rd_allowed (fst (check_intent (sample_intent ''SPY'' BUY_ACT EQUITY_SLEEVE (1 / 10))
     (state_of_rec OPUS (fresh_rec 1000)) (de_gross sample_dispatch) [] (ms_timestamp (de_snapshot sample_dispatch)) g))"
    by (subst opening_allowed_iff)
      (simp_all add: action_kinds entry_policy_def sample_app_def new_engine_def can_open_new_def blocks_new_entries_def
        letf_whitelist_def state_of_rec_def fresh_rec_def size_check_iff sample_dispatch_def)
qed (simp_all add: sample_app_state, simp add: sample_intent_def)

subsection \<open>Properties\<close>

text \<open>
  C2 While the kill switch blocks new entries, every order that the route of an agent's intent
  (\<^verbatim>\<open>app.py\<close> \<open>_route_intent\<close>) hands to the OMS is a sale, and if the intent has no option legs it is for at
  most what the agent holds -- whatever the agent, the Manager, the market and the account say. The one
  order that does not take this route is the Manager's reserve purchase (\<open>Jobs\<close>), which the switch does not stop.
\<close>

theorem blocked_switch_only_sells:
  assumes "\<not> can_open_new (ap_kill ap)" "fst (route_intent env i ap) = Inr (Some ord)"
  shows "o_side ord = SELL
    \<and> (i_legs i = [] \<longrightarrow> 0 < o_qty ord
         \<and> o_qty ord \<le> total_open_qty (i_agent_id i) (normalize_symbol (i_symbol i)) (ap_lots ap))"
proof -
  from assms(2) obtain s i' p g where r:
    "rd_allowed (fst (check_intent i s (de_gross env) [] (ms_timestamp (de_snapshot env)) g))" "rg_kill g = ap_kill ap"
    "i' = i \<or> (\<exists>w. i' = i\<lparr>i_target_weight := w\<rparr>)" "fst (plan (plan_env_of env ap) i' s (de_snapshot env) p) = Inr (Inr ord)"
    by (rule routeD)
  have "closes_pos (i_action i)"
  proof (rule ccontr)
    assume "\<not> closes_pos (i_action i)"
    then have "opens_pos (i_action i)" by (simp add: not_both_kinds)
    from opening_allowed_iff [OF this] r(1,2) assms(1) show False by (simp add: entry_policy_def)
  qed
  then have c: "closes_pos (i_action i')" "i_legs i' = i_legs i" "i_agent_id i' = i_agent_id i" "i_symbol i' = i_symbol i"
    using r(3) by auto
  have sell: "o_side ord = SELL" by (rule closing_plans_sell [OF r(4) c(1)])
  have "i_action i' \<noteq> REBALANCE_TO" using c(1) by (auto simp: action_kinds)
  with planned_qty_covered [OF r(4) sell] c sell show ?thesis by (auto simp: held_qty_def plan_env_of_def)
qed

theorem blocked_switch_only_sells_witness:
  "\<exists>ord. fst (route_intent sample_dispatch ((sample_intent ''SPY'' CLOSE_ACT EQUITY_SLEEVE 0)\<lparr>i_agent_id := SONNET\<rparr>)
     (sample_app ((new_engine 60)\<lparr>ks_state := DRAWDOWN_LIQUIDATE\<rparr>) sample_book)) = Inr (Some ord) \<and> o_side ord = SELL"
proof -
  let ?ap = "sample_app ((new_engine 60)\<lparr>ks_state := DRAWDOWN_LIQUIDATE\<rparr>) sample_book"
  have "\<not> can_open_new (ap_kill ?ap)" by (simp add: sample_app_def can_open_new_def blocks_new_entries_def)
  with sample_close_routed blocked_switch_only_sells [of ?ap sample_dispatch] show ?thesis by blast
qed

text \<open>
  C1 A purchase that the route of an agent's intent without option legs hands to the OMS has passed the entry
  policy of the risk gate for the state of its sleeve and the gross cap of the sleeve; and, when the account
  can be read, nine tenths of the buying power and a leverage of one and a half of the account. (If the account
  cannot be read these two limits are not checked. The Manager's reserve purchase does not take the route.)
\<close>

theorem routed_purchase_passes_all_limits:
  assumes "fst (route_intent env i ap) = Inr (Some ord)" "o_side ord = BUY" "i_legs i = []"
  shows "\<exists>s m z v. current_state env (i_agent_id i) ap = Some s
    \<and> entry_policy i s (ms_timestamp (de_snapshot env)) (gate_of ap)
    \<and> mark_of (de_snapshot env) (o_symbol ord) = Some m \<and> 1 \<le> v \<and> 0 < o_qty ord \<and> o_qty ord \<le> ddiv v m
    \<and> effective_max_gross (de_weights env) (i_agent_id i) (de_mc env) (ms_vix_bucket (de_snapshot env)) (as_drawdown_bucket s) = Inr z
    \<and> dadd (sleeve_gross_notional (i_agent_id i) (de_snapshot env) (ap_lots ap)) v \<le> dmul z (as_sleeve_equity s)
    \<and> (\<forall>acc. de_account env = Inr acc \<longrightarrow>
         0 < ba_buying_power acc \<and> dmul (o_qty ord) m \<le> dmul (9 / 10) (ba_buying_power acc)
         \<and> (0 < ba_equity acc \<longrightarrow>
              ddiv (dadd (dsub (ba_equity acc) (ba_cash acc)) (dmul (o_qty ord) m)) (ba_equity acc) \<le> 15 / 10))"
proof -
  from assms(1) obtain s i' p g where r: "current_state env (i_agent_id i) ap = Some s"
    "rd_allowed (fst (check_intent i s (de_gross env) [] (ms_timestamp (de_snapshot env)) g))"
    and g: "rg_kill g = ap_kill ap" "rg_wash g = ap_wash ap" "rg_lots g = ap_lots ap" "rg_activity g = ap_activity ap"
    and i': "i' = i \<or> (\<exists>w. i' = i\<lparr>i_target_weight := w\<rparr>)"
    and p: "fst (plan (plan_env_of env ap) i' s (de_snapshot env) p) = Inr (Inr ord)"
    and a: "account_level_pre_check ord (de_snapshot env) (de_account env) = None"
    by (rule routeD)
  have f: "i_action i' = i_action i" "i_legs i' = i_legs i" "i_agent_id i' = i_agent_id i" "i_symbol i' = i_symbol i"
    using i' by auto
  have "opens_pos (i_action i)"
    using closing_plans_sell [OF p] assms(2) f by (auto simp: not_both_kinds)
  from opening_allowed_iff [OF this] r(2) have "entry_policy i s (ms_timestamp (de_snapshot env)) g" by blast
  then have pol: "entry_policy i s (ms_timestamp (de_snapshot env)) (gate_of ap)"
    using entry_policy_cong [of g "gate_of ap"] g by (simp add: gate_of_def)
  obtain z m v where z: "size_intent (plan_env_of env ap) i' s (de_snapshot env) = Inr z"
    "mark_of (de_snapshot env) (o_symbol ord) = Some m" "1 \<le> v" "0 < o_qty ord" "o_qty ord \<le> ddiv v m"
    "dadd (sleeve_gross_notional (o_agent_id ord) (de_snapshot env) (ap_lots ap)) v \<le> sz_cap z"
    "o_agent_id ord = i_agent_id i" "normalize_symbol (o_symbol ord) = o_symbol ord"
    using purchase_within_cap [OF p assms(2)] f assms(3) by (fastforce simp: plan_env_of_def)
  obtain emg where emg: "effective_max_gross (de_weights env) (i_agent_id i) (de_mc env) (ms_vix_bucket (de_snapshot env)) (as_drawdown_bucket s) = Inr emg"
    "sz_cap z = dmul emg (as_sleeve_equity s)"
    using z(1) f by (auto simp: size_intent_def bindr_Inr_iff plan_env_of_def Let_def)
  have acc: "\<forall>acc. de_account env = Inr acc \<longrightarrow>
         0 < ba_buying_power acc \<and> dmul (o_qty ord) m \<le> dmul (9 / 10) (ba_buying_power acc)
         \<and> (0 < ba_equity acc \<longrightarrow>
              ddiv (dadd (dsub (ba_equity acc) (ba_cash acc)) (dmul (o_qty ord) m)) (ba_equity acc) \<le> 15 / 10)"
  proof (intro allI impI)
    fix acc
    assume "de_account env = Inr acc"
    moreover have "0 < dmul (o_qty ord) m" using z(4) mark_of_pos [OF z(2)] by (simp add: dmul_def)
    ultimately show "0 < ba_buying_power acc \<and> dmul (o_qty ord) m \<le> dmul (9 / 10) (ba_buying_power acc)
         \<and> (0 < ba_equity acc \<longrightarrow>
              ddiv (dadd (dsub (ba_equity acc) (ba_cash acc)) (dmul (o_qty ord) m)) (ba_equity acc) \<le> 15 / 10)"
      using guard_passed [of ord "de_snapshot env" acc m] a assms(2) z(2,8) by simp
  qed
  show ?thesis
    using r(1) pol z emg acc by (intro exI [of _ s] exI [of _ m] exI [of _ emg] exI [of _ v]) simp
qed


theorem routed_purchase_passes_all_limits_witness:
  "\<exists>ord. fst (route_intent sample_dispatch (sample_intent ''SPY'' BUY_ACT EQUITY_SLEEVE (1 / 10))
     (sample_app (new_engine 60) (empty_ledger None))) = Inr (Some ord) \<and> 0 < o_qty ord"
proof -
  obtain ord where o: "fst (route_intent sample_dispatch (sample_intent ''SPY'' BUY_ACT EQUITY_SLEEVE (1 / 10))
     (sample_app (new_engine 60) (empty_ledger None))) = Inr (Some ord)" "o_side ord = BUY"
    using sample_buy_routed by blast
  from routed_purchase_passes_all_limits [OF this] have "0 < o_qty ord" by auto
  with o(1) show ?thesis by blast
qed

end
