(* ===== verification/Signals.thy ===== *)
theory Signals
  imports Sizing Universes
begin

text \<open>
  The price signals: trend and momentum of \<^verbatim>\<open>agents/haiku_agent.py\<close> and
  \<^verbatim>\<open>agents/sonnet_agent.py\<close>, the rules-only strategies of \<^verbatim>\<open>backtest/strategies.py\<close> that
  are to see the same signals, and the market snapshot \<^verbatim>\<open>app.py\<close> derives from bars. Bars are a
  dict from symbols to lists; \<^verbatim>\<open>sorted\<close> is stable. The set of tradable symbols is iterated in
  an order Python does not fix: it is a parameter.
\<close>

record bar =
  b_symbol :: symbol
  b_timestamp :: datetime
  b_open :: decimal
  b_high :: decimal
  b_low :: decimal
  b_close :: decimal
  b_volume :: int
  b_vwap :: "decimal option"

type_synonym bars = "(symbol, bar list) dict"

subsection \<open>Averages and momentum\<close>

definition sma_period_equity :: nat where "sma_period_equity = 210"
definition sma_period_crypto :: nat where "sma_period_crypto = 50"
definition momentum_days :: nat where "momentum_days = 14"
definition momentum_lookback :: nat where "momentum_lookback = 252"
definition momentum_skip :: nat where "momentum_skip = 21"

definition sma :: "decimal list \<Rightarrow> nat \<Rightarrow> decimal option" where
  "sma closes period = (if length closes < period then None
     else Some (ddiv (dsum (drop (length closes - period) closes)) (of_nat period)))"

definition momentum :: "decimal list \<Rightarrow> nat \<Rightarrow> decimal option" where
  "momentum closes days =
     (if length closes < days + 1 \<or> closes ! (length closes - (days + 1)) = 0 then None
      else Some (dsub (ddiv (last closes) (closes ! (length closes - (days + 1)))) 1))"

definition price_momentum :: "decimal list \<Rightarrow> nat \<Rightarrow> nat \<Rightarrow> decimal option" where
  "price_momentum closes lookback skp =
     (if length closes < lookback + skp then None
      else (let entry = closes ! (length closes - (lookback + skp)); exit = closes ! (length closes - skp) in
            if entry = 0 then None else Some (dsub (ddiv exit entry) 1)))"

definition sorted_closes :: "bars \<Rightarrow> symbol \<Rightarrow> decimal list" where
  "sorted_closes bs s = map b_close (sort_key b_timestamp (dict_get_or bs s []))"

definition last_close :: "decimal list \<Rightarrow> decimal option" where
  "last_close closes = (if closes = [] then None else Some (last closes))"

subsection \<open>The trends Haiku sees\<close>

record trend =
  tn_last :: "decimal option"
  tn_sma :: "decimal option"
  tn_momentum :: "decimal option"
  tn_in :: bool

definition above :: "decimal option \<Rightarrow> decimal option \<Rightarrow> bool" where
  "above x y = (case (x, y) of (Some a, Some b) \<Rightarrow> b < a | _ \<Rightarrow> False)"

definition equity_trend :: "bars \<Rightarrow> symbol \<Rightarrow> trend" where
  "equity_trend bs s = (let closes = sorted_closes bs s; lst = last_close closes; avg = sma closes sma_period_equity in
     \<lparr>tn_last = lst, tn_sma = avg, tn_momentum = None, tn_in = above lst avg\<rparr>)"

definition crypto_trend :: "bars \<Rightarrow> symbol \<Rightarrow> trend" where
  "crypto_trend bs s = (let closes = sorted_closes bs s; lst = last_close closes;
       avg = sma closes sma_period_crypto; mom = momentum closes momentum_days in
     \<lparr>tn_last = lst, tn_sma = avg, tn_momentum = mom, tn_in = (above lst avg \<and> above mom (Some 0))\<rparr>)"

definition compute_equity_trend :: "bars \<Rightarrow> (symbol, trend) dict" where
  "compute_equity_trend bs = map (\<lambda>s. (s, equity_trend bs s)) haiku_etf_universe"

definition compute_crypto_trend :: "bars \<Rightarrow> (symbol, trend) dict" where
  "compute_crypto_trend bs = map (\<lambda>s. (s, crypto_trend bs s)) haiku_crypto_universe"

subsection \<open>The factor Sonnet sees\<close>

record factor =
  fc_last :: "decimal option"
  fc_momentum :: "decimal option"
  fc_bars :: nat

definition sonnet_tradable :: "symbol set" where
  "sonnet_tradable = set sonnet_equity_universe \<union> set growth_slice_universe"

definition factor_of :: "decimal list \<Rightarrow> factor" where
  "factor_of closes = \<lparr>fc_last = last_close closes,
     fc_momentum = price_momentum closes momentum_lookback momentum_skip, fc_bars = length closes\<rparr>"

definition compute_factor_signals :: "bars \<Rightarrow> (symbol, factor) dict" where
  "compute_factor_signals bs = map (\<lambda>(s, l). (s, factor_of (map b_close (sort_key b_timestamp l))))
     (filter (\<lambda>(s, l). s \<in> sonnet_tradable) bs)"

text \<open>The names with a momentum, highest first: \<^verbatim>\<open>sorted(..., reverse=True)\<close> keeps ties in order.\<close>

definition ranked :: "(symbol \<times> decimal) list \<Rightarrow> (symbol \<times> decimal) list" where
  "ranked xs = sort_key (\<lambda>x. - snd x) xs"

definition ranked_factors :: "bars \<Rightarrow> (symbol \<times> decimal) list" where
  "ranked_factors bs = ranked (List.map_filter (\<lambda>(s, d). map_option (Pair s) (fc_momentum d)) (compute_factor_signals bs))"

subsection \<open>The rules-only strategies\<close>

definition faber_in_trend :: "bars \<Rightarrow> symbol \<Rightarrow> bool" where
  "faber_in_trend bs s = (let closes = sorted_closes bs s in
     if closes = [] then False
     else if s \<in> set haiku_crypto_universe
     then above (Some (last closes)) (sma closes sma_period_crypto) \<and> above (momentum closes momentum_days) (Some 0)
     else above (Some (last closes)) (sma closes sma_period_equity))"

definition faber_universe :: "bool \<Rightarrow> symbol list" where
  "faber_universe crypto = (if crypto then haiku_etf_universe @ haiku_crypto_universe else haiku_etf_universe)"

definition faber_gtaa_weights :: "bool \<Rightarrow> bars \<Rightarrow> (symbol, decimal) dict" where
  "faber_gtaa_weights crypto bs =
     (let universe = faber_universe crypto; w = ddiv 1 (of_nat (length universe))
      in foldl (\<lambda>d s. if faber_in_trend bs s then dict_set s w d else d) [] universe)"

definition momentum_candidates :: "symbol list \<Rightarrow> bars \<Rightarrow> (symbol \<times> decimal) list" where
  "momentum_candidates order bs = List.map_filter
     (\<lambda>s. if dict_get_or bs s [] = [] then None
          else map_option (Pair s) (price_momentum (sorted_closes bs s) momentum_lookback momentum_skip)) order"

definition sonnet_momentum_weights :: "symbol list \<Rightarrow> nat \<Rightarrow> decimal \<Rightarrow> bars \<Rightarrow> (symbol, decimal) dict" where
  "sonnet_momentum_weights order top_n per_name bs =
     foldl (\<lambda>d x. dict_set (fst x) per_name d) [] (take top_n (ranked (momentum_candidates order bs)))"

subsection \<open>The market snapshot\<close>

definition daily_returns :: "bar list \<Rightarrow> decimal list" where
  "daily_returns bs = map (\<lambda>i. ddiv (dsub (b_close (bs ! i)) (b_close (bs ! (i - 1)))) (b_close (bs ! (i - 1))))
     (filter (\<lambda>i. 0 < b_close (bs ! (i - 1))) [max 1 (length bs - 30)..<length bs])"

definition annual_volatility :: "decimal list \<Rightarrow> exn + decimal" where
  "annual_volatility rs =
     (let n = of_nat (length rs); mean = ddiv (dsum rs) n;
          variance = ddiv (dsum (map (\<lambda>r. dmul (dsub r mean) (dsub r mean)) rs)) n
      in bindr (if 0 < variance then dsqrt variance else Inr 0)
           (\<lambda>daily. bindr (dsqrt 252) (\<lambda>y. Inr (max (dmul daily y) (8 / 100)))))"

definition add_symbol :: "exn + (symbol, decimal) dict \<times> (symbol, decimal) dict \<Rightarrow> symbol \<times> bar list
    \<Rightarrow> exn + (symbol, decimal) dict \<times> (symbol, decimal) dict" where
  "add_symbol acc sb = bindr acc (\<lambda>(prices, vols). case sb of (s, bs) \<Rightarrow>
     if bs = [] then Inr (prices, vols)
     else (let prices' = dict_set s (b_close (last bs)) prices; rs = daily_returns bs in
           if 2 \<le> length rs then bindr (annual_volatility rs) (\<lambda>v. Inr (prices', dict_set s v vols))
           else Inr (prices', vols)))"

definition build_market_snapshot :: "bars \<Rightarrow> decimal option \<Rightarrow> datetime \<Rightarrow> exn + market_snapshot" where
  "build_market_snapshot bs vix ts =
     bindr (foldl add_symbol (Inr ([], [])) bs) (\<lambda>(prices, vols).
       Inr \<lparr>ms_current_prices = prices, ms_realized_vol_30d = vols,
            ms_vix_bucket = classify_vix (case vix of None \<Rightarrow> 18 | Some v \<Rightarrow> if v = 0 then 18 else v), ms_timestamp = ts\<rparr>)"

subsection \<open>What the two sides see\<close>

lemma faber_in_trend_iff:
  "s \<in> set haiku_crypto_universe \<Longrightarrow> faber_in_trend bs s \<longleftrightarrow> tn_in (crypto_trend bs s)"
  "s \<notin> set haiku_crypto_universe \<Longrightarrow> faber_in_trend bs s \<longleftrightarrow> tn_in (equity_trend bs s)"
  by (auto simp: faber_in_trend_def crypto_trend_def equity_trend_def last_close_def above_def Let_def)

lemma universes_disjoint:
  "s \<in> set haiku_etf_universe \<Longrightarrow> s \<notin> set haiku_crypto_universe"
  "distinct haiku_etf_universe" "distinct haiku_crypto_universe"
  by (auto simp: haiku_etf_universe_def haiku_crypto_universe_def)

text \<open>Setting the keys that pass a test, one after the other.\<close>

lemma set_passing:
  "dict_get (foldl (\<lambda>d s. if P s then dict_set s w d else d) d xs) k
   = (if k \<in> set xs \<and> P k then Some w else dict_get d k)"
  by (induction xs arbitrary: d) auto

lemma set_passing_fresh:
  "distinct xs \<Longrightarrow> set xs \<inter> fst ` set d = {} \<Longrightarrow>
   foldl (\<lambda>d s. if P s then dict_set s w d else d) d xs = d @ map (\<lambda>s. (s, w)) (filter P xs)"
  by (induction xs arbitrary: d) (auto simp: dict_set_fresh)

lemma map_of_tabulate: "map_of (map (\<lambda>x. (x, f x)) xs) k = (if k \<in> set xs then Some (f k) else None)"
  by (induction xs) auto

lemma slice_weight:
  "ddiv 1 (of_nat (length (faber_universe crypto))) * of_nat (length (faber_universe crypto)) \<le> 1"
proof -
  have t: "dround (1 / 13) = 7692307692307692307692307692 / 10 ^ 29"
    using dround_eqI [of "- 2" "1 / 13" 7692307692307692307692307692] by (simp add: p10_def)
  show ?thesis
    by (cases crypto) (simp_all add: ddiv_def t dround_small faber_universe_def haiku_etf_universe_def haiku_crypto_universe_def)
qed

lemma weights_sum:
  "sum_list (map snd (faber_gtaa_weights crypto bs)) \<le> 1"
proof -
  let ?u = "faber_universe crypto" and ?w = "ddiv 1 (of_nat (length (faber_universe crypto)))"
  have "distinct ?u"
    using universes_disjoint by (auto simp: faber_universe_def)
  then have "faber_gtaa_weights crypto bs = map (\<lambda>s. (s, ?w)) (filter (faber_in_trend bs) ?u)"
    by (simp add: faber_gtaa_weights_def Let_def set_passing_fresh)
  then have "sum_list (map snd (faber_gtaa_weights crypto bs)) = of_nat (length (filter (faber_in_trend bs) ?u)) * ?w"
    by (simp add: sum_list_triv o_def)
  also have "\<dots> \<le> of_nat (length ?u) * ?w"
    by (intro mult_right_mono) (simp_all add: length_filter_le ddiv_def)
  finally show ?thesis
    using slice_weight [of crypto] by (simp add: mult.commute)
qed

text \<open>
  The rules-only baseline holds exactly the names that Haiku is told are in trend, each with one
  slice of the universe, and never more than the whole capital. The trends are the tables
  \<open>_compute_equity_trend\<close> and \<open>_compute_crypto_trend\<close> build for the prompt.
\<close>

lemma baseline_holds_what_haiku_sees:
  "dict_get (faber_gtaa_weights crypto bs) s =
     (case dict_get (compute_equity_trend bs @ (if crypto then compute_crypto_trend bs else [])) s of
        Some t \<Rightarrow> if tn_in t then Some (if crypto then ddiv 1 13 else ddiv 1 10) else None
      | None \<Rightarrow> None)
   \<and> sum_list (map snd (faber_gtaa_weights crypto bs)) \<le> 1"
proof -
  have n: "length haiku_etf_universe = 10" "length haiku_crypto_universe = 3"
    by (simp_all add: haiku_etf_universe_def haiku_crypto_universe_def)
  have "dict_get (faber_gtaa_weights crypto bs) s =
     (case dict_get (compute_equity_trend bs @ (if crypto then compute_crypto_trend bs else [])) s of
        Some t \<Rightarrow> if tn_in t then Some (if crypto then ddiv 1 13 else ddiv 1 10) else None | None \<Rightarrow> None)"
    using universes_disjoint(1) [of s] faber_in_trend_iff [of s bs]
    by (cases crypto) (auto simp: faber_gtaa_weights_def Let_def set_passing n faber_universe_def compute_equity_trend_def
        compute_crypto_trend_def map_of_tabulate map_add_def split: option.split)
  with weights_sum show ?thesis by blast
qed

subsection \<open>The ranking does not depend on the order of the names\<close>

text \<open>Sorting by a key that tells the elements apart depends on the elements only.\<close>

lemma filter_the_one: "distinct zs \<Longrightarrow> k \<in> set zs \<Longrightarrow> filter (\<lambda>x. x = k) zs = [k]"
  by (induction zs) (auto intro!: filter_False)

lemma sort_key_unique:
  assumes "distinct xs" "distinct ys" "set xs = set ys" "inj_on f (set xs)"
  shows "sort_key f xs = sort_key f ys"
proof (rule properties_for_sort_key)
  show "mset (sort_key f ys) = mset xs"
    using assms by (simp add: set_eq_iff_mset_eq_distinct [symmetric])
  show "sorted (map f (sort_key f ys))" by simp
  fix k assume k: "k \<in> set (sort_key f ys)"
  have single: "distinct zs \<Longrightarrow> inj_on f (set zs) \<Longrightarrow> k \<in> set zs \<Longrightarrow> filter (\<lambda>x. f k = f x) zs = [k]" for zs
  proof -
    assume a: "distinct zs" "inj_on f (set zs)" "k \<in> set zs"
    then have "filter (\<lambda>x. f k = f x) zs = filter (\<lambda>x. x = k) zs"
      by (intro filter_cong) (auto dest: inj_onD)
    with a show ?thesis by (simp add: filter_the_one)
  qed
  show "filter (\<lambda>x. f k = f x) (sort_key f ys) = filter (\<lambda>x. f k = f x) xs"
    using assms k by (subst (1 2) single) auto
qed

lemma map_filter_set: "set (List.map_filter f xs) = {y. \<exists>x\<in>set xs. f x = Some y}"
  by (force simp: List.map_filter_def)

lemma map_filter_distinct:
  "distinct (map g xs) \<Longrightarrow> (\<And>x y. f x = Some y \<Longrightarrow> h y = g x) \<Longrightarrow> distinct (map h (List.map_filter f xs))"
  by (induction xs) (force simp: map_filter_set List.map_filter_simps split: option.splits)+

definition has_momentum :: "bars \<Rightarrow> symbol \<Rightarrow> decimal \<Rightarrow> bool" where
  "has_momentum bs s m \<longleftrightarrow> s \<in> sonnet_tradable \<and> (\<exists>l. dict_get bs s = Some l \<and>
     price_momentum (map b_close (sort_key b_timestamp l)) momentum_lookback momentum_skip = Some m)"

lemma no_momentum_without_bars [simp]: "price_momentum [] momentum_lookback momentum_skip = None"
  by (simp add: price_momentum_def momentum_lookback_def)

lemma candidates_set:
  "set order = sonnet_tradable \<Longrightarrow> set (momentum_candidates order bs) = {(s, m). has_momentum bs s m}"
  by (fastforce simp: momentum_candidates_def map_filter_set has_momentum_def sorted_closes_def dict_get_or_def
      split: option.splits if_splits)

lemma factors_set:
  assumes "distinct (map fst bs)"
  shows "set (ranked_factors bs) = {(s, m). has_momentum bs s m}"
proof -
  have "set (ranked_factors bs) = {(s, m). \<exists>d. (s, d) \<in> set (compute_factor_signals bs) \<and> fc_momentum d = Some m}"
    by (force simp: ranked_factors_def ranked_def map_filter_set)
  also have "\<dots> = {(s, m). has_momentum bs s m}"
    using assms by (force simp: compute_factor_signals_def factor_of_def has_momentum_def dict_get_in_set [symmetric])
  finally show ?thesis .
qed

lemma momentum_candidates_distinct: "distinct order \<Longrightarrow> distinct (map fst (momentum_candidates order bs))"
  unfolding momentum_candidates_def by (rule map_filter_distinct [where g = "\<lambda>s. s"]) (auto split: if_splits)

lemma factors_distinct: "distinct (map fst bs) \<Longrightarrow> distinct (map fst (ranked_factors bs))"
proof -
  assume "distinct (map fst bs)"
  then have "distinct (map fst (compute_factor_signals bs))"
    by (simp add: compute_factor_signals_def o_def case_prod_unfold distinct_map_filter)
  then have "distinct (map fst (List.map_filter (\<lambda>(s, d). map_option (Pair s) (fc_momentum d)) (compute_factor_signals bs)))"
    by (rule map_filter_distinct) auto
  then show ?thesis
    by (simp add: ranked_factors_def ranked_def distinct_map)
qed

lemma ranked_candidates:
  assumes "distinct (map fst bs)" "distinct order" "set order = sonnet_tradable" "distinct (map snd (ranked_factors bs))"
  shows "ranked (momentum_candidates order bs) = ranked_factors bs"
proof -
  let ?fs = "ranked_factors bs"
  have same: "set (momentum_candidates order bs) = set ?fs"
    using assms by (simp add: candidates_set factors_set)
  have "distinct (momentum_candidates order bs)" "distinct ?fs"
    using momentum_candidates_distinct [OF assms(2)] factors_distinct [OF assms(1)] by (auto simp: distinct_map)
  moreover have "inj_on (\<lambda>x. - snd x) (set (momentum_candidates order bs))"
    using assms(4) same by (auto simp: distinct_map inj_on_def)
  ultimately have "ranked (momentum_candidates order bs) = ranked ?fs"
    unfolding ranked_def using same by (intro sort_key_unique)
  also have "\<dots> = ?fs"
    unfolding ranked_def ranked_factors_def by (rule sort_key_id_if_sorted) simp
  finally show ?thesis .
qed

lemma set_all_weights:
  "dict_get (foldl (\<lambda>d x. dict_set (fst x) w d) d xs) k = (if k \<in> fst ` set xs then Some w else dict_get d k)"
  by (induction xs arbitrary: d) auto

text \<open>
  The momentum baseline holds exactly the first names of the ranking Sonnet is shown, each with the
  weight per name, whenever no two momenta are equal: the order in which Python iterates over the set of
  tradable names then has no influence.
\<close>

lemma momentum_baseline_holds_sonnets_leaders:
  assumes "distinct (map fst bs)" "distinct order" "set order = sonnet_tradable" "distinct (map snd (ranked_factors bs))"
  shows "dict_get (sonnet_momentum_weights order n w bs) s
    = (if s \<in> set (take n (map fst (ranked_factors bs))) then Some w else None)"
  using ranked_candidates [OF assms]
  by (simp add: sonnet_momentum_weights_def set_all_weights take_map)

definition flat_bar :: "symbol \<Rightarrow> decimal \<Rightarrow> bar" where
  "flat_bar s c = \<lparr>b_symbol = s, b_timestamp = 0, b_open = c, b_high = c, b_low = c, b_close = c, b_volume = 1, b_vwap = None\<rparr>"

definition sample_series :: "symbol \<Rightarrow> decimal \<Rightarrow> decimal \<Rightarrow> bar list" where
  "sample_series s c d = flat_bar s c # replicate 272 (flat_bar s d)"

lemma sample_series_momentum:
  "price_momentum (map b_close (sort_key b_timestamp (sample_series s c d))) momentum_lookback momentum_skip
   = (if c = 0 then None else Some (dsub (ddiv d c) 1))"
proof -
  have "sort_key b_timestamp (sample_series s c d) = sample_series s c d"
    by (rule sort_key_id_if_sorted) (simp add: sample_series_def flat_bar_def sorted_replicate)
  then show ?thesis
    by (simp add: sample_series_def price_momentum_def momentum_lookback_def momentum_skip_def flat_bar_def Let_def nth_Cons')
qed

definition sample_bars :: "decimal \<Rightarrow> decimal \<Rightarrow> bars" where
  "sample_bars c d = [(''NVDA'', sample_series ''NVDA'' 1 c), (''AAPL'', sample_series ''AAPL'' 1 d), (''SPY'', [])]"

lemma sample_ranking:
  "ranked_factors (sample_bars c d) = ranked [(''NVDA'', dsub (dround c) 1), (''AAPL'', dsub (dround d) 1)]"
proof -
  have t: "''NVDA'' \<in> sonnet_tradable" "''AAPL'' \<in> sonnet_tradable" "''SPY'' \<notin> sonnet_tradable"
    by (auto simp: sonnet_tradable_def sonnet_equity_universe_def growth_slice_universe_def)
  show ?thesis
    by (simp add: ranked_factors_def compute_factor_signals_def sample_bars_def t factor_of_def sample_series_momentum
        List.map_filter_simps ddiv_def dround_idem)
qed

lemma momentum_baseline_holds_sonnets_leaders_example:
  "dict_get (sonnet_momentum_weights (sonnet_equity_universe @ growth_slice_universe) 1 (8 / 100) (sample_bars 2 3)) ''AAPL''
    = Some (8 / 100)
   \<and> dict_get (sonnet_momentum_weights (sonnet_equity_universe @ growth_slice_universe) 1 (8 / 100) (sample_bars 2 3)) ''NVDA'' = None"
proof -
  let ?order = "sonnet_equity_universe @ growth_slice_universe"
  have r: "ranked_factors (sample_bars 2 3) = [(''AAPL'', 2), (''NVDA'', 1)]"
    by (simp add: sample_ranking ranked_def dec_eval)
  have "distinct ?order"
    by (simp add: sonnet_equity_universe_def growth_slice_universe_def)
  moreover have "set ?order = sonnet_tradable" by (simp add: sonnet_tradable_def)
  ultimately have o: "distinct ?order" "set ?order = sonnet_tradable" "distinct (map fst (sample_bars 2 3))"
    by (simp_all add: sample_bars_def)
  show ?thesis
    using momentum_baseline_holds_sonnets_leaders [OF o(3) o(1,2), of 1 "8 / 100" "''AAPL''"]
      momentum_baseline_holds_sonnets_leaders [OF o(3) o(1,2), of 1 "8 / 100" "''NVDA''"] r by simp
qed

text \<open>With equal momenta the order of the set decides, and with it the seed of Python's string hash.\<close>

lemma ties_follow_the_set_order:
  "momentum_candidates [''NVDA'', ''AAPL''] (sample_bars 2 2) = [(''NVDA'', 1), (''AAPL'', 1)]"
  "sonnet_momentum_weights [''NVDA'', ''AAPL''] 1 w (sample_bars 2 2) = [(''NVDA'', w)]"
  "sonnet_momentum_weights [''AAPL'', ''NVDA''] 1 w (sample_bars 2 2) = [(''AAPL'', w)]"
proof -
  have b: "dict_get_or (sample_bars 2 2) s [] = (if s \<in> {''NVDA'', ''AAPL''} then sample_series s 1 2 else [])" for s
    by (auto simp: sample_bars_def dict_get_or_def)
  have m: "price_momentum (sorted_closes (sample_bars 2 2) s) momentum_lookback momentum_skip = Some 1"
    if "s \<in> {''NVDA'', ''AAPL''}" for s
    using that by (simp add: sorted_closes_def b sample_series_momentum dec_eval)
  have c: "momentum_candidates [''NVDA'', ''AAPL''] (sample_bars 2 2) = [(''NVDA'', 1), (''AAPL'', 1)]"
    "momentum_candidates [''AAPL'', ''NVDA''] (sample_bars 2 2) = [(''AAPL'', 1), (''NVDA'', 1)]"
    by (simp_all add: momentum_candidates_def b m List.map_filter_simps sample_series_def)
  show "momentum_candidates [''NVDA'', ''AAPL''] (sample_bars 2 2) = [(''NVDA'', 1), (''AAPL'', 1)]"
    "sonnet_momentum_weights [''NVDA'', ''AAPL''] 1 w (sample_bars 2 2) = [(''NVDA'', w)]"
    "sonnet_momentum_weights [''AAPL'', ''NVDA''] 1 w (sample_bars 2 2) = [(''AAPL'', w)]"
    by (simp_all add: c sonnet_momentum_weights_def ranked_def)
qed

subsection \<open>The snapshot\<close>

lemma annual_volatility_total: "\<exists>v. annual_volatility rs = Inr v \<and> 8 / 100 \<le> v"
proof -
  have root: "\<exists>y. (if 0 < x then dsqrt x else Inr 0) = Inr y" for x
    by (cases x rule: dsqrt_cases) auto
  define var where "var = (let n = of_nat (length rs); mean = ddiv (dsum rs) n
    in ddiv (dsum (map (\<lambda>r. dmul (dsub r mean) (dsub r mean)) rs)) n)"
  obtain d y where "(if 0 < var then dsqrt var else Inr 0) = Inr d" "dsqrt 252 = Inr y"
    using root [of var] root [of 252] by auto
  then have "annual_volatility rs = Inr (max (dmul d y) (8 / 100))"
    by (simp only: annual_volatility_def var_def Let_def bindr.simps)
  then show ?thesis by simp
qed

text \<open>What the snapshot has read from the first symbols.\<close>

definition snapshot_of :: "bars \<Rightarrow> (symbol, decimal) dict \<times> (symbol, decimal) dict \<Rightarrow> bool" where
  "snapshot_of bs pv \<longleftrightarrow>
     (\<forall>s. dict_get (fst pv) s = (case dict_get bs s of None \<Rightarrow> None | Some l \<Rightarrow> if l = [] then None else Some (b_close (last l)))) \<and>
     (\<forall>s v. dict_get (snd pv) s = Some v \<longrightarrow> 8 / 100 \<le> v \<and> dict_get (fst pv) s \<noteq> None)"

lemma add_symbol_Nil: "add_symbol (Inr pv) (s, []) = Inr pv"
  by (cases pv) (simp add: add_symbol_def)

lemma add_symbol_bars:
  "l \<noteq> [] \<Longrightarrow> annual_volatility (daily_returns l) = Inr w \<Longrightarrow> add_symbol (Inr (p, v)) (s, l)
    = (if 2 \<le> length (daily_returns l) then Inr (dict_set s (b_close (last l)) p, dict_set s w v)
       else Inr (dict_set s (b_close (last l)) p, v))"
  by (simp add: add_symbol_def Let_def)

lemma snapshot_loop:
  assumes "distinct (map fst bs)"
  shows "\<exists>pv. foldl add_symbol (Inr ([], [])) bs = Inr pv \<and> snapshot_of bs pv"
  using assms
proof (induction bs rule: rev_induct)
  case Nil
  then show ?case by (simp add: snapshot_of_def)
next
  case (snoc x bs)
  obtain s l where x: "x = (s, l)" by (cases x)
  from snoc obtain p v where ih: "foldl add_symbol (Inr ([], [])) bs = Inr (p, v)" "snapshot_of bs (p, v)" by auto
  from ih(2) have v0: "\<forall>k u. dict_get v k = Some u \<longrightarrow> 8 / 100 \<le> u \<and> dict_get p k \<noteq> None"
    unfolding snapshot_of_def fst_conv snd_conv by blast
  have new: "dict_get bs s = None" using snoc.prems by (auto simp: x map_of_eq_None_iff)
  obtain w where w: "annual_volatility (daily_returns l) = Inr w" "8 / 100 \<le> w"
    using annual_volatility_total by blast
  show ?case
  proof (cases "l = []")
    case True
    then have "foldl add_symbol (Inr ([], [])) (bs @ [x]) = Inr (p, v)"
      using ih(1) by (simp add: x add_symbol_Nil)
    moreover have "snapshot_of (bs @ [x]) (p, v)"
    proof -
      have "\<forall>k. dict_get p k = (case dict_get (bs @ [x]) k of None \<Rightarrow> None | Some l \<Rightarrow> if l = [] then None else Some (b_close (last l)))"
        using ih(2) new True by (auto simp: x snapshot_of_def map_add_def split: option.splits)
      with v0 show ?thesis unfolding snapshot_of_def fst_conv snd_conv by blast
    qed
    ultimately show ?thesis by blast
  next
    case False
    let ?p = "dict_set s (b_close (last l)) p"
    have p: "\<forall>k. dict_get ?p k = (case dict_get (bs @ [x]) k of None \<Rightarrow> None | Some l \<Rightarrow> if l = [] then None else Some (b_close (last l)))"
      using ih(2) new False by (auto simp: x snapshot_of_def map_add_def split: option.splits)
    have v: "\<forall>k u. dict_get v k = Some u \<longrightarrow> 8 / 100 \<le> u \<and> dict_get ?p k \<noteq> None"
      using v0 by auto
    have w': "\<forall>k u. dict_get (dict_set s w v) k = Some u \<longrightarrow> 8 / 100 \<le> u \<and> dict_get ?p k \<noteq> None"
      using v0 w(2) by auto
    have "foldl add_symbol (Inr ([], [])) (bs @ [x])
      = (if 2 \<le> length (daily_returns l) then Inr (?p, dict_set s w v) else Inr (?p, v))"
      using ih(1) w(1) False by (simp add: x add_symbol_bars)
    moreover have "snapshot_of (bs @ [x]) (?p, v)" "snapshot_of (bs @ [x]) (?p, dict_set s w v)"
      unfolding snapshot_of_def fst_conv snd_conv using p v w' by blast+
    ultimately show ?thesis by auto
  qed
qed

text \<open>
  The market snapshot is always built: every symbol with bars has its last close as price, the others
  have none, and every volatility is at least the floor of eight percent.
\<close>

lemma snapshot_is_complete:
  assumes "distinct (map fst bs)"
  shows "\<exists>m. build_market_snapshot bs vix ts = Inr m \<and>
    (\<forall>s. dict_get (ms_current_prices m) s =
       (case dict_get bs s of None \<Rightarrow> None | Some l \<Rightarrow> if l = [] then None else Some (b_close (last l)))) \<and>
    (\<forall>s v. dict_get (ms_realized_vol_30d m) s = Some v \<longrightarrow> 8 / 100 \<le> v \<and> dict_get (ms_current_prices m) s \<noteq> None)"
  using snapshot_loop [OF assms] by (auto simp: build_market_snapshot_def snapshot_of_def)

lemma snapshot_is_complete_example:
  "\<exists>m. build_market_snapshot (sample_bars 2 3) None 0 = Inr m \<and> dict_get (ms_current_prices m) ''AAPL'' = Some 3
    \<and> dict_get (ms_current_prices m) ''SPY'' = None"
proof -
  have "distinct (map fst (sample_bars 2 3))" by (simp add: sample_bars_def)
  from snapshot_is_complete [OF this, of None 0] show ?thesis
    by (auto simp: sample_bars_def sample_series_def flat_bar_def)
qed

end
