(* ===== verification/Memory.thy ===== *)
theory Memory
  imports Core_Types
begin

text \<open>
  The memory of an agent, \<^verbatim>\<open>agents/memory.py\<close>: facts, journals and the intent log. A table is a
  list of rows in the order of insertion; an upsert keeps the position of the row. The column
  \<^verbatim>\<open>updated_at\<close>, which nothing reads, and the closed connection during shutdown are left out. The log is
  ordered by its ISO time stamps in UTC, the model by the times themselves; rows with equal times
  come in the order of insertion.
\<close>

subsection \<open>The tables\<close>

record intent_row =
  ir_id :: intent_id
  ir_agent :: agent_id
  ir_symbol :: symbol
  ir_action :: string
  ir_conviction :: int
  ir_rationale :: string
  ir_outcome :: "string option"
  ir_logged_at :: datetime
  ir_weight :: "decimal option"

record memory_db =
  md_facts :: "(agent_id \<times> string, string) dict"
  md_journals :: "(agent_id \<times> date, string) dict"
  md_intents :: "intent_row list"

definition empty_memory :: memory_db where
  "empty_memory = \<lparr>md_facts = [], md_journals = [], md_intents = []\<rparr>"

subsection \<open>Facts and journals\<close>

definition remember :: "agent_id \<Rightarrow> string \<Rightarrow> string \<Rightarrow> memory_db \<Rightarrow> memory_db" where
  "remember a k v m = m\<lparr>md_facts := dict_set (a, k) v (md_facts m)\<rparr>"

definition recall :: "agent_id \<Rightarrow> string \<Rightarrow> memory_db \<Rightarrow> string option" where
  "recall a k m = dict_get (md_facts m) (a, k)"

definition write_journal :: "agent_id \<Rightarrow> date \<Rightarrow> string \<Rightarrow> memory_db \<Rightarrow> memory_db" where
  "write_journal a d c m = m\<lparr>md_journals := dict_set (a, d) c (md_journals m)\<rparr>"

definition read_journal :: "agent_id \<Rightarrow> date \<Rightarrow> memory_db \<Rightarrow> string option" where
  "read_journal a d m = dict_get (md_journals m) (a, d)"

subsection \<open>The intent log\<close>

definition record_intent ::
  "agent_id \<Rightarrow> intent_id \<Rightarrow> symbol \<Rightarrow> string \<Rightarrow> int \<Rightarrow> string \<Rightarrow> datetime \<Rightarrow> decimal option \<Rightarrow> memory_db \<Rightarrow> memory_db" where
  "record_intent a i s act conv why ts w m =
     (if i \<in> ir_id ` set (md_intents m) then m
      else m\<lparr>md_intents := md_intents m @
        [\<lparr>ir_id = i, ir_agent = a, ir_symbol = s, ir_action = act, ir_conviction = conv, ir_rationale = why,
          ir_outcome = None, ir_logged_at = ts, ir_weight = w\<rparr>]\<rparr>)"

definition row_by_id :: "intent_id \<Rightarrow> memory_db \<Rightarrow> intent_row option" where
  "row_by_id i m = List.find (\<lambda>r. ir_id r = i) (md_intents m)"

definition conviction_by_intent_id :: "string \<Rightarrow> memory_db \<Rightarrow> int option" where
  "conviction_by_intent_id t m = map_option ir_conviction (List.find (\<lambda>r. uuid_text (ir_id r) = t) (md_intents m))"

definition record_outcome_row :: "intent_id \<Rightarrow> string \<Rightarrow> memory_db \<Rightarrow> memory_db" where
  "record_outcome_row i oc m =
     m\<lparr>md_intents := map (\<lambda>r. if ir_id r = i then r\<lparr>ir_outcome := Some oc\<rparr> else r) (md_intents m)\<rparr>"

definition rows_of :: "agent_id \<Rightarrow> memory_db \<Rightarrow> intent_row list" where
  "rows_of a m = filter (\<lambda>r. ir_agent r = a) (md_intents m)"

definition recent_intents_rows :: "agent_id \<Rightarrow> nat \<Rightarrow> memory_db \<Rightarrow> intent_row list" where
  "recent_intents_rows a n m = take n (sort_key (\<lambda>r. - ir_logged_at r) (rows_of a m))"

definition top_intents_since :: "agent_id \<Rightarrow> datetime \<Rightarrow> nat \<Rightarrow> memory_db \<Rightarrow> intent_row list" where
  "top_intents_since a since n m =
     take n (sort_key (\<lambda>r. - (of_int (ir_conviction r) * the (ir_weight r)))
       (filter (\<lambda>r. since \<le> ir_logged_at r \<and> ir_outcome r \<noteq> None \<and> ir_weight r \<noteq> None) (rows_of a m)))"

text \<open>What the summary for a prompt shows of a row; \<^verbatim>\<open>None\<close> is its text for an open outcome.\<close>

definition recent_intents_summary :: "agent_id \<Rightarrow> nat \<Rightarrow> memory_db \<Rightarrow> (string \<times> symbol \<times> int \<times> string option \<times> string) list" where
  "recent_intents_summary a n m =
     map (\<lambda>r. (ir_action r, ir_symbol r, ir_conviction r, ir_outcome r, take 80 (ir_rationale r))) (recent_intents_rows a n m)"

subsection \<open>Facts\<close>

lemma recall_remember [simp]:
  "recall a k (remember b j v m) = (if (a, k) = (b, j) then Some v else recall a k m)"
  by (auto simp: recall_def remember_def)

lemma read_write_journal [simp]:
  "read_journal a d (write_journal b e c m) = (if (a, d) = (b, e) then Some c else read_journal a d m)"
  by (auto simp: read_journal_def write_journal_def)

lemma memory_frame [simp]:
  "md_intents (remember a k v m) = md_intents m" "row_by_id i (remember a k v m) = row_by_id i m"
  "recall a k (record_outcome_row i oc m) = recall a k m"
  "recall a k (record_intent b i s act conv why ts w m) = recall a k m"
  by (simp_all add: remember_def row_by_id_def recall_def record_outcome_row_def record_intent_def)

lemma row_by_id_None_iff: "row_by_id i m = None \<longleftrightarrow> i \<notin> ir_id ` set (md_intents m)"
  by (auto simp: row_by_id_def find_None_iff)

lemma row_by_id_id: "row_by_id i m = Some r \<Longrightarrow> ir_id r = i"
  by (auto simp: row_by_id_def find_Some_iff)

lemma find_append: "List.find P (xs @ ys) = (case List.find P xs of None \<Rightarrow> List.find P ys | Some x \<Rightarrow> Some x)"
  by (induction xs) auto

lemma row_by_id_record_intent:
  "row_by_id j (record_intent a i s act conv why ts w m) =
     (if j = i \<and> row_by_id i m = None
      then Some \<lparr>ir_id = i, ir_agent = a, ir_symbol = s, ir_action = act, ir_conviction = conv, ir_rationale = why,
            ir_outcome = None, ir_logged_at = ts, ir_weight = w\<rparr>
      else row_by_id j m)"
proof (cases "row_by_id i m")
  case None
  then have "i \<notin> ir_id ` set (md_intents m)" by (simp add: row_by_id_None_iff)
  with None show ?thesis
    by (auto simp: record_intent_def row_by_id_def find_append split: option.split)
next
  case (Some r)
  then have "i \<in> ir_id ` set (md_intents m)" by (metis option.distinct(1) row_by_id_None_iff)
  with Some show ?thesis by (simp add: record_intent_def)
qed

lemma find_map_same: "(\<And>x. P (f x) = P x) \<Longrightarrow> List.find P (map f xs) = map_option f (List.find P xs)"
  by (induction xs) auto

lemma row_by_id_outcome [simp]:
  "row_by_id j (record_outcome_row i oc m) =
     map_option (\<lambda>r. if j = i then r\<lparr>ir_outcome := Some oc\<rparr> else r) (row_by_id j m)"
proof -
  let ?f = "\<lambda>r. if ir_id r = i then r\<lparr>ir_outcome := Some oc\<rparr> else r"
  have "row_by_id j (record_outcome_row i oc m) = map_option ?f (row_by_id j m)"
    unfolding row_by_id_def record_outcome_row_def by (simp add: find_map_same)
  then show ?thesis
    by (cases "row_by_id j m") (auto dest: row_by_id_id)
qed

lemma conviction_of_row: "conviction_by_intent_id (uuid_text i) m = map_option ir_conviction (row_by_id i m)"
proof -
  have "(\<lambda>r. uuid_text (ir_id r) = uuid_text i) = (\<lambda>r :: intent_row. ir_id r = i)"
    by (auto simp: fun_eq_iff dest: uuid_text_inj)
  then show ?thesis by (simp add: conviction_by_intent_id_def row_by_id_def)
qed

lemma conviction_frame [simp]:
  "conviction_by_intent_id (uuid_text j) (record_outcome_row i oc m) = conviction_by_intent_id (uuid_text j) m"
  by (cases "row_by_id j m") (simp_all add: conviction_of_row)

text \<open>Asking for the strongest intents gives settled ones only, none stronger than the first.\<close>

lemma top_intents_settled:
  "r \<in> set (top_intents_since a since n m) \<Longrightarrow>
   ir_agent r = a \<and> since \<le> ir_logged_at r \<and> ir_outcome r \<noteq> None \<and> ir_weight r \<noteq> None"
  by (auto simp: top_intents_since_def rows_of_def dest: in_set_takeD)

end
