(* ===== verification/Agents.thy ===== *)
theory Agents
  imports Signals Memory Broker Effects
begin

text \<open>
  From the answer of a language model to intents: \<^verbatim>\<open>agents/json_utils.py\<close> and the parsing and
  observation in \<^verbatim>\<open>agents/haiku_agent.py\<close>, \<^verbatim>\<open>agents/sonnet_agent.py\<close> and \<^verbatim>\<open>agents/opus_agent.py\<close>.
  What the model answers, or the exception the call raises, is a parameter, and so are
  \<^verbatim>\<open>json.loads\<close> (\<open>decode\<close>, \<open>None\<close> for a \<^verbatim>\<open>JSONDecodeError\<close>) and the text \<^verbatim>\<open>str()\<close> gives of a
  float, list or dict (\<open>repr\<close>). The prompts are in \<open>Prompts\<close>; log messages are left out.
\<close>

subsection \<open>Texts\<close>

definition is_space :: "char \<Rightarrow> bool" where
  "is_space c = (let n = of_char c :: nat in n = 32 \<or> (9 \<le> n \<and> n \<le> 13) \<or> (28 \<le> n \<and> n \<le> 31))"

definition py_strip :: "string \<Rightarrow> string" where
  "py_strip s = rev (dropWhile is_space (rev (dropWhile is_space s)))"

fun split_char :: "char \<Rightarrow> string \<Rightarrow> string list" where
  "split_char c [] = [[]]"
| "split_char c (x # xs) =
    (if x = c then [] # split_char c xs
     else (case split_char c xs of [] \<Rightarrow> [[x]] | w # ws \<Rightarrow> (x # w) # ws))"

fun join_char :: "char \<Rightarrow> string list \<Rightarrow> string" where
  "join_char c [] = []"
| "join_char c [w] = w"
| "join_char c (w # v # ws) = w @ c # join_char c (v # ws)"

definition is_digit :: "char \<Rightarrow> bool" where
  "is_digit c = (let n = of_char c :: nat in 48 \<le> n \<and> n \<le> 57)"

definition digit_value :: "char \<Rightarrow> int" where
  "digit_value c = int (of_char c) - 48"

definition digits_value :: "string \<Rightarrow> int" where
  "digits_value s = foldl (\<lambda>n c. 10 * n + digit_value c) 0 s"

definition split_sign :: "string \<Rightarrow> int \<times> string" where
  "split_sign s = (case s of [] \<Rightarrow> (1, []) | c # cs \<Rightarrow>
     if c = CHR ''-'' then (- 1, cs) else if c = CHR ''+'' then (1, cs) else (1, s))"

text \<open>\<^verbatim>\<open>int(text)\<close>: a single underscore may stand between two digits.\<close>

fun int_digits :: "bool \<Rightarrow> int \<Rightarrow> string \<Rightarrow> int option" where
  "int_digits after n [] = (if after then Some n else None)"
| "int_digits after n (c # cs) =
    (if is_digit c then int_digits True (10 * n + digit_value c) cs
     else if c = CHR ''_'' \<and> after then int_digits False n cs else None)"

definition int_of_text :: "string \<Rightarrow> int option" where
  "int_of_text s = (case split_sign (py_strip s) of (g, t) \<Rightarrow> map_option (\<lambda>n. g * n) (int_digits False 0 t))"

text \<open>
  \<^verbatim>\<open>Decimal(text)\<close>: underscores are dropped, letters may have either case; after the sign comes a
  finite number (digits with a point and an exponent), an infinity, or a NaN, quiet or signalling, with
  optional digits.
\<close>

datatype number = Finite decimal | Infinite bool | Not_a_number bool

definition exponent_of :: "string \<Rightarrow> int option" where
  "exponent_of s = (case s of [] \<Rightarrow> Some 0 | c # cs \<Rightarrow>
     if c = CHR ''e'' \<or> c = CHR ''E''
     then (case split_sign cs of (g, t) \<Rightarrow> if t \<noteq> [] \<and> list_all is_digit t then Some (g * digits_value t) else None)
     else None)"

definition split_point :: "string \<Rightarrow> string \<times> string" where
  "split_point s = (case s of [] \<Rightarrow> ([], []) | c # cs \<Rightarrow>
     if c = CHR ''.'' then (takeWhile is_digit cs, dropWhile is_digit cs) else ([], s))"

definition finite_of_text :: "int \<Rightarrow> string \<Rightarrow> decimal option" where
  "finite_of_text g t =
     (case split_point (dropWhile is_digit t) of (places, rest) \<Rightarrow>
      let digits = takeWhile is_digit t @ places in
      if digits = [] then None
      else map_option (\<lambda>e. of_int (g * digits_value digits) * p10 (e - int (length places))) (exponent_of rest))"

definition number_of_text :: "string \<Rightarrow> number option" where
  "number_of_text s =
     (case split_sign (filter (\<lambda>c. c \<noteq> CHR ''_'') (py_strip s)) of (g, t) \<Rightarrow>
      let w = py_lower t in
      if w = ''inf'' \<or> w = ''infinity'' then Some (Infinite (g < 0))
      else if take 3 w = ''nan'' \<and> list_all is_digit (drop 3 w) then Some (Not_a_number False)
      else if take 4 w = ''snan'' \<and> list_all is_digit (drop 4 w) then Some (Not_a_number True)
      else map_option Finite (finite_of_text g t))"

text \<open>The order of decimal numbers; comparing with a NaN signals.\<close>

fun num_less :: "number \<Rightarrow> number \<Rightarrow> exn + bool" where
  "num_less (Finite x) (Finite y) = Inr (x < y)"
| "num_less (Not_a_number _) _ = Inl DecimalError"
| "num_less _ (Not_a_number _) = Inl DecimalError"
| "num_less (Infinite p) (Infinite q) = Inr (p \<and> \<not> q)"
| "num_less (Infinite p) (Finite _) = Inr p"
| "num_less (Finite _) (Infinite q) = Inr (\<not> q)"

subsection \<open>JSON values\<close>

datatype jval =
    VNull | VBool bool | VInt int | VFloat number | VText string
  | VList "jval list" | VObject "(string \<times> jval) list"

definition int_text :: "int \<Rightarrow> string" where
  "int_text n = (if n < 0 then CHR ''-'' # uuid_text (nat (- n)) else uuid_text (nat n))"

fun py_str :: "(jval \<Rightarrow> string) \<Rightarrow> jval \<Rightarrow> string" where
  "py_str repr VNull = ''None''"
| "py_str repr (VBool b) = (if b then ''True'' else ''False'')"
| "py_str repr (VInt n) = int_text n"
| "py_str repr (VText s) = s"
| "py_str repr v = repr v"

fun py_int :: "jval \<Rightarrow> exn + int" where
  "py_int (VInt n) = Inr n"
| "py_int (VBool b) = Inr (if b then 1 else 0)"
| "py_int (VFloat (Finite d)) = Inr (dtrunc d)"
| "py_int (VFloat (Infinite _)) = Inl OverflowError"
| "py_int (VFloat (Not_a_number _)) = Inl ValueError"
| "py_int (VText s) = (case int_of_text s of None \<Rightarrow> Inl ValueError | Some n \<Rightarrow> Inr n)"
| "py_int _ = Inl TypeError"

text \<open>\<^verbatim>\<open>Decimal(str(v))\<close>: the words for none and truth values and any bracketed text are no numbers.\<close>

fun py_number :: "jval \<Rightarrow> exn + number" where
  "py_number (VInt n) = Inr (Finite (of_int n))"
| "py_number (VFloat x) = Inr x"
| "py_number (VText s) = (case number_of_text s of None \<Rightarrow> Inl DecimalError | Some x \<Rightarrow> Inr x)"
| "py_number _ = Inl DecimalError"

fun finite_only :: "number \<Rightarrow> exn + decimal" where
  "finite_only (Finite d) = Inr d"
| "finite_only _ = Inl NotFinite"

definition py_decimal :: "jval \<Rightarrow> exn + decimal" where
  "py_decimal v = bindr (py_number v) finite_only"

lemma py_decimal_simps [simp]:
  "py_decimal (VInt n) = Inr (of_int n)" "py_decimal (VFloat x) = finite_only x"
  "py_decimal (VText s) = (case number_of_text s of None \<Rightarrow> Inl DecimalError | Some x \<Rightarrow> finite_only x)"
  "py_decimal VNull = Inl DecimalError" "py_decimal (VBool b) = Inl DecimalError"
  "py_decimal (VList vs) = Inl DecimalError" "py_decimal (VObject d) = Inl DecimalError"
  by (simp_all add: py_decimal_def split: option.split)

text \<open>Reading a key with \<^verbatim>\<open>v[k]\<close> and \<^verbatim>\<open>v.get(k, d)\<close>, and the slice \<^verbatim>\<open>v[:n]\<close>.\<close>

fun subscript :: "jval \<Rightarrow> string \<Rightarrow> exn + jval" where
  "subscript (VObject d) k = (case dict_get d k of None \<Rightarrow> Inl KeyError | Some v \<Rightarrow> Inr v)"
| "subscript _ k = Inl TypeError"

fun get_or :: "jval \<Rightarrow> string \<Rightarrow> jval \<Rightarrow> exn + jval" where
  "get_or (VObject d) k v = Inr (dict_get_or d k v)"
| "get_or _ k v = Inl AttributeError"

fun slice :: "jval \<Rightarrow> nat \<Rightarrow> exn + jval list" where
  "slice (VList vs) n = Inr (take n vs)"
| "slice (VText s) n = Inr (map (\<lambda>c. VText [c]) (take n s))"
| "slice (VObject d) n = Inl KeyError"
| "slice _ n = Inl TypeError"

fun truthy :: "jval \<Rightarrow> bool" where
  "truthy VNull = False"
| "truthy (VBool b) = b"
| "truthy (VInt n) = (n \<noteq> 0)"
| "truthy (VFloat x) = (x \<noteq> Finite 0)"
| "truthy (VText s) = (s \<noteq> [])"
| "truthy (VList vs) = (vs \<noteq> [])"
| "truthy (VObject d) = (d \<noteq> [])"

subsection \<open>The answer\<close>

fun find_char :: "char \<Rightarrow> string \<Rightarrow> nat option" where
  "find_char c [] = None"
| "find_char c (x # xs) = (if x = c then Some 0 else map_option Suc (find_char c xs))"

definition rfind_char :: "char \<Rightarrow> string \<Rightarrow> nat option" where
  "rfind_char c s = map_option (\<lambda>i. length s - 1 - i) (find_char c (rev s))"

definition braces :: "string \<Rightarrow> string option" where
  "braces s = (case (find_char CHR ''{'' s, rfind_char CHR ''}'' s) of
       (Some a, Some b) \<Rightarrow> if a < b then Some (take (b + 1 - a) (drop a s)) else None
     | _ \<Rightarrow> None)"

definition loads_lenient :: "(string \<Rightarrow> jval option) \<Rightarrow> string \<Rightarrow> jval option" where
  "loads_lenient decode s = (case decode s of Some v \<Rightarrow> Some v
     | None \<Rightarrow> (case braces s of None \<Rightarrow> None | Some t \<Rightarrow> decode t))"

definition parse_json_object :: "(string \<Rightarrow> jval option) \<Rightarrow> string \<Rightarrow> (string, jval) dict option" where
  "parse_json_object decode s = (case loads_lenient decode s of Some (VObject d) \<Rightarrow> Some d | _ \<Rightarrow> None)"

subsection \<open>Intents from items\<close>

fun action_of_text :: "string \<Rightarrow> exn + action" where
  "action_of_text s =
    (if s = ''buy'' then Inr BUY_ACT else if s = ''sell'' then Inr SELL_ACT
     else if s = ''rebalance_to'' then Inr REBALANCE_TO else if s = ''close'' then Inr CLOSE_ACT
     else Inl ValueError)"

fun action_text :: "action \<Rightarrow> string" where
  "action_text BUY_ACT = ''buy''"
| "action_text SELL_ACT = ''sell''"
| "action_text REBALANCE_TO = ''rebalance_to''"
| "action_text CLOSE_ACT = ''close''"

fun action_of_value :: "jval \<Rightarrow> exn + action" where
  "action_of_value (VText s) = action_of_text s"
| "action_of_value _ = Inl ValueError"

fun sleeve_of_value :: "jval \<Rightarrow> sleeve" where
  "sleeve_of_value (VText s) =
    (if s = ''crypto'' then CRYPTO_SLEEVE else if s = ''options'' then OPTIONS_SLEEVE else EQUITY_SLEEVE)"
| "sleeve_of_value _ = EQUITY_SLEEVE"

definition conviction_of :: "jval \<Rightarrow> exn + int" where
  "conviction_of v = bindr (py_int v) (\<lambda>n. Inr (max 1 (min 10 n)))"

type_synonym 'a ids = "(uuid, 'a) eff"

definition draw_id :: "uuid ids" where
  "draw_id n = (Inr n, Suc n)"

definition new_intent :: "uuid \<Rightarrow> agent_id \<Rightarrow> symbol \<Rightarrow> action \<Rightarrow> decimal \<Rightarrow> sleeve \<Rightarrow> string \<Rightarrow> int \<Rightarrow> string \<Rightarrow> datetime \<Rightarrow> string \<Rightarrow> intent" where
  "new_intent i a s act w sl sig conv why ts regime =
     \<lparr>i_id = i, i_agent_id = a, i_symbol = s, i_action = act, i_target_weight = w, i_sleeve = sl, i_signal = sig,
      i_conviction = conv, i_rationale = why, i_timestamp = ts, i_regime_observation = regime,
      i_requires_approval = False, i_legs = []\<rparr>"

text \<open>An item whose parsing raises \<open>KeyError\<close> or \<open>ValueError\<close> is skipped; any other exception goes on.\<close>

definition skipping :: "'a option ids \<Rightarrow> 'a option ids" where
  "skipping m n = (case m n of
       (Inl e, k) \<Rightarrow> if e = KeyError \<or> e = ValueError then (Inr None, k) else (Inl e, k)
     | (Inr x, k) \<Rightarrow> (Inr x, k))"

fun collect :: "(jval \<Rightarrow> intent option ids) \<Rightarrow> jval list \<Rightarrow> intent list ids" where
  "collect f [] = ret []"
| "collect f (v # vs) = andthen (skipping (f v)) (\<lambda>r. andthen (collect f vs) (\<lambda>xs.
     ret (case r of None \<Rightarrow> xs | Some x \<Rightarrow> x # xs)))"

subsection \<open>Haiku\<close>

definition haiku_max_intents :: nat where "haiku_max_intents = 4"

definition haiku_item :: "(jval \<Rightarrow> string) \<Rightarrow> string \<Rightarrow> datetime \<Rightarrow> jval \<Rightarrow> intent option ids" where
  "haiku_item repr regime ts item =
     andthen (lift_res (bindr (subscript item ''action'') action_of_value)) (\<lambda>act.
     andthen (lift_res (get_or item ''sleeve'' (VText ''equity''))) (\<lambda>sl.
     andthen draw_id (\<lambda>i.
     andthen (lift_res (subscript item ''symbol'')) (\<lambda>sym.
     andthen (lift_res (bindr (get_or item ''target_weight'' (VInt 0)) py_decimal)) (\<lambda>w.
     andthen (lift_res (get_or item ''signal'' (VText []))) (\<lambda>sig.
     andthen (lift_res (bindr (get_or item ''conviction'' (VInt 5)) conviction_of)) (\<lambda>conv.
     andthen (lift_res (get_or item ''rationale'' (VText []))) (\<lambda>why.
       ret (Some (new_intent i HAIKU (py_str repr sym) act w (sleeve_of_value sl) (take 140 (py_str repr sig)) conv
         (take 280 (py_str repr why)) ts (take 200 regime)))))))))))"

definition haiku_parse_intents :: "(jval \<Rightarrow> string) \<Rightarrow> (string \<Rightarrow> jval option) \<Rightarrow> string \<Rightarrow> datetime \<Rightarrow> intent list ids" where
  "haiku_parse_intents repr decode text ts = (case parse_json_object decode text of
       None \<Rightarrow> ret []
     | Some d \<Rightarrow>
         (let regime = py_str repr (dict_get_or d ''regime_observation'' (VText [])) in
          andthen (lift_res (slice (dict_get_or d ''intents'' (VList [])) haiku_max_intents)) (collect (haiku_item repr regime ts))))"

subsection \<open>Sonnet\<close>

definition sonnet_max_intents :: nat where "sonnet_max_intents = 5"

definition sonnet_action_map :: "(string, string) dict" where
  "sonnet_action_map = [(''trim'', ''sell''), (''add'', ''buy''), (''rebalance_to'', ''rebalance_to''), (''exit'', ''sell'')]"

definition sonnet_item :: "(jval \<Rightarrow> string) \<Rightarrow> string \<Rightarrow> datetime \<Rightarrow> jval \<Rightarrow> intent option ids" where
  "sonnet_item repr obs ts item =
     andthen (lift_res (get_or item ''action'' (VText ''buy''))) (\<lambda>a.
     let raw = py_str repr a in
     andthen (lift_res (action_of_text (dict_get_or sonnet_action_map raw raw))) (\<lambda>act.
     andthen draw_id (\<lambda>i.
     andthen (lift_res (subscript item ''symbol'')) (\<lambda>sym.
     andthen (lift_res (bindr (get_or item ''target_weight'' (VInt 0)) py_decimal)) (\<lambda>w.
     andthen (lift_res (get_or item ''factor_score_rank'' (VText ''?''))) (\<lambda>rank.
     andthen (lift_res (bindr (get_or item ''conviction'' (VInt 5)) conviction_of)) (\<lambda>conv.
     andthen (lift_res (bindr (get_or item ''rationale'' (VText [])) (get_or item ''thesis''))) (\<lambda>why.
       ret (Some (new_intent i SONNET (py_str repr sym) act w EQUITY_SLEEVE (''factor_rank='' @ py_str repr rank) conv
         (take 280 (py_str repr why)) ts (take 200 obs)))))))))))"

definition sonnet_parse_intents :: "(jval \<Rightarrow> string) \<Rightarrow> (string \<Rightarrow> jval option) \<Rightarrow> string \<Rightarrow> datetime \<Rightarrow> intent list ids" where
  "sonnet_parse_intents repr decode text ts = (case loads_lenient decode text of
       None \<Rightarrow> ret []
     | Some data \<Rightarrow>
         andthen (lift_res (get_or data ''market_observation'' (VText []))) (\<lambda>obs.
         andthen (lift_res (bindr (get_or data ''intents'' (VList [])) (\<lambda>v. slice v sonnet_max_intents)))
           (collect (sonnet_item repr (py_str repr obs) ts))))"

subsection \<open>Opus\<close>

definition opus_max_intents :: nat where "opus_max_intents = 3"
definition target_holdings :: nat where "target_holdings = 5"
definition initiation_max_weight :: decimal where "initiation_max_weight = 5 / 100"
definition initiation_max_starters :: nat where "initiation_max_starters = target_holdings"
definition watchlist_key :: string where "watchlist_key = ''opus:watchlist''"
definition watchlist_max :: nat where "watchlist_max = 20"

definition opus_action_map :: "(string, string option) dict" where
  "opus_action_map = [(''trim'', Some ''sell''), (''add'', Some ''buy''), (''buy'', Some ''buy''),
     (''rebalance_to'', Some ''rebalance_to''), (''exit'', Some ''sell''), (''sell'', Some ''sell''), (''hold'', None)]"

definition opus_json :: "(string \<Rightarrow> jval option) \<Rightarrow> string \<Rightarrow> jval" where
  "opus_json decode text = (case loads_lenient decode text of None \<Rightarrow> VObject [] | Some v \<Rightarrow> v)"

text \<open>The starter guard: \<open>None\<close> skips the item.\<close>

definition starter_weight :: "bool \<Rightarrow> action \<Rightarrow> int \<Rightarrow> number \<Rightarrow> exn + number option" where
  "starter_weight initiation act conv w =
     (if initiation \<and> act = BUY_ACT
      then if conv < 7 then Inr None
        else bindr (num_less (Finite initiation_max_weight) w) (\<lambda>more. Inr (Some (if more then Finite initiation_max_weight else w)))
      else Inr (Some w))"

definition opus_item :: "(jval \<Rightarrow> string) \<Rightarrow> string \<Rightarrow> datetime \<Rightarrow> bool \<Rightarrow> jval \<Rightarrow> intent option ids" where
  "opus_item repr obs ts initiation item =
     andthen (lift_res (get_or item ''action'' (VText ''buy''))) (\<lambda>a.
     let raw = py_str repr a in
     case dict_get_or opus_action_map raw (Some raw) of
       None \<Rightarrow> ret None
     | Some mapped \<Rightarrow>
       andthen (lift_res (action_of_text mapped)) (\<lambda>act.
       andthen (lift_res (bindr (get_or item ''target_weight'' (VInt 0)) py_number)) (\<lambda>x.
       andthen (lift_res (bindr (get_or item ''conviction'' (VInt 5)) conviction_of)) (\<lambda>conv.
       andthen (lift_res (starter_weight initiation act conv x)) (\<lambda>starter. case starter of
         None \<Rightarrow> ret None
       | Some w \<Rightarrow>
         andthen draw_id (\<lambda>i.
         andthen (lift_res (subscript item ''symbol'')) (\<lambda>sym.
         andthen (lift_res (bindr (get_or item ''thesis_id'' (VText [])) (get_or item ''trigger''))) (\<lambda>sig.
         andthen (lift_res (get_or item ''trigger'' (VText []))) (\<lambda>why.
         andthen (lift_res (finite_only w)) (\<lambda>w'.
           ret (Some (new_intent i OPUS (py_str repr sym) act w' EQUITY_SLEEVE (take 140 (py_str repr sig)) conv
             (take 280 (py_str repr why)) ts (take 200 obs)))))))))))))"

definition intent_cap :: "nat \<Rightarrow> nat" where
  "intent_cap holdings = (if holdings < target_holdings
     then min (max 1 (target_holdings - holdings)) initiation_max_starters else opus_max_intents)"

definition parse_daily_intents ::
  "(jval \<Rightarrow> string) \<Rightarrow> (string \<Rightarrow> jval option) \<Rightarrow> string \<Rightarrow> datetime \<Rightarrow> nat \<Rightarrow> intent list ids" where
  "parse_daily_intents repr decode text ts holdings =
     (let data = opus_json decode text in
      if \<not> truthy data then ret []
      else andthen (lift_res (get_or data ''portfolio_observation'' (VText []))) (\<lambda>obs.
           andthen (lift_res (bindr (get_or data ''intents'' (VList [])) (\<lambda>v. slice v (intent_cap holdings))))
             (collect (opus_item repr (py_str repr obs) ts (holdings < target_holdings)))))"

definition deep_dive :: "(string \<Rightarrow> jval option) \<Rightarrow> exn + string \<Rightarrow> jval" where
  "deep_dive decode reply = (case reply of Inl _ \<Rightarrow> VObject [] | Inr text \<Rightarrow> opus_json decode text)"

definition extract_deep_dive_intent :: "(jval \<Rightarrow> string) \<Rightarrow> datetime \<Rightarrow> jval \<Rightarrow> symbol \<Rightarrow> intent option ids" where
  "extract_deep_dive_intent repr ts data target =
     andthen (lift_res (get_or data ''intent'' VNull)) (\<lambda>item. case item of
       VObject d \<Rightarrow>
         (case dict_get_or opus_action_map (py_str repr (dict_get_or d ''action'' (VText ''hold''))) None of
            None \<Rightarrow> ret None
          | Some mapped \<Rightarrow> skipping (
              andthen (lift_res (action_of_text mapped)) (\<lambda>act.
              andthen (lift_res (bindr (get_or data ''conviction_new'' (VInt 7)) conviction_of)) (\<lambda>conv.
              andthen (lift_res (py_decimal (dict_get_or d ''target_weight'' (VInt 0)))) (\<lambda>w.
              andthen draw_id (\<lambda>i.
              andthen (lift_res (get_or data ''delta_since_last'' (VText []))) (\<lambda>delta.
                ret (Some (new_intent i OPUS target act w EQUITY_SLEEVE (take 140 (''deep_dive:'' @ target)) conv
                  (take 280 (py_str repr (dict_get_or d ''rationale'' (VText [])))) ts (take 200 (py_str repr delta)))))))))))
     | _ \<Rightarrow> ret None)"

subsection \<open>The watchlist\<close>

definition get_watchlist :: "memory_db \<Rightarrow> string list" where
  "get_watchlist m = filter (\<lambda>s. s \<noteq> []) (map (\<lambda>s. py_upper (py_strip s))
     (split_char CHR '','' (case recall OPUS watchlist_key m of None \<Rightarrow> [] | Some raw \<Rightarrow> raw)))"

definition merge_names :: "string list \<Rightarrow> string list" where
  "merge_names xs = foldl (\<lambda>merged s. if s \<in> set merged then merged else merged @ [s]) [] xs"

definition clean_names :: "(jval \<Rightarrow> string) \<Rightarrow> jval list \<Rightarrow> string list" where
  "clean_names repr vs = filter (\<lambda>s. s \<noteq> []) (map (\<lambda>v. py_upper (py_strip (py_str repr v))) vs)"

definition merge_watchlist :: "(jval \<Rightarrow> string) \<Rightarrow> (string \<Rightarrow> jval option) \<Rightarrow> string \<Rightarrow> (memory_db, unit) eff" where
  "merge_watchlist repr decode text =
     andthen (lift_res (get_or (opus_json decode text) ''watchlist_add'' VNull)) (\<lambda>adds. case adds of
       VList vs \<Rightarrow>
         (let cleaned = clean_names repr vs in
          if cleaned = [] then skip
          else modify (\<lambda>m. remember OPUS watchlist_key
                 (join_char CHR '','' (take watchlist_max (merge_names (cleaned @ get_watchlist m)))) m))
     | _ \<Rightarrow> skip)"

subsection \<open>Observing\<close>

record observation =
  ob_timestamp :: datetime
  ob_positions :: "broker_position list"
  ob_kill :: kill_switch_state

record mind =
  mi_fresh :: uuid
  mi_memory :: memory_db

type_synonym 'a thought = "(mind, 'a) eff"

definition with_ids :: "'a ids \<Rightarrow> 'a thought" where
  "with_ids m s = (case m (mi_fresh s) of (r, n) \<Rightarrow> (r, s\<lparr>mi_fresh := n\<rparr>))"

definition with_memory :: "(memory_db, 'a) eff \<Rightarrow> 'a thought" where
  "with_memory m s = (case m (mi_memory s) of (r, d) \<Rightarrow> (r, s\<lparr>mi_memory := d\<rparr>))"

definition log_intent :: "agent_id \<Rightarrow> intent \<Rightarrow> memory_db \<Rightarrow> memory_db" where
  "log_intent a i = record_intent a (i_id i) (i_symbol i) (action_text (i_action i)) (i_conviction i)
     (i_rationale i) (i_timestamp i) (Some (i_target_weight i))"

definition log_intents :: "agent_id \<Rightarrow> intent list \<Rightarrow> intent list thought" where
  "log_intents a xs s = (Inr xs, s\<lparr>mi_memory := foldl (\<lambda>m i. log_intent a i m) (mi_memory s) xs\<rparr>)"

text \<open>
  \<open>reply\<close> is what the call of the model returns or raises. Opus asks one of two clients, by the number
  of its holdings.
\<close>

definition haiku_observe :: "(jval \<Rightarrow> string) \<Rightarrow> (string \<Rightarrow> jval option) \<Rightarrow> exn + string \<Rightarrow> observation \<Rightarrow> intent list thought" where
  "haiku_observe repr decode reply ob =
     (if ob_kill ob = DRAWDOWN_LIQUIDATE then ret []
      else case reply of
        Inl _ \<Rightarrow> ret []
      | Inr text \<Rightarrow> andthen (with_ids (haiku_parse_intents repr decode text (ob_timestamp ob))) (log_intents HAIKU))"

definition sonnet_observe :: "(jval \<Rightarrow> string) \<Rightarrow> (string \<Rightarrow> jval option) \<Rightarrow> exn + string \<Rightarrow> observation \<Rightarrow> intent list thought" where
  "sonnet_observe repr decode reply ob =
     (if ob_kill ob = DRAWDOWN_LIQUIDATE then ret []
      else case reply of
        Inl _ \<Rightarrow> ret []
      | Inr text \<Rightarrow> andthen (with_ids (sonnet_parse_intents repr decode text (ob_timestamp ob))) (log_intents SONNET))"

definition opus_observe ::
  "(jval \<Rightarrow> string) \<Rightarrow> (string \<Rightarrow> jval option) \<Rightarrow> exn + string \<Rightarrow> exn + string \<Rightarrow> observation \<Rightarrow> intent list thought" where
  "opus_observe repr decode lite_reply reply ob =
     (if ob_kill ob = DRAWDOWN_LIQUIDATE then ret []
      else let holdings = length (ob_positions ob) in
        case (if holdings < target_holdings then lite_reply else reply) of
          Inl _ \<Rightarrow> ret []
        | Inr text \<Rightarrow>
            andthen (with_ids (parse_daily_intents repr decode text (ob_timestamp ob) holdings)) (\<lambda>xs.
            andthen (with_memory (merge_watchlist repr decode text)) (\<lambda>_. log_intents OPUS xs)))"

subsection \<open>What the parsers return\<close>

lemma ids_simps [simp]:
  "andthen (lift_res r) f n = (case r of Inl e \<Rightarrow> (Inl e, n) | Inr x \<Rightarrow> f x n)"
  "andthen draw_id g n = g n (Suc n)"
  by (auto simp: andthen_def lift_res_def draw_id_def split: sum.split)

lemma conviction_of_range: "conviction_of v = Inr c \<Longrightarrow> 1 \<le> c \<and> c \<le> 10"
  by (auto simp: conviction_of_def bindr_Inr_iff)

definition well_formed :: "agent_id \<Rightarrow> datetime \<Rightarrow> intent \<Rightarrow> bool" where
  "well_formed a ts x \<longleftrightarrow> i_agent_id x = a \<and> 1 \<le> i_conviction x \<and> i_conviction x \<le> 10 \<and> i_timestamp x = ts
     \<and> length (i_rationale x) \<le> 280 \<and> length (i_regime_observation x) \<le> 200
     \<and> \<not> i_requires_approval x \<and> i_legs x = [] \<and> (a \<noteq> HAIKU \<longrightarrow> i_sleeve x = EQUITY_SLEEVE)"

lemma well_formed_new:
  "1 \<le> c \<Longrightarrow> c \<le> 10 \<Longrightarrow> (a \<noteq> HAIKU \<Longrightarrow> sl = EQUITY_SLEEVE) \<Longrightarrow>
   well_formed a ts (new_intent i a s act w sl sig c (take 280 why) ts (take 200 reg))"
  by (simp add: well_formed_def new_intent_def)

lemma new_intent_fields [simp]:
  "i_id (new_intent i a s act w sl sig c why ts reg) = i" "i_action (new_intent i a s act w sl sig c why ts reg) = act"
  "i_target_weight (new_intent i a s act w sl sig c why ts reg) = w"
  "i_conviction (new_intent i a s act w sl sig c why ts reg) = c"
  by (simp_all add: new_intent_def)

text \<open>An item parser that only moves the counter forward, and whose intents satisfy \<open>W\<close> and have new ids.\<close>

definition yields :: "(intent \<Rightarrow> bool) \<Rightarrow> intent option ids \<Rightarrow> bool" where
  "yields W m \<longleftrightarrow> (\<forall>n r k. m n = (r, k) \<longrightarrow>
     n \<le> k \<and> (\<forall>x. r = Inr (Some x) \<longrightarrow> W x \<and> n \<le> i_id x \<and> i_id x < k))"

text \<open>The same after the id has been drawn.\<close>

definition yields_id :: "(intent \<Rightarrow> bool) \<Rightarrow> uuid \<Rightarrow> intent option ids \<Rightarrow> bool" where
  "yields_id W i m \<longleftrightarrow> (\<forall>r k. m (Suc i) = (r, k) \<longrightarrow> k = Suc i \<and> (\<forall>x. r = Inr (Some x) \<longrightarrow> W x \<and> i_id x = i))"

lemma yields_None: "yields W (ret None)"
  by (simp add: yields_def ret_def)

lemma yields_lift: "(\<And>x. r = Inr x \<Longrightarrow> yields W (f x)) \<Longrightarrow> yields W (andthen (lift_res r) f)"
  by (cases r) (simp_all add: yields_def)

lemma yields_draw: "(\<And>i. yields_id W i (g i)) \<Longrightarrow> yields W (andthen draw_id g)"
  by (fastforce simp: yields_def yields_id_def)

lemma yields_id_lift: "(\<And>x. r = Inr x \<Longrightarrow> yields_id W i (f x)) \<Longrightarrow> yields_id W i (andthen (lift_res r) f)"
  by (cases r) (simp_all add: yields_id_def)

lemma yields_id_ret: "W x \<Longrightarrow> i_id x = i \<Longrightarrow> yields_id W i (ret (Some x))"
  by (simp add: yields_id_def ret_def)

lemmas yields_intros = yields_None yields_lift yields_draw yields_id_lift yields_id_ret

lemma yields_haiku: "yields (well_formed HAIKU ts) (haiku_item repr regime ts item)"
  unfolding haiku_item_def
  by (intro yields_intros well_formed_new) (auto simp: bindr_Inr_iff dest!: conviction_of_range)

lemma yields_sonnet: "yields (well_formed SONNET ts) (sonnet_item repr obs ts item)"
  unfolding sonnet_item_def Let_def
  by (intro yields_intros well_formed_new) (auto simp: bindr_Inr_iff dest!: conviction_of_range)

definition starter_ok :: "bool \<Rightarrow> intent \<Rightarrow> bool" where
  "starter_ok initiation x \<longleftrightarrow> (initiation \<and> i_action x = BUY_ACT \<longrightarrow> 7 \<le> i_conviction x \<and> i_target_weight x \<le> 5 / 100)"

lemma starter_weight_ok:
  "starter_weight initiation act conv x = Inr (Some w) \<Longrightarrow> finite_only w = Inr w' \<Longrightarrow> initiation \<Longrightarrow> act = BUY_ACT \<Longrightarrow>
    7 \<le> conv \<and> w' \<le> 5 / 100"
  by (cases x) (auto simp: starter_weight_def initiation_max_weight_def bindr_Inr_iff split: if_splits)

lemma yields_case_option: "(\<And>x. v = Some x \<Longrightarrow> yields W (f x)) \<Longrightarrow> yields W m \<Longrightarrow> yields W (case v of None \<Rightarrow> m | Some x \<Rightarrow> f x)"
  by (cases v) simp_all

lemma yields_opus: "yields (\<lambda>x. well_formed OPUS ts x \<and> starter_ok initiation x) (opus_item repr obs ts initiation item)"
  unfolding opus_item_def Let_def
  by (intro yields_intros yields_case_option conjI well_formed_new)
    (auto simp: bindr_Inr_iff starter_ok_def dest!: conviction_of_range dest: starter_weight_ok)

lemma yields_skipping: "yields W m \<Longrightarrow> yields W (skipping m)"
  unfolding yields_def skipping_def by (fastforce split: prod.splits sum.splits if_splits)

lemma collect_yields:
  assumes "\<And>v. yields W (f v)" "collect f vs n = (r, k)"
  shows "n \<le> k \<and> (\<forall>xs. r = Inr xs \<longrightarrow> length xs \<le> length vs \<and> distinct (map i_id xs) \<and>
    (\<forall>x\<in>set xs. W x \<and> n \<le> i_id x \<and> i_id x < k))"
  using assms(2)
proof (induction vs arbitrary: n r k)
  case Nil
  then show ?case by (auto simp: ret_def)
next
  case (Cons v vs)
  obtain q m where q: "skipping (f v) n = (q, m)" by (cases "skipping (f v) n")
  have y: "n \<le> m" "\<And>x. q = Inr (Some x) \<Longrightarrow> W x \<and> n \<le> i_id x \<and> i_id x < m"
    using yields_skipping [OF assms(1), of v] q by (auto simp: yields_def)
  show ?case
  proof (cases q)
    case (Inl e)
    with Cons.prems q y show ?thesis by (auto simp: andthen_def)
  next
    case (Inr o')
    obtain p l where p: "collect f vs m = (p, l)" by (cases "collect f vs m")
    from Cons.IH [OF p] Cons.prems q y Inr p show ?thesis
      by (cases p) (fastforce simp: andthen_def ret_def split: option.splits)+
  qed
qed

text \<open>A parser of whole answers: at most \<open>cap\<close> intents, all with \<open>W\<close>, their ids new and different.\<close>

definition answers :: "(intent \<Rightarrow> bool) \<Rightarrow> nat \<Rightarrow> intent list ids \<Rightarrow> bool" where
  "answers W cap m \<longleftrightarrow> (\<forall>n r k. m n = (r, k) \<longrightarrow> n \<le> k \<and>
     (\<forall>xs. r = Inr xs \<longrightarrow> length xs \<le> cap \<and> distinct (map i_id xs) \<and> (\<forall>x\<in>set xs. W x \<and> n \<le> i_id x \<and> i_id x < k)))"

lemma answers_Nil: "answers W cap (ret [])"
  by (simp add: answers_def ret_def)

lemma answers_lift: "(\<And>x. r = Inr x \<Longrightarrow> answers W cap (f x)) \<Longrightarrow> answers W cap (andthen (lift_res r) f)"
  by (cases r) (simp_all add: answers_def)

lemma answers_collect: "(\<And>v. yields W (f v)) \<Longrightarrow> length vs \<le> cap \<Longrightarrow> answers W cap (collect f vs)"
  unfolding answers_def using collect_yields [of W f vs] by (blast intro: order_trans)

lemma slice_length: "slice v n = Inr vs \<Longrightarrow> length vs \<le> n"
  by (cases v) auto

lemma answers_haiku: "answers (well_formed HAIKU ts) 4 (haiku_parse_intents repr decode text ts)"
  by (auto simp: haiku_parse_intents_def Let_def haiku_max_intents_def split: option.split simp del: ids_simps
      intro!: answers_Nil answers_lift answers_collect yields_haiku dest: slice_length)

lemma answers_sonnet: "answers (well_formed SONNET ts) 5 (sonnet_parse_intents repr decode text ts)"
  by (auto simp: sonnet_parse_intents_def sonnet_max_intents_def bindr_Inr_iff split: option.split simp del: ids_simps
      intro!: answers_Nil answers_lift answers_collect yields_sonnet dest: slice_length)

lemma answers_opus:
  "answers (\<lambda>x. well_formed OPUS ts x \<and> starter_ok (holdings < 5) x) (if holdings < 5 then 5 - holdings else 3)
     (parse_daily_intents repr decode text ts holdings)"
proof -
  have "intent_cap holdings = (if holdings < 5 then 5 - holdings else 3)"
    by (auto simp: intent_cap_def target_holdings_def initiation_max_starters_def opus_max_intents_def)
  then show ?thesis
    by (auto simp: parse_daily_intents_def Let_def bindr_Inr_iff target_holdings_def simp del: ids_simps
        intro!: answers_Nil answers_lift answers_collect yields_opus dest: slice_length)
qed

text \<open>The memory only knows ids that have been drawn.\<close>

definition mind_ok :: "mind \<Rightarrow> bool" where
  "mind_ok s \<longleftrightarrow> (\<forall>r\<in>set (md_intents (mi_memory s)). ir_id r < mi_fresh s)"

definition open_row :: "agent_id \<Rightarrow> intent \<Rightarrow> intent_row" where
  "open_row a x = \<lparr>ir_id = i_id x, ir_agent = a, ir_symbol = i_symbol x, ir_action = action_text (i_action x),
     ir_conviction = i_conviction x, ir_rationale = i_rationale x, ir_outcome = None, ir_logged_at = i_timestamp x,
     ir_weight = Some (i_target_weight x)\<rparr>"

lemma open_row_fields [simp]: "ir_id (open_row a x) = i_id x" "ir_outcome (open_row a x) = None"
  "ir_conviction (open_row a x) = i_conviction x" "ir_agent (open_row a x) = a"
  by (simp_all add: open_row_def)

lemma log_intents_rows:
  assumes "distinct (map i_id xs)" "\<forall>x\<in>set xs. i_id x \<notin> ir_id ` set (md_intents m)"
  shows "md_intents (foldl (\<lambda>m i. log_intent a i m) m xs) = md_intents m @ map (open_row a) xs"
  using assms
proof (induction xs arbitrary: m)
  case (Cons x xs)
  then have x: "md_intents (log_intent a x m) = md_intents m @ [open_row a x]"
    by (simp add: log_intent_def record_intent_def open_row_def)
  have "md_intents (foldl (\<lambda>m i. log_intent a i m) (log_intent a x m) xs)
    = md_intents (log_intent a x m) @ map (open_row a) xs"
  proof (rule Cons.IH)
    have "i_id x \<notin> i_id ` set xs" using Cons.prems by simp
    then have "i_id y \<noteq> i_id x" if "y \<in> set xs" for y using that by (metis imageI)
    with Cons.prems show "\<forall>y\<in>set xs. i_id y \<notin> ir_id ` set (md_intents (log_intent a x m))"
      by (simp add: x)
  qed (use Cons.prems in simp)
  then show ?case by (simp add: x)
qed simp

text \<open>Observing keeps the memory in step with the counter and logs exactly the returned intents, open.\<close>

definition thinks :: "(intent \<Rightarrow> bool) \<Rightarrow> nat \<Rightarrow> agent_id \<Rightarrow> intent list thought \<Rightarrow> bool" where
  "thinks W cap a m \<longleftrightarrow> (\<forall>s r t. mind_ok s \<longrightarrow> m s = (r, t) \<longrightarrow>
     mind_ok t \<and> mi_fresh s \<le> mi_fresh t \<and>
     (case r of Inl _ \<Rightarrow> md_intents (mi_memory t) = md_intents (mi_memory s)
      | Inr xs \<Rightarrow> length xs \<le> cap \<and> (\<forall>x\<in>set xs. W x) \<and> distinct (map i_id xs)
          \<and> (\<forall>x\<in>set xs. mi_fresh s \<le> i_id x)
          \<and> md_intents (mi_memory t) = md_intents (mi_memory s) @ map (open_row a) xs))"

lemma thinks_Nil: "thinks W cap a (ret [])"
  by (simp add: thinks_def ret_def)

lemma thinks_log:
  assumes "answers W cap m" "\<And>xs d. md_intents (snd (f xs d)) = md_intents d"
  shows "thinks W cap a (andthen (with_ids m) (\<lambda>xs. andthen (with_memory (f xs)) (\<lambda>_. log_intents a xs)))"
  unfolding thinks_def
proof (intro allI impI)
  fix s r t
  assume ok: "mind_ok s"
    and run: "andthen (with_ids m) (\<lambda>xs. andthen (with_memory (f xs)) (\<lambda>_. log_intents a xs)) s = (r, t)"
  obtain q n where q: "m (mi_fresh s) = (q, n)" by (cases "m (mi_fresh s)")
  have y: "mi_fresh s \<le> n" "\<And>xs. q = Inr xs \<Longrightarrow> length xs \<le> cap \<and> distinct (map i_id xs)
      \<and> (\<forall>x\<in>set xs. W x \<and> mi_fresh s \<le> i_id x \<and> i_id x < n)"
    using assms(1) q unfolding answers_def by blast+
  show "mind_ok t \<and> mi_fresh s \<le> mi_fresh t \<and>
     (case r of Inl _ \<Rightarrow> md_intents (mi_memory t) = md_intents (mi_memory s)
      | Inr xs \<Rightarrow> length xs \<le> cap \<and> (\<forall>x\<in>set xs. W x) \<and> distinct (map i_id xs)
          \<and> (\<forall>x\<in>set xs. mi_fresh s \<le> i_id x)
          \<and> md_intents (mi_memory t) = md_intents (mi_memory s) @ map (open_row a) xs)"
  proof (cases q)
    case (Inl e)
    with run q y(1) ok show ?thesis by (fastforce simp: andthen_def with_ids_def mind_ok_def)
  next
    case (Inr xs)
    obtain u d where d: "f xs (mi_memory s) = (u, d)" by (cases "f xs (mi_memory s)")
    then have md: "md_intents d = md_intents (mi_memory s)" using assms(2) [of xs "mi_memory s"] by simp
    show ?thesis
    proof (cases u)
      case (Inl e)
      with run q Inr d md y(1) ok show ?thesis
        by (fastforce simp: andthen_def with_ids_def with_memory_def mind_ok_def)
    next
      case Right: (Inr z)
      have new: "distinct (map i_id xs)" "\<forall>x\<in>set xs. i_id x \<notin> ir_id ` set (md_intents d)"
        using y(2) [OF Inr] ok by (fastforce simp: md mind_ok_def)+
      have "r = Inr xs" "mi_fresh t = n" "mi_memory t = foldl (\<lambda>m i. log_intent a i m) d xs"
        using run q Inr d Right by (auto simp: andthen_def with_ids_def with_memory_def log_intents_def)
      with log_intents_rows [OF new] md y(1) y(2) [OF Inr] ok show ?thesis
        by (fastforce simp: mind_ok_def)
    qed
  qed
qed

lemma merge_watchlist_log: "md_intents (snd (merge_watchlist repr decode text m)) = md_intents m"
  by (simp add: merge_watchlist_def andthen_def lift_res_def Let_def skip_def ret_def modify_def split: sum.split jval.split)

lemma with_memory_skip: "andthen (with_memory skip) g = g ()"
  by (simp add: fun_eq_iff andthen_def with_memory_def skip_def ret_def)

lemma thinks_log_only: "answers W cap m \<Longrightarrow> thinks W cap a (andthen (with_ids m) (log_intents a))"
  using thinks_log [of W cap m "\<lambda>_. skip" a] by (simp add: with_memory_skip) (simp add: skip_def ret_def)

lemma thinks_haiku: "thinks (well_formed HAIKU (ob_timestamp ob)) 4 HAIKU (haiku_observe repr decode reply ob)"
  by (auto simp: haiku_observe_def intro!: thinks_Nil thinks_log_only answers_haiku split: sum.split)

lemma thinks_sonnet: "thinks (well_formed SONNET (ob_timestamp ob)) 5 SONNET (sonnet_observe repr decode reply ob)"
  by (auto simp: sonnet_observe_def intro!: thinks_Nil thinks_log_only answers_sonnet split: sum.split)

abbreviation opus_slots :: "observation \<Rightarrow> nat" where
  "opus_slots ob \<equiv> if length (ob_positions ob) < 5 then 5 - length (ob_positions ob) else 3"

lemma thinks_opus:
  "thinks (\<lambda>x. well_formed OPUS (ob_timestamp ob) x \<and> starter_ok (length (ob_positions ob) < 5) x) (opus_slots ob) OPUS
     (opus_observe repr decode lite_reply reply ob)"
proof -
  have cases: "P (ret []) \<Longrightarrow> (\<And>text. P (g text)) \<Longrightarrow>
      P (if c then ret [] else case z of Inl _ \<Rightarrow> ret [] | Inr text \<Rightarrow> g text)" for P g c and z :: "exn + string"
    by (cases z) auto
  show ?thesis
    unfolding opus_observe_def Let_def
    by (rule cases) (intro thinks_Nil thinks_log answers_opus merge_watchlist_log)+
qed

lemma thinksD:
  "thinks W cap a m \<Longrightarrow> mind_ok s \<Longrightarrow> m s = (Inr xs, t) \<Longrightarrow>
   length xs \<le> cap \<and> (\<forall>x\<in>set xs. W x) \<and> distinct (map i_id xs) \<and> mind_ok t \<and>
   md_intents (mi_memory t) = md_intents (mi_memory s) @ map (open_row a) xs"
  unfolding thinks_def by fastforce

subsection \<open>Properties of observations\<close>

text \<open>
  C18 Whatever the model answers, the intents an agent returns are well formed: at most four for Haiku,
  five for Sonnet, the free slots or three for Opus, each under the agent's own id, with a conviction
  from 1 to 10, clipped texts, a new id of its own and no legs or approval flag. They are
  appended to the agent's memory as open rows, and nothing else is. (At a weight that is infinite or no number
  the model of the call ends with \<open>NotFinite\<close> instead of returning.)
\<close>

theorem observed_intents_are_well_formed:
  assumes "mind_ok s"
  shows "(\<forall>xs t. haiku_observe repr decode reply ob s = (Inr xs, t) \<longrightarrow>
      length xs \<le> 4 \<and> (\<forall>x\<in>set xs. well_formed HAIKU (ob_timestamp ob) x) \<and> distinct (map i_id xs) \<and> mind_ok t \<and>
      md_intents (mi_memory t) = md_intents (mi_memory s) @ map (open_row HAIKU) xs)
    \<and> (\<forall>xs t. sonnet_observe repr decode reply ob s = (Inr xs, t) \<longrightarrow>
      length xs \<le> 5 \<and> (\<forall>x\<in>set xs. well_formed SONNET (ob_timestamp ob) x) \<and> distinct (map i_id xs) \<and> mind_ok t \<and>
      md_intents (mi_memory t) = md_intents (mi_memory s) @ map (open_row SONNET) xs)
    \<and> (\<forall>xs t. opus_observe repr decode lite_reply reply ob s = (Inr xs, t) \<longrightarrow>
      length xs \<le> opus_slots ob \<and> (\<forall>x\<in>set xs. well_formed OPUS (ob_timestamp ob) x) \<and> distinct (map i_id xs) \<and> mind_ok t \<and>
      md_intents (mi_memory t) = md_intents (mi_memory s) @ map (open_row OPUS) xs)"
  using thinksD [OF thinks_haiku assms] thinksD [OF thinks_sonnet assms] thinksD [OF thinks_opus assms] by blast

text \<open>
  While Opus holds fewer than five names it buys starters only: at most one per free slot, each
  of at most five percent and with a conviction of at least seven.
\<close>

lemma starters_are_small:
  assumes "opus_observe repr decode lite_reply reply ob s = (Inr xs, t)" "length (ob_positions ob) < 5" "mind_ok s"
  shows "length xs \<le> 5 - length (ob_positions ob)
    \<and> (\<forall>x\<in>set xs. i_action x = BUY_ACT \<longrightarrow> i_target_weight x \<le> 5 / 100 \<and> 7 \<le> i_conviction x)"
  using thinksD [OF thinks_opus assms(3,1)] assms(2) by (auto simp: starter_ok_def)

subsection \<open>The watchlist reads back\<close>

lemma split_char_ne [simp]: "split_char c s \<noteq> []"
  by (induction s) (auto split: list.splits)

lemma split_char_word: "c \<notin> set w \<Longrightarrow> split_char c w = [w]"
  by (induction w) auto

lemma split_char_append: "c \<notin> set w \<Longrightarrow> split_char c (w @ c # s) = w # split_char c s"
  by (induction w) auto

lemma split_join: "ws \<noteq> [] \<Longrightarrow> \<forall>w\<in>set ws. c \<notin> set w \<Longrightarrow> split_char c (join_char c ws) = ws"
  by (induction c ws rule: join_char.induct) (auto simp: split_char_word split_char_append)

lemma split_no_sep: "w \<in> set (split_char c s) \<Longrightarrow> c \<notin> set w"
proof (induction s arbitrary: w)
  case (Cons x s)
  then show ?case by (auto split: if_splits list.splits)
qed simp

lemma dropWhile_idem [simp]: "dropWhile P (dropWhile P s) = dropWhile P s"
  by (induction s) auto

lemma dropWhile_ends: "dropWhile P s = [] \<or> \<not> P (hd (dropWhile P s))"
  by (induction s) auto

lemma py_strip_ends: "py_strip s = [] \<or> \<not> is_space (hd (py_strip s)) \<and> \<not> is_space (last (py_strip s))"
proof -
  let ?a = "dropWhile is_space s"
  have "py_strip s = [] \<or> \<not> is_space (last (py_strip s))"
    unfolding py_strip_def using dropWhile_ends [of is_space "rev ?a"] by (simp add: last_rev)
  moreover have "py_strip s = [] \<or> hd (py_strip s) = hd ?a"
  proof -
    have "rev (rev ?a) = rev (takeWhile is_space (rev ?a) @ dropWhile is_space (rev ?a))" by simp
    then have "?a = py_strip s @ rev (takeWhile is_space (rev ?a))"
      unfolding py_strip_def by (simp del: takeWhile_dropWhile_id)
    then show ?thesis by (metis hd_append2)
  qed
  moreover have "?a = [] \<or> \<not> is_space (hd ?a)" by (rule dropWhile_ends)
  moreover have "?a = [] \<Longrightarrow> py_strip s = []" unfolding py_strip_def by (simp only: rev.simps dropWhile.simps)
  ultimately show ?thesis by metis
qed

lemma py_strip_id: "s = [] \<or> \<not> is_space (hd s) \<and> \<not> is_space (last s) \<Longrightarrow> py_strip s = s"
proof -
  have keep: "t = [] \<or> \<not> is_space (hd t) \<Longrightarrow> dropWhile is_space t = t" for t
    by (cases t) auto
  show "s = [] \<or> \<not> is_space (hd s) \<and> \<not> is_space (last s) \<Longrightarrow> py_strip s = s"
    unfolding py_strip_def by (subst keep, blast, subst keep) (auto simp: hd_rev)
qed

lemma upper_code:
  "of_char (upper_char c) = (let n = of_char c :: nat in if 97 \<le> n \<and> n \<le> 122 then n - 32 else n)"
  by (auto simp: upper_char_def Let_def)

lemma upper_char_facts [simp]:
  "is_space (upper_char c) = is_space c" "upper_char (upper_char c) = upper_char c"
  "upper_char c = CHR '','' \<longleftrightarrow> c = CHR '',''"
proof -
  show "is_space (upper_char c) = is_space c"
    by (auto simp: is_space_def upper_code Let_def)
  have "of_char (upper_char (upper_char c)) = (of_char (upper_char c) :: nat)"
    by (auto simp: upper_code Let_def)
  then show "upper_char (upper_char c) = upper_char c" by (simp only: of_char_eq_iff)
  have "of_char (upper_char c) = (44 :: nat) \<longleftrightarrow> of_char c = (44 :: nat)"
    by (auto simp: upper_code Let_def)
  moreover have "of_char CHR '','' = (44 :: nat)" by simp
  ultimately show "upper_char c = CHR '','' \<longleftrightarrow> c = CHR '',''" by (metis of_char_eq_iff)
qed

text \<open>A name in the form the watchlist stores it.\<close>

definition clean :: "string \<Rightarrow> bool" where
  "clean s \<longleftrightarrow> s \<noteq> [] \<and> py_upper (py_strip s) = s"

lemma clean_upper_strip: "py_upper (py_strip s) \<noteq> [] \<Longrightarrow> clean (py_upper (py_strip s))"
proof -
  let ?t = "py_upper (py_strip s)"
  assume "?t \<noteq> []"
  then have ne: "py_strip s \<noteq> []" by (simp add: py_upper_def)
  then have "\<not> is_space (hd ?t) \<and> \<not> is_space (last ?t)"
    using py_strip_ends [of s] by (simp add: py_upper_def list.map_sel last_map)
  then have "py_strip ?t = ?t" by (intro py_strip_id) simp
  with \<open>?t \<noteq> []\<close> show "clean ?t" by (simp add: clean_def) (simp add: py_upper_def)
qed

lemma strip_set: "set (py_strip s) \<subseteq> set s"
  unfolding py_strip_def by (metis set_dropWhileD set_rev subsetI)

lemma comma_upper_strip: "CHR '','' \<notin> set s \<Longrightarrow> CHR '','' \<notin> set (py_upper (py_strip s))"
  using strip_set [of s] by (auto simp: py_upper_def dest!: sym [of "CHR '',''"])

lemma merge_names_append: "merge_names (xs @ [x]) = (if x \<in> set (merge_names xs) then merge_names xs else merge_names xs @ [x])"
  by (simp add: merge_names_def)

lemma merge_names_facts: "set (merge_names xs) = set xs" "distinct (merge_names xs)"
proof -
  have [simp]: "merge_names [] = []" by (simp add: merge_names_def)
  show "set (merge_names xs) = set xs" "distinct (merge_names xs)"
    by (induction xs rule: rev_induct) (auto simp: merge_names_append)
qed

lemma watchlist_clean:
  "w \<in> set (get_watchlist m) \<Longrightarrow> clean w \<and> CHR '','' \<notin> set w"
  unfolding get_watchlist_def by (auto simp del: split_char.simps intro!: clean_upper_strip) (metis comma_upper_strip split_no_sep)

lemma clean_names_clean: "w \<in> set (clean_names repr vs) \<Longrightarrow> clean w"
  by (auto simp: clean_names_def clean_upper_strip)

text \<open>Writing clean names and reading them back.\<close>

lemma watchlist_written:
  assumes "ws \<noteq> []" "\<forall>w\<in>set ws. clean w \<and> CHR '','' \<notin> set w"
  shows "get_watchlist (remember OPUS watchlist_key (join_char CHR '','' ws) m) = ws"
proof -
  have "map (\<lambda>s. py_upper (py_strip s)) ws = ws" "filter (\<lambda>s. s \<noteq> []) ws = ws"
    using assms(2) by (auto simp: clean_def intro!: map_idI filter_True)
  then show ?thesis
    using assms by (simp add: get_watchlist_def split_join)
qed

text \<open>
  The watchlist reads back: after an answer whose additions contain no comma, Opus reads the
  cleaned additions followed by its former list, without duplicates and cut to twenty names.
\<close>

lemma watchlist_reads_back:
  assumes "opus_json decode text = VObject d" "dict_get d ''watchlist_add'' = Some (VList vs)"
    "\<forall>v\<in>set vs. CHR '','' \<notin> set (py_str repr v)" "clean_names repr vs \<noteq> []"
  shows "get_watchlist (snd (merge_watchlist repr decode text m))
      = take 20 (merge_names (clean_names repr vs @ get_watchlist m))"
    and "distinct (get_watchlist (snd (merge_watchlist repr decode text m)))"
proof -
  let ?ws = "take 20 (merge_names (clean_names repr vs @ get_watchlist m))"
  have "merge_names (clean_names repr vs @ get_watchlist m) \<noteq> []"
    using assms(4) merge_names_facts(1) [of "clean_names repr vs @ get_watchlist m"] by auto
  moreover have "\<forall>w\<in>set ?ws. clean w \<and> CHR '','' \<notin> set w"
  proof
    fix w assume "w \<in> set ?ws"
    then have "w \<in> set (clean_names repr vs) \<or> w \<in> set (get_watchlist m)"
      using merge_names_facts(1) [of "clean_names repr vs @ get_watchlist m"] by (auto dest: in_set_takeD)
    then show "clean w \<and> CHR '','' \<notin> set w"
    proof
      assume "w \<in> set (clean_names repr vs)"
      moreover from this obtain v where "v \<in> set vs" "w = py_upper (py_strip (py_str repr v))"
        by (auto simp: clean_names_def)
      ultimately show ?thesis using assms(3) clean_names_clean comma_upper_strip by metis
    qed (rule watchlist_clean)
  qed
  ultimately show read: "get_watchlist (snd (merge_watchlist repr decode text m)) = ?ws"
    using assms by (simp add: merge_watchlist_def dict_get_or_def andthen_def lift_res_def Let_def modify_def
        watchlist_max_def watchlist_written)
  show "distinct (get_watchlist (snd (merge_watchlist repr decode text m)))"
    unfolding read by (simp add: merge_names_facts(2) distinct_take)
qed

subsection \<open>Examples\<close>

definition sample_item :: "string \<Rightarrow> decimal \<Rightarrow> jval" where
  "sample_item act w = VObject [(''action'', VText act), (''symbol'', VText ''AAPL''), (''target_weight'', VFloat (Finite w)),
     (''conviction'', VInt 12)]"

definition sample_answer :: "jval list \<Rightarrow> jval" where
  "sample_answer vs = VObject [(''intents'', VList vs), (''watchlist_add'', VList [VText '' nvda '', VText ''AAPL''])]"

definition sample_observation :: observation where
  "sample_observation = \<lparr>ob_timestamp = 7, ob_positions = [], ob_kill = OK\<rparr>"

definition sample_mind :: mind where
  "sample_mind = \<lparr>mi_fresh = 3, mi_memory = empty_memory\<rparr>"

lemma sample_mind_ok: "mind_ok sample_mind"
  by (simp add: mind_ok_def sample_mind_def empty_memory_def)

lemma sample_haiku:
  "fst (haiku_observe repr (\<lambda>_. Some (sample_answer [sample_item ''buy'' (1 / 10), sample_item ''wait'' 1])) (Inr []) sample_observation sample_mind)
   = Inr [new_intent 3 HAIKU ''AAPL'' BUY_ACT (1 / 10) EQUITY_SLEEVE [] 10 [] 7 []]"
  by (simp add: haiku_observe_def sample_observation_def andthen_def with_ids_def haiku_parse_intents_def parse_json_object_def
      loads_lenient_def sample_answer_def sample_item_def dict_get_or_def Let_def lift_res_def skipping_def haiku_max_intents_def
      haiku_item_def draw_id_def conviction_of_def ret_def log_intents_def sample_mind_def)

theorem observed_intents_are_well_formed_witness:
  "\<exists>xs t. haiku_observe (\<lambda>_. []) (\<lambda>_. Some (sample_answer [sample_item ''buy'' (1 / 10), sample_item ''wait'' 1])) (Inr [])
      sample_observation sample_mind = (Inr xs, t) \<and> length xs = 1 \<and> (\<forall>x\<in>set xs. well_formed HAIKU 7 x) \<and> mind_ok t"
proof -
  let ?run = "haiku_observe (\<lambda>_. []) (\<lambda>_. Some (sample_answer [sample_item ''buy'' (1 / 10), sample_item ''wait'' 1])) (Inr [])
      sample_observation sample_mind"
  obtain r t where run: "?run = (r, t)" by (cases ?run)
  with sample_haiku [of "\<lambda>_. []"] obtain xs where xs: "r = Inr xs" "length xs = 1" by fastforce
  show ?thesis
    using observed_intents_are_well_formed [OF sample_mind_ok, THEN conjunct1, rule_format, OF run [unfolded xs(1)]] xs run
    by (auto simp: sample_observation_def)
qed

lemma sample_opus:
  "fst (opus_observe repr (\<lambda>_. Some (sample_answer [sample_item ''add'' (1 / 2)])) (Inr []) (Inl ValueError) sample_observation sample_mind)
   = Inr [new_intent 3 OPUS ''AAPL'' BUY_ACT (5 / 100) EQUITY_SLEEVE [] 10 [] 7 []]"
  by (simp add: opus_observe_def sample_observation_def andthen_def with_ids_def parse_daily_intents_def opus_json_def
      loads_lenient_def sample_answer_def sample_item_def dict_get_or_def Let_def lift_res_def skipping_def intent_cap_def
      target_holdings_def initiation_max_starters_def starter_weight_def initiation_max_weight_def opus_action_map_def
      opus_item_def draw_id_def conviction_of_def ret_def log_intents_def sample_mind_def with_memory_def merge_watchlist_def
      modify_def skip_def)

lemma starters_are_small_example:
  "\<exists>x t. opus_observe (\<lambda>_. []) (\<lambda>_. Some (sample_answer [sample_item ''add'' (1 / 2)])) (Inr []) (Inl ValueError)
      sample_observation sample_mind = (Inr [x], t) \<and> i_action x = BUY_ACT \<and> i_target_weight x \<le> 5 / 100"
proof -
  let ?run = "opus_observe (\<lambda>_. []) (\<lambda>_. Some (sample_answer [sample_item ''add'' (1 / 2)])) (Inr []) (Inl ValueError) sample_observation sample_mind"
  obtain r t where run: "?run = (r, t)" by (cases ?run)
  let ?x = "new_intent 3 OPUS ''AAPL'' BUY_ACT (5 / 100) EQUITY_SLEEVE [] 10 [] 7 []"
  have r: "r = Inr [?x]" using sample_opus [of "\<lambda>_. []"] run by simp
  have few: "length (ob_positions sample_observation) < 5" by (simp add: sample_observation_def)
  show ?thesis
    using starters_are_small [OF run [unfolded r] few sample_mind_ok] run r by auto
qed

lemma watchlist_reads_back_example:
  "get_watchlist (snd (merge_watchlist repr (\<lambda>_. Some (sample_answer [])) [] empty_memory)) = [''NVDA'', ''AAPL'']"
proof -
  have c: "clean_names repr [VText '' nvda '', VText ''AAPL''] = [''NVDA'', ''AAPL'']"
  proof -
    have "py_upper (py_strip '' nvda '') = ''NVDA''" "py_upper (py_strip ''AAPL'') = ''AAPL''"
      by code_simp+
    then show ?thesis by (simp add: clean_names_def)
  qed
  have "get_watchlist empty_memory = []"
    by (simp add: get_watchlist_def recall_def empty_memory_def py_strip_def py_upper_def)
  then show ?thesis
    using watchlist_reads_back(1) [of "\<lambda>_. Some (sample_answer [])" "[]" "[(''intents'', VList []),
        (''watchlist_add'', VList [VText '' nvda '', VText ''AAPL''])]" "[VText '' nvda '', VText ''AAPL'']" repr empty_memory] c
    by (simp add: opus_json_def loads_lenient_def sample_answer_def merge_names_def)
qed

text \<open>The starter guard looks at \<open>BUY_ACT\<close> only: with \<open>REBALANCE_TO\<close> a first position of any size is proposed.\<close>

lemma rebalance_skips_the_starter_guard:
  "fst (opus_item repr [] 0 True (sample_item ''rebalance_to'' 3) n)
   = Inr (Some (new_intent n OPUS ''AAPL'' REBALANCE_TO 3 EQUITY_SLEEVE [] 10 [] 0 []))"
  by (simp add: opus_item_def sample_item_def dict_get_or_def opus_action_map_def Let_def conviction_of_def starter_weight_def ret_def)

lemma decimal_texts:
  "number_of_text '' 0.25 '' = Some (Finite (1 / 4))" "number_of_text ''-2e1'' = Some (Finite (- 20))" "number_of_text ''5%'' = None"
  "number_of_text ''NaN'' = Some (Not_a_number False)" "number_of_text ''-Infinity'' = Some (Infinite True)"
  "int_of_text ''1_0'' = Some 10" "int_of_text ''7.5'' = None"
  by (code_simp; simp)+

end
