(* ===== verification/Recorders.thy ===== *)
theory Recorders
  imports Agents OMS Lots
begin

text \<open>
  What becomes of an intent: \<^verbatim>\<open>agents/outcome_recorder.py\<close> writes the outcome of its order into the
  memory of its agent, \<^verbatim>\<open>agents/calibration_recorder.py\<close> scores the closed lots of a sale
  against the conviction of the intent that opened them, in the table of \<^verbatim>\<open>agents/calibration.py\<close>.
  The orders the OMS knows when a handler runs are a parameter (\<open>orders\<close>). The averages of the
  calibration table, in floating point, are in \<open>Server\<close>.
\<close>

subsection \<open>Outcomes\<close>

record recorder =
  rc_index :: "(order_id, intent_id \<times> agent_id) dict"
  rc_memories :: "(agent_id, memory_db) dict"

definition max_outcome_len :: nat where "max_outcome_len = 120"

definition write_outcome :: "intent_id \<times> agent_id \<Rightarrow> string \<Rightarrow> recorder \<Rightarrow> recorder" where
  "write_outcome who oc r = (case who of (i, a) \<Rightarrow> (case dict_get (rc_memories r) a of
       None \<Rightarrow> r
     | Some m \<Rightarrow> r\<lparr>rc_memories := dict_set a (record_outcome_row i (take max_outcome_len oc) m) (rc_memories r)\<rparr>))"

definition owner_of :: "order \<Rightarrow> intent_id \<times> agent_id" where
  "owner_of ord = (o_intent_id ord, o_agent_id ord)"

definition on_order_placed :: "order \<Rightarrow> recorder \<Rightarrow> recorder" where
  "on_order_placed ord r = r\<lparr>rc_index := dict_set (o_id ord) (owner_of ord) (rc_index r)\<rparr>"

definition forget :: "order_id \<Rightarrow> recorder \<Rightarrow> recorder" where
  "forget oid r = r\<lparr>rc_index := dict_del oid (rc_index r)\<rparr>"

definition on_fill :: "(order_id \<Rightarrow> order option) \<Rightarrow> fill \<Rightarrow> recorder \<Rightarrow> recorder" where
  "on_fill orders f r =
     (if f_is_partial f then r
      else case dict_get (rc_index r) (f_order_id f) of
        Some who \<Rightarrow> write_outcome who ''filled'' (forget (f_order_id f) r)
      | None \<Rightarrow> (case orders (f_order_id f) of
          None \<Rightarrow> r
        | Some ord \<Rightarrow> write_outcome (owner_of ord) ''filled'' r))"

fun failure_text :: "order_state \<Rightarrow> string option" where
  "failure_text REJECTED = Some ''rejected''"
| "failure_text CANCELLED = Some ''cancelled''"
| "failure_text EXPIRED = Some ''expired''"
| "failure_text _ = None"

definition with_reason :: "string \<Rightarrow> order option \<Rightarrow> string" where
  "with_reason kind ord = (case Option.bind ord o_rejection_reason of
       None \<Rightarrow> kind
     | Some reason \<Rightarrow> if reason = [] then kind else kind @ '':'' @ reason)"

definition on_state_changed :: "(order_id \<Rightarrow> order option) \<Rightarrow> order_id \<Rightarrow> order_state \<Rightarrow> recorder \<Rightarrow> recorder" where
  "on_state_changed orders oid st r = (case failure_text st of
       None \<Rightarrow> r
     | Some kind \<Rightarrow> (case dict_get (rc_index r) oid of
         Some who \<Rightarrow> write_outcome who (with_reason kind (orders oid)) (forget oid r)
       | None \<Rightarrow> (case orders oid of
           None \<Rightarrow> r
         | Some ord \<Rightarrow> write_outcome (owner_of ord) (with_reason kind (orders oid)) r)))"

fun record_event :: "(order_id \<Rightarrow> order option) \<Rightarrow> bus_event \<Rightarrow> recorder \<Rightarrow> recorder" where
  "record_event orders (OrderPlaced ord) r = on_order_placed ord r"
| "record_event orders (FillReceived f) r = on_fill orders f r"
| "record_event orders (OrderStateChanged oid old st ts) r = on_state_changed orders oid st r"
| "record_event orders _ r = r"

definition record_events :: "((order_id \<Rightarrow> order option) \<times> bus_event) list \<Rightarrow> recorder \<Rightarrow> recorder" where
  "record_events es r = foldl (\<lambda>r (orders, e). record_event orders e r) r es"

subsection \<open>Calibration\<close>

record cal_row =
  cr_intent :: string
  cr_agent :: string
  cr_conviction :: int
  cr_outcome :: string

text \<open>\<^verbatim>\<open>INSERT OR REPLACE\<close>: an earlier row of the intent is deleted.\<close>

definition record_calibration :: "cal_row \<Rightarrow> cal_row list \<Rightarrow> cal_row list" where
  "record_calibration x rows = filter (\<lambda>r. cr_intent r \<noteq> cr_intent x) rows @ [x]"

definition bucket_of :: "int \<Rightarrow> string" where
  "bucket_of conv = (if conv \<le> 3 then ''low (1-3)'' else if conv \<le> 6 then ''medium (4-6)'' else ''high (7-10)'')"

definition calibration_counts :: "string option \<Rightarrow> cal_row list \<Rightarrow> (string \<times> nat \<times> nat) list" where
  "calibration_counts agent rows =
     (let mine = filter (\<lambda>r. agent = None \<or> agent = Some (cr_agent r)) rows in
      map (\<lambda>b. let xs = filter (\<lambda>r. bucket_of (cr_conviction r) = b) mine in
             (b, length xs, length (filter (\<lambda>r. cr_outcome r = ''win'') xs)))
        [''low (1-3)'', ''medium (4-6)'', ''high (7-10)''])"

definition flat_deadband :: decimal where "flat_deadband = 5 / 1000"

definition classify :: "decimal \<Rightarrow> decimal \<Rightarrow> string" where
  "classify entry exit = (let pct = ddiv (dsub exit entry) entry in
     if flat_deadband < pct then ''win'' else if pct < - flat_deadband then ''loss'' else ''flat'')"

definition short_agent :: "string \<Rightarrow> string" where
  "short_agent s = py_lower (last (split_char CHR ''.'' s))"

text \<open>
  The text of a payload value where it can be that of an id; the other kinds have texts that no
  id has.
\<close>

fun id_text :: "pyval option \<Rightarrow> string" where
  "id_text (Some (PStr s)) = s"
| "id_text (Some (PUuid u)) = uuid_text u"
| "id_text _ = []"

definition fill_ref :: "payload \<Rightarrow> string" where
  "fill_ref p = (if id_text (dict_get p ''fill_id'') \<noteq> [] then id_text (dict_get p ''fill_id'') else id_text (dict_get p ''id''))"

definition conviction_from_memory :: "(agent_id, memory_db) dict \<Rightarrow> string \<Rightarrow> string \<Rightarrow> int" where
  "conviction_from_memory memories short i =
     (case List.find (\<lambda>(a, m). short_agent (agent_str a) = short) memories of
        None \<Rightarrow> 0
      | Some (a, m) \<Rightarrow> (case conviction_by_intent_id i m of None \<Rightarrow> 0 | Some c \<Rightarrow> c))"

definition lookup_opening_intent :: "oms_store \<Rightarrow> (agent_id, memory_db) dict \<Rightarrow> fill_id \<Rightarrow> (string \<times> int) option" where
  "lookup_opening_intent st memories fid =
     (case List.find (\<lambda>e. e_kind e = FILL_RECEIVED \<and> fill_ref (e_payload e) = uuid_text fid) (iter_all st) of
        None \<Rightarrow> None
      | Some e \<Rightarrow>
          (case List.find (\<lambda>e. e_kind e = ORDER_SUBMIT_INTENT) (iter_for_order (e_order_id e) st) of
             None \<Rightarrow> None
           | Some sub \<Rightarrow>
               (let i = id_text (dict_get (e_payload sub) ''intent_id'');
                    conv = conviction_from_memory memories (short_agent (id_text (dict_get (e_payload sub) ''agent_id''))) i
                in if i = [] \<or> conv \<le> 0 then None else Some (i, conv))))"

definition record_for_lot :: "oms_store \<Rightarrow> (agent_id, memory_db) dict \<Rightarrow> cal_row list \<Rightarrow> lot \<Rightarrow> cal_row list" where
  "record_for_lot st memories rows l = (case l_exit_price l of
       None \<Rightarrow> rows
     | Some x \<Rightarrow>
         if l_entry_price l \<le> 0 then rows
         else (case lookup_opening_intent st memories (l_entry_fill_id l) of
             None \<Rightarrow> rows
           | Some (i, conv) \<Rightarrow> record_calibration
               \<lparr>cr_intent = i, cr_agent = short_agent (agent_str (l_agent_id l)), cr_conviction = conv,
                cr_outcome = classify (l_entry_price l) x\<rparr> rows))"

definition calibrate_fill :: "ledger \<Rightarrow> oms_store \<Rightarrow> (agent_id, memory_db) dict \<Rightarrow> fill \<Rightarrow> cal_row list \<Rightarrow> cal_row list" where
  "calibrate_fill g st memories f rows =
     (if f_side f \<noteq> SELL then rows else foldl (record_for_lot st memories) rows (lots_by_exit_fill (f_id f) g))"

subsection \<open>The last word on an order\<close>

definition verdict :: "order_id \<Rightarrow> (order_id \<Rightarrow> order option) \<times> bus_event \<Rightarrow> string option" where
  "verdict oid x = (case x of (orders, e) \<Rightarrow> (case e of
       FillReceived f \<Rightarrow> if f_order_id f = oid \<and> \<not> f_is_partial f then Some ''filled'' else None
     | OrderStateChanged k old st ts \<Rightarrow>
         if k = oid then map_option (\<lambda>kind. with_reason kind (orders oid)) (failure_text st) else None
     | _ \<Rightarrow> None))"

definition outcome_after :: "order_id \<Rightarrow> ((order_id \<Rightarrow> order option) \<times> bus_event) list \<Rightarrow> string option \<Rightarrow> string option" where
  "outcome_after oid es start = foldl (\<lambda>oc x. case verdict oid x of None \<Rightarrow> oc | Some v \<Rightarrow> Some (take 120 v)) start es"

definition outcome_row :: "agent_id \<Rightarrow> intent_id \<Rightarrow> recorder \<Rightarrow> intent_row option" where
  "outcome_row a i r = Option.bind (dict_get (rc_memories r) a) (row_by_id i)"

text \<open>Every order an event or a lookup mentions belongs to the intent \<open>own\<close> gives it.\<close>

definition owners_agree :: "(order_id \<Rightarrow> intent_id \<times> agent_id) \<Rightarrow> (order_id \<Rightarrow> order option) \<times> bus_event \<Rightarrow> bool" where
  "owners_agree own x \<longleftrightarrow> (\<forall>k ord. fst x k = Some ord \<longrightarrow> owner_of ord = own k)
     \<and> (\<forall>ord. snd x = OrderPlaced ord \<longrightarrow> owner_of ord = own (o_id ord))"

definition index_agrees :: "(order_id \<Rightarrow> intent_id \<times> agent_id) \<Rightarrow> recorder \<Rightarrow> bool" where
  "index_agrees own r \<longleftrightarrow> (\<forall>k w. dict_get (rc_index r) k = Some w \<longrightarrow> w = own k)"

lemma recorder_frame [simp]:
  "rc_index (write_outcome w oc r) = rc_index r" "outcome_row a i (forget k r) = outcome_row a i r"
  "outcome_row a i (on_order_placed ord r) = outcome_row a i r"
  by (auto simp: write_outcome_def forget_def on_order_placed_def outcome_row_def split: prod.split option.split)

lemma outcome_row_write:
  "outcome_row a i (write_outcome (j, b) oc r) = map_option (\<lambda>row.
     if j = i \<and> b = a then row\<lparr>ir_outcome := Some (take 120 oc)\<rparr> else row) (outcome_row a i r)"
proof (cases "dict_get (rc_memories r) b")
  case None
  then show ?thesis by (cases "outcome_row a i r") (auto simp: write_outcome_def outcome_row_def)
next
  case (Some m)
  then show ?thesis
    by (cases "dict_get (rc_memories r) a"; cases "row_by_id i m")
      (auto simp: write_outcome_def outcome_row_def max_outcome_len_def option.map_ident)
qed

lemma index_agrees_step:
  "index_agrees own r \<Longrightarrow> owners_agree own (orders, e) \<Longrightarrow> index_agrees own (record_event orders e r)"
  by (cases e) (auto simp: index_agrees_def owners_agree_def on_order_placed_def on_fill_def on_state_changed_def
      forget_def split: option.splits if_splits)

lemma outcome_row_step:
  assumes "index_agrees own r" "owners_agree own (orders, e)" "orders oid \<noteq> None" "own oid = (i, a)"
    "\<forall>k. k \<noteq> oid \<longrightarrow> fst (own k) \<noteq> i"
  shows "outcome_row a i (record_event orders e r) = map_option (\<lambda>row.
    row\<lparr>ir_outcome := (case verdict oid (orders, e) of None \<Rightarrow> ir_outcome row | Some v \<Rightarrow> Some (take 120 v))\<rparr>) (outcome_row a i r)"
proof -
  have other: "outcome_row a i (write_outcome (own k) oc q) = outcome_row a i q" if "k \<noteq> oid" for k oc q
  proof (cases "own k")
    case (Pair j b)
    with assms(5) that have "j \<noteq> i" by (metis fst_conv)
    with Pair show ?thesis by (simp add: outcome_row_write option.map_ident)
  qed
  have mine: "outcome_row a i (write_outcome (own oid) oc q)
      = map_option (\<lambda>row. row\<lparr>ir_outcome := Some (take 120 oc)\<rparr>) (outcome_row a i q)" for oc q
    using assms(4) by (simp add: outcome_row_write)
  have either: "outcome_row a i (write_outcome (own k) oc q) = (if k = oid
      then map_option (\<lambda>row. row\<lparr>ir_outcome := Some (take 120 oc)\<rparr>) (outcome_row a i q) else outcome_row a i q)" for k oc q
    using other mine by auto
  have idx: "dict_get (rc_index r) k = Some w \<Longrightarrow> w = own k" for k w
    using assms(1) unfolding index_agrees_def by blast
  have own: "orders k = Some ord \<Longrightarrow> owner_of ord = own k" for k ord
    using assms(2) by (auto simp: owners_agree_def)
  show ?thesis
  proof (cases e)
    case (FillReceived f)
    then show ?thesis
      using assms(3) by (cases "f_order_id f = oid")
        (auto simp: on_fill_def verdict_def either own option.map_ident split: option.split dest!: idx)
  next
    case (OrderStateChanged k old st ts)
    then show ?thesis
      using assms(3) by (cases "k = oid"; cases "failure_text st")
        (auto simp: on_state_changed_def verdict_def either own option.map_ident split: option.split dest!: idx)
  qed (simp_all add: verdict_def option.map_ident)
qed

text \<open>
  The outcome in an agent's memory is the last conclusive event of the intent's order: its full fill,
  or its rejection, cancellation or expiry with the reason the order carries, cut to 120
  characters. Without such an event the outcome stays as it was; other orders have no influence.
\<close>

lemma outcome_is_the_last_word:
  assumes "own oid = (i, a)" "\<forall>k. k \<noteq> oid \<longrightarrow> fst (own k) \<noteq> i"
    and "index_agrees own r" "\<forall>x\<in>set es. owners_agree own x \<and> fst x oid \<noteq> None"
  shows "map_option ir_outcome (outcome_row a i (record_events es r))
    = map_option (\<lambda>row. outcome_after oid es (ir_outcome row)) (outcome_row a i r)"
  using assms(3,4)
proof (induction es arbitrary: r)
  case Nil
  then show ?case by (simp add: record_events_def outcome_after_def)
next
  case (Cons x es)
  obtain orders e where x: "x = (orders, e)" by (cases x)
  have agree: "owners_agree own (orders, e)" "orders oid \<noteq> None" using Cons.prems(2) by (auto simp: x)
  have "index_agrees own (record_event orders e r)"
    using Cons.prems(1) agree(1) by (rule index_agrees_step)
  moreover have "record_events (x # es) r = record_events es (record_event orders e r)"
    by (simp add: record_events_def x)
  ultimately show ?case
    using Cons.IH [of "record_event orders e r"] Cons.prems outcome_row_step [OF Cons.prems(1) agree assms(1,2)]
    by (simp add: option.map_comp o_def outcome_after_def x)
qed

subsection \<open>Scoring closed lots\<close>

lemma short_agent_str [simp]: "short_agent (agent_str a) = agent_str a"
  by (cases a) (simp_all add: short_agent_def py_lower_def lower_char_def)

lemma agent_str_eq [simp]: "agent_str a = agent_str b \<longleftrightarrow> a = b"
  by (cases a; cases b) simp_all

lemma uuid_text_ne [simp]: "uuid_text n \<noteq> []"
  by (subst uuid_text.simps) simp

lemma payload_refs [simp]:
  "fill_ref (serialize_fill f) = uuid_text (f_id f)"
  "id_text (dict_get (serialize_order ord) ''intent_id'') = uuid_text (o_intent_id ord)"
  "id_text (dict_get (serialize_order ord) ''agent_id'') = agent_str (o_agent_id ord)"
  by (simp_all add: fill_ref_def serialize_fill_def serialize_order_def)

lemma find_first: "(\<forall>x\<in>set xs. \<not> P x) \<Longrightarrow> P y \<Longrightarrow> List.find P (xs @ y # ys) = Some y"
  by (induction xs) auto

lemma conviction_from_memory_row:
  assumes "dict_get memories a = Some m" "row_by_id i m = Some row"
  shows "conviction_from_memory memories (agent_str a) (uuid_text i) = ir_conviction row"
proof -
  have "List.find (\<lambda>(b, m). b = a) memories = Some (a, m)"
    using assms(1) by (induction memories) (auto split: if_splits)
  then show ?thesis
    using assms(2) by (simp add: conviction_from_memory_def conviction_of_row)
qed

text \<open>A verdict of a win or a loss has the sign of the realized return.\<close>

lemma classify_sign:
  assumes "0 < entry"
  shows "classify entry exit = ''win'' \<Longrightarrow> entry < exit" "classify entry exit = ''loss'' \<Longrightarrow> exit < entry"
    "entry = exit \<Longrightarrow> classify entry exit = ''flat''"
proof -
  show "classify entry exit = ''win'' \<Longrightarrow> entry < exit"
  proof (rule ccontr)
    assume w: "classify entry exit = ''win''" and "\<not> entry < exit"
    then have "dsub exit entry \<le> 0" by (simp add: dsub_def)
    then have "ddiv (dsub exit entry) entry \<le> 0" using assms by (simp add: ddiv_def divide_le_0_iff)
    with w show False by (auto simp: classify_def Let_def flat_deadband_def split: if_splits)
  qed
  show "classify entry exit = ''loss'' \<Longrightarrow> exit < entry"
  proof (rule ccontr)
    assume w: "classify entry exit = ''loss''" and "\<not> exit < entry"
    then have "0 \<le> dsub exit entry" by (simp add: dsub_def)
    then have "0 \<le> ddiv (dsub exit entry) entry" using assms by (simp add: ddiv_def)
    with w show False by (auto simp: classify_def Let_def flat_deadband_def split: if_splits)
  qed
  show "entry = exit \<Longrightarrow> classify entry exit = ''flat''"
    by (simp add: classify_def dsub_def ddiv_def flat_deadband_def)
qed

lemma lookup_opening:
  assumes "iter_all st = pre @ sub # mid @ ent # post"
    and "e_kind sub = ORDER_SUBMIT_INTENT" "e_payload sub = serialize_order ord" "e_order_id sub = oid"
    and "e_kind ent = FILL_RECEIVED" "e_payload ent = serialize_fill f" "e_order_id ent = oid"
    and "\<forall>e\<in>set pre. e_order_id e = oid \<longrightarrow> e_kind e \<noteq> ORDER_SUBMIT_INTENT"
    and "\<forall>e\<in>set (pre @ mid). e_kind e = FILL_RECEIVED \<longrightarrow> fill_ref (e_payload e) \<noteq> uuid_text (f_id f)"
    and "dict_get memories (o_agent_id ord) = Some m" "row_by_id (o_intent_id ord) m = Some row" "0 < ir_conviction row"
  shows "lookup_opening_intent st memories (f_id f) = Some (uuid_text (o_intent_id ord), ir_conviction row)"
proof -
  have "List.find (\<lambda>e. e_kind e = FILL_RECEIVED \<and> fill_ref (e_payload e) = uuid_text (f_id f)) ((pre @ sub # mid) @ ent # post) = Some ent"
    using assms(2,5,6,9) by (intro find_first) auto
  moreover have "iter_for_order oid st = filter (\<lambda>e. e_order_id e = oid) pre @ sub # filter (\<lambda>e. e_order_id e = oid) (mid @ ent # post)"
    using assms(1,4) by (simp add: iter_for_order_filter)
  then have "List.find (\<lambda>e. e_kind e = ORDER_SUBMIT_INTENT) (iter_for_order oid st) = Some sub"
    using assms(2,8) by (simp add: find_first)
  ultimately show ?thesis
    using assms by (simp add: lookup_opening_intent_def conviction_from_memory_row Let_def)
qed

text \<open>
  When a sale closes a lot, the calibration table gets exactly one row for the intent that opened the
  lot, with the conviction that intent had when it was emitted and a verdict by the realized return:
  a win only if the exit price is above the entry price, a loss only if it is below.
\<close>

lemma closed_lot_is_scored:
  assumes "iter_all st = pre @ sub # mid @ ent # post"
    and "e_kind sub = ORDER_SUBMIT_INTENT" "e_payload sub = serialize_order ord" "e_order_id sub = oid"
    and "e_kind ent = FILL_RECEIVED" "e_payload ent = serialize_fill f" "e_order_id ent = oid"
    and "\<forall>e\<in>set pre. e_order_id e = oid \<longrightarrow> e_kind e \<noteq> ORDER_SUBMIT_INTENT"
    and "\<forall>e\<in>set (pre @ mid). e_kind e = FILL_RECEIVED \<longrightarrow> fill_ref (e_payload e) \<noteq> uuid_text (f_id f)"
    and "dict_get memories (o_agent_id ord) = Some m" "row_by_id (o_intent_id ord) m = Some row" "0 < ir_conviction row"
    and "f_side sale = SELL" "lots_by_exit_fill (f_id sale) g = [l]"
    and "l_entry_fill_id l = f_id f" "l_exit_price l = Some x" "0 < l_entry_price l"
  shows "filter (\<lambda>r. cr_intent r = uuid_text (o_intent_id ord)) (calibrate_fill g st memories sale rows)
      = [\<lparr>cr_intent = uuid_text (o_intent_id ord), cr_agent = agent_str (l_agent_id l), cr_conviction = ir_conviction row,
          cr_outcome = classify (l_entry_price l) x\<rparr>]
    \<and> filter (\<lambda>r. cr_intent r \<noteq> uuid_text (o_intent_id ord)) (calibrate_fill g st memories sale rows)
      = filter (\<lambda>r. cr_intent r \<noteq> uuid_text (o_intent_id ord)) rows
    \<and> (classify (l_entry_price l) x = ''win'' \<longrightarrow> l_entry_price l < x)
    \<and> (classify (l_entry_price l) x = ''loss'' \<longrightarrow> x < l_entry_price l)"
proof -
  have "lookup_opening_intent st memories (l_entry_fill_id l) = Some (uuid_text (o_intent_id ord), ir_conviction row)"
    unfolding assms(15) by (rule lookup_opening [OF assms(1-12)])
  then have "calibrate_fill g st memories sale rows = record_calibration \<lparr>cr_intent = uuid_text (o_intent_id ord),
      cr_agent = agent_str (l_agent_id l), cr_conviction = ir_conviction row, cr_outcome = classify (l_entry_price l) x\<rparr> rows"
    using assms(13,14,16,17) by (simp add: calibrate_fill_def record_for_lot_def)
  then show ?thesis using classify_sign(1,2) [OF assms(17)] by (auto simp: record_calibration_def)
qed

subsection \<open>Examples\<close>

definition tried_order :: order where
  "tried_order = (ghost_order 0 40 BUY ''SPY'' 3 SONNET 0)\<lparr>o_rejection_reason := Some ''halted''\<rparr>"

definition tried_memory :: memory_db where
  "tried_memory = record_intent SONNET 40 ''SPY'' ''buy'' 8 ''trend'' 0 (Some (1 / 10)) empty_memory"

definition tried_recorder :: recorder where
  "tried_recorder = \<lparr>rc_index = [], rc_memories = [(SONNET, tried_memory)]\<rparr>"

definition know :: "order_id \<Rightarrow> order option" where
  "know k = (if k = 0 then Some tried_order else None)"

lemma tried_row: "row_by_id 40 tried_memory = Some \<lparr>ir_id = 40, ir_agent = SONNET, ir_symbol = ''SPY'', ir_action = ''buy'',
    ir_conviction = 8, ir_rationale = ''trend'', ir_outcome = None, ir_logged_at = 0, ir_weight = Some (1 / 10)\<rparr>"
  by (simp add: tried_memory_def row_by_id_record_intent) (simp add: row_by_id_def empty_memory_def)

lemma tried_owner: "owners_agree (\<lambda>k. (k + 40, SONNET)) (know, OrderPlaced tried_order)"
  "owners_agree (\<lambda>k. (k + 40, SONNET)) (know, OrderStateChanged k a b ts)"
  by (auto simp: owners_agree_def know_def tried_order_def ghost_order_def owner_of_def split: if_splits)

lemma outcome_is_the_last_word_example:
  "map_option ir_outcome (outcome_row SONNET 40 (record_events
     [(know, OrderPlaced tried_order), (know, OrderStateChanged 0 SUBMITTED REJECTED 5)] tried_recorder))
   = Some (Some ''rejected:halted'')"
proof -
  have "index_agrees (\<lambda>k. (k + 40, SONNET)) tried_recorder" by (simp add: index_agrees_def tried_recorder_def)
  moreover have "outcome_row SONNET 40 tried_recorder \<noteq> None" "map_option ir_outcome (outcome_row SONNET 40 tried_recorder) = Some None"
    by (simp_all add: outcome_row_def tried_recorder_def tried_row)
  moreover have "outcome_after 0 [(know, OrderPlaced tried_order), (know, OrderStateChanged 0 SUBMITTED REJECTED 5)] None
      = Some ''rejected:halted''"
    by (simp add: outcome_after_def verdict_def with_reason_def know_def tried_order_def)
  ultimately show ?thesis
    using outcome_is_the_last_word [of "\<lambda>k. (k + 40, SONNET)" 0 40 SONNET tried_recorder
        "[(know, OrderPlaced tried_order), (know, OrderStateChanged 0 SUBMITTED REJECTED 5)]"] tried_owner
    by (auto simp: know_def)
qed

text \<open>An order the OMS force-closes as filled, because its fills were missed, publishes a state change only:
  its intent stays without outcome.\<close>

lemma force_closed_stays_open:
  "verdict oid (orders, OrderStateChanged oid st FILLED ts) = None"
  "record_event orders (OrderStateChanged oid st FILLED ts) r = r"
  by (simp_all add: verdict_def on_state_changed_def)

definition tried_lot :: lot where
  "tried_lot = (sample_lot 5 1 3 0)\<lparr>l_remaining_qty := 0, l_exit_fill_id := Some 9, l_exit_date := Some 3,
     l_exit_price := Some 110, l_is_closed := True\<rparr>"

definition tried_store :: oms_store where
  "tried_store = append_event FILL_RECEIVED 0 (serialize_fill (sample_fill 1 BUY 3 0)) 1
     (append_event ORDER_SUBMIT_INTENT 0 (serialize_order tried_order) 0 [])"

lemma closed_lot_is_scored_example:
  "filter (\<lambda>r. cr_intent r = uuid_text 40) (calibrate_fill (empty_ledger None\<lparr>lg_lots := [(5, tried_lot)]\<rparr>) tried_store
      [(SONNET, tried_memory)] (sample_fill 9 SELL 3 us_per_day) [])
   = [\<lparr>cr_intent = uuid_text 40, cr_agent = ''sonnet'', cr_conviction = 8, cr_outcome = ''win''\<rparr>]"
proof -
  let ?sub = "\<lparr>e_seq = 1, e_ts = 0, e_kind = ORDER_SUBMIT_INTENT, e_order_id = 0, e_payload = serialize_order tried_order\<rparr>"
  let ?ent = "\<lparr>e_seq = 2, e_ts = 1, e_kind = FILL_RECEIVED, e_order_id = 0, e_payload = serialize_fill (sample_fill 1 BUY 3 0)\<rparr>"
  have log: "iter_all tried_store = [] @ ?sub # [] @ ?ent # []"
    by (simp add: tried_store_def iter_all_append) (simp add: append_event_def iter_all_def)
  have ord: "o_agent_id tried_order = SONNET" "o_intent_id tried_order = 40"
    by (simp_all add: tried_order_def ghost_order_def)
  have lot: "lots_by_exit_fill 9 (empty_ledger None\<lparr>lg_lots := [(5, tried_lot)]\<rparr>) = [tried_lot]"
    "l_entry_fill_id tried_lot = 1" "l_exit_price tried_lot = Some 110" "l_entry_price tried_lot = 100" "l_agent_id tried_lot = SONNET"
    by (simp_all add: lots_by_exit_fill_def all_lots_def tried_lot_def sample_lot_def)
  have "classify 100 110 = ''win''"
    by (simp add: classify_def flat_deadband_def dec_eval)
  then show ?thesis
    using closed_lot_is_scored [OF log, of tried_order 0 "sample_fill 1 BUY 3 0" "[(SONNET, tried_memory)]" tried_memory _
        "sample_fill 9 SELL 3 us_per_day" "empty_ledger None\<lparr>lg_lots := [(5, tried_lot)]\<rparr>" tried_lot 110 "[]"] ord lot tried_row
    by simp
qed

end
