(* ===== verification/Cycle.thy ===== *)
theory Cycle
  imports Agents Dispatch
begin

text \<open>
  One observation from the model's answer to the dispatch: the agents of \<open>Agents\<close> inside
  \<open>dispatch_observation\<close> of \<^verbatim>\<open>app.py\<close>, which skips an agent whose signals are unchanged.
\<close>

definition marked :: "agent_id \<Rightarrow> dispatch_env \<Rightarrow> app \<Rightarrow> (exn + unit) \<times> app" where
  "marked a env = with_tracker (update_on_mark a (ms_current_prices (de_snapshot env)) (de_now env))"

lemma marked_fingerprint [simp]: "ap_fingerprint (snd (marked a env ap)) = ap_fingerprint ap"
  by (simp add: marked_def with_tracker_def split: prod.split)

lemma marked_oms [simp]: "om_orders (ap_oms (snd (marked a env ap))) = om_orders (ap_oms ap)"
  by (simp add: marked_def with_tracker_def split: prod.split)

lemma marked_total:
  assumes "dict_get (ap_records ap) a \<noteq> None"
  obtains ap1 where "marked a env ap = (Inr (), ap1)" "ap_kill ap1 = ap_kill ap" "dict_get (ap_records ap1) a \<noteq> None"
    "ap_fingerprint ap1 = ap_fingerprint ap" "om_orders (ap_oms ap1) = om_orders (ap_oms ap)"
proof -
  obtain r where r: "dict_get (ap_records ap) a = Some r" using assms by blast
  have "fst (marked a env ap) = Inr ()" "ap_kill (snd (marked a env ap)) = ap_kill ap"
    "dict_get (ap_records (snd (marked a env ap))) a \<noteq> None"
    using r by (simp_all add: marked_def with_tracker_def update_on_mark_def tracker_of_def Let_def
        apply_bucket_with_recovery_def maybe_persist_def put_rec_def tracker_publish_def)
  then show ?thesis
    using that [of "snd (marked a env ap)"] marked_fingerprint [of a env ap] marked_oms [of a env ap]
    by (cases "marked a env ap") simp
qed

lemma dispatch_observation_marked:
  "ks_state (ap_kill ap) \<noteq> BUDGET_EXHAUSTED \<or> a = HAIKU \<Longrightarrow> marked a env ap = (Inr u, ap1) \<Longrightarrow>
   dispatch_observation a fp observed env ap =
     (if fp \<noteq> None \<and> dict_get (ap_fingerprint ap) a = fp then (Inr [], ap1)
      else case observed of
        Inl _ \<Rightarrow> (Inr [], ap1)
      | Inr intents \<Rightarrow> (case foldl (dispatch_intent env)
          ([], case fp of None \<Rightarrow> ap1 | Some x \<Rightarrow> ap1\<lparr>ap_fingerprint := dict_set a x (ap_fingerprint ap1)\<rparr>) intents of
          (acc, ap3) \<Rightarrow> (Inr acc, ap3)))"
  using marked_fingerprint [of a env ap]
  by (auto simp: dispatch_observation_def marked_def Let_def split: sum.split)

text \<open>What an agent returns when the call of the model raised.\<close>

lemma failed_calls:
  "fst (haiku_observe repr decode (Inl e) ob s) = Inr []"
  "fst (sonnet_observe repr decode (Inl e) ob s) = Inr []"
  "fst (opus_observe repr decode (Inl e) (Inl e) ob s) = Inr []"
  by (simp_all add: haiku_observe_def sonnet_observe_def opus_observe_def ret_def Let_def)

text \<open>Ticks of one agent with the same fingerprint; \<open>answer\<close> is what the agent would return if it were asked.\<close>

fun ticks :: "agent_id \<Rightarrow> string \<Rightarrow> ((exn + intent list) \<times> dispatch_env) list \<Rightarrow> app \<Rightarrow> (exn + intent list) list \<times> app" where
  "ticks a fp [] ap = ([], ap)"
| "ticks a fp ((answer, env) # cs) ap = (case dispatch_observation a (Some fp) answer env ap of
       (r, ap1) \<Rightarrow> (case ticks a fp cs ap1 of (rs, ap2) \<Rightarrow> (r # rs, ap2)))"

lemma quiet_ticks:
  assumes "ks_state (ap_kill ap) \<noteq> BUDGET_EXHAUSTED \<or> a = HAIKU" "dict_get (ap_records ap) a \<noteq> None"
    and "dict_get (ap_fingerprint ap) a = Some fp"
  shows "fst (ticks a fp cs ap) = replicate (length cs) (Inr [])
    \<and> om_orders (ap_oms (snd (ticks a fp cs ap))) = om_orders (ap_oms ap)"
  using assms
proof (induction cs arbitrary: ap)
  case (Cons c cs)
  obtain answer env where c: "c = (answer, env)" by fastforce
  obtain ap1 where m: "marked a env ap = (Inr (), ap1)" "ap_kill ap1 = ap_kill ap" "dict_get (ap_records ap1) a \<noteq> None"
    "ap_fingerprint ap1 = ap_fingerprint ap" "om_orders (ap_oms ap1) = om_orders (ap_oms ap)"
    using marked_total [OF Cons.prems(2)] .
  have "dispatch_observation a (Some fp) answer env ap = (Inr [], ap1)"
    using dispatch_observation_marked [OF Cons.prems(1) m(1)] Cons.prems(3) by simp
  then show ?case using Cons.IH [of ap1] Cons.prems m by (cases "ticks a fp cs ap1") (simp add: c)
qed simp

text \<open>
  C20 An agent that has a fingerprint of its signals and whose call of the model fails is not asked again while the
  fingerprint stays the same: the failure comes back as an answer without intents, the dispatcher remembers the
  signals as handled, and on each of any number of later ticks with that fingerprint it returns no intent whatever the
  agent would answer, and leaves the orders alone. (Opus below its number of holdings has no fingerprint and is
  asked at every tick.)
\<close>

theorem failed_call_silences_the_agent:
  assumes "observed \<in> {fst (haiku_observe repr decode (Inl e) ob s), fst (sonnet_observe repr decode (Inl e) ob s),
      fst (opus_observe repr decode (Inl e) (Inl e) ob s)}"
    and "ks_state (ap_kill ap) \<noteq> BUDGET_EXHAUSTED \<or> a = HAIKU" "dict_get (ap_records ap) a \<noteq> None"
    and "later = snd (dispatch_observation a (Some fp) observed env ap)"
  shows "fst (ticks a fp cs later) = replicate (length cs) (Inr [])
    \<and> om_orders (ap_oms (snd (ticks a fp cs later))) = om_orders (ap_oms ap)"
proof -
  obtain ap1 where m: "marked a env ap = (Inr (), ap1)" "ap_kill ap1 = ap_kill ap" "dict_get (ap_records ap1) a \<noteq> None"
    "ap_fingerprint ap1 = ap_fingerprint ap" "om_orders (ap_oms ap1) = om_orders (ap_oms ap)"
    using marked_total [OF assms(3)] .
  have "observed = Inr []" using assms(1) failed_calls by auto
  then have "later = (if dict_get (ap_fingerprint ap) a = Some fp then ap1
      else ap1\<lparr>ap_fingerprint := dict_set a fp (ap_fingerprint ap1)\<rparr>)"
    using dispatch_observation_marked [OF assms(2) m(1)] assms(4) by simp
  then have "ks_state (ap_kill later) \<noteq> BUDGET_EXHAUSTED \<or> a = HAIKU" "dict_get (ap_records later) a \<noteq> None"
    "dict_get (ap_fingerprint later) a = Some fp" "om_orders (ap_oms later) = om_orders (ap_oms ap)"
    using assms(2) m by auto
  then show ?thesis using quiet_ticks [of later a fp cs] by simp
qed

theorem failed_call_silences_the_agent_witness:
  "fst (ticks HAIKU ''eq=1'' (replicate 2 (Inr [sample_intent ''SPY'' BUY_ACT EQUITY_SLEEVE (1 / 10)], sample_dispatch))
     (snd (dispatch_observation HAIKU (Some ''eq=1'')
        (fst (haiku_observe (\<lambda>_. []) (\<lambda>_. None) (Inl ValueError) sample_observation sample_mind)) sample_dispatch
        (sample_app (new_engine 60) (empty_ledger None))))) = [Inr [], Inr []]"
  by (subst failed_call_silences_the_agent [THEN conjunct1, of _ "\<lambda>_. []" "\<lambda>_. None" ValueError sample_observation sample_mind])
    (auto simp: sample_app_def initial_records_def all_agents_def numeral_2_eq_2)

subsection \<open>One bad item\<close>

definition fatal :: "exn \<Rightarrow> bool" where
  "fatal e \<longleftrightarrow> e \<noteq> KeyError \<and> e \<noteq> ValueError"

lemma collect_fatal:
  assumes "v \<in> set vs" "\<And>n. \<exists>e k. f v n = (Inl e, k) \<and> fatal e"
  shows "\<exists>e k. collect f vs n = (Inl e, k)"
  using assms(1)
proof (induction vs arbitrary: n)
  case (Cons x vs)
  show ?case
  proof (cases "x = v")
    case True
    obtain e k where "f v n = (Inl e, k)" "fatal e" using assms(2) by blast
    then have "skipping (f v) n = (Inl e, k)" by (simp add: skipping_def fatal_def)
    with True show ?thesis by (auto simp: andthen_def)
  next
    case False
    with Cons.prems have "\<exists>e k. collect f vs m = (Inl e, k)" for m by (intro Cons.IH) simp
    then show ?thesis
      by (auto simp: andthen_def split: prod.splits sum.splits) (metis Pair_inject old.sum.distinct(1))
  qed
qed simp

lemma bad_weight_fatal:
  assumes "dict_get it ''action'' = Some (VText act)" "action_of_text act = Inr a" "dict_get it ''symbol'' \<noteq> None"
    "dict_get it ''target_weight'' = Some (VText w)" "number_of_text w = None"
  shows "\<exists>e k. haiku_item repr regime ts (VObject it) n = (Inl e, k) \<and> fatal e"
  using assms by (auto simp: haiku_item_def dict_get_or_def fatal_def)

text \<open>
  One weight that is no number loses all intents of the answer: with such an item among the first
  four, whatever the other items are, Haiku's observation raises, nothing is logged in its memory and
  the dispatcher returns no intent.
\<close>

lemma one_bad_weight_loses_the_answer:
  assumes "ob_kill ob \<noteq> DRAWDOWN_LIQUIDATE" "parse_json_object decode text = Some d"
    and "dict_get d ''intents'' = Some (VList vs)" "VObject it \<in> set (take 4 vs)"
    and "dict_get it ''action'' = Some (VText act)" "action_of_text act = Inr b" "dict_get it ''symbol'' \<noteq> None"
    and "dict_get it ''target_weight'' = Some (VText w)" "number_of_text w = None"
    and "dict_get (ap_records ap) HAIKU \<noteq> None"
  shows "(\<exists>e t. haiku_observe repr decode (Inr text) ob s = (Inl e, t) \<and> mi_memory t = mi_memory s) \<and>
    fst (dispatch_observation HAIKU fp (fst (haiku_observe repr decode (Inr text) ob s)) env ap) = Inr []"
proof -
  have "\<exists>e k. haiku_parse_intents repr decode text ts n = (Inl e, k)" for ts n
    using collect_fatal [where f = "haiku_item repr (py_str repr (dict_get_or d ''regime_observation'' (VText []))) ts",
        OF assms(4) bad_weight_fatal [OF assms(5-9)], of n] assms(2,3)
    by (simp add: haiku_parse_intents_def Let_def dict_get_or_def haiku_max_intents_def)
  then obtain e k where "haiku_parse_intents repr decode text (ob_timestamp ob) (mi_fresh s) = (Inl e, k)" by blast
  then have run: "haiku_observe repr decode (Inr text) ob s = (Inl e, s\<lparr>mi_fresh := k\<rparr>)"
    using assms(1) by (simp add: haiku_observe_def andthen_def with_ids_def)
  obtain ap1 where "marked HAIKU env ap = (Inr (), ap1)" using marked_total [OF assms(10)] by metis
  with dispatch_observation_marked [of ap HAIKU env "()" ap1 fp "Inl e"] run
  show ?thesis by simp
qed

definition bad_item :: "(string, jval) dict" where
  "bad_item = [(''action'', VText ''sell''), (''symbol'', VText ''QQQ''), (''target_weight'', VText ''5%'')]"

definition mixed_answer :: "(string, jval) dict" where
  "mixed_answer = [(''intents'', VList [sample_item ''buy'' (1 / 10), VObject bad_item])]"

lemma one_bad_weight_loses_the_answer_example:
  "fst (dispatch_observation HAIKU None (fst (haiku_observe (\<lambda>_. []) (\<lambda>_. Some (VObject mixed_answer)) (Inr [])
     sample_observation sample_mind)) sample_dispatch (sample_app (new_engine 60) (empty_ledger None))) = Inr []"
  by (rule one_bad_weight_loses_the_answer [THEN conjunct2, of _ _ _ mixed_answer "[sample_item ''buy'' (1 / 10), VObject bad_item]" bad_item
        "''sell''" SELL_ACT "''5%''"])
    (simp_all add: sample_observation_def parse_json_object_def loads_lenient_def mixed_answer_def bad_item_def
      decimal_texts sample_app_def initial_records_def all_agents_def)

end
