(* ===== verification/Attribution.thy ===== *)
theory Attribution
  imports Event_Log Lots
begin

text \<open>
  Profit and loss per agent: \<^verbatim>\<open>ops/attribution.py\<close>, which matches the sales of the OMS log
  against earlier purchases first in, first out, and \<^verbatim>\<open>ops/agent_pnl_store.py\<close>, its daily table.
  The latest close of a symbol, or the failure to get it, is a parameter. A queue is a list of
  remaining quantities with their prices; the loop that consumes it terminates because
  every round ends the queue's first entry or the sale.
\<close>

subsection \<open>Matching fills\<close>

type_synonym fifo = "(decimal \<times> decimal) list"
type_synonym realized = "(agent_id, decimal) dict"

function match_sell :: "agent_id \<Rightarrow> decimal \<Rightarrow> decimal \<Rightarrow> fifo \<Rightarrow> realized \<Rightarrow> fifo \<times> realized" where
  "match_sell a price rem [] d = ([], d)"
| "match_sell a price rem ((q, p) # qs) d =
    (if rem \<le> 0 then ((q, p) # qs, d)
     else let consume = min q rem;
              d' = dict_set a (dadd (dict_get_or d a 0) (dmul (dsub price p) consume)) d;
              q' = dsub q consume; rem' = dsub rem consume
          in if q' \<le> 0 then match_sell a price rem' qs d'
             else match_sell a price rem' ((q', p) # qs) d')"
  by pat_completeness auto

termination
proof (relation "measure (\<lambda>(a, price, rem, qs, d). 2 * length qs + (if 0 < rem then 1 else 0))")
  fix rem q :: decimal
  show "\<not> rem \<le> 0 \<Longrightarrow> consume = min q rem \<Longrightarrow> d' = e \<Longrightarrow> q' = dsub q consume \<Longrightarrow> rem' = dsub rem consume \<Longrightarrow> \<not> q' \<le> 0 \<Longrightarrow>
    ((a, price, rem', (q', p) # qs, d'), (a, price, rem, (q, p) # qs, d))
      \<in> measure (\<lambda>(a, price, rem, qs, d). 2 * length qs + (if 0 < rem then 1 else 0))"
    for consume q' rem' a price p qs d d' e
    by (cases "q \<le> rem") (auto simp: dsub_def min_def)
qed auto

declare match_sell.simps(2) [simp del]

type_synonym books = "(agent_id \<times> symbol, fifo) dict \<times> realized"

definition match_fill :: "books \<Rightarrow> fill \<Rightarrow> books" where
  "match_fill st f = (case st of (queues, d) \<Rightarrow>
     (let key = (f_agent_id f, f_symbol f) in
      if f_side f = BUY then (dict_set key (dict_get_or queues key [] @ [(f_qty f, f_price f)]) queues, d)
      else (case dict_get queues key of
          None \<Rightarrow> (queues, d)
        | Some q \<Rightarrow> (case match_sell (f_agent_id f) (f_price f) (f_qty f) q d of
            (q', d') \<Rightarrow> (dict_set key q' queues, d')))))"

definition match_fills :: "fill list \<Rightarrow> books" where
  "match_fills fs = foldl match_fill ([], []) fs"

text \<open>The fills of the log, oldest first; a payload that is no fill is skipped.\<close>

definition logged_fills :: "oms_store \<Rightarrow> fill list" where
  "logged_fills st = List.map_filter (\<lambda>e. case deserialize_fill (e_payload e) of Inl _ \<Rightarrow> None | Inr f \<Rightarrow> Some f)
     (rev (recent_by_kind FILL_RECEIVED 1000000 st))"

definition realized_by_agent :: "oms_store \<Rightarrow> realized" where
  "realized_by_agent st = snd (match_fills (logged_fills st))"

subsection \<open>The daily breakdown\<close>

record pnl_breakdown =
  pb_realized :: decimal
  pb_unrealized :: decimal
  pb_total :: decimal
  pb_open_lots :: nat
  pb_closed_lots :: nat

definition latest_close :: "(symbol \<Rightarrow> exn + decimal option) \<Rightarrow> symbol \<Rightarrow> decimal option" where
  "latest_close closes s = (case closes s of Inl _ \<Rightarrow> None | Inr c \<Rightarrow> c)"

definition lot_unrealized :: "lot \<Rightarrow> decimal option \<Rightarrow> decimal" where
  "lot_unrealized l mark = (case mark of
       None \<Rightarrow> 0
     | Some m \<Rightarrow> if l_is_closed l \<or> l_remaining_qty l \<le> 0 then 0 else dmul (dsub m (l_entry_price l)) (l_remaining_qty l))"

definition sleeve_agents :: "agent_id list" where
  "sleeve_agents = [HAIKU, SONNET, OPUS]"

definition breakdown_of :: "realized \<Rightarrow> (symbol \<Rightarrow> exn + decimal option) \<Rightarrow> lot list \<Rightarrow> agent_id \<Rightarrow> pnl_breakdown" where
  "breakdown_of d closes lots a =
     (let mine = filter (\<lambda>l. l_agent_id l = a) lots;
          real = dict_get_or d a 0;
          unreal = foldl (\<lambda>u l. dadd u (lot_unrealized l (latest_close closes (l_symbol l)))) 0 mine
      in \<lparr>pb_realized = real, pb_unrealized = unreal, pb_total = dadd real unreal,
          pb_open_lots = length (filter (\<lambda>l. \<not> l_is_closed l) mine),
          pb_closed_lots = length (filter (\<lambda>l. l_is_closed l) mine)\<rparr>)"

definition compute_daily_pnl :: "ledger \<Rightarrow> oms_store \<Rightarrow> (symbol \<Rightarrow> exn + decimal option) \<Rightarrow> (agent_id, pnl_breakdown) dict" where
  "compute_daily_pnl g st closes =
     map (\<lambda>a. (a, breakdown_of (realized_by_agent st) closes (all_lots g) a)) sleeve_agents"

subsection \<open>The daily table\<close>

type_synonym pnl_table = "((date \<times> agent_id) \<times> pnl_breakdown) list"

definition upsert_snapshot :: "date \<Rightarrow> agent_id \<Rightarrow> pnl_breakdown \<Rightarrow> pnl_table \<Rightarrow> pnl_table" where
  "upsert_snapshot day a b t = filter (\<lambda>(k, _). k \<noteq> (day, a)) t @ [((day, a), b)]"

definition write_all :: "date \<Rightarrow> (agent_id, pnl_breakdown) dict \<Rightarrow> pnl_table \<Rightarrow> pnl_table" where
  "write_all day bs t = foldl (\<lambda>t (a, b). upsert_snapshot day a b t) t bs"

definition recent_pnl :: "agent_id option \<Rightarrow> nat \<Rightarrow> pnl_table \<Rightarrow> pnl_table" where
  "recent_pnl a n t = take n (sort_key (\<lambda>x. - fst (fst x)) (filter (\<lambda>x. a = None \<or> a = Some (snd (fst x))) t))"

subsection \<open>Exact matching\<close>

text \<open>Prices on four decimal places, quantities on nine, and values up to \<open>10 ^ 15\<close> leave no room for rounding.\<close>

definition plain :: "decimal \<Rightarrow> decimal \<Rightarrow> bool" where
  "plain q p \<longleftrightarrow> 0 < q \<and> on_step 9 q \<and> q \<le> 10 ^ 15 \<and> 0 \<le> p \<and> on_step 4 p \<and> p \<le> 10 ^ 15"

definition fifo_qty :: "fifo \<Rightarrow> decimal" where
  "fifo_qty qs = sum_list (map fst qs)"

definition fifo_cost :: "fifo \<Rightarrow> decimal" where
  "fifo_cost qs = sum_list (map (\<lambda>(q, p). q * p) qs)"

definition plain_fifo :: "fifo \<Rightarrow> bool" where
  "plain_fifo qs \<longleftrightarrow> (\<forall>(q, p)\<in>set qs. plain q p)"

lemma fifo_simps [simp]:
  "fifo_qty [] = 0" "fifo_cost [] = 0" "plain_fifo []"
  "fifo_qty ((q, p) # qs) = q + fifo_qty qs" "fifo_cost ((q, p) # qs) = q * p + fifo_cost qs"
  "fifo_qty (xs @ ys) = fifo_qty xs + fifo_qty ys" "fifo_cost (xs @ ys) = fifo_cost xs + fifo_cost ys"
  "plain_fifo ((q, p) # qs) \<longleftrightarrow> plain q p \<and> plain_fifo qs" "plain_fifo (xs @ ys) \<longleftrightarrow> plain_fifo xs \<and> plain_fifo ys"
  by (auto simp: fifo_qty_def fifo_cost_def plain_fifo_def)

lemma fifo_nonneg: "plain_fifo qs \<Longrightarrow> 0 \<le> fifo_qty qs \<and> 0 \<le> fifo_cost qs"
  by (induction qs) (auto simp: plain_def)

lemma on_step_mult: "on_step j x \<Longrightarrow> on_step k y \<Longrightarrow> on_step (j + k) (x * y)"
  unfolding on_step_def using Ints_mult [of "x * 10 ^ j" "y * 10 ^ k"] by (simp add: power_add mult.assoc mult.commute mult.left_commute)

lemma on_step_min: "on_step k x \<Longrightarrow> on_step k y \<Longrightarrow> on_step k (min x y)"
  by (simp add: min_def)

text \<open>One round of the loop: what is realized, and what stays open.\<close>

lemma match_round:
  fixes q p rem price r :: decimal
  defines "c \<equiv> min q rem"
  assumes q: "plain q p" and rem: "plain rem price" and r: "on_step 13 r" "\<bar>r\<bar> + q * p + price * rem \<le> 10 ^ 15"
  shows "dadd r (dmul (dsub price p) c) = r + (price - p) * c" "on_step 13 (r + (price - p) * c)"
    "dsub q c = q - c" "dsub rem c = rem - c"
    "\<bar>r + (price - p) * c\<bar> + (q - c) * p + price * (rem - c) \<le> \<bar>r\<bar> + q * p + price * rem"
proof -
  have c: "0 \<le> c" "c \<le> q" "c \<le> rem" "on_step 9 c"
    using q rem by (auto simp: c_def plain_def intro: on_step_min)
  have v: "0 \<le> p * c" "0 \<le> price * c" "p * c \<le> p * q" "price * c \<le> price * rem"
    using c q rem by (auto simp: plain_def intro: mult_left_mono)
  have small: "\<bar>(price - p) * c\<bar> \<le> price * c + p * c"
    unfolding left_diff_distrib abs_le_iff using v by auto
  have "on_step 4 (price - p)" "\<bar>price - p\<bar> \<le> 10 ^ 15"
    using q rem by (auto simp: plain_def intro: on_step_diff)
  then have s1: "dsub price p = price - p"
    unfolding dsub_def by (intro dround_step [where k = 4]) auto
  have st: "on_step (4 + 9) ((price - p) * c)"
    using \<open>on_step 4 (price - p)\<close> c(4) by (rule on_step_mult)
  then have st: "on_step 13 ((price - p) * c)" by simp
  have "\<bar>(price - p) * c\<bar> \<le> 10 ^ 15" using small v r(2) by (auto simp: mult.commute)
  then have s2: "dmul (price - p) c = (price - p) * c"
    unfolding dmul_def using st by (intro dround_step [where k = 13]) auto
  show st': "on_step 13 (r + (price - p) * c)" using r(1) st by (rule on_step_add)
  have b: "\<bar>r + (price - p) * c\<bar> \<le> \<bar>r\<bar> + price * c + p * c" using small by linarith
  also have "\<dots> \<le> 10 ^ 15" using v r(2) by (simp add: mult.commute)
  finally have "dround (r + (price - p) * c) = r + (price - p) * c"
    using st' by (intro dround_step [where k = 13]) auto
  then show "dadd r (dmul (dsub price p) c) = r + (price - p) * c"
    by (simp add: s1 s2 dadd_def)
  show "dsub q c = q - c" "dsub rem c = rem - c"
    unfolding dsub_def using q rem c by (intro dround_step [where k = 9]; auto simp: plain_def intro: on_step_diff)+
  show "\<bar>r + (price - p) * c\<bar> + (q - c) * p + price * (rem - c) \<le> \<bar>r\<bar> + q * p + price * rem"
    using b by (simp add: algebra_simps)
qed

text \<open>The whole loop: the sale takes what it can from the front, and realizes the difference to the cost it removes.\<close>

lemma match_sell_exact:
  assumes "plain_fifo qs" "rem = 0 \<or> plain rem price" "on_step 13 (dict_get_or d a 0)"
    and "\<bar>dict_get_or d a 0\<bar> + fifo_cost qs + price * rem \<le> 10 ^ 15" "0 \<le> price"
    and "match_sell a price rem qs d = (qs', d')"
  shows "plain_fifo qs' \<and> fifo_qty qs' = fifo_qty qs - min rem (fifo_qty qs) \<and>
    dict_get_or d' a 0 = dict_get_or d a 0 + price * min rem (fifo_qty qs) - (fifo_cost qs - fifo_cost qs') \<and>
    on_step 13 (dict_get_or d' a 0) \<and> (\<forall>b. b \<noteq> a \<longrightarrow> dict_get_or d' b 0 = dict_get_or d b 0) \<and>
    \<bar>dict_get_or d' a 0\<bar> + fifo_cost qs' \<le> \<bar>dict_get_or d a 0\<bar> + fifo_cost qs + price * rem"
  using assms
proof (induction a price rem qs d rule: match_sell.induct)
  case (1 a price rem d)
  then show ?case by (auto simp: plain_def)
next
  case (2 a price rem q p qs d)
  show ?case
  proof (cases "rem \<le> 0")
    case True
    with 2(4) have "rem = 0" by (auto simp: plain_def)
    moreover have "qs' = (q, p) # qs" "d' = d" using 2(8) True by (auto simp: match_sell.simps(2))
    ultimately show ?thesis using 2(3,5) fifo_nonneg [of qs] by (auto simp: plain_def)
  next
    case False
    let ?r = "dict_get_or d a 0" and ?c = "min q rem"
    let ?r' = "?r + (price - p) * ?c"
    let ?d = "dict_set a ?r' d"
    have q: "plain q p" "plain_fifo qs" and rem: "plain rem price" using 2(3,4) False by auto
    note nn = fifo_nonneg [OF q(2)]
    have "\<bar>?r\<bar> + q * p + price * rem \<le> 10 ^ 15" using 2(6) nn by simp
    note round = match_round [OF q(1) rem 2(5) this]
    have run: "match_sell a price rem ((q, p) # qs) d
      = (if q - ?c \<le> 0 then match_sell a price (rem - ?c) qs ?d else match_sell a price (rem - ?c) ((q - ?c, p) # qs) ?d)"
      using False by (simp only: match_sell.simps(2) [of a price rem q p qs d] Let_def round(1,3,4) if_False)
    have d': "dict_get_or ?d a 0 = ?r'" "\<And>b. b \<noteq> a \<Longrightarrow> dict_get_or ?d b 0 = dict_get_or d b 0"
      by (simp_all add: dict_get_or_def)
    show ?thesis
    proof (cases "q \<le> rem")
      case True
      then have c: "?c = q" by simp
      have rest: "rem - q = 0 \<or> plain (rem - q) price"
        using True rem q(1) by (auto simp: plain_def intro: on_step_diff)
      have bound: "\<bar>dict_get_or ?d a 0\<bar> + fifo_cost qs + price * (rem - q) \<le> 10 ^ 15"
        unfolding d'(1) using round(5) 2(6) by (simp add: c)
      have rec: "match_sell a price (rem - q) qs ?d = (qs', d')"
        using run 2(8) by (simp add: c)
      have step: "on_step 13 (dict_get_or ?d a 0)" using round(2) d'(1) by simp
      have popped: "q - q \<le> 0" by simp
      note ih = 2(1) [OF False refl refl refl refl, unfolded round(1,3,4), unfolded c, OF popped q(2) rest step [unfolded c] bound [unfolded c] 2(7) rec [unfolded c]]
      then show ?thesis
        using round(5) [unfolded c] True d'(2) [unfolded c] unfolding d'(1) [unfolded c] by (auto simp: min_def algebra_simps)
    next
      case large: False
      then have c: "?c = rem" by simp
      have "match_sell a price (rem - rem) ((q - rem, p) # qs) ?d = ((q - rem, p) # qs, ?d)"
        by (subst match_sell.simps(2)) simp
      with run 2(8) large have out: "qs' = (q - rem, p) # qs" "d' = ?d" by (auto simp: c)
      have "plain (q - rem) p" using large q(1) rem by (auto simp: plain_def intro: on_step_diff)
      then show ?thesis
        using round(2,5) [unfolded c] d'(2) [unfolded c] q(2) nn large
        unfolding out d'(1) [unfolded c] c by (auto simp: min_def algebra_simps)
    qed
  qed
qed

subsection \<open>The cash account\<close>

definition fill_value :: "fill \<Rightarrow> decimal" where
  "fill_value f = f_qty f * f_price f"

definition cash_flow :: "agent_id \<Rightarrow> fill list \<Rightarrow> decimal" where
  "cash_flow a fs = sum_list (map (\<lambda>f. if f_agent_id f = a
     then if f_side f = BUY then - fill_value f else fill_value f else 0) fs)"

definition net_qty :: "agent_id \<Rightarrow> symbol \<Rightarrow> fill list \<Rightarrow> decimal" where
  "net_qty a s fs = sum_list (map (\<lambda>f. if f_agent_id f = a \<and> f_symbol f = s
     then if f_side f = BUY then f_qty f else - f_qty f else 0) fs)"

definition turnover :: "fill list \<Rightarrow> decimal" where
  "turnover fs = sum_list (map fill_value fs)"

definition open_cost :: "agent_id \<Rightarrow> (agent_id \<times> symbol, fifo) dict \<Rightarrow> decimal" where
  "open_cost a queues = sum_list (map (\<lambda>(k, q). if fst k = a then fifo_cost q else 0) queues)"

lemma flow_simps [simp]:
  "cash_flow a [] = 0" "net_qty a s [] = 0" "turnover [] = 0" "open_cost a [] = 0"
  "cash_flow a (fs @ [f]) = cash_flow a fs + (if f_agent_id f = a then if f_side f = BUY then - fill_value f else fill_value f else 0)"
  "net_qty a s (fs @ [f]) = net_qty a s fs + (if f_agent_id f = a \<and> f_symbol f = s then if f_side f = BUY then f_qty f else - f_qty f else 0)"
  "turnover (fs @ [f]) = turnover fs + fill_value f"
  by (simp_all add: cash_flow_def net_qty_def turnover_def open_cost_def)

lemma open_cost_set:
  "distinct (map fst queues) \<Longrightarrow> open_cost a (dict_set k q queues) = open_cost a queues
     + (if fst k = a then fifo_cost q - fifo_cost (dict_get_or queues k []) else 0)"
proof (induction queues)
  case Nil
  then show ?case by (simp add: open_cost_def dict_get_or_def)
next
  case (Cons x queues)
  obtain j r where x: "x = (j, r)" by (cases x)
  show ?case
  proof (cases "j = k")
    case True
    then show ?thesis by (simp add: x open_cost_def dict_get_or_def)
  next
    case False
    with Cons show ?thesis by (simp add: x open_cost_def dict_get_or_def)
  qed
qed

lemma open_cost_ge:
  "\<forall>(k, q)\<in>set queues. plain_fifo q \<Longrightarrow> 0 \<le> open_cost a queues \<and>
   (\<forall>k q. (k, q) \<in> set queues \<longrightarrow> fst k = a \<longrightarrow> fifo_cost q \<le> open_cost a queues)"
proof (induction queues)
  case (Cons x queues)
  obtain j r where x: "x = (j, r)" by (cases x)
  have "open_cost a (x # queues) = (if fst j = a then fifo_cost r else 0) + open_cost a queues"
    by (simp add: x open_cost_def)
  moreover have "0 \<le> fifo_cost r" "plain_fifo r" using Cons.prems fifo_nonneg [of r] by (auto simp: x)
  ultimately show ?case using Cons by (fastforce simp: x)
qed simp

definition books_ok :: "fill list \<Rightarrow> books \<Rightarrow> bool" where
  "books_ok fs st \<longleftrightarrow> distinct (map fst (fst st)) \<and> (\<forall>(k, q)\<in>set (fst st). plain_fifo q) \<and>
     (\<forall>a s. fifo_qty (dict_get_or (fst st) (a, s) []) = net_qty a s fs) \<and>
     (\<forall>a. dict_get_or (snd st) a 0 = cash_flow a fs + open_cost a (fst st) \<and> on_step 13 (dict_get_or (snd st) a 0) \<and>
          \<bar>dict_get_or (snd st) a 0\<bar> + open_cost a (fst st) \<le> turnover fs)"

definition plain_fill :: "fill \<Rightarrow> bool" where
  "plain_fill f \<longleftrightarrow> plain (f_qty f) (f_price f)"

lemma books_ok_buy:
  assumes "books_ok fs (queues, d)" "plain_fill f" "f_side f = BUY"
  shows "books_ok (fs @ [f]) (match_fill (queues, d) f)"
proof -
  let ?k = "(f_agent_id f, f_symbol f)"
  let ?q = "dict_get_or queues ?k [] @ [(f_qty f, f_price f)]"
  have dist: "distinct (map fst queues)" using assms(1) by (simp add: books_ok_def)
  have "plain_fifo (dict_get_or queues ?k [])"
    using assms(1) by (auto simp: books_ok_def dict_get_or_def split: option.split dest!: map_of_SomeD)
  then have pl: "\<forall>(k, q)\<in>set (dict_set ?k ?q queues). plain_fifo q"
    using assms(1,2) by (fastforce simp: books_ok_def plain_fill_def dest: set_dict_set)
  have st: "match_fill (queues, d) f = (dict_set ?k ?q queues, d)"
    using assms(3) by (simp add: match_fill_def Let_def)
  have val: "0 \<le> fill_value f" using assms(2) by (simp add: plain_fill_def plain_def fill_value_def)
  have qty: "fifo_qty (dict_get_or (dict_set ?k ?q queues) (a, s) []) = net_qty a s (fs @ [f])" for a s
    using assms(1,3) by (auto simp: books_ok_def dict_get_or_def)
  have cost: "open_cost a (dict_set ?k ?q queues) = open_cost a queues + (if f_agent_id f = a then fill_value f else 0)" for a
    using dist by (simp add: open_cost_set fill_value_def)
  have acc: "dict_get_or d a 0 = cash_flow a (fs @ [f]) + open_cost a (dict_set ?k ?q queues) \<and> on_step 13 (dict_get_or d a 0) \<and>
      \<bar>dict_get_or d a 0\<bar> + open_cost a (dict_set ?k ?q queues) \<le> turnover (fs @ [f])" for a
  proof -
    have "dict_get_or d a 0 = cash_flow a fs + open_cost a queues" "on_step 13 (dict_get_or d a 0)"
      "\<bar>dict_get_or d a 0\<bar> + open_cost a queues \<le> turnover fs"
      using assms(1) unfolding books_ok_def fst_conv snd_conv by blast+
    then show ?thesis using val assms(3) unfolding cost by auto
  qed
  have "distinct (map fst (dict_set ?k ?q queues))" using dist by (rule distinct_keys_set)
  then show ?thesis
    unfolding st books_ok_def fst_conv snd_conv using pl qty acc by blast
qed

lemma books_ok_sell:
  assumes ok: "books_ok fs (queues, d)" and f: "plain_fill f" "f_side f = SELL"
    and covered: "0 \<le> net_qty (f_agent_id f) (f_symbol f) (fs @ [f])" and small: "turnover (fs @ [f]) \<le> 10 ^ 15"
  shows "books_ok (fs @ [f]) (match_fill (queues, d) f)"
proof -
  let ?a = "f_agent_id f" and ?k = "(f_agent_id f, f_symbol f)" and ?v = "f_price f * f_qty f"
  have dist: "distinct (map fst queues)" and pl: "\<forall>(k, q)\<in>set queues. plain_fifo q"
    and qty: "\<And>a s. fifo_qty (dict_get_or queues (a, s) []) = net_qty a s fs"
    and acc: "\<And>a. dict_get_or d a 0 = cash_flow a fs + open_cost a queues" "\<And>a. on_step 13 (dict_get_or d a 0)"
      "\<And>a. \<bar>dict_get_or d a 0\<bar> + open_cost a queues \<le> turnover fs"
    using ok unfolding books_ok_def fst_conv snd_conv by blast+
  have pf: "plain (f_qty f) (f_price f)" "0 < f_qty f" "0 \<le> f_price f"
    using f(1) by (auto simp: plain_fill_def plain_def)
  have enough: "f_qty f \<le> fifo_qty (dict_get_or queues ?k [])"
    using covered f(2) by (simp add: qty)
  then obtain q where q: "dict_get queues ?k = Some q" "dict_get_or queues ?k [] = q"
    using pf(2) by (cases "dict_get queues ?k") (auto simp: dict_get_or_def)
  have qin: "(?k, q) \<in> set queues" using q(1) by (rule map_of_SomeD)
  then have plq: "plain_fifo q" using pl by auto
  have cq: "fifo_cost q \<le> open_cost ?a queues" using open_cost_ge [OF pl, of ?a] qin by auto
  have total: "turnover (fs @ [f]) = turnover fs + ?v" by (simp add: fill_value_def mult.commute)
  have bound: "\<bar>dict_get_or d ?a 0\<bar> + fifo_cost q + ?v \<le> 10 ^ 15"
    using acc(3) [of ?a] cq small total by linarith
  obtain q' d' where run: "match_sell ?a (f_price f) (f_qty f) q d = (q', d')"
    by (cases "match_sell ?a (f_price f) (f_qty f) q d")
  note m = match_sell_exact [OF plq disjI2 [OF pf(1)] acc(2) bound pf(3) run]
  have all: "min (f_qty f) (fifo_qty q) = f_qty f" using enough q(2) by simp
  have st: "match_fill (queues, d) f = (dict_set ?k q' queues, d')"
    using f(2) q(1) run by (simp add: match_fill_def Let_def)
  have cost: "open_cost a (dict_set ?k q' queues) = open_cost a queues + (if ?a = a then fifo_cost q' - fifo_cost q else 0)" for a
    using open_cost_set [OF dist, of a ?k q'] unfolding q(2) by (cases "?a = a") simp_all
  have pl': "\<forall>(k, q)\<in>set (dict_set ?k q' queues). plain_fifo q"
    using pl m by (fastforce dest: set_dict_set)
  have qty': "fifo_qty (dict_get_or (dict_set ?k q' queues) (b, s) []) = net_qty b s (fs @ [f])" for b s
  proof (cases "(b, s) = ?k")
    case True
    then show ?thesis using m all f(2) qty [of ?a "f_symbol f"] q(2) by (auto simp: dict_get_or_def)
  next
    case False
    then have "dict_get_or (dict_set ?k q' queues) (b, s) [] = dict_get_or queues (b, s) []"
      by (auto simp: dict_get_or_def)
    with False qty show ?thesis by auto
  qed
  have acc': "dict_get_or d' b 0 = cash_flow b (fs @ [f]) + open_cost b (dict_set ?k q' queues) \<and> on_step 13 (dict_get_or d' b 0) \<and>
      \<bar>dict_get_or d' b 0\<bar> + open_cost b (dict_set ?k q' queues) \<le> turnover (fs @ [f])" for b
  proof (cases "b = ?a")
    case True
    with m all acc(1) [of ?a] acc(3) [of ?a] total f(2) show ?thesis
      unfolding cost by (auto simp: fill_value_def mult.commute)
  next
    case False
    then have "dict_get_or d' b 0 = dict_get_or d b 0" using m by blast
    moreover have "0 \<le> ?v" using pf by simp
    ultimately show ?thesis
      using False acc(1,2) [of b] acc(3) [of b] total unfolding cost by auto
  qed
  have "distinct (map fst (dict_set ?k q' queues))" using dist by (rule distinct_keys_set)
  then show ?thesis
    unfolding st books_ok_def fst_conv snd_conv using pl' qty' acc' by blast
qed

lemma match_fills_ok:
  assumes "\<forall>f\<in>set fs. plain_fill f" "turnover fs \<le> 10 ^ 15" "\<forall>n a s. 0 \<le> net_qty a s (take n fs)"
  shows "books_ok fs (match_fills fs)"
  using assms
proof (induction fs rule: rev_induct)
  case Nil
  then show ?case by (simp add: books_ok_def match_fills_def dict_get_or_def)
next
  case (snoc f fs)
  have val: "0 \<le> fill_value f" using snoc.prems(1) by (simp add: plain_fill_def plain_def fill_value_def)
  have "\<forall>n a s. 0 \<le> net_qty a s (take n fs)"
  proof (intro allI)
    fix n a s
    show "0 \<le> net_qty a s (take n fs)"
      using snoc.prems(3) [rule_format, of a s "min n (length fs)"] by (simp add: min_def split: if_splits)
  qed
  with snoc val have ih: "books_ok fs (match_fills fs)" by simp
  obtain queues d where st: "match_fills fs = (queues, d)" by (cases "match_fills fs")
  have step: "match_fills (fs @ [f]) = match_fill (queues, d) f"
    using st by (simp add: match_fills_def)
  have "0 \<le> net_qty (f_agent_id f) (f_symbol f) (fs @ [f])"
    using snoc.prems(3) [rule_format, of "f_agent_id f" "f_symbol f" "Suc (length fs)"] by simp
  with ih snoc.prems show ?case
    unfolding step st by (cases "f_side f") (auto intro: books_ok_buy books_ok_sell)
qed

text \<open>
  C19 Realized profit balances: when no sale exceeds what was bought before and the amounts fit the
  decimal context, the realized profit of an agent is what its sales brought in, less what its purchases
  cost, plus the cost of what it still holds; and what is left in the queue of a symbol is
  exactly the net quantity bought.
\<close>

theorem realized_profit_balances:
  assumes "\<forall>f\<in>set (logged_fills st). plain_fill f" "turnover (logged_fills st) \<le> 10 ^ 15"
    and "\<forall>n a s. 0 \<le> net_qty a s (take n (logged_fills st))"
  shows "dict_get_or (realized_by_agent st) a 0
      = cash_flow a (logged_fills st) + open_cost a (fst (match_fills (logged_fills st)))
    \<and> fifo_qty (dict_get_or (fst (match_fills (logged_fills st))) (a, s) []) = net_qty a s (logged_fills st)"
  using match_fills_ok [OF assms] unfolding realized_by_agent_def books_ok_def by blast

subsection \<open>Example\<close>

definition traded_store :: oms_store where
  "traded_store = append_event FILL_RECEIVED 0 (serialize_fill ((sample_fill 2 SELL 2 1)\<lparr>f_price := 110\<rparr>)) 1
     (append_event FILL_RECEIVED 0 (serialize_fill (sample_fill 1 BUY 3 0)) 0 [])"

lemma traded_fills: "logged_fills traded_store = [sample_fill 1 BUY 3 0, (sample_fill 2 SELL 2 1)\<lparr>f_price := 110\<rparr>]"
  by (simp add: logged_fills_def traded_store_def append_event_def recent_by_kind_def List.map_filter_simps read_row_def)

lemma on_step_small: "on_step n 2" "on_step n 3" "on_step n 100" "on_step n 110"
  unfolding on_step_def by (auto intro!: exI [of _ "2 * 10 ^ n"] exI [of _ "3 * 10 ^ n"] exI [of _ "100 * 10 ^ n"] exI [of _ "110 * 10 ^ n"])

theorem realized_profit_balances_witness:
  "dict_get_or (realized_by_agent traded_store) SONNET 0 = cash_flow SONNET (logged_fills traded_store)
      + open_cost SONNET (fst (match_fills (logged_fills traded_store)))
   \<and> fifo_qty (dict_get_or (fst (match_fills (logged_fills traded_store))) (SONNET, ''SPY'') []) = 1"
proof -
  have "\<forall>f\<in>set (logged_fills traded_store). plain_fill f"
    by (simp add: traded_fills plain_fill_def plain_def on_step_small)
  moreover have "turnover (logged_fills traded_store) \<le> 10 ^ 15"
    by (simp add: traded_fills turnover_def fill_value_def)
  moreover have "\<forall>n a s. 0 \<le> net_qty a s (take n (logged_fills traded_store))"
    by (auto simp: traded_fills net_qty_def take_Cons split: nat.split)
  ultimately show ?thesis
    using realized_profit_balances [of traded_store SONNET "''SPY''"] by (simp add: traded_fills net_qty_def)
qed

end
