(* ===== verification/Snapshots.thy ===== *)
theory Snapshots
  imports Tracker Broker
begin

text \<open>
  The recurring snapshots: \<^verbatim>\<open>ops/equity_snapshotter.py\<close>, which once a minute marks the agents'
  sleeves to the broker's prices and writes equity and positions to its tables, and
  \<^verbatim>\<open>ops/heartbeat.py\<close>. The two broker calls of a tick are parameters; a call that raises or
  exceeds its timeout is an \<open>Inl\<close>. The threads that repeat the ticks are not modelled.
\<close>

subsection \<open>Rows\<close>

record equity_row =
  er_ts :: datetime
  er_nav :: "decimal option"
  er_sleeves :: "(agent_id, decimal \<times> decimal) dict"

record position_row =
  pr_ts :: datetime
  pr_symbol :: symbol
  pr_qty :: decimal
  pr_value :: decimal
  pr_side :: string
  pr_unrealized :: decimal

record agent_position_row =
  ap_ts :: datetime
  ap_agent :: string
  ap_symbol :: symbol
  ap_qty :: decimal
  ap_avg_entry :: decimal
  ap_marked :: "(decimal \<times> decimal \<times> decimal) option"

record snapshot_db =
  sd_equity :: "equity_row list"
  sd_positions :: "position_row list"
  sd_agents :: "agent_position_row list"

definition empty_snapshots :: snapshot_db where
  "empty_snapshots = \<lparr>sd_equity = [], sd_positions = [], sd_agents = []\<rparr>"

record snapshotter =
  sn_db :: snapshot_db
  sn_tracker :: tracker
  sn_ledger :: "ledger option"

subsection \<open>One tick\<close>

definition trading_agents :: "agent_id list" where
  "trading_agents = [HAIKU, SONNET, OPUS]"

definition recorded_nav :: "exn + broker_account \<Rightarrow> decimal option" where
  "recorded_nav acct = (case acct of Inl _ \<Rightarrow> None | Inr a \<Rightarrow> if 0 < ba_equity a then Some (ba_equity a) else None)"

definition position_row_of :: "datetime \<Rightarrow> broker_position \<Rightarrow> position_row" where
  "position_row_of ts p = \<lparr>pr_ts = ts, pr_symbol = bp_symbol p, pr_qty = bp_qty p,
     pr_value = dmul (bp_qty p) (bp_current_price p), pr_side = (if 0 \<le> bp_qty p then ''long'' else ''short''),
     pr_unrealized = dmul (dsub (bp_current_price p) (bp_avg_entry_price p)) (bp_qty p)\<rparr>"

definition marks_of :: "broker_position list \<Rightarrow> (symbol, decimal) dict" where
  "marks_of ps = foldl (\<lambda>d p. dict_set (normalize_symbol (bp_symbol p)) (bp_current_price p) d) [] ps"

text \<open>An agent's open lots, summed by symbol: quantity and cost.\<close>

definition open_sums :: "lot list \<Rightarrow> (string \<times> symbol, decimal \<times> decimal) dict" where
  "open_sums ls = foldl (\<lambda>agg l.
     if l_is_closed l \<or> l_remaining_qty l \<le> 0 then agg
     else let key = (agent_str (l_agent_id l), l_symbol l); (qty, cost) = dict_get_or agg key (0, 0)
          in dict_set key (dadd qty (l_remaining_qty l), dadd cost (dmul (l_remaining_qty l) (l_entry_price l))) agg) [] ls"

definition row_mark :: "(symbol, decimal) dict \<Rightarrow> symbol \<Rightarrow> decimal option" where
  "row_mark px s = (case dict_get px (normalize_symbol s) of
       None \<Rightarrow> dict_get px s
     | Some m \<Rightarrow> if m = 0 then dict_get px s else Some m)"

definition agent_position_rows :: "ledger option \<Rightarrow> datetime \<Rightarrow> (symbol, decimal) dict \<Rightarrow> agent_position_row list" where
  "agent_position_rows lg ts px = (case lg of None \<Rightarrow> [] | Some g \<Rightarrow>
     map (\<lambda>((a, s), (qty, cost)).
       let avg = (if 0 < qty then ddiv cost qty else 0) in
       \<lparr>ap_ts = ts, ap_agent = a, ap_symbol = s, ap_qty = qty, ap_avg_entry = avg,
        ap_marked = map_option (\<lambda>m. (m, dmul qty m, dmul (dsub m avg) qty)) (row_mark px s)\<rparr>)
       (open_sums (all_lots g)))"

text \<open>Each agent's equity is recomputed; an agent without record is skipped.\<close>

definition mark_agents :: "(symbol, decimal) dict \<Rightarrow> datetime \<Rightarrow> tracker \<Rightarrow> tracker" where
  "mark_agents px now t = foldl (\<lambda>t a. snd (update_on_mark a px now t)) t trading_agents"

definition read_sleeve ::
  "datetime \<Rightarrow> (agent_id, decimal \<times> decimal) dict \<times> tracker \<Rightarrow> agent_id \<Rightarrow> (agent_id, decimal \<times> decimal) dict \<times> tracker" where
  "read_sleeve now st a = (case get_state a now (snd st) of
       (Inl _, t) \<Rightarrow> (dict_set a (0, 0) (fst st), t)
     | (Inr s, t) \<Rightarrow> (dict_set a (as_sleeve_equity s, as_sleeve_peak_equity s) (fst st), t))"

definition read_sleeves :: "datetime \<Rightarrow> tracker \<Rightarrow> (agent_id, decimal \<times> decimal) dict \<times> tracker" where
  "read_sleeves now t = foldl (read_sleeve now) ([], t) (trading_agents @ [MANAGER])"

definition write_rows ::
  "bool \<Rightarrow> equity_row \<Rightarrow> position_row list \<Rightarrow> agent_position_row list \<Rightarrow> snapshot_db \<Rightarrow> snapshot_db" where
  "write_rows ok e ps as db = (if ok then \<lparr>sd_equity = sd_equity db @ [e], sd_positions = sd_positions db @ ps,
     sd_agents = sd_agents db @ as\<rparr> else db)"

text \<open>
  \<open>broker\<close> is \<open>None\<close> without a broker, else the outcomes of \<^verbatim>\<open>get_account\<close> and
  \<^verbatim>\<open>list_positions\<close>; \<open>ok\<close> tells whether the write to SQLite succeeds.
\<close>

definition snapshot_tick ::
  "((exn + broker_account) \<times> (exn + broker_position list)) option \<Rightarrow> bool \<Rightarrow> datetime \<Rightarrow> snapshotter \<Rightarrow> snapshotter" where
  "snapshot_tick broker ok now s =
     (let ps = (case broker of Some (_, Inr ps) \<Rightarrow> ps | _ \<Rightarrow> []);
          nav = (case broker of Some (acct, _) \<Rightarrow> recorded_nav acct | None \<Rightarrow> None);
          px = marks_of ps;
          (sleeves, t) = read_sleeves now (mark_agents px now (sn_tracker s))
      in s\<lparr>sn_tracker := t,
           sn_db := write_rows ok \<lparr>er_ts = now, er_nav = nav, er_sleeves = sleeves\<rparr>
             (map (position_row_of now) ps) (agent_position_rows (sn_ledger s) now px) (sn_db s)\<rparr>)"

subsection \<open>Retention\<close>

text \<open>
  The pruning statement compares ISO time stamps, which have a \<open>T\<close> between date and
  time, with SQLite's \<^verbatim>\<open>datetime('now', ...)\<close>, which has a space: on the same date the stamp is the
  greater text, so only the dates count.
\<close>

definition five_min_bucket :: "datetime \<Rightarrow> int" where
  "five_min_bucket ts = ts div (5 * 60 * 1000000)"

definition text_before :: "datetime \<Rightarrow> datetime \<Rightarrow> bool" where
  "text_before ts cutoff \<longleftrightarrow> date_of ts < date_of cutoff"

definition prune_table :: "('r \<Rightarrow> datetime) \<Rightarrow> datetime \<Rightarrow> 'r list \<Rightarrow> 'r list" where
  "prune_table stamp now rows =
     (let kept = filter (\<lambda>r. \<not> text_before (stamp r) (now - 30 * us_per_day)) rows;
          old = filter (\<lambda>r. text_before (stamp r) (now - 7 * us_per_day)) kept;
          firsts = map (\<lambda>r. Min (set (map stamp (filter (\<lambda>q. five_min_bucket (stamp q) = five_min_bucket (stamp r)) old)))) old
      in filter (\<lambda>r. \<not> (text_before (stamp r) (now - 7 * us_per_day) \<and> stamp r \<notin> set firsts)) kept)"

definition prune_old_snapshots :: "datetime \<Rightarrow> snapshot_db \<Rightarrow> snapshot_db" where
  "prune_old_snapshots now db = \<lparr>sd_equity = prune_table er_ts now (sd_equity db),
     sd_positions = prune_table pr_ts now (sd_positions db), sd_agents = prune_table ap_ts now (sd_agents db)\<rparr>"

subsection \<open>Heartbeat\<close>

text \<open>\<^verbatim>\<open>tick_once\<close>: the file's new content, and the beat recorded in the engine; \<open>None\<close> is a failed write.\<close>

record heartbeat_file =
  hb_ts :: datetime
  hb_uptime :: int

definition heartbeat_tick ::
  "datetime \<Rightarrow> int \<Rightarrow> bool \<Rightarrow> heartbeat_file option \<times> kill_engine option \<Rightarrow> heartbeat_file option \<times> kill_engine option" where
  "heartbeat_tick ts uptime ok st =
     (if ok then (Some \<lparr>hb_ts = ts, hb_uptime = uptime\<rparr>, map_option (record_heartbeat ts) (snd st)) else st)"

subsection \<open>What a tick does to a record\<close>

definition marked_rec :: "(symbol, decimal) dict \<Rightarrow> datetime \<Rightarrow> ledger \<Rightarrow> agent_id \<Rightarrow> agent_rec \<Rightarrow> agent_rec" where
  "marked_rec px now g a r = (let r1 = mark_equity (tracked_equity (tr_starting r) a px g) now r in
     apply_bucket (classify_drawdown (tracked_drawdown (tr_peak r1) (tr_current r1))) (date_of now) r1)"

lemma mark_ledger [simp]: "tk_ledger (snd (update_on_mark a px now t)) = tk_ledger t"
  by (simp add: update_on_mark_def maybe_persist_def apply_bucket_with_recovery_def put_rec_def tracker_publish_def Let_def
      split: option.split)

lemma mark_record:
  "dict_get (tk_records (snd (update_on_mark b px now t))) a =
     (if a = b then map_option (marked_rec px now (tk_ledger t) a) (dict_get (tk_records t) a) else dict_get (tk_records t) a)"
  by (auto simp: update_on_mark_def apply_bucket_with_recovery_def marked_rec_def Let_def split: option.split)

lemma mark_agents_record:
  "dict_get (tk_records (mark_agents px now t)) a =
     (if a = MANAGER then dict_get (tk_records t) a else map_option (marked_rec px now (tk_ledger t) a) (dict_get (tk_records t) a))"
  by (cases a) (simp_all add: mark_agents_def trading_agents_def mark_record)

lemma expire_bench_idem [simp]: "expire_bench now (expire_bench now r) = expire_bench now r"
  by (auto simp: expire_bench_def split: option.split)

lemma expire_bench_fields [simp]:
  "tr_bucket (expire_bench now r) = tr_bucket r" "tr_current (expire_bench now r) = tr_current r"
  "tr_peak (expire_bench now r) = tr_peak r" "tr_starting (expire_bench now r) = tr_starting r"
  by (auto simp: expire_bench_def split: option.split)

lemma get_state_record:
  "dict_get (tk_records (snd (get_state b now t))) a =
     (if a = b then map_option (expire_bench now) (dict_get (tk_records t) a) else dict_get (tk_records t) a)"
  by (auto simp: get_state_def split: option.split)

lemma read_sleeve_record:
  "dict_get (tk_records (snd (read_sleeve now st b))) a =
     (if a = b then map_option (expire_bench now) (dict_get (tk_records (snd st)) a) else dict_get (tk_records (snd st)) a)"
proof -
  obtain x t where "get_state b now (snd st) = (x, t)" by (cases "get_state b now (snd st)")
  with get_state_record [of b now "snd st" a] show ?thesis by (cases x) (simp_all add: read_sleeve_def)
qed

lemma read_sleeves_record:
  "dict_get (tk_records (snd (read_sleeves now t))) a = map_option (expire_bench now) (dict_get (tk_records t) a)"
  by (cases a) (simp_all add: read_sleeves_def trading_agents_def read_sleeve_record)

lemma tick_record:
  assumes "a \<noteq> MANAGER" "dict_get (tk_records (sn_tracker s)) a = Some r"
  shows "dict_get (tk_records (sn_tracker (snapshot_tick broker ok now s))) a =
     Some (expire_bench now (marked_rec (marks_of (case broker of Some (_, Inr ps) \<Rightarrow> ps | _ \<Rightarrow> [])) now
       (tk_ledger (sn_tracker s)) a r))"
proof -
  have "sn_tracker (snapshot_tick broker ok now s) = snd (read_sleeves now
      (mark_agents (marks_of (case broker of Some (_, Inr ps) \<Rightarrow> ps | _ \<Rightarrow> [])) now (sn_tracker s)))"
    by (simp add: snapshot_tick_def Let_def split_beta)
  then show ?thesis by (simp only: read_sleeves_record mark_agents_record assms if_False option.map)
qed

subsection \<open>A failed call\<close>

lemma no_marks [simp]: "marks_of [] = []" "tracked_unrealized a [] g = 0"
proof -
  have "foldl (\<lambda>acc l.
     if l_agent_id l = a \<and> \<not> l_is_closed l
     then if dmul (l_remaining_qty l) (l_entry_price l) < dust_notional_usd then acc
          else (case mark_for [] (l_symbol l) of
                  None \<Rightarrow> acc | Some m \<Rightarrow> dadd acc (dmul (dsub m (l_entry_price l)) (l_remaining_qty l)))
     else acc) 0 ls = 0" for ls
    by (induction ls) (simp_all add: mark_for_def)
  then show "tracked_unrealized a [] g = 0" by (simp add: tracked_unrealized_def)
qed (simp add: marks_of_def)

lemma tighten: "b = FORCED_CASH \<Longrightarrow> tr_bucket (apply_bucket b d r) = FORCED_CASH"
  using apply_bucket_tighten [of r b d] by (cases "tr_bucket r") (auto simp: less_eq_drawdown_bucket_def)

lemma quarter_down:
  assumes "on_step 13 p" "on_step 13 e" "0 < p" "p \<le> 10 ^ 14" "\<bar>e\<bar> \<le> 10 ^ 14" "4 * e \<le> 3 * p"
  shows "classify_drawdown (tracked_drawdown p e) = FORCED_CASH"
proof -
  have "\<bar>p - e\<bar> \<le> 2 * 10 ^ 14" using assms(3-5) by linarith
  then have "dsub p e = p - e"
    unfolding dsub_def using assms(1,2) by (intro dround_step on_step_diff) auto
  moreover have "1 / 4 \<le> (p - e) / p" using assms(3,6) by (simp add: field_simps)
  then have "dround (1 / 4) \<le> dround ((p - e) / p)" by (rule dround_mono)
  moreover have "dround (1 / 4) = 1 / 4"
    by (rule dround_step [of 2]) (auto simp: on_step_def)
  ultimately show ?thesis using assms(3) by (simp add: tracked_drawdown_def ddiv_def classify_drawdown_def)
qed

text \<open>
  A snapshot tick whose call for the positions fails counts every open position at its entry price:
  an agent whose equity without open profits is at most three quarters of its peak is put
  into forced cash by that one tick.
\<close>

lemma failed_call_forces_cash:
  assumes "a \<noteq> MANAGER" "dict_get (tk_records (sn_tracker s)) a = Some r"
    and "e = dadd (tr_starting r) (tracked_realized a (tk_ledger (sn_tracker s)))"
    and "on_step 13 e" "\<bar>e\<bar> \<le> 10 ^ 14" "on_step 13 (tr_peak r)" "0 < tr_peak r" "tr_peak r \<le> 10 ^ 14" "4 * e \<le> 3 * tr_peak r"
  shows "\<exists>r'. dict_get (tk_records (sn_tracker (snapshot_tick (Some (acct, Inl err)) ok now s))) a = Some r'
    \<and> tr_current r' = e \<and> tr_peak r' = tr_peak r \<and> tr_bucket r' = FORCED_CASH"
proof -
  have eq: "tracked_equity (tr_starting r) a [] (tk_ledger (sn_tracker s)) = e"
    by (simp add: tracked_equity_def assms(3)) (simp add: dadd_def)
  let ?r = "mark_equity e now r"
  have r: "tr_current ?r = e" "tr_peak ?r = tr_peak r"
    using assms(7,9) by (auto simp: mark_equity_def Let_def)
  have "classify_drawdown (tracked_drawdown (tr_peak ?r) (tr_current ?r)) = FORCED_CASH"
    unfolding r by (rule quarter_down [OF assms(6,4,7,8,5,9)])
  then show ?thesis
    using tick_record [OF assms(1,2), of "Some (acct, Inl err)" ok now] r
    by (simp add: marked_rec_def eq Let_def tighten) (simp add: apply_bucket_def Let_def)
qed

subsection \<open>Retention\<close>

lemma day_le: "date_of (t - int n * us_per_day) = date_of t - int n"
proof -
  have "(t + (- int n) * us_per_day) div us_per_day = - int n + t div us_per_day"
    by (rule div_mult_self1) (simp add: us_per_day_def us_per_hour_def)
  then show ?thesis by (simp add: date_of_def)
qed

lemma same_bucket_same_day: "five_min_bucket x = five_min_bucket y \<Longrightarrow> date_of x = date_of y"
proof -
  have "date_of z = five_min_bucket z div 288" for z
    by (simp add: date_of_def five_min_bucket_def us_per_day_def us_per_hour_def zdiv_zmult2_eq [symmetric])
  then show "five_min_bucket x = five_min_bucket y \<Longrightarrow> date_of x = date_of y" by simp
qed

definition stale :: "('r \<Rightarrow> datetime) \<Rightarrow> datetime \<Rightarrow> 'r list \<Rightarrow> 'r list" where
  "stale stamp now rows = filter (\<lambda>r. date_of now - 30 \<le> date_of (stamp r) \<and> date_of (stamp r) < date_of now - 7) rows"

definition first_in_bucket :: "('r \<Rightarrow> datetime) \<Rightarrow> 'r list \<Rightarrow> 'r \<Rightarrow> bool" where
  "first_in_bucket stamp rows r \<longleftrightarrow> (\<forall>q\<in>set rows. five_min_bucket (stamp q) = five_min_bucket (stamp r) \<longrightarrow> stamp r \<le> stamp q)"

lemma first_exists:
  assumes "r \<in> set rows"
  shows "\<exists>q\<in>set rows. five_min_bucket (stamp q) = five_min_bucket (stamp r) \<and> stamp q \<le> stamp r \<and> first_in_bucket stamp rows q"
proof -
  let ?B = "filter (\<lambda>q. five_min_bucket (stamp q) = five_min_bucket (stamp r)) rows"
  let ?m = "Min (stamp ` set ?B)"
  have ne: "stamp ` set ?B \<noteq> {}" using assms by auto
  then have "?m \<in> stamp ` set ?B" by (intro Min_in) simp
  then obtain q where q: "q \<in> set ?B" "stamp q = ?m" by auto
  have "stamp q \<le> stamp x" if "x \<in> set ?B" for x using that q(2) by simp
  then show ?thesis using q assms by (auto simp: first_in_bucket_def intro!: bexI [of _ q])
qed

lemma first_iff_Min:
  fixes stamp :: "'r \<Rightarrow> datetime"
  assumes "r \<in> set rows"
  defines "B \<equiv> \<lambda>r. set (map stamp (filter (\<lambda>q. five_min_bucket (stamp q) = five_min_bucket (stamp r)) rows))"
  shows "stamp r \<in> set (map (\<lambda>r. Min (B r)) rows) \<longleftrightarrow> first_in_bucket stamp rows r"
proof
  have fin: "finite (B q)" for q by (simp add: B_def)
  assume "stamp r \<in> set (map (\<lambda>r. Min (B r)) rows)"
  then obtain q where q: "q \<in> set rows" "stamp r = Min (B q)" by auto
  then have "B q \<noteq> {}" by (auto simp: B_def filter_empty_conv)
  from Min_in [OF fin this] q(2) have "five_min_bucket (stamp r) = five_min_bucket (stamp q)"
    by (auto simp: B_def)
  moreover have "Min (B q) \<le> stamp x" if "x \<in> set rows" "five_min_bucket (stamp x) = five_min_bucket (stamp q)" for x
    using that by (intro Min_le [OF fin]) (auto simp: B_def)
  ultimately show "first_in_bucket stamp rows r" using q(2) by (auto simp: first_in_bucket_def)
next
  assume first: "first_in_bucket stamp rows r"
  have "Min (B r) = stamp r"
    by (rule Min_eqI) (use first assms(1) in \<open>auto simp: B_def first_in_bucket_def\<close>)
  with assms(1) show "stamp r \<in> set (map (\<lambda>r. Min (B r)) rows)" by (auto simp: image_iff intro: bexI [of _ r])
qed

lemma prune_table_eq:
  "prune_table stamp now rows = filter (\<lambda>r. date_of now - 30 \<le> date_of (stamp r) \<and>
     (date_of (stamp r) < date_of now - 7 \<longrightarrow> first_in_bucket stamp (stale stamp now rows) r)) rows"
proof -
  have cut: "text_before x (now - 30 * us_per_day) \<longleftrightarrow> date_of x < date_of now - 30"
    "text_before x (now - 7 * us_per_day) \<longleftrightarrow> date_of x < date_of now - 7" for x
    using day_le [of now 30] day_le [of now 7] by (simp_all add: text_before_def)
  have old: "filter (\<lambda>r. date_of (stamp r) < date_of now - 7) (filter (\<lambda>r. \<not> date_of (stamp r) < date_of now - 30) rows)
      = stale stamp now rows"
    unfolding stale_def filter_filter by (rule filter_cong) auto
  define F where "F = set (map (\<lambda>r. Min (set (map stamp (filter (\<lambda>q. five_min_bucket (stamp q) = five_min_bucket (stamp r))
    (stale stamp now rows))))) (stale stamp now rows))"
  have F: "stamp r \<in> F \<longleftrightarrow> first_in_bucket stamp (stale stamp now rows) r" if "r \<in> set (stale stamp now rows)" for r
    unfolding F_def by (rule first_iff_Min [OF that])
  have mem: "r \<in> set (stale stamp now rows) \<longleftrightarrow> r \<in> set rows \<and> date_of now - 30 \<le> date_of (stamp r) \<and> date_of (stamp r) < date_of now - 7" for r
    by (simp add: stale_def)
  show ?thesis
    unfolding prune_table_def Let_def cut old F_def [symmetric]
    unfolding filter_filter by (rule filter_cong) (use F mem in auto)
qed

text \<open>
  Pruning keeps the rows of the last seven days, drops those older than thirty-one, and of what
  is between keeps in every five-minute bucket the rows of exactly one time, the earliest it has; doing
  it again at the same time changes nothing.
\<close>

lemma retention:
  "set (prune_table stamp now rows) \<subseteq> {r \<in> set rows. now - 31 * us_per_day < stamp r}
   \<and> {r \<in> set rows. now - 7 * us_per_day \<le> stamp r} \<subseteq> set (prune_table stamp now rows)
   \<and> (\<forall>r\<in>set rows. now - 30 * us_per_day \<le> stamp r \<longrightarrow>
        (\<exists>q\<in>set (prune_table stamp now rows). five_min_bucket (stamp q) = five_min_bucket (stamp r) \<and> stamp q \<le> stamp r))
   \<and> (\<forall>q\<in>set (prune_table stamp now rows). \<forall>r\<in>set (prune_table stamp now rows).
        stamp r < now - 8 * us_per_day \<and> five_min_bucket (stamp q) = five_min_bucket (stamp r) \<longrightarrow> stamp q = stamp r)
   \<and> prune_table stamp now (prune_table stamp now rows) = prune_table stamp now rows"
proof -
  let ?p = "prune_table stamp now rows" and ?s = "stale stamp now rows"
  have mono: "x \<le> y \<Longrightarrow> date_of x \<le> date_of y" for x y
    by (simp add: date_of_def us_per_day_def us_per_hour_def zdiv_mono1)
  have cut: "date_of (now - 30 * us_per_day) = date_of now - 30" "date_of (now - 31 * us_per_day) = date_of now - 31"
    "date_of (now - 7 * us_per_day) = date_of now - 7" "date_of (now - 8 * us_per_day) = date_of now - 8"
    using day_le [of now 30] day_le [of now 31] day_le [of now 7] day_le [of now 8] by simp_all
  have mem: "r \<in> set ?p \<longleftrightarrow> r \<in> set rows \<and> date_of now - 30 \<le> date_of (stamp r) \<and>
      (date_of (stamp r) < date_of now - 7 \<longrightarrow> first_in_bucket stamp ?s r)" for r
    by (simp add: prune_table_eq)
  have stale: "r \<in> set ?s \<longleftrightarrow> r \<in> set rows \<and> date_of now - 30 \<le> date_of (stamp r) \<and> date_of (stamp r) < date_of now - 7" for r
    by (simp add: stale_def)
  have new: "now - 31 * us_per_day < stamp r" if "r \<in> set ?p" for r
    using that mono [of "stamp r" "now - 31 * us_per_day"] cut(2) mem by force
  have week: "r \<in> set ?p" if "r \<in> set rows" "now - 7 * us_per_day \<le> stamp r" for r
    using that mono [OF that(2)] cut(3) mem by force
  have month: "\<exists>q\<in>set ?p. five_min_bucket (stamp q) = five_min_bucket (stamp r) \<and> stamp q \<le> stamp r"
    if r: "r \<in> set rows" "now - 30 * us_per_day \<le> stamp r" for r
  proof (cases "date_of (stamp r) < date_of now - 7")
    case True
    have "date_of now - 30 \<le> date_of (stamp r)" using mono [OF r(2)] cut(1) by simp
    with True r(1) have "r \<in> set ?s" by (simp add: stale)
    from first_exists [OF this] show ?thesis using mem stale by blast
  next
    case False
    then have "r \<in> set ?p" using r mono [OF r(2)] cut(1) mem by force
    then show ?thesis by blast
  qed
  have one: "stamp q = stamp r"
    if "q \<in> set ?p" "r \<in> set ?p" "stamp r < now - 8 * us_per_day" "five_min_bucket (stamp q) = five_min_bucket (stamp r)" for q r
  proof -
    have "date_of (stamp r) < date_of now - 7" using mono [of "stamp r" "now - 8 * us_per_day"] that(3) cut(4) by simp
    then have "q \<in> set ?s" "r \<in> set ?s" "first_in_bucket stamp ?s q" "first_in_bucket stamp ?s r"
      using that same_bucket_same_day [OF that(4)] mem stale by auto
    with that(4) show ?thesis unfolding first_in_bucket_def by (metis order_antisym)
  qed
  have keep: "first_in_bucket stamp ?s r \<Longrightarrow> first_in_bucket stamp (stale stamp now ?p) r" for r
    using mem stale by (auto simp: first_in_bucket_def stale_def)
  have "prune_table stamp now ?p = ?p"
    unfolding prune_table_eq [of stamp now ?p] using mem keep by (intro filter_True) blast
  with new week month one mem show ?thesis by (intro conjI subsetI ballI impI) auto
qed

subsection \<open>Examples\<close>

definition winning_lot :: lot where
  "winning_lot = \<lparr>l_id = 1, l_agent_id = SONNET, l_symbol = ''SPY'', l_qty = 10, l_entry_price = 50,
     l_entry_date = 0, l_entry_fill_id = 1, l_remaining_qty = 10, l_exit_fill_id = None, l_exit_date = None,
     l_exit_price = None, l_is_closed = False\<rparr>"

definition winning_tracker :: tracker where
  "winning_tracker = \<lparr>tk_records = [(SONNET, (fresh_rec 1000)\<lparr>tr_current := 1600, tr_peak := 1600\<rparr>)], tk_db = None, tk_bus = None,
     tk_kill = new_engine 60, tk_ledger = (empty_ledger None)\<lparr>lg_lots := [(1, winning_lot)]\<rparr>, tk_starting = 1000\<rparr>"

definition winning_snapshotter :: snapshotter where
  "winning_snapshotter = \<lparr>sn_db = empty_snapshots, sn_tracker = winning_tracker, sn_ledger = None\<rparr>"

definition spy_at_110 :: broker_position where
  "spy_at_110 = \<lparr>bp_symbol = ''SPY'', bp_qty = 10, bp_avg_entry_price = 50, bp_current_price = 110, bp_asset_class = ETF\<rparr>"

lemma winning_realized: "tracked_realized SONNET (tk_ledger winning_tracker) = 0"
  by (simp add: tracked_realized_def winning_tracker_def all_lots_def winning_lot_def)

lemma failed_call_forces_cash_example:
  "\<exists>r. dict_get (tk_records (sn_tracker (snapshot_tick (Some (Inl BrokerUnavailable, Inl BrokerUnavailable)) True 0 winning_snapshotter))) SONNET
     = Some r \<and> tr_current r = 1000 \<and> tr_bucket r = FORCED_CASH"
proof -
  have "dict_get (tk_records (sn_tracker winning_snapshotter)) SONNET = Some ((fresh_rec 1000)\<lparr>tr_current := 1600, tr_peak := 1600\<rparr>)"
    by (simp add: winning_snapshotter_def winning_tracker_def)
  from failed_call_forces_cash [OF _ this, of 1000 "Inl BrokerUnavailable" BrokerUnavailable True 0] show ?thesis
    by (auto simp: winning_snapshotter_def winning_realized fresh_rec_def dec_eval on_step_def)
qed

text \<open>With the call answered, the same agent stands at its peak.\<close>

lemma answered_call_keeps_peak:
  "\<exists>r. dict_get (tk_records (sn_tracker (snapshot_tick (Some (Inl BrokerUnavailable, Inr [spy_at_110])) True 0 winning_snapshotter))) SONNET
     = Some r \<and> tr_current r = 1600 \<and> tr_bucket r = NORMAL"
proof -
  have r: "dict_get (tk_records (sn_tracker winning_snapshotter)) SONNET = Some ((fresh_rec 1000)\<lparr>tr_current := 1600, tr_peak := 1600\<rparr>)"
    by (simp add: winning_snapshotter_def winning_tracker_def)
  have "tracked_equity 1000 SONNET [(''SPY'', 110)] (tk_ledger winning_tracker) = 1600"
    by (simp add: tracked_equity_def winning_realized)
       (simp add: tracked_unrealized_def winning_tracker_def all_lots_def winning_lot_def mark_for_def normalize_symbol_def
         dust_notional_usd_def dec_eval)
  then show ?thesis
    using tick_record [OF _ r, of "Some (Inl BrokerUnavailable, Inr [spy_at_110])" True 0]
    by (simp add: winning_snapshotter_def marks_of_def spy_at_110_def normalize_symbol_def marked_rec_def mark_equity_def
        expire_bench_def fresh_rec_def tracked_drawdown_def classify_drawdown_def apply_bucket_def Let_def dec_eval)
qed

end
