(* ===== verification/Alerts.thy ===== *)
theory Alerts
  imports Reconciler Tracker
begin

text \<open>
  Alerts to the operator: \<^verbatim>\<open>ops/alerts.py\<close>, which turns events of the bus into posts to ntfy.sh, and
  \<^verbatim>\<open>ops/telegram.py\<close>. Both suppress a second message with the same key within a window. Time is the monotonic
  clock, in microseconds. Whether a message gets through is a parameter of every send. Texts for people are left
  out, except where they make the key; the text of a decimal is the parameter \<open>str_of\<close>,
  and the dash in a halt's reason is written as two hyphens.
\<close>

subsection \<open>Telegram\<close>

record telegram =
  tg_enabled :: bool
  tg_window :: int
  tg_last :: "(string, int) dict"
  tg_out :: "(int \<times> string) list"

definition dedupe_window :: int where
  "dedupe_window = 60 * 1000000"

definition new_telegram :: "string \<Rightarrow> string \<Rightarrow> telegram" where
  "new_telegram token chat = \<lparr>tg_enabled = (token \<noteq> [] \<and> chat \<noteq> []), tg_window = dedupe_window, tg_last = [], tg_out = []\<rparr>"

definition suppressed :: "int \<Rightarrow> int \<Rightarrow> (string, int) dict \<Rightarrow> string \<Rightarrow> bool" where
  "suppressed window now lst key = (case dict_get lst key of None \<Rightarrow> False | Some l \<Rightarrow> now - l < window)"

text \<open>The result tells whether the message was delivered; \<open>tg_out\<close> keeps what was sent to the API.\<close>

definition telegram_send :: "bool \<Rightarrow> int \<Rightarrow> string \<Rightarrow> telegram \<Rightarrow> bool \<times> telegram" where
  "telegram_send delivered now key t =
     (if \<not> tg_enabled t \<or> suppressed (tg_window t) now (tg_last t) key then (False, t)
      else (delivered, t\<lparr>tg_last := dict_set key now (tg_last t), tg_out := tg_out t @ [(now, key)]\<rparr>))"

definition agent_text :: "agent_id option \<Rightarrow> string" where
  "agent_text a = (case a of None \<Rightarrow> ''None'' | Some a \<Rightarrow> agent_str a)"

definition halt_key :: "string \<Rightarrow> agent_id option \<Rightarrow> string" where
  "halt_key reason a = ''halt:'' @ agent_text a @ '':'' @ take 60 reason"

definition resume_key :: "agent_id option \<Rightarrow> string" where
  "resume_key a = ''resume:'' @ (case a of None \<Rightarrow> ''global'' | Some a \<Rightarrow> agent_str a)"

definition send_halt_alert :: "bool \<Rightarrow> int \<Rightarrow> string \<Rightarrow> agent_id option \<Rightarrow> telegram \<Rightarrow> bool \<times> telegram" where
  "send_halt_alert delivered now reason a t = telegram_send delivered now (halt_key reason a) t"

definition send_resume_alert :: "bool \<Rightarrow> int \<Rightarrow> agent_id option \<Rightarrow> telegram \<Rightarrow> bool \<times> telegram" where
  "send_resume_alert delivered now a t = telegram_send delivered now (resume_key a) t"

subsection \<open>The alert manager\<close>

datatype priority = DEFAULT | HIGH | URGENT

record posted =
  po_time :: int
  po_key :: string
  po_priority :: priority

record alerts =
  al_topic :: string
  al_window :: int
  al_last :: "(string, int) dict"
  al_sent :: nat
  al_dedup :: nat
  al_posts :: "posted list"
  al_telegram :: "telegram option"

definition new_alerts :: "string \<Rightarrow> telegram option \<Rightarrow> alerts" where
  "new_alerts topic tg = \<lparr>al_topic = topic, al_window = dedupe_window, al_last = [], al_sent = 0, al_dedup = 0,
     al_posts = [], al_telegram = tg\<rparr>"

text \<open>\<open>al_posts\<close> keeps the posts attempted; a failed post is logged and ignored, so its outcome has no effect.\<close>

definition alert_send :: "int \<Rightarrow> string \<Rightarrow> priority \<Rightarrow> alerts \<Rightarrow> alerts" where
  "alert_send now key pr m =
     (if al_topic m = [] then m
      else if suppressed (al_window m) now (al_last m) key then m\<lparr>al_dedup := al_dedup m + 1\<rparr>
      else m\<lparr>al_last := dict_set key now (al_last m), al_sent := al_sent m + 1,
             al_posts := al_posts m @ [\<lparr>po_time = now, po_key = key, po_priority = pr\<rparr>]\<rparr>)"

definition with_telegram :: "(telegram \<Rightarrow> bool \<times> telegram) \<Rightarrow> alerts \<Rightarrow> alerts" where
  "with_telegram f m = m\<lparr>al_telegram := map_option (\<lambda>t. snd (f t)) (al_telegram m)\<rparr>"

definition on_kill_switch :: "bool \<Rightarrow> int \<Rightarrow> agent_id option \<Rightarrow> kill_switch_state \<Rightarrow> string \<Rightarrow> alerts \<Rightarrow> alerts" where
  "on_kill_switch ok now a st reason m =
     with_telegram (send_halt_alert ok now (kill_state_str st @ '' -- '' @ reason) a)
       (alert_send now (''ks:'' @ kill_state_str st) URGENT m)"

definition on_reconciliation_break :: "bool \<Rightarrow> (decimal \<Rightarrow> string) \<Rightarrow> int \<Rightarrow> symbol \<Rightarrow> decimal \<Rightarrow> alerts \<Rightarrow> alerts" where
  "on_reconciliation_break ok str_of now s delta m =
     with_telegram (send_halt_alert ok now (''Reconciliation break '' @ s @ '': delta=$'' @ str_of delta) None)
       (alert_send now (''recon:'' @ s) HIGH m)"

definition on_budget_exhausted :: "bool \<Rightarrow> (decimal \<Rightarrow> string) \<Rightarrow> int \<Rightarrow> decimal \<Rightarrow> alerts \<Rightarrow> alerts" where
  "on_budget_exhausted ok str_of now spent m =
     with_telegram (send_halt_alert ok now (''Daily LLM budget exhausted -- spent $'' @ str_of spent) None)
       (alert_send now ''budget'' HIGH m)"

definition on_leverage_rotation :: "int \<Rightarrow> agent_id \<Rightarrow> string \<Rightarrow> alerts \<Rightarrow> alerts" where
  "on_leverage_rotation now a cat m = alert_send now (''rot:'' @ agent_str a @ '':'' @ cat) DEFAULT m"

definition on_agent_benched :: "int \<Rightarrow> agent_id \<Rightarrow> alerts \<Rightarrow> alerts" where
  "on_agent_benched now a m = alert_send now (''bench:'' @ agent_str a) HIGH m"

definition on_drawdown_ladder :: "int \<Rightarrow> agent_id option \<Rightarrow> drawdown_bucket \<Rightarrow> alerts \<Rightarrow> alerts" where
  "on_drawdown_ladder now a b m =
     (if b \<in> {NORMAL, YELLOW} then m
      else alert_send now (''dd:'' @ agent_text a @ '':'' @ bucket_str b) (if b \<in> {RED, FORCED_CASH} then URGENT else HIGH) m)"

definition on_kill_switch_reset :: "bool \<Rightarrow> int \<Rightarrow> agent_id option \<Rightarrow> alerts \<Rightarrow> alerts" where
  "on_kill_switch_reset ok now a m = with_telegram (send_resume_alert ok now a) (alert_send now ''ks:reset'' DEFAULT m)"

text \<open>An event of the bus: the handler subscribed to its name, if there is one.\<close>

fun on_event :: "bool \<Rightarrow> (decimal \<Rightarrow> string) \<Rightarrow> int \<Rightarrow> bus_event \<Rightarrow> alerts \<Rightarrow> alerts" where
  "on_event ok str_of now (KillSwitchTripped a st reason) m = on_kill_switch ok now a st reason m"
| "on_event ok str_of now (KillSwitchReset a) m = on_kill_switch_reset ok now a m"
| "on_event ok str_of now (ReconciliationBreak s _ _ delta) m = on_reconciliation_break ok str_of now s delta m"
| "on_event ok str_of now (BudgetExhaustedEvent spent) m = on_budget_exhausted ok str_of now spent m"
| "on_event ok str_of now (LeverageRotationFlag a _ cat _) m = on_leverage_rotation now a cat m"
| "on_event ok str_of now (AgentBenched a _) m = on_agent_benched now a m"
| "on_event ok str_of now (DrawdownLadderFired a _ b) m = on_drawdown_ladder now a b m"
| "on_event ok str_of now _ m = m"

definition alert_channels :: "string list" where
  "alert_channels = [''kill_switch.tripped'', ''kill_switch.reset'', ''reconciliation.break'', ''budget.exhausted'',
     ''leverage.rotation_flag'', ''agent.benched'', ''drawdown.ladder_fired'']"

text \<open>\<^verbatim>\<open>start\<close> and \<^verbatim>\<open>stop\<close>; \<open>h n\<close> is the handler for the channel \<open>n\<close>.\<close>

definition alerts_start :: "(string \<Rightarrow> handler) \<Rightarrow> event_bus \<Rightarrow> event_bus" where
  "alerts_start h b = foldl (\<lambda>b n. subscribe n (h n) b) b alert_channels"

definition alerts_stop :: "(string \<Rightarrow> handler) \<Rightarrow> event_bus \<Rightarrow> event_bus" where
  "alerts_stop h b = foldl (\<lambda>b n. unsubscribe n (h n) b) b alert_channels"

definition alert_run :: "(decimal \<Rightarrow> string) \<Rightarrow> (bool \<times> int \<times> bus_event) list \<Rightarrow> alerts \<Rightarrow> alerts" where
  "alert_run str_of es m = foldl (\<lambda>m (ok, now, e). on_event ok str_of now e m) m es"

subsection \<open>Subscriptions\<close>

text \<open>A started manager gets exactly the events its handlers are written for.\<close>

lemma handled_channels:
  "event_name e \<notin> set alert_channels \<Longrightarrow> on_event ok str_of now e m = m"
  by (cases e) (simp_all add: alert_channels_def)

lemma subscribe_all_of:
  "dict_get_or (foldl (\<lambda>b n. subscribe n (h n) b) b ns) n [] = dict_get_or b n [] @ map h (filter (\<lambda>x. x = n) ns)"
  by (induction ns arbitrary: b) (auto simp: subscribe_def dict_get_or_def)

lemma unsubscribe_all_of:
  "dict_get_or (foldl (\<lambda>b n. unsubscribe n (h n) b) b ns) n []
    = (if n \<in> set ns then filter (\<lambda>k. k \<noteq> h n) (dict_get_or b n []) else dict_get_or b n [])"
  by (induction ns arbitrary: b) (auto simp: unsubscribe_def dict_get_or_def)

lemma channels_plain: "''*'' \<notin> set alert_channels" "distinct alert_channels"
  by (simp_all add: alert_channels_def)

lemma started_channels:
  "publish_to e (alerts_start h []) = (if event_name e \<in> set alert_channels then [h (event_name e)] else [])"
proof -
  have one: "filter (\<lambda>x. x = n) ns = (if n \<in> set ns then [n] else [])" if "distinct ns" for ns and n :: string
    using that by (induction ns) (auto simp: filter_empty_conv)
  show ?thesis
    using channels_plain by (simp add: alerts_start_def publish_to_def subscribe_all_of one) (simp add: dict_get_or_def)
qed

lemma stopped_channels: "publish_to e (alerts_stop h (alerts_start h [])) = []"
proof -
  have "dict_get_or [] n [] = []" for n :: string by (simp add: dict_get_or_def)
  then show ?thesis
    using channels_plain(1) by (auto simp: alerts_stop_def alerts_start_def publish_to_def unsubscribe_all_of subscribe_all_of filter_empty_conv)
qed

subsection \<open>Suppression\<close>

definition spaced :: "int \<Rightarrow> (int \<times> string) list \<Rightarrow> bool" where
  "spaced window out \<longleftrightarrow> sorted_wrt (\<lambda>(t, k) (u, l). k = l \<longrightarrow> t + window \<le> u) out"

definition last_agrees :: "(string, int) dict \<Rightarrow> (int \<times> string) list \<Rightarrow> bool" where
  "last_agrees lst out \<longleftrightarrow> (\<forall>(t, k)\<in>set out. \<exists>u. dict_get lst k = Some u \<and> t \<le> u)"

lemma spaced_snoc:
  assumes "spaced window out" "last_agrees lst out" "\<not> suppressed window now lst key" "\<forall>(t, k)\<in>set out. t \<le> now"
  shows "spaced window (out @ [(now, key)]) \<and> last_agrees (dict_set key now lst) (out @ [(now, key)])"
proof -
  have "t + window \<le> now" if "(t, key) \<in> set out" for t
    using that assms(2,3) by (fastforce simp: last_agrees_def suppressed_def)
  with assms show ?thesis by (fastforce simp: spaced_def last_agrees_def sorted_wrt_append)
qed

definition out_ok :: "int \<Rightarrow> int \<Rightarrow> (string, int) dict \<Rightarrow> (int \<times> string) list \<Rightarrow> bool" where
  "out_ok now window lst out \<longleftrightarrow> spaced window out \<and> last_agrees lst out \<and> (\<forall>(t, k)\<in>set out. t \<le> now)"

definition post_log :: "alerts \<Rightarrow> (int \<times> string) list" where
  "post_log m = map (\<lambda>p. (po_time p, po_key p)) (al_posts m)"

definition alerts_ok :: "int \<Rightarrow> alerts \<Rightarrow> bool" where
  "alerts_ok now m \<longleftrightarrow> al_window m = dedupe_window \<and> out_ok now dedupe_window (al_last m) (post_log m) \<and>
     (case al_telegram m of None \<Rightarrow> True | Some t \<Rightarrow> tg_window t = dedupe_window \<and> out_ok now dedupe_window (tg_last t) (tg_out t))"

lemma out_ok_later: "out_ok now w l out \<Longrightarrow> now \<le> now' \<Longrightarrow> out_ok now' w l out"
  by (fastforce simp: out_ok_def)

lemma out_ok_snoc: "out_ok now w l out \<Longrightarrow> \<not> suppressed w now l key \<Longrightarrow> out_ok now w (dict_set key now l) (out @ [(now, key)])"
  using spaced_snoc [of w out l now key] by (simp add: out_ok_def)

lemma alerts_ok_later: "alerts_ok now m \<Longrightarrow> now \<le> now' \<Longrightarrow> alerts_ok now' m"
  by (auto simp: alerts_ok_def out_ok_later split: option.splits)

lemma alert_send_ok: "alerts_ok now m \<Longrightarrow> alerts_ok now (alert_send now key pr m)"
  by (auto simp: alerts_ok_def alert_send_def post_log_def out_ok_snoc [unfolded post_log_def])

lemma telegram_ok:
  assumes "alerts_ok now m"
  shows "alerts_ok now (with_telegram (\<lambda>t. telegram_send ok now key t) m)"
proof (cases "al_telegram m")
  case None
  with assms show ?thesis by (simp add: alerts_ok_def with_telegram_def post_log_def)
next
  case (Some t)
  with assms show ?thesis by (auto simp: alerts_ok_def with_telegram_def telegram_send_def post_log_def out_ok_snoc)
qed

lemma on_event_ok: "alerts_ok now m \<Longrightarrow> alerts_ok now (on_event ok str_of now e m)"
proof -
  assume m: "alerts_ok now m"
  have halt: "alerts_ok now n \<Longrightarrow> alerts_ok now (with_telegram (send_halt_alert ok now r a) n)" for n r a
    using telegram_ok [of now n ok "halt_key r a"] by (simp add: send_halt_alert_def [abs_def])
  have resume: "alerts_ok now n \<Longrightarrow> alerts_ok now (with_telegram (send_resume_alert ok now a) n)" for n a
    using telegram_ok [of now n ok "resume_key a"] by (simp add: send_resume_alert_def [abs_def])
  from m show ?thesis
    by (cases e)
      (simp_all only: on_event.simps on_kill_switch_def on_kill_switch_reset_def on_reconciliation_break_def
        on_budget_exhausted_def on_leverage_rotation_def on_agent_benched_def on_drawdown_ladder_def halt resume alert_send_ok
        split: if_split, simp_all)
qed

lemma alert_run_ok:
  "alerts_ok start m \<Longrightarrow> sorted (start # map (fst \<circ> snd) es) \<Longrightarrow> \<exists>now. alerts_ok now (alert_run str_of es m)"
proof (induction es arbitrary: start m)
  case (Cons x es)
  obtain ok now e where x: "x = (ok, now, e)" by (metis prod.collapse)
  have "alerts_ok now (on_event ok str_of now e m)"
    using Cons.prems x by (intro on_event_ok alerts_ok_later [OF Cons.prems(1)]) simp
  with Cons.IH [of now "on_event ok str_of now e m"] Cons.prems(2) show ?case by (simp add: x alert_run_def)
qed (auto simp: alert_run_def)

text \<open>
  However events flap, the operator gets no two posts, and no two Telegram messages, with the same key
  less than a minute apart.
\<close>

lemma messages_are_spaced:
  assumes "sorted (map (fst \<circ> snd) es)"
  shows "spaced dedupe_window (map (\<lambda>p. (po_time p, po_key p)) (al_posts (alert_run str_of es (new_alerts topic (map_option (\<lambda>(a, b). new_telegram a b) tg)))))
    \<and> (\<forall>t. al_telegram (alert_run str_of es (new_alerts topic (map_option (\<lambda>(a, b). new_telegram a b) tg))) = Some t \<longrightarrow>
          spaced dedupe_window (tg_out t))"
proof (cases es rule: list.exhaust)
  case (Cons x es')
  have "alerts_ok (fst (snd x)) (new_alerts topic (map_option (\<lambda>(a, b). new_telegram a b) tg))"
    by (auto simp: alerts_ok_def new_alerts_def new_telegram_def post_log_def out_ok_def spaced_def last_agrees_def split: option.split)
  from alert_run_ok [OF this, of es str_of] assms Cons obtain now where
    "alerts_ok now (alert_run str_of es (new_alerts topic (map_option (\<lambda>(a, b). new_telegram a b) tg)))" by auto
  then show ?thesis by (auto simp: alerts_ok_def out_ok_def post_log_def)
qed (auto simp: alert_run_def new_alerts_def new_telegram_def spaced_def)

lemma reset_key: "''ks:'' @ kill_state_str st \<noteq> ''ks:reset''" "halt_key r a \<noteq> resume_key b"
  by (cases st) (simp_all add: halt_key_def resume_key_def)

text \<open>
  When the kill switch trips, is reset and trips again for the same reason within a minute, the second
  trip is taken for a repetition on both channels: the last message the operator gets is
  that trading has resumed, while the switch is tripped.
\<close>

lemma resumed_is_the_last_message:
  assumes "al_topic m \<noteq> []" "al_window m = dedupe_window" "al_telegram m = Some t" "tg_enabled t" "tg_window t = dedupe_window"
    and "\<not> suppressed dedupe_window t1 (al_last m) (''ks:'' @ kill_state_str st)" "\<not> suppressed dedupe_window t2 (al_last m) ''ks:reset''"
    and "\<not> suppressed dedupe_window t1 (tg_last t) (halt_key (kill_state_str st @ '' -- '' @ r) a)"
    and "\<not> suppressed dedupe_window t2 (tg_last t) (resume_key a)" "t3 - t1 < dedupe_window"
  shows "let m' = alert_run str_of [(ok1, t1, KillSwitchTripped a st r), (ok2, t2, KillSwitchReset a), (ok3, t3, KillSwitchTripped a st r)] m
    in map po_key (al_posts m') = map po_key (al_posts m) @ [''ks:'' @ kill_state_str st, ''ks:reset'']
       \<and> (\<exists>t'. al_telegram m' = Some t' \<and> tg_out t' = tg_out t @ [(t1, halt_key (kill_state_str st @ '' -- '' @ r) a), (t2, resume_key a)])"
proof -
  let ?k = "''ks:'' @ kill_state_str st" and ?h = "halt_key (kill_state_str st @ '' -- '' @ r) a" and ?r = "''ks:reset''"
  have sup: "suppressed w now (dict_set k' l d) k = (if k = k' then now - l < w else suppressed w now d k)" for w now k' l d k
    by (simp add: suppressed_def)
  have post: "al_posts (alert_send t3 ?k URGENT (alert_send t2 ?r DEFAULT (alert_send t1 ?k URGENT m)))
      = al_posts m @ [\<lparr>po_time = t1, po_key = ?k, po_priority = URGENT\<rparr>, \<lparr>po_time = t2, po_key = ?r, po_priority = DEFAULT\<rparr>]"
    using assms(1,2,6,7,10) reset_key(1) [of st] unfolding alert_send_def by (simp add: sup)
  have tele: "tg_out (snd (telegram_send ok3 t3 ?h (snd (telegram_send ok2 t2 (resume_key a) (snd (telegram_send ok1 t1 ?h t))))))
      = tg_out t @ [(t1, ?h), (t2, resume_key a)]"
    using assms(4,5,8-10) reset_key(2) [of "kill_state_str st @ '' -- '' @ r" a a] unfolding telegram_send_def by (simp add: sup)
  have frame: "al_posts (with_telegram f n) = al_posts n" "al_telegram (alert_send now key pr n) = al_telegram n"
    "alert_send now key pr (with_telegram f n) = with_telegram f (alert_send now key pr n)" for f n now key pr
    by (simp_all add: with_telegram_def alert_send_def)
  show ?thesis
    unfolding alert_run_def on_kill_switch_def on_kill_switch_reset_def Let_def foldl.simps prod.case on_event.simps frame(3)
      send_halt_alert_def send_resume_alert_def frame(1) post
    using assms(3) tele by (simp add: with_telegram_def frame(2))
qed

subsection \<open>Examples\<close>

definition flapping :: "(bool \<times> int \<times> bus_event) list" where
  "flapping = [(True, 0, KillSwitchTripped None RECONCILIATION_BREAK ''reconciliation_break''), (True, 20 * 1000000, KillSwitchReset None),
     (True, 40 * 1000000, KillSwitchTripped None RECONCILIATION_BREAK ''reconciliation_break'')]"

lemma messages_are_spaced_example:
  "spaced dedupe_window (map (\<lambda>p. (po_time p, po_key p)) (al_posts (alert_run (\<lambda>_. []) flapping (new_alerts ''desk'' None))))"
  using messages_are_spaced [of flapping "\<lambda>_. []" "''desk''" None] by (simp add: flapping_def)

lemma resumed_is_the_last_message_example:
  "map po_key (al_posts (alert_run (\<lambda>_. []) flapping (new_alerts ''desk'' (Some (new_telegram ''bot'' ''chat'')))))
    = [''ks:reconciliation_break'', ''ks:reset'']"
  using resumed_is_the_last_message [of "new_alerts ''desk'' (Some (new_telegram ''bot'' ''chat''))" "new_telegram ''bot'' ''chat''" 0
      RECONCILIATION_BREAK "20 * 1000000" "''reconciliation_break''" None "40 * 1000000" "\<lambda>_. []" True True True]
  by (simp add: flapping_def new_alerts_def new_telegram_def suppressed_def dedupe_window_def Let_def)

end
