(* ===== verification/Bar_Cache.thy ===== *)
theory Bar_Cache
  imports Signals Effects
begin

text \<open>
  Daily bars: \<^verbatim>\<open>data/bar_cache.py\<close>, the SQLite cache before the market data feed, the replaying feed of
  \<^verbatim>\<open>data/market.py\<close> and the bar tables of \<^verbatim>\<open>data/store.py\<close>. The feed behind the cache is a parameter
  \<open>upstream\<close> that may raise. Dates are those of a bar's own time stamp; \<open>today\<close> is the current date in UTC.
\<close>

subsection \<open>The table\<close>

datatype timeframe = MINUTE | HOUR | DAY

type_synonym bar_table = "((symbol \<times> date) \<times> bar) list"
type_synonym feed = "symbol list \<Rightarrow> datetime \<Rightarrow> datetime \<Rightarrow> timeframe \<Rightarrow> exn + bars"

definition bar_date :: "bar \<Rightarrow> date" where
  "bar_date b = date_of (b_timestamp b)"

text \<open>A dict with a key for every symbol, in the order of first occurrence.\<close>

definition first_occurrences :: "'a list \<Rightarrow> 'a list" where
  "first_occurrences xs = rev (remdups (rev xs))"

definition read_range :: "symbol list \<Rightarrow> datetime \<Rightarrow> datetime \<Rightarrow> bar_table \<Rightarrow> bars" where
  "read_range syms start till t = map (\<lambda>s. (s, map snd (sort_key (snd \<circ> fst)
     (filter (\<lambda>((s', d), _). s' = s \<and> date_of start \<le> d \<and> d \<le> date_of till) t)))) (first_occurrences syms)"

definition last_cached :: "bar_table \<Rightarrow> symbol \<Rightarrow> date option" where
  "last_cached t s = (case map (snd \<circ> fst) (filter (\<lambda>((s', _), _). s' = s) t) of
       [] \<Rightarrow> None | ds \<Rightarrow> Some (Max (set ds)))"

definition last_cached_date :: "symbol list \<Rightarrow> bar_table \<Rightarrow> (symbol, date option) dict" where
  "last_cached_date syms t = map (\<lambda>s. (s, last_cached t s)) (first_occurrences syms)"

text \<open>Upserts the bars and tells how many; with \<open>skip_today\<close> only those of finished days.\<close>

definition cache_write :: "bool \<Rightarrow> date \<Rightarrow> bar list \<Rightarrow> bar_table \<Rightarrow> nat \<times> bar_table" where
  "cache_write skip_today today bs t =
     (let rows = filter (\<lambda>b. \<not> (skip_today \<and> today \<le> bar_date b)) bs
      in (length rows, foldl (\<lambda>t b. dict_set (b_symbol b, bar_date b) b t) t rows))"

subsection \<open>The cached feed\<close>

definition midnight :: "date \<Rightarrow> datetime" where
  "midnight d = d * us_per_day"

definition gap_start :: "bar_table \<Rightarrow> date \<Rightarrow> datetime \<Rightarrow> datetime \<Rightarrow> symbol \<Rightarrow> datetime" where
  "gap_start t today start till s = (case last_cached t s of
       None \<Rightarrow> start
     | Some d \<Rightarrow> if min (date_of till) (today - 1) \<le> d then midnight today else midnight (d + 1))"

definition merge_bars :: "datetime \<Rightarrow> datetime \<Rightarrow> bar list \<Rightarrow> bar list \<Rightarrow> bar list" where
  "merge_bars start till old new =
     sort_key b_timestamp (map snd (filter (\<lambda>(d, _). date_of start \<le> d \<and> d \<le> date_of till)
       (foldl (\<lambda>seen b. dict_set (bar_date b) b seen) [] (old @ new))))"

definition get_bars_batch ::
  "feed \<Rightarrow> date \<Rightarrow> symbol list \<Rightarrow> datetime \<Rightarrow> datetime \<Rightarrow> timeframe \<Rightarrow> (bar_table, bars) eff" where
  "get_bars_batch upstream today syms start till tf t =
     (if tf \<noteq> DAY \<or> syms = [] then (upstream syms start till tf, t)
      else let cached = read_range syms start till t;
               gap = Min (set (map (gap_start t today start till) syms))
           in if till < gap then (Inr cached, t)
              else (case upstream syms gap till tf of
                  Inl _ \<Rightarrow> (Inr cached, t)
                | Inr fresh \<Rightarrow>
                    (Inr (map (\<lambda>s. (s, merge_bars start till (dict_get_or cached s []) (dict_get_or fresh s [])))
                            (first_occurrences syms)),
                     snd (cache_write True today (concat (map snd fresh)) t))))"

definition get_bars :: "feed \<Rightarrow> date \<Rightarrow> symbol \<Rightarrow> datetime \<Rightarrow> datetime \<Rightarrow> timeframe \<Rightarrow> (bar_table, bar list) eff" where
  "get_bars upstream today s start till tf =
     andthen (get_bars_batch upstream today [s] start till tf) (\<lambda>r. ret (dict_get_or r s []))"

subsection \<open>The replaying feed\<close>

definition replay_bars :: "bars \<Rightarrow> symbol \<Rightarrow> datetime \<Rightarrow> datetime \<Rightarrow> bar list" where
  "replay_bars bs s start till = filter (\<lambda>b. start \<le> b_timestamp b \<and> b_timestamp b \<le> till) (dict_get_or bs s [])"

definition replay_batch :: "bars \<Rightarrow> feed" where
  "replay_batch bs syms start till tf = Inr (map (\<lambda>s. (s, replay_bars bs s start till)) (first_occurrences syms))"

definition replay_latest :: "bars \<Rightarrow> symbol \<Rightarrow> bar option" where
  "replay_latest bs s = (case dict_get_or bs s [] of [] \<Rightarrow> None | l \<Rightarrow> Some (last l))"

definition replay_snapshots :: "bars \<Rightarrow> symbol list \<Rightarrow> (symbol, bar) dict" where
  "replay_snapshots bs syms = foldl (\<lambda>out s. case replay_latest bs s of None \<Rightarrow> out | Some b \<Rightarrow> dict_set s b out) [] syms"

subsection \<open>The bar store\<close>

text \<open>\<^verbatim>\<open>data/store.py\<close>; what a price column of DuckDB makes of a decimal is the parameter \<open>narrow\<close>.\<close>

definition narrow_bar :: "(decimal \<Rightarrow> decimal) \<Rightarrow> bar \<Rightarrow> bar" where
  "narrow_bar narrow b = b\<lparr>b_open := narrow (b_open b), b_high := narrow (b_high b), b_low := narrow (b_low b),
     b_close := narrow (b_close b), b_vwap := map_option narrow (b_vwap b)\<rparr>"

definition save_bars :: "(decimal \<Rightarrow> decimal) \<Rightarrow> bar list \<Rightarrow> ((symbol \<times> datetime) \<times> bar) list \<Rightarrow> ((symbol \<times> datetime) \<times> bar) list" where
  "save_bars narrow bs t = foldl (\<lambda>t b. dict_set (b_symbol b, b_timestamp b) (narrow_bar narrow b) t) t bs"

definition load_bars :: "symbol \<Rightarrow> datetime \<Rightarrow> datetime \<Rightarrow> ((symbol \<times> datetime) \<times> bar) list \<Rightarrow> bar list" where
  "load_bars s start till t = map snd (sort_key (snd \<circ> fst)
     (filter (\<lambda>((s', ts), _). s' = s \<and> start \<le> ts \<and> ts \<le> till) t))"

subsection \<open>What is read and merged\<close>

lemma set_first_occurrences [simp]: "set (first_occurrences xs) = set xs"
  by (simp add: first_occurrences_def)

lemma dict_get_tabulate [simp]:
  "dict_get (map (\<lambda>s. (s, f s)) (first_occurrences xs)) s = (if s \<in> set xs then Some (f s) else None)"
  using map_of_tabulate [of f "first_occurrences xs" s] by simp

lemma upserts_keys: "distinct (map fst d) \<Longrightarrow> distinct (map fst (foldl (\<lambda>d b. dict_set (k b) b d) d bs))"
  by (induction bs arbitrary: d) simp_all

lemma upserts_get:
  "dict_get (foldl (\<lambda>d b. dict_set (k b) b d) d bs) x =
     (case filter (\<lambda>b. k b = x) (rev bs) of [] \<Rightarrow> dict_get d x | b # _ \<Rightarrow> Some b)"
  by (induction bs rule: rev_induct) auto

lemma upserts_set:
  assumes "inj_on k (set bs)" "distinct (map fst d)"
  shows "set (foldl (\<lambda>d b. dict_set (k b) b d) d bs)
    = (\<lambda>b. (k b, b)) ` set bs \<union> {(x, b) \<in> set d. x \<notin> k ` set bs}"
proof (rule set_eqI)
  fix xb :: "'b \<times> 'a"
  obtain x b where xb: "xb = (x, b)" by fastforce
  let ?e = "foldl (\<lambda>d b. dict_set (k b) b d) d bs"
  have "(x, b) \<in> set ?e \<longleftrightarrow> dict_get ?e x = Some b"
    using upserts_keys [OF assms(2)] by (rule dict_get_in_set)
  also have "\<dots> \<longleftrightarrow> b \<in> set bs \<and> x = k b \<or> x \<notin> k ` set bs \<and> (x, b) \<in> set d"
  proof (cases "filter (\<lambda>b. k b = x) (rev bs)")
    case Nil
    then have "x \<notin> k ` set bs" by (auto simp: filter_empty_conv)
    with Nil show ?thesis using dict_get_in_set [OF assms(2), of x b] by (auto simp: upserts_get)
  next
    case (Cons c cs)
    then have "c \<in> set (filter (\<lambda>b. k b = x) (rev bs))" by simp
    then have c: "c \<in> set bs" "k c = x" by auto
    have "b \<in> set bs \<and> x = k b \<longleftrightarrow> b = c" using assms(1) c by (auto dest: inj_onD)
    with Cons c show ?thesis by (auto simp: upserts_get)
  qed
  finally show "xb \<in> set ?e \<longleftrightarrow> xb \<in> (\<lambda>b. (k b, b)) ` set bs \<union> {(x, b) \<in> set d. x \<notin> k ` set bs}"
    by (auto simp: xb)
qed

lemma last_cached_cases:
  obtains (none) "last_cached t s = None" "\<forall>((s', d), b)\<in>set t. s' \<noteq> s"
  | (some) m b where "last_cached t s = Some m" "((s, m), b) \<in> set t" "\<forall>((s', d), b)\<in>set t. s' = s \<longrightarrow> d \<le> m"
proof (cases "filter (\<lambda>((s', _), _). s' = s) t")
  case Nil
  then show thesis by (intro none) (auto simp: last_cached_def filter_empty_conv)
next
  case (Cons x xs)
  let ?D = "set (map (snd \<circ> fst) (filter (\<lambda>((s', _), _). s' = s) t))"
  have l: "last_cached t s = Some (Max ?D)" using Cons by (simp add: last_cached_def)
  have "Max ?D \<in> ?D" by (rule Max_in) (simp_all add: Cons)
  then obtain b where "((s, Max ?D), b) \<in> set t" by auto
  moreover have "\<forall>((s', d), b)\<in>set t. s' = s \<longrightarrow> d \<le> Max ?D" by (force intro!: Max_ge)
  ultimately show thesis using l some by blast
qed

subsection \<open>A feed with a fixed history\<close>

text \<open>
  \<open>hist s\<close> is the history of a symbol, at most one bar per day, stamped at any time of its day. A feed that
  answers gives the bars of the interval; one that may fail raises instead. The replaying feed is one that answers.
\<close>

definition history_ok :: "(symbol \<Rightarrow> bar list) \<Rightarrow> bool" where
  "history_ok hist \<longleftrightarrow> (\<forall>s. sorted_wrt (\<lambda>x y. bar_date x < bar_date y) (hist s) \<and> (\<forall>b\<in>set (hist s). b_symbol b = s))"

definition history_part :: "(symbol \<Rightarrow> bar list) \<Rightarrow> symbol list \<Rightarrow> datetime \<Rightarrow> datetime \<Rightarrow> bars" where
  "history_part hist syms start till =
     map (\<lambda>s. (s, filter (\<lambda>b. start \<le> b_timestamp b \<and> b_timestamp b \<le> till) (hist s))) (first_occurrences syms)"

definition answers_from :: "(symbol \<Rightarrow> bar list) \<Rightarrow> feed \<Rightarrow> bool" where
  "answers_from hist upstream \<longleftrightarrow> (\<forall>syms start till. upstream syms start till DAY = Inr (history_part hist syms start till))"

definition answers_or_fails :: "(symbol \<Rightarrow> bar list) \<Rightarrow> feed \<Rightarrow> bool" where
  "answers_or_fails hist upstream \<longleftrightarrow> (\<forall>syms start till. upstream syms start till DAY = Inr (history_part hist syms start till)
     \<or> isl (upstream syms start till DAY))"

text \<open>The first day that lies in the interval from its midnight on, and the bars of such days that are out.\<close>

definition first_full :: "datetime \<Rightarrow> date" where
  "first_full start = - ((- start) div us_per_day)"

definition wanted :: "datetime \<Rightarrow> datetime \<Rightarrow> bar \<Rightarrow> bool" where
  "wanted start till b \<longleftrightarrow> first_full start \<le> bar_date b \<and> b_timestamp b \<le> till"

definition days_of :: "(symbol \<Rightarrow> bar list) \<Rightarrow> symbol \<Rightarrow> date \<Rightarrow> date \<Rightarrow> bar list" where
  "days_of hist s a z = filter (\<lambda>b. a \<le> bar_date b \<and> bar_date b \<le> z) (hist s)"

text \<open>The table holds bars of the history, of finished days, and has no gap after \<open>a\<close>.\<close>

definition table_ok :: "(symbol \<Rightarrow> bar list) \<Rightarrow> date \<Rightarrow> bar_table \<Rightarrow> bool" where
  "table_ok hist today t \<longleftrightarrow> distinct (map fst t) \<and>
     (\<forall>((s, d), b)\<in>set t. b \<in> set (hist s) \<and> d = bar_date b \<and> d < today)"

definition no_gap :: "(symbol \<Rightarrow> bar list) \<Rightarrow> date \<Rightarrow> bar_table \<Rightarrow> bool" where
  "no_gap hist a t \<longleftrightarrow> (\<forall>((s, d), _)\<in>set t. \<forall>b\<in>set (hist s). a \<le> bar_date b \<longrightarrow> bar_date b \<le> d \<longrightarrow> ((s, bar_date b), b) \<in> set t)"

lemma no_gapD: "no_gap hist a t \<Longrightarrow> ((s, d), c) \<in> set t \<Longrightarrow> b \<in> set (hist s) \<Longrightarrow> a \<le> bar_date b \<Longrightarrow> bar_date b \<le> d \<Longrightarrow>
    ((s, bar_date b), b) \<in> set t"
  unfolding no_gap_def by blast

lemma replay_answers: "history_ok hist \<Longrightarrow> (\<And>s. dict_get_or bs s [] = hist s) \<Longrightarrow> answers_from hist (replay_batch bs)"
  by (simp add: answers_from_def history_part_def replay_batch_def replay_bars_def)

lemma strict_sort_key: "distinct (map f xs) \<Longrightarrow> sorted_wrt (\<lambda>x y. f x < f y) (sort_key f xs)"
proof -
  assume "distinct (map f xs)"
  then have "distinct (map f (sort_key f xs))" by (simp add: distinct_map)
  then have "sorted_wrt (<) (map f (sort_key f xs))" by (simp add: strict_sorted_iff)
  then show ?thesis by (simp add: sorted_wrt_map)
qed

lemma by_date_unique:
  assumes "sorted_wrt (\<lambda>x y. bar_date x < bar_date y) xs" "sorted_wrt (\<lambda>x y. bar_date x < bar_date y) ys" "set xs = set ys"
  shows "xs = ys"
proof -
  have s: "sorted_wrt (<) (map bar_date xs)" "sorted_wrt (<) (map bar_date ys)"
    using assms(1,2) by (simp_all add: sorted_wrt_map)
  then have "map bar_date xs = map bar_date ys"
    using assms(3) by (intro strict_sorted_equal) auto
  moreover have "inj_on bar_date (set xs \<union> set ys)"
    using s(1) assms(3) by (simp add: strict_sorted_iff distinct_map)
  ultimately show ?thesis by (simp add: inj_on_map_eq_map)
qed

lemma midnight_date [simp]: "date_of (midnight d) = d" "midnight d \<le> ts \<longleftrightarrow> d \<le> date_of ts" "ts < midnight d \<longleftrightarrow> date_of ts < d"
  "midnight d \<le> midnight e \<longleftrightarrow> d \<le> e" "midnight d < midnight e \<longleftrightarrow> d < e"
proof -
  have p: "0 < us_per_day" by (simp add: us_per_day_def us_per_hour_def)
  show "date_of (midnight d) = d" using p by (simp add: date_of_def midnight_def)
  show le: "midnight d \<le> ts \<longleftrightarrow> d \<le> date_of ts"
  proof
    assume "midnight d \<le> ts"
    from zdiv_mono1 [OF this p] show "d \<le> date_of ts" using p by (simp add: date_of_def midnight_def)
  next
    assume "d \<le> date_of ts"
    then have "d * us_per_day \<le> date_of ts * us_per_day" using p by (simp add: mult_right_mono)
    also have "\<dots> \<le> ts" using minus_mod_eq_div_mult [of ts us_per_day] pos_mod_sign [OF p, of ts] unfolding date_of_def by linarith
    finally show "midnight d \<le> ts" by (simp add: midnight_def)
  qed
  then show "ts < midnight d \<longleftrightarrow> date_of ts < d" by linarith
  show "midnight d \<le> midnight e \<longleftrightarrow> d \<le> e" "midnight d < midnight e \<longleftrightarrow> d < e" using p by (simp_all add: midnight_def)
qed

lemma history_strict: "history_ok hist \<Longrightarrow> sorted_wrt (\<lambda>x y. bar_date x < bar_date y) (days_of hist s a z)"
  by (simp add: history_ok_def days_of_def sorted_wrt_filter)

lemma history_inj: "history_ok hist \<Longrightarrow> b \<in> set (hist s) \<Longrightarrow> c \<in> set (hist s) \<Longrightarrow> bar_date b = bar_date c \<Longrightarrow> b = c"
proof -
  assume h: "history_ok hist" "b \<in> set (hist s)" "c \<in> set (hist s)" "bar_date b = bar_date c"
  from h(1) have "sorted_wrt (<) (map bar_date (hist s))" by (simp add: history_ok_def sorted_wrt_map)
  then have "inj_on bar_date (set (hist s))" by (simp add: strict_sorted_iff distinct_map)
  with h(2-4) show "b = c" by (auto dest: inj_onD)
qed

lemma history_symbol: "history_ok hist \<Longrightarrow> b \<in> set (hist s) \<Longrightarrow> b_symbol b = s"
  by (simp add: history_ok_def)

lemma first_full_le: "first_full start \<le> d \<longleftrightarrow> start \<le> midnight d"
proof -
  have p: "0 < us_per_day" by (simp add: us_per_day_def us_per_hour_def)
  have "first_full start \<le> d \<longleftrightarrow> midnight (- d) \<le> - start"
    unfolding midnight_date(2) by (simp add: first_full_def date_of_def) linarith
  then show ?thesis by (auto simp: midnight_def)
qed

lemma first_full_mono: "x \<le> y \<Longrightarrow> first_full x \<le> first_full y"
  using first_full_le [of y "first_full y"] by (auto simp: first_full_le)

lemma first_full_midnight [simp]: "first_full (midnight d) = d"
  by (rule antisym) (simp_all add: first_full_le, metis first_full_le midnight_date(4) order_refl)

lemma date_first_full: "date_of start \<le> first_full start"
  using first_full_le [of start "first_full start"] by (metis date_of_mono midnight_date(1) order_refl)

lemma stamp_midnight: "midnight (bar_date b) \<le> b_timestamp b" "midnight d \<le> b_timestamp b \<longleftrightarrow> d \<le> bar_date b"
  by (simp_all add: bar_date_def)

lemma stamp_before: "b_timestamp b < midnight d \<longleftrightarrow> bar_date b < d"
  by (simp add: bar_date_def)

lemma stamp_date: "date_of (b_timestamp b) = bar_date b"
  by (simp add: bar_date_def)

lemma wantedD:
  "wanted start till b \<Longrightarrow> start \<le> b_timestamp b \<and> date_of start \<le> bar_date b \<and> bar_date b \<le> date_of till"
proof -
  assume w: "wanted start till b"
  then have "start \<le> midnight (bar_date b)" by (simp add: wanted_def flip: first_full_le)
  then have "start \<le> b_timestamp b" using stamp_midnight(1) by (rule order_trans)
  moreover have "bar_date b \<le> date_of till" using w by (simp add: wanted_def bar_date_def date_of_mono)
  ultimately show ?thesis using w date_first_full [of start] by (simp add: wanted_def)
qed

subsection \<open>The cache is transparent\<close>

text \<open>What the table holds of a symbol in an interval of days.\<close>

lemma read_range_bars:
  assumes h: "history_ok hist" and t: "table_ok hist today t" and s: "s \<in> set syms"
  shows "sorted_wrt (\<lambda>x y. bar_date x < bar_date y) (dict_get_or (read_range syms start till t) s [])"
    and "set (dict_get_or (read_range syms start till t) s [])
      = {b \<in> set (days_of hist s (date_of start) (date_of till)). ((s, bar_date b), b) \<in> set t}"
proof -
  let ?rows = "filter (\<lambda>((s', d), _). s' = s \<and> date_of start \<le> d \<and> d \<le> date_of till) t"
  have get: "dict_get_or (read_range syms start till t) s [] = map snd (sort_key (snd \<circ> fst) ?rows)"
    using s by (simp add: dict_get_or_def read_range_def)
  have date: "x \<in> set ?rows \<Longrightarrow> fst x = (s, bar_date (snd x)) \<and> snd x \<in> set (hist s)" for x
    using t by (fastforce simp: table_ok_def)
  have "distinct (map fst ?rows)" using t by (simp add: table_ok_def distinct_map_filter)
  moreover have "inj_on snd (fst ` set ?rows)" by (auto simp: inj_on_def)
  ultimately have "distinct (map (snd \<circ> fst) ?rows)"
    by (simp add: distinct_map comp_inj_on)
  from strict_sort_key [OF this]
  show "sorted_wrt (\<lambda>x y. bar_date x < bar_date y) (dict_get_or (read_range syms start till t) s [])"
    unfolding get sorted_wrt_map by (rule sorted_wrt_mono_rel [rotated]) (use date in auto)
  show "set (dict_get_or (read_range syms start till t) s [])
      = {b \<in> set (days_of hist s (date_of start) (date_of till)). ((s, bar_date b), b) \<in> set t}"
    unfolding get using date by (force simp: days_of_def)
qed

text \<open>Every wanted bar before the gap is in the table.\<close>

lemma before_gap:
  assumes "table_ok hist today t" "no_gap hist (first_full start) t"
    and "b \<in> set (hist s)" "wanted start till b"
    and "b_timestamp b < gap_start t today start till s \<or> till < gap_start t today start till s"
  shows "((s, bar_date b), b) \<in> set t"
proof -
  have b: "first_full start \<le> bar_date b" "b_timestamp b \<le> till" using assms(4) by (simp_all add: wanted_def)
  note w = wantedD [OF assms(4)]
  have early: "b_timestamp b < gap_start t today start till s" using assms(5) b(2) by linarith
  show ?thesis
  proof (cases t s rule: last_cached_cases)
    case none
    then show ?thesis using early w by (simp add: gap_start_def)
  next
    case (some m c)
    have "m < today" using some(2) assms(1) by (auto simp: table_ok_def)
    then have "bar_date b \<le> m" using early some(1) w by (auto simp: gap_start_def stamp_date split: if_splits)
    then show ?thesis using no_gapD [OF assms(2) some(2) assms(3) b(1)] by simp
  qed
qed

lemma sorted_dates: "sorted (map b_timestamp xs) \<Longrightarrow> sorted (map bar_date xs)"
  by (induction xs) (auto simp: bar_date_def date_of_mono)

lemma merged_bars:
  assumes h: "history_ok hist" and sub: "set old \<union> set new \<subseteq> set (hist s)"
  shows "set (merge_bars start till old new) = {b \<in> set old \<union> set new. date_of start \<le> bar_date b \<and> bar_date b \<le> date_of till}"
    and "sorted_wrt (\<lambda>x y. bar_date x < bar_date y) (merge_bars start till old new)"
proof -
  define seen where "seen = foldl (\<lambda>seen b. dict_set (bar_date b) b seen) [] (old @ new)"
  let ?m = "map snd (filter (\<lambda>(d, _). date_of start \<le> d \<and> d \<le> date_of till) seen)"
  have "inj_on bar_date (set (old @ new))"
    using sub history_inj [OF h] by (intro inj_onI) (metis set_append subsetD)
  from upserts_set [OF this, of "[]"] have seen: "set seen = (\<lambda>b. (bar_date b, b)) ` (set old \<union> set new)"
    unfolding seen_def by simp
  show "set (merge_bars start till old new) = {b \<in> set old \<union> set new. date_of start \<le> bar_date b \<and> bar_date b \<le> date_of till}"
    unfolding merge_bars_def seen_def [symmetric] by (force simp: seen)
  have keys: "distinct (map fst seen)" unfolding seen_def by (rule upserts_keys) simp
  have "distinct (map fst (filter (\<lambda>(d, _). date_of start \<le> d \<and> d \<le> date_of till) seen))"
    using keys by (rule distinct_map_filter)
  moreover have "map fst (filter (\<lambda>(d, _). date_of start \<le> d \<and> d \<le> date_of till) seen) = map bar_date ?m"
    unfolding map_map by (rule map_cong) (use seen in auto)
  ultimately have "distinct (map bar_date ?m)" by simp
  moreover have "mset (map bar_date (sort_key b_timestamp ?m)) = mset (map bar_date ?m)" unfolding mset_map by simp
  ultimately have "distinct (map bar_date (sort_key b_timestamp ?m))" using mset_eq_imp_distinct_iff by blast
  moreover have "sorted (map bar_date (sort_key b_timestamp ?m))"
    by (rule sorted_dates) (rule sorted_sort_key)
  ultimately have "sorted_wrt (<) (map bar_date (sort_key b_timestamp ?m))" by (simp add: strict_sorted_iff)
  then show "sorted_wrt (\<lambda>x y. bar_date x < bar_date y) (merge_bars start till old new)"
    unfolding merge_bars_def seen_def [symmetric] sorted_wrt_map .
qed

lemma dict_get_or_read: "s \<notin> set syms \<Longrightarrow> dict_get_or (read_range syms start till t) s [] = []"
  by (simp add: read_range_def dict_get_or_def)

text \<open>What a request is owed: bars of its days in order, and every wanted bar if the feed answers.\<close>

definition owed :: "(symbol \<Rightarrow> bar list) \<Rightarrow> bool \<Rightarrow> symbol \<Rightarrow> datetime \<Rightarrow> datetime \<Rightarrow> bar list \<Rightarrow> bool" where
  "owed hist up s start till bs \<longleftrightarrow> set bs \<subseteq> set (days_of hist s (date_of start) (date_of till))
     \<and> sorted_wrt (\<lambda>x y. bar_date x < bar_date y) bs
     \<and> (up \<longrightarrow> filter (wanted start till) bs = filter (wanted start till) (hist s))"

lemma owedI:
  assumes h: "history_ok hist" and "set bs \<subseteq> set (days_of hist s (date_of start) (date_of till))"
    and "sorted_wrt (\<lambda>x y. bar_date x < bar_date y) bs"
    and "\<And>b. up \<Longrightarrow> b \<in> set (hist s) \<Longrightarrow> wanted start till b \<Longrightarrow> b \<in> set bs"
  shows "owed hist up s start till bs"
proof -
  have "filter (wanted start till) bs = filter (wanted start till) (hist s)" if up
    by (rule by_date_unique)
      (use h assms(2,3) assms(4) [OF that] in \<open>auto simp: history_ok_def sorted_wrt_filter days_of_def\<close>)
  with assms(2,3) show ?thesis by (simp add: owed_def)
qed

lemma batch_answer:
  assumes h: "history_ok hist" and up: "answers_or_fails hist upstream" and t: "table_ok hist today t"
    and g: "no_gap hist (first_full start) t" and ne: "syms \<noteq> []"
  shows "\<exists>r. fst (get_bars_batch upstream today syms start till DAY t) = Inr r
    \<and> (\<forall>s\<in>set syms. owed hist (answers_from hist upstream) s start till (dict_get_or r s []))"
proof -
  let ?cached = "read_range syms start till t" and ?gap = "Min (set (map (gap_start t today start till) syms))"
  have gap: "?gap \<le> gap_start t today start till s" if "s \<in> set syms" for s using that by simp
  have cached: "set (dict_get_or ?cached s []) = {b \<in> set (days_of hist s (date_of start) (date_of till)). ((s, bar_date b), b) \<in> set t}"
    "sorted_wrt (\<lambda>x y. bar_date x < bar_date y) (dict_get_or ?cached s [])" if "s \<in> set syms" for s
    using read_range_bars [OF h t that] by blast+
  have in_c: "b \<in> set (dict_get_or ?cached s [])"
    if s: "s \<in> set syms" and b: "b \<in> set (hist s)" "wanted start till b" and e: "b_timestamp b < ?gap \<or> till < ?gap" for s b
  proof -
    have "b_timestamp b < gap_start t today start till s \<or> till < gap_start t today start till s"
      using gap [OF s] e by linarith
    from before_gap [OF t g b this] show ?thesis using b wantedD [OF b(2)] by (simp add: cached(1) [OF s] days_of_def)
  qed
  have cached_only: "owed hist u s start till (dict_get_or ?cached s [])" if "s \<in> set syms" "u \<Longrightarrow> till < ?gap" for s u
    by (rule owedI [OF h _ cached(2) [OF that(1)]]) (use cached(1) [OF that(1)] in_c [OF that(1)] that(2) in auto)
  show ?thesis
  proof (cases "till < ?gap")
    case True
    with ne cached_only show ?thesis by (simp add: get_bars_batch_def)
  next
    case late: False
    define fresh where "fresh = history_part hist syms ?gap till"
    consider "isl (upstream syms ?gap till DAY)" | "upstream syms ?gap till DAY = Inr fresh"
      using up by (auto simp: answers_or_fails_def fresh_def)
    then show ?thesis
    proof cases
      case 1
      then have "\<not> answers_from hist upstream" by (auto simp: answers_from_def isl_def) (metis sum.distinct(1))
      with 1 ne late cached_only show ?thesis by (auto simp: get_bars_batch_def Let_def isl_def)
    next
      case 2
      have "owed hist (answers_from hist upstream) s start till (merge_bars start till (dict_get_or ?cached s []) (dict_get_or fresh s []))"
        if s: "s \<in> set syms" for s
      proof -
        have f: "dict_get_or fresh s [] = filter (\<lambda>b. ?gap \<le> b_timestamp b \<and> b_timestamp b \<le> till) (hist s)"
          using s by (simp add: fresh_def history_part_def dict_get_or_def)
        have sub: "set (dict_get_or ?cached s []) \<union> set (dict_get_or fresh s []) \<subseteq> set (hist s)"
          using cached(1) [OF s] by (auto simp: f days_of_def)
        note m = merged_bars [OF h sub, of start till]
        show ?thesis
        proof (rule owedI [OF h _ m(2)])
          show "set (merge_bars start till (dict_get_or ?cached s []) (dict_get_or fresh s []))
              \<subseteq> set (days_of hist s (date_of start) (date_of till))"
            unfolding m(1) using sub by (auto simp: days_of_def)
          fix b assume b: "b \<in> set (hist s)" "wanted start till b"
          show "b \<in> set (merge_bars start till (dict_get_or ?cached s []) (dict_get_or fresh s []))"
            unfolding m(1) using in_c [OF s b] wantedD [OF b(2)] b
            by (cases "?gap \<le> b_timestamp b") (auto simp: f wanted_def)
        qed
      qed
      with 2 late ne show ?thesis by (auto simp: get_bars_batch_def Let_def dict_get_or_def)
    qed
  qed
qed

lemma cache_write_set:
  assumes "history_ok hist" "table_ok hist today t" "\<And>b. b \<in> set bs \<Longrightarrow> b \<in> set (hist (b_symbol b))"
  shows "set (snd (cache_write True today bs t))
      = (\<lambda>b. ((b_symbol b, bar_date b), b)) ` {b \<in> set bs. bar_date b < today} \<union> set t"
    and "table_ok hist today (snd (cache_write True today bs t))"
proof -
  let ?rows = "filter (\<lambda>b. \<not> (True \<and> today \<le> bar_date b)) bs"
  have w: "snd (cache_write True today bs t) = foldl (\<lambda>t b. dict_set (b_symbol b, bar_date b) b t) t ?rows"
    by (simp add: cache_write_def Let_def)
  have inj: "inj_on (\<lambda>b. (b_symbol b, bar_date b)) (set ?rows)"
    using assms(3) history_inj [OF assms(1)] by (auto intro!: inj_onI) (metis (lifting))
  have same: "b = c" if "((b_symbol c, bar_date c), b) \<in> set t" "c \<in> set bs" for b c
    using that assms(2) assms(3) [OF that(2)] history_inj [OF assms(1)] by (fastforce simp: table_ok_def)
  have dist: "distinct (map fst t)" using assms(2) by (simp add: table_ok_def)
  show set: "set (snd (cache_write True today bs t))
      = (\<lambda>b. ((b_symbol b, bar_date b), b)) ` {b \<in> set bs. bar_date b < today} \<union> set t"
    unfolding w upserts_set [OF inj dist] using same by fastforce
  have "distinct (map fst (snd (cache_write True today bs t)))" unfolding w by (rule upserts_keys [OF dist])
  then show "table_ok hist today (snd (cache_write True today bs t))"
    using assms(2,3) unfolding table_ok_def set by auto
qed

lemma batch_table:
  assumes h: "history_ok hist" and up: "answers_or_fails hist upstream" and t: "table_ok hist today t"
    and g: "no_gap hist (first_full start) t" and ne: "syms \<noteq> []"
  shows "table_ok hist today (snd (get_bars_batch upstream today syms start till DAY t))
    \<and> no_gap hist (first_full start) (snd (get_bars_batch upstream today syms start till DAY t))"
proof (cases "till < Min (set (map (gap_start t today start till) syms))
    \<or> isl (upstream syms (Min (set (map (gap_start t today start till) syms))) till DAY)")
  case True
  then have "snd (get_bars_batch upstream today syms start till DAY t) = t"
    using ne by (auto simp: get_bars_batch_def Let_def isl_def)
  then show ?thesis using t g by simp
next
  case False
  let ?gap = "Min (set (map (gap_start t today start till) syms))"
  define fresh where "fresh = history_part hist syms ?gap till"
  have "upstream syms ?gap till DAY = Inr fresh" using up False by (auto simp: answers_or_fails_def fresh_def)
  then have run: "snd (get_bars_batch upstream today syms start till DAY t) = snd (cache_write True today (concat (map snd fresh)) t)"
    using False ne by (auto simp: get_bars_batch_def Let_def)
  have mem: "b \<in> set (concat (map snd fresh)) \<longleftrightarrow>
      (\<exists>s\<in>set syms. b \<in> set (hist s) \<and> b_symbol b = s \<and> ?gap \<le> b_timestamp b \<and> b_timestamp b \<le> till)" for b
    using history_symbol [OF h] by (auto simp: fresh_def history_part_def)
  have bs: "b \<in> set (hist (b_symbol b))" if "b \<in> set (concat (map snd fresh))" for b using that mem by blast
  let ?t = "snd (cache_write True today (concat (map snd fresh)) t)"
  have set: "set ?t = (\<lambda>b. ((b_symbol b, bar_date b), b)) ` {b \<in> set (concat (map snd fresh)). bar_date b < today} \<union> set t"
    "table_ok hist today ?t"
    by (rule cache_write_set [OF h t], erule bs)+
  have "((s, bar_date b), b) \<in> set ?t"
    if x: "((s, d), c) \<in> set ?t" and b: "b \<in> set (hist s)" "first_full start \<le> bar_date b" "bar_date b \<le> d" for s d c b
  proof (cases "((s, d), c) \<in> set t")
    case True
    then show ?thesis using no_gapD [OF g True b] unfolding set(1) by simp
  next
    case False
    with x have c: "c \<in> set (concat (map snd fresh))" "b_symbol c = s" "bar_date c = d" "d < today" unfolding set(1) by auto
    have s: "s \<in> set syms" "b_timestamp c \<le> till" "c \<in> set (hist s)" using c(1,2) mem by auto
    have "b_timestamp b \<le> b_timestamp c"
    proof (cases "bar_date b = d")
      case True
      then show ?thesis using history_inj [OF h b(1) s(3)] c(3) by simp
    next
      case False
      then have "b_timestamp b < midnight d" using b(3) by (simp add: stamp_date)
      then show ?thesis using stamp_midnight(1) [of c] c(3) by (metis less_imp_le order_trans)
    qed
    then have till: "b_timestamp b \<le> till" using s(2) by linarith
    show ?thesis
    proof (cases "?gap \<le> b_timestamp b")
      case True
      with b(1) history_symbol [OF h b(1)] s(1) till have "b \<in> set (concat (map snd fresh))" using mem by blast
      with history_symbol [OF h b(1)] b(3) c(4) show ?thesis unfolding set(1) by auto
    next
      case False
      have "wanted start till b" using b(2) till by (simp add: wanted_def)
      moreover have "?gap \<le> gap_start t today start till s" using s(1) by simp
      with False have "b_timestamp b < gap_start t today start till s" by linarith
      ultimately have "((s, bar_date b), b) \<in> set t" using before_gap [OF t g b(1)] by blast
      then show ?thesis unfolding set(1) by simp
    qed
  qed
  then have "no_gap hist (first_full start) ?t" unfolding no_gap_def by blast
  with set(2) show ?thesis unfolding run by simp
qed

subsection \<open>Runs of requests\<close>

record bar_request =
  rq_today :: date
  rq_symbols :: "symbol list"
  rq_start :: datetime
  rq_till :: datetime

text \<open>Every request comes with the feed as it is at that time.\<close>

definition run_request :: "feed \<Rightarrow> bar_request \<Rightarrow> (bar_table, bars) eff" where
  "run_request upstream q = get_bars_batch upstream (rq_today q) (rq_symbols q) (rq_start q) (rq_till q) DAY"

fun run_requests :: "(feed \<times> bar_request) list \<Rightarrow> bar_table \<Rightarrow> (exn + bars) list" where
  "run_requests [] t = []"
| "run_requests ((upstream, q) # qs) t = (case run_request upstream q t of (r, t') \<Rightarrow> r # run_requests qs t')"

definition answered :: "(symbol \<Rightarrow> bar list) \<Rightarrow> feed \<times> bar_request \<Rightarrow> exn + bars \<Rightarrow> bool" where
  "answered hist p res \<longleftrightarrow> (case p of (upstream, q) \<Rightarrow> \<exists>r. res = Inr r \<and> (\<forall>s\<in>set (rq_symbols q).
     owed hist (answers_from hist upstream) s (rq_start q) (rq_till q) (dict_get_or r s [])))"

definition no_earlier :: "feed \<times> bar_request \<Rightarrow> feed \<times> bar_request \<Rightarrow> bool" where
  "no_earlier p q \<longleftrightarrow> rq_today (snd p) \<le> rq_today (snd q) \<and> rq_start (snd p) \<le> rq_start (snd q)"

lemma table_ok_later: "table_ok hist d t \<Longrightarrow> d \<le> e \<Longrightarrow> table_ok hist e t"
  by (fastforce simp: table_ok_def)

lemma no_gap_later: "no_gap hist a t \<Longrightarrow> a \<le> b \<Longrightarrow> no_gap hist b t"
  unfolding no_gap_def by (blast intro: order_trans)

lemma run_requests_answered:
  assumes "history_ok hist"
    and "\<forall>(up, q)\<in>set qs. answers_or_fails hist up \<and> rq_symbols q \<noteq> [] \<and> today \<le> rq_today q \<and> start \<le> rq_start q"
    and "sorted_wrt no_earlier qs" and "table_ok hist today t" "no_gap hist (first_full start) t"
  shows "list_all2 (answered hist) qs (run_requests qs t)"
  using assms(2-)
proof (induction qs arbitrary: today start t)
  case (Cons p qs)
  obtain up q where p: "p = (up, q)" by fastforce
  have q: "answers_or_fails hist up" "rq_symbols q \<noteq> []" "today \<le> rq_today q" "start \<le> rq_start q"
    using Cons.prems(1) by (auto simp: p)
  have t: "table_ok hist (rq_today q) t" "no_gap hist (first_full (rq_start q)) t"
    using table_ok_later [OF Cons.prems(3) q(3)] no_gap_later [OF Cons.prems(4) first_full_mono [OF q(4)]] .
  obtain r u where run: "run_request up q t = (r, u)" by fastforce
  then have "answered hist p r"
    using batch_answer [OF assms(1) q(1) t q(2), of "rq_till q"] by (simp add: answered_def run_request_def p)
  moreover have "table_ok hist (rq_today q) u \<and> no_gap hist (first_full (rq_start q)) u"
    using batch_table [OF assms(1) q(1) t q(2), of "rq_till q"] run by (simp add: run_request_def)
  moreover have "\<forall>(up', q')\<in>set qs. answers_or_fails hist up' \<and> rq_symbols q' \<noteq> [] \<and> rq_today q \<le> rq_today q' \<and> rq_start q \<le> rq_start q'"
    using Cons.prems(1,2) by (fastforce simp: p no_earlier_def)
  ultimately show ?case using Cons.IH [of "rq_today q" "rq_start q" u] Cons.prems(2) by (simp add: p run)
qed simp

text \<open>
  C15 The cache is transparent. From an empty table, let every request begin no earlier and be made no
  earlier than those before it, at any times of day, however they overlap and end, and let the feed fail at some of
  them. Each is answered with bars of the feed's history of the requested days, in order; and where the feed
  does not fail, with all bars of the history that are stamped by the end of the interval and belong to a day that the
  interval holds from its midnight on. (Of the day in which the interval begins the bar may be missing.)
\<close>

theorem cached_answers_are_exact:
  assumes "history_ok hist" and "\<forall>(up, q)\<in>set qs. answers_or_fails hist up \<and> rq_symbols q \<noteq> []"
    and "sorted_wrt no_earlier qs"
  shows "list_all2 (answered hist) qs (run_requests qs [])"
proof (cases qs)
  case (Cons p qs')
  with assms(2,3) have "\<forall>(up, q)\<in>set qs. answers_or_fails hist up \<and> rq_symbols q \<noteq> []
      \<and> rq_today (snd p) \<le> rq_today q \<and> rq_start (snd p) \<le> rq_start q"
    by (fastforce simp: no_earlier_def)
  from run_requests_answered [OF assms(1) this assms(3)] show ?thesis by (simp add: table_ok_def no_gap_def)
qed simp

text \<open>
  A request that reaches further back than the table is answered without the older days: if the table
  has bars of the symbol, none before a day \<open>d\<close>, then no answer has a bar before \<open>d\<close>, whatever the
  feed has, because only what follows the last cached day is asked for.
\<close>

lemma older_days_are_never_fetched:
  assumes "((s, m), c) \<in> set t" "\<forall>((s', e), b)\<in>set t. s' = s \<longrightarrow> d \<le> e \<and> bar_date b = e" "d \<le> today"
    and "\<forall>syms a z r. upstream syms a z DAY = Inr r \<longrightarrow> (\<forall>b\<in>set (dict_get_or r s []). a \<le> b_timestamp b)"
    and "fst (get_bars upstream today s start till DAY t) = Inr bs" "b \<in> set bs"
  shows "d \<le> bar_date b"
proof -
  obtain l where l: "last_cached t s = Some l" "d \<le> l"
    using assms(1,2) by (cases t s rule: last_cached_cases) fastforce+
  have gap: "midnight d \<le> gap_start t today start till s" using l assms(3) by (simp add: gap_start_def)
  have cached: "d \<le> bar_date b" if "b \<in> set (dict_get_or (read_range [s] start till t) s [])" for b
    using that assms(2) by (fastforce simp: read_range_def dict_get_or_def)
  have fresh: "d \<le> bar_date b" if "upstream [s] (gap_start t today start till s) till DAY = Inr r" "b \<in> set (dict_get_or r s [])" for r b
  proof -
    have "gap_start t today start till s \<le> b_timestamp b" using assms(4) that by blast
    with gap have "midnight d \<le> b_timestamp b" by linarith
    then show ?thesis by (simp add: bar_date_def)
  qed
  have merged: "b \<in> set old \<union> set new" if "b \<in> set (merge_bars start till old new)" for b old new
  proof -
    let ?f = "\<lambda>seen b. dict_set (bar_date b) b seen"
    have "x \<in> set (foldl ?f sn xs) \<Longrightarrow> snd x \<in> set xs \<or> x \<in> set sn" for x sn xs
    proof (induction xs arbitrary: sn)
      case (Cons y xs)
      from Cons.IH [of "dict_set (bar_date y) y sn"] Cons.prems show ?case by (auto dest: set_dict_set)
    qed simp
    from this [of _ "[]" "old @ new"] that show ?thesis unfolding merge_bars_def by fastforce
  qed
  let ?c = "dict_get_or (read_range [s] start till t) s []"
  have "bs = ?c \<or> (\<exists>r. upstream [s] (gap_start t today start till s) till DAY = Inr r \<and>
      bs = merge_bars start till ?c (dict_get_or r s []))"
    using assms(5) by (auto simp: get_bars_def get_bars_batch_def andthen_def ret_def first_occurrences_def dict_get_or_def Let_def
        split: if_splits sum.splits)
  then show ?thesis using assms(6) cached fresh merged by blast
qed

subsection \<open>The bar store reads back\<close>

lemma narrow_bar_key [simp]: "b_symbol (narrow_bar n b) = b_symbol b" "b_timestamp (narrow_bar n b) = b_timestamp b"
  by (simp_all add: narrow_bar_def)

lemma save_bars_upserts:
  "save_bars n bs t = foldl (\<lambda>t b. dict_set (b_symbol b, b_timestamp b) b t) t (map (narrow_bar n) bs)"
  by (induction bs arbitrary: t) (simp_all add: save_bars_def)

text \<open>Saved bars are read back by symbol and time with their prices as the column keeps them.\<close>

lemma stored_bars_read_back:
  assumes "inj_on (\<lambda>b. (b_symbol b, b_timestamp b)) (set bs)" "distinct (map fst t)"
    and "b \<in> set bs" "start \<le> b_timestamp b" "b_timestamp b \<le> till"
  shows "narrow_bar n b \<in> set (load_bars (b_symbol b) start till (save_bars n bs t))"
proof -
  have "inj_on (\<lambda>b. (b_symbol b, b_timestamp b)) (set (map (narrow_bar n) bs))"
    using assms(1) by (auto simp: inj_on_def)
  note keys = upserts_set [OF this assms(2)]
  have "((b_symbol b, b_timestamp b), narrow_bar n b) \<in> (\<lambda>b. ((b_symbol b, b_timestamp b), b)) ` set (map (narrow_bar n) bs)"
    using assms(3) by (intro image_eqI [of _ _ "narrow_bar n b"]) simp_all
  then have "((b_symbol b, b_timestamp b), narrow_bar n b) \<in> set (save_bars n bs t)"
    unfolding save_bars_upserts keys by (rule UnI1)
  with assms(4,5) show ?thesis by (force simp: load_bars_def)
qed

subsection \<open>Examples\<close>

text \<open>A feed with three daily bars.\<close>

definition day_bar :: "date \<Rightarrow> bar" where
  "day_bar d = \<lparr>b_symbol = ''SPY'', b_timestamp = midnight d, b_open = 100, b_high = 100, b_low = 100, b_close = 100,
     b_volume = 1, b_vwap = None\<rparr>"

definition three_days :: "symbol \<Rightarrow> bar list" where
  "three_days s = (if s = ''SPY'' then [day_bar 1, day_bar 2, day_bar 3] else [])"

definition three_days_feed :: feed where
  "three_days_feed = replay_batch [(''SPY'', [day_bar 1, day_bar 2, day_bar 3])]"

lemma day_bar_date [simp]: "bar_date (day_bar d) = d" "b_symbol (day_bar d) = ''SPY''" "b_timestamp (day_bar d) = midnight d"
  by (simp_all add: day_bar_def bar_date_def)

lemma three_days_ok: "history_ok three_days" "answers_from three_days three_days_feed"
proof -
  show h: "history_ok three_days" by (simp add: history_ok_def three_days_def)
  show "answers_from three_days three_days_feed"
    unfolding three_days_feed_def by (rule replay_answers [OF h]) (simp add: three_days_def dict_get_or_def)
qed

definition spy_request :: "date \<Rightarrow> datetime \<Rightarrow> datetime \<Rightarrow> bar_request" where
  "spy_request today a z = \<lparr>rq_today = today, rq_symbols = [''SPY''], rq_start = a, rq_till = z\<rparr>"

text \<open>Three requests from one o'clock on; the feed fails at the second, which is answered from the table.\<close>

theorem cached_answers_are_exact_witness:
  "\<exists>r1 r2 r3. run_requests [(three_days_feed, spy_request 3 (midnight 1 + us_per_hour) (midnight 2)),
       (\<lambda>_ _ _ _. Inl BrokerUnavailable, spy_request 4 (midnight 1 + us_per_hour) (midnight 3)),
       (three_days_feed, spy_request 4 (midnight 1 + us_per_hour) (midnight 3 + us_per_hour))] [] = [Inr r1, Inr r2, Inr r3]
     \<and> set (dict_get_or r2 ''SPY'' []) \<subseteq> {day_bar 1, day_bar 2, day_bar 3}
     \<and> filter (wanted (midnight 1 + us_per_hour) (midnight 3 + us_per_hour)) (dict_get_or r3 ''SPY'' []) = [day_bar 2, day_bar 3]"
proof -
  let ?s = "midnight 1 + us_per_hour"
  let ?qs = "[(three_days_feed, spy_request 3 ?s (midnight 2)), (\<lambda>_ _ _ _. Inl BrokerUnavailable, spy_request 4 ?s (midnight 3)),
       (three_days_feed, spy_request 4 ?s (midnight 3 + us_per_hour))]"
  have "answers_or_fails three_days three_days_feed" "answers_or_fails three_days (\<lambda>_ _ _ _. Inl BrokerUnavailable)"
    using three_days_ok(2) by (simp_all add: answers_from_def answers_or_fails_def)
  then have "list_all2 (answered three_days) ?qs (run_requests ?qs [])"
    by (intro cached_answers_are_exact [OF three_days_ok(1)]) (simp_all add: spy_request_def no_earlier_def)
  then obtain r1 r2 r3 where r: "run_requests ?qs [] = [Inr r1, Inr r2, Inr r3]"
    "owed three_days (answers_from three_days (\<lambda>_ _ _ _. Inl BrokerUnavailable)) ''SPY'' ?s (midnight 3) (dict_get_or r2 ''SPY'' [])"
    "owed three_days True ''SPY'' ?s (midnight 3 + us_per_hour) (dict_get_or r3 ''SPY'' [])"
    using three_days_ok(2) by (auto simp: list_all2_Cons1 answered_def spy_request_def)
  have "first_full ?s = 2" by (simp add: first_full_def midnight_def us_per_day_def us_per_hour_def)
  then have "filter (wanted ?s (midnight 3 + us_per_hour)) (three_days ''SPY'') = [day_bar 2, day_bar 3]"
    by (simp add: three_days_def wanted_def midnight_def us_per_day_def us_per_hour_def)
  moreover have "set (days_of three_days ''SPY'' x y) \<subseteq> {day_bar 1, day_bar 2, day_bar 3}" for x y
    by (auto simp: days_of_def three_days_def)
  ultimately show ?thesis using r by (simp only: owed_def) blast
qed

text \<open>Asked first for the last day only, the cached feed never gets the first two.\<close>

lemma older_days_are_never_fetched_example:
  "\<exists>bs. fst (get_bars three_days_feed 5 ''SPY'' (midnight 1) (midnight 4) DAY
      (snd (get_bars three_days_feed 5 ''SPY'' (midnight 3) (midnight 4) DAY []))) = Inr bs \<and> (\<forall>b\<in>set bs. 3 \<le> bar_date b)"
proof -
  have t: "snd (get_bars three_days_feed 5 ''SPY'' (midnight 3) (midnight 4) DAY []) = [((''SPY'', 3), day_bar 3)]"
    by (simp add: get_bars_def get_bars_batch_def andthen_def ret_def Let_def gap_start_def last_cached_def three_days_feed_def
        replay_batch_def replay_bars_def first_occurrences_def dict_get_or_def cache_write_def)
  have up: "\<forall>syms a z r. three_days_feed syms a z DAY = Inr r \<longrightarrow> (\<forall>b\<in>set (dict_get_or r ''SPY'' []). a \<le> b_timestamp b)"
    by (auto simp: three_days_feed_def replay_batch_def replay_bars_def dict_get_or_def split: if_splits)
  have "\<exists>bs. fst (get_bars three_days_feed 5 ''SPY'' (midnight 1) (midnight 4) DAY [((''SPY'', 3), day_bar 3)]) = Inr bs"
    by (simp add: get_bars_def get_bars_batch_def andthen_def ret_def Let_def three_days_feed_def replay_batch_def)
  then obtain bs where bs: "fst (get_bars three_days_feed 5 ''SPY'' (midnight 1) (midnight 4) DAY [((''SPY'', 3), day_bar 3)]) = Inr bs" ..
  have "3 \<le> bar_date b" if "b \<in> set bs" for b
    by (rule older_days_are_never_fetched [OF _ _ _ up bs that, of 3 "day_bar 3"]) simp_all
  with bs show ?thesis unfolding t by blast
qed

end
