(* ===== verification/Backtest.thy ===== *)
theory Backtest
  imports Bar_Cache "HOL-Library.While_Combinator"
begin

text \<open>
  The back-test harness \<^verbatim>\<open>backtest/engine.py\<close>. Its arithmetic is in floating point: the operations on floats
  are a parameter (\<open>arith\<close>), of which no lemma assumes anything; so is the order in which a set of names is
  iterated. What is proved concerns which bars an equity curve may depend on, and how
  the calendar is cut into folds.
\<close>

subsection \<open>Floats\<close>

record 'f arith =
  fa_of :: "decimal \<Rightarrow> 'f"
  fa_num :: "rat \<Rightarrow> 'f"
  fa_minus_inf :: 'f
  fa_add :: "'f \<Rightarrow> 'f \<Rightarrow> 'f"
  fa_sub :: "'f \<Rightarrow> 'f \<Rightarrow> 'f"
  fa_mul :: "'f \<Rightarrow> 'f \<Rightarrow> 'f"
  fa_div :: "'f \<Rightarrow> 'f \<Rightarrow> 'f"
  fa_pow :: "'f \<Rightarrow> 'f \<Rightarrow> 'f"
  fa_sqrt :: "'f \<Rightarrow> 'f"
  fa_log :: "'f \<Rightarrow> 'f"
  fa_abs :: "'f \<Rightarrow> 'f"
  fa_less :: "'f \<Rightarrow> 'f \<Rightarrow> bool"
  fa_zero :: "'f \<Rightarrow> bool"
  fa_sum :: "'f list \<Rightarrow> 'f"
  fa_names :: "symbol list \<Rightarrow> symbol list"

record 'f backtest_result =
  br_dates :: "date list"
  br_equity :: "'f list"
  br_benchmark :: "'f list"
  br_total_return :: 'f
  br_cagr :: 'f
  br_ann_vol :: 'f
  br_sharpe :: 'f
  br_max_drawdown :: 'f
  br_benchmark_cagr :: 'f
  br_excess_cagr :: 'f
  br_rebalances :: nat

type_synonym weight_fn = "bars \<Rightarrow> (symbol, decimal) dict"
type_synonym 'f closes = "(symbol, (date, 'f) dict) dict"

definition trading_days :: rat where "trading_days = 252"

subsection \<open>Closing prices\<close>

definition closes_of :: "'f arith \<Rightarrow> bar list \<Rightarrow> (date, 'f) dict" where
  "closes_of ar l = foldl (\<lambda>m b. dict_set (bar_date b) (fa_of ar (b_close b)) m) [] (sort_key b_timestamp l)"

definition close_maps :: "'f arith \<Rightarrow> bars \<Rightarrow> 'f closes" where
  "close_maps ar bs = map (\<lambda>(s, l). (s, closes_of ar l)) bs"

definition slice_asof :: "bars \<Rightarrow> date \<Rightarrow> bars" where
  "slice_asof bs d = map (\<lambda>(s, l). (s, filter (\<lambda>b. bar_date b \<le> d) l)) bs"

text \<open>The month of a day number (day 0 is 1970-01-01), in the proleptic Gregorian calendar.\<close>

definition month_of :: "date \<Rightarrow> int" where
  "month_of d =
     (let z = d + 719468; doe = z mod 146097;
          yoe = (doe - doe div 1460 + doe div 36524 - doe div 146096) div 365;
          doy = doe - (365 * yoe + yoe div 4 - yoe div 100);
          mp = (5 * doy + 2) div 153
      in if mp < 10 then mp + 3 else mp - 9)"

subsection \<open>The summary\<close>

definition fa_max :: "'f arith \<Rightarrow> 'f \<Rightarrow> 'f \<Rightarrow> 'f" where
  "fa_max ar x y = (if fa_less ar x y then y else x)"

definition fa_min :: "'f arith \<Rightarrow> 'f \<Rightarrow> 'f \<Rightarrow> 'f" where
  "fa_min ar x y = (if fa_less ar y x then y else x)"

definition turnover_of :: "'f arith \<Rightarrow> (symbol, 'f) dict \<Rightarrow> (symbol, 'f) dict \<Rightarrow> 'f" where
  "turnover_of ar old new = fa_sum ar (map (\<lambda>s. fa_abs ar (fa_sub ar (dict_get_or new s (fa_num ar 0)) (dict_get_or old s (fa_num ar 0))))
     (fa_names ar (remdups (map fst old @ map fst new))))"

definition cagr_of :: "'f arith \<Rightarrow> 'f \<Rightarrow> 'f list \<Rightarrow> 'f" where
  "cagr_of ar years curve =
     (if fa_less ar (fa_num ar 0) (last curve)
      then fa_sub ar (fa_pow ar (last curve) (fa_div ar (fa_num ar 1) years)) (fa_num ar 1) else fa_num ar (- 1))"

definition drawdown_step :: "'f arith \<Rightarrow> 'f \<times> 'f \<Rightarrow> 'f \<Rightarrow> 'f \<times> 'f" where
  "drawdown_step ar st v = (case st of (peak, dd) \<Rightarrow>
     (let p = fa_max ar peak v in
      (p, if fa_less ar (fa_num ar 0) p then fa_min ar dd (fa_sub ar (fa_div ar v p) (fa_num ar 1)) else dd)))"

definition summarize :: "'f arith \<Rightarrow> date list \<Rightarrow> 'f list \<Rightarrow> 'f list \<Rightarrow> 'f list \<Rightarrow> nat \<Rightarrow> 'f backtest_result" where
  "summarize ar cal eq bench rets n =
     (let num = fa_num ar;
          years = fa_max ar (fa_div ar (num (of_int (last cal - hd cal))) (num (36525 / 100))) (num (1 / 10 ^ 9));
          mean = (if rets = [] then num 0 else fa_div ar (fa_sum ar rets) (num (of_nat (length rets))));
          std = (if 1 < length rets
                 then fa_sqrt ar (fa_div ar (fa_sum ar (map (\<lambda>r. fa_pow ar (fa_sub ar r mean) (num 2)) rets)) (num (of_nat (length rets - 1))))
                 else num 0);
          root = fa_sqrt ar (num trading_days);
          sc = cagr_of ar years eq; bc = cagr_of ar years bench
      in \<lparr>br_dates = cal, br_equity = eq, br_benchmark = bench, br_total_return = fa_sub ar (last eq) (num 1), br_cagr = sc,
          br_ann_vol = fa_mul ar std root,
          br_sharpe = (if fa_less ar (num 0) std then fa_mul ar (fa_div ar mean std) root else num 0),
          br_max_drawdown = snd (foldl (drawdown_step ar) (fa_minus_inf ar, num 0) eq),
          br_benchmark_cagr = bc, br_excess_cagr = fa_sub ar sc bc, br_rebalances = n\<rparr>)"

subsection \<open>One run\<close>

record 'f bt_state =
  bt_equity :: 'f
  bt_curve :: "'f list"
  bt_bench :: "'f list"
  bt_returns :: "'f list"
  bt_weights :: "(symbol, 'f) dict"
  bt_rebalances :: nat
  bt_prev :: date

definition weights_at :: "'f arith \<Rightarrow> weight_fn \<Rightarrow> bars \<Rightarrow> date \<Rightarrow> (symbol, 'f) dict" where
  "weights_at ar w bs d = map (\<lambda>(s, x). (s, fa_of ar x)) (w (slice_asof bs d))"

definition close_on :: "'f closes \<Rightarrow> symbol \<Rightarrow> date \<Rightarrow> 'f option" where
  "close_on cl s d = dict_get (dict_get_or cl s []) d"

definition portfolio_return :: "'f arith \<Rightarrow> 'f closes \<Rightarrow> (symbol, 'f) dict \<Rightarrow> date \<Rightarrow> date \<Rightarrow> 'f" where
  "portfolio_return ar cl ws prev day = foldl (\<lambda>r (s, w). case (close_on cl s prev, close_on cl s day) of
       (Some p, Some c) \<Rightarrow> if \<not> fa_zero ar p \<and> \<not> fa_zero ar c \<and> fa_less ar (fa_num ar 0) p
         then fa_add ar r (fa_mul ar w (fa_sub ar (fa_div ar c p) (fa_num ar 1))) else r
     | _ \<Rightarrow> r) (fa_num ar 0) ws"

definition bench_value :: "'f arith \<Rightarrow> 'f closes \<Rightarrow> symbol \<Rightarrow> 'f \<Rightarrow> date \<Rightarrow> 'f" where
  "bench_value ar cl benchmark bench0 day = fa_div ar (case close_on cl benchmark day of Some c \<Rightarrow> c | None \<Rightarrow> bench0) bench0"

definition bt_day ::
  "'f arith \<Rightarrow> weight_fn \<Rightarrow> bars \<Rightarrow> 'f closes \<Rightarrow> symbol \<Rightarrow> 'f \<Rightarrow> 'f \<Rightarrow> 'f bt_state \<Rightarrow> date \<Rightarrow> 'f bt_state" where
  "bt_day ar w bs cl benchmark bench0 rate st day =
     (let r = portfolio_return ar cl (bt_weights st) (bt_prev st) day;
          e1 = fa_mul ar (bt_equity st) (fa_add ar (fa_num ar 1) r);
          new = weights_at ar w bs day;
          turn = turnover_of ar (bt_weights st) new;
          month = (month_of day \<noteq> month_of (bt_prev st));
          e2 = (if month then fa_mul ar e1 (fa_sub ar (fa_num ar 1) (fa_mul ar turn rate)) else e1)
      in \<lparr>bt_equity = e2, bt_curve = bt_curve st @ [e2], bt_bench = bt_bench st @ [bench_value ar cl benchmark bench0 day],
          bt_returns = bt_returns st @ [r], bt_weights = (if month then new else bt_weights st),
          bt_rebalances = (if month then bt_rebalances st + 1 else bt_rebalances st), bt_prev = day\<rparr>)"

definition bt_start :: "'f arith \<Rightarrow> weight_fn \<Rightarrow> bars \<Rightarrow> date \<Rightarrow> 'f bt_state" where
  "bt_start ar w bs d = \<lparr>bt_equity = fa_num ar 1, bt_curve = [fa_num ar 1], bt_bench = [fa_num ar 1], bt_returns = [],
     bt_weights = weights_at ar w bs d, bt_rebalances = 1, bt_prev = d\<rparr>"

definition calendar_of :: "'f closes \<Rightarrow> symbol \<Rightarrow> date list" where
  "calendar_of cl benchmark = sort (map fst (dict_get_or cl benchmark []))"

text \<open>Dividing by a first benchmark close of zero raises on the second day.\<close>

definition run_backtest :: "'f arith \<Rightarrow> weight_fn \<Rightarrow> symbol \<Rightarrow> 'f \<Rightarrow> bars \<Rightarrow> exn + 'f backtest_result" where
  "run_backtest ar w benchmark cost_bps bs =
     (let cl = close_maps ar bs; cal = calendar_of cl benchmark in
      case cal of
        [] \<Rightarrow> Inl ValueError
      | [_] \<Rightarrow> Inl ValueError
      | d0 # days \<Rightarrow>
          (case close_on cl benchmark d0 of
             None \<Rightarrow> Inl KeyError
           | Some bench0 \<Rightarrow>
               if fa_zero ar bench0 then Inl ZeroDivisionError
               else (let st = foldl (bt_day ar w bs cl benchmark bench0 (fa_div ar cost_bps (fa_num ar 10000))) (bt_start ar w bs d0) days
                     in Inr (summarize ar cal (bt_curve st) (bt_bench st) (bt_returns st) (bt_rebalances st)))))"

definition deflated_sharpe :: "'f arith \<Rightarrow> 'f \<Rightarrow> int \<Rightarrow> int \<Rightarrow> 'f" where
  "deflated_sharpe ar sharpe n_trials n_obs =
     (if n_trials \<le> 1 \<or> n_obs < 10 then sharpe
      else fa_sub ar sharpe (fa_div ar (fa_sqrt ar (fa_mul ar (fa_num ar 2) (fa_log ar (fa_num ar (of_int (max n_trials 2))))))
        (fa_sqrt ar (fa_num ar (of_int (max n_obs 1))))))"

subsection \<open>Walking forward\<close>

text \<open>The inner loop that moves a fold's start behind the embargo; \<open>None\<close> would be a loop that does not end.\<close>

definition advance :: "date list \<Rightarrow> date \<Rightarrow> nat \<Rightarrow> nat option" where
  "advance cal bound i = while_option (\<lambda>i. i < length cal \<and> cal ! i < bound) Suc i"

definition slice_between :: "bars \<Rightarrow> date \<Rightarrow> date \<Rightarrow> bars" where
  "slice_between bs a z = map (\<lambda>(s, l). (s, filter (\<lambda>b. a \<le> bar_date b \<and> bar_date b \<le> z) l)) bs"

text \<open>The start and end index of fold \<open>i\<close>; \<open>Some None\<close> when no day is left behind the embargo.\<close>

definition fold_range :: "date list \<Rightarrow> nat \<Rightarrow> int \<Rightarrow> date option \<Rightarrow> nat \<Rightarrow> (nat \<times> nat) option option" where
  "fold_range cal n embargo prev i =
     (let chunk = max 1 (length cal div n); start = i * chunk; stop = (if i = n - 1 then length cal else (i + 1) * chunk) in
      case prev of
        Some p \<Rightarrow>
          if 0 < embargo then (case advance cal (p + embargo) start of
              None \<Rightarrow> None
            | Some j \<Rightarrow> Some (if length cal \<le> j then None else Some (j, max stop (j + 1))))
          else Some (Some (start, stop))
      | None \<Rightarrow> Some (Some (start, stop)))"

fun walk_folds ::
  "(bars \<Rightarrow> exn + 'f backtest_result) \<Rightarrow> bars \<Rightarrow> symbol \<Rightarrow> date list \<Rightarrow> nat \<Rightarrow> int \<Rightarrow> nat list \<Rightarrow> date option
    \<Rightarrow> (exn + 'f backtest_result list) option" where
  "walk_folds run bs benchmark cal n embargo [] prev = Some (Inr [])"
| "walk_folds run bs benchmark cal n embargo (i # is) prev = (case fold_range cal n embargo prev i of
       None \<Rightarrow> None
     | Some None \<Rightarrow> Some (Inr [])
     | Some (Some (start, stop)) \<Rightarrow>
         (let a = cal ! start; z = (if start < stop then cal ! (stop - 1) else a); sliced = slice_between bs a z in
          if dict_get_or sliced benchmark [] = [] then walk_folds run bs benchmark cal n embargo is prev
          else (case run sliced of
              Inl e \<Rightarrow> Some (Inl e)
            | Inr r \<Rightarrow> map_option (\<lambda>res. bindr res (\<lambda>rs. Inr (r # rs))) (walk_folds run bs benchmark cal n embargo is (Some z)))))"

definition run_walk_forward ::
  "'f arith \<Rightarrow> weight_fn \<Rightarrow> nat \<Rightarrow> int \<Rightarrow> symbol \<Rightarrow> 'f \<Rightarrow> bars \<Rightarrow> (exn + 'f backtest_result list) option" where
  "run_walk_forward ar w n embargo benchmark cost_bps bs =
     (let run = run_backtest ar w benchmark cost_bps; whole = bindr (run bs) (\<lambda>r. Inr [r]);
          cal = calendar_of (close_maps ar bs) benchmark
      in if cal = [] then Some (Inl ValueError)
         else if length cal < n * 2 then Some whole
         else if n = 0 then Some (Inl ZeroDivisionError)
         else map_option (\<lambda>res. bindr res (\<lambda>rs. if rs = [] then whole else Inr rs))
                (walk_folds run bs benchmark cal n embargo [0..<n] None))"

subsection \<open>Slices\<close>

lemma closes_filter:
  "closes_of ar (filter (\<lambda>b. P (bar_date b)) l) = filter (\<lambda>(x, _). P x) (closes_of ar l)"
proof -
  have del: "filter (\<lambda>(x, _). P x) (dict_set k v m) = (if P k then dict_set k v (filter (\<lambda>(x, _). P x) m) else filter (\<lambda>(x, _). P x) m)"
    for k and v :: 'a and m by (induction m) auto
  let ?f = "\<lambda>m b. dict_set (bar_date b) (fa_of ar (b_close b)) m"
  have "foldl ?f (filter (\<lambda>(x, _). P x) m) (filter (\<lambda>b. P (bar_date b)) bs) = filter (\<lambda>(x, _). P x) (foldl ?f m bs)" for m bs
  proof (induction bs arbitrary: m)
    case (Cons b bs)
    from Cons.IH [of "?f m b"] show ?case by (simp add: del split: if_splits)
  qed simp
  from this [of "[]"] show ?thesis by (simp add: closes_of_def filter_sort [symmetric])
qed

lemma closes_distinct: "distinct (map fst (closes_of ar l))"
proof -
  have "distinct (map fst m) \<Longrightarrow> distinct (map fst (foldl (\<lambda>m b. dict_set (bar_date b) (fa_of ar (b_close b)) m) m bs))" for m bs
    by (induction bs arbitrary: m) simp_all
  then show ?thesis by (simp add: closes_of_def)
qed

lemma closes_get: "dict_get_or (close_maps ar bs) s [] = closes_of ar (dict_get_or bs s [])"
  by (simp add: close_maps_def map_of_map dict_get_or_def closes_of_def split: option.split)

lemma filtered_get: "dict_get_or (map (\<lambda>(s, l). (s, filter P l)) bs) s [] = filter P (dict_get_or bs s [])"
  by (simp add: map_of_map dict_get_or_def split: option.split)

lemma calendar_filter:
  "calendar_of (close_maps ar (map (\<lambda>(s, l). (s, filter (\<lambda>b. P (bar_date b)) l)) bs)) benchmark
    = filter P (calendar_of (close_maps ar bs) benchmark)"
proof -
  have keys: "map fst (filter (\<lambda>(x, _). P x) m) = filter P (map fst m)" for m :: "(date, 'a) dict"
    by (induction m) auto
  show ?thesis by (simp add: calendar_of_def closes_get filtered_get closes_filter keys filter_sort)
qed

lemma calendar_strict: "sorted_wrt (<) (calendar_of (close_maps ar bs) benchmark)"
  by (simp add: calendar_of_def strict_sorted_iff closes_get closes_distinct)

lemma close_on_slice: "x \<le> d \<Longrightarrow> close_on (close_maps ar (slice_asof bs d)) s x = close_on (close_maps ar bs) s x"
proof -
  assume x: "x \<le> d"
  have "dict_get (filter (\<lambda>(y, _). y \<le> d) m) x = dict_get m x" for m :: "(date, 'a) dict"
    using x by (induction m) auto
  then show ?thesis by (simp add: close_on_def slice_asof_def closes_get filtered_get closes_filter [where P = "\<lambda>x. x \<le> d"])
qed

lemma slice_slice: "x \<le> d \<Longrightarrow> slice_asof (slice_asof bs d) x = slice_asof bs x"
  by (auto simp: slice_asof_def split_beta intro!: filter_cong)

lemma weights_slice: "x \<le> d \<Longrightarrow> weights_at ar w (slice_asof bs d) x = weights_at ar w bs x"
  by (simp add: weights_at_def slice_slice)

subsection \<open>No look-ahead\<close>

lemma day_slice:
  "day \<le> d \<Longrightarrow> bt_prev st \<le> d \<Longrightarrow>
   bt_day ar w (slice_asof bs d) (close_maps ar (slice_asof bs d)) benchmark bench0 rate st day
     = bt_day ar w bs (close_maps ar bs) benchmark bench0 rate st day"
  by (simp add: bt_day_def portfolio_return_def bench_value_def close_on_slice weights_slice)

lemma days_slice:
  "\<forall>day\<in>set days. day \<le> d \<Longrightarrow> bt_prev st \<le> d \<Longrightarrow>
   foldl (bt_day ar w (slice_asof bs d) (close_maps ar (slice_asof bs d)) benchmark bench0 rate) st days
     = foldl (bt_day ar w bs (close_maps ar bs) benchmark bench0 rate) st days"
proof (induction days arbitrary: st)
  case (Cons x days)
  then show ?case by (simp add: day_slice) (simp add: bt_day_def Let_def)
qed simp

lemma curve_grows:
  "\<exists>es vs. bt_curve (foldl (bt_day ar w bs cl b b0 rate) st days) = bt_curve st @ es \<and> length es = length days
     \<and> bt_bench (foldl (bt_day ar w bs cl b b0 rate) st days) = bt_bench st @ vs \<and> length vs = length days"
proof (induction days arbitrary: st)
  case (Cons x days)
  let ?st = "bt_day ar w bs cl b b0 rate st x"
  obtain e v where st: "bt_curve ?st = bt_curve st @ [e]" "bt_bench ?st = bt_bench st @ [v]"
    by (simp add: bt_day_def Let_def)
  obtain es vs where "bt_curve (foldl (bt_day ar w bs cl b b0 rate) ?st days) = bt_curve ?st @ es" "length es = length days"
    "bt_bench (foldl (bt_day ar w bs cl b b0 rate) ?st days) = bt_bench ?st @ vs" "length vs = length days"
    using Cons.IH by blast
  with st show ?case by (intro exI [of _ "e # es"] exI [of _ "v # vs"]) simp
qed simp

lemma take_upto:
  assumes "sorted_wrt (<) (xs :: date list)" "n < length xs"
  shows "filter (\<lambda>x. x \<le> xs ! n) xs = take (Suc n) xs"
proof -
  have le: "x \<le> xs ! n" if "x \<in> set (take (Suc n) xs)" for x
    using that assms by (auto simp: in_set_conv_nth strict_sorted_iff intro!: sorted_nth_mono)
  have gt: "xs ! n < x" if "x \<in> set (drop (Suc n) xs)" for x
    using that sorted_wrt_nth_less [OF assms(1), of n] by (auto simp: in_set_conv_nth)
  have "filter (\<lambda>x. x \<le> xs ! n) (take (Suc n) xs @ drop (Suc n) xs) = take (Suc n) xs"
    using le gt by (fastforce simp: filter_empty_conv filter_id_conv simp del: append_take_drop_id)
  then show ?thesis by simp
qed

text \<open>
  C14 No look-ahead: the curves of a run up to a day are the curves of the run on the bars up to that day,
  whatever the strategy is and whatever the later bars are.
\<close>

theorem no_look_ahead:
  assumes "run_backtest ar w benchmark cost bs = Inr r" "0 < n" "n < length (br_dates r)"
  shows "\<exists>r'. run_backtest ar w benchmark cost (slice_asof bs (br_dates r ! n)) = Inr r'
    \<and> br_dates r' = take (Suc n) (br_dates r) \<and> br_equity r' = take (Suc n) (br_equity r)
    \<and> br_benchmark r' = take (Suc n) (br_benchmark r)"
proof -
  let ?cl = "close_maps ar bs" and ?cal = "calendar_of (close_maps ar bs) benchmark" and ?rate = "fa_div ar cost (fa_num ar 10000)"
  obtain d0 x days b0 where cal: "?cal = d0 # x # days" and b0: "close_on ?cl benchmark d0 = Some b0" "\<not> fa_zero ar b0"
    and r: "r = (let st = foldl (bt_day ar w bs ?cl benchmark b0 ?rate) (bt_start ar w bs d0) (x # days)
      in summarize ar ?cal (bt_curve st) (bt_bench st) (bt_returns st) (bt_rebalances st))"
    using assms(1) by (auto simp: run_backtest_def Let_def split: list.splits option.splits if_splits)
  have dates: "br_dates r = ?cal" by (simp add: r Let_def summarize_def)
  define d where "d = ?cal ! n"
  have n: "n < length ?cal" using assms(3) by (simp add: dates)
  have d0: "d0 \<le> d"
    using calendar_strict [of ar bs benchmark] n assms(2) sorted_wrt_nth_less [of "(<)" ?cal 0 n] by (simp add: d_def cal)
  let ?f = "bt_day ar w bs ?cl benchmark b0 ?rate" and ?s0 = "bt_start ar w bs d0"
  have cal': "calendar_of (close_maps ar (slice_asof bs d)) benchmark = take (Suc n) ?cal"
    unfolding slice_asof_def calendar_filter [where P = "\<lambda>x. x \<le> d"] unfolding d_def by (rule take_upto [OF calendar_strict n])
  obtain m where m: "n = Suc m" using assms(2) by (cases n) auto
  have early: "\<forall>day\<in>set (take n (x # days)). day \<le> d"
  proof
    fix day assume "day \<in> set (take n (x # days))"
    then have "day \<in> set (take (Suc n) ?cal)" by (simp add: cal)
    then show "day \<le> d" unfolding cal' [symmetric] by (simp add: slice_asof_def calendar_filter [where P = "\<lambda>x. x \<le> d"])
  qed
  let ?st = "foldl ?f ?s0 (take n (x # days))"
  obtain es vs where grow: "bt_curve (foldl ?f ?st (drop n (x # days))) = bt_curve ?st @ es"
    "bt_bench (foldl ?f ?st (drop n (x # days))) = bt_bench ?st @ vs"
    using curve_grows [of ar w bs ?cl benchmark b0 ?rate ?st "drop n (x # days)"] by blast
  have whole: "foldl ?f ?s0 (x # days) = foldl ?f ?st (drop n (x # days))"
    by (simp add: foldl_append [symmetric] del: foldl_append foldl.simps)
  have len: "length (bt_curve ?st) = Suc n" "length (bt_bench ?st) = Suc n"
    using curve_grows [of ar w bs ?cl benchmark b0 ?rate ?s0 "take n (x # days)"] n by (auto simp: bt_start_def cal)
  have "weights_at ar w (slice_asof bs d) d0 = weights_at ar w bs d0" using d0 by (rule weights_slice)
  then have start: "bt_start ar w (slice_asof bs d) d0 = ?s0" by (simp add: bt_start_def)
  have "bt_prev ?s0 \<le> d" using d0 by (simp add: bt_start_def)
  note same = days_slice [OF early this, of ar w bs benchmark b0 ?rate]
  have run: "run_backtest ar w benchmark cost (slice_asof bs d)
      = Inr (summarize ar (take (Suc n) ?cal) (bt_curve ?st) (bt_bench ?st) (bt_returns ?st) (bt_rebalances ?st))"
    using b0 close_on_slice [OF d0, of ar bs benchmark] same start
    by (simp add: run_backtest_def cal' cal m Let_def)
  have "br_equity r = bt_curve ?st @ es" "br_benchmark r = bt_bench ?st @ vs"
    unfolding r Let_def summarize_def whole backtest_result.select_convs by (rule grow)+
  with run len dates show ?thesis by (simp add: d_def [symmetric] summarize_def Let_def)
qed

subsection \<open>The loop behind the embargo\<close>

lemma advance_ends:
  "\<exists>j. advance cal bound i = Some j \<and> i \<le> j \<and> (\<forall>k. i \<le> k \<longrightarrow> k < j \<longrightarrow> cal ! k < bound)
     \<and> (j < length cal \<longrightarrow> bound \<le> cal ! j)"
proof -
  let ?b = "\<lambda>i. i < length cal \<and> cal ! i < bound" and ?P = "\<lambda>j. i \<le> j \<and> (\<forall>k. i \<le> k \<longrightarrow> k < j \<longrightarrow> cal ! k < bound)"
  have "\<exists>j. while_option ?b Suc i = Some j"
    by (rule measure_while_option_Some [where f = "\<lambda>j. length cal - j" and P = "\<lambda>_. True"]) auto
  then obtain j where j: "while_option ?b Suc i = Some j" ..
  have "?P j" by (rule while_option_rule [OF _ j, of ?P]) (auto simp: less_Suc_eq)
  moreover have "\<not> ?b j" by (rule while_option_stop [OF j])
  ultimately show ?thesis using j unfolding advance_def by force
qed

lemma fold_range_ends: "fold_range cal n embargo prev i \<noteq> None"
proof (cases prev)
  case (Some p)
  obtain j where "advance cal (p + embargo) (i * max 1 (length cal div n)) = Some j" using advance_ends by blast
  with Some show ?thesis by (simp add: fold_range_def Let_def)
qed (simp add: fold_range_def Let_def)

lemma walk_folds_end: "walk_folds run bs benchmark cal n embargo is prev \<noteq> None"
  by (induction "is" arbitrary: prev) (auto simp: Let_def fold_range_ends split: option.splits sum.splits)

text \<open>
  Walking forward ends: the loop that moves a fold behind the embargo stops for every calendar, start and
  embargo, so the harness returns folds or raises.
\<close>

lemma walk_forward_ends: "\<exists>res. run_walk_forward ar w n embargo benchmark cost bs = Some res"
  using walk_folds_end [of "run_backtest ar w benchmark cost" bs benchmark "calendar_of (close_maps ar bs) benchmark" n embargo "[0..<n]" None]
  by (auto simp: run_walk_forward_def Let_def)

subsection \<open>Folds\<close>

definition fold_cut :: "date list \<Rightarrow> nat \<Rightarrow> bool" where
  "fold_cut cal n \<longleftrightarrow> sorted_wrt (<) cal \<and> n * 2 \<le> length cal \<and> 0 < n"

abbreviation chunk_of :: "date list \<Rightarrow> nat \<Rightarrow> nat" where
  "chunk_of cal n \<equiv> max 1 (length cal div n)"

lemma chunk_fits: "fold_cut cal n \<Longrightarrow> i < n \<Longrightarrow> (i + 1) * chunk_of cal n \<le> length cal"
proof -
  assume cut: "fold_cut cal n" and i: "i < n"
  then have "1 \<le> length cal div n" by (simp add: fold_cut_def less_eq_div_iff_mult_less_eq)
  then have "chunk_of cal n = length cal div n" by simp
  moreover have "(i + 1) * (length cal div n) \<le> n * (length cal div n)" using i by (intro mult_le_mono) simp_all
  moreover have "n * (length cal div n) \<le> length cal" by simp
  ultimately show ?thesis by (metis le_trans)
qed

lemma day_later: "fold_cut cal n \<Longrightarrow> i < j \<Longrightarrow> j < length cal \<Longrightarrow> cal ! i < cal ! j"
  unfolding fold_cut_def by (blast intro: sorted_wrt_nth_less)

text \<open>The end of the last fold, before fold \<open>i\<close>, when there is no embargo.\<close>

definition before_fold :: "date list \<Rightarrow> nat \<Rightarrow> int \<Rightarrow> nat \<Rightarrow> date option \<Rightarrow> bool" where
  "before_fold cal n embargo i prev \<longleftrightarrow>
     (\<forall>p. prev = Some p \<longrightarrow> embargo \<le> 0 \<longrightarrow> i = n \<or> (\<exists>j < i * chunk_of cal n. p = cal ! j))"

lemma range_spec:
  assumes cut: "fold_cut cal n" and i: "i < n" and prev: "before_fold cal n embargo i prev"
    and range: "fold_range cal n embargo prev i = Some (Some (a, z))"
  shows "a < z \<and> z \<le> length cal \<and> (\<forall>p. prev = Some p \<longrightarrow> p + max 1 embargo \<le> cal ! a)
    \<and> before_fold cal n embargo (i + 1) (Some (cal ! (z - 1)))"
proof (cases "prev \<noteq> None \<and> 0 < embargo")
  case True
  then obtain p where p: "prev = Some p" by auto
  obtain j where j: "advance cal (p + embargo) (i * chunk_of cal n) = Some j" "i * chunk_of cal n \<le> j" "j < length cal \<longrightarrow> p + embargo \<le> cal ! j"
    using advance_ends by blast
  have c: "(i + 1) * chunk_of cal n \<le> length cal" using chunk_fits [OF cut i] .
  have az: "a = j" "j < length cal" "z = max (if i = n - 1 then length cal else (i + 1) * chunk_of cal n) (j + 1)"
    using range True p j(1) by (auto simp: fold_range_def Let_def split: if_splits)
  have "z \<le> length cal" using az(2) c unfolding az(3) by auto
  moreover have "a < z" using az by simp
  ultimately show ?thesis using True p az(1,2) j(3) by (auto simp: before_fold_def)
next
  case False
  have c: "(i + 1) * chunk_of cal n \<le> length cal" using chunk_fits [OF cut i] .
  have az: "a = i * chunk_of cal n" "z = (if i = n - 1 then length cal else (i + 1) * chunk_of cal n)"
    using range False by (auto simp: fold_range_def Let_def split: option.splits if_splits)
  have pos: "a < (i + 1) * chunk_of cal n" using az(1) by simp
  have "p + max 1 embargo \<le> cal ! a" if p: "prev = Some p" for p
  proof -
    have e: "embargo \<le> 0" using False p by auto
    then obtain j where j: "j < a" "p = cal ! j" using prev i p unfolding before_fold_def az(1) by blast
    with day_later [OF cut j(1)] pos c e show ?thesis by simp
  qed
  moreover have "before_fold cal n embargo (i + 1) (Some (cal ! (z - 1)))"
  proof (cases "i = n - 1")
    case True
    then show ?thesis using i by (simp add: before_fold_def)
  next
    case False
    then have "z = (i + 1) * chunk_of cal n" "0 < z" using az(2) pos by auto
    then have "z - 1 < (i + 1) * chunk_of cal n" by (metis diff_less zero_less_one)
    then show ?thesis unfolding before_fold_def by blast
  qed
  ultimately show ?thesis using az(2) c pos by auto
qed

lemma before_fold_mono: "before_fold cal n embargo i prev \<Longrightarrow> i < n \<Longrightarrow> before_fold cal n embargo (Suc i) prev"
  unfolding before_fold_def by (metis less_Suc_eq_le less_imp_not_eq mult_Suc order_less_le_trans le_add2)

lemma run_dates:
  assumes "run_backtest ar w benchmark cost (slice_between bs a z) = Inr r"
  shows "br_dates r \<noteq> [] \<and> set (br_dates r) \<subseteq> set (calendar_of (close_maps ar bs) benchmark) \<inter> {a..z}"
proof -
  have "br_dates r = calendar_of (close_maps ar (slice_between bs a z)) benchmark"
    using assms by (auto simp: run_backtest_def Let_def summarize_def split: list.splits option.splits if_splits)
  moreover have "br_dates r \<noteq> []"
    using assms by (auto simp: run_backtest_def Let_def summarize_def split: list.splits option.splits if_splits)
  ultimately show ?thesis
    using calendar_filter [where P = "\<lambda>x. a \<le> x \<and> x \<le> z", of ar bs benchmark] by (auto simp: slice_between_def)
qed

lemma walk_folds_separated:
  fixes cal :: "date list"
  assumes cut: "fold_cut cal n" and cal: "cal = calendar_of (close_maps ar bs) benchmark"
    and "walk_folds (run_backtest ar w benchmark cost) bs benchmark cal n embargo [k..<n] prev = Some (Inr rs)"
    and "before_fold cal n embargo k prev" "k \<le> n"
  shows "sorted_wrt (\<lambda>r r'. last (br_dates r) + max 1 embargo \<le> hd (br_dates r')) rs
    \<and> (\<forall>r\<in>set rs. br_dates r \<noteq> [] \<and> set (br_dates r) \<subseteq> set cal \<and> (\<forall>p. prev = Some p \<longrightarrow> p + max 1 embargo \<le> hd (br_dates r)))"
  using assms(3-5)
proof (induction "n - k" arbitrary: k prev rs)
  case 0
  then show ?case by simp
next
  case (Suc m)
  note c = range_spec [OF cut, where embargo = embargo]
  have k: "k < n" "[k..<n] = k # [Suc k..<n]" using Suc(2) by (simp_all add: upt_rec)
  have keep: "before_fold cal n embargo (Suc k) prev"
    using Suc(4) k(1) by (rule before_fold_mono)
  show ?case
  proof (cases "fold_range cal n embargo prev k")
    case None
    then show ?thesis using fold_range_ends by blast
  next
    case (Some az)
    show ?thesis
    proof (cases az)
      case None
      then show ?thesis using Suc(3) Some by (simp add: k(2))
    next
      case (Some p)
      obtain a z where p: "p = (a, z)" by fastforce
      have range: "a < z" "z \<le> length cal" "\<And>p. prev = Some p \<Longrightarrow> p + max 1 embargo \<le> cal ! a"
        "before_fold cal n embargo (Suc k) (Some (cal ! (z - 1)))"
        using c [OF k(1) Suc(4), of a z] \<open>fold_range cal n embargo prev k = Some az\<close> Some p by auto
      let ?sl = "slice_between bs (cal ! a) (cal ! (z - 1))"
      have az: "cal ! a \<le> cal ! (z - 1)"
        using day_later [OF cut, of a "z - 1"] range(1,2) by (cases "a = z - 1") (auto intro: less_imp_le)
      show ?thesis
      proof (cases "dict_get_or ?sl benchmark [] = []")
        case True
        then have "walk_folds (run_backtest ar w benchmark cost) bs benchmark cal n embargo [Suc k..<n] prev = Some (Inr rs)"
          using Suc(3) \<open>fold_range cal n embargo prev k = Some az\<close> Some p range(1) by (simp add: k(2) Let_def)
        then show ?thesis using Suc(1) [OF _ _ keep] Suc(2) k(1) by simp
      next
        case False
        then obtain r rest where run: "run_backtest ar w benchmark cost ?sl = Inr r" "rs = r # rest"
          "walk_folds (run_backtest ar w benchmark cost) bs benchmark cal n embargo [Suc k..<n] (Some (cal ! (z - 1))) = Some (Inr rest)"
          using Suc(3) \<open>fold_range cal n embargo prev k = Some az\<close> Some p range(1)
          by (auto simp: k(2) Let_def bindr_Inr_iff split: sum.splits)
        have d: "br_dates r \<noteq> []" "set (br_dates r) \<subseteq> set cal \<inter> {cal ! a..cal ! (z - 1)}"
          using run_dates [OF run(1)] cal by auto
        then have ends: "cal ! a \<le> hd (br_dates r)" "last (br_dates r) \<le> cal ! (z - 1)"
          using subsetD [OF d(2) hd_in_set [OF d(1)]] subsetD [OF d(2) last_in_set [OF d(1)]] by simp_all
        have ih: "sorted_wrt (\<lambda>r r'. last (br_dates r) + max 1 embargo \<le> hd (br_dates r')) rest"
          "\<forall>q\<in>set rest. br_dates q \<noteq> [] \<and> set (br_dates q) \<subseteq> set cal \<and> cal ! (z - 1) + max 1 embargo \<le> hd (br_dates q)"
          using Suc(1) [OF _ run(3) range(4)] Suc(2) k(1) by auto
        have "p' + max 1 embargo \<le> hd (br_dates q)" if "q \<in> set rs" "prev = Some p'" for p' q
          using that range(3) [OF that(2)] ih(2) ends az run(2) by fastforce
        with ih ends d run(2) show ?thesis by fastforce
      qed
    qed
  qed
qed

text \<open>
  The folds are disjoint and in order: each begins at least the embargo, and in any case a day, after the last
  day of every earlier one, and all days are days of the benchmark.
\<close>

lemma folds_are_separated:
  assumes "run_walk_forward ar w n embargo benchmark cost bs = Some (Inr rs)"
  shows "sorted_wrt (\<lambda>r r'. last (br_dates r) + max 1 embargo \<le> hd (br_dates r')) rs
    \<and> (\<forall>r\<in>set rs. set (br_dates r) \<subseteq> set (calendar_of (close_maps ar bs) benchmark))"
proof -
  let ?cal = "calendar_of (close_maps ar bs) benchmark"
  have whole: "set (br_dates r) \<subseteq> set ?cal" if "run_backtest ar w benchmark cost bs = Inr r" for r
    using that by (auto simp: run_backtest_def Let_def summarize_def split: list.splits option.splits if_splits)
  from assms consider (one) r where "rs = [r]" "run_backtest ar w benchmark cost bs = Inr r"
    | (cut) "n * 2 \<le> length ?cal" "0 < n"
        "walk_folds (run_backtest ar w benchmark cost) bs benchmark ?cal n embargo [0..<n] None = Some (Inr rs)"
    by (auto simp: run_walk_forward_def Let_def bindr_Inr_iff split: if_splits)
  then show ?thesis
  proof cases
    case one
    then show ?thesis using whole by simp
  next
    case cut
    have c: "fold_cut ?cal n" using cut(1,2) calendar_strict by (simp add: fold_cut_def)
    have "before_fold ?cal n embargo 0 None" by (simp add: before_fold_def)
    from walk_folds_separated [OF c refl cut(3) this] show ?thesis by blast
  qed
qed

text \<open>
  When the embargo reaches behind the end of the second of three or more folds, that fold shrinks to
  one day, a run on it raises, and the harness returns nothing at all.
\<close>

lemma long_embargo_fails:
  assumes "cal = calendar_of (close_maps ar bs) benchmark" "3 \<le> n" "n * 2 \<le> length cal" "0 < embargo"
    and "cal ! (2 * (length cal div n) - 1) < cal ! (length cal div n - 1) + embargo"
    and "cal ! (length cal div n - 1) + embargo \<le> last cal"
  shows "\<exists>e. run_walk_forward ar w n embargo benchmark cost bs = Some (Inl e)"
proof -
  let ?run = "run_backtest ar w benchmark cost" and ?c = "length cal div n"
  have cut: "fold_cut cal n" using assms(2,3) calendar_strict [of ar bs benchmark] by (simp add: fold_cut_def assms(1))
  have c: "1 \<le> ?c" "chunk_of cal n = ?c" using assms(2,3) by (simp_all add: less_eq_div_iff_mult_less_eq max_def)
  have fits: "2 * ?c \<le> length cal" using chunk_fits [OF cut, of 1] assms(2) c by simp
  let ?p = "cal ! (?c - 1)"
  obtain j where j: "advance cal (?p + embargo) ?c = Some j" "?c \<le> j" "\<forall>k. ?c \<le> k \<longrightarrow> k < j \<longrightarrow> cal ! k < ?p + embargo"
    "j < length cal \<longrightarrow> ?p + embargo \<le> cal ! j" using advance_ends by blast
  have ne: "cal \<noteq> []" using fits c by auto
  have "j < length cal"
  proof (rule ccontr)
    assume "\<not> j < length cal"
    then have "cal ! (length cal - 1) < ?p + embargo" using j(3) fits c ne by (auto simp: le_diff_conv2)
    then show False using assms(6) last_conv_nth [OF ne] by simp
  qed
  moreover have "2 * ?c \<le> j"
  proof (rule ccontr)
    assume "\<not> 2 * ?c \<le> j"
    then have "cal ! j \<le> cal ! (2 * ?c - 1)"
      using day_later [OF cut, of j "2 * ?c - 1"] fits c(1) by (cases "j = 2 * ?c - 1") (auto intro: less_imp_le)
    then show False using assms(5) j(4) \<open>j < length cal\<close> by linarith
  qed
  ultimately have range: "fold_range cal n embargo (Some ?p) 1 = Some (Some (j, j + 1))"
    using assms(2,4) j(1) c(1) by (auto simp: fold_range_def Let_def max_def)
  let ?s0 = "slice_between bs (cal ! 0) ?p" and ?s1 = "slice_between bs (cal ! j) (cal ! j)"
  have slice: "calendar_of (close_maps ar (slice_between bs a z)) benchmark = filter (\<lambda>x. a \<le> x \<and> x \<le> z) cal" for a z
    using calendar_filter [where P = "\<lambda>x. a \<le> x \<and> x \<le> z", of ar bs benchmark] by (simp add: slice_between_def assms(1))
  have bars: "dict_get_or (slice_between bs a z) benchmark [] \<noteq> []" if "x \<in> set cal" "a \<le> x" "x \<le> z" for a z x
  proof
    assume "dict_get_or (slice_between bs a z) benchmark [] = []"
    then have "calendar_of (close_maps ar (slice_between bs a z)) benchmark = []"
      by (simp add: calendar_of_def closes_get closes_of_def)
    then show False using that by (auto simp: slice filter_empty_conv)
  qed
  have "cal ! 0 \<le> ?p" using day_later [OF cut, of 0 "?c - 1"] fits c(1) by (cases "?c = 1") (auto intro: less_imp_le)
  then have b0: "dict_get_or ?s0 benchmark [] \<noteq> []" using bars [of "cal ! 0"] ne by simp
  have b1: "dict_get_or ?s1 benchmark [] \<noteq> []" using bars [of "cal ! j"] \<open>j < length cal\<close> by simp
  have "filter (\<lambda>x. cal ! j \<le> x \<and> x \<le> cal ! j) cal = [cal ! j]"
  proof -
    have "filter (\<lambda>x. x = cal ! j) cal = [cal ! j]"
      using cut \<open>j < length cal\<close> by (intro filter_the_one) (auto simp: fold_cut_def strict_sorted_iff)
    moreover have "(\<lambda>x. cal ! j \<le> x \<and> x \<le> cal ! j) = (\<lambda>x. x = cal ! j)" by auto
    ultimately show ?thesis by (simp only:)
  qed
  then have "?run ?s1 = Inl ValueError" by (simp add: run_backtest_def slice)
  then have second: "walk_folds ?run bs benchmark cal n embargo (1 # is) (Some ?p) = Some (Inl ValueError)" for "is"
    using b1 range by (simp add: Let_def)
  have first: "fold_range cal n embargo None 0 = Some (Some (0, ?c))" using assms(2) c(1) by (auto simp: fold_range_def Let_def)
  obtain "is" where upt: "[0..<n] = 0 # 1 # is" using assms(2) by (simp add: upt_rec)
  have "walk_folds ?run bs benchmark cal n embargo (0 # 1 # is) None = (case ?run ?s0 of
        Inl e \<Rightarrow> Some (Inl e)
      | Inr r \<Rightarrow> map_option (\<lambda>res. bindr res (\<lambda>rs. Inr (r # rs))) (walk_folds ?run bs benchmark cal n embargo (1 # is) (Some ?p)))"
    unfolding walk_folds.simps(2) [of ?run bs benchmark cal n embargo 0 "1 # is" None] first
    using b0 c(1) by (simp add: Let_def del: walk_folds.simps)
  then have "\<exists>e. walk_folds ?run bs benchmark cal n embargo [0..<n] None = Some (Inl e)"
    unfolding upt second by (cases "?run ?s0") (simp_all del: walk_folds.simps)
  then show ?thesis using assms(2,3) ne unfolding run_walk_forward_def Let_def assms(1) by auto
qed

subsection \<open>Examples\<close>

text \<open>Rationals in place of floats; powers, roots and logarithms do not matter in the examples.\<close>

definition rat_arith :: "rat arith" where
  "rat_arith = \<lparr>fa_of = (\<lambda>x. x), fa_num = (\<lambda>x. x), fa_minus_inf = - 1000, fa_add = (+), fa_sub = (-), fa_mul = (*), fa_div = (/),
     fa_pow = (\<lambda>x _. x), fa_sqrt = (\<lambda>x. x), fa_log = (\<lambda>x. x), fa_abs = abs, fa_less = (<), fa_zero = (\<lambda>x. x = 0),
     fa_sum = sum_list, fa_names = (\<lambda>l. l)\<rparr>"

definition spy_days :: "date list \<Rightarrow> bars" where
  "spy_days ds = [(''SPY'', map day_bar ds)]"

definition all_spy :: weight_fn where
  "all_spy bs = [(''SPY'', 1)]"

lemma sorted_day_bars: "sorted_wrt (<) ds \<Longrightarrow> sort_key b_timestamp (map day_bar ds) = map day_bar ds"
  by (rule sort_key_id_if_sorted) (auto simp: sorted_wrt_map comp_def intro: sorted_wrt_mono_rel [rotated])

lemma spy_closes: "sorted_wrt (<) ds \<Longrightarrow> dict_get_or (close_maps rat_arith (spy_days ds)) ''SPY'' [] = map (\<lambda>d. (d, 100)) ds"
proof -
  assume "sorted_wrt (<) ds"
  moreover from this have "distinct ds" by (simp add: strict_sorted_iff)
  then have "foldl (\<lambda>m d. dict_set d (100::rat) m) m ds = m @ map (\<lambda>d. (d, 100)) ds" if "\<forall>d\<in>set ds. d \<notin> fst ` set m" for m
    using that \<open>distinct ds\<close>
  proof (induction ds arbitrary: m)
    case (Cons d ds)
    from Cons.IH [of "m @ [(d, 100)]"] Cons.prems show ?case by (auto simp: dict_set_fresh)
  qed simp
  from this [of "[]"] have "foldl (\<lambda>m d. dict_set d (100::rat) m) [] ds = map (\<lambda>d. (d, 100)) ds" by simp
  moreover have "foldl (\<lambda>m b. dict_set (bar_date b) (b_close b) m) m (map day_bar ds) = foldl (\<lambda>m d. dict_set d 100 m) m ds" for m
    by (induction ds arbitrary: m) (simp_all add: day_bar_def bar_date_def)
  ultimately show ?thesis
    unfolding closes_get by (simp add: spy_days_def dict_get_or_def closes_of_def sorted_day_bars rat_arith_def)
qed

lemma spy_calendar: "sorted_wrt (<) ds \<Longrightarrow> calendar_of (close_maps rat_arith (spy_days ds)) ''SPY'' = ds"
  by (simp add: calendar_of_def spy_closes strict_sorted_iff sort_key_id_if_sorted comp_def)

lemma spy_run:
  assumes "sorted_wrt (<) ds" "2 \<le> length ds"
  shows "\<exists>r. run_backtest rat_arith all_spy ''SPY'' 5 (spy_days ds) = Inr r \<and> br_dates r = ds"
proof -
  obtain d e es where ds: "ds = d # e # es" using assms(2) by (cases ds; cases "tl ds") auto
  have "close_on (close_maps rat_arith (spy_days ds)) ''SPY'' d = Some 100"
    unfolding close_on_def spy_closes [OF assms(1)] by (simp add: ds)
  moreover have "\<not> fa_zero rat_arith 100" by (simp add: rat_arith_def)
  ultimately show ?thesis
    using spy_calendar [OF assms(1)] unfolding ds by (simp add: run_backtest_def Let_def summarize_def)
qed

theorem no_look_ahead_witness:
  "\<exists>r'. run_backtest rat_arith all_spy ''SPY'' 5 (slice_asof (spy_days [1, 2, 3]) 2) = Inr r' \<and> br_dates r' = [1, 2]"
proof -
  obtain r where r: "run_backtest rat_arith all_spy ''SPY'' 5 (spy_days [1, 2, 3]) = Inr r" "br_dates r = [1, 2, 3]"
    using spy_run [of "[1, 2, 3]"] by auto
  from no_look_ahead [OF r(1), of 1] r(2) show ?thesis by (auto simp: numeral_2_eq_2)
qed

lemma folds_are_separated_example:
  "\<exists>rs. run_walk_forward rat_arith all_spy 2 0 ''SPY'' 5 (spy_days [1, 2, 3, 4]) = Some (Inr rs)
     \<and> map br_dates rs = [[1, 2], [3, 4]] \<and> sorted_wrt (\<lambda>r r'. last (br_dates r) + 1 \<le> hd (br_dates r')) rs"
proof -
  have slices: "slice_between (spy_days [1, 2, 3, 4]) 1 2 = spy_days [1, 2]" "slice_between (spy_days [1, 2, 3, 4]) 3 4 = spy_days [3, 4]"
    by (simp_all add: slice_between_def spy_days_def)
  obtain r1 r2 where r: "run_backtest rat_arith all_spy ''SPY'' 5 (spy_days [1, 2]) = Inr r1" "br_dates r1 = [1, 2]"
    "run_backtest rat_arith all_spy ''SPY'' 5 (spy_days [3, 4]) = Inr r2" "br_dates r2 = [3, 4]"
    using spy_run [of "[1, 2]"] spy_run [of "[3, 4]"] by auto
  have cal: "calendar_of (close_maps rat_arith (spy_days [1, 2, 3, 4])) ''SPY'' = [1, 2, 3, 4]"
    by (rule spy_calendar) simp
  have "run_walk_forward rat_arith all_spy 2 0 ''SPY'' 5 (spy_days [1, 2, 3, 4]) = Some (Inr [r1, r2])"
    by (simp add: run_walk_forward_def cal Let_def upt_rec fold_range_def slices r)
       (simp add: spy_days_def dict_get_or_def)
  moreover from folds_are_separated [OF this] have "sorted_wrt (\<lambda>r r'. last (br_dates r) + 1 \<le> hd (br_dates r')) [r1, r2]" by simp
  ultimately show ?thesis using r(2,4) by auto
qed

lemma long_embargo_fails_example:
  "\<exists>e. run_walk_forward rat_arith all_spy 3 3 ''SPY'' 5 (spy_days [1, 2, 3, 4, 5, 6]) = Some (Inl e)"
  by (rule long_embargo_fails [of "[1, 2, 3, 4, 5, 6]"]) (simp_all add: spy_calendar)

end
