(* ===== verification/Robinhood.thy ===== *)
theory Robinhood
  imports Agents Reconciler Sizing
begin

text \<open>
  The adapter for Robinhood's trading endpoint, \<^verbatim>\<open>execution/robinhood_broker.py\<close>: the reading
  of a tool's answer, the classification of its failures, and the operations of the broker
  interface with the dry run. The endpoint is a parameter: a client with a state of its own,
  called with a tool's name and its arguments. \<open>rh_env\<close> holds what the code takes from the
  libraries: \<^verbatim>\<open>str\<close> of a decimal and of a nested JSON value, \<^verbatim>\<open>datetime.fromisoformat\<close>,
  \<^verbatim>\<open>uuid.UUID\<close>, the price lookup of yfinance. \<^verbatim>\<open>uuid4\<close> draws from a counter. An operation that
  takes the lock twice is split there, so that calls of other threads can come between. The numbers in
  the answers and prices are taken to be finite.
\<close>

subsection \<open>Reading answers\<close>

definition item :: "(string, jval) dict \<Rightarrow> string \<Rightarrow> jval" where
  "item d k = dict_get_or d k VNull"

definition either :: "jval \<Rightarrow> jval \<Rightarrow> jval" where
  "either v w = (if truthy v then v else w)"

definition rh_decimal :: "jval \<Rightarrow> decimal" where
  "rh_decimal v = (case py_decimal v of Inl _ \<Rightarrow> 0 | Inr d \<Rightarrow> d)"

fun rh_data :: "jval \<Rightarrow> (string, jval) dict" where
  "rh_data (VObject d) = (case item d ''data'' of VObject inner \<Rightarrow> inner | _ \<Rightarrow> d)"
| "rh_data _ = []"

definition rh_data_list :: "jval \<Rightarrow> string \<Rightarrow> jval list" where
  "rh_data_list resp k = (case item (rh_data resp) k of VList vs \<Rightarrow> vs | _ \<Rightarrow> [])"

text \<open>The result of a tool: structured content, else the first text block.\<close>

record tool_result =
  tr_structured :: jval
  tr_content :: "string option list"
  tr_is_error :: bool

fun first_text :: "string option list \<Rightarrow> string option" where
  "first_text [] = None"
| "first_text (None # bs) = first_text bs"
| "first_text (Some t # bs) = Some t"

definition extract_tool_dict :: "(string \<Rightarrow> jval option) \<Rightarrow> tool_result \<Rightarrow> (string, jval) dict" where
  "extract_tool_dict decode r = (case tr_structured r of
       VObject d \<Rightarrow> d
     | _ \<Rightarrow> (case first_text (tr_content r) of
         None \<Rightarrow> []
       | Some t \<Rightarrow> (case decode t of Some (VObject d) \<Rightarrow> d | _ \<Rightarrow> [(''text'', VText t)])))"

fun is_broker_error :: "exn \<Rightarrow> bool" where
  "is_broker_error BrokerError = True"
| "is_broker_error (BrokerRejection _) = True"
| "is_broker_error BrokerUnavailable = True"
| "is_broker_error _ = False"

definition as_broker_error :: "exn \<Rightarrow> exn" where
  "as_broker_error e = (if is_broker_error e then e else BrokerUnavailable)"

text \<open>What becomes of the session with the endpoint: an answer, an exception, or no end in time.\<close>

datatype session_end = Answered tool_result | Failed exn | Timed_out

definition sdk_call_tool :: "(jval \<Rightarrow> string) \<Rightarrow> (string \<Rightarrow> jval option) \<Rightarrow> session_end \<Rightarrow> exn + jval" where
  "sdk_call_tool repr decode out = (case out of
       Timed_out \<Rightarrow> Inl BrokerUnavailable
     | Failed e \<Rightarrow> Inl (as_broker_error e)
     | Answered r \<Rightarrow>
         if tr_is_error r then Inl (BrokerRejection (''Robinhood MCP tool error: '' @ repr (VObject (extract_tool_dict decode r))))
         else Inr (VObject (extract_tool_dict decode r)))"

subsection \<open>The adapter\<close>

type_synonym 'm mcp_client = "string \<Rightarrow> (string, jval) dict \<Rightarrow> 'm \<Rightarrow> (exn + jval) \<times> 'm"

record rh_env =
  re_text :: "decimal \<Rightarrow> string"
  re_repr :: "jval \<Rightarrow> string"
  re_iso :: "string \<Rightarrow> datetime option"
  re_uuid :: "string \<Rightarrow> uuid option"
  re_info :: "symbol \<Rightarrow> exn + (string, jval) dict"

record 'm robinhood =
  rh_live :: bool
  rh_server :: "'m option"
  rh_submitted :: "(string, string) dict"
  rh_dry_orders :: "(string, order) dict"
  rh_dry_fills :: "(string, decimal option) dict"
  rh_fresh :: uuid

definition agentic_account :: string where "agentic_account = ''981398050''"
definition inflight :: string where "inflight = ''__INFLIGHT__''"
definition dry_prefix :: string where "dry_prefix = ''DRYRUN-''"

definition new_robinhood :: "'m option \<Rightarrow> bool \<Rightarrow> uuid \<Rightarrow> 'm robinhood" where
  "new_robinhood server live n = \<lparr>rh_live = live, rh_server = server, rh_submitted = [], rh_dry_orders = [],
     rh_dry_fills = [], rh_fresh = n\<rparr>"

definition armed :: "'m robinhood \<Rightarrow> bool" where
  "armed b \<longleftrightarrow> rh_live b \<and> rh_server b \<noteq> None"

definition is_dry_id :: "string \<Rightarrow> bool" where
  "is_dry_id bid \<longleftrightarrow> take (length dry_prefix) bid = dry_prefix"

definition rh_draw :: "('m robinhood, uuid) eff" where
  "rh_draw b = (Inr (rh_fresh b), b\<lparr>rh_fresh := Suc (rh_fresh b)\<rparr>)"

definition call_tool :: "'m mcp_client \<Rightarrow> string \<Rightarrow> (string, jval) dict \<Rightarrow> ('m robinhood, jval) eff" where
  "call_tool cl tool args b = (case rh_server b of
       None \<Rightarrow> (Inl AttributeError, b)
     | Some m \<Rightarrow> (case cl tool args m of (r, m') \<Rightarrow> (r, b\<lparr>rh_server := Some m'\<rparr>)))"

text \<open>The arguments every call has, and a read that turns every failure into \<open>BrokerUnavailable\<close>.\<close>

definition account_args :: "(string, jval) dict" where
  "account_args = [(''account_number'', VText agentic_account)]"

definition read_tool :: "'m mcp_client \<Rightarrow> string \<Rightarrow> (string, jval) dict \<Rightarrow> ('m robinhood, jval) eff" where
  "read_tool cl tool args b = (case call_tool cl tool args b of
       (Inl _, b') \<Rightarrow> (Inl BrokerUnavailable, b')
     | (Inr r, b') \<Rightarrow> (Inr r, b'))"

subsection \<open>Submission\<close>

definition build_order_args :: "(decimal \<Rightarrow> string) \<Rightarrow> order \<Rightarrow> (string, jval) dict" where
  "build_order_args text ord =
     account_args @
     [(''symbol'', VText (o_symbol ord)),
      (''side'', VText (if o_side ord = BUY then ''buy'' else ''sell'')),
      (''type'', VText (if o_order_type ord = MARKET then ''market'' else ''limit'')),
      (''quantity'', VText (text (o_qty ord))),
      (''time_in_force'', VText (if o_time_in_force ord = GTC then ''gtc'' else ''gfd'')),
      (''ref_id'', VText (uuid_text (o_id ord)))] @
     (case o_limit_price ord of
        Some p \<Rightarrow> if o_order_type ord \<noteq> MARKET then [(''limit_price'', VText (text p))] else []
      | None \<Rightarrow> []) @
     (case o_stop_price ord of Some p \<Rightarrow> [(''stop_price'', VText (text p))] | None \<Rightarrow> [])"

definition client_key :: "order \<Rightarrow> string" where
  "client_key ord = uuid_text (o_id ord)"

definition claim_order :: "order \<Rightarrow> ('m robinhood, string option) eff" where
  "claim_order ord b = (case dict_get (rh_submitted b) (client_key ord) of
       Some x \<Rightarrow> if x = inflight then (Inl BrokerUnavailable, b) else (Inr (Some x), b)
     | None \<Rightarrow> (Inr None, b\<lparr>rh_submitted := dict_set (client_key ord) inflight (rh_submitted b)\<rparr>))"

definition settle_claim :: "order \<Rightarrow> string \<Rightarrow> ('m robinhood, string) eff" where
  "settle_claim ord bid b = (Inr bid, b\<lparr>rh_submitted := dict_set (client_key ord) bid (rh_submitted b)\<rparr>)"

definition release_claim :: "order \<Rightarrow> exn \<Rightarrow> ('m robinhood, 'a) eff" where
  "release_claim ord e b = (Inl e, b\<lparr>rh_submitted := dict_del (client_key ord) (rh_submitted b)\<rparr>)"

definition dry_submit :: "order \<Rightarrow> ('m robinhood, string) eff" where
  "dry_submit ord = andthen rh_draw (\<lambda>u.
     andthen (settle_claim ord (dry_prefix @ uuid_text u)) (\<lambda>bid.
     andthen (modify (\<lambda>b. b\<lparr>rh_dry_orders := dict_set bid ord (rh_dry_orders b)\<rparr>)) (\<lambda>_. ret bid)))"

fun placed_id :: "(jval \<Rightarrow> string) \<Rightarrow> jval \<Rightarrow> exn + string" where
  "placed_id repr (VObject d) =
     (let bid = py_str repr (either (either (item d ''id'') (item d ''order_id'')) (VText [])) in
      if bid = [] then Inl (BrokerRejection (''Robinhood place_equity_order returned no id. Full response: '' @ repr (VObject d)))
      else Inr bid)"
| "placed_id repr v = Inl (BrokerRejection (''Robinhood place_equity_order non-dict response: '' @ repr v))"

text \<open>A failing review is logged and ignored.\<close>

definition review_order :: "'m mcp_client \<Rightarrow> (string, jval) dict \<Rightarrow> ('m robinhood, unit) eff" where
  "review_order cl args b = (Inr (), snd (call_tool cl ''review_equity_order'' args b))"

definition live_submit :: "'m mcp_client \<Rightarrow> rh_env \<Rightarrow> order \<Rightarrow> ('m robinhood, string) eff" where
  "live_submit cl env ord =
     (let args = build_order_args (re_text env) ord in
      andthen (review_order cl args) (\<lambda>_ b.
        case call_tool cl ''place_equity_order'' args b of
          (Inl e, b') \<Rightarrow> release_claim ord (as_broker_error e) b'
        | (Inr resp, b') \<Rightarrow> (case placed_id (re_repr env) resp of
              Inl e \<Rightarrow> release_claim ord e b'
            | Inr bid \<Rightarrow> settle_claim ord bid b')))"

definition place_claimed :: "'m mcp_client \<Rightarrow> rh_env \<Rightarrow> order \<Rightarrow> ('m robinhood, string) eff" where
  "place_claimed cl env ord b = (if armed b then live_submit cl env ord b else dry_submit ord b)"

definition rh_submit_order :: "'m mcp_client \<Rightarrow> rh_env \<Rightarrow> order \<Rightarrow> ('m robinhood, string) eff" where
  "rh_submit_order cl env ord = andthen (claim_order ord) (\<lambda>known. case known of
       Some bid \<Rightarrow> ret bid
     | None \<Rightarrow> place_claimed cl env ord)"

definition rh_cancel_order :: "'m mcp_client \<Rightarrow> string \<Rightarrow> ('m robinhood, unit) eff" where
  "rh_cancel_order cl bid b =
     (if \<not> armed b \<or> is_dry_id bid then (Inr (), b)
      else andthen (read_tool cl ''cancel_equity_order'' (account_args @ [(''order_id'', VText bid)])) (\<lambda>_. skip) b)"

subsection \<open>Translation\<close>

definition rh_states :: "(string, broker_order_state) dict" where
  "rh_states = [(''new'', B_NEW), (''queued'', B_NEW), (''unconfirmed'', B_NEW), (''confirmed'', B_ACCEPTED),
     (''partially_filled'', B_PARTIALLY_FILLED), (''filled'', B_FILLED), (''cancelled'', B_CANCELED),
     (''rejected'', B_REJECTED), (''failed'', B_REJECTED), (''voided'', B_CANCELED), (''canceled'', B_CANCELED)]"

definition to_uuid :: "rh_env \<Rightarrow> jval \<Rightarrow> ('m robinhood, uuid) eff" where
  "to_uuid env v = (case re_uuid env (py_str (re_repr env) v) of Some u \<Rightarrow> ret u | None \<Rightarrow> rh_draw)"

definition zone_text :: "string \<Rightarrow> string" where
  "zone_text s = concat (map (\<lambda>c. if c = CHR ''Z'' then ''+00:00'' else [c]) s)"

definition parse_ts :: "rh_env \<Rightarrow> jval \<Rightarrow> datetime option" where
  "parse_ts env v = (if truthy v then re_iso env (zone_text (py_str (re_repr env) v)) else None)"

definition looks_crypto :: "symbol \<Rightarrow> bool" where
  "looks_crypto s \<longleftrightarrow> (let u = py_upper s in
     (drop (length u - 3) u = ''USD'' \<or> drop (length u - 4) u = ''USDT'') \<and> 6 \<le> length s)"

definition text_item :: "rh_env \<Rightarrow> (string, jval) dict \<Rightarrow> string \<Rightarrow> string" where
  "text_item env d k = py_str (re_repr env) (dict_get_or d k (VText []))"

definition or_now :: "datetime \<Rightarrow> datetime option \<Rightarrow> datetime" where
  "or_now now t = (case t of None \<Rightarrow> now | Some ts \<Rightarrow> ts)"

definition reason_text :: "rh_env \<Rightarrow> jval \<Rightarrow> string option" where
  "reason_text env v = (if v = VNull then None else Some (py_str (re_repr env) v))"

definition nonzero :: "decimal \<Rightarrow> decimal option" where
  "nonzero d = (if d = 0 then None else Some d)"

definition translate_fields :: "rh_env \<Rightarrow> datetime \<Rightarrow> (string, jval) dict \<Rightarrow> uuid \<Rightarrow> order_status" where
  "translate_fields env now d u = \<lparr>bs_broker_id = text_item env d ''id'', bs_client_id = u,
     bs_symbol = text_item env d ''symbol'',
     bs_side = (if py_lower (py_str (re_repr env) (dict_get_or d ''side'' (VText ''buy''))) = ''buy'' then BUY else SELL),
     bs_qty = rh_decimal (item d ''quantity''),
     bs_filled_qty = rh_decimal (either (item d ''cumulative_quantity'') (item d ''filled_quantity'')),
     bs_avg_fill_price = nonzero (rh_decimal (item d ''average_price'')),
     bs_state = dict_get_or rh_states (py_lower (text_item env d ''state'')) B_UNKNOWN,
     bs_submitted_at = or_now now (parse_ts env (item d ''created_at'')),
     bs_updated_at = or_now now (parse_ts env (either (item d ''last_transaction_at'') (item d ''updated_at''))),
     bs_rejection_reason = reason_text env (item d ''reject_reason'')\<rparr>"

fun translate_order :: "rh_env \<Rightarrow> datetime \<Rightarrow> jval \<Rightarrow> ('m robinhood, order_status) eff" where
  "translate_order env now (VObject d) = andthen (to_uuid env (item d ''ref_id'')) (\<lambda>u. ret (translate_fields env now d u))"
| "translate_order env now v = raise AttributeError"

fun translate_position :: "rh_env \<Rightarrow> jval \<Rightarrow> exn + broker_position" where
  "translate_position env (VObject d) = Inr \<lparr>bp_symbol = text_item env d ''symbol'',
     bp_qty = rh_decimal (item d ''quantity''),
     bp_avg_entry_price = rh_decimal (item d ''average_buy_price''),
     bp_current_price = rh_decimal (either (item d ''market_value'') (item d ''current_price'')),
     bp_asset_class = (if looks_crypto (text_item env d ''symbol'') then CRYPTO else EQUITY)\<rparr>"
| "translate_position env v = Inl AttributeError"

fun translate_positions :: "rh_env \<Rightarrow> jval list \<Rightarrow> exn + broker_position list" where
  "translate_positions env [] = Inr []"
| "translate_positions env (v # vs) =
     bindr (translate_position env v) (\<lambda>p. bindr (translate_positions env vs) (\<lambda>ps. Inr (p # ps)))"

subsection \<open>Queries\<close>

text \<open>
  The price of a dry-run fill is looked up once and kept, \<open>None\<close> included; a failing look-up
  falls back to the order's limit price.
\<close>

definition quoted_price :: "(string, jval) dict \<Rightarrow> exn + decimal option" where
  "quoted_price info = (let p = either (item info ''last_price'') (item info ''regularMarketPrice'') in
     if truthy p then (case py_decimal p of Inl e \<Rightarrow> Inl e | Inr d \<Rightarrow> Inr (Some d)) else Inr None)"

definition fetch_last_price :: "rh_env \<Rightarrow> symbol \<Rightarrow> decimal option \<Rightarrow> decimal option" where
  "fetch_last_price env s fallback = (case bindr (re_info env s) quoted_price of
       Inr (Some p) \<Rightarrow> Some p
     | _ \<Rightarrow> fallback)"

definition filled_status :: "string \<Rightarrow> order \<Rightarrow> decimal option \<Rightarrow> datetime \<Rightarrow> order_status" where
  "filled_status bid ord price now = \<lparr>bs_broker_id = bid, bs_client_id = o_id ord, bs_symbol = o_symbol ord,
     bs_side = o_side ord, bs_qty = o_qty ord, bs_filled_qty = o_qty ord, bs_avg_fill_price = price,
     bs_state = B_FILLED, bs_submitted_at = now, bs_updated_at = now, bs_rejection_reason = None\<rparr>"

definition simulate_fill :: "rh_env \<Rightarrow> datetime \<Rightarrow> string \<Rightarrow> ('m robinhood, order_status) eff" where
  "simulate_fill env now bid b = (case dict_get (rh_dry_orders b) bid of
       None \<Rightarrow> (Inl BrokerUnavailable, b)
     | Some ord \<Rightarrow> (case dict_get (rh_dry_fills b) bid of
           Some price \<Rightarrow> (Inr (filled_status bid ord price now), b)
         | None \<Rightarrow> (let price = fetch_last_price env (o_symbol ord) (o_limit_price ord)
                    in (Inr (filled_status bid ord price now), b\<lparr>rh_dry_fills := dict_set bid price (rh_dry_fills b)\<rparr>))))"

definition rh_get_order :: "'m mcp_client \<Rightarrow> rh_env \<Rightarrow> datetime \<Rightarrow> string \<Rightarrow> ('m robinhood, order_status) eff" where
  "rh_get_order cl env now bid b =
     (if is_dry_id bid then simulate_fill env now bid b
      else if \<not> armed b then (Inl BrokerUnavailable, b)
      else andthen (read_tool cl ''get_equity_orders'' (account_args @ [(''order_id'', VText bid)])) (\<lambda>resp.
        case (resp, rh_data_list resp ''orders'') of
          (VObject _, v # _) \<Rightarrow> translate_order env now v
        | _ \<Rightarrow> raise BrokerUnavailable) b)"

definition has_ref :: "rh_env \<Rightarrow> uuid \<Rightarrow> jval \<Rightarrow> bool" where
  "has_ref env oid v = (case v of VObject d \<Rightarrow> text_item env d ''ref_id'' = uuid_text oid | _ \<Rightarrow> False)"

text \<open>A failing call is answered like an order the broker does not know.\<close>

definition rh_find_order :: "'m mcp_client \<Rightarrow> rh_env \<Rightarrow> datetime \<Rightarrow> order_id \<Rightarrow> ('m robinhood, order_status option) eff" where
  "rh_find_order cl env now oid b =
     (if \<not> armed b then (Inr None, b)
      else (case call_tool cl ''get_equity_orders'' account_args b of
          (Inr (VObject d), b') \<Rightarrow> (case List.find (has_ref env oid) (rh_data_list (VObject d) ''orders'') of
              None \<Rightarrow> (Inr None, b')
            | Some v \<Rightarrow> andthen (translate_order env now v) (\<lambda>st. ret (Some st)) b')
        | (_, b') \<Rightarrow> (Inr None, b')))"

definition rh_list_positions :: "'m mcp_client \<Rightarrow> rh_env \<Rightarrow> ('m robinhood, broker_position list) eff" where
  "rh_list_positions cl env b =
     (if \<not> armed b then (Inl BrokerUnavailable, b)
      else andthen (read_tool cl ''get_equity_positions'' account_args) (\<lambda>resp.
        lift_res (translate_positions env (rh_data_list resp ''positions''))) b)"

definition account_of :: "(string, jval) dict \<Rightarrow> broker_account" where
  "account_of d = \<lparr>ba_cash = rh_decimal (item d ''cash''), ba_equity = rh_decimal (item d ''total_value''),
     ba_buying_power = rh_decimal (case item d ''buying_power'' of VObject bp \<Rightarrow> item bp ''buying_power'' | v \<Rightarrow> v),
     ba_pattern_day_trader = False, ba_daytrade_count = 0\<rparr>"

definition rh_get_account :: "'m mcp_client \<Rightarrow> ('m robinhood, broker_account) eff" where
  "rh_get_account cl b =
     (if \<not> armed b then (Inr (account_of []), b)
      else andthen (read_tool cl ''get_portfolio'' account_args) (\<lambda>resp. ret (account_of (rh_data resp))) b)"

subsection \<open>Runs\<close>

datatype rh_op =
    Op_submit order | Op_cancel string | Op_get datetime string | Op_find datetime order_id | Op_positions | Op_account

fun perform :: "'m mcp_client \<Rightarrow> rh_env \<Rightarrow> rh_op \<Rightarrow> 'm robinhood \<Rightarrow> 'm robinhood" where
  "perform cl env (Op_submit ord) b = snd (rh_submit_order cl env ord b)"
| "perform cl env (Op_cancel bid) b = snd (rh_cancel_order cl bid b)"
| "perform cl env (Op_get now bid) b = snd (rh_get_order cl env now bid b)"
| "perform cl env (Op_find now oid) b = snd (rh_find_order cl env now oid b)"
| "perform cl env Op_positions b = snd (rh_list_positions cl env b)"
| "perform cl env Op_account b = snd (rh_get_account cl b)"

definition perform_all :: "'m mcp_client \<Rightarrow> rh_env \<Rightarrow> rh_op list \<Rightarrow> 'm robinhood \<Rightarrow> 'm robinhood" where
  "perform_all cl env ops b = foldl (\<lambda>b op. perform cl env op b) b ops"

text \<open>
  A client that records its calls; its answers may depend on all of them, so it stands for any
  behaviour of the endpoint.
\<close>

type_synonym calls = "(string \<times> (string, jval) dict) list"

definition recording :: "(string \<Rightarrow> (string, jval) dict \<Rightarrow> calls \<Rightarrow> exn + jval) \<Rightarrow> calls mcp_client" where
  "recording answer tool args cs = (answer tool args cs, cs @ [(tool, args)])"

definition allowed_call :: "rh_env \<Rightarrow> bool \<Rightarrow> order set \<Rightarrow> string \<times> (string, jval) dict \<Rightarrow> bool" where
  "allowed_call env live asked c \<longleftrightarrow> live \<and> dict_get (snd c) ''account_number'' = Some (VText agentic_account)
     \<and> (fst c = ''place_equity_order'' \<longrightarrow> (\<exists>ord\<in>asked. snd c = build_order_args (re_text env) ord))"

definition clean_log :: "rh_env \<Rightarrow> bool \<Rightarrow> order set \<Rightarrow> calls robinhood \<Rightarrow> bool" where
  "clean_log env live asked b \<longleftrightarrow> rh_live b = live \<and>
     (\<exists>cs. rh_server b = Some cs \<and> (\<forall>c\<in>set cs. allowed_call env live asked c))"

lemma account_first [simp]: "dict_get (account_args @ rest) ''account_number'' = Some (VText agentic_account)"
  and account_only [simp]: "dict_get account_args ''account_number'' = Some (VText agentic_account)"
  by (simp_all add: account_args_def)

lemma args_account [simp]: "dict_get (build_order_args text ord) ''account_number'' = Some (VText agentic_account)"
  unfolding build_order_args_def append_assoc by (rule account_first)

lemma call_clean:
  assumes "clean_log env live asked b" "allowed_call env live asked (tool, args)" "call_tool (recording answer) tool args b = (r, b')"
  shows "clean_log env live asked b'"
  using assms by (auto simp: clean_log_def call_tool_def recording_def)

lemma clean_frame:
  "clean_log env live asked b \<Longrightarrow> rh_live b' = rh_live b \<Longrightarrow> rh_server b' = rh_server b \<Longrightarrow> clean_log env live asked b'"
  by (simp add: clean_log_def)

lemma draw_frame: "rh_live (snd (rh_draw b)) = rh_live b" "rh_server (snd (rh_draw b)) = rh_server b"
  by (simp_all add: rh_draw_def)

lemma keeps_clean_read:
  assumes "allowed_call env live asked (tool, args)"
  shows "keeps (clean_log env live asked) (read_tool (recording answer) tool args)"
  unfolding triple_def read_tool_def
  by (auto split: prod.split sum.split dest: call_clean [OF _ assms])

lemma keeps_clean_translate: "keeps (clean_log env live asked) (translate_order e now v)"
  by (cases v) (auto simp: triple_def to_uuid_def eff_defs rh_draw_def split: option.split intro: clean_frame)

lemma keeps_at: "keeps P m \<Longrightarrow> P s \<Longrightarrow> P (snd (m s))"
  by (simp add: keeps_iff)

lemma allowed_read:
  "live \<Longrightarrow> tool \<noteq> ''place_equity_order'' \<Longrightarrow> allowed_call env live asked (tool, account_args @ rest)"
  "live \<Longrightarrow> tool \<noteq> ''place_equity_order'' \<Longrightarrow> allowed_call env live asked (tool, account_args)"
  by (simp_all add: allowed_call_def)

lemma live_when_armed: "armed b \<Longrightarrow> clean_log env live asked b \<Longrightarrow> live"
  by (simp add: armed_def clean_log_def)

lemma submit_clean:
  assumes "clean_log env live asked b" "ord \<in> asked"
  shows "clean_log env live asked (snd (rh_submit_order (recording answer) env ord b))"
proof -
  have place: "clean_log env live asked (snd (place_claimed (recording answer) env ord c))" if c: "clean_log env live asked c" for c
  proof (cases "armed c")
    case False
    then show ?thesis
      by (auto simp: place_claimed_def dry_submit_def settle_claim_def eff_defs rh_draw_def intro!: clean_frame [OF c])
  next
    case True
    define args where "args = build_order_args (re_text env) ord"
    have ok: "allowed_call env live asked (''place_equity_order'', args)" "allowed_call env live asked (''review_equity_order'', args)"
      using True c assms(2) by (auto simp: armed_def clean_log_def allowed_call_def args_def)
    obtain r1 c1 where 1: "call_tool (recording answer) ''review_equity_order'' args c = (r1, c1)" by fastforce
    obtain r2 c2 where 2: "call_tool (recording answer) ''place_equity_order'' args c1 = (r2, c2)" by fastforce
    have "clean_log env live asked c2" using call_clean [OF call_clean [OF c ok(2) 1] ok(1) 2] .
    then show ?thesis
      using True 1 2 by (auto simp: place_claimed_def live_submit_def args_def Let_def review_order_def andthen_def
        release_claim_def settle_claim_def split: sum.split intro: clean_frame)
  qed
  show ?thesis
    using assms(1)
    by (auto simp: rh_submit_order_def andthen_def claim_order_def ret_def split: option.split intro!: place intro: clean_frame)
qed

lemma find_state:
  assumes "armed b" "call_tool cl ''get_equity_orders'' account_args b = (r, b')"
  shows "snd (rh_find_order cl env now oid b) = b' \<or> (\<exists>v. snd (rh_find_order cl env now oid b) = snd (translate_order env now v b'))"
proof (cases r)
  case (Inr w)
  have thn: "snd (andthen m (\<lambda>st. ret (Some st)) s) = snd (m s)" for m s
    by (simp add: andthen_def ret_def case_prod_beta split: sum.split)
  show ?thesis
  proof (cases w)
    case (VObject d)
    then show ?thesis
      using Inr assms by (cases "List.find (has_ref env oid) (rh_data_list w ''orders'')") (auto simp: rh_find_order_def thn)
  qed (use Inr assms in \<open>simp_all add: rh_find_order_def\<close>)
qed (use assms in \<open>simp add: rh_find_order_def\<close>)

lemma perform_clean:
  assumes c: "clean_log env live asked b" and "\<And>ord. op = Op_submit ord \<Longrightarrow> ord \<in> asked"
  shows "clean_log env live asked (perform (recording answer) env op b)"
proof (cases "armed b")
  case True
  note ok = allowed_read [OF live_when_armed [OF True c]]
  show ?thesis
  proof (cases op)
    case (Op_submit ord)
    then show ?thesis using submit_clean assms by simp
  next
    case (Op_cancel bid)
    have "keeps (clean_log env live asked) (andthen (read_tool (recording answer) ''cancel_equity_order'' args) (\<lambda>_. skip))"
      if "allowed_call env live asked (''cancel_equity_order'', args)" for args
      by (rule keeps_bind [OF keeps_clean_read [OF that] keeps_skip])
    from keeps_at [OF this [OF ok(1)] c] Op_cancel c True show ?thesis by (simp add: rh_cancel_order_def)
  next
    case (Op_get now bid)
    have w: "keeps (clean_log env live asked) (case (resp, rh_data_list resp ''orders'') of
        (VObject _, v # _) \<Rightarrow> translate_order env now v | _ \<Rightarrow> raise BrokerUnavailable)" for resp
      by (auto split: prod.split jval.split list.split simp: keeps_clean_translate)
    have "keeps (clean_log env live asked) (andthen (read_tool (recording answer) ''get_equity_orders''
        (account_args @ [(''order_id'', VText bid)])) (\<lambda>resp. case (resp, rh_data_list resp ''orders'') of
          (VObject _, v # _) \<Rightarrow> translate_order env now v | _ \<Rightarrow> raise BrokerUnavailable))"
      by (rule keeps_bind [OF keeps_clean_read [OF ok(1)] w]) simp
    from keeps_at [OF this c] Op_get True c show ?thesis
      by (auto simp: rh_get_order_def simulate_fill_def Let_def split: option.split intro: clean_frame)
  next
    case (Op_find now oid)
    obtain r b' where call: "call_tool (recording answer) ''get_equity_orders'' account_args b = (r, b')" by fastforce
    have c': "clean_log env live asked b'" using call_clean [OF c ok(2) call] by simp
    from find_state [OF True call] consider "snd (rh_find_order (recording answer) env now oid b) = b'"
      | v where "snd (rh_find_order (recording answer) env now oid b) = snd (translate_order env now v b')" by blast
    then show ?thesis
    proof cases
      case 1
      with c' Op_find show ?thesis by simp
    next
      case 2
      show ?thesis unfolding Op_find perform.simps 2 by (rule keeps_at [OF keeps_clean_translate c'])
    qed
  next
    case Op_positions
    have "keeps (clean_log env live asked) (andthen (read_tool (recording answer) ''get_equity_positions'' account_args)
        (\<lambda>resp. lift_res (translate_positions env (rh_data_list resp ''positions''))))"
      by (rule keeps_bind [OF keeps_clean_read [OF ok(2)] keeps_lift]) simp
    from keeps_at [OF this c] Op_positions True show ?thesis by (simp add: rh_list_positions_def)
  next
    case Op_account
    have "keeps (clean_log env live asked) (andthen (read_tool (recording answer) ''get_portfolio'' account_args)
        (\<lambda>resp. ret (account_of (rh_data resp))))"
      by (rule keeps_bind [OF keeps_clean_read [OF ok(2)] keeps_ret]) simp
    from keeps_at [OF this c] Op_account True show ?thesis by (simp add: rh_get_account_def)
  qed
next
  case False
  then show ?thesis
    using assms submit_clean
    by (cases op) (auto simp: rh_cancel_order_def rh_get_order_def simulate_fill_def Let_def rh_find_order_def rh_list_positions_def
      rh_get_account_def split: option.split intro: clean_frame)
qed

lemma perform_all_clean:
  "clean_log env live asked b \<Longrightarrow> (\<And>ord. Op_submit ord \<in> set ops \<Longrightarrow> ord \<in> asked) \<Longrightarrow>
    clean_log env live asked (perform_all (recording answer) env ops b)"
  by (induction ops arbitrary: b) (simp_all add: perform_all_def perform_clean)

subsection \<open>Recovery while the endpoint is down\<close>

text \<open>The look-up the order system recovers with: the adapter's answer in its present state.\<close>

definition rh_look :: "'m mcp_client \<Rightarrow> rh_env \<Rightarrow> datetime \<Rightarrow> 'm robinhood \<Rightarrow> order_id \<Rightarrow> exn + order_status option" where
  "rh_look cl env now b oid = fst (rh_find_order cl env now oid b)"

definition orders_unreadable :: "'m mcp_client \<Rightarrow> 'm robinhood \<Rightarrow> bool" where
  "orders_unreadable cl b \<longleftrightarrow> \<not> armed b \<or> isl (fst (call_tool cl ''get_equity_orders'' account_args b))"

lemma unreadable_look: "orders_unreadable cl b \<Longrightarrow> rh_look cl env now b oid = Inr None"
  by (auto simp: orders_unreadable_def rh_look_def rh_find_order_def isl_def split: prod.split)

lemma reject_advance [simp]:
  "order_life.advance (order_life.advance st REJECT) REJECT = order_life.advance st REJECT"
  "terminal st \<Longrightarrow> order_life.advance st REJECT = st"
  by (cases st; simp add: order_life.advance_def terminal_def)+

lemma abandon_one:
  assumes wf: "oms_wf s" and ord: "dict_get (om_orders s) oid = Some ord" and look: "look oid = Inr None"
  shows "\<exists>r t ord'. reconcile_one look oid s = (Inr r, t) \<and> oms_wf t
    \<and> dict_get (om_orders t) oid = Some ord' \<and> o_state ord' = order_life.advance (o_state ord) REJECT
    \<and> (\<forall>k. k \<noteq> oid \<longrightarrow> dict_get (om_orders t) k = dict_get (om_orders s) k)"
proof -
  obtain m where m: "dict_get (om_fsms s) oid = Some m" "m_table m = order_table" "m_state m = o_state ord"
    using wf ord by (auto elim: oms_wfD)
  obtain r t where rt: "reconcile_one look oid s = (r, t)" by fastforce
  have "oms_wf t" using good_opD [OF good_reconcile_one, of s look oid] wf rt by (simp add: good_step_def)
  moreover have "\<exists>r' ord'. r = Inr r' \<and> dict_get (om_orders t) oid = Some ord' \<and> o_state ord' = order_life.advance (o_state ord) REJECT
      \<and> (\<forall>k. k \<noteq> oid \<longrightarrow> dict_get (om_orders t) k = dict_get (om_orders s) k)"
    using rt ord look m
    by (cases "o_state ord")
      (auto simp: reconcile_one_def eff_defs log_event_def handle_rejection_run Let_def moved_def order_life.advance_def terminal_def)
  ultimately show ?thesis using rt by auto
qed

lemma abandon_all:
  assumes "\<And>oid. look oid = Inr None"
  shows "oms_wf s \<Longrightarrow> (\<And>k. k \<in> set oids \<Longrightarrow> dict_get (om_orders s) k \<noteq> None) \<Longrightarrow>
    \<exists>rs t. reconcile_all look oids s = (Inr rs, t) \<and> (\<forall>k ord. dict_get (om_orders s) k = Some ord \<longrightarrow>
      (\<exists>ord'. dict_get (om_orders t) k = Some ord'
        \<and> o_state ord' = (if k \<in> set oids then order_life.advance (o_state ord) REJECT else o_state ord)))"
proof (induction oids arbitrary: s)
  case Nil
  then show ?case by (simp add: ret_def)
next
  case (Cons oid oids)
  from Cons.prems(2) obtain ord where "dict_get (om_orders s) oid = Some ord" by fastforce
  from abandon_one [where look = look, OF Cons.prems(1) this assms] obtain r t ord' where
    one: "reconcile_one look oid s = (Inr r, t)" "oms_wf t" "dict_get (om_orders t) oid = Some ord'"
      "o_state ord' = order_life.advance (o_state ord) REJECT" "\<And>k. k \<noteq> oid \<Longrightarrow> dict_get (om_orders t) k = dict_get (om_orders s) k"
    by blast
  have "dict_get (om_orders t) k \<noteq> None" if "k \<in> set oids" for k
    using that Cons.prems(2) [of k] one(3,5) by (cases "k = oid") auto
  from Cons.IH [OF one(2) this] obtain rs u where
    rest: "reconcile_all look oids t = (Inr rs, u)" "\<And>k ord. dict_get (om_orders t) k = Some ord \<Longrightarrow>
      \<exists>ord'. dict_get (om_orders u) k = Some ord' \<and> o_state ord' = (if k \<in> set oids then order_life.advance (o_state ord) REJECT else o_state ord)"
    by blast
  have "\<exists>x'. dict_get (om_orders u) k = Some x' \<and> o_state x' = (if k \<in> set (oid # oids) then order_life.advance (o_state x) REJECT else o_state x)"
    if "dict_get (om_orders s) k = Some x" for k x
    using that rest(2) [of k] one(3-5) \<open>dict_get (om_orders s) oid = Some ord\<close> by (cases "k = oid") auto
  then show ?case using one(1) rest(1) by (simp add: andthen_def ret_def)
qed

lemma unreadable_recovery:
  assumes "oms_wf s" "orders_unreadable cl b"
  shows "\<exists>r t. reconcile_open_orders (rh_look cl env now b) s = (Inr r, t)
    \<and> (\<forall>oid ord. get_order oid s = Some ord \<longrightarrow> (\<exists>ord'. get_order oid t = Some ord'
        \<and> (o_state ord \<in> {PENDING, SUBMITTED, ACCEPTED} \<longrightarrow> o_state ord' = REJECTED)))"
proof -
  have look: "rh_look cl env now b oid = Inr None" for oid by (rule unreadable_look [OF assms(2)])
  have "dict_get (om_orders s) k \<noteq> None" if "k \<in> set (map fst (om_orders s))" for k
    using that by (auto simp: map_of_eq_None_iff)
  from abandon_all [where look = "rh_look cl env now b", OF look assms(1) this] obtain rs t where
    all: "reconcile_all (rh_look cl env now b) (map fst (om_orders s)) s = (Inr rs, t)"
      "\<And>k ord. dict_get (om_orders s) k = Some ord \<Longrightarrow> \<exists>ord'. dict_get (om_orders t) k = Some ord'
        \<and> o_state ord' = (if k \<in> set (map fst (om_orders s)) then order_life.advance (o_state ord) REJECT else o_state ord)"
    by blast
  have "\<exists>ord'. get_order oid t = Some ord' \<and> (o_state ord \<in> {PENDING, SUBMITTED, ACCEPTED} \<longrightarrow> o_state ord' = REJECTED)"
    if "get_order oid s = Some ord" for oid ord
  proof -
    from that have "oid \<in> set (map fst (om_orders s))" by (force simp: get_order_def dest: map_of_SomeD)
    then show ?thesis using that all(2) [of oid ord] by (auto simp: get_order_def order_life.advance_def)
  qed
  then show ?thesis by (auto simp: reconcile_open_orders_def andthen_def gets_def all(1) ret_def)
qed

subsection \<open>Threads\<close>

text \<open>
  Between the claim and the end of a placement other threads may use the adapter. A state is the
  adapter with the orders being placed; their calls are one step, as nothing else changes the
  adapter in between but the steps of the others.
\<close>

inductive rh_step :: "'m mcp_client \<Rightarrow> rh_env \<Rightarrow> 'm robinhood \<times> order list \<Rightarrow> 'm robinhood \<times> order list \<Rightarrow> bool"
  for cl env where
  step_claim: "claim_order ord b = (Inr None, b') \<Longrightarrow> rh_step cl env (b, hs) (b', hs @ [ord])"
| step_place: "rh_step cl env (b, xs @ ord # ys) (snd (place_claimed cl env ord b), xs @ ys)"
| step_other: "(\<And>ord. op \<noteq> Op_submit ord) \<Longrightarrow> rh_step cl env (b, hs) (perform cl env op b, hs)"

inductive_cases rh_stepE: "rh_step cl env (b, hs) (b', hs')"

definition claims_held :: "'m robinhood \<times> order list \<Rightarrow> bool" where
  "claims_held st \<longleftrightarrow> distinct (map o_id (snd st)) \<and>
     (\<forall>ord\<in>set (snd st). dict_get (rh_submitted (fst st)) (client_key ord) = Some inflight)"

lemma client_key_iff: "client_key ord = client_key ord' \<longleftrightarrow> o_id ord = o_id ord'"
  by (auto simp: client_key_def dest: uuid_text_inj)

lemma call_submitted: "call_tool cl tool args b = (r, b') \<Longrightarrow> rh_submitted b' = rh_submitted b"
  by (auto simp: call_tool_def split: option.splits prod.splits)

lemma place_submitted:
  "\<exists>v. \<forall>k. dict_get (rh_submitted (snd (place_claimed cl env ord b))) k = (if k = client_key ord then v else dict_get (rh_submitted b) k)"
proof (cases "armed b")
  case False
  then show ?thesis
    by (auto simp: place_claimed_def dry_submit_def settle_claim_def eff_defs rh_draw_def)
next
  case True
  define args where "args = build_order_args (re_text env) ord"
  obtain r1 b1 where 1: "call_tool cl ''review_equity_order'' args b = (r1, b1)" by fastforce
  obtain r2 b2 where 2: "call_tool cl ''place_equity_order'' args b1 = (r2, b2)" by fastforce
  have "rh_submitted b2 = rh_submitted b" using call_submitted [OF 1] call_submitted [OF 2] by simp
  then show ?thesis
    using True 1 2 by (auto simp: place_claimed_def live_submit_def args_def Let_def review_order_def andthen_def
      release_claim_def settle_claim_def split: sum.split)
qed

lemma keeps_submitted_read: "keeps (\<lambda>b. rh_submitted b = d) (read_tool cl tool args)"
  by (auto simp: triple_def read_tool_def split: prod.split sum.split dest: call_submitted)

lemma keeps_submitted_translate: "keeps (\<lambda>b. rh_submitted b = d) (translate_order e now v)"
  by (cases v) (auto simp: keeps_iff to_uuid_def eff_defs rh_draw_def split: option.split)

lemma other_submitted:
  assumes "\<And>ord. op \<noteq> Op_submit ord"
  shows "rh_submitted (perform cl env op b) = rh_submitted b"
proof (cases op)
  case (Op_submit ord)
  with assms show ?thesis by blast
next
  case (Op_cancel bid)
  have "keeps (\<lambda>c. rh_submitted c = rh_submitted b) (andthen (read_tool cl ''cancel_equity_order'' args) (\<lambda>_. skip))" for args
    by (rule keeps_bind [OF keeps_submitted_read keeps_skip])
  from keeps_at [OF this refl] Op_cancel show ?thesis by (simp add: rh_cancel_order_def)
next
  case (Op_get now bid)
  have w: "keeps (\<lambda>c. rh_submitted c = rh_submitted b) (case (resp, rh_data_list resp ''orders'') of
      (VObject _, v # _) \<Rightarrow> translate_order env now v | _ \<Rightarrow> raise BrokerUnavailable)" for resp
    by (auto split: prod.split jval.split list.split simp: keeps_submitted_translate)
  from keeps_at [OF keeps_bind [OF keeps_submitted_read w] refl] Op_get show ?thesis
    by (simp add: rh_get_order_def simulate_fill_def Let_def split: option.split)
next
  case (Op_find now oid)
  show ?thesis
  proof (cases "armed b")
    case True
    obtain r b' where call: "call_tool cl ''get_equity_orders'' account_args b = (r, b')" by fastforce
    have t: "rh_submitted (snd (translate_order env now v b')) = rh_submitted b'" for v
      by (rule keeps_at [OF keeps_submitted_translate refl])
    from find_state [OF True call, of env now oid] call_submitted [OF call] t Op_find show ?thesis by (metis perform.simps(4))
  qed (use Op_find in \<open>simp add: rh_find_order_def\<close>)
next
  case Op_positions
  have "keeps (\<lambda>c. rh_submitted c = rh_submitted b) (andthen (read_tool cl ''get_equity_positions'' account_args)
      (\<lambda>resp. lift_res (translate_positions env (rh_data_list resp ''positions''))))"
    by (rule keeps_bind [OF keeps_submitted_read keeps_lift])
  from keeps_at [OF this refl] Op_positions show ?thesis by (simp add: rh_list_positions_def)
next
  case Op_account
  have "keeps (\<lambda>c. rh_submitted c = rh_submitted b) (andthen (read_tool cl ''get_portfolio'' account_args)
      (\<lambda>resp. ret (account_of (rh_data resp))))"
    by (rule keeps_bind [OF keeps_submitted_read keeps_ret])
  from keeps_at [OF this refl] Op_account show ?thesis by (simp add: rh_get_account_def)
qed

lemma claim_effect:
  "claim_order ord b = (Inr None, b') \<Longrightarrow> dict_get (rh_submitted b) (client_key ord) = None
    \<and> (\<forall>k. dict_get (rh_submitted b') k = (if k = client_key ord then Some inflight else dict_get (rh_submitted b) k))"
  by (auto simp: claim_order_def split: option.splits if_splits)

lemma step_claims_held: "rh_step cl env st st' \<Longrightarrow> claims_held st \<Longrightarrow> claims_held st'"
proof (induction rule: rh_step.induct)
  case (step_claim ord b b' hs)
  note claim = claim_effect [OF step_claim(1)]
  have "client_key x \<noteq> client_key ord" if "x \<in> set hs" for x
    using that claim step_claim(2) by (auto simp: claims_held_def)
  then have "o_id ord \<notin> o_id ` set hs" by (metis client_key_iff image_iff)
  then show ?case using claim step_claim(2) by (simp add: claims_held_def)
next
  case (step_place b xs ord ys)
  from place_submitted obtain v where
    v: "dict_get (rh_submitted (snd (place_claimed cl env ord b))) k = (if k = client_key ord then v else dict_get (rh_submitted b) k)" for k
    by blast
  have "client_key x \<noteq> client_key ord" if "x \<in> set (xs @ ys)" for x
    using that step_place(1) unfolding client_key_iff
    by (auto simp: claims_held_def) (metis imageI)+
  then show ?case using step_place by (auto simp: claims_held_def v)
qed (simp add: claims_held_def other_submitted)

lemma claims_always_held: "(rh_step cl env)\<^sup>*\<^sup>* st st' \<Longrightarrow> claims_held st \<Longrightarrow> claims_held st'"
  by (induction rule: rtranclp_induct) (auto intro: step_claims_held)

text \<open>An id once answered is never released.\<close>

lemma step_keeps_placed:
  "rh_step cl env st st' \<Longrightarrow> claims_held st \<Longrightarrow> dict_get (rh_submitted (fst st)) k = Some bid \<Longrightarrow> bid \<noteq> inflight \<Longrightarrow>
    dict_get (rh_submitted (fst st')) k = Some bid"
proof (induction rule: rh_step.induct)
  case (step_claim ord b b' hs)
  from claim_effect [OF step_claim(1)] step_claim show ?case by auto
next
  case (step_place b xs ord ys)
  then have "k \<noteq> client_key ord" by (auto simp: claims_held_def)
  with place_submitted [of cl env ord b] step_place(2) show ?case by auto
qed (simp add: other_submitted)

lemma placed_for_ever:
  "(rh_step cl env)\<^sup>*\<^sup>* st st' \<Longrightarrow> claims_held st \<Longrightarrow> dict_get (rh_submitted (fst st)) k = Some bid \<Longrightarrow> bid \<noteq> inflight \<Longrightarrow>
    dict_get (rh_submitted (fst st')) k = Some bid"
  by (induction rule: rtranclp_induct) (auto intro: step_keeps_placed claims_always_held)

subsection \<open>An enveloped acceptance\<close>

text \<open>
  The endpoint wraps its payload under \<^verbatim>\<open>data\<close>, and the order id with it: the placement is taken for
  a rejection. \<open>accepted_as\<close> is such an answer.
\<close>

definition accepted_as :: "string \<Rightarrow> jval" where
  "accepted_as bid = VObject [(''data'', VObject [(''id'', VText bid)]), (''guide'', VText ''order placed'')]"

definition no_outer_id :: "(string, jval) dict \<Rightarrow> bool" where
  "no_outer_id d \<longleftrightarrow> \<not> truthy (item d ''id'') \<and> \<not> truthy (item d ''order_id'')"

lemma enveloped_is_refused:
  assumes "armed b" "rh_server b = Some m" "dict_get (rh_submitted b) (client_key ord) = None" "no_outer_id d"
    and "cl ''place_equity_order'' (build_order_args (re_text env) ord) (snd (cl ''review_equity_order'' (build_order_args (re_text env) ord) m))
      = (Inr (VObject d), m')"
  shows "\<exists>e. rh_submit_order cl env ord b = (Inl (BrokerRejection e),
    b\<lparr>rh_server := Some m', rh_submitted := dict_del (client_key ord) (dict_set (client_key ord) inflight (rh_submitted b))\<rparr>)"
proof -
  obtain r1 m1 where 1: "cl ''review_equity_order'' (build_order_args (re_text env) ord) m = (r1, m1)" by fastforce
  then show ?thesis
    using assms by (simp add: rh_submit_order_def andthen_def claim_order_def place_claimed_def armed_def live_submit_def Let_def
      review_order_def call_tool_def no_outer_id_def either_def release_claim_def)
qed

text \<open>The order system rejects an order whose submission is refused; the order is final.\<close>

lemma refused_is_rejected:
  assumes "o_state ord = PENDING"
  shows "\<exists>r t ord'. submit_order (\<lambda>_. ([], Inl (BrokerRejection e))) ord s = (Inr r, t) \<and> \<not> sr_accepted r
    \<and> get_order (o_id ord) t = Some ord' \<and> o_state ord' = REJECTED"
proof -
  let ?m = "stepped (order_machine PENDING) SUBMIT"
  have placed: "dict_get (om_orders (after_place ord s)) (o_id ord) = Some (ord\<lparr>o_state := SUBMITTED\<rparr>)"
    "dict_get (om_fsms (after_place ord s)) (o_id ord) = Some ?m"
    by (simp_all add: after_place_def started_def moved_def Let_def order_machine_def)
  have m: "m_table ?m = order_table" "m_state ?m = SUBMITTED"
    by (simp_all add: stepped_state order_machine_def order_life.advance_def)
  show ?thesis
    using assms m
    by (simp add: submit_order_def andthen_def place_order_run skip_def ret_def finish_submit_def gets_def
      handle_rejection_run [OF placed m(1)] Let_def terminal_def moved_def submit_result_of_def fetch_def get_order_def)
qed

subsection \<open>A dry-run fill without price\<close>

lemma dry_fill_without_price:
  assumes "dict_get (rh_dry_orders b) bid = Some ord" "dict_get (rh_dry_fills b) bid = None" "is_dry_id bid"
    and "o_limit_price ord = None" "\<And>p. bindr (re_info env (o_symbol ord)) quoted_price \<noteq> Inr (Some p)"
  shows "fst (rh_get_order cl env now bid b) = Inr (filled_status bid ord None now)"
  using assms by (auto simp: rh_get_order_def simulate_fill_def Let_def fetch_last_price_def split: sum.split option.split)

text \<open>A poll whose status has a quantity but no price books the fill at price zero.\<close>

lemma unpriced_poll:
  assumes wf: "oms_wf s" and cur: "dict_get (om_orders s) (o_id cur) = Some cur" "o_filled_avg_price cur = None" "o_filled_qty cur = 0"
    and st: "bs_client_id st = o_id cur" "bs_state st = B_FILLED" "bs_avg_fill_price st = None" "bs_filled_qty st = q"
    and q: "0 < q" "dround q = q"
  shows "\<exists>t f. poll_order cur st s = (Inr (), t) \<and> get_fills (o_id cur) t = get_fills (o_id cur) s @ [f]
    \<and> f_price f = 0 \<and> f_qty f = q \<and> f_side f = o_side cur"
proof -
  obtain m fs where m: "dict_get (om_fsms s) (o_id cur) = Some m" "m_table m = order_table" "dict_get (om_fills s) (o_id cur) = Some fs"
    using wf cur(1) by (auto elim: oms_wfD)
  let ?s = "s\<lparr>om_fresh := Suc (om_fresh s)\<rparr>"
  let ?f = "polled_fill (om_fresh s) cur q st"
  have f: "canonical_fill cur ?f = ?f" by (simp add: canonical_fill_def polled_fill_def)
  have run: "handle_fill (o_id cur) ?f (bs_updated_at st) ?s = (Inr (),
      (after_fill (o_id cur) cur m fs ?f 0 (bs_updated_at st) ?s)\<lparr>om_bus :=
        om_bus (after_fill (o_id cur) cur m fs ?f 0 (bs_updated_at st) ?s) @ [FillReceived ?f]\<rparr>)"
    using handle_fill_run [of ?s "o_id cur" cur m fs ?f "bs_updated_at st"] cur m
    by (simp add: f Let_def average_price_def) (simp add: polled_fill_def st)
  have "dsub q 0 = q" using q(2) by (simp add: dsub_def)
  then have "poll_order cur st s = handle_fill (o_id cur) ?f (bs_updated_at st) ?s"
    using cur st q(1) by (simp add: poll_order_def Let_def andthen_def new_id_def on_broker_event_def polled_event_def)
  then show ?thesis
    using run m(3) by (simp add: get_fills_def dict_get_or_def after_fill_def polled_fill_def st)
qed

text \<open>
  A dry-run market order whose price look-up fails is reported filled without a price, and the
  reconciler's next poll books the whole quantity at price zero.
\<close>

lemma unpriced_dry_run_is_booked_at_zero:
  assumes "oms_wf s" "get_order (o_id cur) s = Some cur" "o_filled_avg_price cur = None" "o_filled_qty cur = 0" "o_state cur = ACCEPTED"
    and "o_broker_order_id cur = Some bid" "is_dry_id bid"
    and "dict_get (rh_dry_orders b) bid = Some ord" "dict_get (rh_dry_fills b) bid = None"
    and "o_id ord = o_id cur" "0 < o_qty ord" "dround (o_qty ord) = o_qty ord" "o_limit_price ord = None" "re_info env (o_symbol ord) = Inl e"
  shows "\<exists>t f. reconcile_orders (\<lambda>i. fst (rh_get_order cl env now i b)) [cur] 0 s = (Inr 1, t)
    \<and> get_fills (o_id cur) t = get_fills (o_id cur) s @ [f] \<and> f_qty f = o_qty ord \<and> f_price f = 0"
proof -
  let ?st = "filled_status bid ord None now"
  have st: "fst (rh_get_order cl env now bid b) = Inr ?st"
    by (rule dry_fill_without_price [OF assms(8,9,7,13)]) (simp add: assms(14))
  have *: "bs_client_id ?st = o_id cur" "bs_state ?st = B_FILLED" "bs_avg_fill_price ?st = None" "bs_filled_qty ?st = o_qty ord"
    by (simp_all add: filled_status_def assms(10))
  have cur: "dict_get (om_orders s) (o_id cur) = Some cur" using assms(2) by (simp add: get_order_def)
  obtain t f where p: "poll_order cur ?st s = (Inr (), t)" and f: "get_fills (o_id cur) t = get_fills (o_id cur) s @ [f]"
      "f_price f = 0" "f_qty f = o_qty ord"
    using unpriced_poll [OF assms(1) cur assms(3,4) * assms(11,12)] by blast
  have "reconcile_orders (\<lambda>i. fst (rh_get_order cl env now i b)) [cur] 0 s = (Inr 1, t)"
    using st p *(2) assms(5) by (simp add: assms(6) status_requires_update_def terminal_def andthen_def ret_def)
  with f show ?thesis by blast
qed

subsection \<open>The contract, in dry-run mode\<close>

text \<open>
  In dry-run mode the adapter keeps the contract of the interface if orders are looked up in its own
  record. Its \<open>rh_find_order\<close>, which recovery uses, knows none of them.
\<close>

definition quiet_env :: rh_env where
  "quiet_env = \<lparr>re_text = (\<lambda>_. ''2''), re_repr = (\<lambda>_. ''{}''), re_iso = (\<lambda>_. None), re_uuid = (\<lambda>_. None),
     re_info = (\<lambda>_. Inl ValueError)\<rparr>"

definition dry_look :: "order_id \<Rightarrow> 'm robinhood \<Rightarrow> order_status option" where
  "dry_look oid b = (case dict_get (rh_submitted b) (uuid_text oid) of
       None \<Rightarrow> None
     | Some bid \<Rightarrow> map_option (\<lambda>ord. filled_status bid ord None 0) (dict_get (rh_dry_orders b) bid))"

definition dry_ok :: "'m robinhood \<Rightarrow> bool" where
  "dry_ok b \<longleftrightarrow> \<not> armed b \<and> (\<forall>k bid. dict_get (rh_submitted b) k = Some bid \<longrightarrow> is_dry_id bid \<and> dict_get (rh_dry_orders b) bid \<noteq> None)"

definition dry_call :: "order \<Rightarrow> 'm robinhood \<Rightarrow> (exn + string) \<times> order_event_msg list \<times> 'm robinhood" where
  "dry_call ord b = (case rh_submit_order (\<lambda>_ _ m. (Inl BrokerUnavailable, m)) quiet_env ord b of (r, b') \<Rightarrow> (r, [], b'))"

lemma inflight_no_dry_id: "\<not> is_dry_id inflight"
  by (simp add: is_dry_id_def inflight_def dry_prefix_def)

lemma dry_call_known:
  "dry_ok b \<Longrightarrow> dict_get (rh_submitted b) (client_key ord) = Some bid \<Longrightarrow> dry_call ord b = (Inr bid, [], b)"
  using inflight_no_dry_id by (auto simp: dry_ok_def dry_call_def rh_submit_order_def andthen_def claim_order_def ret_def)

lemma dry_call_new:
  assumes "dry_ok b" "dict_get (rh_submitted b) (client_key ord) = None"
  defines "bid \<equiv> dry_prefix @ uuid_text (rh_fresh b)"
  shows "\<exists>b'. dry_call ord b = (Inr bid, [], b') \<and> \<not> armed b'
    \<and> (\<forall>k. dict_get (rh_submitted b') k = (if k = client_key ord then Some bid else dict_get (rh_submitted b) k))
    \<and> (\<forall>k. dict_get (rh_dry_orders b') k = (if k = bid then Some ord else dict_get (rh_dry_orders b) k))"
  using assms by (auto simp: dry_ok_def armed_def dry_call_def rh_submit_order_def claim_order_def place_claimed_def dry_submit_def
      settle_claim_def eff_defs rh_draw_def)

interpretation dry: broker_contract dry_call dry_look dry_ok
proof unfold_locales
  fix b :: "'m robinhood" and ord res evs b'
  assume ok: "dry_ok b" and run: "dry_call ord b = (res, evs, b')"
  show "dry_ok b'"
  proof (cases "dict_get (rh_submitted b) (client_key ord)")
    case None
    from dry_call_new [OF ok None] run show ?thesis
      using ok by (auto simp: dry_ok_def is_dry_id_def split: if_splits)
  qed (use dry_call_known [OF ok] run ok in auto)
next
  fix b :: "'m robinhood" and ord st bid evs b'
  assume ok: "dry_ok b" and st: "dry_look (o_id ord) b = Some st" and run: "dry_call ord b = (Inr bid, evs, b')"
  from st obtain x where x: "dict_get (rh_submitted b) (client_key ord) = Some x" "bs_broker_id st = x"
    by (auto simp: dry_look_def client_key_def filled_status_def split: option.splits)
  with dry_call_known [OF ok] run st show "bid = bs_broker_id st \<and> evs = [] \<and> dry_look (o_id ord) b' = Some st" by auto
next
  fix b :: "'m robinhood" and ord bid evs b'
  assume ok: "dry_ok b" and run: "dry_call ord b = (Inr bid, evs, b')"
  show "\<exists>st. dry_look (o_id ord) b' = Some st \<and> bs_broker_id st = bid"
  proof (cases "dict_get (rh_submitted b) (client_key ord)")
    case None
    from dry_call_new [OF ok None] run show ?thesis by (auto simp: dry_look_def client_key_def filled_status_def)
  next
    case (Some x)
    then obtain y where "dict_get (rh_dry_orders b) x = Some y" using ok by (auto simp: dry_ok_def)
    with dry_call_known [OF ok Some] run Some show ?thesis by (auto simp: dry_look_def client_key_def filled_status_def)
  qed
next
  fix b :: "'m robinhood" and ord st e evs b'
  assume ok: "dry_ok b" and st: "dry_look (o_id ord) b = Some st" and run: "dry_call ord b = (Inl e, evs, b')"
  from st obtain x where x: "dict_get (rh_submitted b) (client_key ord) = Some x"
    by (auto simp: dry_look_def client_key_def split: option.splits)
  from dry_call_known [OF ok x] run show "dry_look (o_id ord) b' = Some st" by simp
qed

subsection \<open>Properties\<close>

definition accepting :: "string \<Rightarrow> (string, jval) dict \<Rightarrow> calls \<Rightarrow> exn + jval" where
  "accepting tool args cs = Inr (VObject [(''id'', VText ''rh1'')])"

text \<open>
  C21 Whatever the endpoint answers, every call the adapter makes names the agentic account, no call is made
  unless live trading is enabled, and an order is placed only with the arguments of an order submitted to it.
\<close>

theorem calls_name_the_agentic_account:
  "\<exists>cs. rh_server (perform_all (recording answer) env ops (new_robinhood (Some []) live n)) = Some cs
    \<and> (\<not> live \<longrightarrow> cs = [])
    \<and> (\<forall>(tool, args)\<in>set cs. dict_get args ''account_number'' = Some (VText agentic_account)
        \<and> (tool = ''place_equity_order'' \<longrightarrow> (\<exists>ord. Op_submit ord \<in> set ops \<and> args = build_order_args (re_text env) ord)))"
proof -
  let ?b = "perform_all (recording answer) env ops (new_robinhood (Some []) live n)"
  have "clean_log env live {ord. Op_submit ord \<in> set ops} ?b"
    by (rule perform_all_clean) (simp_all add: clean_log_def new_robinhood_def)
  then obtain cs where cs: "rh_server ?b = Some cs" "\<And>c. c \<in> set cs \<Longrightarrow> allowed_call env live {ord. Op_submit ord \<in> set ops} c"
    by (auto simp: clean_log_def)
  then have "cs = []" if "\<not> live" using that by (cases cs) (auto simp: allowed_call_def)
  with cs show ?thesis by (intro exI [of _ cs]) (fastforce simp: allowed_call_def)
qed

theorem calls_name_the_agentic_account_witness:
  "\<exists>args. rh_server (perform_all (recording accepting) quiet_env [Op_submit sample_order] (new_robinhood (Some []) True 0))
      = Some [(''review_equity_order'', args), (''place_equity_order'', args)]
    \<and> args = build_order_args (re_text quiet_env) sample_order \<and> dict_get args ''account_number'' = Some (VText agentic_account)
    \<and> rh_server (perform_all (recording accepting) quiet_env [Op_submit sample_order] (new_robinhood (Some []) False 0)) = Some []"
proof -
  let ?b = "\<lambda>live. perform_all (recording accepting) quiet_env [Op_submit sample_order] (new_robinhood (Some []) live 0)"
  let ?args = "build_order_args (re_text quiet_env) sample_order"
  have b: "rh_server (?b True) = Some [(''review_equity_order'', ?args), (''place_equity_order'', ?args)]"
    by (simp add: perform_all_def new_robinhood_def rh_submit_order_def claim_order_def andthen_def place_claimed_def armed_def
        live_submit_def Let_def review_order_def call_tool_def recording_def accepting_def item_def dict_get_or_def either_def
        settle_claim_def)
  show ?thesis
    using calls_name_the_agentic_account [of accepting quiet_env "[Op_submit sample_order]" True 0]
      calls_name_the_agentic_account [of accepting quiet_env "[Op_submit sample_order]" False 0] b by auto
qed

text \<open>
  C22 However threads interleave, no two are placing the same order, a second submission of an order being
  placed is refused without effect, and an id on record for an order is answered for ever without another call.
\<close>

theorem one_placement_at_a_time:
  assumes "(rh_step cl env)\<^sup>*\<^sup>* (new_robinhood server live n, []) (b, hs)"
  shows "distinct (map o_id hs) \<and> (\<forall>ord\<in>set hs. rh_submit_order cl env ord b = (Inl BrokerUnavailable, b))
    \<and> (\<forall>ord bid b' hs'. dict_get (rh_submitted b) (client_key ord) = Some bid \<and> bid \<noteq> inflight \<and> (rh_step cl env)\<^sup>*\<^sup>* (b, hs) (b', hs')
        \<longrightarrow> rh_submit_order cl env ord b' = (Inr bid, b'))"
proof -
  have held: "claims_held (b, hs)"
    by (rule claims_always_held [OF assms]) (simp add: claims_held_def)
  have "rh_submit_order cl env ord c = (Inr bid, c)"
    if "dict_get (rh_submitted c) (client_key ord) = Some bid" "bid \<noteq> inflight" for ord bid c
    using that by (simp add: rh_submit_order_def andthen_def claim_order_def ret_def)
  moreover have "rh_submit_order cl env ord b = (Inl BrokerUnavailable, b)" if "ord \<in> set hs" for ord
    using that held by (simp add: claims_held_def rh_submit_order_def andthen_def claim_order_def)
  moreover have "distinct (map o_id hs)" using held by (simp add: claims_held_def)
  moreover note placed_for_ever [OF _ held, unfolded fst_conv]
  ultimately show ?thesis by (metis fst_conv)
qed

text \<open>Two threads submit, a third submission of the first order comes while both are being placed.\<close>

theorem one_placement_at_a_time_witness:
  "\<exists>b hs. (rh_step (recording accepting) quiet_env)\<^sup>*\<^sup>* (new_robinhood (Some []) True 0, []) (b, hs)
    \<and> hs = [sample_order, sample_order\<lparr>o_id := 7\<rparr>]
    \<and> rh_submit_order (recording accepting) quiet_env sample_order b = (Inl BrokerUnavailable, b)"
proof -
  let ?o = "sample_order\<lparr>o_id := 7\<rparr>"
  define b0 where "b0 = new_robinhood (Some ([] :: calls)) True 0"
  define b1 where "b1 = snd (claim_order sample_order b0)"
  define b2 where "b2 = snd (claim_order ?o b1)"
  have key: "client_key ?o \<noteq> client_key sample_order" by (simp add: client_key_iff) (simp add: sample_order_def)
  have 1: "claim_order sample_order b0 = (Inr None, b1)" "claim_order ?o b1 = (Inr None, b2)"
    using key by (simp_all add: b0_def b1_def b2_def claim_order_def new_robinhood_def)
  have "(rh_step (recording accepting) quiet_env)\<^sup>*\<^sup>* (b0, []) (b2, [sample_order, ?o])"
    using step_claim [OF 1(1), of "recording accepting" quiet_env "[]"] step_claim [OF 1(2), of "recording accepting" quiet_env "[sample_order]"]
    by (simp add: converse_rtranclp_into_rtranclp)
  with one_placement_at_a_time [OF this [unfolded b0_def]] show ?thesis unfolding b0_def by (intro exI conjI) auto
qed

text \<open>
  If the process restarts while the endpoint cannot list orders, or in dry-run mode, recovery abandons
  every order that was pending, submitted or accepted: it ends rejected, though the broker may hold it.
\<close>

lemma outage_at_recovery_rejects_open_orders:
  assumes "oms_wf s"
    and "\<not> armed b \<or> (\<exists>m e m'. rh_server b = Some m \<and> cl ''get_equity_orders'' account_args m = (Inl e, m'))"
  shows "\<exists>r t. reconcile_open_orders (\<lambda>oid. fst (rh_find_order cl env now oid b)) s = (Inr r, t)
    \<and> (\<forall>oid ord. get_order oid s = Some ord \<longrightarrow> (\<exists>ord'. get_order oid t = Some ord'
        \<and> (o_state ord \<in> {PENDING, SUBMITTED, ACCEPTED} \<longrightarrow> o_state ord' = REJECTED)))"
proof -
  have "orders_unreadable cl b"
    using assms(2) by (auto simp: orders_unreadable_def call_tool_def isl_def)
  moreover have "rh_look cl env now b = (\<lambda>oid. fst (rh_find_order cl env now oid b))"
    by (simp add: rh_look_def fun_eq_iff)
  ultimately show ?thesis using unreadable_recovery [OF assms(1), of cl b env now] by simp
qed

lemma outage_at_recovery_rejects_open_orders_example:
  "\<exists>r t ord'. reconcile_open_orders (\<lambda>oid. fst (rh_find_order (\<lambda>_ _ m. (Inl BrokerUnavailable, m)) quiet_env 0 oid
        (new_robinhood (Some ()) True 0))) sample_oms = (Inr r, t)
    \<and> get_order 1 t = Some ord' \<and> o_state ord' = REJECTED \<and> o_state sample_accepted = ACCEPTED"
proof -
  have "rh_server (new_robinhood (Some ()) True 0) = Some ()" by (simp add: new_robinhood_def)
  then obtain r t where t: "reconcile_open_orders (\<lambda>oid. fst (rh_find_order (\<lambda>_ _ m. (Inl BrokerUnavailable, m)) quiet_env 0 oid
        (new_robinhood (Some ()) True 0))) sample_oms = (Inr r, t)"
      "\<And>oid ord. get_order oid sample_oms = Some ord \<Longrightarrow> \<exists>ord'. get_order oid t = Some ord'
        \<and> (o_state ord \<in> {PENDING, SUBMITTED, ACCEPTED} \<longrightarrow> o_state ord' = REJECTED)"
    using outage_at_recovery_rejects_open_orders [OF sample_oms_wf, of "new_robinhood (Some ()) True 0"
      "\<lambda>_ _ m. (Inl BrokerUnavailable, m)" quiet_env 0] by auto
  have a: "o_state sample_accepted = ACCEPTED" by (simp add: sample_accepted_def)
  have "get_order 1 sample_oms = Some sample_accepted" unfolding get_order_def by (rule sample_oms_order(1))
  from t(2) [OF this] a t(1) show ?thesis by auto
qed

text \<open>
  C25 If the answer to a placement carries no id at its top level -- whatever it says inside, and the endpoint puts the id of an
  accepted order inside the \<^verbatim>\<open>data\<close> envelope -- the adapter raises a rejection and forgets the order, and the order system
  makes it rejected for good: it is so after every later run of OMS calls, though the order is live at the broker.
\<close>

theorem accepted_order_ends_rejected:
  assumes "armed b" "rh_server b = Some m" "dict_get (rh_submitted b) (client_key ord) = None" "o_state ord = PENDING"
    and "oms_wf s" "get_order (o_id ord) s = None" "no_outer_id d"
    and "cl ''place_equity_order'' (build_order_args (re_text env) ord) (snd (cl ''review_equity_order'' (build_order_args (re_text env) ord) m))
      = (Inr (VObject d), m')"
    and "oms_run (snd (submit_order (\<lambda>_. ([], fst (rh_submit_order cl env ord b))) ord s)) u"
  shows "\<exists>e b' ord'. rh_submit_order cl env ord b = (Inl (BrokerRejection e), b')
    \<and> rh_server b' = Some m' \<and> dict_get (rh_submitted b') (client_key ord) = None
    \<and> get_order (o_id ord) u = Some ord' \<and> o_state ord' = REJECTED"
proof -
  obtain e where e: "rh_submit_order cl env ord b = (Inl (BrokerRejection e),
      b\<lparr>rh_server := Some m', rh_submitted := dict_del (client_key ord) (dict_set (client_key ord) inflight (rh_submitted b))\<rparr>)"
    using enveloped_is_refused [of b m ord d cl env m', OF assms(1-3,7,8)] by blast
  let ?t = "snd (submit_order (\<lambda>_. ([], fst (rh_submit_order cl env ord b))) ord s)"
  obtain x where x: "get_order (o_id ord) ?t = Some x" "o_state x = REJECTED"
    using refused_is_rejected [OF assms(4), of e s] by (auto simp: e)
  have "good_step s ?t" by (rule good_submit) (use assms(6) in \<open>simp add: get_order_def\<close>)
  then have "oms_wf ?t" using assms(5) by (simp add: good_step_def)
  then have "evolves ?t u" using good_oms_run [OF assms(9)] by (simp add: good_step_def)
  then obtain ord' where "get_order (o_id ord) u = Some ord'" "o_state ord' = REJECTED"
    using x by (fastforce simp: evolves_def order_evolves_def get_order_def)
  then show ?thesis by (simp add: e)
qed

theorem accepted_order_ends_rejected_witness:
  "\<exists>ord'. get_order 1 (snd (on_broker_event \<lparr>be_broker_id = ''rh1'', be_client_id = 1, be_state = B_ACCEPTED,
       be_fill = None, be_reason = None, be_timestamp = None\<rparr>
     (snd (submit_order (\<lambda>_. ([], fst (rh_submit_order (\<lambda>_ _ m. (Inr (accepted_as ''rh1''), m)) quiet_env sample_order
        (new_robinhood (Some ()) True 0)))) sample_order (new_oms [] 10 0))))) = Some ord' \<and> o_state ord' = REJECTED"
proof -
  let ?b = "new_robinhood (Some ()) True 0"
  let ?d = "[(''data'', VObject [(''id'', VText ''rh1'')]), (''guide'', VText ''order placed'')]"
  have b: "armed ?b" "rh_server ?b = Some ()" "dict_get (rh_submitted ?b) (client_key sample_order) = None"
    and o: "o_state sample_order = PENDING" "o_id sample_order = 1"
    by (simp_all add: armed_def new_robinhood_def sample_order_def)
  have w: "oms_wf (new_oms [] 10 0)" by (rule new_oms_wf) (simp add: readable_def)
  have n: "get_order (o_id sample_order) (new_oms [] 10 0) = None" by (simp add: get_order_def new_oms_def)
  have d: "no_outer_id ?d" by (simp add: no_outer_id_def item_def dict_get_or_def)
  let ?cl = "\<lambda>_ _ m. (Inr (VObject ?d), m)"
  let ?t = "snd (submit_order (\<lambda>_. ([], fst (rh_submit_order ?cl quiet_env sample_order ?b))) sample_order (new_oms [] 10 0))"
  let ?args = "build_order_args (re_text quiet_env) sample_order"
  have place: "?cl ''place_equity_order'' ?args (snd (?cl ''review_equity_order'' ?args ())) = (Inr (VObject ?d), ())" by simp
  have run: "oms_run ?t (snd (on_broker_event ev ?t))" for ev by (rule run_step [OF run_refl step_event])
  from accepted_order_ends_rejected [of ?b "()" sample_order "new_oms [] 10 0" ?d ?cl quiet_env "()", OF b o(1) w n d place run]
  show ?thesis unfolding accepted_as_def o(2) by metis
qed

end
