(* ===== verification/Alpaca.thy ===== *)
theory Alpaca
  imports Agents Reconciler Lots
begin

text \<open>
  The adapter for Alpaca, \<^verbatim>\<open>execution/alpaca_broker.py\<close>: tables of states, submission with the
  look-up after a duplicate id, queries, and the two translations of an order's progress, from a
  polled order and from an event of the trade stream. The client library is a parameter,
  \<open>alpaca_api\<close>: a call answers, raises \<^verbatim>\<open>APIError\<close> with a status code, a \<^verbatim>\<open>RequestException\<close>,
  or anything else. Its objects are records of the attributes the code reads; an enumeration
  stands for its value, a number, taken to be finite, for what \<^verbatim>\<open>Decimal(str(v))\<close> reads. \<open>uuid_of\<close> is \<^verbatim>\<open>uuid.UUID\<close>,
  \<open>fl\<close> the nearest double.
\<close>

subsection \<open>The client library\<close>

record alpaca_order =
  ao_id :: string
  ao_client_id :: "string option"
  ao_symbol :: "string option"
  ao_status :: "string option"
  ao_side :: "string option"
  ao_asset_class :: "string option"
  ao_qty :: jval
  ao_filled_qty :: jval
  ao_avg_price :: jval
  ao_submitted_at :: "datetime option"
  ao_updated_at :: "datetime option"

record alpaca_position =
  ap_symbol :: "string option"
  ap_asset_class :: "string option"
  ap_side :: "string option"
  ap_qty :: jval
  ap_avg_entry_price :: jval
  ap_current_price :: jval

record trade_account =
  ta_cash :: jval
  ta_equity :: jval
  ta_buying_power :: jval
  ta_pattern_day_trader :: "bool option"
  ta_daytrade_count :: "int option"

record trade_update =
  tu_order :: alpaca_order
  tu_event :: string
  tu_timestamp :: "datetime option"
  tu_price :: jval
  tu_qty :: jval

record alpaca_request =
  rq_symbol :: symbol
  rq_qty :: decimal
  rq_side :: order_side
  rq_tif :: time_in_force
  rq_client_id :: string
  rq_limit_price :: "decimal option"

datatype 'a reply = Reply 'a | Api_error "int option" string | Network_error | Other_error exn

record 'm alpaca_api =
  api_submit :: "alpaca_request \<Rightarrow> 'm \<Rightarrow> alpaca_order reply \<times> 'm"
  api_cancel :: "string \<Rightarrow> 'm \<Rightarrow> unit reply \<times> 'm"
  api_by_id :: "string \<Rightarrow> 'm \<Rightarrow> alpaca_order reply \<times> 'm"
  api_by_client_id :: "string \<Rightarrow> 'm \<Rightarrow> alpaca_order reply \<times> 'm"
  api_positions :: "'m \<Rightarrow> alpaca_position list reply \<times> 'm"
  api_account :: "'m \<Rightarrow> trade_account reply \<times> 'm"

subsection \<open>Tables\<close>

definition alpaca_states :: "(string, broker_order_state) dict" where
  "alpaca_states = [(''new'', B_NEW), (''pending_new'', B_NEW), (''held'', B_NEW), (''accepted'', B_ACCEPTED),
     (''accepted_for_bidding'', B_ACCEPTED), (''pending_cancel'', B_ACCEPTED), (''pending_replace'', B_ACCEPTED),
     (''calculated'', B_ACCEPTED), (''stopped'', B_ACCEPTED), (''partially_filled'', B_PARTIALLY_FILLED),
     (''filled'', B_FILLED), (''done_for_day'', B_EXPIRED), (''canceled'', B_CANCELED), (''replaced'', B_CANCELED),
     (''expired'', B_EXPIRED), (''rejected'', B_REJECTED), (''suspended'', B_REJECTED)]"

definition trade_event_states :: "(string, broker_order_state) dict" where
  "trade_event_states = [(''new'', B_NEW), (''pending_new'', B_NEW), (''accepted'', B_ACCEPTED),
     (''partial_fill'', B_PARTIALLY_FILLED), (''fill'', B_FILLED), (''canceled'', B_CANCELED), (''expired'', B_EXPIRED),
     (''rejected'', B_REJECTED), (''replaced'', B_CANCELED), (''pending_cancel'', B_ACCEPTED),
     (''pending_replace'', B_ACCEPTED), (''restated'', B_ACCEPTED)]"

definition crypto_taker_fee :: decimal where "crypto_taker_fee = 25 / 10000"

definition alpaca_asset_classes :: "(string, asset_class) dict" where
  "alpaca_asset_classes = [(''us_equity'', EQUITY), (''us_option'', OPTION), (''crypto'', CRYPTO), (''crypto_perp'', CRYPTO)]"

definition alpaca_crypto_symbols :: "symbol list" where
  "alpaca_crypto_symbols = [''BTCUSD'', ''ETHUSD'', ''SOLUSD'']"

definition is_crypto_symbol :: "symbol \<Rightarrow> bool" where
  "is_crypto_symbol s \<longleftrightarrow> s \<in> set alpaca_crypto_symbols \<or> CHR ''/'' \<in> set s"

definition to_alpaca_tif :: "time_in_force \<Rightarrow> symbol \<Rightarrow> time_in_force" where
  "to_alpaca_tif tif s = (if is_crypto_symbol s \<and> tif = DAY then GTC else tif)"

definition alpaca_decimal :: "jval \<Rightarrow> exn + decimal" where
  "alpaca_decimal v = (if v = VNull then Inr 0 else py_decimal v)"

definition net_of_fee :: "decimal \<Rightarrow> decimal" where
  "net_of_fee q = dmul q (dsub 1 crypto_taker_fee)"

definition opt_text :: "string option \<Rightarrow> string" where
  "opt_text s = (case s of None \<Rightarrow> [] | Some t \<Rightarrow> t)"

text \<open>The fee of a crypto purchase is taken in kind.\<close>

definition pays_in_kind :: "alpaca_order \<Rightarrow> order_side \<Rightarrow> bool" where
  "pays_in_kind ao side \<longleftrightarrow> dict_get alpaca_asset_classes (opt_text (ao_asset_class ao)) = Some CRYPTO \<and> side = BUY"

subsection \<open>Translators\<close>

fun side_of_text :: "string option \<Rightarrow> exn + order_side" where
  "side_of_text None = Inr BUY"
| "side_of_text (Some t) = (if t = [] then Inr BUY else if t = ''buy'' then Inr BUY else if t = ''sell'' then Inr SELL else Inl ValueError)"

definition price_of :: "jval \<Rightarrow> exn + decimal option" where
  "price_of v = (if truthy v then bindr (alpaca_decimal v) (\<lambda>d. Inr (Some d)) else Inr None)"

definition at_or :: "datetime \<Rightarrow> datetime option \<Rightarrow> datetime" where
  "at_or now t = (case t of None \<Rightarrow> now | Some ts \<Rightarrow> ts)"

definition al_translate_order :: "(string \<Rightarrow> uuid option) \<Rightarrow> datetime \<Rightarrow> alpaca_order \<Rightarrow> exn + order_status" where
  "al_translate_order uuid_of now ao =
     bindr (side_of_text (ao_side ao)) (\<lambda>side.
     bindr (alpaca_decimal (ao_filled_qty ao)) (\<lambda>gross.
     bindr (alpaca_decimal (ao_qty ao)) (\<lambda>qty.
     bindr (price_of (ao_avg_price ao)) (\<lambda>price.
     Inr \<lparr>bs_broker_id = ao_id ao,
       bs_client_id = (case uuid_of (opt_text (ao_client_id ao)) of Some u \<Rightarrow> u | None \<Rightarrow> 0),
       bs_symbol = opt_text (ao_symbol ao), bs_side = side, bs_qty = qty,
       bs_filled_qty = (if pays_in_kind ao side then net_of_fee gross else gross),
       bs_avg_fill_price = price,
       bs_state = dict_get_or alpaca_states (case ao_status ao of None \<Rightarrow> ''unknown'' | Some t \<Rightarrow> t) B_UNKNOWN,
       bs_submitted_at = at_or now (ao_submitted_at ao), bs_updated_at = at_or now (ao_updated_at ao),
       bs_rejection_reason = None\<rparr>))))"

definition al_translate_position :: "alpaca_position \<Rightarrow> exn + broker_position" where
  "al_translate_position p =
     bindr (alpaca_decimal (ap_qty p)) (\<lambda>qty.
     bindr (alpaca_decimal (ap_avg_entry_price p)) (\<lambda>entry.
     bindr (alpaca_decimal (ap_current_price p)) (\<lambda>price.
     Inr \<lparr>bp_symbol = opt_text (ap_symbol p), bp_qty = (if ap_side p = Some ''short'' then dneg qty else qty),
       bp_avg_entry_price = entry, bp_current_price = price,
       bp_asset_class = dict_get_or alpaca_asset_classes (case ap_asset_class p of None \<Rightarrow> ''us_equity'' | Some t \<Rightarrow> t) EQUITY\<rparr>)))"

fun al_translate_positions :: "alpaca_position list \<Rightarrow> exn + broker_position list" where
  "al_translate_positions [] = Inr []"
| "al_translate_positions (p # ps) =
     bindr (al_translate_position p) (\<lambda>q. bindr (al_translate_positions ps) (\<lambda>qs. Inr (q # qs)))"

subsection \<open>Calls\<close>

type_synonym order_meta = "(string, agent_id \<times> order_id \<times> symbol \<times> order_side) dict"

record 'm alpaca =
  al_client :: 'm
  al_meta :: order_meta
  al_callback :: bool
  al_fresh :: uuid

definition new_alpaca :: "'m \<Rightarrow> uuid \<Rightarrow> 'm alpaca" where
  "new_alpaca m n = \<lparr>al_client = m, al_meta = [], al_callback = False, al_fresh = n\<rparr>"

definition al_register_callback :: "'m alpaca \<Rightarrow> 'm alpaca" where
  "al_register_callback b = b\<lparr>al_callback := True\<rparr>"

text \<open>The status codes that mean a rejection, and the errors of a call.\<close>

definition rejecting :: "int option \<Rightarrow> bool" where
  "rejecting code \<longleftrightarrow> code \<in> {Some 400, Some 403, Some 404, Some 422}"

definition api_call :: "('m \<Rightarrow> 'a reply \<times> 'm) \<Rightarrow> 'm alpaca \<Rightarrow> 'a reply \<times> 'm alpaca" where
  "api_call call b = (case call (al_client b) of (r, m) \<Rightarrow> (r, b\<lparr>al_client := m\<rparr>))"

definition al_find_order ::
  "'m alpaca_api \<Rightarrow> (string \<Rightarrow> uuid option) \<Rightarrow> datetime \<Rightarrow> order_id \<Rightarrow> ('m alpaca, order_status option) eff" where
  "al_find_order api uuid_of now oid b = (case api_call (api_by_client_id api (uuid_text oid)) b of
       (Reply ao, b') \<Rightarrow> (bindr (al_translate_order uuid_of now ao) (\<lambda>st. Inr (Some st)), b')
     | (Api_error code msg, b') \<Rightarrow> (if code = Some 404 then Inr None else Inl BrokerUnavailable, b')
     | (Network_error, b') \<Rightarrow> (Inl BrokerUnavailable, b')
     | (Other_error e, b') \<Rightarrow> (Inl e, b'))"

definition al_get_order ::
  "'m alpaca_api \<Rightarrow> (string \<Rightarrow> uuid option) \<Rightarrow> datetime \<Rightarrow> string \<Rightarrow> ('m alpaca, order_status) eff" where
  "al_get_order api uuid_of now bid b = (case api_call (api_by_id api bid) b of
       (Reply ao, b') \<Rightarrow> (al_translate_order uuid_of now ao, b')
     | (Api_error code msg, b') \<Rightarrow>
         (Inl (if code = Some 404 then BrokerRejection (''Order '' @ bid @ '' not found'') else BrokerUnavailable), b')
     | (Network_error, b') \<Rightarrow> (Inl BrokerUnavailable, b')
     | (Other_error e, b') \<Rightarrow> (Inl e, b'))"

definition al_cancel_order :: "'m alpaca_api \<Rightarrow> string \<Rightarrow> ('m alpaca, unit) eff" where
  "al_cancel_order api bid b = (case api_call (api_cancel api bid) b of
       (Reply _, b') \<Rightarrow> (Inr (), b')
     | (Api_error code msg, b') \<Rightarrow> (Inl (if rejecting code then BrokerRejection msg else BrokerUnavailable), b')
     | (Network_error, b') \<Rightarrow> (Inl BrokerUnavailable, b')
     | (Other_error e, b') \<Rightarrow> (Inl e, b'))"

definition al_list_positions :: "'m alpaca_api \<Rightarrow> ('m alpaca, broker_position list) eff" where
  "al_list_positions api b = (case api_call (api_positions api) b of
       (Reply ps, b') \<Rightarrow> (al_translate_positions ps, b')
     | (Api_error _ _, b') \<Rightarrow> (Inl BrokerUnavailable, b')
     | (Network_error, b') \<Rightarrow> (Inl BrokerUnavailable, b')
     | (Other_error e, b') \<Rightarrow> (Inl e, b'))"

definition al_account_of :: "trade_account \<Rightarrow> exn + broker_account" where
  "al_account_of a =
     bindr (alpaca_decimal (ta_cash a)) (\<lambda>cash.
     bindr (alpaca_decimal (ta_equity a)) (\<lambda>equity.
     bindr (alpaca_decimal (ta_buying_power a)) (\<lambda>bp.
     Inr \<lparr>ba_cash = cash, ba_equity = equity, ba_buying_power = bp,
       ba_pattern_day_trader = (ta_pattern_day_trader a = Some True),
       ba_daytrade_count = (case ta_daytrade_count a of None \<Rightarrow> 0 | Some n \<Rightarrow> n)\<rparr>)))"

definition al_get_account :: "'m alpaca_api \<Rightarrow> ('m alpaca, broker_account) eff" where
  "al_get_account api b = (case api_call (api_account api) b of
       (Reply a, b') \<Rightarrow> (al_account_of a, b')
     | (Api_error _ _, b') \<Rightarrow> (Inl BrokerUnavailable, b')
     | (Network_error, b') \<Rightarrow> (Inl BrokerUnavailable, b')
     | (Other_error e, b') \<Rightarrow> (Inl e, b'))"

subsection \<open>Submission\<close>

definition request_of :: "(decimal \<Rightarrow> decimal) \<Rightarrow> order \<Rightarrow> exn + alpaca_request" where
  "request_of fl ord =
     (let req = \<lparr>rq_symbol = o_symbol ord, rq_qty = fl (o_qty ord), rq_side = o_side ord,
        rq_tif = to_alpaca_tif (o_time_in_force ord) (o_symbol ord), rq_client_id = uuid_text (o_id ord),
        rq_limit_price = None\<rparr>
      in case o_order_type ord of
           MARKET \<Rightarrow> Inr req
         | LIMIT \<Rightarrow> (case o_limit_price ord of
               None \<Rightarrow> Inl (BrokerRejection ''LIMIT order missing limit_price'')
             | Some p \<Rightarrow> Inr (req\<lparr>rq_limit_price := Some (fl p)\<rparr>))
         | _ \<Rightarrow> Inl (BrokerRejection ''AlpacaBroker: order_type not yet supported''))"

definition remember_meta :: "order \<Rightarrow> 'm alpaca \<Rightarrow> 'm alpaca" where
  "remember_meta ord b =
     b\<lparr>al_meta := dict_set (uuid_text (o_id ord)) (o_agent_id ord, o_id ord, o_symbol ord, o_side ord) (al_meta b)\<rparr>"

definition refused_submit :: "int option \<Rightarrow> string \<Rightarrow> ('m alpaca, string) eff" where
  "refused_submit code msg = raise (if rejecting code then BrokerRejection msg else BrokerUnavailable)"

definition al_submit_order ::
  "'m alpaca_api \<Rightarrow> (string \<Rightarrow> uuid option) \<Rightarrow> (decimal \<Rightarrow> decimal) \<Rightarrow> datetime \<Rightarrow> order \<Rightarrow> ('m alpaca, string) eff" where
  "al_submit_order api uuid_of fl now ord b0 =
     (let b = remember_meta ord b0 in
      case request_of fl ord of
        Inl e \<Rightarrow> (Inl e, b)
      | Inr req \<Rightarrow> (case api_call (api_submit api req) b of
            (Reply ao, b') \<Rightarrow> (Inr (ao_id ao), b')
          | (Api_error code msg, b') \<Rightarrow>
              if code = Some 422
              then andthen (al_find_order api uuid_of now (o_id ord)) (\<lambda>found. case found of
                     Some st \<Rightarrow> ret (bs_broker_id st)
                   | None \<Rightarrow> refused_submit code msg) b'
              else refused_submit code msg b'
          | (Network_error, b') \<Rightarrow> (Inl BrokerUnavailable, b')
          | (Other_error e, b') \<Rightarrow> (Inl e, b')))"

subsection \<open>The trade stream\<close>

definition has_fill :: "trade_update \<Rightarrow> bool" where
  "has_fill u \<longleftrightarrow> tu_event u \<in> {''fill'', ''partial_fill''} \<and> truthy (tu_price u) \<and> truthy (tu_qty u)"

text \<open>An order the adapter did not submit itself, in this process, counts as a purchase of Haiku's.\<close>

definition meta_agent :: "order_meta \<Rightarrow> string \<Rightarrow> agent_id" where
  "meta_agent ms k = (case dict_get ms k of Some (a, _) \<Rightarrow> a | None \<Rightarrow> HAIKU)"

definition meta_side :: "order_meta \<Rightarrow> string \<Rightarrow> order_side" where
  "meta_side ms k = (case dict_get ms k of Some (_, _, _, side) \<Rightarrow> side | None \<Rightarrow> BUY)"

definition streamed_fill :: "order_meta \<Rightarrow> fill_id \<Rightarrow> order_id \<Rightarrow> datetime \<Rightarrow> trade_update \<Rightarrow> exn + fill" where
  "streamed_fill ms fid oid ts u =
     (let ao = tu_order u; k = opt_text (ao_client_id ao); side = meta_side ms k in
      bindr (alpaca_decimal (tu_qty u)) (\<lambda>gross.
      bindr (alpaca_decimal (tu_price u)) (\<lambda>price.
      Inr \<lparr>f_id = fid, f_order_id = oid, f_agent_id = meta_agent ms k, f_symbol = opt_text (ao_symbol ao), f_side = side,
        f_qty = (if pays_in_kind ao side then net_of_fee gross else gross), f_price = price, f_timestamp = ts,
        f_commission = 0, f_is_partial = (tu_event u = ''partial_fill'')\<rparr>)))"

definition streamed_event :: "order_id \<Rightarrow> datetime \<Rightarrow> trade_update \<Rightarrow> fill option \<Rightarrow> order_event_msg" where
  "streamed_event oid ts u f = \<lparr>be_broker_id = ao_id (tu_order u), be_client_id = oid,
     be_state = dict_get_or trade_event_states (tu_event u) B_UNKNOWN, be_fill = f, be_reason = None,
     be_timestamp = Some ts\<rparr>"

text \<open>A malformed client id or any exception drops the update.\<close>

definition trade_update_to_event ::
  "(string \<Rightarrow> uuid option) \<Rightarrow> datetime \<Rightarrow> trade_update \<Rightarrow> 'm alpaca \<Rightarrow> order_event_msg option \<times> 'm alpaca" where
  "trade_update_to_event uuid_of now u b =
     (case uuid_of (opt_text (ao_client_id (tu_order u))) of
        None \<Rightarrow> (None, b)
      | Some oid \<Rightarrow>
          (let ts = at_or now (tu_timestamp u) in
           if has_fill u
           then (case streamed_fill (al_meta b) (al_fresh b) oid ts u of
                   Inl _ \<Rightarrow> (None, b)
                 | Inr f \<Rightarrow> (Some (streamed_event oid ts u (Some f)), b\<lparr>al_fresh := Suc (al_fresh b)\<rparr>))
           else (Some (streamed_event oid ts u None), b)))"

text \<open>The subscriber: an update reaches the registered callback, here the order system.\<close>

definition on_update ::
  "(string \<Rightarrow> uuid option) \<Rightarrow> datetime \<Rightarrow> trade_update \<Rightarrow> 'm alpaca \<times> oms \<Rightarrow> 'm alpaca \<times> oms" where
  "on_update uuid_of now u st =
     (if \<not> al_callback (fst st) then st
      else (case trade_update_to_event uuid_of now u (fst st) of
          (None, b) \<Rightarrow> (b, snd st)
        | (Some ev, b) \<Rightarrow> (b, snd (on_broker_event ev (snd st)))))"

subsection \<open>A streamed fill\<close>

lemma handle_streamed:
  assumes wf: "oms_wf s" and ord: "dict_get (om_orders s) oid = Some ord" and avg: "average_price ord (canonical_fill ord f) = Inr avg"
  shows "\<exists>t cur. handle_fill oid f ts s = (Inr (), t) \<and> get_fills oid t = get_fills oid s @ [canonical_fill ord f]
    \<and> get_order oid t = Some cur \<and> o_filled_qty cur = dadd (o_filled_qty ord) (f_qty f) \<and> o_side cur = o_side ord
    \<and> o_filled_avg_price cur = Some avg \<and> FillReceived (canonical_fill ord f) \<in> set (om_bus t) \<and> oms_wf t"
proof -
  obtain m fs where m: "dict_get (om_fsms s) oid = Some m" "m_table m = order_table" "m_state m = o_state ord" "dict_get (om_fills s) oid = Some fs"
    using wf ord(1) by (auto elim: oms_wfD)
  let ?f = "canonical_fill ord f"
  have q: "f_qty ?f = f_qty f" by (simp add: canonical_fill_def Let_def)
  let ?t = "(after_fill oid ord m fs ?f avg ts s)\<lparr>om_bus := om_bus (after_fill oid ord m fs ?f avg ts s) @ [FillReceived ?f]\<rparr>"
  have run: "handle_fill oid f ts s = (Inr (), ?t)"
    by (simp add: handle_fill_run [OF ord(1) m(1,2,4)] Let_def avg)
  have "get_order oid ?t = Some ((filled_order ord ?f avg ts)\<lparr>o_state := order_life.advance (o_state ord) (fill_event ord ?f)\<rparr>)"
    unfolding get_order_def after_fill_def
    by (simp, subst moved_order [where ord = "filled_order ord ?f avg ts"]) (simp_all add: m(3) filled_order_def)
  moreover have "get_fills oid ?t = get_fills oid s @ [?f]"
    using m(4) by (simp add: get_fills_def dict_get_or_def after_fill_def)
  moreover have "oms_wf ?t"
    using good_opD [OF good_handle_fill, of s oid f ts] wf run by (simp add: good_step_def)
  ultimately show ?thesis using run q by (auto simp: filled_order_def)
qed

text \<open>The average of a first fill is its price; that of a later one exists where something is filled.\<close>

lemma average_exists:
  assumes "0 \<le> o_filled_qty ord" "0 < f_qty f"
  shows "\<exists>avg. average_price ord f = Inr avg"
  using assms by (auto simp: average_price_def ddiv_chk_def dadd_def dround_zero_iff split: option.split)

definition order_update :: "(string \<Rightarrow> uuid option) \<Rightarrow> order_id \<Rightarrow> trade_update \<Rightarrow> decimal \<Rightarrow> decimal \<Rightarrow> bool" where
  "order_update uuid_of oid u q p \<longleftrightarrow> ao_client_id (tu_order u) = Some (uuid_text oid) \<and> uuid_of (uuid_text oid) = Some oid
     \<and> has_fill u \<and> alpaca_decimal (tu_qty u) = Inr q \<and> alpaca_decimal (tu_price u) = Inr p"

lemma fill_states:
  "has_fill u \<Longrightarrow> dict_get_or trade_event_states (tu_event u) B_UNKNOWN \<in> {B_FILLED, B_PARTIALLY_FILLED}"
  by (auto simp: has_fill_def trade_event_states_def dict_get_or_def)

lemma on_update_fill:
  assumes "al_callback b" "order_update uuid_of oid u q p" "dict_get (om_orders s) oid = Some ord"
  shows "\<exists>f ts. on_update uuid_of now u (b, s) = (b\<lparr>al_fresh := Suc (al_fresh b)\<rparr>, snd (handle_fill oid f ts s))
    \<and> f_id f = al_fresh b \<and> f_side f = meta_side (al_meta b) (uuid_text oid) \<and> f_price f = p
    \<and> f_qty f = (if pays_in_kind (tu_order u) (meta_side (al_meta b) (uuid_text oid)) then net_of_fee q else q)"
proof -
  let ?ts = "at_or now (tu_timestamp u)"
  obtain f where f: "streamed_fill (al_meta b) (al_fresh b) oid ?ts u = Inr f" "f_id f = al_fresh b"
    "f_side f = meta_side (al_meta b) (uuid_text oid)" "f_price f = p"
    "f_qty f = (if pays_in_kind (tu_order u) (meta_side (al_meta b) (uuid_text oid)) then net_of_fee q else q)"
    using assms(2) by (simp add: streamed_fill_def order_update_def Let_def opt_text_def)
  have "trade_update_to_event uuid_of now u b = (Some (streamed_event oid ?ts u (Some f)), b\<lparr>al_fresh := Suc (al_fresh b)\<rparr>)"
    using assms(2) f(1) by (simp add: trade_update_to_event_def order_update_def opt_text_def)
  moreover have "on_broker_event (streamed_event oid ?ts u (Some f)) s = handle_fill oid f ?ts s"
    using fill_states [of u] assms(2,3) by (auto simp: on_broker_event_def streamed_event_def order_update_def Let_def)
  ultimately have "on_update uuid_of now u (b, s) = (b\<lparr>al_fresh := Suc (al_fresh b)\<rparr>, snd (handle_fill oid f ?ts s))"
    using assms(1) by (simp add: on_update_def)
  with f(2-5) show ?thesis by blast
qed

lemma book_purchase:
  assumes "ledger_ok g" "f_id f \<notin> lg_booked g" "f_side f = BUY"
  shows "\<exists>l. all_lots (book_fill f meth g) = all_lots g @ [l] \<and> l_agent_id l = f_agent_id f
    \<and> l_symbol l = normalize_symbol (f_symbol f) \<and> l_qty l = f_qty f \<and> \<not> l_is_closed l"
proof -
  have "lg_next g \<notin> fst ` set (lg_lots g)" using assms(1) by (fastforce simp: ledger_ok_def lots_ok_def)
  then show ?thesis
    using assms by (auto simp: book_fill_def open_lot_def Let_def all_lots_def dict_set_fresh lot_post_init_def)
qed

subsection \<open>Properties\<close>

text \<open>
  After a restart the adapter no longer knows the orders it submitted: the first streamed fill of a sale is
  recorded as a purchase of the same symbol by the same agent, and the ledger opens a lot for it.
\<close>

lemma restarted_sale_is_booked_as_purchase:
  assumes "oms_wf s" "get_order oid s = Some ord" "o_side ord = SELL" "o_filled_avg_price ord = None"
    and "al_callback b" "order_update uuid_of oid u q p" "dict_get (al_meta b) (uuid_text oid) = None"
    and "ledger_ok g" "al_fresh b \<notin> lg_booked g"
  shows "\<exists>b' t f l. on_update uuid_of now u (b, s) = (b', t) \<and> get_fills oid t = get_fills oid s @ [f]
    \<and> FillReceived f \<in> set (om_bus t) \<and> f_side f = BUY \<and> f_agent_id f = o_agent_id ord \<and> f_symbol f = o_symbol ord
    \<and> all_lots (book_fill f meth g) = all_lots g @ [l] \<and> l_agent_id l = o_agent_id ord
    \<and> l_symbol l = normalize_symbol (o_symbol ord) \<and> l_qty l = f_qty f \<and> \<not> l_is_closed l"
proof -
  have ord: "dict_get (om_orders s) oid = Some ord" using assms(2) by (simp add: get_order_def)
  obtain f ts where f: "on_update uuid_of now u (b, s) = (b\<lparr>al_fresh := Suc (al_fresh b)\<rparr>, snd (handle_fill oid f ts s))"
    "f_id f = al_fresh b" "f_side f = BUY"
    using on_update_fill [OF assms(5,6) ord, of now] assms(7) by (auto simp: meta_side_def)
  let ?f = "canonical_fill ord f"
  have c: "f_id ?f = al_fresh b" "f_side ?f = BUY" "f_agent_id ?f = o_agent_id ord" "f_symbol ?f = o_symbol ord"
    by (simp_all add: canonical_fill_def Let_def f(2,3))
  have "average_price ord ?f = Inr (f_price ?f)" by (simp add: average_price_def assms(4))
  then obtain t where t: "handle_fill oid f ts s = (Inr (), t)" "get_fills oid t = get_fills oid s @ [?f]" "FillReceived ?f \<in> set (om_bus t)"
    using handle_streamed [OF assms(1) ord] by blast
  from book_purchase [OF assms(8), of ?f meth] assms(9) c obtain l where
    "all_lots (book_fill ?f meth g) = all_lots g @ [l]" "l_agent_id l = o_agent_id ord"
    "l_symbol l = normalize_symbol (o_symbol ord)" "l_qty l = f_qty ?f" "\<not> l_is_closed l" by auto
  with f(1) t c show ?thesis by auto
qed

definition sell_order :: order where
  "sell_order = sample_accepted\<lparr>o_side := SELL\<rparr>"

definition selling_oms :: oms where
  "selling_oms = sample_oms\<lparr>om_orders := [(1, sell_order)]\<rparr>"

definition full_update :: trade_update where
  "full_update = \<lparr>tu_order = \<lparr>ao_id = ''b1'', ao_client_id = Some (uuid_text 1), ao_symbol = Some ''SPY'', ao_status = Some ''filled'',
     ao_side = Some ''sell'', ao_asset_class = Some ''us_equity'', ao_qty = VInt 2, ao_filled_qty = VInt 2, ao_avg_price = VInt 100,
     ao_submitted_at = None, ao_updated_at = None\<rparr>, tu_event = ''fill'', tu_timestamp = None, tu_price = VInt 100, tu_qty = VInt 2\<rparr>"

lemma restarted_sale_is_booked_as_purchase_example:
  "\<exists>b' t f. on_update (\<lambda>_. Some 1) 0 full_update (al_register_callback (new_alpaca () 50), selling_oms) = (b', t)
    \<and> get_fills 1 t = [f] \<and> f_side f = BUY \<and> f_symbol f = ''SPY'' \<and> o_side sell_order = SELL"
proof -
  let ?b = "al_register_callback (new_alpaca () 50)"
  have wf: "oms_wf selling_oms" using sample_oms_wf sample_oms_order
    by (simp add: oms_wf_def selling_oms_def machine_at_def sell_order_def) (simp add: sample_accepted_def)
  have o: "get_order 1 selling_oms = Some sell_order" "o_side sell_order = SELL" "o_filled_avg_price sell_order = None"
      "o_symbol sell_order = ''SPY''" "get_fills 1 selling_oms = []"
    by (simp_all add: get_order_def selling_oms_def sell_order_def get_fills_def dict_get_or_def sample_oms_order)
      (simp_all add: sample_accepted_def sample_order_def)
  have b: "al_callback ?b" "dict_get (al_meta ?b) (uuid_text 1) = None" "al_fresh ?b = 50"
    by (simp_all add: al_register_callback_def new_alpaca_def)
  have u: "order_update (\<lambda>_. Some 1) 1 full_update 2 100"
    by (simp add: order_update_def full_update_def has_fill_def alpaca_decimal_def)
  have g: "ledger_ok (empty_ledger None)" by (simp add: ledger_ok_def lots_ok_def empty_ledger_def db_sync_def)
  from restarted_sale_is_booked_as_purchase [OF wf o(1-3) b(1) u b(2) g, of 0 FIFO] b(3)
  have "\<exists>b' t f. on_update (\<lambda>_. Some 1) 0 full_update (?b, selling_oms) = (b', t)
    \<and> get_fills 1 t = get_fills 1 selling_oms @ [f] \<and> f_side f = BUY \<and> f_symbol f = o_symbol sell_order"
    by (simp add: empty_ledger_def) blast
  then show ?thesis unfolding o(4,5) append_Nil using o(2) by blast
qed

text \<open>A poll of an order whose fills are booked books nothing more.\<close>

lemma poll_nothing_new:
  assumes "oms_wf t" "dict_get (om_orders t) (o_id cur) = Some cur" "dsub (bs_filled_qty st) (o_filled_qty cur) = 0"
    "bs_state st \<in> {B_PARTIALLY_FILLED, B_FILLED}"
  shows "\<exists>t'. poll_order cur st t = (Inr (), t') \<and> get_fills (o_id cur) t' = get_fills (o_id cur) t"
proof -
  obtain m where m: "dict_get (om_fsms t) (o_id cur) = Some m" "m_table m = order_table"
    using assms(1,2) by (auto elim: oms_wfD)
  show ?thesis
    using assms(3,4) force_close_run [OF assms(2) m, of "bs_updated_at st"]
    by (auto simp: poll_order_def Let_def get_fills_def on_broker_event_def polled_event_def skip_def ret_def split: option.splits)
qed

definition side_text :: "order_side \<Rightarrow> string" where
  "side_text side = (if side = BUY then ''buy'' else ''sell'')"

lemma side_of_side_text [simp]: "side_of_text (Some (side_text side)) = Inr side"
  by (cases side) (simp_all add: side_text_def)

text \<open>Any number of streamed fills of one order.\<close>

definition net_for :: "alpaca_order \<Rightarrow> order_side \<Rightarrow> decimal \<Rightarrow> decimal" where
  "net_for ao side q = (if pays_in_kind ao side then net_of_fee q else q)"

definition stream :: "(string \<Rightarrow> uuid option) \<Rightarrow> (datetime \<times> trade_update) list \<Rightarrow> 'm alpaca \<times> oms \<Rightarrow> 'm alpaca \<times> oms" where
  "stream uuid_of us st = foldl (\<lambda>st (now, u). on_update uuid_of now u st) st us"

lemma stream_simps [simp]: "stream uuid_of [] st = st" "stream uuid_of ((now, u) # us) st = stream uuid_of us (on_update uuid_of now u st)"
  by (simp_all add: stream_def)

lemma streamed_fills:
  assumes "\<forall>(u, q)\<in>set (zip (map snd us) qs). (\<exists>p. order_update uuid_of oid u q p) \<and> 0 < net_for (tu_order u) side q \<and> net_for (tu_order u) side q = net_for ao side q"
    and "length qs = length us" and "oms_wf s" and "get_order oid s = Some ord" and "0 \<le> o_filled_qty ord"
    and "al_callback b" and "dict_get (al_meta b) (uuid_text oid) = Some (agent, i, symb, side)"
  shows "\<exists>b' t fs cur. stream uuid_of us (b, s) = (b', t) \<and> get_fills oid t = get_fills oid s @ fs \<and> map f_qty fs = map (net_for ao side) qs
    \<and> (\<forall>f\<in>set fs. f_side f = side) \<and> oms_wf t \<and> get_order oid t = Some cur
    \<and> o_filled_qty cur = foldl dadd (o_filled_qty ord) (map (net_for ao side) qs)"
  using assms
proof (induction us arbitrary: qs b s ord)
  case Nil
  then show ?case by simp
next
  case (Cons x us)
  obtain now u q qs' where x: "x = (now, u)" "qs = q # qs'" using Cons.prems(2) by (cases x; cases qs) auto
  obtain p where u: "order_update uuid_of oid u q p" and pos: "0 < net_for ao side q" "net_for (tu_order u) side q = net_for ao side q"
    using Cons.prems(1) by (auto simp: x)
  have ord: "dict_get (om_orders s) oid = Some ord" using Cons.prems(4) by (simp add: get_order_def)
  have side: "meta_side (al_meta b) (uuid_text oid) = side" using Cons.prems(7) by (simp add: meta_side_def)
  obtain f ts where f: "on_update uuid_of now u (b, s) = (b\<lparr>al_fresh := Suc (al_fresh b)\<rparr>, snd (handle_fill oid f ts s))"
    "f_side f = side" "f_qty f = net_for ao side q"
    using on_update_fill [OF Cons.prems(6) u ord, of now] side pos(2) by (auto simp: net_for_def)
  have c: "f_side (canonical_fill ord f) = side" "f_qty (canonical_fill ord f) = net_for ao side q"
    by (simp_all add: canonical_fill_def Let_def f(2,3))
  then obtain avg where "average_price ord (canonical_fill ord f) = Inr avg"
    using average_exists [OF Cons.prems(5)] pos(1) by metis
  from handle_streamed [OF Cons.prems(3) ord this] obtain t cur where t: "handle_fill oid f ts s = (Inr (), t)"
    "get_fills oid t = get_fills oid s @ [canonical_fill ord f]" "get_order oid t = Some cur"
    "o_filled_qty cur = dadd (o_filled_qty ord) (net_for ao side q)" "oms_wf t"
    using f(3) by metis
  have "0 \<le> o_filled_qty cur" using Cons.prems(5) pos(1) by (simp add: t(4) dadd_nonneg)
  moreover have "length qs' = length us" using Cons.prems(2) by (simp add: x)
  ultimately obtain b' t' fs cur' where "stream uuid_of us (b\<lparr>al_fresh := Suc (al_fresh b)\<rparr>, t) = (b', t')"
    "get_fills oid t' = get_fills oid t @ fs" "map f_qty fs = map (net_for ao side) qs'" "\<forall>f\<in>set fs. f_side f = side" "oms_wf t'"
    "get_order oid t' = Some cur'" "o_filled_qty cur' = foldl dadd (o_filled_qty cur) (map (net_for ao side) qs')"
    using Cons.IH [of qs' t cur "b\<lparr>al_fresh := Suc (al_fresh b)\<rparr>"] Cons.prems(1,6,7) t(3,5) by (auto simp: x)
  then show ?case
    by (intro exI [of _ b'] exI [of _ t'] exI [of _ "canonical_fill ord f # fs"] exI [of _ cur']) (simp add: x f(1) t(1,2,4) c)
qed

lemma net_exact:
  assumes "on_step 9 q" "0 \<le> q" "q \<le> 10 ^ 15"
  shows "net_for ao side q = q * (if pays_in_kind ao side then 9975 / 10000 else 1)" "on_step 13 (net_for ao side q)"
proof -
  have step: "on_step 13 (q * (9975 / 10000))" "on_step 13 q"
    using assms(1) Ints_mult [of "q * 10 ^ 9" 9975] Ints_mult [of "q * 10 ^ 9" "10 ^ 4"] by (simp_all add: on_step_def algebra_simps)
  have d: "dsub 1 crypto_taker_fee = 9975 / 10000" by (simp add: dsub_def crypto_taker_fee_def dround_small)
  have "dround (q * (9975 / 10000)) = q * (9975 / 10000)"
    by (rule dround_step [OF step(1)]) (use assms(2,3) in simp)
  then show "net_for ao side q = q * (if pays_in_kind ao side then 9975 / 10000 else 1)"
    by (simp add: net_for_def net_of_fee_def dmul_def d)
  with step show "on_step 13 (net_for ao side q)" by simp
qed

lemma sum_exact:
  assumes "\<forall>x\<in>set xs. on_step 13 x \<and> 0 \<le> x" "on_step 13 a" "0 \<le> a" "a + sum_list xs \<le> 10 ^ 15"
  shows "foldl dadd a xs = a + sum_list xs"
  using assms
proof (induction xs arbitrary: a)
  case (Cons x xs)
  have s: "on_step 13 (a + x)" using Cons.prems by (simp add: on_step_add)
  have "0 \<le> sum_list xs" using Cons.prems(1) by (simp add: sum_list_nonneg)
  then have "dadd a x = a + x"
    unfolding dadd_def using Cons.prems by (intro dround_step [OF s]) simp
  then show ?case using Cons s by (simp add: add.assoc)
qed simp

text \<open>
  C23 For an order submitted by this process and not filled before, the stream and the poll agree on what was filled, the crypto
  fee taken in kind included: however many partial fills the stream delivers, with quantities of up to nine decimal places, each is booked once
  and net of its fee, and when the reconciler then polls the order, reported as filled or partially filled by what they add up to,
  it books nothing more. (After a restart the adapter does not know the order: \<open>restarted_sale_is_booked_as_purchase\<close>.)
\<close>

theorem streamed_fill_is_polled_once:
  assumes "oms_wf s" "get_order oid s = Some ord" "o_filled_qty ord = 0"
    and "al_callback b" "dict_get (al_meta b) (uuid_text oid) = Some (agent, i, symb, o_side ord)"
    and "length qs = length us" "sum_list qs \<le> 10 ^ 15"
    and "\<forall>(u, q)\<in>set (zip (map snd us) qs). (\<exists>p. order_update uuid_of oid u q p) \<and> ao_asset_class (tu_order u) = ao_asset_class ao
      \<and> on_step 9 q \<and> 0 < q"
    and "alpaca_decimal (ao_filled_qty ao) = Inr (sum_list qs)" "ao_side ao = Some (side_text (o_side ord))"
    and "ao_status ao \<in> {Some ''filled'', Some ''partially_filled''}" "al_translate_order uuid_of now ao = Inr st"
  shows "\<exists>b' t fs cur t'. stream uuid_of us (b, s) = (b', t) \<and> get_fills oid t = get_fills oid s @ fs
    \<and> map f_qty fs = map (net_for ao (o_side ord)) qs \<and> (\<forall>f\<in>set fs. f_side f = o_side ord)
    \<and> sum_list (map f_qty fs) = bs_filled_qty st \<and> get_order oid t = Some cur \<and> o_filled_qty cur = bs_filled_qty st
    \<and> poll_order cur st t = (Inr (), t') \<and> get_fills oid t' = get_fills oid t"
proof -
  let ?net = "net_for ao (o_side ord)" and ?c = "if pays_in_kind ao (o_side ord) then 9975 / 10000 else 1 :: decimal"
  have "\<exists>u. (u, q) \<in> set (zip (map snd us) qs)" if "q \<in> set qs" for q
    using that assms(6) by (metis in_set_impl_in_set_zip2 length_map)
  then have qs: "\<forall>q\<in>set qs. on_step 9 q \<and> 0 < q" using assms(8) by fastforce
  have "q \<le> sum_list xs" if "q \<in> set xs" "\<forall>x\<in>set xs. 0 \<le> x" for q :: rat and xs
    using that by (induction xs) (auto intro: add_increasing add_increasing2 sum_list_nonneg)
  then have small: "q \<le> 10 ^ 15" if "q \<in> set qs" for q
    using that qs assms(7) by (meson less_imp_le order_trans)
  note net = net_exact [OF _ _ small, of _ ao "o_side ord"]
  have nets: "\<forall>x\<in>set (map ?net qs). on_step 13 x \<and> 0 \<le> x" using net qs by (auto simp: less_imp_le)
  have "on_step 9 (sum_list xs)" if "\<forall>x\<in>set xs. on_step 9 x" for xs
    using that by (induction xs) (simp_all add: on_step_add)
  then have all: "on_step 9 (sum_list qs)" "0 \<le> sum_list qs" using qs by (auto intro!: sum_list_nonneg simp: less_imp_le)
  have "map ?net qs = map (\<lambda>q. q * ?c) qs" using net(1) qs by (intro map_cong) (auto simp: less_imp_le)
  then have total: "sum_list (map ?net qs) = ?net (sum_list qs)"
    unfolding net_exact(1) [OF all assms(7)] by (simp only: sum_list_mult_const list.map_ident)
  have "?net (sum_list qs) \<le> sum_list qs" using all(2) by (simp add: net_exact(1) [OF all assms(7)])
  then have exact: "foldl dadd 0 (map ?net qs) = ?net (sum_list qs)"
    using sum_exact [OF nets, of 0] assms(7) by (simp add: total)
  have st: "bs_filled_qty st = ?net (sum_list qs)" "bs_state st \<in> {B_PARTIALLY_FILLED, B_FILLED}"
    using assms(9-12) by (auto simp: al_translate_order_def bindr_Inr_iff net_for_def alpaca_states_def dict_get_or_def
      simp del: side_of_text.simps(2) split: if_splits)
  have same: "net_for (tu_order u) (o_side ord) q = ?net q" if "ao_asset_class (tu_order u) = ao_asset_class ao" for u q
    using that by (simp add: net_for_def pays_in_kind_def)
  have "0 < ?net q" if "q \<in> set qs" for q using net(1) [of q] that qs by (simp add: less_imp_le)
  then have "\<forall>(u, q)\<in>set (zip (map snd us) qs). (\<exists>p. order_update uuid_of oid u q p) \<and> 0 < net_for (tu_order u) (o_side ord) q
      \<and> net_for (tu_order u) (o_side ord) q = ?net q"
    using assms(8) same by (fastforce dest: set_zip_rightD)
  from streamed_fills [OF this assms(6,1,2) _ assms(4,5)] obtain b' t fs cur where
    t: "stream uuid_of us (b, s) = (b', t)" "get_fills oid t = get_fills oid s @ fs" "map f_qty fs = map ?net qs"
      "\<forall>f\<in>set fs. f_side f = o_side ord" "oms_wf t" "get_order oid t = Some cur" "o_filled_qty cur = ?net (sum_list qs)"
    using assms(3) exact by auto
  have cur: "dict_get (om_orders t) oid = Some cur" "o_id cur = oid"
    using t(5,6) by (auto simp: get_order_def elim: oms_wfD)
  obtain t' where "poll_order cur st t = (Inr (), t')" "get_fills oid t' = get_fills oid t"
    using poll_nothing_new [OF t(5) _ _ st(2), of cur] cur by (auto simp: st(1) t(7) dsub_def)
  then show ?thesis using t st(1) total by auto
qed

definition crypto_update :: "string \<Rightarrow> int \<Rightarrow> trade_update" where
  "crypto_update event q = full_update\<lparr>tu_order := (tu_order full_update)\<lparr>ao_asset_class := Some ''crypto'', ao_side := Some ''buy''\<rparr>,
     tu_event := event, tu_qty := VInt q\<rparr>"

theorem streamed_fill_is_polled_once_witness:
  "\<exists>b' t fs st cur t'. stream (\<lambda>_. Some 1) [(0, crypto_update ''partial_fill'' 1), (5, crypto_update ''fill'' 1)]
        (remember_meta sample_order (al_register_callback (new_alpaca () 50)), sample_oms) = (b', t)
    \<and> get_fills 1 t = fs \<and> map f_qty fs = [9975 / 10000, 9975 / 10000] \<and> bs_filled_qty st = 1995 / 1000
    \<and> al_translate_order (\<lambda>_. Some 1) 9 (tu_order (crypto_update ''fill'' 1)) = Inr st
    \<and> poll_order cur st t = (Inr (), t') \<and> get_fills 1 t' = fs"
proof -
  let ?b = "remember_meta sample_order (al_register_callback (new_alpaca () 50))"
  let ?ao = "tu_order (crypto_update ''fill'' 1)" and ?us = "[(0, crypto_update ''partial_fill'' 1), (5, crypto_update ''fill'' 1)]"
  have o: "get_order 1 sample_oms = Some sample_accepted" "o_filled_qty sample_accepted = 0" "o_side sample_accepted = BUY" "get_fills 1 sample_oms = []"
    unfolding get_order_def get_fills_def dict_get_or_def by (rule sample_oms_order(1))
      (simp_all add: sample_oms_order(6) sample_accepted_def sample_order_def)
  have b: "al_callback ?b" "dict_get (al_meta ?b) (uuid_text 1) = Some (SONNET, 1, ''SPY'', BUY)"
    by (simp_all add: remember_meta_def al_register_callback_def new_alpaca_def sample_order_def)
  have u: "\<exists>p. order_update (\<lambda>_. Some 1) 1 (crypto_update e 1) 1 p" if "e \<in> {''fill'', ''partial_fill''}" for e
    using that by (auto simp: order_update_def crypto_update_def full_update_def has_fill_def alpaca_decimal_def)
  have ao: "ao_side ?ao = Some (side_text BUY)" "alpaca_decimal (ao_filled_qty ?ao) = Inr 2" "ao_status ?ao = Some ''filled''"
    "ao_filled_qty ?ao = VInt 2" "ao_qty ?ao = VInt 2" "ao_avg_price ?ao = VInt 100" "ao_asset_class ?ao = Some ''crypto''"
    by (simp_all add: crypto_update_def full_update_def side_text_def alpaca_decimal_def)
  have us: "\<forall>(u, q)\<in>set (zip (map snd ?us) [1, 1]). (\<exists>p. order_update (\<lambda>_. Some 1) 1 u q p)
      \<and> ao_asset_class (tu_order u) = ao_asset_class ?ao \<and> on_step 9 q \<and> 0 < q"
    using u by (simp add: on_step_def crypto_update_def)
  have kind: "pays_in_kind ?ao BUY" by (simp add: pays_in_kind_def ao alpaca_asset_classes_def opt_text_def)
  have net: "net_for ?ao BUY 1 = 9975 / 10000" "net_for ?ao BUY 2 = 1995 / 1000"
    using net_exact(1) [of 1 ?ao BUY] net_exact(1) [of 2 ?ao BUY] by (simp_all add: kind on_step_def)
  obtain st where st: "al_translate_order (\<lambda>_. Some 1) 9 ?ao = Inr st" "bs_filled_qty st = net_for ?ao BUY 2"
    by (simp add: al_translate_order_def ao price_of_def alpaca_decimal_def net_for_def del: side_of_text.simps(2))
  have "\<exists>b' t fs cur t'. stream (\<lambda>_. Some 1) ?us (?b, sample_oms) = (b', t) \<and> get_fills 1 t = get_fills 1 sample_oms @ fs
    \<and> map f_qty fs = map (net_for ?ao (o_side sample_accepted)) [1, 1] \<and> (\<forall>f\<in>set fs. f_side f = o_side sample_accepted)
    \<and> sum_list (map f_qty fs) = bs_filled_qty st \<and> get_order 1 t = Some cur \<and> o_filled_qty cur = bs_filled_qty st
    \<and> poll_order cur st t = (Inr (), t') \<and> get_fills 1 t' = get_fills 1 t"
    by (rule streamed_fill_is_polled_once [OF sample_oms_wf o(1,2) b(1) _ _ _ us])
      (use b(2) o(3) ao(1-3) st(1) in \<open>simp_all del: One_nat_def\<close>)
  then show ?thesis using o(3,4) st net by (simp del: One_nat_def) metis
qed

end
