(* ===== verification/Manager.thy ===== *)
theory Manager
  imports Tracker Memory Agents
begin

text \<open>
  What becomes of the Manager's answers: the texts of \<^verbatim>\<open>agents/manager_bridge.py\<close> that the other
  agents read, the fingerprint and the calls of \<^verbatim>\<open>agents/manager_agent.py\<close>, and the jobs of \<^verbatim>\<open>app.py\<close> that
  use them: the Friday job, the capital reallocation with its cadence, the response to a drawdown. What
  the model answers is a parameter. \<open>manager_env\<close> holds \<^verbatim>\<open>json.loads\<close>, \<^verbatim>\<open>json.dumps\<close>, \<^verbatim>\<open>str\<close> of a nested
  value and the two directions of \<^verbatim>\<open>date.isoformat\<close>. The hash of the fingerprint is left out: the model
  compares what is hashed.
\<close>

record manager_env =
  me_decode :: "string \<Rightarrow> jval option"
  me_dumps :: "jval \<Rightarrow> string"
  me_repr :: "jval \<Rightarrow> string"
  me_iso :: "date \<Rightarrow> string"
  me_from_iso :: "string \<Rightarrow> date option"

record manager_state =
  mg_memory :: memory_db
  mg_weights :: weights_file
  mg_fingerprint :: "(string \<times> decimal \<times> (string \<times> string) list) option"
  mg_reports :: "string list"

subsection \<open>A call\<close>

text \<open>
  A call that fails, for lack of budget or otherwise, and an answer that is no JSON object are an
  empty answer.
\<close>

definition call_and_parse :: "manager_env \<Rightarrow> exn + string \<Rightarrow> (string, jval) dict" where
  "call_and_parse env out = (case out of
       Inl _ \<Rightarrow> []
     | Inr t \<Rightarrow> (case parse_json_object (me_decode env) t of None \<Rightarrow> [] | Some d \<Rightarrow> d))"

definition weekly_journal :: "exn + string \<Rightarrow> string" where
  "weekly_journal out = (case out of Inl _ \<Rightarrow> [] | Inr t \<Rightarrow> t)"

subsection \<open>The bridge\<close>

definition key_regime :: string where "key_regime = ''last_regime_read''"
definition key_brief :: string where "key_brief = ''last_morning_brief''"

definition key_directive :: "agent_id \<Rightarrow> string" where
  "key_directive a = ''drawdown_directive:'' @ agent_str a"

definition key_critique :: "agent_id \<Rightarrow> string" where
  "key_critique a = ''last_adversarial_critique:'' @ agent_str a"

definition key_reallocation :: string where "key_reallocation = ''last_capital_reallocation''"

definition recall_text :: "string \<Rightarrow> memory_db \<Rightarrow> string" where
  "recall_text k m = (case recall MANAGER k m of None \<Rightarrow> [] | Some t \<Rightarrow> t)"

definition newline :: char where "newline = CHR 0x0A"

definition summary_keys :: "string list" where
  "summary_keys = [''summary'', ''regime_text'', ''headline'', ''narrative'']"

fun plain_value :: "jval \<Rightarrow> bool" where
  "plain_value (VText _) = True" | "plain_value (VInt _) = True" | "plain_value (VFloat _) = True"
| "plain_value (VBool _) = True" | "plain_value _ = False"

fun regime_lines :: "(jval \<Rightarrow> string) \<Rightarrow> nat \<Rightarrow> (string \<times> jval) list \<Rightarrow> string list" where
  "regime_lines repr room [] = []"
| "regime_lines repr room ((k, v) # kvs) =
     (if room = 0 then []
      else if plain_value v \<and> length (py_str repr v) < 200 then (k @ '': '' @ py_str repr v) # regime_lines repr (room - 1) kvs
      else regime_lines repr room kvs)"

fun text_value :: "jval \<Rightarrow> string" where
  "text_value (VText s) = py_strip s"
| "text_value _ = []"

definition extract_regime_summary :: "manager_env \<Rightarrow> string \<Rightarrow> string" where
  "extract_regime_summary env raw =
     (if raw = [] then []
      else (case me_decode env raw of
          Some (VObject d) \<Rightarrow>
            (case filter (\<lambda>t. t \<noteq> []) (map (\<lambda>k. text_value (dict_get_or d k VNull)) summary_keys) of
               t # _ \<Rightarrow> take 600 t
             | [] \<Rightarrow> take 600 (join_char newline (regime_lines (me_repr env) 6 d)))
        | _ \<Rightarrow> take 600 raw))"

record manager_context =
  mc_regime :: string
  mc_brief :: string
  mc_directive :: string
  mc_critique :: string

definition read_manager_context :: "manager_env \<Rightarrow> agent_id \<Rightarrow> memory_db \<Rightarrow> manager_context" where
  "read_manager_context env a m = \<lparr>mc_regime = extract_regime_summary env (recall_text key_regime m),
     mc_brief = take 1500 (recall_text key_brief m),
     mc_directive = take 600 (recall_text (key_directive a) m),
     mc_critique = take 600 (recall_text (key_critique a) m)\<rparr>"

definition write_morning_brief :: "string \<Rightarrow> memory_db \<Rightarrow> memory_db" where
  "write_morning_brief brief = remember MANAGER key_brief (take 1500 brief)"

definition write_drawdown_directive :: "agent_id \<Rightarrow> string \<Rightarrow> memory_db \<Rightarrow> memory_db" where
  "write_drawdown_directive a t = remember MANAGER (key_directive a) (take 600 t)"

definition write_adversarial_critique :: "agent_id \<Rightarrow> string \<Rightarrow> memory_db \<Rightarrow> memory_db" where
  "write_adversarial_critique a t = remember MANAGER (key_critique a) (take 600 t)"

subsection \<open>The response to a drawdown\<close>

fun join_with :: "string \<Rightarrow> string list \<Rightarrow> string" where
  "join_with sep [] = []"
| "join_with sep [w] = w"
| "join_with sep (w # v # ws) = w @ sep @ join_with sep (v # ws)"

definition pick :: "jval \<Rightarrow> jval \<Rightarrow> jval" where
  "pick v w = (if truthy v then v else w)"

definition directive_lines :: "manager_env \<Rightarrow> (string, jval) dict \<Rightarrow> string list" where
  "directive_lines env r =
     (let head = text_value (pick (dict_get_or r ''directive'' VNull) (dict_get_or r ''summary'' VNull)) in
      (if head = [] then [] else [take 400 head]) @
      (case dict_get_or r ''actions'' VNull of
         VList (v # vs) \<Rightarrow> [''required actions: '' @
           join_with ''; '' (map (\<lambda>x. take 80 (py_str (me_repr env) x)) (take 5 (v # vs)))]
       | _ \<Rightarrow> []))"

definition directive_text :: "manager_env \<Rightarrow> (string, jval) dict \<Rightarrow> string" where
  "directive_text env r =
     (let t = py_strip (join_char newline (directive_lines env r)) in
      if t = [] then take 600 (me_dumps env (VObject r)) else t)"

text \<open>
  Fired when the bucket of an agent tightens; \<open>out\<close> is what building the state and the call give.
\<close>

definition on_drawdown_ladder_fired ::
  "manager_env \<Rightarrow> agent_id option \<Rightarrow> drawdown_bucket \<Rightarrow> exn + (string, jval) dict \<Rightarrow> memory_db \<Rightarrow> memory_db" where
  "on_drawdown_ladder_fired env who new out m = (case who of
       None \<Rightarrow> m
     | Some a \<Rightarrow>
         if a = MANAGER \<or> new \<in> {NORMAL, YELLOW} then m
         else (case out of
             Inl _ \<Rightarrow> m
           | Inr r \<Rightarrow> if r = [] then m else write_drawdown_directive a (directive_text env r) m))"

subsection \<open>The Friday job\<close>

text \<open>\<open>equity.quantize(Decimal("1"))\<close>, half to even.\<close>

definition whole_dollars :: "decimal \<Rightarrow> exn + decimal" where
  "whole_dollars x = (let n = rhe x in if \<bar>n\<bar> < 10 ^ 28 then Inr (of_int n) else Inl DecimalError)"

definition vix_text :: "vix_bucket \<Rightarrow> string" where
  "vix_text v = (case v of VERY_LOW \<Rightarrow> ''very_low'' | SWEET_SPOT \<Rightarrow> ''sweet_spot'' | ELEVATED \<Rightarrow> ''elevated''
     | STRESS \<Rightarrow> ''stress'' | CRISIS \<Rightarrow> ''crisis'')"

text \<open>The three sleeves come in the order of their names.\<close>

definition manager_fingerprint ::
  "vix_bucket \<Rightarrow> decimal \<Rightarrow> (agent_id \<Rightarrow> drawdown_bucket) \<Rightarrow> exn + string \<times> decimal \<times> (string \<times> string) list" where
  "manager_fingerprint vix equity dd = bindr (whole_dollars equity) (\<lambda>eq.
     Inr (vix_text vix, eq, map (\<lambda>a. (agent_str a, bucket_str (dd a))) [HAIKU, OPUS, SONNET]))"

text \<open>\<open>sent\<close> tells whether the report reaches the messenger without an exception.\<close>

definition friday_calls ::
  "manager_env \<Rightarrow> date \<Rightarrow> exn + (string, jval) dict \<Rightarrow> exn + string \<Rightarrow> bool \<Rightarrow> manager_state \<Rightarrow> bool \<times> manager_state" where
  "friday_calls env today regime journal sent st =
     (let st1 = (case regime of
            Inr (kv # kvs) \<Rightarrow> st\<lparr>mg_memory := remember MANAGER key_regime (me_dumps env (VObject (kv # kvs))) (mg_memory st)\<rparr>
          | _ \<Rightarrow> st)
      in case journal of
           Inl _ \<Rightarrow> (\<not> isl regime, st1)
         | Inr t \<Rightarrow>
             if t = [] then (True, st1)
             else (let st2 = st1\<lparr>mg_memory := write_journal MANAGER today t (mg_memory st1)\<rparr> in
                   if sent then (True, st2\<lparr>mg_reports := mg_reports st2 @ [t]\<rparr>) else (\<not> isl regime, st2)))"

definition friday_strategic ::
  "manager_env \<Rightarrow> date \<Rightarrow> string \<times> decimal \<times> (string \<times> string) list \<Rightarrow> exn + (string, jval) dict \<Rightarrow> exn + string \<Rightarrow> bool
    \<Rightarrow> manager_state \<Rightarrow> manager_state" where
  "friday_strategic env today fp regime journal sent st =
     (if mg_fingerprint st = Some fp then st
      else (case friday_calls env today regime journal sent st of (called, st') \<Rightarrow>
        if called then st'\<lparr>mg_fingerprint := Some fp\<rparr> else st'))"

subsection \<open>Capital reallocation\<close>

definition sleeve_of_key :: "string \<Rightarrow> exn + agent_id" where
  "sleeve_of_key k = agent_of_str (py_lower k)"

text \<open>Arithmetic on allocations: a signalling NaN, and the invalid operations on infinities, raise.\<close>

fun num_add :: "number \<Rightarrow> number \<Rightarrow> exn + number" where
  "num_add (Finite x) (Finite y) = Inr (Finite (dadd x y))"
| "num_add (Infinite p) (Infinite q) = (if p = q then Inr (Infinite p) else Inl DecimalError)"
| "num_add (Infinite p) (Finite _) = Inr (Infinite p)"
| "num_add (Finite _) (Infinite q) = Inr (Infinite q)"
| "num_add (Not_a_number p) (Not_a_number q) = (if p \<or> q then Inl DecimalError else Inr (Not_a_number False))"
| "num_add (Not_a_number p) _ = (if p then Inl DecimalError else Inr (Not_a_number False))"
| "num_add _ (Not_a_number q) = (if q then Inl DecimalError else Inr (Not_a_number False))"

text \<open>Division by a divisor above zero, as everywhere below.\<close>

fun num_div :: "number \<Rightarrow> number \<Rightarrow> exn + number" where
  "num_div (Finite x) (Finite y) = Inr (Finite (ddiv x y))"
| "num_div (Infinite p) (Infinite q) = Inl DecimalError"
| "num_div (Infinite p) (Finite _) = Inr (Infinite p)"
| "num_div (Finite _) (Infinite _) = Inr (Finite 0)"
| "num_div (Not_a_number p) (Not_a_number q) = (if p \<or> q then Inl DecimalError else Inr (Not_a_number False))"
| "num_div (Not_a_number p) _ = (if p then Inl DecimalError else Inr (Not_a_number False))"
| "num_div _ (Not_a_number q) = (if q then Inl DecimalError else Inr (Not_a_number False))"

fun num_sum :: "number \<Rightarrow> number list \<Rightarrow> exn + number" where
  "num_sum acc [] = Inr acc"
| "num_sum acc (x # xs) = bindr (num_add acc x) (\<lambda>s. num_sum s xs)"

text \<open>The values of a dictionary, replaced one by one; the first exception goes on.\<close>

fun map_values :: "('v \<Rightarrow> exn + 'w) \<Rightarrow> ('k, 'v) dict \<Rightarrow> exn + ('k, 'w) dict" where
  "map_values f [] = Inr []"
| "map_values f ((k, v) # kvs) = bindr (f v) (\<lambda>w. bindr (map_values f kvs) (\<lambda>ws. Inr ((k, w) # ws)))"

text \<open>The step of one sleeve: the new allocation over the current one, where that is a positive number.\<close>

definition baseline :: "jval \<Rightarrow> string \<Rightarrow> number option" where
  "baseline cur k = (case cur of
       VObject c \<Rightarrow> (case dict_get c k of None \<Rightarrow> None
         | Some b \<Rightarrow> (case py_number b of Inl _ \<Rightarrow> None | Inr x \<Rightarrow> Some x))
     | _ \<Rightarrow> None)"

definition step_ratio :: "jval \<Rightarrow> string \<Rightarrow> number \<Rightarrow> exn + number" where
  "step_ratio cur k new = (case baseline cur k of
       None \<Rightarrow> Inr new
     | Some base \<Rightarrow> bindr (num_less (Finite 0) base) (\<lambda>up. if up then num_div new base else Inr new))"

definition put_step :: "jval \<Rightarrow> string \<times> jval \<Rightarrow> (agent_id, number) dict \<Rightarrow> exn + (agent_id, number) dict" where
  "put_step cur kv out = (case (sleeve_of_key (fst kv), py_number (snd kv)) of
       (Inr a, Inr x) \<Rightarrow> bindr (step_ratio cur (fst kv) x) (\<lambda>m. Inr (dict_set a m out))
     | _ \<Rightarrow> Inr out)"

definition put_weight :: "string \<times> jval \<Rightarrow> (agent_id, number) dict \<Rightarrow> exn + (agent_id, number) dict" where
  "put_weight kv out = (case (sleeve_of_key (fst kv), py_number (snd kv)) of
       (Inr a, Inr x) \<Rightarrow> Inr (dict_set a x out)
     | _ \<Rightarrow> Inr out)"

fun put_all :: "('i \<Rightarrow> 'd \<Rightarrow> exn + 'd) \<Rightarrow> 'i list \<Rightarrow> 'd \<Rightarrow> exn + 'd" where
  "put_all put [] out = Inr out"
| "put_all put (kv # kvs) out = bindr (put kv out) (put_all put kvs)"

definition mean_of :: "number list \<Rightarrow> exn + number" where
  "mean_of xs = (if xs = [] then Inr (Finite 0)
     else bindr (num_sum (Finite 0) xs) (\<lambda>s. num_div s (Finite (of_nat (length xs)))))"

definition rebased :: "(agent_id, number) dict \<Rightarrow> exn + (agent_id, number) dict" where
  "rebased ws = bindr (mean_of (map snd ws)) (\<lambda>mean. bindr (num_less (Finite 0) mean) (\<lambda>up.
     if up then map_values (\<lambda>m. num_div m mean) ws else Inr ws))"

definition has_items :: "jval \<Rightarrow> bool" where
  "has_items v = (case v of VObject (_ # _) \<Rightarrow> True | _ \<Rightarrow> False)"

definition allocation_weights :: "(string, jval) dict \<Rightarrow> exn + (agent_id, number) dict" where
  "allocation_weights r =
     (let cur = dict_get_or r ''current_allocation'' VNull in
      case dict_get_or r ''new_allocation'' VNull of
        VObject (kv # kvs) \<Rightarrow> bindr (put_all (put_step cur) (kv # kvs) []) (\<lambda>ws. if has_items cur then Inr ws else rebased ws)
      | _ \<Rightarrow> put_all put_weight (case dict_get_or r ''sleeve_weights'' VNull of VObject w \<Rightarrow> w | _ \<Rightarrow> r) [])"

fun clamp_step :: "number \<Rightarrow> exn + decimal" where
  "clamp_step (Finite m) = Inr (max (3 / 4) (min (5 / 4) m))"
| "clamp_step (Infinite negative) = Inr (if negative then 3 / 4 else 5 / 4)"
| "clamp_step (Not_a_number _) = Inl DecimalError"

definition clamped_weights :: "(string, jval) dict \<Rightarrow> exn + (agent_id, decimal) dict" where
  "clamped_weights r = bindr (allocation_weights r) (map_values clamp_step)"

text \<open>Four weeks in days; the quotient by seven is exact at the bound.\<close>

definition reallocation_due :: "manager_env \<Rightarrow> date \<Rightarrow> manager_state \<Rightarrow> bool" where
  "reallocation_due env today st =
     (let raw = recall_text key_reallocation (mg_memory st) in
      case (if raw = [] then None else me_from_iso env raw) of
        None \<Rightarrow> True
      | Some d \<Rightarrow> 28 \<le> today - d)"

text \<open>An exception of the arithmetic leaves the job before the weights are written and the day is noted.\<close>

definition run_capital_reallocation_if_due ::
  "manager_env \<Rightarrow> date \<Rightarrow> exn + (string, jval) dict \<Rightarrow> (manager_state, unit) eff" where
  "run_capital_reallocation_if_due env today out st =
     (if \<not> reallocation_due env today st then (Inr (), st)
      else (case clamped_weights (case out of Inl _ \<Rightarrow> [] | Inr r \<Rightarrow> r) of
          Inl e \<Rightarrow> (Inl e, st)
        | Inr ws \<Rightarrow>
            (let st1 = (if ws = [] then st else st\<lparr>mg_weights := write_sleeve_weights ws\<rparr>)
             in (Inr (), st1\<lparr>mg_memory := remember MANAGER key_reallocation (me_iso env today) (mg_memory st1)\<rparr>))))"

definition manager_friday ::
  "manager_env \<Rightarrow> date \<Rightarrow> string \<times> decimal \<times> (string \<times> string) list \<Rightarrow> exn + (string, jval) dict \<Rightarrow> exn + string \<Rightarrow> bool
    \<Rightarrow> exn + (string, jval) dict \<Rightarrow> (manager_state, unit) eff" where
  "manager_friday env today fp regime journal sent realloc st =
     run_capital_reallocation_if_due env today realloc (friday_strategic env today fp regime journal sent st)"

subsection \<open>The steps are bounded and four weeks apart\<close>

type_synonym reallocation_call = "date \<times> (exn + (string, jval) dict)"

text \<open>The calls of the job and its catch-up, the exceptions caught or reported by the scheduler.\<close>

definition run_calls :: "manager_env \<Rightarrow> reallocation_call list \<Rightarrow> manager_state \<Rightarrow> manager_state" where
  "run_calls env cs st = foldl (\<lambda>s (d, out). snd (run_capital_reallocation_if_due env d out s)) st cs"

text \<open>The days on which a reallocation was due and ran to its end.\<close>

fun done_days :: "manager_env \<Rightarrow> reallocation_call list \<Rightarrow> manager_state \<Rightarrow> date list" where
  "done_days env [] st = []"
| "done_days env ((d, out) # cs) st = (case run_capital_reallocation_if_due env d out st of (r, t) \<Rightarrow>
     (if reallocation_due env d st \<and> r = Inr () then [d] else []) @ done_days env cs t)"

definition iso_ok :: "manager_env \<Rightarrow> bool" where
  "iso_ok env \<longleftrightarrow> (\<forall>d. me_iso env d \<noteq> [] \<and> me_from_iso env (me_iso env d) = Some d)"

definition last_fired :: "manager_env \<Rightarrow> manager_state \<Rightarrow> date option" where
  "last_fired env st = (let raw = recall_text key_reallocation (mg_memory st) in if raw = [] then None else me_from_iso env raw)"

lemma due_iff: "reallocation_due env d st \<longleftrightarrow> (\<forall>l. last_fired env st = Some l \<longrightarrow> l + 28 \<le> d)"
  by (auto simp: reallocation_due_def last_fired_def Let_def split: option.split)

lemma recall_text_remember [simp]:
  "recall_text k (remember MANAGER k' t m) = (if k = k' then t else recall_text k m)"
  by (simp add: recall_text_def recall_def remember_def)

lemma last_fired_run:
  "iso_ok env \<Longrightarrow> last_fired env (snd (run_capital_reallocation_if_due env d out st)) =
     (if reallocation_due env d st \<and> fst (run_capital_reallocation_if_due env d out st) = Inr () then Some d else last_fired env st)"
  by (auto simp: run_capital_reallocation_if_due_def last_fired_def Let_def iso_ok_def split: sum.split)

lemma done_after:
  "iso_ok env \<Longrightarrow> sorted_wrt (\<lambda>x y. x + 28 \<le> y) (done_days env cs st)
    \<and> (\<forall>l. last_fired env st = Some l \<longrightarrow> (\<forall>d\<in>set (done_days env cs st). l + 28 \<le> d))"
proof (induction cs arbitrary: st)
  case (Cons c cs)
  obtain d out where c: "c = (d, out)" by fastforce
  obtain r t where t: "run_capital_reallocation_if_due env d out st = (r, t)" by fastforce
  have ih: "sorted_wrt (\<lambda>x y. x + 28 \<le> y) (done_days env cs t)"
    "\<And>l e. last_fired env t = Some l \<Longrightarrow> e \<in> set (done_days env cs t) \<Longrightarrow> l + 28 \<le> e"
    using Cons by blast+
  show ?case
  proof (cases "reallocation_due env d st \<and> r = Inr ()")
    case True
    then have late: "d + 28 \<le> e" if "e \<in> set (done_days env cs t)" for e
      using ih(2) [of d e] that last_fired_run [OF Cons.prems, of d out st] by (simp add: t)
    have "l + 28 \<le> d" if "last_fired env st = Some l" for l using True that by (simp add: due_iff)
    with late ih(1) True show ?thesis by (auto simp: c t) (smt (verit) late)
  next
    case False
    then have "last_fired env t = last_fired env st" using last_fired_run [OF Cons.prems, of d out st] by (auto simp: t)
    with ih False show ?thesis by (auto simp: c t)
  qed
qed simp

lemma put_all_keys:
  assumes "\<And>kv out out'. put kv out = Inr out' \<Longrightarrow> distinct (map fst out) \<Longrightarrow> distinct (map fst out')"
  shows "put_all put kvs out = Inr out' \<Longrightarrow> distinct (map fst out) \<Longrightarrow> distinct (map fst out')"
  by (induction kvs arbitrary: out) (auto simp: bindr_Inr_iff dest: assms)

lemma put_step_keys: "put_step cur kv out = Inr out' \<Longrightarrow> distinct (map fst out) \<Longrightarrow> distinct (map fst out')"
  by (auto simp: put_step_def bindr_Inr_iff split: sum.splits)

lemma put_weight_keys: "put_weight kv out = Inr out' \<Longrightarrow> distinct (map fst out) \<Longrightarrow> distinct (map fst out')"
  by (auto simp: put_weight_def split: sum.splits)

lemma filled_keys:
  "put_all (put_step cur) kvs [] = Inr ws \<Longrightarrow> distinct (map fst ws)"
  "put_all put_weight kvs [] = Inr ws \<Longrightarrow> distinct (map fst ws)"
proof -
  assume "put_all (put_step cur) kvs [] = Inr ws"
  then show "distinct (map fst ws)" by (rule put_all_keys [rotated]) (simp, rule put_step_keys)
next
  assume "put_all put_weight kvs [] = Inr ws"
  then show "distinct (map fst ws)" by (rule put_all_keys [rotated]) (simp, rule put_weight_keys)
qed

lemma map_values_keys: "map_values f kvs = Inr ws \<Longrightarrow> map fst ws = map fst kvs"
  by (induction f kvs arbitrary: ws rule: map_values.induct) (auto simp: bindr_Inr_iff)

lemma map_values_get: "map_values f kvs = Inr ws \<Longrightarrow> dict_get ws k = Some w \<Longrightarrow> \<exists>v. dict_get kvs k = Some v \<and> f v = Inr w"
  by (induction f kvs arbitrary: ws rule: map_values.induct) (auto simp: bindr_Inr_iff split: if_splits)

lemma rebased_keys: "rebased ws = Inr ws' \<Longrightarrow> map fst ws' = map fst ws"
  by (auto simp: rebased_def bindr_Inr_iff dest: map_values_keys split: if_splits)

lemma rebased_distinct: "rebased ws = Inr ws' \<Longrightarrow> distinct (map fst ws) \<Longrightarrow> distinct (map fst ws')"
  by (simp add: rebased_keys)

lemma allocation_keys: "allocation_weights r = Inr ws \<Longrightarrow> distinct (map fst ws)"
  unfolding allocation_weights_def Let_def
  by (auto simp: bindr_Inr_iff simp del: put_all.simps dest: filled_keys rebased_distinct [OF _ filled_keys(1)]
      split: jval.splits list.splits if_splits)

lemma clamped_keys: "clamped_weights r = Inr ws \<Longrightarrow> distinct (map fst ws)"
  by (auto simp: clamped_weights_def bindr_Inr_iff dest!: allocation_keys map_values_keys)

lemma clamp_bounds: "clamp_step m = Inr w \<Longrightarrow> 3 / 4 \<le> w \<and> w \<le> 5 / 4"
  by (cases m) auto

lemma clamped_bounds: "clamped_weights r = Inr ws \<Longrightarrow> dict_get ws a = Some w \<Longrightarrow> 3 / 4 \<le> w \<and> w \<le> 5 / 4"
  by (auto simp: clamped_weights_def bindr_Inr_iff dest!: map_values_get dest: clamp_bounds)

definition weight_of :: "agent_id \<Rightarrow> manager_state \<Rightarrow> decimal option" where
  "weight_of a st = dict_get (read_sleeve_weights (mg_weights st)) a"

lemma run_weight:
  assumes "weight_of a (snd (run_capital_reallocation_if_due env d out st)) = Some w"
  shows "weight_of a st = Some w \<or> 3 / 4 \<le> w \<and> w \<le> 5 / 4"
proof (cases "clamped_weights (case out of Inl _ \<Rightarrow> [] | Inr r \<Rightarrow> r)")
  case (Inr ws)
  then show ?thesis
    using assms clamped_bounds [OF Inr] read_written_weights [OF clamped_keys [OF Inr]]
    by (auto simp: run_capital_reallocation_if_due_def weight_of_def Let_def split: if_splits)
qed (use assms in \<open>auto simp: run_capital_reallocation_if_due_def split: if_splits\<close>)

lemma run_calls_weight:
  "weight_of a (run_calls env cs st) = Some w \<Longrightarrow> weight_of a st = Some w \<or> 3 / 4 \<le> w \<and> w \<le> 5 / 4"
proof (induction cs arbitrary: st)
  case (Cons c cs)
  then show ?case using run_weight by (cases c) (fastforce simp: run_calls_def)
qed (simp add: run_calls_def)

text \<open>A call that fails changes no weight and still counts as the run of these four weeks.\<close>

lemma failed_reallocation_waits:
  assumes "iso_ok env" "reallocation_due env d st" "out = Inl e \<or> out = Inr []"
  shows "mg_weights (snd (run_capital_reallocation_if_due env d out st)) = mg_weights st"
    "d' < d + 28 \<Longrightarrow> run_capital_reallocation_if_due env d' out' (snd (run_capital_reallocation_if_due env d out st))
      = (Inr (), snd (run_capital_reallocation_if_due env d out st))"
proof -
  have c: "clamped_weights (case out of Inl _ \<Rightarrow> [] | Inr r \<Rightarrow> r) = Inr []"
    using assms(3) by (auto simp: clamped_weights_def allocation_weights_def dict_get_or_def)
  then show "mg_weights (snd (run_capital_reallocation_if_due env d out st)) = mg_weights st"
    by (simp add: run_capital_reallocation_if_due_def Let_def)
  assume "d' < d + 28"
  moreover have "fst (run_capital_reallocation_if_due env d out st) = Inr ()"
    using c by (simp add: run_capital_reallocation_if_due_def Let_def)
  then have "last_fired env (snd (run_capital_reallocation_if_due env d out st)) = Some d"
    by (simp add: last_fired_run [OF assms(1)] assms(2))
  ultimately have "\<not> reallocation_due env d' (snd (run_capital_reallocation_if_due env d out st))"
    by (simp add: due_iff [of env d'])
  then show "run_capital_reallocation_if_due env d' out' (snd (run_capital_reallocation_if_due env d out st))
      = (Inr (), snd (run_capital_reallocation_if_due env d out st))"
    by (simp add: run_capital_reallocation_if_due_def [of env d'])
qed

text \<open>
  An answer with a NaN among its allocations is no failure of the call: the clamp raises before the
  day is noted, so the job is still due and the Manager is asked again the next time, within the four weeks.
\<close>

lemma nan_allocation_fires_again:
  assumes "reallocation_due env d st" "sleeve_of_key k = Inr a" "d \<le> d'"
    and "dict_get r ''new_allocation'' = Some (VObject [(k, VText ''NaN'')])" "dict_get r ''current_allocation'' = None"
  shows "run_capital_reallocation_if_due env d (Inr r) st = (Inl DecimalError, st)" "reallocation_due env d' st"
proof -
  have n: "number_of_text ''NaN'' = Some (Not_a_number False)" by code_simp
  have "allocation_weights r = Inl DecimalError"
    using assms(2,4,5) n
    by (simp add: allocation_weights_def dict_get_or_def put_step_def step_ratio_def baseline_def has_items_def
        rebased_def mean_of_def Let_def)
  then show "run_capital_reallocation_if_due env d (Inr r) st = (Inl DecimalError, st)"
    using assms(1) by (simp add: run_capital_reallocation_if_due_def clamped_weights_def)
  show "reallocation_due env d' st" using assms(1,3) by (fastforce simp: due_iff)
qed

text \<open>
  The event comes with a tighter bucket only, so nothing writes the directive of a sleeve that has
  recovered: it is read until the next drawdown.
\<close>

lemma directive_outlives_the_drawdown:
  "mc_directive (read_manager_context env a (on_drawdown_ladder_fired env who b out m)) \<noteq> mc_directive (read_manager_context env a m) \<Longrightarrow>
    who = Some a \<and> b \<in> {ORANGE, RED, FORCED_CASH} \<and> (\<exists>r. out = Inr r \<and> r \<noteq> [])"
  by (cases b)
    (auto simp: on_drawdown_ladder_fired_def read_manager_context_def write_drawdown_directive_def key_directive_def
      split: option.splits sum.splits if_splits; metis agent_roundtrip sum.inject(2))+

subsection \<open>Properties\<close>

text \<open>
  C24 Reallocations that run to their end are at least four weeks apart, whenever the job and its
  catch-up run and whatever the Manager answers, infinities and NaNs included; and every weight they
  leave in the file is between three and five quarters. (One that raises, as with a NaN
  allocation, is not counted: it writes nothing and is tried again at once.)
\<close>

theorem reallocation_is_bounded_and_rare:
  assumes "iso_ok env" "mg_weights st = No_weights"
  shows "sorted_wrt (\<lambda>d e. d + 28 \<le> e) (done_days env cs st)
    \<and> (\<forall>a w. dict_get (read_sleeve_weights (mg_weights (run_calls env cs st))) a = Some w \<longrightarrow> 3 / 4 \<le> w \<and> w \<le> 5 / 4)"
proof -
  have "weight_of a st = None" for a by (simp add: weight_of_def assms(2) read_sleeve_weights_def)
  then show ?thesis
    using done_after [OF assms(1)] run_calls_weight [of _ env cs st] unfolding weight_of_def by fastforce
qed

text \<open>
  A weight is the step of one reallocation, not the product of the steps: an answer that keeps every
  sleeve at its current allocation sets the weights of the sleeves it names back to one.
\<close>

lemma holding_undoes_the_tilt:
  assumes "reallocation_due env d st"
    and "dict_get r ''new_allocation'' = Some (VObject kvs)" "dict_get r ''current_allocation'' = Some (VObject kvs)"
    and "distinct (map fst kvs)" "\<And>k v. (k, v) \<in> set kvs \<Longrightarrow> \<exists>x. py_number v = Inr (Finite x) \<and> 0 < x"
    and "(k, v) \<in> set kvs" "sleeve_of_key k = Inr a"
  shows "dict_get (read_sleeve_weights (mg_weights (snd (run_capital_reallocation_if_due env d (Inr r) st)))) a = Some 1"
proof -
  let ?cur = "VObject kvs" and ?one = "\<lambda>ws. \<forall>x\<in>snd ` set ws. x = Finite 1"
  have step: "put_step ?cur (k, v) out = Inr (case sleeve_of_key k of Inl _ \<Rightarrow> out | Inr a \<Rightarrow> dict_set a (Finite 1) out)"
    if kv: "(k, v) \<in> set kvs" for k v out
  proof -
    obtain x where x: "py_number v = Inr (Finite x)" "0 < x" using assms(5) [OF kv] by blast
    have "dict_get kvs k = Some v" by (rule map_of_is_SomeI [OF assms(4) kv])
    then have "step_ratio ?cur k (Finite x) = Inr (Finite (dround 1))"
      using x by (simp add: step_ratio_def baseline_def ddiv_def)
    moreover have "dround 1 = 1" by (rule dround_small) simp_all
    ultimately show ?thesis using x(1) by (simp add: put_step_def split: sum.split)
  qed
  define put where "put out kv = (case sleeve_of_key (fst kv) of Inl _ \<Rightarrow> out | Inr a \<Rightarrow> dict_set a (Finite 1) out)"
    for out :: "(agent_id, number) dict" and kv :: "string \<times> jval"
  have run: "set xs \<subseteq> set kvs \<Longrightarrow> put_all (put_step ?cur) xs out = Inr (foldl put out xs)" for xs out
    by (induction xs arbitrary: out) (auto simp: step put_def)
  have one: "?one out \<Longrightarrow> ?one (foldl put out xs)" for xs out
  proof (induction xs arbitrary: out)
    case (Cons kv xs)
    have "?one (put out kv)"
    proof (cases "sleeve_of_key (fst kv)")
      case (Inr b)
      then show ?thesis using Cons.prems set_dict_set [of _ b "Finite 1" out] by (fastforce simp: put_def)
    qed (use Cons.prems in \<open>simp add: put_def\<close>)
    then show ?case using Cons.IH by simp
  qed simp
  have got: "dict_get (foldl put out xs) a = (if \<exists>kv\<in>set xs. sleeve_of_key (fst kv) = Inr a then Some (Finite 1) else dict_get out a)" for xs out
    by (induction xs arbitrary: out) (auto simp: put_def split: sum.split)
  obtain kv ws where kvs: "kvs = kv # ws" using assms(6) by (cases kvs) auto
  define out where "out = foldl put [] kvs"
  have "\<exists>kv\<in>set kvs. sleeve_of_key (fst kv) = Inr a" using assms(6,7) by force
  then have out: "put_all (put_step ?cur) kvs [] = Inr out" "?one out" "dict_get out a = Some (Finite 1)"
    using run [of kvs "[]"] one [of "[]" kvs] got [of "[]" kvs] by (simp_all add: out_def)
  then have "allocation_weights r = Inr out"
    using assms(2,3) unfolding allocation_weights_def Let_def dict_get_or_def kvs by (simp add: has_items_def)
  moreover have "map_values clamp_step xs = Inr (map (\<lambda>(a, m). (a, 1)) xs)" if "?one xs" for xs :: "(agent_id, number) dict"
    using that by (induction xs) auto
  ultimately have c: "clamped_weights r = Inr (map (\<lambda>(a, m). (a, 1)) out)" using out(2) by (simp add: clamped_weights_def)
  moreover have "out \<noteq> []" using out(3) by auto
  ultimately show ?thesis
    using assms(1) out(3) read_written_weights [OF clamped_keys [OF c]]
    using map_of_map [of "\<lambda>_. 1 :: decimal" out] by (simp add: run_capital_reallocation_if_due_def Let_def)
qed


text \<open>The test environment writes a day as that many letters.\<close>

definition plain_env :: manager_env where
  "plain_env = \<lparr>me_decode = (\<lambda>_. None), me_dumps = (\<lambda>_. ''{}''), me_repr = (\<lambda>_. ''{}''),
     me_iso = (\<lambda>d. (if d < 0 then CHR ''m'' else CHR ''p'') # replicate (nat \<bar>d\<bar>) CHR ''x''),
     me_from_iso = (\<lambda>s. case s of [] \<Rightarrow> None | c # t \<Rightarrow> Some (if c = CHR ''m'' then - int (length t) else int (length t)))\<rparr>"

lemma plain_env_ok: "iso_ok plain_env"
  by (simp add: iso_ok_def plain_env_def)

definition fresh_manager :: manager_state where
  "fresh_manager = \<lparr>mg_memory = empty_memory, mg_weights = No_weights, mg_fingerprint = None, mg_reports = []\<rparr>"

definition tilt_answer :: "int \<Rightarrow> int \<Rightarrow> (string, jval) dict" where
  "tilt_answer before after = [(''current_allocation'', VObject [(''haiku'', VInt before)]), (''new_allocation'', VObject [(''haiku'', VInt after)])]"

lemma sample_key: "sleeve_of_key ''haiku'' = Inr HAIKU"
  using agent_roundtrip [of HAIKU] by (simp add: sleeve_of_key_def py_lower_def lower_char_def)

lemma sample_tilts:
  "clamped_weights (tilt_answer 1000 1200) = Inr [(HAIKU, 6 / 5)]" "clamped_weights [] = Inr []"
proof -
  have "dround (6 / 5) = 6 / 5" by (simp add: dec_eval)
  then show "clamped_weights (tilt_answer 1000 1200) = Inr [(HAIKU, 6 / 5)]" "clamped_weights [] = Inr []"
    by (simp_all add: clamped_weights_def allocation_weights_def tilt_answer_def dict_get_or_def put_step_def sample_key
        step_ratio_def baseline_def has_items_def ddiv_def Let_def)
qed

lemma finished_call:
  "clamped_weights (case out of Inl _ \<Rightarrow> [] | Inr r \<Rightarrow> r) = Inr ws \<Longrightarrow> fst (run_capital_reallocation_if_due env d out st) = Inr ()"
  by (simp add: run_capital_reallocation_if_due_def Let_def)

lemma done_days_finished:
  "fst (run_capital_reallocation_if_due env d out st) = Inr () \<Longrightarrow>
    done_days env ((d, out) # cs) st = (if reallocation_due env d st then [d] else [])
      @ done_days env cs (snd (run_capital_reallocation_if_due env d out st))"
  by (cases "run_capital_reallocation_if_due env d out st") simp

text \<open>A good answer, a day too early, a failed call, and an answer with a NaN that is repeated the next day.\<close>

theorem reallocation_is_bounded_and_rare_witness:
  "done_days plain_env [(0, Inr (tilt_answer 1000 1200)), (27, Inr []), (28, Inl BrokerUnavailable),
      (60, Inr [(''new_allocation'', VObject [(''haiku'', VText ''NaN'')])]), (61, Inr [])] fresh_manager = [0, 28, 61]
    \<and> sorted_wrt (\<lambda>d e. d + 28 \<le> e) [0, 28, 61 :: date]"
proof -
  have f: "mg_weights fresh_manager = No_weights" by (simp add: fresh_manager_def)
  let ?nan = "[(''new_allocation'', VObject [(''haiku'', VText ''NaN'')])]"
  let ?cs = "[(0, Inr (tilt_answer 1000 1200)), (27, Inr []), (28, Inl BrokerUnavailable), (60, Inr ?nan), (61, Inr [])] :: reallocation_call list"
  have start: "last_fired plain_env fresh_manager = None"
    by (simp add: last_fired_def fresh_manager_def recall_text_def recall_def empty_memory_def)
  have nan: "run_capital_reallocation_if_due plain_env 60 (Inr ?nan) st = (Inl DecimalError, st)"
    if "reallocation_due plain_env 60 st" for st
    by (rule nan_allocation_fires_again(1) [OF that sample_key, of 60]) simp_all
  define st where "st = snd (run_capital_reallocation_if_due plain_env 28 (Inl BrokerUnavailable)
    (snd (run_capital_reallocation_if_due plain_env 27 (Inr []) (snd (run_capital_reallocation_if_due plain_env 0 (Inr (tilt_answer 1000 1200)) fresh_manager)))))"
  note ends = done_days_finished finished_call sample_tilts due_iff last_fired_run [OF plain_env_ok] start
  have last: "last_fired plain_env st = Some 28" by (simp add: st_def ends)
  have "done_days plain_env [(61, Inr [])] st = [61]"
    by (subst done_days_finished) (simp_all add: ends last)
  moreover have "done_days plain_env [(60, Inr ?nan), (61, Inr [])] st = done_days plain_env [(61, Inr [])] st"
    using nan [of st] last by (simp add: due_iff)
  moreover have "done_days plain_env ?cs fresh_manager = [0, 28] @ done_days plain_env [(60, Inr ?nan), (61, Inr [])] st"
    unfolding st_def by (simp add: ends del: done_days.simps(2))
  ultimately have "done_days plain_env ?cs fresh_manager = [0, 28, 61]" by simp
  with reallocation_is_bounded_and_rare [OF plain_env_ok f, of ?cs] show ?thesis by simp
qed

lemma holding_undoes_the_tilt_example:
  "dict_get (read_sleeve_weights (mg_weights (snd (run_capital_reallocation_if_due plain_env 28 (Inr (tilt_answer 1200 1200))
      (fresh_manager\<lparr>mg_weights := Weights [(''haiku'', Some (6 / 5))]\<rparr>))))) HAIKU = Some 1"
proof -
  let ?st = "fresh_manager\<lparr>mg_weights := Weights [(''haiku'', Some (6 / 5))]\<rparr>"
  have due: "reallocation_due plain_env 28 ?st"
    by (simp add: due_iff last_fired_def fresh_manager_def recall_text_def recall_def empty_memory_def)
  show ?thesis
    by (rule holding_undoes_the_tilt [OF due, of _ "[(''haiku'', VInt 1200)]" "''haiku''" "VInt 1200"])
      (simp_all add: tilt_answer_def sample_key)
qed

end
