(* ===== verification/View.thy ===== *)
theory View
  imports Cycle Manager Universes
begin

text \<open>
  What an agent is shown, \<^verbatim>\<open>build_agent_state\<close> of \<^verbatim>\<open>app.py\<close> with the cached VIX it uses, and the whole
  tick of a sleeve: the state, the market snapshot, the model's answer and the dispatch of \<open>Dispatch\<close>. \<open>desk\<close> is
  the state of the application that \<open>app\<close> lacks: the VIX cache, the agents' memories and the spend
  budget. What broker, feeds and model answer is in \<open>desk_env\<close>; the calls whose results the code
  collects in a pool have no effects, so their order does not matter. The news of the last day, which only
  the messages of \<open>Prompts\<close> use, are left out.
\<close>

record desk =
  dk_app :: app
  dk_vix :: "(datetime \<times> decimal option \<times> vix_bucket) option"
  dk_vix_warned :: bool
  dk_memory :: memory_db
  dk_budget :: budget_ledger
  dk_tripped :: bool

record agent_view =
  av_timestamp :: datetime
  av_bars :: bars
  av_positions :: "broker_position list"
  av_account :: broker_account
  av_kill :: kill_switch_state
  av_capability :: decimal
  av_gross :: decimal
  av_vix :: "decimal option"
  av_manager :: manager_context
  av_rejections :: "(datetime \<times> string \<times> string \<times> string) list"

record desk_env =
  ve_dispatch :: dispatch_env
  ve_universe :: "symbol list"
  ve_bars :: "exn + bars"
  ve_positions :: "exn + broker_position list"
  ve_account :: "exn + broker_account"
  ve_latest_vix :: "exn + bar option"
  ve_manager :: manager_env
  ve_lite_reply :: "exn + string"
  ve_reply :: "exn + string"
  ve_fingerprint :: "agent_id \<Rightarrow> agent_view \<Rightarrow> string option"

subsection \<open>The VIX\<close>

definition vix_ttl :: int where "vix_ttl = 15 * 60 * 1000000"

definition fetch_vix :: "exn + bar option \<Rightarrow> datetime \<Rightarrow> desk \<Rightarrow> (decimal option \<times> vix_bucket) \<times> desk" where
  "fetch_vix latest now d = (case latest of
       Inr (Some b) \<Rightarrow> (let v = b_close b in
         ((Some v, classify_vix v), d\<lparr>dk_vix := Some (now, Some v, classify_vix v)\<rparr>))
     | _ \<Rightarrow> ((None, SWEET_SPOT), d\<lparr>dk_vix := Some (now, None, SWEET_SPOT), dk_vix_warned := True\<rparr>))"

definition live_vix :: "exn + bar option \<Rightarrow> datetime \<Rightarrow> desk \<Rightarrow> (decimal option \<times> vix_bucket) \<times> desk" where
  "live_vix latest now d = (case dk_vix d of
       Some (t, v, b) \<Rightarrow> if now - t < vix_ttl then ((v, b), d) else fetch_vix latest now d
     | None \<Rightarrow> fetch_vix latest now d)"

subsection \<open>The state of an agent\<close>

definition fill_symbols :: "symbol list \<Rightarrow> bars \<Rightarrow> bars" where
  "fill_symbols symbols bs = foldl (\<lambda>d s. if dict_get d s = None then dict_set s [] d else d) bs symbols"

definition shown_positions :: "agent_id \<Rightarrow> ledger \<Rightarrow> broker_position list \<Rightarrow> broker_position list" where
  "shown_positions a g ps =
     (let canon = map (\<lambda>p. p\<lparr>bp_symbol := normalize_symbol (bp_symbol p)\<rparr>) ps in
      if a = MANAGER then canon
      else filter (\<lambda>p. dict_get (open_qty_by_symbol a g) (bp_symbol p) \<noteq> None) canon)"

definition no_account :: broker_account where
  "no_account = \<lparr>ba_cash = 0, ba_equity = 0, ba_buying_power = 0, ba_pattern_day_trader = False, ba_daytrade_count = 0\<rparr>"

definition or_else :: "'a \<Rightarrow> exn + 'a \<Rightarrow> 'a" where
  "or_else x r = (case r of Inl _ \<Rightarrow> x | Inr y \<Rightarrow> y)"

definition bucket_now :: "agent_id \<Rightarrow> datetime \<Rightarrow> app \<Rightarrow> drawdown_bucket \<times> app" where
  "bucket_now a now ap = (case with_tracker (get_state a now) ap of
       (Inl _, ap') \<Rightarrow> (NORMAL, ap')
     | (Inr s, ap') \<Rightarrow> (as_drawdown_bucket s, ap'))"

definition no_context :: manager_context where
  "no_context = \<lparr>mc_regime = [], mc_brief = [], mc_directive = [], mc_critique = []\<rparr>"

definition context_for :: "manager_env \<Rightarrow> agent_id \<Rightarrow> memory_db \<Rightarrow> manager_context" where
  "context_for env a m = (if a = MANAGER then no_context else read_manager_context env a m)"

definition build_agent_state :: "desk_env \<Rightarrow> agent_id option \<Rightarrow> symbol list \<Rightarrow> (desk, agent_view) eff" where
  "build_agent_state env who symbols d =
     (let a = (case who of None \<Rightarrow> HAIKU | Some x \<Rightarrow> x);
          now = de_now (ve_dispatch env);
          mc = de_mc (ve_dispatch env);
          bs = fill_symbols symbols (or_else [] (ve_bars env));
          ps = shown_positions a (ap_lots (dk_app d)) (or_else [] (ve_positions env));
          acc = or_else no_account (ve_account env)
      in case live_vix (ve_latest_vix env) now d of ((v, vb), d1) \<Rightarrow>
         (case bucket_now a now (dk_app d1) of (dd, ap) \<Rightarrow>
            let d2 = d1\<lparr>dk_app := ap\<rparr> in
            (bindr (effective_max_gross (de_weights (ve_dispatch env)) a mc vb dd) (\<lambda>emg. Inr
               \<lparr>av_timestamp = now, av_bars = bs, av_positions = ps, av_account = acc,
                av_kill = ks_state (ap_kill ap), av_capability = mc, av_gross = emg, av_vix = v,
                av_manager = context_for (ve_manager env) a (dk_memory d2),
                av_rejections = recent_rejections_by_agent (agent_str a) (now - 48 * us_per_hour) 10 (om_log (ap_oms ap))\<rparr>),
             d2)))"

subsection \<open>A tick\<close>

definition observation_of :: "agent_view \<Rightarrow> observation" where
  "observation_of v = \<lparr>ob_timestamp = av_timestamp v, ob_positions = av_positions v, ob_kill = av_kill v\<rparr>"

fun observe_agent :: "desk_env \<Rightarrow> agent_id \<Rightarrow> agent_view \<Rightarrow> intent list thought" where
  "observe_agent env HAIKU v = haiku_observe (me_repr (ve_manager env)) (me_decode (ve_manager env)) (ve_reply env) (observation_of v)"
| "observe_agent env SONNET v = sonnet_observe (me_repr (ve_manager env)) (me_decode (ve_manager env)) (ve_reply env) (observation_of v)"
| "observe_agent env OPUS v = opus_observe (me_repr (ve_manager env)) (me_decode (ve_manager env))
     (ve_lite_reply env) (ve_reply env) (observation_of v)"
| "observe_agent env MANAGER v = raise AttributeError"

definition mind_of :: "desk \<Rightarrow> mind" where
  "mind_of d = \<lparr>mi_fresh = om_fresh (ap_oms (dk_app d)), mi_memory = dk_memory d\<rparr>"

definition put_mind :: "mind \<Rightarrow> desk \<Rightarrow> desk" where
  "put_mind s d = d\<lparr>dk_app := (dk_app d)\<lparr>ap_oms := (ap_oms (dk_app d))\<lparr>om_fresh := mi_fresh s\<rparr>\<rparr>, dk_memory := mi_memory s\<rparr>"

text \<open>The model is asked when the tracker knows the agent and its signals have changed.\<close>

definition is_asked :: "agent_id \<Rightarrow> string option \<Rightarrow> desk \<Rightarrow> bool" where
  "is_asked a fp d \<longleftrightarrow> dict_get (ap_records (dk_app d)) a \<noteq> None
     \<and> (fp = None \<or> dict_get (ap_fingerprint (dk_app d)) a \<noteq> fp)"

definition tick_env :: "desk_env \<Rightarrow> agent_view \<Rightarrow> market_snapshot \<Rightarrow> dispatch_env" where
  "tick_env env v ms = (ve_dispatch env)\<lparr>de_gross := av_gross v, de_snapshot := ms\<rparr>"

definition act_on_view :: "desk_env \<Rightarrow> agent_id \<Rightarrow> agent_view \<Rightarrow> market_snapshot \<Rightarrow> (desk, intent list) eff" where
  "act_on_view env a v ms d =
     (let fp = ve_fingerprint env a v in
      case (if is_asked a fp d then observe_agent env a v (mind_of d) else (Inr [], mind_of d)) of (observed, s) \<Rightarrow>
        let d1 = put_mind s d in
        (case dispatch_observation a fp observed (tick_env env v ms) (dk_app d1) of (r, ap) \<Rightarrow> (r, d1\<lparr>dk_app := ap\<rparr>)))"

definition dispatch_agent :: "desk_env \<Rightarrow> agent_id \<Rightarrow> (desk, intent list) eff" where
  "dispatch_agent env a d =
     (if ks_state (ap_kill (dk_app d)) = BUDGET_EXHAUSTED \<and> a \<noteq> HAIKU then (Inr [], d)
      else andthen (build_agent_state env (Some a) (ve_universe env)) (\<lambda>v.
           andthen (lift_res (build_market_snapshot (av_bars v) (av_vix v) (av_timestamp v))) (\<lambda>ms.
             act_on_view env a v ms)) d)"

definition live_metrics :: "desk_env \<Rightarrow> (desk, decimal \<times> decimal \<times> vix_bucket \<times> bool) eff" where
  "live_metrics env d =
     (case live_vix (ve_latest_vix env) (de_now (ve_dispatch env)) d of ((v, vb), d1) \<Rightarrow>
        case bucket_now HAIKU (de_now (ve_dispatch env)) (dk_app d1) of (dd, ap) \<Rightarrow>
          (bindr (effective_max_gross (de_weights (ve_dispatch env)) HAIKU (de_mc (ve_dispatch env)) vb dd)
             (\<lambda>emg. Inr (de_mc (ve_dispatch env), emg, vb, ks_state (ap_kill ap) \<noteq> OK)), d1\<lparr>dk_app := ap\<rparr>))"

subsection \<open>The two caps\<close>

text \<open>What the cache holds is a reading with its bucket, or a failure with the fallback.\<close>

definition bucket_of_reading :: "decimal option \<Rightarrow> vix_bucket" where
  "bucket_of_reading v = (case v of None \<Rightarrow> SWEET_SPOT | Some x \<Rightarrow> classify_vix x)"

definition vix_ok :: "desk \<Rightarrow> bool" where
  "vix_ok d \<longleftrightarrow> (\<forall>t v b. dk_vix d = Some (t, v, b) \<longrightarrow> b = bucket_of_reading v)"

lemma live_vix_bucket:
  assumes "live_vix latest now d = ((v, b), d')" "vix_ok d"
  shows "b = bucket_of_reading v" "vix_ok d'" "dk_app d' = dk_app d" "dk_memory d' = dk_memory d"
  using assms by (auto simp: live_vix_def fetch_vix_def vix_ok_def bucket_of_reading_def Let_def
      split: option.splits sum.splits if_splits prod.splits)

lemma viewD:
  assumes "build_agent_state env (Some a) symbols d = (Inr v, d')" "vix_ok d"
  obtains dd where "dd = fst (bucket_now a (de_now (ve_dispatch env)) (dk_app d))"
    "effective_max_gross (de_weights (ve_dispatch env)) a (de_mc (ve_dispatch env)) (bucket_of_reading (av_vix v)) dd = Inr (av_gross v)"
    "av_positions v = shown_positions a (ap_lots (dk_app d)) (or_else [] (ve_positions env))"
    "av_timestamp v = de_now (ve_dispatch env)" "vix_ok d'"
proof -
  obtain x vb d1 where x: "live_vix (ve_latest_vix env) (de_now (ve_dispatch env)) d = ((x, vb), d1)" by (metis surj_pair)
  note lv = live_vix_bucket [OF this assms(2)]
  obtain dd ap where b: "bucket_now a (de_now (ve_dispatch env)) (dk_app d) = (dd, ap)" by fastforce
  have "vix_ok (d1\<lparr>dk_app := ap\<rparr>)" using lv(2) by (simp add: vix_ok_def)
  then show ?thesis
    using assms(1) lv(1,3) that [of dd] b by (auto simp: build_agent_state_def Let_def x bindr_Inr_iff)
qed

lemma snapshot_vix:
  assumes "build_market_snapshot bs v ts = Inr ms"
  shows "ms_vix_bucket ms = classify_vix (case v of None \<Rightarrow> 18 | Some x \<Rightarrow> if x = 0 then 18 else x)"
  using assms by (auto simp: build_market_snapshot_def bindr_Inr_iff split: prod.splits)

text \<open>
  The cap on gross exposure that an agent is shown and the gate is asked with is the one the planner
  computes from the market snapshot, while the drawdown bucket stays; but without a VIX reading the first is taken
  for a calm market and the second for an elevated one.
\<close>

lemma shown_and_planned_caps:
  assumes "build_agent_state env (Some a) symbols d = (Inr v, d')" "vix_ok d"
    and "build_market_snapshot (av_bars v) (av_vix v) (av_timestamp v) = Inr ms"
  shows "\<exists>vb. effective_max_gross (de_weights (ve_dispatch env)) a (de_mc (ve_dispatch env)) vb
        (fst (bucket_now a (de_now (ve_dispatch env)) (dk_app d))) = Inr (av_gross v)
    \<and> (case av_vix v of
         Some x \<Rightarrow> x \<noteq> 0 \<longrightarrow> ms_vix_bucket ms = vb
       | None \<Rightarrow> vb = SWEET_SPOT \<and> ms_vix_bucket ms = ELEVATED)"
proof -
  from viewD [OF assms(1,2)] have
    "effective_max_gross (de_weights (ve_dispatch env)) a (de_mc (ve_dispatch env)) (bucket_of_reading (av_vix v))
       (fst (bucket_now a (de_now (ve_dispatch env)) (dk_app d))) = Inr (av_gross v)" by blast
  then show ?thesis
    using snapshot_vix [OF assms(3)]
    by (intro exI [of _ "bucket_of_reading (av_vix v)"])
      (auto simp: bucket_of_reading_def classify_vix_def split: option.split)
qed

subsection \<open>Positions\<close>

lemma shown_iff:
  assumes "a \<noteq> MANAGER"
  shows "p \<in> set (shown_positions a g ps) \<longleftrightarrow> dict_get (open_qty_by_symbol a g) (bp_symbol p) \<noteq> None
    \<and> (\<exists>q\<in>set ps. p = q\<lparr>bp_symbol := normalize_symbol (bp_symbol q)\<rparr>)"
  using assms by (auto simp: shown_positions_def Let_def)

lemma open_qty_pos: "dict_get (open_qty_by_symbol a g) s = Some q \<Longrightarrow> 0 < q"
  unfolding open_qty_by_symbol_def by (auto dest!: map_of_SomeD)

text \<open>
  Two sleeves that hold the same symbol are both shown the account's whole position of it, each more
  than it holds itself: the positions an agent is shown are not those traceable to its own fills.
\<close>

lemma shared_position_is_shown_twice:
  assumes "build_agent_state env (Some a) symbols d = (Inr va, d')" "build_agent_state env (Some b) symbols d = (Inr vb, d'')"
    and "vix_ok d" "a \<noteq> MANAGER" "b \<noteq> MANAGER" "ve_positions env = Inr ps" "q \<in> set ps"
    and "dict_get (open_qty_by_symbol a (ap_lots (dk_app d))) (normalize_symbol (bp_symbol q)) = Some qa"
    and "dict_get (open_qty_by_symbol b (ap_lots (dk_app d))) (normalize_symbol (bp_symbol q)) = Some qb"
    and "qa + qb \<le> bp_qty q"
  shows "\<exists>p. p \<in> set (av_positions va) \<and> p \<in> set (av_positions vb) \<and> bp_symbol p = normalize_symbol (bp_symbol q)
    \<and> bp_qty p = bp_qty q \<and> qa < bp_qty p \<and> qb < bp_qty p"
proof -
  let ?p = "q\<lparr>bp_symbol := normalize_symbol (bp_symbol q)\<rparr>"
  from viewD [OF assms(1,3)] have va: "av_positions va = shown_positions a (ap_lots (dk_app d)) ps"
    using assms(6) by (metis or_else_def sum.case(2))
  from viewD [OF assms(2,3)] have vb: "av_positions vb = shown_positions b (ap_lots (dk_app d)) ps"
    using assms(6) by (metis or_else_def sum.case(2))
  have "?p \<in> set (av_positions va)" "?p \<in> set (av_positions vb)"
    using assms(4,5,7,8,9) unfolding va vb by (auto simp: shown_iff)
  moreover have "qa < bp_qty q" "qb < bp_qty q"
    using open_qty_pos [OF assms(8)] open_qty_pos [OF assms(9)] assms(10) by simp_all
  ultimately show ?thesis by (intro exI [of _ ?p]) simp
qed

subsection \<open>Examples\<close>

text \<open>The state is built whatever fails, unless the master capability is out of range.\<close>

lemma view_is_built:
  assumes "de_mc (ve_dispatch env) \<le> max_master_capability"
  obtains v d' where "build_agent_state env (Some a) symbols d = (Inr v, d')" "ve_bars env = Inr [] \<and> symbols = [] \<Longrightarrow> av_bars v = []"
    "dk_vix d = None \<and> isl (ve_latest_vix env) \<Longrightarrow> av_vix v = None"
proof -
  obtain x vb d1 where x: "live_vix (ve_latest_vix env) (de_now (ve_dispatch env)) d = ((x, vb), d1)" by (metis surj_pair)
  obtain dd ap where b: "bucket_now a (de_now (ve_dispatch env)) (dk_app d1) = (dd, ap)" by fastforce
  have "dk_vix d = None \<and> isl (ve_latest_vix env) \<Longrightarrow> x = None"
    using x by (auto simp: live_vix_def fetch_vix_def isl_def)
  with assms b that show ?thesis
    by (auto simp: build_agent_state_def Let_def x effective_max_gross_def fill_symbols_def or_else_def)
qed

definition shared_book :: ledger where
  "shared_book = (empty_ledger None)\<lparr>lg_lots := [(0, (sample_lot 0 1 3 0)\<lparr>l_agent_id := HAIKU\<rparr>), (1, sample_lot 1 2 2 1)]\<rparr>"

definition sample_desk :: "kill_engine \<Rightarrow> ledger \<Rightarrow> desk" where
  "sample_desk k g = \<lparr>dk_app = sample_app k g, dk_vix = None, dk_vix_warned = False, dk_memory = empty_memory,
     dk_budget = load_budget NoFile 1 0, dk_tripped = False\<rparr>"

definition spy_position :: broker_position where
  "spy_position = \<lparr>bp_symbol = ''SPY'', bp_qty = 5, bp_avg_entry_price = 100, bp_current_price = 100, bp_asset_class = EQUITY\<rparr>"

definition sample_desk_env :: desk_env where
  "sample_desk_env = \<lparr>ve_dispatch = sample_dispatch, ve_universe = [], ve_bars = Inr [], ve_positions = Inr [spy_position],
     ve_account = Inl BrokerUnavailable, ve_latest_vix = Inl BrokerUnavailable, ve_manager = plain_env,
     ve_lite_reply = Inl ValueError, ve_reply = Inl ValueError, ve_fingerprint = (\<lambda>_ _. Some [])\<rparr>"

lemma sample_desk_facts [simp]:
  "vix_ok (sample_desk k g)" "de_mc (ve_dispatch sample_desk_env) \<le> max_master_capability"
  "ap_lots (dk_app (sample_desk k g)) = g" "dk_vix (sample_desk k g) = None" "ve_bars sample_desk_env = Inr []"
  "isl (ve_latest_vix sample_desk_env)" "ve_positions sample_desk_env = Inr [spy_position]"
  by (simp_all add: vix_ok_def sample_desk_def sample_desk_env_def sample_dispatch_def max_master_capability_def sample_app_def)

lemma shown_and_planned_caps_example:
  "\<exists>(v :: agent_view) ms. build_market_snapshot (av_bars v) (av_vix v) (av_timestamp v) = Inr ms \<and> ms_vix_bucket ms = ELEVATED
     \<and> effective_max_gross No_weights OPUS 1 SWEET_SPOT NORMAL = Inr (av_gross v)"
proof -
  let ?d = "sample_desk (new_engine 60) shared_book"
  obtain v d' where v: "build_agent_state sample_desk_env (Some OPUS) [] ?d = (Inr v, d')" "av_bars v = []" "av_vix v = None"
    using view_is_built [OF sample_desk_facts(2), of OPUS "[]" ?d] by auto
  then obtain ms where ms: "build_market_snapshot (av_bars v) (av_vix v) (av_timestamp v) = Inr ms"
    by (simp add: build_market_snapshot_def)
  have "fst (bucket_now OPUS 0 (dk_app ?d)) = NORMAL"
    by (simp add: bucket_now_def with_tracker_def tracker_of_def get_state_def put_rec_def sample_desk_def sample_app_def
        initial_records_def all_agents_def state_of_rec_def expire_bench_def fresh_rec_def)
  with shown_and_planned_caps [OF v(1) sample_desk_facts(1) ms] v(3) ms show ?thesis
    by - (intro exI [of _ v] exI [of _ ms], simp add: sample_desk_env_def sample_dispatch_def)
qed

lemma shared_position_is_shown_twice_example:
  "\<exists>va vb p. fst (build_agent_state sample_desk_env (Some HAIKU) [] (sample_desk (new_engine 60) shared_book)) = Inr va
     \<and> fst (build_agent_state sample_desk_env (Some SONNET) [] (sample_desk (new_engine 60) shared_book)) = Inr vb
     \<and> p \<in> set (av_positions va) \<and> p \<in> set (av_positions vb) \<and> bp_qty p = 5"
proof -
  let ?d = "sample_desk (new_engine 60) shared_book"
  obtain va d' where va: "build_agent_state sample_desk_env (Some HAIKU) [] ?d = (Inr va, d')"
    using view_is_built [OF sample_desk_facts(2)] by blast
  obtain vb d'' where vb: "build_agent_state sample_desk_env (Some SONNET) [] ?d = (Inr vb, d'')"
    using view_is_built [OF sample_desk_facts(2)] by blast
  have "dict_get (open_qty_by_symbol HAIKU shared_book) ''SPY'' = Some 3" "dict_get (open_qty_by_symbol SONNET shared_book) ''SPY'' = Some 2"
    by (simp_all add: open_qty_by_symbol_def all_lots_def shared_book_def add_open_qty_def sample_lot_def dadd_def dround_small dict_get_or_def)
  then have "\<exists>p. p \<in> set (av_positions va) \<and> p \<in> set (av_positions vb) \<and> bp_symbol p = normalize_symbol (bp_symbol spy_position)
    \<and> bp_qty p = bp_qty spy_position \<and> 3 < bp_qty p \<and> 2 < bp_qty p"
    by (intro shared_position_is_shown_twice [OF va vb, where ps = "[spy_position]"]) (simp_all add: spy_position_def normalize_symbol_def)
  then show ?thesis using va vb by (auto simp: spy_position_def)
qed

end
