(* ===== verification/Jobs.thy ===== *)
theory Jobs
  imports View "HOL-Library.List_Lexorder" "HOL-Library.Char_ord"
begin

text \<open>
  The scheduled jobs of \<^verbatim>\<open>app.py\<close> that trade or keep state: the midnight reset, the Manager's reserve,
  Opus' book building and its rotation of deep dives, the dive on news, the volatility scan and the
  Sunday critique. A job is an operation on the \<open>desk\<close>; an exception that leaves it is logged by the scheduler, so
  a failing job leaves the state it has reached. ISO texts of dates and weeks come from outside.
\<close>

subsection \<open>The day's reset\<close>

definition watcher_of :: "desk \<Rightarrow> watcher" where
  "watcher_of d = \<lparr>bw_ledger = dk_budget d, bw_kill = ap_kill (dk_app d), bw_tripped = dk_tripped d, bw_bus = Some []\<rparr>"

definition with_watcher :: "(watcher \<Rightarrow> 'a \<times> watcher) \<Rightarrow> desk \<Rightarrow> 'a \<times> desk" where
  "with_watcher f d = (case f (watcher_of d) of (x, w) \<Rightarrow>
     (x, d\<lparr>dk_app := foldl (\<lambda>ap t. announce (BudgetExhaustedEvent t) ap) ((dk_app d)\<lparr>ap_kill := bw_kill w\<rparr>)
            (case bw_bus w of None \<Rightarrow> [] | Some ts \<Rightarrow> ts),
          dk_budget := bw_ledger w, dk_tripped := bw_tripped w\<rparr>))"

definition budget_check :: "desk \<Rightarrow> bool \<times> desk" where
  "budget_check = with_watcher check_once"

definition budget_reset :: "date \<Rightarrow> desk \<Rightarrow> desk" where
  "budget_reset today d =
     (let d1 = d\<lparr>dk_budget := snd (reset_if_new_day today (dk_budget d))\<rparr>;
          d2 = snd (with_watcher (\<lambda>w. ((), reset_watcher w)) d1)
      in d2\<lparr>dk_app := (dk_app d2)\<lparr>ap_kill := reset_daily (ap_kill (dk_app d2))\<rparr>\<rparr>)"

subsection \<open>The Manager's reserve\<close>

definition reserve_target :: decimal where "reserve_target = 10000"

text \<open>\<^verbatim>\<open>quantize(Decimal("0.0001"))\<close>, half to even.\<close>

definition to_four_places :: "decimal \<Rightarrow> exn + decimal" where
  "to_four_places x = (let n = rhe (x * 10000) in if \<bar>n\<bar> < 10 ^ 28 then Inr (of_int n / 10000) else Inl DecimalError)"

definition reserve_order :: "uuid \<Rightarrow> decimal \<Rightarrow> datetime \<Rightarrow> order" where
  "reserve_order n q now =
     \<lparr>o_id = n, o_intent_id = Suc n, o_agent_id = MANAGER, o_symbol = ''SPY'',
      o_side = BUY, o_qty = q, o_order_type = MARKET, o_order_class = SIMPLE, o_time_in_force = DAY,
      o_state = PENDING, o_created_at = now, o_limit_price = None, o_stop_price = None, o_trail_percent = None,
      o_broker_order_id = None, o_legs = [], o_submitted_at = None, o_filled_at = None, o_filled_qty = 0,
      o_filled_avg_price = None, o_rejection_reason = None, o_is_letf = False, o_letf_entry_date = None\<rparr>"

text \<open>The quantity to buy, \<open>None\<close> for no purchase. \<open>bars\<close> are the last ten days of SPY.\<close>

definition reserve_qty :: "exn + bar list \<Rightarrow> exn + broker_account \<Rightarrow> app \<Rightarrow> exn + decimal option" where
  "reserve_qty bars account ap =
     (if 0 < dict_get_or (open_qty_by_symbol MANAGER (ap_lots ap)) ''SPY'' 0
         \<or> (\<exists>ord\<in>set (list_open_orders (ap_oms ap)). o_agent_id ord = MANAGER \<and> o_symbol ord = ''SPY'')
         \<or> or_else [] bars = []
      then Inr None
      else (let mark = b_close (last (or_else [] bars)) in
        if mark \<le> 0 then Inr None
        else (case account of
            Inl _ \<Rightarrow> Inr None
          | Inr acc \<Rightarrow>
              if ba_cash acc < reserve_target then Inr None
              else bindr (to_four_places (ddiv reserve_target mark)) (\<lambda>q. Inr (if q \<le> 0 then None else Some q)))))"

definition manager_reserve_check ::
  "dispatch_env \<Rightarrow> exn + bar list \<Rightarrow> exn + broker_account \<Rightarrow> (app, unit) eff" where
  "manager_reserve_check env bars account ap = (case reserve_qty bars account ap of
       Inl e \<Rightarrow> (Inl e, ap)
     | Inr None \<Rightarrow> (Inr (), ap)
     | Inr (Some q) \<Rightarrow>
         (let n = om_fresh (ap_oms ap); ap1 = ap\<lparr>ap_oms := (ap_oms ap)\<lparr>om_fresh := Suc (Suc n)\<rparr>\<rparr> in
          (Inr (), snd (with_oms (submit_order (de_reply env) (reserve_order n q (de_now env))) (de_now env) ap1))))"

subsection \<open>Opus\<close>

definition under_invested :: "app \<Rightarrow> bool" where
  "under_invested ap \<longleftrightarrow> length (filter (\<lambda>(s, q). 0 < q) (open_qty_by_symbol OPUS (ap_lots ap))) < target_holdings"

definition opus_daily_init :: "desk_env \<Rightarrow> (desk, intent list) eff" where
  "opus_daily_init env d = (if under_invested (dk_app d) then dispatch_agent env OPUS d else (Inr [], d))"

definition dive_key :: "symbol \<Rightarrow> string" where
  "dive_key s = ''last_deep_dive:'' @ s"

definition last_dive :: "memory_db \<Rightarrow> symbol \<Rightarrow> string" where
  "last_dive m s = (case recall OPUS (dive_key s) m of
       None \<Rightarrow> ''0000-00-00''
     | Some t \<Rightarrow> if t = [] then ''0000-00-00'' else t)"

definition plumbing :: "symbol set" where
  "plumbing = set (map py_upper plumbing_universe)"

definition dive_candidates :: "desk \<Rightarrow> symbol list" where
  "dive_candidates d = filter (\<lambda>s. s \<in> plumbing) (merge_names (map py_upper
     (map fst (open_qty_by_symbol OPUS (ap_lots (dk_app d))) @ get_watchlist (dk_memory d))))"

definition with_drawn :: "'a ids \<Rightarrow> (desk, 'a) eff" where
  "with_drawn m d = (case m (om_fresh (ap_oms (dk_app d))) of (r, n) \<Rightarrow>
     (r, d\<lparr>dk_app := (dk_app d)\<lparr>ap_oms := (ap_oms (dk_app d))\<lparr>om_fresh := n\<rparr>\<rparr>\<rparr>))"

definition with_app :: "(app, 'a) eff \<Rightarrow> (desk, 'a) eff" where
  "with_app m d = (case m (dk_app d) of (r, ap) \<Rightarrow> (r, d\<lparr>dk_app := ap\<rparr>))"

definition remember_opus :: "string \<Rightarrow> string \<Rightarrow> (desk, unit) eff" where
  "remember_opus k t = modify (\<lambda>d. d\<lparr>dk_memory := remember OPUS k t (dk_memory d)\<rparr>)"

definition opus_run_deep_dive :: "desk_env \<Rightarrow> symbol \<Rightarrow> (desk, unit) eff" where
  "opus_run_deep_dive env s0 =
     (let s = py_upper s0; data = deep_dive (me_decode (ve_manager env)) (ve_reply env) in
      andthen (build_agent_state env (Some OPUS) (ve_universe env)) (\<lambda>v.
      andthen (remember_opus (dive_key s) (me_iso (ve_manager env) (date_of (av_timestamp v)))) (\<lambda>_.
      andthen (with_drawn (extract_deep_dive_intent (me_repr (ve_manager env)) (av_timestamp v) data s)) (\<lambda>found.
        case found of
          None \<Rightarrow> skip
        | Some i \<Rightarrow>
            andthen (lift_res (build_market_snapshot (av_bars v) (av_vix v) (av_timestamp v))) (\<lambda>ms.
            andthen (with_app (submit_one_intent (tick_env env v ms) i)) (\<lambda>_. skip))))))"

definition dive_order :: "desk \<Rightarrow> symbol list" where
  "dive_order d = sort_key (last_dive (dk_memory d)) (dive_candidates d)"

definition opus_deep_dive_rotation :: "desk_env \<Rightarrow> nat \<Rightarrow> (desk, unit) eff" where
  "opus_deep_dive_rotation env slot d =
     (if slot < length (dive_order d) then opus_run_deep_dive env (dive_order d ! slot) d else (Inr (), d))"

text \<open>\<open>week\<close> is the text of the ISO year and week.\<close>

definition news_key :: "string \<Rightarrow> string" where
  "news_key week = ''extra_dives_iso_week_'' @ week"

definition dive_is_due :: "string \<Rightarrow> symbol \<Rightarrow> desk \<Rightarrow> bool" where
  "dive_is_due week s d \<longleftrightarrow> s \<noteq> [] \<and> s \<in> plumbing
     \<and> s \<in> set (map py_upper (map fst (open_qty_by_symbol OPUS (ap_lots (dk_app d))) @ get_watchlist (dk_memory d)))
     \<and> (case recall OPUS (news_key week) (dk_memory d) of None \<Rightarrow> True | Some t \<Rightarrow> t = [])"

definition on_news_high_impact :: "desk_env \<Rightarrow> string \<Rightarrow> symbol \<Rightarrow> desk \<Rightarrow> desk" where
  "on_news_high_impact env week s0 d =
     (let s = py_upper s0 in
      if \<not> dive_is_due week s d then d
      else (case opus_run_deep_dive env s d of
          (Inl _, d') \<Rightarrow> d'
        | (Inr _, d') \<Rightarrow> snd (remember_opus (news_key week) s d')))"

subsection \<open>The volatility scan\<close>

definition shock_threshold :: decimal where "shock_threshold = 5 / 100"

definition sleeves :: "agent_id list" where "sleeves = [HAIKU, SONNET, OPUS]"

definition shock_of :: "ledger \<Rightarrow> (symbol \<Rightarrow> exn + bar list) \<Rightarrow> symbol \<Rightarrow> bus_event option" where
  "shock_of g get_bars s =
     (let bs = or_else [] (get_bars s) in
      if length bs < 2 then None
      else (let prev = b_close (bs ! (length bs - 2)); cur = b_close (last bs) in
        if prev \<le> 0 then None
        else (let move = ddiv (dsub cur prev) prev in
          if \<bar>move\<bar> < shock_threshold then None
          else Some (PositionIntradayShock s prev cur move
                 (filter (\<lambda>a. dict_get (open_qty_by_symbol a g) s \<noteq> None) sleeves)))))"

definition held_symbols :: "broker_position list \<Rightarrow> symbol list" where
  "held_symbols ps = sorted_list_of_set (set (map (\<lambda>p. normalize_symbol (bp_symbol p)) ps))"

text \<open>\<open>macro\<close> tells whether the calendar lists an event for today.\<close>

definition scan_volatility_once :: "desk_env \<Rightarrow> bool \<Rightarrow> (symbol \<Rightarrow> exn + bar list) \<Rightarrow> (desk, unit) eff" where
  "scan_volatility_once env macro get_bars d =
     (if macro then andthen (dispatch_agent env HAIKU) (\<lambda>_. skip) d
      else (Inr (), d\<lparr>dk_app := foldl (\<lambda>ap e. announce e ap) (dk_app d)
              (List.map_filter (shock_of (ap_lots (dk_app d)) get_bars) (held_symbols (or_else [] (ve_positions env))))\<rparr>))"

subsection \<open>The Sunday critique\<close>

definition critique_text :: "manager_env \<Rightarrow> (string, jval) dict \<Rightarrow> string \<Rightarrow> string \<Rightarrow> string" where
  "critique_text env c k other = py_str (me_repr env) (dict_get_or c k (VText other))"

definition critique_block :: "manager_env \<Rightarrow> (string, jval) dict \<Rightarrow> string" where
  "critique_block env c =
     ''['' @ critique_text env c ''severity'' ''minor'' @ ''] '' @ py_strip (critique_text env c ''summary_of_intent'' []) @ [newline]
     @ ''  objection: '' @ py_strip (critique_text env c ''red_team_objection'' []) @ [newline]
     @ ''  flip evidence: '' @ py_strip (critique_text env c ''what_evidence_would_change_my_mind'' [])"

definition blocks_for :: "manager_env \<Rightarrow> jval list \<Rightarrow> agent_id \<Rightarrow> string list" where
  "blocks_for env cs a = List.map_filter (\<lambda>v. case v of
       VObject c \<Rightarrow> if sleeve_of_key (critique_text env c ''agent'' []) = Inr a then Some (critique_block env c) else None
     | _ \<Rightarrow> None) cs"

text \<open>Rows whose action is no action are skipped.\<close>

definition critique_picks :: "datetime \<Rightarrow> memory_db \<Rightarrow> intent_row list" where
  "critique_picks now m = concat (map (\<lambda>a. filter (\<lambda>r. \<not> isl (action_of_text (ir_action r)))
     (top_intents_since a (now - 7 * 24 * us_per_hour) 3 m)) sleeves)"

definition store_critiques :: "manager_env \<Rightarrow> jval list \<Rightarrow> memory_db \<Rightarrow> memory_db" where
  "store_critiques env cs m = foldl (\<lambda>m a. let bs = blocks_for env cs a in
     if bs = [] then m else write_adversarial_critique a (take 600 (join_with [newline, newline] bs)) m) m sleeves"

definition sunday_critique :: "desk_env \<Rightarrow> exn + (string, jval) dict \<Rightarrow> (desk, unit) eff" where
  "sunday_critique env answer =
     andthen (build_agent_state env (Some MANAGER) (ve_universe env)) (\<lambda>v.
       modify (\<lambda>d. if critique_picks (av_timestamp v) (dk_memory d) = [] then d
         else (case answer of
             Inl _ \<Rightarrow> d
           | Inr r \<Rightarrow> (case dict_get_or r ''critiques'' VNull of
                 VList (c # cs) \<Rightarrow> d\<lparr>dk_memory := store_critiques (ve_manager env) (c # cs) (dk_memory d)\<rparr>
               | _ \<Rightarrow> d))))"

subsection \<open>The state of the kill switch\<close>

text \<open>Nothing in a tick changes the state of the kill switch.\<close>

definition switch :: "app \<Rightarrow> kill_switch_state" where
  "switch ap = ks_state (ap_kill ap)"

definition keeps_switch :: "(app \<Rightarrow> 'a \<times> app) \<Rightarrow> bool" where
  "keeps_switch f \<longleftrightarrow> (\<forall>ap. switch (snd (f ap)) = switch ap)"

lemma switch_announce [simp]: "switch (announce e ap) = switch ap" "switch (record_outcome i oc ap) = switch ap"
  by (simp_all add: switch_def record_outcome_def)

lemma switch_update [simp]: "switch (ap\<lparr>ap_oms := s\<rparr>) = switch ap" "switch (ap\<lparr>ap_lots := g\<rparr>) = switch ap"
  "switch (ap\<lparr>ap_fingerprint := fp\<rparr>) = switch ap"
  by (simp_all add: switch_def)

lemma keeps_switch_andthen:
  "keeps_switch m \<Longrightarrow> (\<And>x. keeps_switch (f x)) \<Longrightarrow> keeps_switch (andthen m f)"
  by (auto simp: keeps_switch_def andthen_def split: prod.split sum.split) (metis snd_conv)+

lemma benched_state [simp]: "ks_state (snd (is_agent_benched a ts k)) = ks_state k"
  by (simp add: is_agent_benched_def split: option.split)

lemma check_intent_state: "ks_state (rg_kill (snd (check_intent i s gross ps ts g))) = ks_state (rg_kill g)"
proof -
  obtain b k where b: "is_agent_benched (as_agent_id s) ts (rg_kill g) = (b, k)" by fastforce
  then have k: "ks_state k = ks_state (rg_kill g)" using benched_state [of "as_agent_id s" ts "rg_kill g"] by simp
  have letf: "rg_kill (snd (check_letfs i today h)) = rg_kill h" for i today h
    by (auto simp: check_letfs_def check_letf_rotation_def Let_def split: option.split prod.split if_split)
  have "rg_kill h' = rg_kill h" if "check_letfs i today h = (r, h')" for today h r h'
    using letf [of i today h] that by simp
  then show ?thesis
    using k by (auto simp: check_intent_def b Let_def split: option.split prod.split if_split) 
qed

lemma gate_switch: "keeps_switch (evaluate_with_risk_gate env i s)"
  by (auto simp: keeps_switch_def evaluate_with_risk_gate_def with_gate_def switch_def gate_of_def
      dest: arg_cong [where f = "\<lambda>x. ks_state (rg_kill (snd x))"] split: prod.split)
    (metis check_intent_state risk_gate.select_convs(1) snd_conv)

lemma tracker_switch:
  assumes "\<And>t. ks_state (tk_kill (snd (f t))) = ks_state (tk_kill t)"
  shows "keeps_switch (with_tracker f)"
  unfolding keeps_switch_def
proof
  fix ap
  have "ks_state (tk_kill (snd (f (tracker_of ap)))) = ks_state (ap_kill ap)"
    by (simp add: assms) (simp add: tracker_of_def)
  then show "switch (snd (with_tracker f ap)) = switch ap"
    by (simp add: with_tracker_def switch_def case_prod_beta)
qed

lemma tracker_parts [simp]:
  "tk_kill (put_rec a r t) = tk_kill t" "tk_kill (tracker_publish e t) = tk_kill t" "tk_kill (maybe_persist t) = tk_kill t"
  by (simp_all add: put_rec_def tracker_publish_def maybe_persist_def)

lemma get_state_switch: "keeps_switch (with_tracker (get_state a now))"
  by (rule tracker_switch) (simp add: get_state_def split: option.split)

lemma mark_switch: "keeps_switch (with_tracker (update_on_mark a px now))"
  by (rule tracker_switch) (simp add: update_on_mark_def apply_bucket_with_recovery_def Let_def split: option.split)

lemma record_loss_state: "ks_state (tk_kill (record_loss a now r t)) = ks_state (tk_kill t)"
  by (simp add: record_loss_def Let_def record_agent_result_def)

lemma fill_switch: "switch (on_fill_received f now ap) = switch ap"
proof -
  have "ks_state (tk_kill (snd (update_on_fill f now t))) = ks_state (tk_kill t)" for t
    by (auto simp: update_on_fill_def Let_def record_loss_state split: option.split sum.split)
  then have "keeps_switch (with_tracker (update_on_fill f now))" by (rule tracker_switch)
  then show ?thesis by (simp add: on_fill_received_def keeps_switch_def)
qed

lemma oms_switch: "keeps_switch (with_oms f now)"
proof -
  have "switch (foldl (\<lambda>a f. on_fill_received f now a) ap fs) = switch ap" for ap fs
    by (induction fs arbitrary: ap) (simp_all add: fill_switch)
  then show ?thesis by (simp add: keeps_switch_def with_oms_def split: prod.split)
qed

lemma planner_switch: "keeps_switch (with_planner f)"
  by (simp add: keeps_switch_def with_planner_def switch_def split: prod.split)

lemma plan_switch: "keeps_switch (plan_and_guard env i s)"
proof -
  have "switch (snd (with_planner f ap)) = switch ap" for f :: "planner \<Rightarrow> (exn + plan_reject + order) \<times> planner" and ap
    using planner_switch [of f] by (simp add: keeps_switch_def)
  then show ?thesis
    by (auto simp: keeps_switch_def plan_and_guard_def split: prod.split sum.split option.split) (metis snd_conv)+
qed

lemma review_switch: "switch (snd (manager_risk_check env i ap)) = switch ap"
  by (auto simp: manager_risk_check_def split: sum.split review.split option.split)

lemma route_switch: "keeps_switch (route_intent env i)"
  unfolding route_intent_def
proof (rule keeps_switch_andthen [OF get_state_switch])
  fix s
  show "keeps_switch (\<lambda>ap. case evaluate_with_risk_gate env i s (announce (IntentSubmitted i) ap) of (d, ap1) \<Rightarrow>
      if \<not> rd_allowed d then (Inr None, record_outcome i (Gate_veto (the (rd_veto d)))
          (announce (IntentRejected (i_id i) (de_veto_text env (the (rd_veto d)))) ap1))
      else case manager_risk_check env i (announce (IntentApproved (i_id i)) ap1) of
          (None, ap2) \<Rightarrow> (Inr None, ap2) | (Some i', ap2) \<Rightarrow> plan_and_guard env i' s ap2)"
    unfolding keeps_switch_def
  proof
    fix ap
    obtain d ap1 where e: "evaluate_with_risk_gate env i s (announce (IntentSubmitted i) ap) = (d, ap1)" by fastforce
    obtain m ap2 where m: "manager_risk_check env i (announce (IntentApproved (i_id i)) ap1) = (m, ap2)" by fastforce
    have "switch ap1 = switch ap"
      using gate_switch [of env i s] e by (metis keeps_switch_def snd_conv switch_announce(1))
    moreover have "switch ap2 = switch ap1"
      using review_switch [of env i "announce (IntentApproved (i_id i)) ap1"] m by simp
    ultimately show "switch (snd (case evaluate_with_risk_gate env i s (announce (IntentSubmitted i) ap) of (d, ap1) \<Rightarrow>
      if \<not> rd_allowed d then (Inr None, record_outcome i (Gate_veto (the (rd_veto d)))
          (announce (IntentRejected (i_id i) (de_veto_text env (the (rd_veto d)))) ap1))
      else case manager_risk_check env i (announce (IntentApproved (i_id i)) ap1) of
          (None, ap2) \<Rightarrow> (Inr None, ap2) | (Some i', ap2) \<Rightarrow> plan_and_guard env i' s ap2)) = switch ap"
      using plan_switch by (auto simp: e m keeps_switch_def split: option.split)
  qed
qed

lemma submit_switch: "keeps_switch (submit_one_intent env i)"
  unfolding submit_one_intent_def
proof (rule keeps_switch_andthen [OF route_switch])
  fix res
  have "switch (snd (with_oms f now ap)) = switch ap" for f :: "submit_result oms_eff" and now ap
    using oms_switch [of f now] by (simp add: keeps_switch_def)
  then show "keeps_switch (\<lambda>ap. case res of None \<Rightarrow> (Inr False, ap)
     | Some ord \<Rightarrow> (case with_oms (submit_order (de_reply env) ord) (de_now env) ap of
           (Inl _, ap') \<Rightarrow> (Inr False, record_outcome i Submit_error ap')
         | (Inr _, ap') \<Rightarrow> (Inr True, ap')))"
    by (auto simp: keeps_switch_def split: option.split prod.split sum.split) (metis snd_conv)+
qed

lemma observation_switch: "switch (snd (dispatch_observation a fp observed env ap)) = switch ap"
proof -
  have one: "switch (snd (dispatch_intent env (acc, ap) i)) = switch ap" for acc ap i
    using submit_switch [of env i] by (auto simp: dispatch_intent_def keeps_switch_def split: prod.split sum.split) (metis snd_conv)+
  have all: "switch (snd (foldl (dispatch_intent env) (acc, ap) is)) = switch ap" for acc ap "is"
  proof (induction "is" arbitrary: acc ap)
    case (Cons i "is")
    obtain acc' ap' where "dispatch_intent env (acc, ap) i = (acc', ap')" by fastforce
    with Cons one [of acc ap i] show ?case by simp
  qed simp
  have mark: "switch (snd (with_tracker (update_on_mark a px now) ap)) = switch ap" for px now ap
    using mark_switch by (simp add: keeps_switch_def)
  have mark': "switch ap' = switch ap" if "with_tracker (update_on_mark a px now) ap = (r, ap')" for px now ap r ap'
    using mark that by (metis snd_conv)
  have all': "switch ap' = switch ap1" if "foldl (dispatch_intent env) (acc, ap1) is = (acc', ap')" for acc ap1 "is" acc' ap'
    using all that by (metis snd_conv)
  show ?thesis
    by (auto simp: dispatch_observation_def Let_def mark' dest!: all' split: prod.split sum.split option.split)
qed

lemma vix_app [simp]: "dk_app (snd (live_vix latest now d)) = dk_app d"
  by (auto simp: live_vix_def fetch_vix_def Let_def split: option.split sum.split prod.split)

lemma bucket_switch: "switch (snd (bucket_now a now ap)) = switch ap"
  using get_state_switch [of a now] by (auto simp: bucket_now_def keeps_switch_def split: prod.split sum.split) (metis snd_conv)+

lemma build_switch: "switch (dk_app (snd (build_agent_state env who symbols d))) = switch (dk_app d)"
proof -
  obtain x vb d1 where x: "live_vix (ve_latest_vix env) (de_now (ve_dispatch env)) d = ((x, vb), d1)" by (metis surj_pair)
  then have d1: "dk_app d1 = dk_app d" using vix_app by (metis snd_conv)
  show ?thesis
    by (simp add: build_agent_state_def Let_def x d1 bucket_switch case_prod_beta)
qed

lemma agent_switch: "switch (dk_app (snd (dispatch_agent env a d))) = switch (dk_app d)"
proof (cases "ks_state (ap_kill (dk_app d)) = BUDGET_EXHAUSTED \<and> a \<noteq> HAIKU")
  case False
  obtain r d1 where b: "build_agent_state env (Some a) (ve_universe env) d = (r, d1)" by fastforce
  then have d1: "switch (dk_app d1) = switch (dk_app d)" using build_switch by (metis snd_conv)
  have act: "switch (dk_app (snd (act_on_view env a v ms d1))) = switch (dk_app d1)" for v ms
    by (auto simp: act_on_view_def Let_def put_mind_def observation_switch case_prod_beta)
  show ?thesis
    using False by (auto simp: dispatch_agent_def andthen_def lift_res_def b d1 act split: sum.split)
qed (simp add: dispatch_agent_def)

subsection \<open>An exhausted budget\<close>

text \<open>What happens to the desk from tick to tick, reconciliation and missed heartbeats apart.\<close>

datatype desk_event =
    Midnight date
  | Budget_poll
  | Spend string decimal string datetime
  | Agent_tick desk_env agent_id
  | Metrics_shown desk_env

fun happen :: "desk_event \<Rightarrow> desk \<Rightarrow> desk" where
  "happen (Midnight today) d = budget_reset today d"
| "happen Budget_poll d = snd (budget_check d)"
| "happen (Spend agent cost call ts) d = d\<lparr>dk_budget := record_spend agent cost call ts (dk_budget d)\<rparr>"
| "happen (Agent_tick env a) d = snd (dispatch_agent env a d)"
| "happen (Metrics_shown env) d = snd (live_metrics env d)"

lemma announce_all_switch [simp]: "switch (foldl (\<lambda>ap t. announce (e t) ap) ap ts) = switch ap"
  by (induction ts arbitrary: ap) simp_all

lemma exhausted_stays:
  assumes "switch (dk_app d) = BUDGET_EXHAUSTED"
  shows "switch (dk_app (happen ev d)) = BUDGET_EXHAUSTED"
proof (cases ev)
  case (Midnight today)
  then show ?thesis
    using assms by (simp add: budget_reset_def Let_def with_watcher_def watcher_of_def reset_watcher_def switch_def reset_daily_def)
next
  case Budget_poll
  then show ?thesis
    using assms by (auto simp: budget_check_def with_watcher_def watcher_of_def check_once_def trip_budget_exhausted_def switch_def)
next
  case (Agent_tick env a)
  then show ?thesis using assms agent_switch by simp
next
  case (Metrics_shown env)
  obtain x vb d1 where x: "live_vix (ve_latest_vix env) (de_now (ve_dispatch env)) d = ((x, vb), d1)" by (metis surj_pair)
  then have d1: "dk_app d1 = dk_app d" using vix_app by (metis snd_conv)
  show ?thesis using assms by (simp add: Metrics_shown live_metrics_def x d1 bucket_switch case_prod_beta)
qed (use assms in simp)

lemma exhausted_run: "switch (dk_app d) = BUDGET_EXHAUSTED \<Longrightarrow> switch (dk_app (fold happen es d)) = BUDGET_EXHAUSTED"
  by (induction es arbitrary: d) (simp_all add: exhausted_stays)

lemma blocked_routes_sell:
  assumes "\<not> can_open_new (ap_kill ap)" "fst (route_intent env i ap) = Inr (Some ord)"
  shows "o_side ord = SELL"
proof -
  from assms(2) obtain s i' p g where r: "rd_allowed (fst (check_intent i s (de_gross env) [] (ms_timestamp (de_snapshot env)) g))"
    "rg_kill g = ap_kill ap" "i' = i \<or> (\<exists>w. i' = i\<lparr>i_target_weight := w\<rparr>)" "fst (plan (plan_env_of env ap) i' s (de_snapshot env) p) = Inr (Inr ord)"
    by (rule routeD)
  have "closes_pos (i_action i)"
  proof (rule ccontr)
    assume "\<not> closes_pos (i_action i)"
    then have "opens_pos (i_action i)" by (simp add: not_both_kinds)
    from opening_allowed_iff [OF this] r(1,2) assms(1) show False by (simp add: entry_policy_def)
  qed
  with r(3) have "closes_pos (i_action i')" by auto
  with r(4) show ?thesis by (rule closing_plans_sell)
qed

text \<open>
  C28 An exhausted budget outlives the day: let any spending, budget polls, midnights, agents' ticks and views of the metrics
  follow, and then the midnight of a new day. The ledger starts at nothing spent, but the switch is still exhausted,
  Sonnet and Opus are not asked, and no purchase passes the route of an agent's intent. (Not among
  these events are the reconciler's passes: a broken position or a missed heartbeat overwrites the state, and a later good
  pass allows entries again. The reserve job does not look at the switch.)
\<close>

theorem exhaustion_outlives_the_day:
  assumes "switch (dk_app d) = BUDGET_EXHAUSTED" "bl_today (dk_budget (fold happen es d)) \<noteq> Some today"
  shows "\<exists>d'. d' = fold happen (es @ [Midnight today]) d \<and> bl_total (dk_budget d') = 0 \<and> \<not> dk_tripped d'
    \<and> switch (dk_app d') = BUDGET_EXHAUSTED
    \<and> (\<forall>env a. a \<noteq> HAIKU \<longrightarrow> dispatch_agent env a d' = (Inr [], d'))
    \<and> (\<forall>env i ord. fst (route_intent env i (dk_app d')) = Inr (Some ord) \<longrightarrow> o_side ord = SELL)"
proof -
  define d0 where "d0 = fold happen es d"
  have d': "fold happen (es @ [Midnight today]) d = budget_reset today d0" by (simp add: d0_def)
  have s: "switch (dk_app (budget_reset today d0)) = BUDGET_EXHAUSTED"
    using exhausted_run [OF assms(1), of "es @ [Midnight today]"] d' by simp
  then have "\<not> can_open_new (ap_kill (dk_app (budget_reset today d0)))"
    by (simp add: switch_def can_open_new_def blocks_new_entries_def)
  moreover have "bl_total (dk_budget (budget_reset today d0)) = 0" "\<not> dk_tripped (budget_reset today d0)"
    using assms(2) unfolding d0_def [symmetric]
    by (simp_all add: budget_reset_def Let_def with_watcher_def watcher_of_def reset_watcher_def reset_if_new_day_def flush_budget_def)
  moreover have "dispatch_agent env a (budget_reset today d0) = (Inr [], budget_reset today d0)" if "a \<noteq> HAIKU" for env a
    using s that by (simp add: dispatch_agent_def switch_def)
  ultimately show ?thesis
    using s blocked_routes_sell unfolding d' by (intro exI [of _ "budget_reset today d0"]) blast
qed

theorem exhaustion_outlives_the_day_witness:
  "switch (dk_app (fold happen [Spend ''opus'' 1 ''deep_dive'' 0, Budget_poll, Midnight 1] (sample_desk (new_engine 60) shared_book))) = BUDGET_EXHAUSTED"
proof -
  let ?d = "fold happen [Spend ''opus'' 1 ''deep_dive'' 0, Budget_poll] (sample_desk (new_engine 60) shared_book)"
  have b: "dk_budget (happen (Spend ''opus'' 1 ''deep_dive'' 0) (sample_desk (new_engine 60) shared_book))
    = record_spend ''opus'' 1 ''deep_dive'' 0 (load_budget NoFile 1 0)" by (simp add: sample_desk_def)
  have "switch (dk_app ?d) = BUDGET_EXHAUSTED" "bl_today (dk_budget ?d) = Some (date_of 0)"
    by (auto simp: sample_desk_def load_budget_def record_spend_def ensure_date_def flush_budget_def budget_check_def
        with_watcher_def watcher_of_def check_once_def is_exhausted_def dadd_def dround_small trip_budget_exhausted_def switch_def Let_def)
  moreover have "date_of 0 = 0" by (simp add: date_of_def)
  ultimately show ?thesis using exhaustion_outlives_the_day [of ?d "[]" 1] by simp
qed

subsection \<open>The reserve is bought once\<close>

lemma filled_orders [simp]: "om_orders (ap_oms (on_fill_received f now ap)) = om_orders (ap_oms ap)"
  by (simp add: on_fill_received_def with_tracker_def case_prod_beta)

lemma with_oms_orders: "om_orders (ap_oms (snd (with_oms f now ap))) = om_orders (snd (f (ap_oms ap)))"
proof -
  have "om_orders (ap_oms (foldl (\<lambda>a f. on_fill_received f now a) ap fs)) = om_orders (ap_oms ap)" for ap fs
    by (induction fs arbitrary: ap) simp_all
  then show ?thesis by (simp add: with_oms_def case_prod_beta)
qed

text \<open>Only a forced closing changes the quantity of an order; what a submission runs through does not.\<close>

definition qtys :: "oms \<Rightarrow> order_id \<Rightarrow> decimal option" where
  "qtys s oid = map_option o_qty (dict_get (om_orders s) oid)"

lemma qtys_transition: "qtys (snd (transition oid ev ts s)) = qtys s"
  by (auto simp: transition_def eff_defs oms_prims qtys_def fun_eq_iff Let_def split: option.split prod.split)

lemma qtys_accepted: "qtys (snd (record_accepted oid bid ts s)) = qtys s"
  by (auto simp: record_accepted_def eff_defs oms_prims qtys_transition split: option.split prod.split sum.split)
    (auto simp: qtys_def fun_eq_iff)

lemma qtys_cong: "om_orders t = om_orders s \<Longrightarrow> qtys t = qtys s"
  by (simp add: qtys_def fun_eq_iff)

lemma qtys_fill: "qtys (snd (handle_fill oid f ts s)) = qtys s"
proof -
  have step: "qtys (snd (case transition oid ev ts t of (Inl e, t') \<Rightarrow> (Inl e, t') | (Inr x, t') \<Rightarrow> modify (\<lambda>s. s\<lparr>om_bus := om_bus s @ [b]\<rparr>) t')) = qtys t"
    for ev t b
    using qtys_transition [of oid ev ts t] by (auto simp: qtys_def fun_eq_iff modify_def split: prod.split sum.split)
  show ?thesis
    by (auto simp: handle_fill_def eff_defs oms_prims step filled_order_def Let_def intro: qtys_cong split: option.split sum.split)
      (auto simp: qtys_def fun_eq_iff)
qed

lemma qtys_closings:
  "qtys (snd (handle_cancellation oid ts s)) = qtys s" "qtys (snd (handle_rejection oid reason ts s)) = qtys s"
  "qtys (snd (handle_expiry oid ts s)) = qtys s"
  by (auto simp: handle_cancellation_def handle_rejection_def handle_expiry_def eff_defs oms_prims qtys_transition
      split: option.split prod.split sum.split)
    (auto simp: qtys_def fun_eq_iff)

lemma qtys_event: "qtys (snd (on_broker_event ev s)) = qtys s"
  by (auto simp: on_broker_event_def Let_def qtys_accepted qtys_fill qtys_closings skip_def ret_def
      split: option.split broker_order_state.split)

lemma qtys_events: "qtys (snd (each on_broker_event evs s)) = qtys s"
  by (induction evs arbitrary: s) (auto simp: andthen_def skip_def ret_def split: prod.splits sum.splits; metis qtys_event snd_conv)+

lemma qtys_andthen: "qtys (snd (m s)) = qtys s \<Longrightarrow> (\<And>x t. qtys (snd (f x t)) = qtys t) \<Longrightarrow> qtys (snd (andthen m f s)) = qtys s"
  by (cases "m s") (auto simp: andthen_def split: sum.split)

lemma qtys_finish: "qtys (snd (finish_submit oid answer s)) = qtys s"
proof -
  have q: "qtys (snd (submit_result_of oid bid acc reason t)) = qtys t" for bid acc reason t
    by (auto simp: submit_result_of_def eff_defs split: option.split)
  show ?thesis
    unfolding finish_submit_def
    by (auto simp: qtys_closings qtys_accepted q gets_def raise_def skip_def ret_def intro!: qtys_andthen split: sum.split exn.split)
qed

lemma submitted_order:
  assumes "oms_wf s" "dict_get (om_orders s) (o_id ord) = None" "o_state ord = PENDING"
  obtains ord' where "dict_get (om_orders (snd (submit_order reply ord s))) (o_id ord) = Some ord'" "same_identity ord ord'"
    "o_qty ord' = o_qty ord"
proof -
  have wf: "oms_wf (after_place ord s)" using good_place [OF assms(2,3)] assms(1) by (simp add: good_step_def)
  have g: "good_op (andthen (each on_broker_event (fst (reply ord))) (\<lambda>_. finish_submit (o_id ord) (snd (reply ord))))"
    by (intro good_combine good_finish_submit)
  have t: "snd (submit_order reply ord s)
    = snd (andthen (each on_broker_event (fst (reply ord))) (\<lambda>_. finish_submit (o_id ord) (snd (reply ord))) (after_place ord s))"
    using assms(3) by (simp add: submit_order_def andthen_def [of "place_order ord"] place_order_run)
  then have e: "evolves (after_place ord s) (snd (submit_order reply ord s))"
    using good_opD [OF g, of "after_place ord s"] wf by (simp add: good_step_def)
  have q: "qtys (snd (submit_order reply ord s)) = qtys (after_place ord s)"
    unfolding t by (simp add: andthen_def qtys_events qtys_finish split: prod.split sum.split) (metis qtys_events qtys_finish snd_conv)
  obtain x where "dict_get (om_orders (after_place ord s)) (o_id ord) = Some x" "same_identity ord x" "o_qty x = o_qty ord"
    by (simp add: after_place_def moved_def started_def Let_def same_identity_def)
  moreover from this e obtain y where y: "dict_get (om_orders (snd (submit_order reply ord s))) (o_id ord) = Some y" "same_identity x y"
    by (fastforce simp: evolves_def order_evolves_def)
  moreover have "o_qty y = o_qty x" using fun_cong [OF q, of "o_id ord"] y(1) calculation(1) by (simp add: qtys_def)
  ultimately show ?thesis using that [of y] by (simp add: same_identity_def)
qed

lemma four_places:
  assumes "to_four_places x = Inr q"
  shows "\<bar>q - x\<bar> \<le> 1 / 20000"
proof -
  have q: "q = of_int (rhe (x * 10000)) / 10000"
    using assms by (simp add: to_four_places_def Let_def split: if_splits)
  have "\<bar>of_int (rhe (x * 10000)) - x * 10000\<bar> \<le> 1 / 2" by (rule rhe_error)
  then show ?thesis unfolding q by (simp add: abs_le_iff field_simps)
qed

lemma reserve_qtyD:
  assumes "reserve_qty bars account ap = Inr (Some q)"
  obtains bs acc where "bars = Inr bs" "bs \<noteq> []" "0 < b_close (last bs)" "account = Inr acc" "10000 \<le> ba_cash acc"
    "0 < q" "\<bar>q - ddiv 10000 (b_close (last bs))\<bar> \<le> 1 / 20000"
  using assms
  by (auto simp: reserve_qty_def Let_def or_else_def bindr_Inr_iff reserve_target_def dest!: four_places
      split: if_splits sum.splits)

lemma open_reserve_blocks:
  assumes "dict_get (om_orders (ap_oms ap)) n = Some ord" "o_agent_id ord = MANAGER" "o_symbol ord = ''SPY''" "\<not> terminal (o_state ord)"
  shows "manager_reserve_check env bars account ap = (Inr (), ap)"
proof -
  have "o_state ord \<in> {PENDING, SUBMITTED, ACCEPTED, PARTIAL}" using assms(4) by (cases "o_state ord") simp_all
  then have "ord \<in> set (list_open_orders (ap_oms ap))"
    using assms(1) by (force simp: list_open_orders_def list_orders_def dest: map_of_SomeD)
  then show ?thesis using assms(2,3) by (auto simp: manager_reserve_check_def reserve_qty_def)
qed

text \<open>
  C26 When the Manager's reserve check finds a purchase due, it submits -- whatever the state of the kill switch -- an order
  to buy SPY for ten thousand dollars at the last close, rounded to four decimal places of a share, the cash being there; and no
  later check buys again while that order is open.
\<close>

theorem reserve_is_bought_once:
  assumes "oms_wf (ap_oms ap)" "dict_get (om_orders (ap_oms ap)) (om_fresh (ap_oms ap)) = None"
    and "reserve_qty bars account ap = Inr (Some q)"
  shows "\<exists>ap' ord bs acc. manager_reserve_check env bars account ap = (Inr (), ap')
    \<and> get_order (om_fresh (ap_oms ap)) (ap_oms ap') = Some ord \<and> o_agent_id ord = MANAGER \<and> o_symbol ord = ''SPY'' \<and> o_side ord = BUY
    \<and> bars = Inr bs \<and> 0 < o_qty ord \<and> \<bar>o_qty ord - ddiv 10000 (b_close (last bs))\<bar> \<le> 1 / 20000
    \<and> account = Inr acc \<and> 10000 \<le> ba_cash acc
    \<and> (\<not> terminal (o_state ord) \<longrightarrow>
        (\<forall>env' bars' account'. manager_reserve_check env' bars' account' ap' = (Inr (), ap')))"
proof -
  let ?n = "om_fresh (ap_oms ap)"
  let ?ord = "reserve_order ?n q (de_now env)"
  let ?ap = "ap\<lparr>ap_oms := (ap_oms ap)\<lparr>om_fresh := Suc (Suc ?n)\<rparr>\<rparr>"
  define ap' where "ap' = snd (with_oms (submit_order (de_reply env) ?ord) (de_now env) ?ap)"
  have run: "manager_reserve_check env bars account ap = (Inr (), ap')"
    by (simp add: manager_reserve_check_def assms(3) ap'_def Let_def)
  have wf: "oms_wf (ap_oms ?ap)" using assms(1) by (simp add: oms_wf_def machine_at_def)
  obtain ord where o: "dict_get (om_orders (snd (submit_order (de_reply env) ?ord (ap_oms ?ap)))) (o_id ?ord) = Some ord"
    "same_identity ?ord ord" "o_qty ord = o_qty ?ord"
    by (rule submitted_order [OF wf, of ?ord "de_reply env"]) (simp_all add: reserve_order_def assms(2))
  then have ord: "dict_get (om_orders (ap_oms ap')) ?n = Some ord" "o_agent_id ord = MANAGER" "o_side ord = BUY" "o_symbol ord = ''SPY''"
    "o_qty ord = q"
    by (simp_all add: ap'_def with_oms_orders same_identity_def) (simp_all add: reserve_order_def)
  obtain bs acc where q: "bars = Inr bs" "account = Inr acc" "10000 \<le> ba_cash acc" "0 < q" "\<bar>q - ddiv 10000 (b_close (last bs))\<bar> \<le> 1 / 20000"
    using reserve_qtyD [OF assms(3)] by metis
  then show ?thesis
    using run ord open_reserve_blocks [OF ord(1,2,4)]
    by (intro exI [of _ ap'] exI [of _ ord] exI [of _ bs] exI [of _ acc]) (simp add: get_order_def)
qed

subsection \<open>The rotation of deep dives\<close>

definition stamp_of :: "desk_env \<Rightarrow> string" where
  "stamp_of env = me_iso (ve_manager env) (date_of (de_now (ve_dispatch env)))"

definition builds :: "desk_env \<Rightarrow> bool" where
  "builds env \<longleftrightarrow> de_mc (ve_dispatch env) \<le> max_master_capability"

lemma upper_upper [simp]: "py_upper (py_upper s) = py_upper s"
  by (simp add: py_upper_def)

lemma built:
  assumes "builds env"
  obtains v d' where "build_agent_state env (Some a) symbols d = (Inr v, d')" "av_timestamp v = de_now (ve_dispatch env)"
    "dk_memory d' = dk_memory d" "om_orders (ap_oms (dk_app d')) = om_orders (ap_oms (dk_app d))"
proof -
  obtain x vb d1 where x: "live_vix (ve_latest_vix env) (de_now (ve_dispatch env)) d = ((x, vb), d1)" by (metis surj_pair)
  have d1: "dk_memory d1 = dk_memory d" "dk_app d1 = dk_app d"
    using x by (auto simp: live_vix_def fetch_vix_def Let_def split: option.splits sum.splits prod.splits if_splits)
  obtain dd ap where b: "bucket_now a (de_now (ve_dispatch env)) (dk_app d) = (dd, ap)" by fastforce
  have "om_orders (ap_oms ap) = om_orders (ap_oms (dk_app d))"
    using b by (auto simp: bucket_now_def with_tracker_def split: prod.splits sum.splits)
  with assms d1 b that show ?thesis
    by (auto simp: build_agent_state_def Let_def x effective_max_gross_def builds_def)
qed

lemma andthen_remember:
  "andthen (remember_opus k t) f d = f () (d\<lparr>dk_memory := remember OPUS k t (dk_memory d)\<rparr>)"
  by (simp add: andthen_def remember_opus_def modify_def)

lemma dive_memory:
  assumes "builds env"
  shows "dk_memory (snd (opus_run_deep_dive env s d)) = remember OPUS (dive_key (py_upper s)) (stamp_of env) (dk_memory d)"
proof -
  obtain v d' where v: "build_agent_state env (Some OPUS) (ve_universe env) d = (Inr v, d')" "av_timestamp v = de_now (ve_dispatch env)"
    "dk_memory d' = dk_memory d" using built [OF assms] by metis
  have drawn: "dk_memory (snd (with_drawn m d)) = dk_memory d" for m :: "intent option ids" and d
    by (simp add: with_drawn_def case_prod_beta)
  have app: "dk_memory (snd (with_app m d)) = dk_memory d" for m :: "(app, bool) eff" and d
    by (simp add: with_app_def case_prod_beta)
  have rest: "dk_memory (snd (andthen (with_drawn m) (\<lambda>found. case found of None \<Rightarrow> skip
      | Some i \<Rightarrow> andthen (lift_res ms) (\<lambda>ms. andthen (with_app (sub ms i)) (\<lambda>_. skip))) d)) = dk_memory d"
    for m :: "intent option ids" and ms and sub :: "market_snapshot \<Rightarrow> intent \<Rightarrow> (app, bool) eff" and d :: desk
    using drawn [of m d] app
    by (auto simp: andthen_def lift_res_def skip_def ret_def split: prod.splits sum.splits option.splits) (metis snd_conv)+
  show ?thesis
    unfolding opus_run_deep_dive_def Let_def
    by (simp add: andthen_def [of "build_agent_state env (Some OPUS) (ve_universe env)"] v(1,2) andthen_remember rest)
      (simp add: v(3) stamp_of_def)
qed

lemma dive_key_inj [simp]: "dive_key s = dive_key t \<longleftrightarrow> s = t"
  by (simp add: dive_key_def)

lemma dive_stamps:
  assumes "builds env" "stamp_of env \<noteq> []"
  shows "last_dive (dk_memory (snd (opus_run_deep_dive env s d))) t = (if t = py_upper s then stamp_of env else last_dive (dk_memory d) t)"
  using assms(2) by (simp add: dive_memory [OF assms(1)] last_dive_def split: option.split)

lemma candidates_upper: "s \<in> set (dive_order d) \<Longrightarrow> py_upper s = s"
  by (auto simp: dive_order_def dive_candidates_def merge_names_facts)

text \<open>
  A run of rotations: before each, other code may change the desk, but not Opus' stamps. \<open>pools\<close> are the candidates
  each rotation chooses from, \<open>dived\<close> what it chooses.
\<close>

type_synonym rotation = "(desk \<Rightarrow> desk) \<times> desk_env"

definition run_rotation :: "rotation \<Rightarrow> desk \<Rightarrow> desk" where
  "run_rotation r d = snd (opus_deep_dive_rotation (snd r) 0 (fst r d))"

fun pools :: "rotation list \<Rightarrow> desk \<Rightarrow> symbol list list" where
  "pools [] d = []"
| "pools (r # rs) d = dive_candidates (fst r d) # pools rs (run_rotation r d)"

fun dived :: "rotation list \<Rightarrow> desk \<Rightarrow> symbol list" where
  "dived [] d = []"
| "dived (r # rs) d = take 1 (dive_order (fst r d)) @ dived rs (run_rotation r d)"

definition regular :: "rotation \<Rightarrow> bool" where
  "regular r \<longleftrightarrow> builds (snd r) \<and> (\<forall>d t. last_dive (dk_memory (fst r d)) t = last_dive (dk_memory d) t)"

lemma rotation_step:
  assumes "regular r" "s \<in> set (dive_candidates (fst r d))" "last_dive (dk_memory d) s < stamp_of (snd r)"
  obtains t where "take 1 (dive_order (fst r d)) = [t]" "t \<in> set (dive_candidates (fst r d))"
    "last_dive (dk_memory d) t \<le> last_dive (dk_memory d) s"
    "\<forall>u. last_dive (dk_memory (run_rotation r d)) u = (if u = t then stamp_of (snd r) else last_dive (dk_memory d) u)"
proof -
  let ?d = "fst r d"
  have key: "last_dive (dk_memory ?d) = last_dive (dk_memory d)" using assms(1) by (auto simp: regular_def)
  have ne: "stamp_of (snd r) \<noteq> []" using assms(3) by auto
  have s: "s \<in> set (dive_order ?d)" using assms(2) by (simp add: dive_order_def)
  then obtain t ts where o: "dive_order ?d = t # ts" by (cases "dive_order ?d") auto
  have t: "t \<in> set (dive_candidates ?d)" using o by (metis dive_order_def list.set_intros(1) set_sort)
  have "sorted (map (last_dive (dk_memory ?d)) (dive_order ?d))" by (simp add: dive_order_def)
  then have le: "last_dive (dk_memory d) t \<le> last_dive (dk_memory d) s"
    using s by (auto simp: o key)
  have "py_upper t = t" using candidates_upper [of t ?d] o by simp
  then have "last_dive (dk_memory (run_rotation r d)) u = (if u = t then stamp_of (snd r) else last_dive (dk_memory d) u)" for u
    using assms(1) ne by (simp add: run_rotation_def opus_deep_dive_rotation_def o dive_stamps regular_def)
  moreover have "take 1 (dive_order ?d) = [t]" by (simp add: o)
  ultimately show ?thesis using that t le by blast
qed

lemma passed_over:
  assumes "\<forall>r\<in>set rs. regular r \<and> last_dive (dk_memory d) s < stamp_of (snd r)" "\<forall>p\<in>set (pools rs d). s \<in> set p \<and> set p \<subseteq> U"
    and "s \<notin> set (dived rs d)"
  shows "distinct (dived rs d) \<and> length (dived rs d) = length rs
    \<and> set (dived rs d) \<subseteq> {u \<in> U. last_dive (dk_memory d) u \<le> last_dive (dk_memory d) s}"
  using assms
proof (induction rs arbitrary: d)
  case (Cons r rs)
  have "regular r" "s \<in> set (dive_candidates (fst r d))" "last_dive (dk_memory d) s < stamp_of (snd r)"
    using Cons.prems by simp_all
  then obtain t where t: "take 1 (dive_order (fst r d)) = [t]" "t \<in> set (dive_candidates (fst r d))"
    "last_dive (dk_memory d) t \<le> last_dive (dk_memory d) s"
    "\<forall>u. last_dive (dk_memory (run_rotation r d)) u = (if u = t then stamp_of (snd r) else last_dive (dk_memory d) u)"
    by (rule rotation_step)
  have ts: "t \<noteq> s" "s \<notin> set (dived rs (run_rotation r d))" using Cons.prems(3) t(1) by auto
  have same: "last_dive (dk_memory (run_rotation r d)) s = last_dive (dk_memory d) s" using t(4) ts(1) by simp
  have IH: "distinct (dived rs (run_rotation r d)) \<and> length (dived rs (run_rotation r d)) = length rs
    \<and> set (dived rs (run_rotation r d)) \<subseteq> {u \<in> U. last_dive (dk_memory (run_rotation r d)) u \<le> last_dive (dk_memory (run_rotation r d)) s}"
    using Cons.prems by (intro Cons.IH ts(2)) (simp_all add: same)
  have "\<not> last_dive (dk_memory (run_rotation r d)) t \<le> last_dive (dk_memory (run_rotation r d)) s"
    using Cons.prems(1) t(4) same by auto
  then have "t \<notin> set (dived rs (run_rotation r d))" using IH by blast
  moreover have "set (dived rs (run_rotation r d)) \<subseteq> {u \<in> U. last_dive (dk_memory d) u \<le> last_dive (dk_memory d) s}"
    using IH t(3,4) same by (auto split: if_splits)
  moreover have "t \<in> U" using Cons.prems(2) t(2) by auto
  ultimately show ?case using IH t(1,3) by simp
qed simp

text \<open>
  C27 No candidate waits for ever: whatever the model answers and however the pool changes in between, a symbol that
  stays a candidate has its deep dive within as many rotations as there are candidates.
\<close>

theorem every_candidate_gets_its_dive:
  assumes "\<forall>r\<in>set rs. regular r \<and> last_dive (dk_memory d) s < stamp_of (snd r)"
    and "\<forall>p\<in>set (pools rs d). s \<in> set p \<and> set p \<subseteq> U" "finite U" "card U \<le> length rs" "s \<in> U"
  shows "s \<in> set (dived rs d)"
proof (rule ccontr)
  assume no: "s \<notin> set (dived rs d)"
  note p = passed_over [OF assms(1,2) no]
  then have "set (dived rs d) \<subseteq> U - {s}" using no by blast
  then have "card (set (dived rs d)) \<le> card (U - {s})" by (intro card_mono) (simp_all add: assms(3))
  also have "card (U - {s}) < card U" using assms(3,5) by (intro card_Diff1_less)
  finally show False using p assms(4) by (simp add: distinct_card)
qed

text \<open>The dive of a call that failed: its stamp and nothing else that anyone reads.\<close>

lemma failed_dive:
  assumes "builds env" "ve_reply env = Inl e"
  obtains d' where "opus_run_deep_dive env s d = (Inr (), d')"
    "dk_memory d' = remember OPUS (dive_key (py_upper s)) (stamp_of env) (dk_memory d)"
    "om_orders (ap_oms (dk_app d')) = om_orders (ap_oms (dk_app d))"
proof -
  obtain v d1 where v: "build_agent_state env (Some OPUS) (ve_universe env) d = (Inr v, d1)" "av_timestamp v = de_now (ve_dispatch env)"
    "dk_memory d1 = dk_memory d" "om_orders (ap_oms (dk_app d1)) = om_orders (ap_oms (dk_app d))"
    using built [OF assms(1)] by metis
  have "extract_deep_dive_intent repr ts (VObject []) target n = (Inr None, n)" for repr ts target n
    by (simp add: extract_deep_dive_intent_def ret_def dict_get_or_def)
  then show ?thesis
    using that v by (simp add: opus_run_deep_dive_def Let_def deep_dive_def assms(2) andthen_def lift_res_def remember_opus_def
        modify_def with_drawn_def skip_def ret_def stamp_of_def)
qed

lemma news_key_facts [simp]: "news_key week \<noteq> dive_key s" "dive_key s \<noteq> news_key week" "py_upper s = [] \<longleftrightarrow> s = []"
  by (simp_all add: news_key_def dive_key_def py_upper_def)

text \<open>
  A dive on high-impact news whose model call fails, for lack of budget or otherwise, still counts: the
  symbol is stamped as analysed, the week's only extra dive is used up, and no later news of that week has any effect.
\<close>

lemma failed_dive_uses_the_quota:
  assumes "builds env" "ve_reply env = Inl e" "dive_is_due week (py_upper s) d"
  shows "\<exists>d'. on_news_high_impact env week s d = d' \<and> om_orders (ap_oms (dk_app d')) = om_orders (ap_oms (dk_app d))
    \<and> recall OPUS (dive_key (py_upper s)) (dk_memory d') = Some (stamp_of env)
    \<and> (\<forall>env' s'. on_news_high_impact env' week s' d' = d')"
proof -
  obtain d1 where d1: "opus_run_deep_dive env (py_upper s) d = (Inr (), d1)"
    "dk_memory d1 = remember OPUS (dive_key (py_upper s)) (stamp_of env) (dk_memory d)"
    "om_orders (ap_oms (dk_app d1)) = om_orders (ap_oms (dk_app d))"
    using failed_dive [OF assms(1,2)] by (metis upper_upper)
  define d' where "d' = d1\<lparr>dk_memory := remember OPUS (news_key week) (py_upper s) (dk_memory d1)\<rparr>"
  have "on_news_high_impact env week s d = d'"
    using assms(3) d1 by (simp add: on_news_high_impact_def Let_def remember_opus_def modify_def d'_def)
  moreover have "on_news_high_impact env' week s' d' = d'" for env' s'
    using assms(3) by (simp add: on_news_high_impact_def Let_def dive_is_due_def d'_def)
  ultimately show ?thesis using d1 by (intro exI [of _ d']) (simp add: d'_def)
qed

subsection \<open>Examples\<close>

definition watching :: "string \<Rightarrow> desk" where
  "watching s = (sample_desk (new_engine 60) (empty_ledger None))\<lparr>dk_memory := remember OPUS watchlist_key s empty_memory\<rparr>"

lemma watching_facts:
  "dive_candidates (watching ''MSFT'') = [''MSFT'']" "dive_is_due ''2026-W20'' ''MSFT'' (watching ''MSFT'')"
  "last_dive (dk_memory (watching ''MSFT'')) ''MSFT'' < stamp_of sample_desk_env" "builds sample_desk_env"
proof -
  have w: "get_watchlist (dk_memory (watching ''MSFT'')) = [''MSFT'']"
    using watchlist_written [of "[''MSFT'']" empty_memory] by (simp add: watching_def clean_def py_upper_def upper_char_def py_strip_def is_space_def)
  have u: "py_upper ''MSFT'' = ''MSFT''" by (simp add: py_upper_def upper_char_def)
  have "''MSFT'' \<in> set sonnet_equity_universe" by (simp add: sonnet_equity_universe_def)
  then have "''MSFT'' \<in> set plumbing_universe" by (simp add: plumbing_set opus_equity_universe_def dedupe_preserve_order_def dedupe_set)
  from imageI [OF this, of py_upper] have m: "''MSFT'' \<in> plumbing" unfolding plumbing_def u list.set_map .
  have g: "open_qty_by_symbol OPUS (ap_lots (dk_app (watching ''MSFT''))) = []"
    by (simp add: watching_def open_qty_by_symbol_def all_lots_def empty_ledger_def)
  show "dive_candidates (watching ''MSFT'') = [''MSFT'']"
    using m by (simp add: dive_candidates_def g w merge_names_def py_upper_def upper_char_def)
  have "recall OPUS (news_key ''2026-W20'') (dk_memory (watching ''MSFT'')) = None"
    by (simp add: watching_def recall_def remember_def empty_memory_def news_key_def watchlist_key_def)
  then show "dive_is_due ''2026-W20'' ''MSFT'' (watching ''MSFT'')"
    using m by (simp add: dive_is_due_def g w py_upper_def upper_char_def)
  have "last_dive (dk_memory (watching ''MSFT'')) ''MSFT'' = ''0000-00-00''"
    by (simp add: last_dive_def watching_def recall_def remember_def empty_memory_def dive_key_def watchlist_key_def)
  moreover have "stamp_of sample_desk_env = ''p''"
    by (simp add: stamp_of_def sample_desk_env_def plain_env_def sample_dispatch_def date_of_def)
  ultimately show "last_dive (dk_memory (watching ''MSFT'')) ''MSFT'' < stamp_of sample_desk_env"
    by (simp add: less_char_def)
  show "builds sample_desk_env" by (simp add: builds_def)
qed

theorem every_candidate_gets_its_dive_witness:
  "''MSFT'' \<in> set (dived [(id, sample_desk_env)] (watching ''MSFT''))"
  by (rule every_candidate_gets_its_dive [where U = "{''MSFT''}"]) (simp_all add: watching_facts regular_def)

lemma failed_dive_uses_the_quota_example:
  "\<exists>d'. on_news_high_impact sample_desk_env ''2026-W20'' ''MSFT'' (watching ''MSFT'') = d'
     \<and> (\<forall>env' s'. on_news_high_impact env' ''2026-W20'' s' d' = d')"
proof -
  have u: "py_upper ''MSFT'' = ''MSFT''" by (simp add: py_upper_def upper_char_def)
  have "ve_reply sample_desk_env = Inl ValueError" by (simp add: sample_desk_env_def)
  from failed_dive_uses_the_quota [OF watching_facts(4) this, of "''2026-W20''" "''MSFT''"] watching_facts(2) u
  show ?thesis by metis
qed

definition rich_account :: broker_account where
  "rich_account = \<lparr>ba_cash = 20000, ba_equity = 20000, ba_buying_power = 20000, ba_pattern_day_trader = False, ba_daytrade_count = 0\<rparr>"

theorem reserve_is_bought_once_witness:
  "\<exists>ap' ord. manager_reserve_check sample_dispatch (Inr [flat_bar ''SPY'' 500]) (Inr rich_account)
       (sample_app ((new_engine 60)\<lparr>ks_state := BUDGET_EXHAUSTED\<rparr>) (empty_ledger None)) = (Inr (), ap')
     \<and> get_order 0 (ap_oms ap') = Some ord \<and> o_side ord = BUY"
proof -
  let ?ap = "sample_app ((new_engine 60)\<lparr>ks_state := BUDGET_EXHAUSTED\<rparr>) (empty_ledger None)"
  have oms: "ap_oms ?ap = new_oms [] 0 0" "ap_lots ?ap = empty_ledger None" by (simp_all add: sample_app_def)
  have "ddiv 10000 500 = 20" by (simp add: ddiv_def dround_small)
  then have "reserve_qty (Inr [flat_bar ''SPY'' 500]) (Inr rich_account) ?ap = Inr (Some 20)"
    unfolding reserve_qty_def oms
    by (simp add: new_oms_def open_qty_by_symbol_def all_lots_def empty_ledger_def list_open_orders_def
        list_orders_def or_else_def flat_bar_def rich_account_def reserve_target_def to_four_places_def Let_def
        rhe_of_int [of 200000, simplified] dict_get_or_def)
  moreover have "oms_wf (ap_oms ?ap)" by (simp add: oms new_oms_wf readable_def)
  moreover have "om_fresh (ap_oms ?ap) = 0" "dict_get (om_orders (ap_oms ?ap)) 0 = None" by (simp_all add: oms new_oms_def)
  ultimately show ?thesis
    using reserve_is_bought_once [of ?ap "Inr [flat_bar ''SPY'' 500]" "Inr rich_account" 20 sample_dispatch] by auto
qed

end
