(* ===== verification/Feeds.thy ===== *)
theory Feeds
  imports News
begin

text \<open>
  The news adapters of \<^verbatim>\<open>data/news.py\<close>: how the replies of Finnhub, SEC EDGAR, RSS feeds and Yahoo become news
  items. A reply is a parameter; a key it lacks is \<open>None\<close>, and a key it has holds the type the service
  documents. The parsing of ISO texts and \<^verbatim>\<open>html.unescape\<close> are parameters as well.
\<close>

subsection \<open>Text out of HTML\<close>

lemma strip_tags_shrinks: "length (tl (dropWhile P cs)) < Suc (length cs)"
  using length_dropWhile_le [of P cs] by simp

text \<open>The pattern \<^verbatim>\<open><[^>]+>\<close>: a bracket, at least one character that closes nothing, and the closing bracket.\<close>

function strip_tags :: "string \<Rightarrow> string" where
  "strip_tags [] = []"
| "strip_tags (c # cs) =
     (let inner = takeWhile (\<lambda>x. x \<noteq> CHR ''>'') cs; rest = dropWhile (\<lambda>x. x \<noteq> CHR ''>'') cs in
      if c = CHR ''<'' \<and> inner \<noteq> [] \<and> rest \<noteq> [] then CHR '' '' # strip_tags (tl rest)
      else c # strip_tags cs)"
  by pat_completeness auto

termination
  by (relation "measure length") (use strip_tags_shrinks in auto)

text \<open>\<^verbatim>\<open>\s+\<close> to one blank.\<close>

fun collapse_space :: "string \<Rightarrow> string" where
  "collapse_space [] = []"
| "collapse_space (c # cs) =
     (if is_space c then (case cs of
        [] \<Rightarrow> '' ''
      | d # _ \<Rightarrow> if is_space d then collapse_space cs else CHR '' '' # collapse_space cs)
      else c # collapse_space cs)"

definition strip_html :: "(string \<Rightarrow> string) \<Rightarrow> string \<Rightarrow> string" where
  "strip_html unescape t = py_strip (collapse_space (unescape (strip_tags t)))"

subsection \<open>Finnhub\<close>

record finnhub_row =
  fh_headline :: "string option"
  fh_url :: "string option"
  fh_time :: "int option"
  fh_summary :: "string option"

definition finnhub_item :: "symbol \<Rightarrow> finnhub_row \<Rightarrow> news_item option" where
  "finnhub_item s r = (case (fh_headline r, fh_url r, fh_time r) of
       (Some h, Some u, Some t) \<Rightarrow> Some \<lparr>ni_source = FINNHUB, ni_headline = h, ni_url = u, ni_published = t * 1000000,
           ni_symbols = [s], ni_summary = fh_summary r, ni_sentiment = None, ni_body = None\<rparr>
     | _ \<Rightarrow> None)"

definition finnhub_news :: "exn + finnhub_row list \<Rightarrow> symbol \<Rightarrow> news_item list" where
  "finnhub_news reply s = (case reply of Inl _ \<Rightarrow> [] | Inr rows \<Rightarrow> List.map_filter (finnhub_item s) rows)"

subsection \<open>EDGAR\<close>

record edgar_hit =
  eh_id :: string
  eh_file_date :: "string option"
  eh_form :: string
  eh_file_type :: string
  eh_names :: "string list"
  eh_items :: "string list"
  eh_ciks :: "string list"
  eh_adsh :: string

text \<open>A text or list the hit lacks is empty, as every such key is read with \<^verbatim>\<open>or\<close>.\<close>

record edgar_env =
  ee_date :: "string \<Rightarrow> datetime option"
  ee_dash :: string
  ee_unescape :: "string \<Rightarrow> string"
  ee_download :: "string \<Rightarrow> (nat \<times> string) option"
  ee_fetch_body :: bool

definition archive_base :: string where
  "archive_base = ''https://www.sec.gov/Archives/''"

definition edgar_filename :: "edgar_hit \<Rightarrow> string" where
  "edgar_filename h = (let r = dropWhile (\<lambda>c. c \<noteq> CHR '':'') (eh_id h) in if r = [] then [] else tl r)"

definition edgar_url :: "edgar_hit \<Rightarrow> string option" where
  "edgar_url h =
     (if eh_ciks h \<noteq> [] \<and> eh_adsh h \<noteq> [] \<and> edgar_filename h \<noteq> []
      then (case int_of_text (hd (eh_ciks h)) of
          None \<Rightarrow> None
        | Some cik \<Rightarrow> Some (archive_base @ ''edgar/data/'' @ int_text cik @ ''/'' @ filter (\<lambda>c. c \<noteq> CHR ''-'') (eh_adsh h)
            @ ''/'' @ edgar_filename h))
      else Some (''https://www.sec.gov/cgi-bin/browse-edgar?action=getcompany&CIK=''
        @ (case eh_ciks h of [] \<Rightarrow> [] | c # _ \<Rightarrow> c)))"

definition strip_chars :: "string \<Rightarrow> string \<Rightarrow> string" where
  "strip_chars cs t = rev (dropWhile (\<lambda>c. c \<in> set cs) (rev (dropWhile (\<lambda>c. c \<in> set cs) t)))"

definition edgar_headline :: "edgar_env \<Rightarrow> edgar_hit \<Rightarrow> string" where
  "edgar_headline env h = strip_chars ('' '' @ ee_dash env)
     ((if eh_form h \<noteq> [] then eh_form h else eh_file_type h) @ '' '' @ ee_dash env @ '' ''
      @ (case eh_names h of [] \<Rightarrow> [] | n # _ \<Rightarrow> n)
      @ (if eh_items h = [] then [] else '' [Item '' @ join_text '', '' (eh_items h) @ '']''))"

definition fetch_filing_body :: "edgar_env \<Rightarrow> string \<Rightarrow> string option" where
  "fetch_filing_body env url = (case ee_download env url of
       None \<Rightarrow> None
     | Some (status, page) \<Rightarrow>
         if status \<noteq> 200 then None
         else (let t = strip_html (ee_unescape env) page in if t = [] then None else Some (take 8000 t)))"

definition edgar_item :: "edgar_env \<Rightarrow> symbol \<Rightarrow> edgar_hit \<Rightarrow> news_item option" where
  "edgar_item env s h = (case eh_file_date h of
       None \<Rightarrow> None
     | Some d \<Rightarrow> (case (ee_date env d, edgar_url h) of
         (Some t, Some url) \<Rightarrow> Some \<lparr>ni_source = EDGAR, ni_headline = edgar_headline env h, ni_url = url, ni_published = t,
             ni_symbols = [s], ni_summary = None, ni_sentiment = None,
             ni_body = (if ee_fetch_body env \<and> take (length archive_base) url = archive_base
                        then fetch_filing_body env url else None)\<rparr>
       | _ \<Rightarrow> None))"

definition edgar_filings :: "edgar_env \<Rightarrow> exn + edgar_hit list \<Rightarrow> symbol \<Rightarrow> news_item list" where
  "edgar_filings env reply s = (case reply of Inl _ \<Rightarrow> [] | Inr hits \<Rightarrow> List.map_filter (edgar_item env s) (take 10 hits))"

subsection \<open>RSS\<close>

record rss_entry =
  re_link :: string
  re_title :: string
  re_published :: "datetime option"
  re_summary :: string

text \<open>An attribute the entry lacks is empty. The second component of a feed tells whether reading it failed in the end.\<close>

definition rss_item :: "datetime \<Rightarrow> symbol list \<Rightarrow> rss_entry \<Rightarrow> news_item" where
  "rss_item now symbols e = \<lparr>ni_source = RSS, ni_headline = re_title e, ni_url = re_link e,
     ni_published = (case re_published e of None \<Rightarrow> now | Some t \<Rightarrow> t), ni_symbols = symbols,
     ni_summary = (if re_summary e = [] then None else Some (take 500 (re_summary e))), ni_sentiment = None, ni_body = None\<rparr>"

definition rss_entry_step :: "datetime \<Rightarrow> symbol list \<Rightarrow> string list \<times> news_item list \<Rightarrow> rss_entry \<Rightarrow> string list \<times> news_item list" where
  "rss_entry_step now symbols acc e = (case acc of (seen, its) \<Rightarrow>
     if re_link e \<in> set seen then (seen, its) else (re_link e # seen, its @ [rss_item now symbols e]))"

definition rss_news :: "datetime \<Rightarrow> (exn + rss_entry list) list \<Rightarrow> symbol list \<Rightarrow> news_item list" where
  "rss_news now feeds symbols = snd (foldl (\<lambda>acc f. foldl (rss_entry_step now symbols) acc (delivered f)) ([], []) feeds)"

subsection \<open>Yahoo\<close>

record yahoo_row =
  yr_title :: string
  yr_click :: string
  yr_canonical :: string
  yr_pub :: string
  yr_display :: string
  yr_description :: string

text \<open>\<open>parse_iso\<close> reads an ISO text, in which the caller has written out a trailing \<^verbatim>\<open>Z\<close>; without a zone it is UTC.\<close>

definition either_text :: "string \<Rightarrow> string \<Rightarrow> string" where
  "either_text a b = (if a \<noteq> [] then a else b)"

definition zone_written :: "string \<Rightarrow> string" where
  "zone_written t = concat (map (\<lambda>c. if c = CHR ''Z'' then ''+00:00'' else [c]) t)"

definition yahoo_item :: "(string \<Rightarrow> string) \<Rightarrow> (string \<Rightarrow> datetime option) \<Rightarrow> symbol \<Rightarrow> yahoo_row \<Rightarrow> news_item option" where
  "yahoo_item unescape parse_iso s r =
     (let url = either_text (yr_click r) (yr_canonical r); pub = either_text (yr_pub r) (yr_display r) in
      if yr_title r = [] \<or> url = [] \<or> pub = [] then None
      else (case parse_iso (zone_written pub) of
          None \<Rightarrow> None
        | Some t \<Rightarrow> (let text = (if yr_description r = [] then [] else strip_html unescape (yr_description r)) in
            Some \<lparr>ni_source = YFINANCE, ni_headline = yr_title r, ni_url = url, ni_published = t, ni_symbols = [s],
              ni_summary = (if text = [] then None else Some (take 500 text)), ni_sentiment = None,
              ni_body = (if 500 < length text then Some (take 4000 text) else None)\<rparr>)))"

definition yahoo_news :: "(string \<Rightarrow> string) \<Rightarrow> (string \<Rightarrow> datetime option) \<Rightarrow> exn + yahoo_row list \<Rightarrow> symbol \<Rightarrow> news_item list" where
  "yahoo_news unescape parse_iso reply s = (case reply of Inl _ \<Rightarrow> [] | Inr rows \<Rightarrow> List.map_filter (yahoo_item unescape parse_iso s) rows)"

subsection \<open>The adapters as the fetcher's feeds\<close>

record news_replies =
  rp_rss :: "(exn + rss_entry list) list option"
  rp_finnhub :: "(symbol \<Rightarrow> exn + finnhub_row list) option"
  rp_yahoo :: "(symbol \<Rightarrow> exn + yahoo_row list) option"
  rp_edgar :: "(symbol \<Rightarrow> string \<Rightarrow> exn + edgar_hit list) option"

definition macro_symbols :: "symbol list" where
  "macro_symbols = [''SPY'', ''TLT'', ''GLD'']"

definition feeds_of :: "edgar_env \<Rightarrow> (string \<Rightarrow> datetime option) \<Rightarrow> datetime \<Rightarrow> news_replies \<Rightarrow> news_feeds" where
  "feeds_of env parse_iso now rp =
     \<lparr>nf_rss = map_option (\<lambda>fs. Inr (rss_news now fs macro_symbols)) (rp_rss rp),
      nf_finnhub = map_option (\<lambda>f s. Inr (finnhub_news (f s) s)) (rp_finnhub rp),
      nf_yfinance = map_option (\<lambda>f s. Inr (yahoo_news (ee_unescape env) parse_iso (f s) s)) (rp_yahoo rp),
      nf_edgar = map_option (\<lambda>f s form. Inr (edgar_filings env (f s form) s)) (rp_edgar rp)\<rparr>"


subsection \<open>Which news can be scored\<close>

lemma add_items_rows:
  "r \<in> set (nd_rows (snd (foldl add_item (n, db) its))) \<Longrightarrow> r \<in> set (nd_rows db) \<or> (\<exists>it\<in>set its. r = unscored it)"
proof (induction its arbitrary: n db)
  case (Cons it its)
  obtain m e where a: "add_item (n, db) it = (m, e)" by (cases "add_item (n, db) it")
  have "set (nd_rows e) \<subseteq> set (nd_rows db) \<union> {unscored it}" using a by (auto simp: add_item_def Let_def split: if_splits)
  then show ?case using Cons.IH [of m e] Cons.prems by (auto simp: a)
qed simp

lemma rss_items: "it \<in> set (rss_news now fs syms) \<Longrightarrow> ni_body it = None"
proof -
  have step: "\<forall>it\<in>set (snd acc). ni_body it = None \<Longrightarrow> \<forall>it\<in>set (snd (foldl (rss_entry_step now syms) acc es)). ni_body it = None" for acc es
  proof (induction es arbitrary: acc)
    case (Cons e es)
    have "\<forall>it\<in>set (snd (rss_entry_step now syms acc e)). ni_body it = None"
      using Cons.prems by (cases acc) (auto simp: rss_entry_step_def rss_item_def)
    from Cons.IH [OF this] show ?case by simp
  qed simp
  have "\<forall>it\<in>set (snd acc). ni_body it = None
      \<Longrightarrow> \<forall>it\<in>set (snd (foldl (\<lambda>acc f. foldl (rss_entry_step now syms) acc (delivered f)) acc fs)). ni_body it = None" for acc
  proof (induction fs arbitrary: acc)
    case (Cons f fs)
    from Cons.IH [OF step [OF Cons.prems, of "delivered f"]] show ?case by simp
  qed simp
  from this [of "([], [])"] show "it \<in> set (rss_news now fs syms) \<Longrightarrow> ni_body it = None" by (simp add: rss_news_def)
qed

lemma finnhub_items: "it \<in> set (finnhub_news reply s) \<Longrightarrow> ni_body it = None"
  by (auto simp: finnhub_news_def finnhub_item_def map_filter_def split: sum.splits option.splits)

lemma yahoo_items:
  "it \<in> set (yahoo_news unescape parse_iso reply s) \<Longrightarrow> ni_body it \<noteq> None
    \<Longrightarrow> ni_source it = YFINANCE \<and> ni_symbols it = [s] \<and> 500 < length (the (ni_body it))"
  by (auto simp: yahoo_news_def yahoo_item_def map_filter_def Let_def split: sum.splits option.splits if_splits)

text \<open>
  What the news jobs can score (\<^verbatim>\<open>data/news.py\<close>, \<^verbatim>\<open>data/news_fetcher.py\<close>, \<^verbatim>\<open>data/news_store.py\<close>): of all that one
  fetch brings in, only a Yahoo item whose description has more than 500 characters can be in the scorer's queue. No
  headline of RSS or Finnhub ever is, however important: these adapters leave the body empty.
\<close>

lemma only_long_yahoo_news_is_scored:
  assumes "r \<in> set (nd_rows (snd (fetch_for_universe (feeds_of env parse_iso t rp) now symbols days db)))"
    and "r \<notin> set (nd_rows db)" and "is_queued since r"
  shows "ni_source (nr_item r) = YFINANCE \<and> 500 < length (the (ni_body (nr_item r)))"
proof -
  from assms(1,2) obtain it where it: "it \<in> set (fetched_items (feeds_of env parse_iso t rp) (now - days * 24 * us_per_hour) symbols)"
    and r: "r = unscored it" unfolding fetch_for_universe_def add_items_def by (auto dest: add_items_rows)
  from assms(3) have b: "ni_body it \<noteq> None" by (auto simp: r unscored_def is_queued_def split: option.splits)
  from it b obtain f s where "it \<in> set (yahoo_news (ee_unescape env) parse_iso (f s) s)"
    by (auto simp: fetched_items_def feeds_of_def delivered_def split: option.splits dest: rss_items finnhub_items)
  then show ?thesis using b by (auto simp: r unscored_def dest: yahoo_items)
qed

definition yahoo_story :: yahoo_row where
  "yahoo_story = \<lparr>yr_title = ''Rates'', yr_click = ''u'', yr_canonical = [], yr_pub = ''2026-05-15T14:00:00Z'', yr_display = [],
     yr_description = replicate 501 CHR ''x''\<rparr>"

lemma strip_tags_plain: "CHR ''<'' \<notin> set t \<Longrightarrow> strip_tags t = t"
  by (induction t) auto

lemma collapse_plain: "\<forall>c\<in>set t. \<not> is_space c \<Longrightarrow> collapse_space t = t"
  by (induction t) auto

lemma py_strip_plain:
  assumes "\<forall>c\<in>set t. \<not> is_space c"
  shows "py_strip t = t"
proof -
  have d: "dropWhile is_space u = u" if "\<forall>c\<in>set u. \<not> is_space c" for u using that by (cases u) auto
  show ?thesis unfolding py_strip_def using d [of t] d [of "rev t"] assms by simp
qed

lemma strip_html_plain: "CHR ''<'' \<notin> set t \<Longrightarrow> \<forall>c\<in>set t. \<not> is_space c \<Longrightarrow> strip_html (\<lambda>t. t) t = t"
  by (simp add: strip_html_def strip_tags_plain collapse_plain py_strip_plain)

definition sample_replies :: news_replies where
  "sample_replies = \<lparr>rp_rss = None, rp_finnhub = Some (\<lambda>_. Inl RuntimeError), rp_yahoo = Some (\<lambda>_. Inr [yahoo_story]), rp_edgar = None\<rparr>"

definition sample_edgar :: edgar_env where
  "sample_edgar = \<lparr>ee_date = \<lambda>_. None, ee_dash = ''-'', ee_unescape = \<lambda>t. t, ee_download = \<lambda>_. None, ee_fetch_body = False\<rparr>"

lemma only_long_yahoo_news_is_scored_example:
  "\<exists>(r :: news_row). r \<in> set (nd_rows (snd (fetch_for_universe (feeds_of sample_edgar (\<lambda>_. Some 5) 0 sample_replies) 10 [''SPY''] 2
        \<lparr>nd_rows = [], nd_symbols = []\<rparr>)))
    \<and> is_queued 0 r \<and> ni_source (nr_item r) = YFINANCE \<and> 500 < length (the (ni_body (nr_item r)))"
proof -
  let ?db = "\<lparr>nd_rows = [], nd_symbols = []\<rparr>"
  let ?text = "replicate 501 CHR ''x''"
  let ?it = "\<lparr>ni_source = YFINANCE, ni_headline = ''Rates'', ni_url = ''u'', ni_published = 5, ni_symbols = [''SPY''],
     ni_summary = Some (take 500 ?text), ni_sentiment = None, ni_body = Some (take 4000 ?text)\<rparr>"
  have t: "strip_html (\<lambda>t. t) ?text = ?text" by (rule strip_html_plain) (auto simp: is_space_def)
  have n: "?text \<noteq> []" by simp
  have "yahoo_item (\<lambda>t. t) (\<lambda>_. Some 5) ''SPY'' yahoo_story = Some ?it"
    using t n by (simp add: yahoo_item_def yahoo_story_def either_text_def del: replicate.simps)
  then have f: "fetched_items (feeds_of sample_edgar (\<lambda>_. Some 5) 0 sample_replies) d [''SPY''] = [?it]" for d
    by (simp add: fetched_items_def feeds_of_def sample_replies_def sample_edgar_def delivered_def finnhub_news_def yahoo_news_def
        is_equity_def map_filter_def del: replicate.simps)
  have r: "unscored ?it \<in> set (nd_rows (snd (fetch_for_universe (feeds_of sample_edgar (\<lambda>_. Some 5) 0 sample_replies) 10 [''SPY''] 2 ?db)))"
    by (simp add: fetch_for_universe_def f add_items_def add_item_def del: replicate.simps)
  have q: "is_queued 0 (unscored ?it)"
    by (simp add: is_queued_def nr_published_def unscored_def min_body_chars_def del: replicate.simps)
  show ?thesis
    using only_long_yahoo_news_is_scored [OF r _ q] r q by (intro exI [of _ "unscored ?it"]) (simp del: replicate.simps)
qed

text \<open>Filings without an archive address share the address of their company, and the store keeps the first only.\<close>

lemma filings_share_an_address:
  assumes "eh_adsh h = [] \<or> edgar_filename h = []" and "eh_adsh h' = [] \<or> edgar_filename h' = []" and "eh_ciks h = eh_ciks h'"
  shows "edgar_url h = edgar_url h'"
  using assms by (auto simp: edgar_url_def)

end
