(* ===== verification/Repairs.thy ===== *)
theory Repairs
  imports Reconciler Lots Agents "HOL-Library.Multiset" "HOL-Library.List_Lexorder" "HOL-Library.Char_ord"
begin

text \<open>
  The repair scripts under \<^verbatim>\<open>scripts/\<close> that change the books of a stopped system: the ghost sales that follow a manual
  liquidation (\<^verbatim>\<open>reconcile_oms_after_flatten.py\<close>), the closing of all lots (\<^verbatim>\<open>flatten_alpaca_paper.py\<close>), the removal
  of dust (\<^verbatim>\<open>clean_dust_lots.py\<close>), the write-off of a fee in kind (\<^verbatim>\<open>fix_solusd_break.py\<close>) and the migration of lot symbols
  (\<^verbatim>\<open>ops/migrate_lot_symbols.py\<close>). Last trades, the marks of the broker and the ids that are drawn are parameters. What the scripts print
  is left out.
\<close>

subsection \<open>Ghost sales\<close>

definition qty_threshold :: decimal where "qty_threshold = 1 / 10 ^ 6"

definition ghost_prefix :: string where "ghost_prefix = ''ghost-flatten-''"

definition net_row :: "(symbol, decimal) dict \<Rightarrow> row \<Rightarrow> exn + (symbol, decimal) dict" where
  "net_row net r = (case loads (r_payload r) of
       None \<Rightarrow> Inl ValueError
     | Some p \<Rightarrow>
         bindr (get_str p ''symbol'') (\<lambda>s. bindr (get_dec p ''qty'') (\<lambda>q. bindr (get_str p ''side'') (\<lambda>side.
           Inr (dict_set s (dadd (dict_get_or net s 0) (dmul (if side = ''buy'' then 1 else - 1) q)) net)))))"

fun net_rows :: "row list \<Rightarrow> (symbol, decimal) dict \<Rightarrow> exn + (symbol, decimal) dict" where
  "net_rows [] net = Inr net"
| "net_rows (r # rs) net = bindr (net_row net r) (net_rows rs)"

definition compute_net_positions :: "oms_store \<Rightarrow> exn + (symbol, decimal) dict" where
  "compute_net_positions st = bindr (net_rows (filter (\<lambda>r. r_kind r = FILL_RECEIVED) st) [])
     (\<lambda>net. Inr (filter (\<lambda>(_, q). qty_threshold < q) net))"

text \<open>Most recent exit price first; \<open>lots\<close> are the rows of the lot table.\<close>

definition exit_prices :: "lot list \<Rightarrow> (symbol, decimal) dict" where
  "exit_prices ls = foldl (\<lambda>ps l. if py_upper (l_symbol l) \<in> fst ` set ps then ps
       else ps @ [(py_upper (l_symbol l), the (l_exit_price l))]) []
     (let priced = filter (\<lambda>l. l_is_closed l \<and> l_exit_price l \<noteq> None) ls in
      sort_key (\<lambda>l. - the (l_exit_date l)) (filter (\<lambda>l. l_exit_date l \<noteq> None) priced) @ filter (\<lambda>l. l_exit_date l = None) priced)"

definition ghost_rows :: "int \<Rightarrow> uuid \<Rightarrow> datetime \<Rightarrow> symbol \<Rightarrow> decimal \<Rightarrow> decimal \<Rightarrow> row list" where
  "ghost_rows seq n ts s q price =
     (let ord = ghost_order n (n + 2) SELL s q MANAGER ts in
      [\<lparr>r_seq = seq, r_ts = ts, r_kind = ORDER_SUBMIT_INTENT, r_order_id = n, r_payload = dumps (serialize_order ord)\<rparr>,
       \<lparr>r_seq = seq + 1, r_ts = ts, r_kind = ORDER_ACCEPTED, r_order_id = n,
          r_payload = dumps [(''broker_order_id'', PStr (ghost_prefix @ uuid_text n))]\<rparr>,
       \<lparr>r_seq = seq + 2, r_ts = ts, r_kind = FILL_RECEIVED, r_order_id = n,
          r_payload = dumps (serialize_fill (ghost_fill (n + 1) ord price ts))\<rparr>])"

fun all_ghost_rows :: "int \<Rightarrow> uuid \<Rightarrow> datetime \<Rightarrow> (symbol, decimal) dict \<Rightarrow> (symbol \<times> decimal) list \<Rightarrow> row list" where
  "all_ghost_rows seq n ts prices [] = []"
| "all_ghost_rows seq n ts prices ((s, q) # net) =
     ghost_rows seq n ts s q (dict_get_or prices s 0) @ all_ghost_rows (seq + 3) (n + 3) ts prices net"

text \<open>The orders of an earlier run of the script: their acceptance carries the prefix.\<close>

definition is_ghost_row :: "row \<Rightarrow> bool" where
  "is_ghost_row r \<longleftrightarrow> r_kind r = ORDER_ACCEPTED \<and> (case loads (r_payload r) of
       None \<Rightarrow> False
     | Some p \<Rightarrow> (\<exists>(k, v)\<in>set p. (case v of PStr t \<Rightarrow> take (length ghost_prefix) t = ghost_prefix | _ \<Rightarrow> False)))"

definition roll_back_ghosts :: "oms_store \<Rightarrow> oms_store" where
  "roll_back_ghosts st = (let ids = r_order_id ` set (filter is_ghost_row st) in filter (\<lambda>r. r_order_id r \<notin> ids) st)"

text \<open>\<open>seq\<close> is the next key of the table, \<open>n\<close> the first id drawn; without \<open>execute\<close> only the roll-back is done.\<close>

definition reconcile_after_flatten ::
  "bool \<Rightarrow> int \<Rightarrow> uuid \<Rightarrow> datetime \<Rightarrow> lot list \<Rightarrow> (symbol list \<Rightarrow> (symbol, decimal) dict) \<Rightarrow> oms_store \<Rightarrow> exn + oms_store" where
  "reconcile_after_flatten execute seq n ts lots trades st =
     (let st1 = roll_back_ghosts st in
      bindr (compute_net_positions st1) (\<lambda>net.
        if net = [] then Inr st1
        else (let prices = exit_prices lots;
                  missing = filter (\<lambda>s. s \<notin> fst ` set prices) (map fst net);
                  known = (if missing = [] then prices else foldl (\<lambda>d (s, p). dict_set s p d) prices (trades missing))
              in if execute then Inr (st1 @ all_ghost_rows seq n ts known (sort_key fst net)) else Inr st1)))"

subsection \<open>The lot table\<close>

text \<open>\<^verbatim>\<open>_flatten_local_lots\<close>, with the marks of the positions the broker still reports.\<close>

definition close_at_mark :: "date \<Rightarrow> (symbol, decimal) dict \<Rightarrow> lot \<Rightarrow> lot" where
  "close_at_mark today mks l = (if l_is_closed l then l else l\<lparr>l_remaining_qty := 0, l_is_closed := True, l_exit_date := Some today,
     l_exit_price := Some (case dict_get mks (py_upper (l_symbol l)) of None \<Rightarrow> l_entry_price l | Some m \<Rightarrow> m)\<rparr>)"

definition flatten_local_lots :: "date \<Rightarrow> (symbol, decimal) dict \<Rightarrow> lot list \<Rightarrow> nat \<times> lot list" where
  "flatten_local_lots today mks ls = (length (filter (\<lambda>l. \<not> l_is_closed l) ls), map (close_at_mark today mks) ls)"

definition broker_marks :: "broker_position list \<Rightarrow> (symbol, decimal) dict" where
  "broker_marks ps = foldl (\<lambda>d p. dict_set (py_upper (bp_symbol p)) (bp_current_price p) d) [] ps"

definition dust_qty :: decimal where "dust_qty = 1 / 10 ^ 4"

definition is_dust :: "lot \<Rightarrow> bool" where
  "is_dust l \<longleftrightarrow> \<not> l_is_closed l \<and> 0 < l_remaining_qty l \<and> l_remaining_qty l < dust_qty"

definition clean_dust_lots :: "bool \<Rightarrow> lot list \<Rightarrow> lot list" where
  "clean_dust_lots write ls = (if write then map (\<lambda>l. if is_dust l then l\<lparr>l_remaining_qty := 0, l_is_closed := True\<rparr> else l) ls else ls)"

definition migrate_lot_symbols :: "lot list \<Rightarrow> nat \<times> lot list" where
  "migrate_lot_symbols ls = (length (filter (\<lambda>l. CHR ''/'' \<in> set (l_symbol l)) ls),
     map (\<lambda>l. if CHR ''/'' \<in> set (l_symbol l) then l\<lparr>l_symbol := filter (\<lambda>c. c \<noteq> CHR ''/'') (l_symbol l)\<rparr> else l) ls)"

subsection \<open>The fee of the SOLUSD purchase\<close>

definition fee_qty :: decimal where "fee_qty = 50 / 1000"
definition fee_price :: decimal where "fee_price = 892331 / 10000"

text \<open>The order system is new, without the orders of its log, and its only subscriber books fills in the ledger.\<close>

definition book_published :: "bus_event list \<Rightarrow> ledger \<Rightarrow> ledger" where
  "book_published es g = foldl (\<lambda>g e. case e of FillReceived f \<Rightarrow> book_fill f FIFO g | _ \<Rightarrow> g) g es"

definition fix_solusd :: "uuid \<Rightarrow> datetime \<Rightarrow> datetime \<Rightarrow> oms_store \<Rightarrow> ledger \<Rightarrow> oms_store \<times> ledger" where
  "fix_solusd n now ts st g =
     (let s = snd (book_fee_offset ''SOLUSD'' fee_qty fee_price HAIKU ts (new_oms st n now))
      in (om_log s, book_published (om_bus s) g))"


subsection \<open>What a replay makes of the fills of a log\<close>

definition event_fills :: "logged_event \<Rightarrow> fill list" where
  "event_fills e = (if e_kind e = FILL_RECEIVED then (case deserialize_fill (e_payload e) of Inl _ \<Rightarrow> [] | Inr f \<Rightarrow> [f]) else [])"

definition held_together :: "oms \<Rightarrow> bool" where
  "held_together s \<longleftrightarrow> distinct (map fst (om_orders s)) \<and> (\<forall>(k, ord)\<in>set (om_orders s). o_id ord = k)
     \<and> fst ` set (om_fills s) \<subseteq> fst ` set (om_orders s)"

definition fills_by_key :: "oms \<Rightarrow> fill list" where
  "fills_by_key s = concat (map (\<lambda>k. dict_get_or (om_fills s) k []) (map fst (om_orders s)))"

lemma oms_fills_keys: "held_together s \<Longrightarrow> oms_fills s = fills_by_key s"
  unfolding oms_fills_eq fills_by_key_def map_map comp_def
  by (rule arg_cong [where f = concat], rule map_cong) (auto simp: held_together_def)

lemma held_id: "held_together s \<Longrightarrow> dict_get (om_orders s) k = Some ord \<Longrightarrow> o_id ord = k"
  by (auto simp: held_together_def dest: map_of_SomeD)

text \<open>\<open>adds_fills s fs t\<close>: \<open>t\<close> holds together and has the fills of \<open>s\<close> and \<open>fs\<close>.\<close>

definition adds_fills :: "oms \<Rightarrow> fill list \<Rightarrow> oms \<Rightarrow> bool" where
  "adds_fills s fs t \<longleftrightarrow> held_together t \<and> mset (fills_by_key t) = mset (fills_by_key s) + mset fs"

lemma books_trans: "adds_fills s fs t \<Longrightarrow> adds_fills t gs u \<Longrightarrow> adds_fills s (fs @ gs) u"
  by (simp add: adds_fills_def)

lemma books_frame:
  "held_together s \<Longrightarrow> om_orders t = om_orders s \<Longrightarrow> om_fills t = om_fills s \<Longrightarrow> adds_fills s [] t"
  by (simp add: adds_fills_def held_together_def fills_by_key_def)

lemma books_put:
  assumes "held_together s" "dict_get (om_orders s) k = Some ord'" "o_id ord = k"
    and "om_orders t = dict_set k ord (om_orders s)" "om_fills t = om_fills s"
  shows "adds_fills s [] t"
proof -
  have "k \<in> fst ` set (om_orders s)" using assms(2) by (force dest: map_of_SomeD)
  then show ?thesis using assms by (auto simp: adds_fills_def held_together_def fills_by_key_def keys_set_present dest: set_dict_set)
qed

lemma books_submit:
  assumes "held_together s" "o_id ord = k" "om_orders t = dict_set k ord (om_orders s)"
    and "om_fills t = dict_set k (dict_get_or (om_fills s) k []) (om_fills s)"
  shows "adds_fills s [] t"
proof -
  have held: "held_together t" using assms by (auto simp: held_together_def dest: set_dict_set)
  have get: "dict_get_or (om_fills t) j [] = dict_get_or (om_fills s) j []" for j by (simp add: assms(4) dict_get_or_def)
  show ?thesis
  proof (cases "k \<in> fst ` set (om_orders s)")
    case True
    then show ?thesis using held by (simp add: adds_fills_def fills_by_key_def get assms(3) keys_set_present)
  next
    case False
    then have "dict_get (om_fills s) k = None" using assms(1) by (auto simp: held_together_def map_of_eq_None_iff)
    then have "dict_get_or (om_fills s) k [] = []" by (simp add: dict_get_or_def)
    then show ?thesis using held False by (simp add: adds_fills_def fills_by_key_def get assms(3) dict_set_fresh del: map_map)
  qed
qed

lemma books_fill:
  assumes "held_together s" "k \<in> fst ` set (om_orders s)" "om_orders t = om_orders s"
    and "om_fills t = dict_set k (dict_get_or (om_fills s) k [] @ [f]) (om_fills s)"
  shows "adds_fills s [f] t"
proof -
  have get: "dict_get_or (om_fills t) j [] = dict_get_or (om_fills s) j [] @ (if j = k then [f] else [])" for j
    by (simp add: assms(4) dict_get_or_def)
  have one: "mset (concat (map (\<lambda>j. g j @ (if j = k then [f] else [])) js)) = mset (concat (map g js)) + (if k \<in> set js then {#f#} else {#})"
    if "distinct js" for g :: "order_id \<Rightarrow> fill list" and js using that by (induction js) auto
  have "held_together t" using assms by (auto simp: held_together_def)
  moreover have "distinct (map fst (om_orders s))" "k \<in> set (map fst (om_orders s))" using assms(1,2) by (auto simp: held_together_def)
  ultimately show ?thesis unfolding adds_fills_def fills_by_key_def get assms(3) one [OF \<open>distinct (map fst (om_orders s))\<close>] by simp
qed

lemma books_silent:
  assumes "silent_step k ev st s = (Inr (), t)" "held_together s"
  shows "adds_fills s [] t"
proof -
  from assms(1) obtain m ord where m: "dict_get (om_fsms s) k = Some m" and o: "dict_get (om_orders s) k = Some ord"
    by (auto simp: silent_step_def eff_defs oms_prims split: option.splits)
  from silent_step_run [OF m o, of ev st] assms(1) have t: "om_orders t = dict_set k (ord\<lparr>o_state := st\<rparr>) (om_orders s)" "om_fills t = om_fills s"
    by auto
  show ?thesis by (rule books_put [OF assms(2) o _ t]) (simp add: held_id [OF assms(2) o])
qed

lemma books_held: "adds_fills s fs t \<Longrightarrow> held_together t"
  by (simp add: adds_fills_def)

lemma books_event:
  assumes "apply_logged_event e s = (Inr (), t)" "held_together s"
    and "e_kind e = ORDER_SUBMIT_INTENT \<Longrightarrow> get_uuid (e_payload e) ''id'' = Inr (e_order_id e)"
  shows "adds_fills s (event_fills e) t"
proof (cases "e_kind e")
  case ORDER_SUBMIT_INTENT
  then obtain ord u where d: "deserialize_order (e_payload e) = Inr ord"
    and u: "u = s\<lparr>om_orders := dict_set (e_order_id e) ord (om_orders s), om_fsms := dict_set (e_order_id e) (order_machine PENDING) (om_fsms s),
        om_fills := dict_set (e_order_id e) (dict_get_or (om_fills s) (e_order_id e) []) (om_fills s)\<rparr>"
    and t: "silent_step (e_order_id e) SUBMIT SUBMITTED u = (Inr (), t)"
    using assms(1) by (auto simp: apply_logged_event_def replay_step_def andthen_Inr Let_def lift_res_def oms_prims modify_def)
  have "o_id ord = e_order_id e" using d assms(3) [OF ORDER_SUBMIT_INTENT] by (auto simp: deserialize_order_def bindr_Inr_iff)
  then have "adds_fills s [] u" by (intro books_submit [OF assms(2)]) (simp_all add: u)
  with books_silent [OF t books_held] show ?thesis
    using ORDER_SUBMIT_INTENT books_trans by (fastforce simp: event_fills_def)
next
  case ORDER_ACCEPTED
  then obtain bid ord u where o: "dict_get (om_orders s) (e_order_id e) = Some ord"
    and u: "u = s\<lparr>om_broker_ids := dict_set bid (e_order_id e) (om_broker_ids s),
        om_orders := dict_set (e_order_id e) (ord\<lparr>o_broker_order_id := Some bid, o_submitted_at := Some (e_ts e)\<rparr>) (om_orders s)\<rparr>"
    and t: "silent_step (e_order_id e) ACCEPT ACCEPTED u = (Inr (), t)"
    using assms(1) by (auto simp: apply_logged_event_def replay_step_def andthen_Inr Let_def lift_res_def oms_prims modify_def fetch_def split: option.splits)
  have "adds_fills s [] u" by (rule books_put [OF assms(2) o]) (simp_all add: u held_id [OF assms(2) o])
  with books_silent [OF t books_held] show ?thesis
    using ORDER_ACCEPTED books_trans by (fastforce simp: event_fills_def)
next
  case ORDER_REJECTED
  then obtain r ord u where o: "dict_get (om_orders s) (e_order_id e) = Some ord"
    and u: "u = s\<lparr>om_orders := dict_set (e_order_id e) (ord\<lparr>o_rejection_reason := r\<rparr>) (om_orders s)\<rparr>"
    and t: "silent_step (e_order_id e) REJECT REJECTED u = (Inr (), t)"
    using assms(1) by (auto simp: apply_logged_event_def replay_step_def andthen_Inr Let_def lift_res_def oms_prims modify_def fetch_def split: option.splits)
  have "adds_fills s [] u" by (rule books_put [OF assms(2) o]) (simp_all add: u held_id [OF assms(2) o])
  with books_silent [OF t books_held] show ?thesis
    using ORDER_REJECTED books_trans by (fastforce simp: event_fills_def)
next
  case FILL_RECEIVED
  then obtain f ord avg u v ev st where f: "deserialize_fill (e_payload e) = Inr f"
    and u: "u = s\<lparr>om_fills := dict_set (e_order_id e) (dict_get_or (om_fills s) (e_order_id e) [] @ [f]) (om_fills s)\<rparr>"
    and o: "dict_get (om_orders u) (e_order_id e) = Some ord"
    and v: "v = u\<lparr>om_orders := dict_set (e_order_id e) (filled_order ord f avg (e_ts e)) (om_orders u)\<rparr>"
    and t: "silent_step (e_order_id e) ev st v = (Inr (), t)"
    using assms(1)
    by (auto simp: apply_logged_event_def replay_step_def andthen_Inr Let_def lift_res_def oms_prims modify_def fetch_def
        split: option.splits if_splits)
  have b: "adds_fills s [f] u" using o by (intro books_fill [OF assms(2)]) (auto simp: u dest: map_of_SomeD intro: rev_image_eqI)
  then have h: "held_together u" by (rule books_held)
  have "adds_fills u [] v" by (rule books_put [OF h o]) (simp_all add: v filled_order_def held_id [OF h o])
  with b books_silent [OF t books_held] have "adds_fills s ([f] @ [] @ []) t" by (blast intro: books_trans)
  then show ?thesis using FILL_RECEIVED f by (simp add: event_fills_def)
qed (use assms(1,2) in \<open>auto simp: apply_logged_event_def replay_step_def Let_def skip_def ret_def event_fills_def
       intro: books_silent books_frame\<close>)

lemma books_events:
  assumes "each apply_logged_event es s = (Inr (), t)" "held_together s"
    and "\<And>e. e \<in> set es \<Longrightarrow> e_kind e = ORDER_SUBMIT_INTENT \<Longrightarrow> get_uuid (e_payload e) ''id'' = Inr (e_order_id e)"
  shows "adds_fills s (concat (map event_fills es)) t"
  using assms
proof (induction es arbitrary: s)
  case Nil
  then show ?case by (simp add: skip_def ret_def adds_fills_def)
next
  case (Cons e es)
  from Cons.prems(1) obtain u where u: "apply_logged_event e s = (Inr (), u)" "each apply_logged_event es u = (Inr (), t)"
    by (auto simp: andthen_Inr)
  have b: "adds_fills s (event_fills e) u" by (rule books_event [OF u(1) Cons.prems(2)]) (use Cons.prems(3) in auto)
  have "adds_fills u (concat (map event_fills es)) t" by (rule Cons.IH [OF u(2) books_held [OF b]]) (use Cons.prems(3) in auto)
  with b show ?case by (auto dest: books_trans)
qed


subsection \<open>Exact sums\<close>

definition signed_of :: "symbol \<Rightarrow> fill \<Rightarrow> rat" where
  "signed_of sy f = (if f_symbol f = sy then if f_side f = BUY then f_qty f else - f_qty f else 0)"

definition volume :: "fill list \<Rightarrow> rat" where
  "volume fs = sum_list (map (\<lambda>f. \<bar>f_qty f\<bar>) fs)"

definition exact_fills :: "rat \<Rightarrow> fill list \<Rightarrow> bool" where
  "exact_fills b fs \<longleftrightarrow> (\<forall>f\<in>set fs. on_step 9 (f_qty f)) \<and> volume fs \<le> b"

lemma volume_simps [simp]: "volume [] = 0" "volume (f # fs) = \<bar>f_qty f\<bar> + volume fs" "volume (fs @ gs) = volume fs + volume gs"
  by (simp_all add: volume_def)

lemma volume_nonneg: "0 \<le> volume fs"
  by (induction fs) auto

lemma on_step_uminus: "on_step k x \<Longrightarrow> on_step k (- x)"
  using on_step_diff [OF on_step_0] by fastforce

lemma add_fill_exact:
  assumes "on_step 9 (f_qty f)" "\<And>sy. on_step 9 (dict_get_or d sy 0)" "\<And>sy. \<bar>dict_get_or d sy 0\<bar> \<le> v" "v + \<bar>f_qty f\<bar> \<le> 10 ^ 19"
  shows "dict_get_or (add_fill_qty d f) sy 0 = dict_get_or d sy 0 + signed_of sy f"
proof -
  have v: "0 \<le> v" using assms(3) [of sy] by linarith
  have "dround (f_qty f) = f_qty f" "dround (- f_qty f) = - f_qty f"
    using assms(1,4) v on_step_uminus [OF assms(1)] by (auto intro!: dround_step)
  then have s: "signed_qty f = (if f_side f = BUY then f_qty f else - f_qty f)" by (simp add: signed_qty_def dec_defs)
  have st: "on_step 9 (signed_qty f)" using assms(1) on_step_uminus by (simp add: s)
  have "\<bar>dict_get_or d (f_symbol f) 0 + signed_qty f\<bar> \<le> v + \<bar>f_qty f\<bar>" 
    using assms(3) [of "f_symbol f"] abs_triangle_ineq [of "dict_get_or d (f_symbol f) 0" "signed_qty f"] by (auto simp: s split: if_splits)
  then have "dround (dict_get_or d (f_symbol f) 0 + signed_qty f) = dict_get_or d (f_symbol f) 0 + signed_qty f"
    using assms(4) by (intro dround_step [where k = 9] on_step_add assms(2) st) simp
  then show ?thesis by (simp add: add_fill_qty_def signed_of_def s dadd_def) (simp add: dict_get_or_def)
qed

lemma fold_exact:
  assumes "\<forall>f\<in>set fs. on_step 9 (f_qty f)" "\<And>sy. on_step 9 (dict_get_or d sy 0)" "\<And>sy. \<bar>dict_get_or d sy 0\<bar> \<le> v" "v + volume fs \<le> 10 ^ 19"
  shows "dict_get_or (foldl add_fill_qty d fs) sy 0 = dict_get_or d sy 0 + sum_list (map (signed_of sy) fs)"
  using assms
proof (induction fs arbitrary: d v)
  case (Cons f fs)
  have step: "dict_get_or (add_fill_qty d f) sy 0 = dict_get_or d sy 0 + signed_of sy f" for sy
    using Cons.prems volume_nonneg [of fs] by (intro add_fill_exact [where v = v]) auto
  have "on_step 9 (signed_of sy f)" "\<bar>signed_of sy f\<bar> \<le> \<bar>f_qty f\<bar>" for sy
    using Cons.prems(1) on_step_uminus by (auto simp: signed_of_def)
  then have "on_step 9 (dict_get_or (add_fill_qty d f) sy 0)" "\<bar>dict_get_or (add_fill_qty d f) sy 0\<bar> \<le> v + \<bar>f_qty f\<bar>" for sy
    unfolding step using Cons.prems(2,3) by (blast intro: on_step_add order_trans [OF abs_triangle_ineq] add_mono)+
  from Cons.IH [OF _ this] Cons.prems(1,4) show ?case by (simp add: step add.assoc)
qed simp

lemma positions_exact:
  assumes "exact_fills (10 ^ 19) fs"
  shows "dict_get_or (foldl add_fill_qty [] fs) sy 0 = sum_list (map (signed_of sy) fs)"
  using fold_exact [of fs "[]" 0 sy] assms by (simp add: exact_fills_def dict_get_or_def)

lemma exact_mset: "mset fs = mset gs \<Longrightarrow> exact_fills b fs \<longleftrightarrow> exact_fills b gs"
  unfolding exact_fills_def volume_def sum_mset_sum_list [symmetric] mset_map by (metis set_mset_mset)

lemma net_mset: "mset fs = mset gs \<Longrightarrow> sum_list (map (signed_of sy) fs) = sum_list (map (signed_of sy) gs)"
  unfolding sum_mset_sum_list [symmetric] mset_map by simp


lemma net_step: "\<forall>f\<in>set fs. on_step 9 (f_qty f) \<Longrightarrow> on_step 9 (sum_list (map (signed_of sy) fs))"
  by (induction fs) (auto simp: signed_of_def intro: on_step_add on_step_uminus on_step_diff)

lemma net_volume: "finite S \<Longrightarrow> (\<Sum>sy\<in>S. \<bar>sum_list (map (signed_of sy) fs)\<bar>) \<le> volume fs"
proof (induction fs)
  case (Cons f fs)
  have "(\<Sum>sy\<in>S. \<bar>signed_of sy f\<bar>) = (\<Sum>sy\<in>S. if sy = f_symbol f then \<bar>f_qty f\<bar> else 0)"
    by (rule sum.cong) (auto simp: signed_of_def)
  also have "\<dots> \<le> \<bar>f_qty f\<bar>" using Cons.prems by (simp add: sum.delta)
  finally have "(\<Sum>sy\<in>S. \<bar>signed_of sy f\<bar>) \<le> \<bar>f_qty f\<bar>" .
  moreover have "(\<Sum>sy\<in>S. \<bar>signed_of sy f + sum_list (map (signed_of sy) fs)\<bar>)
      \<le> (\<Sum>sy\<in>S. \<bar>signed_of sy f\<bar>) + (\<Sum>sy\<in>S. \<bar>sum_list (map (signed_of sy) fs)\<bar>)"
    unfolding sum.distrib [symmetric] by (rule sum_mono) (rule abs_triangle_ineq)
  ultimately show ?case using Cons by simp
qed simp

subsection \<open>The script's net positions are those of the replay\<close>

lemma deserialize_fill_reads:
  assumes "deserialize_fill p = Inr f"
  shows "get_str p ''symbol'' = Inr (f_symbol f)" "get_dec p ''qty'' = Inr (f_qty f)" "get_str p ''side'' = Inr (side_str (f_side f))"
proof -
  from assms obtain x sd where x: "get_str p ''side'' = Inr x" "side_of_str x = Inr sd" "f_side f = sd"
    and r: "get_str p ''symbol'' = Inr (f_symbol f)" "get_dec p ''qty'' = Inr (f_qty f)"
    by (auto simp: deserialize_fill_def bindr_Inr_iff)
  have "x = side_str sd" using x(2) by (auto simp: enum_of_def split: if_splits option.splits)
  with x r show "get_str p ''symbol'' = Inr (f_symbol f)" "get_dec p ''qty'' = Inr (f_qty f)" "get_str p ''side'' = Inr (side_str (f_side f))"
    by simp_all
qed

lemma net_row_fill:
  "loads (r_payload r) = Some p \<Longrightarrow> deserialize_fill p = Inr f \<Longrightarrow> net_row net r = Inr (add_fill_qty net f)"
  using deserialize_fill_reads [of p f] by (cases "f_side f") (simp_all add: net_row_def add_fill_qty_def signed_qty_def)

definition readable_log :: "oms_store \<Rightarrow> bool" where
  "readable_log st \<longleftrightarrow> (\<forall>r\<in>set st. \<exists>p. loads (r_payload r) = Some p
     \<and> (r_kind r = FILL_RECEIVED \<longrightarrow> (\<exists>f. deserialize_fill p = Inr f))
     \<and> (r_kind r = ORDER_SUBMIT_INTENT \<longrightarrow> get_uuid p ''id'' = Inr (r_order_id r)))"

definition store_fills :: "oms_store \<Rightarrow> fill list" where
  "store_fills st = concat (map event_fills (iter_all st))"

lemma store_fills_simps [simp]:
  "store_fills [] = []" "store_fills (xs @ ys) = store_fills xs @ store_fills ys"
  "readable_log (xs @ ys) \<longleftrightarrow> readable_log xs \<and> readable_log ys"
  by (auto simp: store_fills_def iter_all_def map_filter_def readable_log_def)

lemma net_rows_fills:
  "readable_log st \<Longrightarrow> net_rows (filter (\<lambda>r. r_kind r = FILL_RECEIVED) st) net = Inr (foldl add_fill_qty net (store_fills st))"
proof (induction st arbitrary: net)
  case (Cons r st)
  then obtain p where p: "loads (r_payload r) = Some p" and f: "r_kind r = FILL_RECEIVED \<Longrightarrow> \<exists>f. deserialize_fill p = Inr f"
    and st: "readable_log st" by (auto simp: readable_log_def)
  have "store_fills (r # st) = event_fills (the (read_row r)) @ store_fills st"
    using p by (simp add: store_fills_def iter_all_def map_filter_def read_row_def)
  then show ?case
    using p f Cons.IH [OF st] by (auto simp: event_fills_def read_row_def net_row_fill)
qed simp

lemma replay_books:
  assumes "readable_log st" "each apply_logged_event (iter_all st) s = (Inr (), t)" "held_together s"
  shows "adds_fills s (store_fills st) t"
  unfolding store_fills_def
proof (rule books_events [OF assms(2,3)])
  fix e assume "e \<in> set (iter_all st)" "e_kind e = ORDER_SUBMIT_INTENT"
  then show "get_uuid (e_payload e) ''id'' = Inr (e_order_id e)"
    using assms(1) by (force simp: iter_all_def map_filter_def read_row_def readable_log_def)
qed

text \<open>The rows of a ghost sale replay from any state, and add their one fill.\<close>

lemma ghost_payload_plain [simp]: "plain_keys [(''broker_order_id'', v)]"
  by (simp add: plain_keys_def reserved_keys_def)

lemma order_id_read [simp]: "get_uuid (serialize_order ord) ''id'' = Inr (o_id ord)"
  by (simp add: serialize_order_def payload_reads)

lemma ghost_rows_readable: "readable_log (ghost_rows seq n ts s q price)"
  by (simp add: readable_log_def ghost_rows_def Let_def) (simp add: ghost_order_def)

lemma ghost_rows_fills: "store_fills (ghost_rows seq n ts s q price) = [ghost_fill (n + 1) (ghost_order n (n + 2) SELL s q MANAGER ts) price ts]"
  by (simp add: ghost_rows_def Let_def store_fills_def iter_all_def map_filter_def read_row_def event_fills_def)

lemma ghost_rows_replay: "\<exists>t. each apply_logged_event (iter_all (ghost_rows seq n ts s q price)) u = (Inr (), t)"
  by (auto simp: ghost_rows_def Let_def iter_all_def map_filter_def read_row_def apply_logged_event_def eff_defs oms_prims
      replay_step_def silent_step_def get_str_def need_def average_price_def logged_part_def ghost_order_def ghost_fill_def filled_order_def)

text \<open>A replay does not look at the log the state holds.\<close>

definition with_log :: "oms_store \<Rightarrow> (exn + 'a) \<times> oms \<Rightarrow> (exn + 'a) \<times> oms" where
  "with_log l r = (fst r, (snd r)\<lparr>om_log := l\<rparr>)"

definition log_free :: "'a oms_eff \<Rightarrow> bool" where
  "log_free m \<longleftrightarrow> (\<forall>s l. m (s\<lparr>om_log := l\<rparr>) = with_log l (m s))"

lemma log_free_bind: "log_free m \<Longrightarrow> (\<And>x. log_free (f x)) \<Longrightarrow> log_free (andthen m f)"
  by (simp add: log_free_def andthen_def with_log_def split: prod.split sum.split)

lemma log_free_prims:
  "log_free (lift_res r)" "log_free skip" "log_free (put_order k ord)" "log_free (put_fsm k m)" "log_free (put_broker_id b k)"
  "log_free (modify (\<lambda>s. s\<lparr>om_fills := dict_set k (dict_get_or (om_fills s) k []) (om_fills s)\<rparr>))"
  "log_free (modify (\<lambda>s. s\<lparr>om_fills := dict_set k (dict_get_or (om_fills s) k [] @ [x]) (om_fills s)\<rparr>))" "log_free (fetch om_orders k)" "log_free (fetch om_fsms k)"
  by (simp_all add: log_free_def with_log_def eff_defs oms_prims split: option.split)

lemma log_free_silent: "log_free (silent_step k ev st)"
  unfolding silent_step_def by (intro log_free_bind log_free_prims)

lemma log_free_if: "log_free a \<Longrightarrow> log_free b \<Longrightarrow> log_free (if c then a else b)"
  by simp

lemmas log_free_intros = log_free_bind log_free_prims log_free_silent log_free_if

lemma log_free_event: "log_free (apply_logged_event e)"
  unfolding apply_logged_event_def Let_def replay_step_def
  by (cases "e_kind e"; simp only: event_kind.case; intro log_free_intros)

lemma log_free_each: "log_free (each apply_logged_event es)"
  by (induction es) (simp_all add: log_free_prims log_free_bind log_free_event)

lemma replay_log_new: "replay_log (new_oms st m now) = with_log st (each apply_logged_event (iter_all st) (new_oms [] m now))"
proof -
  have "each apply_logged_event (iter_all st) (new_oms [] m now\<lparr>om_log := st\<rparr>)
      = with_log st (each apply_logged_event (iter_all st) (new_oms [] m now))"
    using log_free_each [of "iter_all st"] by (simp only: log_free_def)
  then show ?thesis by (simp add: replay_log_def andthen_def gets_def new_oms_def)
qed

lemma new_oms_held: "held_together (new_oms st m now)"
  by (simp add: held_together_def new_oms_def)

subsection \<open>All ghost sales\<close>

lemma all_ghosts_readable: "readable_log (all_ghost_rows seq n ts prices net)"
  by (induction seq n ts prices net rule: all_ghost_rows.induct) (simp_all add: readable_log_def [of "[]"] ghost_rows_readable)

lemma all_ghosts_replay: "\<exists>t. each apply_logged_event (iter_all (all_ghost_rows seq n ts prices net)) u = (Inr (), t)"
proof (induction seq n ts prices net arbitrary: u rule: all_ghost_rows.induct)
  case (1 seq n ts prices)
  then show ?case by (simp add: iter_all_def map_filter_def skip_def ret_def)
next
  case (2 seq n ts prices s q net)
  obtain v where v: "each apply_logged_event (iter_all (ghost_rows seq n ts s q (dict_get_or prices s 0))) u = (Inr (), v)"
    using ghost_rows_replay by blast
  from 2 [of v] obtain t where "each apply_logged_event (iter_all (all_ghost_rows (seq + 3) (n + 3) ts prices net)) v = (Inr (), t)" by blast
  with v show ?case by (simp add: iter_all_def map_filter_def each_append andthen_def)
qed

lemma all_ghosts_fills:
  "sum_list (map (signed_of sy) (store_fills (all_ghost_rows seq n ts prices net))) = - sum_list (map (\<lambda>(s, q). if s = sy then q else 0) net)"
  "(\<forall>f\<in>set (store_fills (all_ghost_rows seq n ts prices net)). on_step 9 (f_qty f)) = (\<forall>(s, q)\<in>set net. on_step 9 q)"
  "volume (store_fills (all_ghost_rows seq n ts prices net)) = sum_list (map (\<lambda>(s, q). \<bar>q\<bar>) net)"
  by (induction seq n ts prices net rule: all_ghost_rows.induct)
    (auto simp: ghost_rows_fills signed_of_def ghost_fill_def ghost_order_def)

lemma sum_list_dict:
  "distinct (map fst d) \<Longrightarrow> sum_list (map (\<lambda>(s, q). if s = sy then q else 0) d) = dict_get_or d sy (0 :: rat)"
proof (induction d)
  case (Cons x d)
  have "sum_list (map (\<lambda>(s, q). if s = sy then q else 0) d) = 0" if "sy \<notin> fst ` set d"
    using that by (induction d) auto
  then show ?case using Cons by (cases x) (auto simp: dict_get_or_def)
qed (simp add: dict_get_or_def)

lemma dict_get_filter:
  "distinct (map fst d) \<Longrightarrow> dict_get (filter (\<lambda>(_, q). t < q) d) sy
    = (case dict_get d sy of None \<Rightarrow> None | Some q \<Rightarrow> if t < q then Some q else None)" for t :: rat
  by (induction d) (auto simp: map_of_eq_None_iff split: option.splits intro: rev_image_eqI)

lemma dict_get_or_filter:
  "distinct (map fst d) \<Longrightarrow> 0 \<le> t \<Longrightarrow> dict_get_or (filter (\<lambda>(_, q). t < q) d) sy 0 = (if t < dict_get_or d sy 0 then dict_get_or d sy 0 else 0)"
  for t :: rat
  by (auto simp: dict_get_or_def dict_get_filter split: option.split)

lemma replay_positions:
  assumes "readable_log st" "exact_fills (10 ^ 19) (store_fills st)" "replay_log (new_oms st m now) = (Inr (), s)"
  shows "dict_get_or (expected_positions s) sy 0 = sum_list (map (signed_of sy) (store_fills st))"
proof -
  from assms(3) obtain t where t: "each apply_logged_event (iter_all st) (new_oms [] m now) = (Inr (), t)"
    and s: "om_orders s = om_orders t" "om_fills s = om_fills t" by (auto simp: replay_log_new with_log_def prod_eq_iff)
  from replay_books [OF assms(1) t new_oms_held] have b: "held_together t" "mset (fills_by_key t) = mset (store_fills st)"
    by (simp_all add: adds_fills_def fills_by_key_def new_oms_def)
  have m: "mset (oms_fills s) = mset (store_fills st)"
    using b oms_fills_keys [OF b(1)] by (simp add: oms_fills_eq s)
  show ?thesis
    unfolding expected_get positions_exact [OF iffD2 [OF exact_mset [OF m] assms(2)]] by (rule net_mset [OF m])
qed

text \<open>
  C33 After a manual liquidation (\<^verbatim>\<open>scripts/reconcile_oms_after_flatten.py\<close>): the ghost sales the script appends make the
  next recovery hold nothing of any symbol whose net position was above the threshold, and leave every other position as it
  was; dust below the threshold and short positions stay and can still break the reconciliation.
\<close>

theorem flattened_books_recover:
  assumes "readable_log (roll_back_ghosts st)" and "exact_fills (10 ^ 18) (store_fills (roll_back_ghosts st))"
    and "replay_log (new_oms (roll_back_ghosts st) m now) = (Inr (), s)"
  shows "\<exists>st' t. reconcile_after_flatten True seq n ts lots trades st = Inr st' \<and> replay_log (new_oms st' m now) = (Inr (), t)
    \<and> dict_get_or (expected_positions t) sy 0
        = (let q = dict_get_or (expected_positions s) sy 0 in if qty_threshold < q then 0 else q)"
proof -
  let ?st = "roll_back_ghosts st" and ?net = "\<lambda>sy. sum_list (map (signed_of sy) (store_fills (roll_back_ghosts st)))"
  define d where "d = foldl add_fill_qty [] (store_fills ?st)"
  define net where "net = filter (\<lambda>(_, q). qty_threshold < q) d"
  have c: "compute_net_positions ?st = Inr net" by (simp add: compute_net_positions_def net_rows_fills assms(1) net_def d_def)
  have exact: "exact_fills (10 ^ 19) (store_fills ?st)" using assms(2) by (simp add: exact_fills_def)
  have d: "dict_get_or d sy 0 = ?net sy" for sy unfolding d_def by (rule positions_exact [OF exact])
  have keys: "distinct (map fst (foldl add_fill_qty d fs))" if "distinct (map fst d)" for d fs
    using that by (induction fs arbitrary: d) (simp_all add: add_fill_qty_def)
  have dk: "distinct (map fst d)" unfolding d_def by (rule keys) simp
  then have nk: "distinct (map fst net)" unfolding net_def by (rule distinct_map_filter)
  have netq: "dict_get_or net sy 0 = (if qty_threshold < ?net sy then ?net sy else 0)" for sy
    using dict_get_or_filter [OF dk, of qty_threshold sy] by (simp add: net_def d qty_threshold_def)
  define snet where "snet = sort_key fst net"
  have sk: "distinct (map fst snet)" using nk by (simp add: snet_def distinct_map)
  have set: "set snet = set net" by (simp add: snet_def)
  have q: "q = ?net sy" if "(sy, q) \<in> set net" for sy q
  proof -
    have "dict_get net sy = Some q" using that nk by simp
    moreover have "qty_threshold < q" using that by (simp add: net_def)
    ultimately show ?thesis using netq [of sy] by (auto simp: dict_get_or_def qty_threshold_def split: if_splits)
  qed
  obtain prices where run: "reconcile_after_flatten True seq n ts lots trades st = Inr (?st @ all_ghost_rows seq n ts prices snet)"
  proof (cases "net = []")
    case True
    show thesis by (rule that [of "[]"]) (simp add: reconcile_after_flatten_def Let_def c snet_def True)
  next
    case False
    let ?ps = "exit_prices lots"
    let ?missing = "filter (\<lambda>s. s \<notin> fst ` set ?ps) (map fst net)"
    show thesis
      by (rule that [of "if ?missing = [] then ?ps else foldl (\<lambda>d (s, p). dict_set s p d) ?ps (trades ?missing)"])
        (simp only: reconcile_after_flatten_def Let_def c snet_def False bindr.simps if_True if_False)
  qed
  let ?gs = "all_ghost_rows seq n ts prices snet"
  obtain u where u: "each apply_logged_event (iter_all ?st) (new_oms [] m now) = (Inr (), u)"
    using assms(3) by (auto simp: replay_log_new with_log_def prod_eq_iff)
  obtain v where v: "each apply_logged_event (iter_all ?gs) u = (Inr (), v)" using all_ghosts_replay by blast
  have t: "replay_log (new_oms (?st @ ?gs) m now) = (Inr (), v\<lparr>om_log := ?st @ ?gs\<rparr>)"
    using u v by (simp add: replay_log_new with_log_def iter_all_def map_filter_def each_append andthen_def)
  have "sum_list (map (\<lambda>(s, q). \<bar>q\<bar>) snet) = (\<Sum>(s, q)\<in>set snet. \<bar>q\<bar>)"
    using sk by (intro sum_list_distinct_conv_sum_set) (simp add: distinct_map)
  also have "\<dots> = (\<Sum>x\<in>set net. \<bar>?net (fst x)\<bar>)" unfolding set by (rule sum.cong) (auto dest: q)
  also have "\<dots> = (\<Sum>sy\<in>fst ` set net. \<bar>?net sy\<bar>)" using nk by (simp add: sum.reindex distinct_map)
  also have "\<dots> \<le> 10 ^ 18" using net_volume [of "fst ` set net" "store_fills ?st"] assms(2) by (simp add: exact_fills_def)
  finally have "volume (store_fills ?gs) \<le> 10 ^ 18" unfolding all_ghosts_fills(3) .
  moreover have "\<forall>f\<in>set (store_fills ?gs). on_step 9 (f_qty f)"
    unfolding all_ghosts_fills(2) set using assms(2) by (auto simp: exact_fills_def dest!: q intro: net_step)
  ultimately have e: "exact_fills (10 ^ 19) (store_fills (?st @ ?gs))" using assms(2) by (auto simp: exact_fills_def)
  have r: "readable_log (?st @ ?gs)" using assms(1) all_ghosts_readable by simp
  have "dict_get_or snet sy 0 = dict_get_or net sy 0"
    using map_of_inject_set [OF sk nk] set by (simp add: dict_get_or_def)
  then have "dict_get_or (expected_positions (v\<lparr>om_log := ?st @ ?gs\<rparr>)) sy 0 = ?net sy - (if qty_threshold < ?net sy then ?net sy else 0)"
    unfolding replay_positions [OF r e t] by (simp add: all_ghosts_fills(1) sum_list_dict [OF sk] netq)
  with run t show ?thesis unfolding replay_positions [OF assms(1) exact assms(3)] by (auto simp: Let_def)
qed

definition bought_log :: oms_store where
  "bought_log = (let ord = ghost_order 0 5 BUY ''SPY'' 3 SONNET 0 in
     append_event FILL_RECEIVED 0 (serialize_fill (ghost_fill 1 ord 100 0)) 0
       (append_event ORDER_ACCEPTED 0 [(''broker_order_id'', PStr ''b1'')] 0
         (append_event ORDER_SUBMIT_INTENT 0 (serialize_order ord) 0 [])))"

lemma bought_log_kept: "roll_back_ghosts bought_log = bought_log" "readable_log bought_log"
  by (simp_all add: bought_log_def append_event_def roll_back_ghosts_def is_ghost_row_def Let_def ghost_prefix_def readable_log_def ghost_order_def)

lemma bought_fills: "store_fills bought_log = [ghost_fill 1 (ghost_order 0 5 BUY ''SPY'' 3 SONNET 0) 100 0]"
  by (simp add: bought_log_def append_event_def Let_def store_fills_def iter_all_def map_filter_def read_row_def event_fills_def)

lemma bought_replay: "\<exists>s. replay_log (new_oms bought_log m now) = (Inr (), s)"
  unfolding replay_log_new with_log_def
  by (auto simp: bought_log_def append_event_def Let_def iter_all_def map_filter_def read_row_def apply_logged_event_def eff_defs oms_prims
      replay_step_def silent_step_def get_str_def need_def average_price_def logged_part_def ghost_order_def ghost_fill_def filled_order_def)

theorem flattened_books_recover_witness:
  "\<exists>st' t. reconcile_after_flatten True 4 10 9 [] (\<lambda>_. []) bought_log = Inr st' \<and> replay_log (new_oms st' 20 9) = (Inr (), t)
    \<and> dict_get_or (expected_positions t) ''SPY'' 0 = 0"
proof -
  obtain s where s: "replay_log (new_oms bought_log 20 9) = (Inr (), s)" using bought_replay by blast
  have "on_step 9 3" unfolding on_step_def by (auto intro!: exI [of _ "3 * 10 ^ 9"])
  then have e: "exact_fills (10 ^ 18) (store_fills bought_log)"
    by (simp add: exact_fills_def bought_fills ghost_fill_def ghost_order_def)
  then have "exact_fills (10 ^ 19) (store_fills bought_log)" by (simp add: exact_fills_def)
  from replay_positions [OF bought_log_kept(2) this s, of "''SPY''"] have q: "dict_get_or (expected_positions s) ''SPY'' 0 = 3"
    by (simp add: bought_fills signed_of_def ghost_fill_def ghost_order_def)
  from flattened_books_recover [of bought_log 20 9 s 4 10 9 "[]" "\<lambda>_. []" "''SPY''"] s e q show ?thesis
    by (simp add: bought_log_kept qty_threshold_def)
qed

subsection \<open>Running the scripts again\<close>

text \<open>A second run starts from the log without the first run's sales.\<close>

lemma all_ghosts_ids:
  "r \<in> set (all_ghost_rows seq n ts prices net) \<Longrightarrow> n \<le> r_order_id r
    \<and> (\<exists>r'\<in>set (all_ghost_rows seq n ts prices net). is_ghost_row r' \<and> r_order_id r' = r_order_id r)"
proof (induction seq n ts prices net arbitrary: r rule: all_ghost_rows.induct)
  case (2 seq n ts prices s q net)
  let ?a = "\<lparr>r_seq = seq + 1, r_ts = ts, r_kind = ORDER_ACCEPTED, r_order_id = n,
          r_payload = dumps [(''broker_order_id'', PStr (ghost_prefix @ uuid_text n))]\<rparr>"
  have a: "?a \<in> set (ghost_rows seq n ts s q (dict_get_or prices s 0))" "is_ghost_row ?a"
    by (simp_all add: ghost_rows_def Let_def is_ghost_row_def)
  show ?case
  proof (cases "r \<in> set (all_ghost_rows (seq + 3) (n + 3) ts prices net)")
    case True
    from 2(1) [OF True] show ?thesis by auto
  next
    case False
    then have "r_order_id r = n" using 2(2) by (auto simp: ghost_rows_def Let_def)
    with a show ?thesis by (intro conjI bexI [of _ ?a]) auto
  qed
qed simp

lemma ghosts_roll_back:
  assumes "roll_back_ghosts st = st" and "\<And>r. r \<in> set st \<Longrightarrow> r_order_id r < n"
  shows "roll_back_ghosts (st @ all_ghost_rows seq n ts prices net) = st"
proof -
  let ?gs = "all_ghost_rows seq n ts prices net"
  have old: "r_order_id r \<notin> r_order_id ` set (filter is_ghost_row (st @ ?gs))" if "r \<in> set st" for r
  proof -
    from assms(1) that have "r_order_id r \<notin> r_order_id ` set (filter is_ghost_row st)"
      by (simp only: roll_back_ghosts_def Let_def filter_id_conv) simp
    moreover have "r_order_id r \<noteq> r_order_id r'" if "r' \<in> set ?gs" for r'
      using all_ghosts_ids [OF that] assms(2) [OF \<open>r \<in> set st\<close>] by auto
    ultimately show ?thesis by auto
  qed
  have new: "r_order_id r \<in> r_order_id ` set (filter is_ghost_row (st @ ?gs))" if "r \<in> set ?gs" for r
    using all_ghosts_ids [OF that] by (auto intro: rev_image_eqI)
  show ?thesis unfolding roll_back_ghosts_def Let_def filter_append [of _ st ?gs]
    using old new by (simp add: filter_id_conv filter_empty_conv)
qed

text \<open>\<^verbatim>\<open>fix_solusd_break.py\<close> is not idempotent, unlike its doc string says: each run logs the sale once more.\<close>

lemma fee_is_booked_by_each_run: "length (fst (fix_solusd n now ts st g)) = length st + 3"
proof -
  let ?f = "ghost_fill (Suc (Suc n)) (ghost_order n (Suc n) SELL ''SOLUSD'' fee_qty HAIKU ts) fee_price ts"
  define r where "r = ghost_ready (''ghost-fee-'' @ uuid_text n) (ghost_order n (Suc n) SELL ''SOLUSD'' fee_qty HAIKU ts) ts
    ((new_oms st n now)\<lparr>om_fresh := Suc (Suc (Suc n))\<rparr>)"
  obtain cur m where c: "dict_get (om_orders r) n = Some cur" "dict_get (om_fsms r) n = Some m" "m_table m = order_table"
      "dict_get (om_fills r) n = Some []" "o_filled_avg_price cur = None" "length (om_log r) = length st + 2"
    by (simp add: r_def ghost_ready_def new_oms_def ghost_order_def order_machine_def append_event_def)
  have "o_filled_avg_price cur = None \<Longrightarrow> average_price cur f = Inr (f_price f)" for f by (simp add: average_price_def)
  then have "length (om_log (snd (handle_fill n ?f ts r))) = length st + 3"
    using c(5,6) by (simp add: handle_fill_run [OF c(1-4)] Let_def after_fill_def moved_def append_event_def split: option.split)
  moreover have "book_fee_offset ''SOLUSD'' fee_qty fee_price HAIKU ts (new_oms st n now) = handle_fill n ?f ts r"
    unfolding book_fee_offset_def ghost_run r_def Let_def by (simp add: new_oms_def)
  ultimately show ?thesis by (simp add: fix_solusd_def Let_def)
qed

text \<open>The dust that is removed is bounded in units and not in value.\<close>

lemma dust_can_be_nine_dollars:
  assumes "\<not> l_is_closed l" and "l_remaining_qty l = 9 / 10 ^ 5" and "l_entry_price l = 10 ^ 5"
  shows "clean_dust_lots True [l] = [l\<lparr>l_remaining_qty := 0, l_is_closed := True\<rparr>] \<and> l_remaining_qty l * l_entry_price l = 9"
  using assms by (simp add: clean_dust_lots_def is_dust_def dust_qty_def)

lemma migrated_symbols: "map l_symbol (snd (migrate_lot_symbols ls)) = map (normalize_symbol \<circ> l_symbol) ls"
  by (auto simp: migrate_lot_symbols_def normalize_symbol_def)

text \<open>A liquidation books no profit: when the broker is flat no mark is left, and every open lot is closed at its entry price.\<close>

lemma liquidation_books_no_profit:
  assumes "l \<in> set (snd (flatten_local_lots today (broker_marks []) ls))" and "l \<notin> set ls"
  shows "l_exit_price l = Some (l_entry_price l) \<and> l_is_closed l \<and> l_remaining_qty l = 0"
  using assms by (auto simp: flatten_local_lots_def broker_marks_def close_at_mark_def)

end
