(* ===== verification/Analytics.thy ===== *)
theory Analytics
  imports News Snapshots Tracker Backtest
begin

text \<open>
  The portfolio context of the Manager (\<^verbatim>\<open>ops/manager_analytics.py\<close>). Each builder of a text block is modelled by the
  values the block prints; the wording, the column layout and the number formats are left out. Arithmetic on floats is the
  parameter \<open>ar\<close> of the back-test harness.
\<close>

subsection \<open>The equity history\<close>

definition query_equity_history :: "datetime \<Rightarrow> snapshot_db \<Rightarrow> equity_row list" where
  "query_equity_history since db = sort_key er_ts (filter (\<lambda>r. since \<le> er_ts r) (sd_equity db))"

definition positive_floats :: "'f arith \<Rightarrow> decimal option list \<Rightarrow> 'f list" where
  "positive_floats ar xs = map (fa_of ar) (List.map_filter (\<lambda>x. case x of None \<Rightarrow> None | Some v \<Rightarrow> if 0 < v then Some v else None) xs)"

definition float_return :: "'f arith \<Rightarrow> 'f \<Rightarrow> 'f \<Rightarrow> 'f" where
  "float_return ar prev cur = fa_div ar (fa_sub ar cur prev) prev"

definition float_daily_returns :: "'f arith \<Rightarrow> decimal option list \<Rightarrow> 'f list" where
  "float_daily_returns ar xs = (let s = positive_floats ar xs in map2 (float_return ar) (butlast s) (tl s))"

definition mean_of :: "'f arith \<Rightarrow> 'f list \<Rightarrow> 'f" where
  "mean_of ar xs = fa_div ar (fa_sum ar xs) (fa_num ar (of_nat (length xs)))"

definition is_negative :: "'f arith \<Rightarrow> 'f \<Rightarrow> bool" where
  "is_negative ar x = fa_less ar x (fa_num ar 0)"

definition sortino :: "'f arith \<Rightarrow> 'f list \<Rightarrow> 'f option" where
  "sortino ar rets =
     (let excess = map (\<lambda>r. fa_sub ar r (fa_num ar 0)) rets; down = filter (is_negative ar) excess in
      if length rets < 5 \<or> down = [] then None
      else (let dev = fa_sqrt ar (mean_of ar (map (\<lambda>r. fa_mul ar r r) down)) in
        if fa_zero ar dev then None
        else Some (fa_mul ar (fa_div ar (mean_of ar excess) dev) (fa_sqrt ar (fa_num ar 252)))))"

definition worse_drawdown :: "'f arith \<Rightarrow> 'f \<times> 'f \<Rightarrow> 'f \<Rightarrow> 'f \<times> 'f" where
  "worse_drawdown ar st v = (case st of (peak, worst) \<Rightarrow>
     (let p = fa_max ar peak v; dd = fa_div ar (fa_sub ar v p) p in (p, if fa_less ar dd worst then dd else worst)))"

definition max_drawdown :: "'f arith \<Rightarrow> decimal option list \<Rightarrow> 'f" where
  "max_drawdown ar xs = (let s = positive_floats ar xs in
     if length s < 2 then fa_num ar 0 else snd (foldl (worse_drawdown ar) (hd s, fa_num ar 0) s))"


subsection \<open>Blocks from the history\<close>

datatype drawdown_read = From_Peak decimal | Cold_Start | No_Account

definition day_count :: "equity_row list \<Rightarrow> nat" where
  "day_count h = length (remdups (map (\<lambda>r. date_of (er_ts r)) h))"

definition current_nav :: "(exn + broker_account) option \<Rightarrow> decimal option" where
  "current_nav acct = (case acct of Some (Inr a) \<Rightarrow> Some (ba_equity a) | _ \<Rightarrow> None)"

definition peak_nav :: "equity_row list \<Rightarrow> (exn + broker_account) option \<Rightarrow> decimal option" where
  "peak_nav h acct = (let navs = List.map_filter er_nav h in if navs = [] then current_nav acct else Some (Max (set navs)))"

definition nav_blocks :: "equity_row list \<Rightarrow> (exn + broker_account) option \<Rightarrow> decimal option \<times> decimal option \<times> nat \<times> drawdown_read" where
  "nav_blocks h acct =
     (let now = current_nav acct; peak = peak_nav h acct in
      (now, peak, day_count h,
       case now of
         None \<Rightarrow> No_Account
       | Some n \<Rightarrow> (case peak of
           None \<Rightarrow> Cold_Start
         | Some p \<Rightarrow> if 0 < p then From_Peak (dmul (ddiv (dsub n p) p) 100) else Cold_Start)))"

datatype 'f sleeve_cell = Too_Few nat | Cell decimal decimal 'f "'f option" 'f

datatype 'f four_weeks =
    No_History "(agent_id \<times> agent_state option) list"
  | Weeks nat "(agent_id \<times> 'f sleeve_cell) list"

definition sleeve_series :: "agent_id \<Rightarrow> equity_row list \<Rightarrow> decimal option list" where
  "sleeve_series a h = map (\<lambda>r. map_option fst (dict_get (er_sleeves r) a)) h"

definition sleeve_cell_of :: "'f arith \<Rightarrow> decimal option list \<Rightarrow> 'f sleeve_cell" where
  "sleeve_cell_of ar xs =
     (let clean = List.map_filter (\<lambda>x. case x of None \<Rightarrow> None | Some v \<Rightarrow> if 0 < v then Some v else None) xs in
      if length clean < 2 then Too_Few (length clean)
      else Cell (hd clean) (last clean)
        (fa_mul ar (float_return ar (fa_of ar (hd clean)) (fa_of ar (last clean))) (fa_num ar 100))
        (sortino ar (float_daily_returns ar xs)) (max_drawdown ar xs))"

definition live_states :: "datetime \<Rightarrow> tracker \<Rightarrow> (agent_id \<times> agent_state option) list \<times> tracker" where
  "live_states now t = foldl (\<lambda>(xs, t) a. (case get_state a now t of
       (Inl _, t') \<Rightarrow> (xs @ [(a, None)], t') | (Inr s, t') \<Rightarrow> (xs @ [(a, Some s)], t'))) ([], t) sleeve_agents"

definition four_week_snapshot :: "'f arith \<Rightarrow> datetime \<Rightarrow> equity_row list \<Rightarrow> tracker \<Rightarrow> 'f four_weeks \<times> tracker" where
  "four_week_snapshot ar now h t =
     (if h = [] then (case live_states now t of (xs, t') \<Rightarrow> (No_History xs, t'))
      else (Weeks (day_count h) (map (\<lambda>a. (a, sleeve_cell_of ar (sleeve_series a h))) sleeve_agents), t))"

subsection \<open>News and holdings\<close>

definition macro_line :: "news_item \<Rightarrow> datetime \<times> string \<times> string" where
  "macro_line it = (ni_published it, take 140 (py_strip (ni_headline it)), take 280 (one_line (opt_or [] (ni_summary it))))"

definition macro_snapshot :: "datetime \<Rightarrow> news_db \<Rightarrow> (datetime \<times> string \<times> string) list" where
  "macro_snapshot now db = map macro_line
     (take 8 (filter (\<lambda>it. ni_source it = RSS) (recent_for_symbols [''SPY'', ''TLT'', ''GLD''] (now - 48 * us_per_hour) 80 None db)))"

definition beta_map :: "(symbol, decimal) dict" where
  "beta_map = [(''SPY'', 1), (''QQQ'', 115 / 100), (''IWM'', 110 / 100), (''EFA'', 85 / 100), (''EEM'', 90 / 100), (''TLT'', - 20 / 100),
     (''IEF'', - 10 / 100), (''GLD'', 10 / 100), (''USO'', 40 / 100), (''VNQ'', 85 / 100), (''TQQQ'', 330 / 100), (''AAPL'', 125 / 100),
     (''NVDA'', 165 / 100), (''MSFT'', 105 / 100), (''GOOGL'', 110 / 100), (''META'', 130 / 100), (''AMZN'', 125 / 100),
     (''BTCUSD'', 150 / 100), (''ETHUSD'', 180 / 100), (''SOLUSD'', 220 / 100)]"

definition sector_map :: "(symbol, string) dict" where
  "sector_map = [(''SPY'', ''Equity (US Broad)''), (''QQQ'', ''Equity (US Broad)''), (''IWM'', ''Equity (US Broad)''),
     (''EFA'', ''Equity (Intl DM)''), (''EEM'', ''Equity (Intl EM)''), (''TLT'', ''Bonds (Long Duration)''),
     (''IEF'', ''Bonds (Intermediate)''), (''GLD'', ''Real Assets (Gold)''), (''USO'', ''Real Assets (Oil)''),
     (''VNQ'', ''Real Estate''), (''TQQQ'', ''Equity (Levered)''), (''AAPL'', ''Tech''), (''NVDA'', ''Tech''), (''MSFT'', ''Tech''),
     (''GOOGL'', ''Communication''), (''META'', ''Communication''), (''AMZN'', ''Consumer Discretionary''),
     (''BTCUSD'', ''Crypto''), (''ETHUSD'', ''Crypto''), (''SOLUSD'', ''Crypto'')]"

type_synonym holdings = "broker_position list \<times> broker_account"

definition value_of :: "broker_position \<Rightarrow> decimal" where
  "value_of p = dmul (bp_qty p) (bp_current_price p)"

datatype beta_read = No_Snapshot | Flat_Book | No_Equity | Beta decimal "symbol list"

definition portfolio_beta :: "holdings option \<Rightarrow> beta_read" where
  "portfolio_beta snap = (case snap of
       None \<Rightarrow> No_Snapshot
     | Some (ps, a) \<Rightarrow>
         if ps = [] then Flat_Book
         else (let eq = (if 0 < ba_equity a then ba_equity a else dsum (map value_of ps)) in
           if eq \<le> 0 then No_Equity
           else Beta (foldl (\<lambda>b p. dadd b (dmul (ddiv (value_of p) eq) (dict_get_or beta_map (bp_symbol p) 1))) 0 ps)
             (filter (\<lambda>s. dict_get beta_map s = None) (map bp_symbol ps))))"

definition sector_sums :: "broker_position list \<Rightarrow> (string, decimal) dict" where
  "sector_sums ps = foldl (\<lambda>d p. (let k = dict_get_or sector_map (bp_symbol p) ''Other'' in
     dict_set k (dadd (dict_get_or d k 0) (value_of p)) d)) [] ps"

definition sector_exposures :: "holdings option \<Rightarrow> (string \<times> decimal \<times> decimal) list option" where
  "sector_exposures snap = (case snap of
       None \<Rightarrow> None
     | Some (ps, a) \<Rightarrow>
         if ps = [] then Some []
         else (let eq = (if 0 < ba_equity a then ba_equity a else 1) in
           Some (map (\<lambda>(k, v). (k, v, ddiv v eq)) (sort_key (\<lambda>(k, v). - v) (sector_sums ps) @ [(''Cash'', ba_cash a)]))))"

subsection \<open>Tax events, intents, calibration, health\<close>

datatype tax_block = No_Closed nat | Closed nat decimal nat decimal decimal

definition tax_events :: "datetime \<Rightarrow> lot list \<Rightarrow> tax_block" where
  "tax_events now ls =
     (let cutoff = date_of (now - 30 * us_per_day);
          closed = filter (\<lambda>l. l_is_closed l \<and> (case l_exit_date l of None \<Rightarrow> False | Some d \<Rightarrow> cutoff \<le> d)) ls;
          pnl = (\<lambda>l. case realized_pnl l of None \<Rightarrow> 0 | Some p \<Rightarrow> p);
          short = filter (\<lambda>l. \<not> is_long_term l) closed; long = filter is_long_term closed
      in if closed = [] then No_Closed (length (filter (\<lambda>l. \<not> l_is_closed l) ls))
         else Closed (length short) (dsum (map pnl short)) (length long) (dsum (map pnl long))
           (dadd (dsum (map pnl short)) (dsum (map pnl long))))"

type_synonym intent_reads = "(agent_id, exn + intent_row list) dict"

text \<open>\<open>reads n\<close> is what each agent's memory answers when asked for its \<open>n\<close> latest intents.\<close>

datatype intents_block = Unreadable "agent_id list" | No_Intents | Intents nat "(agent_id \<times> intent_row) list"

definition recent_of :: "datetime \<Rightarrow> intent_row list \<Rightarrow> intent_row list" where
  "recent_of cutoff rs = filter (\<lambda>r. cutoff \<le> ir_logged_at r) rs"

definition top_intents_week :: "datetime \<Rightarrow> (nat \<Rightarrow> intent_reads) \<Rightarrow> intents_block" where
  "top_intents_week now reads =
     (let answers = filter (\<lambda>(a, _). a \<noteq> MANAGER) (reads 20);
          failed = map fst (filter (\<lambda>(_, r). case r of Inl _ \<Rightarrow> True | Inr _ \<Rightarrow> False) answers);
          rows = concat (map (\<lambda>(a, r). case r of Inl _ \<Rightarrow> [] | Inr rs \<Rightarrow> map (Pair a) (recent_of (now - 7 * us_per_day) rs)) answers)
      in if failed \<noteq> [] then Unreadable failed
         else if rows = [] then No_Intents
         else Intents (length rows) (take 15 (sort_key (\<lambda>(_, r). - ir_conviction r) rows)))"

definition outcome_counts :: "intent_row list \<Rightarrow> (string, nat) dict" where
  "outcome_counts rs = sort_key fst (foldl (\<lambda>d r. (let k = opt_or ''open'' (ir_outcome r) in dict_set k (Suc (dict_get_or d k 0)) d)) [] rs)"

datatype 'f calibration_line = No_Rows | Rows nat 'f "(string, nat) dict"

definition calibration_summary :: "'f arith \<Rightarrow> datetime \<Rightarrow> (nat \<Rightarrow> intent_reads) \<Rightarrow> (agent_id \<times> 'f calibration_line) list" where
  "calibration_summary ar now reads = List.map_filter (\<lambda>a. case dict_get (reads 100) a of
       Some (Inr rs) \<Rightarrow>
         (let recent = recent_of (now - 30 * us_per_day) rs in
          Some (a, if recent = [] then No_Rows
            else Rows (length recent)
              (fa_div ar (fa_num ar (of_int (sum_list (map ir_conviction recent)))) (fa_num ar (of_nat (length recent)))) (outcome_counts recent)))
     | _ \<Rightarrow> None) sleeve_agents"

datatype health = Ok nat | Feed_Error

record data_health =
  dh_snapshots :: "(nat \<times> nat) option"
  dh_broker :: "decimal option"
  dh_lots :: health
  dh_memories :: "(agent_id \<times> health) list"

definition data_health_of ::
  "bool \<Rightarrow> equity_row list \<Rightarrow> (exn + broker_account) option \<Rightarrow> exn + lot list \<Rightarrow> (nat \<Rightarrow> intent_reads) \<Rightarrow> data_health" where
  "data_health_of exists h acct lots reads = \<lparr>
     dh_snapshots = (if exists then Some (length h, day_count h) else None),
     dh_broker = current_nav acct,
     dh_lots = (case lots of Inl _ \<Rightarrow> Feed_Error | Inr ls \<Rightarrow> Ok (length (filter (\<lambda>l. \<not> l_is_closed l) ls))),
     dh_memories = map (\<lambda>a. (a, case dict_get (reads 5) a of Some (Inr rs) \<Rightarrow> Ok (length rs) | _ \<Rightarrow> Feed_Error)) sleeve_agents\<rparr>"


subsection \<open>Growth metrics\<close>

definition nav_rows :: "equity_row list \<Rightarrow> (date \<times> decimal) list" where
  "nav_rows h = List.map_filter (\<lambda>r. case er_nav r of None \<Rightarrow> None | Some v \<Rightarrow> if 0 < v then Some (date_of (er_ts r), v) else None) h"

text \<open>Two rows of the same day give no return.\<close>

definition daily_step :: "'f arith \<Rightarrow> (date, 'f) dict \<Rightarrow> (date \<times> decimal) \<times> (date \<times> decimal) \<Rightarrow> (date, 'f) dict" where
  "daily_step ar d x = (case x of ((pd, pv), (cd, cv)) \<Rightarrow>
     if pd = cd then d else dict_set cd (float_return ar (fa_of ar pv) (fa_of ar cv)) d)"

definition port_daily :: "'f arith \<Rightarrow> (date \<times> decimal) list \<Rightarrow> (date, 'f) dict" where
  "port_daily ar rows = foldl (daily_step ar) [] (zip (butlast rows) (tl rows))"

definition last_of :: "nat \<Rightarrow> 'a list \<Rightarrow> 'a list" where
  "last_of n xs = drop (length xs - n) xs"

definition compound :: "'f arith \<Rightarrow> 'f list \<Rightarrow> 'f" where
  "compound ar rs = foldl (\<lambda>c r. fa_mul ar c (fa_add ar (fa_num ar 1) r)) (fa_num ar 1) rs"

definition compound_pct :: "'f arith \<Rightarrow> nat \<Rightarrow> (date, 'f) dict \<Rightarrow> 'f" where
  "compound_pct ar n d = fa_mul ar (fa_sub ar (compound ar (last_of n (map snd d))) (fa_num ar 1)) (fa_num ar 100)"

definition spy_step :: "'f arith \<Rightarrow> (date, 'f) dict \<Rightarrow> (date \<times> decimal) \<times> (date \<times> decimal) \<Rightarrow> (date, 'f) dict" where
  "spy_step ar d x = (case x of ((_, pv), (cd, cv)) \<Rightarrow>
     if fa_less ar (fa_num ar 0) (fa_of ar pv) then dict_set cd (float_return ar (fa_of ar pv) (fa_of ar cv)) d else d)"

definition spy_daily :: "'f arith \<Rightarrow> (date \<times> decimal) list \<Rightarrow> (date, 'f) dict" where
  "spy_daily ar rows = foldl (spy_step ar) [] (zip (butlast rows) (tl rows))"

datatype 'f spy_read = No_Provider | Spy_Failed | Spy_Empty | No_Overlap | Hit_Rate 'f nat 'f

definition against_spy :: "'f arith \<Rightarrow> (date, 'f) dict \<Rightarrow> (exn + (date \<times> decimal) list) option \<Rightarrow> 'f spy_read" where
  "against_spy ar port spy = (case spy of
       None \<Rightarrow> No_Provider
     | Some (Inl _) \<Rightarrow> Spy_Failed
     | Some (Inr closes) \<Rightarrow>
         if length closes < 2 then Spy_Empty
         else (let sd = spy_daily ar closes;
                   paired = List.map_filter (\<lambda>(d, p). map_option (Pair p) (dict_get sd d)) port;
                   count = fa_num ar (of_nat (length paired))
               in if paired = [] then No_Overlap
                  else Hit_Rate
                    (fa_mul ar (fa_div ar (fa_num ar (of_nat (length (filter (\<lambda>(p, s). fa_less ar s p) paired)))) count) (fa_num ar 100))
                    (length paired)
                    (fa_mul ar (fa_div ar (fa_sum ar (map (\<lambda>(p, s). fa_sub ar p s) paired)) count) (fa_num ar 100))))"

datatype 'f growth_block = Too_Short | Growth nat 'f 'f 'f "'f spy_read"

definition growth_metrics :: "'f arith \<Rightarrow> equity_row list \<Rightarrow> (exn + (date \<times> decimal) list) option \<Rightarrow> 'f growth_block" where
  "growth_metrics ar h spy =
     (let rows = nav_rows h; port = port_daily ar rows in
      if length rows < 2 then Too_Short
      else Growth (min 20 (length port)) (compound_pct ar 20 port) (compound_pct ar 21 port)
        (fa_div ar (compound_pct ar 21 port) (fa_num ar 100)) (against_spy ar port spy))"

subsection \<open>The context\<close>

record 'f context_blocks =
  mx_health :: data_health
  mx_nav :: "decimal option \<times> decimal option \<times> nat \<times> drawdown_read"
  mx_weeks :: "'f four_weeks"
  mx_vix :: "decimal option"
  mx_macro :: "(datetime \<times> string \<times> string) list"
  mx_beta :: beta_read
  mx_sectors :: "(string \<times> decimal \<times> decimal) list option"
  mx_tax :: "tax_block option"
  mx_intents :: intents_block
  mx_regime :: "string option"
  mx_calibration :: "(agent_id \<times> 'f calibration_line) list"
  mx_growth :: "'f growth_block"

text \<open>What the builder reads: broker (\<open>None\<close> when there is none), ledger, memories and the SPY feed, each as it answers.\<close>

record context_sources =
  cs_now :: datetime
  cs_exists :: bool
  cs_account :: "(exn + broker_account) option"
  cs_positions :: "exn + broker_position list"
  cs_lots :: "exn + lot list"
  cs_reads :: "nat \<Rightarrow> intent_reads"
  cs_regime :: "string option"
  cs_vix :: "decimal option"
  cs_spy :: "(exn + (date \<times> decimal) list) option"

definition broker_snapshot :: "context_sources \<Rightarrow> holdings option" where
  "broker_snapshot cs = (case (cs_positions cs, cs_account cs) of (Inr ps, Some (Inr a)) \<Rightarrow> Some (ps, a) | _ \<Rightarrow> None)"

definition build_manager_context ::
  "'f arith \<Rightarrow> context_sources \<Rightarrow> snapshot_db \<Rightarrow> news_db \<Rightarrow> tracker \<Rightarrow> 'f context_blocks \<times> tracker" where
  "build_manager_context ar cs db news t =
     (let now = cs_now cs;
          h = (if cs_exists cs then query_equity_history (now - 28 * us_per_day) db else []);
          snap = broker_snapshot cs;
          (weeks, t') = four_week_snapshot ar now h t
      in (\<lparr>mx_health = data_health_of (cs_exists cs) h (cs_account cs) (cs_lots cs) (cs_reads cs),
           mx_nav = nav_blocks h (cs_account cs), mx_weeks = weeks, mx_vix = cs_vix cs, mx_macro = macro_snapshot now news,
           mx_beta = portfolio_beta snap, mx_sectors = sector_exposures snap,
           mx_tax = (case cs_lots cs of Inl _ \<Rightarrow> None | Inr ls \<Rightarrow> Some (tax_events now ls)),
           mx_intents = top_intents_week now (cs_reads cs),
           mx_regime = (case cs_regime cs of None \<Rightarrow> None | Some r \<Rightarrow> if r = [] then None else Some (take 1200 r)),
           mx_calibration = calibration_summary ar now (cs_reads cs), mx_growth = growth_metrics ar h (cs_spy cs)\<rparr>, t'))"

subsection \<open>Growth without the trading day\<close>

text \<open>What the rows of the same day gained, which \<^verbatim>\<open>port_daily\<close> leaves out.\<close>

fun intraday :: "(date \<times> rat) list \<Rightarrow> rat" where
  "intraday ((pd, pv) # (cd, cv) # rows) = (if pd = cd then cv / pv else 1) * intraday ((cd, cv) # rows)"
| "intraday _ = 1"

fun overnight :: "(date \<times> rat) list \<Rightarrow> (date \<times> rat) list" where
  "overnight ((pd, pv) # (cd, cv) # rows) = (if pd = cd then [] else [(cd, (cv - pv) / pv)]) @ overnight ((cd, cv) # rows)"
| "overnight _ = []"

lemma overnight_dates: "(d, r) \<in> set (overnight rows) \<Longrightarrow> d \<in> fst ` set (tl rows)"
  by (induction rows rule: overnight.induct) (auto split: if_splits)

lemma port_daily_overnight:
  assumes "sorted (map fst rows)"
  shows "port_daily rat_arith rows = overnight rows"
proof -
  have "foldl (daily_step rat_arith) d (zip (butlast rows) (tl rows)) = d @ overnight rows"
    if "sorted (map fst rows)" "rows \<noteq> [] \<Longrightarrow> \<forall>k\<in>fst ` set d. k \<le> fst (hd rows)" for d rows
    using that
  proof (induction rows arbitrary: d rule: overnight.induct)
    case (1 pd pv cd cv rows)
    let ?d = "daily_step rat_arith d ((pd, pv), (cd, cv))"
    have d: "?d = d @ (if pd = cd then [] else [(cd, (cv - pv) / pv)])"
      using 1(2,3) by (auto simp: daily_step_def rat_arith_def float_return_def intro!: dict_set_fresh)
    have "pd \<le> cd" "\<forall>k\<in>fst ` set d. k \<le> pd" using 1(2,3) by auto
    then have "\<forall>k\<in>fst ` set ?d. k \<le> cd" unfolding d by (auto intro: order_trans)
    then have "foldl (daily_step rat_arith) ?d (zip (butlast ((cd, cv) # rows)) (tl ((cd, cv) # rows))) = ?d @ overnight ((cd, cv) # rows)"
      using 1(1) [of ?d] 1(2) by simp
    then show ?case by (simp add: d)
  qed simp_all
  from this [OF assms, of "[]"] show ?thesis by (simp add: port_daily_def)
qed

lemma compound_prod: "compound rat_arith rs = prod_list (map (\<lambda>r. 1 + r) rs)"
proof -
  have "foldl (\<lambda>c r. c * (1 + r)) c rs = c * prod_list (map (\<lambda>r. 1 + r) rs)" for c
    by (induction rs arbitrary: c) (simp_all add: mult.assoc)
  then show ?thesis by (simp add: compound_def rat_arith_def)
qed

lemma overnight_and_intraday:
  "rows \<noteq> [] \<Longrightarrow> \<forall>(d, v)\<in>set rows. 0 < v \<Longrightarrow>
   prod_list (map (\<lambda>r. 1 + r) (map snd (overnight rows))) * intraday rows = snd (last rows) / snd (hd rows)"
proof (induction rows rule: overnight.induct)
  case (1 pd pv cd cv rows)
  have "0 < pv" "0 < cv" using 1(3) by auto
  then have "1 + (cv - pv) / pv = cv / pv" by (simp add: field_simps)
  with 1 \<open>0 < pv\<close> \<open>0 < cv\<close> show ?case by (auto simp: field_simps)
qed auto

lemma overnight_append: "suf \<noteq> [] \<Longrightarrow> \<exists>xs. overnight (pre @ suf) = xs @ overnight suf \<and> (pre = [] \<longrightarrow> xs = [])"
proof (induction pre)
  case (Cons p pre)
  then obtain xs where xs: "overnight (pre @ suf) = xs @ overnight suf" by blast
  obtain q rows where q: "pre @ suf = q # rows" using Cons.prems by (cases pre; cases suf) auto
  then show ?case using xs by (cases p; cases q) auto
qed simp

text \<open>
  C34 The growth the Manager is shown (\<^verbatim>\<open>ops/manager_analytics.py\<close> \<open>_build_growth_metrics_v2\<close>), in exact arithmetic: let the
  history be in the order of time, and let \<open>suf\<close> be an end of its snapshots with a positive value that makes twenty steps from one day to
  another, or all of them if they make fewer. The compound return over \<open>suf\<close>, multiplied by what was gained between
  snapshots of one day, is the true ratio of last to first net asset value. With a snapshot per minute nearly all of a
  day's change lies between snapshots of the day and is missing from what is shown.
\<close>

theorem shown_growth_leaves_out_the_day:
  assumes "sorted (map (\<lambda>r. er_ts r) h)" and "nav_rows h = pre @ suf" and "suf \<noteq> []"
    and "length (port_daily rat_arith suf) = 20 \<or> pre = [] \<and> length (port_daily rat_arith suf) < 20"
  shows "(1 + compound_pct rat_arith 20 (port_daily rat_arith (nav_rows h)) / 100) * intraday suf = snd (last suf) / snd (hd suf)"
proof -
  have "sorted (map fst (nav_rows h))"
    using assms(1) by (induction h) (auto simp: nav_rows_def map_filter_def date_of_mono split: option.split)
  then have p: "port_daily rat_arith (nav_rows h) = overnight (pre @ suf)" "port_daily rat_arith suf = overnight suf"
    unfolding assms(2) by (simp_all add: port_daily_overnight sorted_append)
  obtain xs where xs: "overnight (pre @ suf) = xs @ overnight suf" "pre = [] \<longrightarrow> xs = []"
    using overnight_append [OF assms(3)] by blast
  have "last_of 20 (map snd (overnight (pre @ suf))) = map snd (overnight suf)"
    using assms(4) xs unfolding p by (auto simp: last_of_def)
  moreover have "\<forall>(d, v)\<in>set (nav_rows h). 0 < v" by (auto simp: nav_rows_def map_filter_def split: option.splits if_splits)
  then have "\<forall>(d, v)\<in>set suf. 0 < v" unfolding assms(2) by auto
  moreover have "1 + (x * 100 - 100) / 100 = x" for x :: rat by (simp add: field_simps)
  ultimately show ?thesis
    using overnight_and_intraday [OF assms(3)] unfolding p compound_pct_def compound_prod by (simp add: rat_arith_def)
qed

definition nav_row :: "datetime \<Rightarrow> decimal \<Rightarrow> equity_row" where
  "nav_row ts v = \<lparr>er_ts = ts, er_nav = Some v, er_sleeves = []\<rparr>"

text \<open>Ten percent gained within one day, and nothing overnight: the growth shown is zero.\<close>

theorem shown_growth_leaves_out_the_day_witness:
  "\<exists>h. (1 + compound_pct rat_arith 20 (port_daily rat_arith (nav_rows h)) / 100) * intraday (nav_rows h)
      = snd (last (nav_rows h)) / snd (hd (nav_rows h))
    \<and> compound_pct rat_arith 20 (port_daily rat_arith (nav_rows h)) = 0 \<and> snd (last (nav_rows h)) / snd (hd (nav_rows h)) = 11 / 10"
proof -
  let ?h = "[nav_row 0 100, nav_row us_per_hour 110, nav_row us_per_day 110]"
  have r: "nav_rows ?h = [(0, 100), (0, 110), (1, 110)]"
    by (simp add: nav_rows_def map_filter_simps nav_row_def date_of_def us_per_day_def us_per_hour_def)
  have p: "port_daily rat_arith (nav_rows ?h) = [(1, 0)]"
    unfolding r by (simp add: port_daily_def daily_step_def float_return_def rat_arith_def)
  have "sorted (map (\<lambda>r. er_ts r) ?h)" by (simp add: nav_row_def us_per_day_def us_per_hour_def)
  from shown_growth_leaves_out_the_day [OF this, of "[]" "nav_rows ?h"]
  have g: "(1 + compound_pct rat_arith 20 (port_daily rat_arith (nav_rows ?h)) / 100) * intraday (nav_rows ?h)
      = snd (last (nav_rows ?h)) / snd (hd (nav_rows ?h))" unfolding r by (simp add: p [unfolded r])
  have "compound_pct rat_arith 20 [(1 :: date, 0)] = 0" by (simp add: compound_pct_def compound_def last_of_def rat_arith_def)
  with g p r show ?thesis by (intro exI [of _ ?h]) simp
qed

text \<open>
  The peak is the highest recorded value only, so above it the drawdown is positive. The returns behind the Sortino
  ratio, annualised as daily ones, are one per snapshot.
\<close>

lemma drawdown_above_the_peak:
  assumes "current_nav acct = Some n" and "peak_nav h acct = Some p" and "0 < p" and "p \<le> n"
  shows "\<exists>d. snd (snd (snd (nav_blocks h acct))) = From_Peak d \<and> 0 \<le> d"
  using assms by (simp add: nav_blocks_def Let_def dec_defs)

lemma a_return_per_snapshot: "length (float_daily_returns ar xs) = length (positive_floats ar xs) - 1"
  by (simp add: float_daily_returns_def Let_def)

text \<open>One memory that cannot be read hides the intents of all agents.\<close>

lemma one_unreadable_memory_hides_all:
  "(a, Inl e) \<in> set (reads 20) \<Longrightarrow> a \<noteq> MANAGER \<Longrightarrow> \<exists>as. top_intents_week now reads = Unreadable as"
proof -
  assume "(a, Inl e) \<in> set (reads 20)" "a \<noteq> MANAGER"
  then have "(a, Inl e) \<in> set (filter (\<lambda>(_, r). case r of Inl _ \<Rightarrow> True | Inr _ \<Rightarrow> False) (filter (\<lambda>(a, _). a \<noteq> MANAGER) (reads 20)))"
    by simp
  then have "filter (\<lambda>(_, r). case r of Inl _ \<Rightarrow> True | Inr _ \<Rightarrow> False) (filter (\<lambda>(a, _). a \<noteq> MANAGER) (reads 20)) \<noteq> []"
    by (metis list.set(1) empty_iff)
  then show "\<exists>as. top_intents_week now reads = Unreadable as" by (simp add: top_intents_week_def Let_def)
qed

end
