(* ===== verification/Dashboard.thy ===== *)
theory Dashboard
  imports Attribution Snapshots Budget Recorders Memory Backtest "HOL-Library.List_Lexorder" "HOL-Library.Char_ord"
begin

text \<open>
  The read-only data adapter of the dashboard (\<^verbatim>\<open>dashboard/data.py\<close>) over the stores the other theories model, and
  the SPY provider (\<^verbatim>\<open>dashboard/spy.py\<close>). A missing database reads as no rows; the SQL of a query is a filter, an order and a limit over the
  list of rows. Arithmetic on floats is the parameter \<open>ar\<close>. The endpoints of \<^verbatim>\<open>dashboard/server.py\<close> are in \<open>Server\<close>.
\<close>

subsection \<open>Top strip\<close>

text \<open>The values given at construction, used when there is no provider of live ones or it raises.\<close>

record dash_static =
  da_mc :: decimal
  da_emg :: decimal
  da_vix :: string
  da_halted :: bool
  da_regime :: string
  da_heartbeat :: "datetime option"

type_synonym live_values = "decimal \<times> decimal \<times> string \<times> bool"

record 'f top_strip_view =
  ts_nav :: "decimal option"
  ts_day_pnl :: "decimal option"
  ts_spend :: decimal
  ts_limit :: decimal
  ts_pct :: 'f
  ts_live :: live_values
  ts_regime :: string
  ts_heartbeat_age :: int
  ts_approvals :: int

definition pos_decimal :: "decimal option \<Rightarrow> decimal option" where
  "pos_decimal v = (case v of None \<Rightarrow> None | Some d \<Rightarrow> if 0 < d then Some d else None)"

definition priced_rows :: "snapshot_db \<Rightarrow> (datetime \<times> decimal) list" where
  "priced_rows db = sort_key fst (List.map_filter (\<lambda>r. map_option (Pair (er_ts r)) (pos_decimal (er_nav r))) (sd_equity db))"

definition nav_and_day_pnl :: "snapshot_db \<Rightarrow> decimal option \<times> decimal option" where
  "nav_and_day_pnl db = (let rows = priced_rows db in
     if rows = [] then (None, None)
     else (case last rows of (ts, nav) \<Rightarrow>
       (Some nav, Some (dsub nav (snd (hd (filter (\<lambda>(t, _). date_of t = date_of ts) rows)))))))"

definition live_or_static :: "dash_static \<Rightarrow> (exn + live_values) option \<Rightarrow> live_values" where
  "live_or_static st live = (case live of Some (Inr v) \<Rightarrow> v | _ \<Rightarrow> (da_mc st, da_emg st, da_vix st, da_halted st))"

definition top_strip ::
  "'f arith \<Rightarrow> dash_static \<Rightarrow> (exn + live_values) option \<Rightarrow> budget_ledger option \<Rightarrow> datetime \<Rightarrow> snapshot_db \<Rightarrow> 'f top_strip_view" where
  "top_strip ar st live budget now db =
     (let spend = (case budget of None \<Rightarrow> 0 | Some b \<Rightarrow> bl_total b);
          limit = (case budget of None \<Rightarrow> default_daily_limit | Some b \<Rightarrow> bl_limit b);
          (nav, pnl) = nav_and_day_pnl db
      in \<lparr>ts_nav = nav, ts_day_pnl = pnl, ts_spend = spend, ts_limit = limit,
          ts_pct = (if 0 < limit then fa_of ar (dmul (ddiv spend limit) 100) else fa_num ar 0),
          ts_live = live_or_static st live, ts_regime = da_regime st,
          ts_heartbeat_age = (case da_heartbeat st of None \<Rightarrow> 0 | Some t \<Rightarrow> (now - t) div 1000000), ts_approvals = 0\<rparr>)"

subsection \<open>Intents and fills\<close>

record intent_view =
  iv_ts :: datetime
  iv_agent :: agent_id
  iv_symbol :: symbol
  iv_action :: string
  iv_conviction :: int
  iv_outcome :: "string option"
  iv_rationale :: string

definition intent_view_of :: "agent_id \<Rightarrow> intent_row \<Rightarrow> intent_view" where
  "intent_view_of a r = \<lparr>iv_ts = ir_logged_at r, iv_agent = a, iv_symbol = ir_symbol r, iv_action = ir_action r,
     iv_conviction = ir_conviction r, iv_outcome = ir_outcome r, iv_rationale = take 200 (ir_rationale r)\<rparr>"

text \<open>\<open>mems\<close> are the agents with a memory, in the order of the dictionary.\<close>

definition recent_intents :: "agent_id list \<Rightarrow> nat \<Rightarrow> memory_db \<Rightarrow> intent_view list" where
  "recent_intents mems n m = take n (sort_key (\<lambda>v. - iv_ts v)
     (concat (map (\<lambda>a. map (intent_view_of a) (recent_intents_rows a n m)) mems)))"

definition agent_model :: "agent_id \<Rightarrow> string" where
  "agent_model a = (case a of HAIKU \<Rightarrow> ''claude-haiku-4-5'' | SONNET \<Rightarrow> ''claude-sonnet-4-6'' | OPUS \<Rightarrow> ''claude-opus-4-7''
     | MANAGER \<Rightarrow> ''claude-opus-4-7'')"

definition agent_intents :: "agent_id list \<Rightarrow> agent_id \<Rightarrow> nat \<Rightarrow> memory_db \<Rightarrow> intent_view list" where
  "agent_intents mems a n m = (if a \<in> set mems then map (intent_view_of a) (recent_intents_rows a n m) else [])"

record fill_view =
  fv_ts :: datetime
  fv_order :: order_id
  fv_symbol :: string
  fv_side :: string
  fv_qty :: decimal
  fv_price :: decimal
  fv_cost :: decimal
  fv_agent :: string
  fv_rationale :: string

text \<open>A value that is no number reads as zero; \<^verbatim>\<open>Decimal('True')\<close> raises.\<close>

definition as_decimal :: "pyval option \<Rightarrow> exn + decimal" where
  "as_decimal v = (case v of Some (PDec d) \<Rightarrow> Inr d | Some (PDecText d) \<Rightarrow> Inr d | Some (PBool _) \<Rightarrow> Inl DecimalError | _ \<Rightarrow> Inr 0)"

definition payload_text :: "payload \<Rightarrow> string \<Rightarrow> string" where
  "payload_text p k = (case dict_get p k of Some (PStr t) \<Rightarrow> t | _ \<Rightarrow> [])"

definition rationale_by_intent :: "agent_id list \<Rightarrow> memory_db \<Rightarrow> (intent_id, string) dict" where
  "rationale_by_intent mems m =
     foldl (\<lambda>d r. dict_set (ir_id r) (take 200 (ir_rationale r)) d) [] (concat (map (\<lambda>a. recent_intents_rows a 200 m) mems))"

definition lookup_intent_for_order :: "oms_store \<Rightarrow> order_id \<Rightarrow> (intent_id, string) dict \<Rightarrow> string \<times> string" where
  "lookup_intent_for_order st oid why =
     (case filter (\<lambda>e. e_kind e = ORDER_SUBMIT_INTENT) (iter_for_order oid st) of
        [] \<Rightarrow> ([], [])
      | e # _ \<Rightarrow> (let agent = payload_text (e_payload e) ''agent_id'' in
          (agent, if agent = [] then [] else (case dict_get (e_payload e) ''intent_id'' of
             Some (PUuid i) \<Rightarrow> dict_get_or why i [] | _ \<Rightarrow> []))))"

definition fill_view_of :: "oms_store \<Rightarrow> (intent_id, string) dict \<Rightarrow> logged_event \<Rightarrow> exn + fill_view" where
  "fill_view_of st why e =
     bindr (as_decimal (dict_get (e_payload e) ''qty'')) (\<lambda>q. bindr (as_decimal (dict_get (e_payload e) ''price'')) (\<lambda>p.
       (case lookup_intent_for_order st (e_order_id e) why of (agent, rationale) \<Rightarrow>
         Inr \<lparr>fv_ts = e_ts e, fv_order = e_order_id e, fv_symbol = payload_text (e_payload e) ''symbol'',
              fv_side = payload_text (e_payload e) ''side'', fv_qty = q, fv_price = p, fv_cost = dmul q p, fv_agent = agent,
              fv_rationale = rationale\<rparr>)))"

fun all_or_error :: "(exn + 'a) list \<Rightarrow> exn + 'a list" where
  "all_or_error [] = Inr []"
| "all_or_error (r # rs) = bindr r (\<lambda>x. bindr (all_or_error rs) (\<lambda>xs. Inr (x # xs)))"

definition recent_fills :: "oms_store \<Rightarrow> agent_id list \<Rightarrow> nat \<Rightarrow> memory_db \<Rightarrow> exn + fill_view list" where
  "recent_fills st mems n m =
     all_or_error (map (fill_view_of st (rationale_by_intent mems m)) (recent_by_kind FILL_RECEIVED n st))"

subsection \<open>Spend\<close>

record spend_view =
  sv_total :: decimal
  sv_limit :: decimal
  sv_by_type :: "(string, decimal) dict"
  sv_by_agent :: "(string, decimal) dict"
  sv_forecast :: decimal

definition add_cost :: "(spend_entry \<Rightarrow> string) \<Rightarrow> (string, decimal) dict \<Rightarrow> spend_entry \<Rightarrow> (string, decimal) dict" where
  "add_cost key d e = dict_set (key e) (dadd (dict_get_or d (key e) 0) (se_cost e)) d"

text \<open>\<open>part\<close> is the fraction of the day that has passed, as a decimal.\<close>

definition spend_breakdown :: "decimal \<Rightarrow> budget_ledger option \<Rightarrow> spend_view" where
  "spend_breakdown part budget = (case budget of
       None \<Rightarrow> \<lparr>sv_total = 0, sv_limit = default_daily_limit, sv_by_type = [], sv_by_agent = [], sv_forecast = 0\<rparr>
     | Some b \<Rightarrow> \<lparr>sv_total = bl_total b, sv_limit = bl_limit b, sv_by_type = foldl (add_cost se_call_type) [] (bl_entries b),
         sv_by_agent = foldl (add_cost se_agent) [] (bl_entries b),
         sv_forecast = min (if 1 / 100 < part then ddiv (bl_total b) part else bl_total b) (dmul (bl_limit b) 2)\<rparr>)"

fun running_costs :: "decimal \<Rightarrow> spend_entry list \<Rightarrow> (datetime \<times> decimal) list" where
  "running_costs c [] = []"
| "running_costs c (e # es) = (se_ts e, dadd c (se_cost e)) # running_costs (dadd c (se_cost e)) es"

definition spend_curve :: "budget_ledger option \<Rightarrow> (datetime \<times> decimal) list" where
  "spend_curve budget = (case budget of None \<Rightarrow> [] | Some b \<Rightarrow> running_costs 0 (sort_key se_ts (bl_entries b)))"

subsection \<open>Curves\<close>

definition sleeve_curves :: "snapshot_db \<Rightarrow> (datetime \<times> agent_id \<times> decimal) list" where
  "sleeve_curves db = concat (map (\<lambda>r. List.map_filter (\<lambda>a. map_option (\<lambda>(q, _). (er_ts r, a, q)) (dict_get (er_sleeves r) a))
     [HAIKU, SONNET, OPUS, MANAGER]) (sort_key er_ts (sd_equity db)))"

definition nav_curve :: "snapshot_db \<Rightarrow> (datetime \<times> decimal option) list" where
  "nav_curve db = map (\<lambda>r. (er_ts r, pos_decimal (er_nav r))) (sort_key er_ts (sd_equity db))"

definition agent_pnl_recent :: "nat \<Rightarrow> pnl_table \<Rightarrow> ((date \<times> agent_id) \<times> pnl_breakdown) list" where
  "agent_pnl_recent limit t = take (limit * 4) (sort_key (\<lambda>x. - fst (fst x)) (sort_key (\<lambda>x. agent_str (snd (fst x))) t))"

text \<open>Conviction by conviction: cases and wins, in the order the pairs first occur.\<close>

definition scatter_step :: "(string \<times> int, nat \<times> nat) dict \<Rightarrow> cal_row \<Rightarrow> (string \<times> int, nat \<times> nat) dict" where
  "scatter_step d r = (let k = (cr_agent r, cr_conviction r) in (case dict_get_or d k (0, 0) of (n, wins) \<Rightarrow>
     dict_set k (Suc n, if cr_outcome r = ''win'' then Suc wins else wins) d))"

definition calibration_scatter :: "'f arith \<Rightarrow> cal_row list \<Rightarrow> (string \<times> int \<times> 'f \<times> nat) list" where
  "calibration_scatter ar rows = map (\<lambda>((a, c), (n, wins)).
     (a, c, if 0 < n then fa_div ar (fa_num ar (of_nat wins)) (fa_num ar (of_nat n)) else fa_num ar 0, n)) (foldl scatter_step [] rows)"

subsection \<open>Performance\<close>

record 'f performance =
  pf_sharpe :: "'f option"
  pf_sortino :: "'f option"
  pf_max_dd :: 'f
  pf_win_rate :: "'f option"
  pf_loss_rate :: "'f option"
  pf_closed :: nat

definition float_mean :: "'f arith \<Rightarrow> 'f list \<Rightarrow> 'f" where
  "float_mean ar xs = fa_div ar (fa_sum ar xs) (fa_num ar (of_nat (length xs)))"

definition equity_series :: "'f arith \<Rightarrow> agent_id \<Rightarrow> datetime \<Rightarrow> snapshot_db \<Rightarrow> 'f list" where
  "equity_series ar a now db = filter (fa_less ar (fa_num ar 0)) (List.map_filter (\<lambda>r. map_option (\<lambda>(q, _). fa_of ar q) (dict_get (er_sleeves r) a))
     (sort_key er_ts (filter (\<lambda>r. now - 28 * us_per_day \<le> er_ts r) (sd_equity db))))"

definition series_returns :: "'f arith \<Rightarrow> 'f list \<Rightarrow> 'f list" where
  "series_returns ar s = map2 (\<lambda>p c. fa_div ar (fa_sub ar c p) p) (butlast s) (tl s)"

definition risk_free_daily :: "'f arith \<Rightarrow> 'f" where
  "risk_free_daily ar = fa_div ar (fa_num ar (45 / 1000)) (fa_num ar 252)"

definition year_root :: "'f arith \<Rightarrow> 'f" where "year_root ar = fa_sqrt ar (fa_num ar 252)"

definition scaled_ratio :: "'f arith \<Rightarrow> 'f \<Rightarrow> 'f \<Rightarrow> 'f option" where
  "scaled_ratio ar x dev = (if fa_less ar (fa_num ar 0) dev then Some (fa_mul ar (fa_div ar x dev) (year_root ar)) else None)"

definition sharpe_of :: "'f arith \<Rightarrow> 'f list \<Rightarrow> 'f option" where
  "sharpe_of ar rets = (if length rets < 5 then None else
     scaled_ratio ar (float_mean ar (map (\<lambda>r. fa_sub ar r (risk_free_daily ar)) rets))
       (fa_sqrt ar (float_mean ar (map (\<lambda>r. fa_pow ar (fa_sub ar r (float_mean ar rets)) (fa_num ar 2)) rets))))"

definition sortino_of :: "'f arith \<Rightarrow> 'f list \<Rightarrow> 'f option" where
  "sortino_of ar rets =
     (let excess = map (\<lambda>r. fa_sub ar r (risk_free_daily ar)) rets; down = filter (\<lambda>x. fa_less ar x (fa_num ar 0)) excess in
      if length rets < 5 \<or> length down < 3 then None
      else scaled_ratio ar (float_mean ar excess) (fa_sqrt ar (float_mean ar (map (\<lambda>r. fa_mul ar r r) down))))"

definition drawdown_from :: "'f arith \<Rightarrow> 'f \<times> 'f \<Rightarrow> 'f \<Rightarrow> 'f \<times> 'f" where
  "drawdown_from ar st v = (case st of (peak, worst) \<Rightarrow>
     (let p = fa_max ar peak v; dd = fa_div ar (fa_sub ar v p) p in (p, if fa_less ar dd worst then dd else worst)))"

definition series_drawdown :: "'f arith \<Rightarrow> 'f list \<Rightarrow> 'f" where
  "series_drawdown ar s = (if length s < 2 then fa_num ar 0 else snd (foldl (drawdown_from ar) (hd s, fa_num ar 0) s))"

text \<open>\<open>rounded wins n\<close> is \<^verbatim>\<open>int(round(win_rate * n))\<close> for a bucket of \<open>n\<close> cases.\<close>

definition agent_performance ::
  "'f arith \<Rightarrow> (nat \<Rightarrow> nat \<Rightarrow> nat) \<Rightarrow> agent_id \<Rightarrow> datetime \<Rightarrow> snapshot_db \<Rightarrow> cal_row list option \<Rightarrow> 'f performance" where
  "agent_performance ar rounded a now db cal =
     (let s = equity_series ar a now db; rets = series_returns ar s;
          table = (case cal of None \<Rightarrow> [] | Some rows \<Rightarrow> calibration_counts (Some (agent_str a)) rows);
          n = sum_list (map (\<lambda>(_, n, _). n) table);
          wins = sum_list (map (\<lambda>(_, n, w). if n = 0 then 0 else rounded w n) table);
          rate = (\<lambda>k. if n = 0 then None else Some (fa_div ar (fa_num ar (of_int k)) (fa_num ar (of_nat n))))
      in \<lparr>pf_sharpe = sharpe_of ar rets, pf_sortino = sortino_of ar rets, pf_max_dd = series_drawdown ar s,
          pf_win_rate = rate (int wins), pf_loss_rate = rate (int n - int wins), pf_closed = n\<rparr>)"

datatype dash_bucket = Ok_Bucket | Halved_Bucket | Warning_Bucket | Halt_Bucket

definition dash_bucket_of :: "'f arith \<Rightarrow> 'f \<Rightarrow> dash_bucket" where
  "dash_bucket_of ar dd = (if fa_less ar dd (fa_num ar (5 / 100)) then Ok_Bucket
     else if fa_less ar dd (fa_num ar (10 / 100)) then Halved_Bucket
     else if fa_less ar dd (fa_num ar (15 / 100)) then Warning_Bucket else Halt_Bucket)"

definition shown_drawdown :: "'f arith \<Rightarrow> equity_row \<Rightarrow> agent_id \<Rightarrow> 'f" where
  "shown_drawdown ar r a = (case dict_get (er_sleeves r) a of
       None \<Rightarrow> fa_num ar 0
     | Some (cur, peak) \<Rightarrow> if 0 < peak then fa_max ar (fa_of ar (ddiv (dsub peak cur) peak)) (fa_num ar 0) else fa_num ar 0)"

definition drawdown_status :: "'f arith \<Rightarrow> snapshot_db \<Rightarrow> (agent_id \<times> 'f \<times> dash_bucket) list" where
  "drawdown_status ar db = (if sd_equity db = [] then []
     else (let r = last (sort_key er_ts (sd_equity db)) in
       map (\<lambda>a. (a, shown_drawdown ar r a, dash_bucket_of ar (shown_drawdown ar r a))) [HAIKU, SONNET, OPUS, MANAGER]))"

subsection \<open>Positions\<close>

definition current_positions :: "snapshot_db \<Rightarrow> position_row list" where
  "current_positions db = (if sd_positions db = [] then []
     else filter (\<lambda>r. pr_ts r = Max (pr_ts ` set (sd_positions db))) (sd_positions db))"

definition last_marks :: "snapshot_db \<Rightarrow> (symbol, decimal) dict" where
  "last_marks db = foldl (\<lambda>d r. if pr_qty r = 0 then d else dict_set (pr_symbol r) (ddiv (pr_value r) (pr_qty r)) d) [] (current_positions db)"

record dash_position =
  dp_symbol :: symbol
  dp_qty :: decimal
  dp_value :: decimal
  dp_unrealized :: "decimal option"

text \<open>\<open>dec_of\<close> is the decimal of the text of a float; quantity and cost are summed as floats by the database.\<close>

definition dash_position_of :: "('f \<Rightarrow> decimal) \<Rightarrow> 'f arith \<Rightarrow> (symbol, decimal) dict \<Rightarrow> lot list \<Rightarrow> symbol \<Rightarrow> dash_position" where
  "dash_position_of dec_of ar mks ls s =
     (let qty = dec_of (fa_sum ar (map (\<lambda>l. fa_of ar (l_remaining_qty l)) ls));
          cost = dec_of (fa_sum ar (map (\<lambda>l. fa_mul ar (fa_of ar (l_remaining_qty l)) (fa_of ar (l_entry_price l))) ls))
      in (case dict_get mks s of
            None \<Rightarrow> \<lparr>dp_symbol = s, dp_qty = qty, dp_value = cost, dp_unrealized = None\<rparr>
          | Some mk \<Rightarrow> \<lparr>dp_symbol = s, dp_qty = qty, dp_value = dmul mk qty, dp_unrealized = Some (dsub (dmul mk qty) cost)\<rparr>))"

definition positions_by_agent :: "('f \<Rightarrow> decimal) \<Rightarrow> 'f arith \<Rightarrow> lot list \<Rightarrow> snapshot_db \<Rightarrow> (agent_id, dash_position list) dict" where
  "positions_by_agent dec_of ar ls db =
     (let live = filter (\<lambda>l. \<not> l_is_closed l \<and> 0 < l_remaining_qty l) ls;
          of_agent = (\<lambda>a. filter (\<lambda>l. l_agent_id l = a) live);
          row = (\<lambda>a s. dash_position_of dec_of ar (last_marks db) (filter (\<lambda>l. l_symbol l = s) (of_agent a)) s)
      in map (\<lambda>a. (a, sort_key (\<lambda>p. - dp_value p) (map (row a) (sort (remdups (map l_symbol (of_agent a)))))))
           (sort_key agent_str (remdups (map l_agent_id live))))"

definition positions_history ::
  "string \<Rightarrow> datetime option \<Rightarrow> snapshot_db \<Rightarrow> (datetime \<times> symbol \<times> decimal \<times> decimal option) list" where
  "positions_history a since db =
     map (\<lambda>r. (ap_ts r, ap_symbol r, ap_qty r, map_option (\<lambda>(_, v, _). v) (ap_marked r)))
       (sort_key ap_ts (sort_key ap_symbol (filter (\<lambda>r. ap_agent r = a \<and> (case since of None \<Rightarrow> True | Some t \<Rightarrow> t \<le> ap_ts r)) (sd_agents db))))"

subsection \<open>SPY\<close>

record spy_cache =
  sp_at :: "datetime option"
  sp_closes :: "(date \<times> decimal) list"

definition spy_fresh :: "datetime \<Rightarrow> spy_cache \<Rightarrow> bool" where
  "spy_fresh now c \<longleftrightarrow> (case sp_at c of None \<Rightarrow> False | Some t \<Rightarrow> sp_closes c \<noteq> [] \<and> now - t < 300 * 1000000)"

text \<open>\<open>feed\<close> is the Alpaca client, if there is one, asked for a window of time.\<close>

definition daily_closes ::
  "(datetime \<Rightarrow> datetime \<Rightarrow> exn + bar list) option \<Rightarrow> datetime \<Rightarrow> int \<Rightarrow> spy_cache \<Rightarrow> (date \<times> decimal) list \<times> spy_cache" where
  "daily_closes feed now days c =
     (if spy_fresh now c then (sp_closes c, c)
      else (case feed of
          None \<Rightarrow> ([], c)
        | Some get \<Rightarrow> (let till = now - 20 * 60 * 1000000 in
            (case get (till - (days + 5) * us_per_day) till of
               Inl _ \<Rightarrow> (sp_closes c, c)
             | Inr bs \<Rightarrow> (let xs = map (\<lambda>b. (date_of (b_timestamp b), b_close b)) bs in (xs, \<lparr>sp_at = Some now, sp_closes = xs\<rparr>))))))"


subsection \<open>The newest intents of all agents\<close>

text \<open>The stable merge of two lists in the order of their keys, and what it says of the first entries of a sorted concatenation.\<close>

fun merge_by :: "('a \<Rightarrow> 'k :: linorder) \<Rightarrow> 'a list \<Rightarrow> 'a list \<Rightarrow> 'a list" where
  "merge_by f [] ys = ys"
| "merge_by f (x # xs) [] = x # xs"
| "merge_by f (x # xs) (y # ys) = (if f x \<le> f y then x # merge_by f xs (y # ys) else y # merge_by f (x # xs) ys)"

lemma merge_to_Nil [simp]: "merge_by f xs [] = xs"
  by (cases xs) simp_all

lemma insort_merge: "sorted (map f us) \<Longrightarrow> insort_key f x (merge_by f us vs) = merge_by f (insort_key f x us) vs"
proof (induction f us vs rule: merge_by.induct)
  case (1 f ys)
  then show ?case by (induction ys) simp_all
next
  case (3 f u us v vs)
  then show ?case by (auto simp: insort_is_Cons)
qed simp

lemma sort_append_merge: "sort_key f (xs @ ys) = merge_by f (sort_key f xs) (sort_key f ys)"
  by (induction xs) (simp_all add: insort_merge)

lemma take_merge: "n \<le> a \<Longrightarrow> n \<le> b \<Longrightarrow> take n (merge_by f (take a xs) (take b ys)) = take n (merge_by f xs ys)"
proof (induction f xs ys arbitrary: n a b rule: merge_by.induct)
  case (3 f x xs y ys)
  show ?case
  proof (cases n)
    case (Suc k)
    then obtain a' b' where ab: "a = Suc a'" "b = Suc b'" "k \<le> a'" "k \<le> b'"
      using 3(3,4) by (metis Suc_le_D Suc_le_mono)
    then have "take k (merge_by f (take a' xs) (take b (y # ys))) = take k (merge_by f xs (y # ys))" if "f x \<le> f y"
      using 3(1) [OF that, of k a' b] by simp
    moreover have "take k (merge_by f (take a (x # xs)) (take b' ys)) = take k (merge_by f (x # xs) ys)" if "\<not> f x \<le> f y"
      using 3(2) [OF that, of k a b'] ab by simp
    ultimately show ?thesis using ab Suc by simp
  qed simp
qed (simp_all add: min_def)

lemma sort_of_top: "sort_key f (take n (sort_key f L)) = take n (sort_key f L)"
  by (rule sort_key_id_if_sorted) (simp add: take_map [symmetric] sorted_wrt_take)

lemma top_of_sorted_end: "take n (sort_key f (xs @ take n (sort_key f ys))) = take n (sort_key f (xs @ ys))"
  using take_merge [of n n n f "sort_key f xs" "sort_key f ys"] take_merge [of n n n f "sort_key f xs" "take n (sort_key f ys)"]
  by (simp add: sort_append_merge sort_of_top)

lemma top_of_sorted_start: "take n (sort_key f (take n (sort_key f xs) @ ys)) = take n (sort_key f (xs @ ys))"
  using take_merge [of n n n f "sort_key f xs" "sort_key f ys"] take_merge [of n n n f "take n (sort_key f xs)" "sort_key f ys"]
  by (simp add: sort_append_merge sort_of_top)

lemma top_of_tops: "take n (sort_key f (concat (map (\<lambda>L. take n (sort_key f L)) Ls))) = take n (sort_key f (concat Ls))"
proof (induction Ls)
  case (Cons L Ls)
  then show ?case
    using top_of_sorted_start [of n f L "concat (map (\<lambda>L. take n (sort_key f L)) Ls)"] top_of_sorted_end [of n f L "concat (map (\<lambda>L. take n (sort_key f L)) Ls)"]
      top_of_sorted_end [of n f L "concat Ls"] by simp
qed simp

lemma sort_key_of_map: "sort_key f (map g xs) = map g (sort_key (f \<circ> g) xs)"
proof -
  have "insort_key f (g x) (map g zs) = map g (insort_key (f \<circ> g) x zs)" for x zs by (induction zs) simp_all
  then show ?thesis by (induction xs) simp_all
qed

text \<open>Every intent of the memories, agent by agent.\<close>

definition all_intents :: "agent_id list \<Rightarrow> memory_db \<Rightarrow> intent_view list" where
  "all_intents mems m = concat (map (\<lambda>a. map (intent_view_of a) (rows_of a m)) mems)"

text \<open>
  The newest intents (\<^verbatim>\<open>dashboard/data.py\<close> \<open>recent_intents\<close>): asking each agent's memory for its \<open>n\<close> latest
  intents only, the dashboard shows exactly the \<open>n\<close> latest of all intents. The intents of one observation carry one time
  stamp; among equal ones those of the earlier agent and, within an agent, the earlier logged stand first.
\<close>

lemma newest_intents_of_all: "recent_intents mems n m = take n (sort_key (\<lambda>v. - iv_ts v) (all_intents mems m))"
proof -
  have "map (intent_view_of a) (recent_intents_rows a n m) = take n (sort_key (\<lambda>v. - iv_ts v) (map (intent_view_of a) (rows_of a m)))" for a
    by (simp add: recent_intents_rows_def take_map sort_key_of_map comp_def intent_view_of_def)
  then show ?thesis
    using top_of_tops [of n "\<lambda>v. - iv_ts v" "map (\<lambda>a. map (intent_view_of a) (rows_of a m)) mems"]
    by (simp add: recent_intents_def all_intents_def comp_def)
qed

definition intent_at :: "intent_id \<Rightarrow> agent_id \<Rightarrow> datetime \<Rightarrow> intent_row" where
  "intent_at i a ts = \<lparr>ir_id = i, ir_agent = a, ir_symbol = ''SPY'', ir_action = ''buy'', ir_conviction = 5, ir_rationale = [],
     ir_outcome = None, ir_logged_at = ts, ir_weight = None\<rparr>"

definition busy_memory :: memory_db where
  "busy_memory = \<lparr>md_facts = [], md_journals = [], md_intents = [intent_at 1 HAIKU 3, intent_at 2 HAIKU 3, intent_at 3 OPUS 2]\<rparr>"

lemma newest_intents_of_all_example:
  "map iv_ts (recent_intents [HAIKU, OPUS] 2 busy_memory) = [3, 3]"
  using newest_intents_of_all [of "[HAIKU, OPUS]" 2 busy_memory]
  by (simp add: busy_memory_def intent_at_def all_intents_def rows_of_def intent_view_of_def)

text \<open>The dashboard calls an agent halted from the bucket on in which it still trades with a reduced cap.\<close>

lemma halt_is_shown_early:
  "dash_bucket_of rat_arith dd = Halt_Bucket \<longleftrightarrow> classify_drawdown dd \<in> {RED, FORCED_CASH}"
  by (auto simp: dash_bucket_of_def rat_arith_def classify_drawdown_def)

end
