(* ===== verification/Shell.thy ===== *)
theory Shell
  imports View Jobs Attribution News Clock Robinhood Analytics Dashboard
begin

text \<open>
  The shell of the program in \<^verbatim>\<open>app.py\<close>: the guards of \<^verbatim>\<open>main\<close>, the choice of broker and market data, start and stop,
  the table of scheduled jobs, the filter against floods of log records, and the jobs that join modelled parts: the
  daily profit snapshot, the morning brief, the Manager's context and its catch-up. Threads are left out; a step
  that can raise is a name, and \<open>fails\<close> tells which raise.
\<close>

subsection \<open>Settings\<close>

record settings =
  cfg_broker_kind :: string
  cfg_alpaca_paper :: bool
  cfg_alpaca_key :: string
  cfg_alpaca_secret :: string
  cfg_rh_live :: bool
  cfg_data_source :: string
  cfg_mc :: decimal
  cfg_override :: string
  cfg_interval :: int
  cfg_interval_rh :: int

definition broker_kind :: "settings \<Rightarrow> string" where
  "broker_kind s = py_lower (or_text (cfg_broker_kind s) ''alpaca'')"

definition validate_settings :: "settings \<Rightarrow> exn + unit" where
  "validate_settings s = (if broker_kind s \<in> {''alpaca'', ''robinhood''} then Inr () else Inl ValueError)"

datatype 'm chosen_broker = Alpaca_Broker bool | Robinhood_Broker "'m robinhood"

text \<open>\<open>sdk\<close> is what the construction of the MCP client gives, \<open>tokens\<close> tells whether the token file exists.\<close>

definition build_robinhood_broker :: "exn + 'm \<Rightarrow> bool \<Rightarrow> uuid \<Rightarrow> settings \<Rightarrow> exn + 'm chosen_broker" where
  "build_robinhood_broker sdk tokens n s =
     (if cfg_rh_live s
      then (if \<not> tokens then Inl RuntimeError else bindr sdk (\<lambda>m. Inr (Robinhood_Broker (new_robinhood (Some m) True n))))
      else Inr (Robinhood_Broker (new_robinhood None False n)))"

definition build_alpaca_broker :: "settings \<Rightarrow> exn + 'm chosen_broker" where
  "build_alpaca_broker s = (if \<not> cfg_alpaca_paper s then Inl RuntimeError else Inr (Alpaca_Broker (cfg_alpaca_paper s)))"

definition build_broker :: "exn + 'm \<Rightarrow> bool \<Rightarrow> uuid \<Rightarrow> settings \<Rightarrow> exn + 'm chosen_broker" where
  "build_broker sdk tokens n s =
     (if broker_kind s = ''robinhood'' then build_robinhood_broker sdk tokens n s
      else if broker_kind s = ''alpaca'' then build_alpaca_broker s
      else Inl RuntimeError)"

text \<open>Yahoo's feed takes crypto bars from Alpaca when there are keys.\<close>

datatype data_choice = Alpaca_Feed | Yahoo_Feed bool

definition build_market_data :: "settings \<Rightarrow> exn + data_choice" where
  "build_market_data s = (let source = py_lower (or_text (cfg_data_source s) ''yfinance'') in
     if source = ''alpaca'' then Inr Alpaca_Feed
     else if source = ''yfinance'' then Inr (Yahoo_Feed (cfg_alpaca_key s \<noteq> [] \<and> cfg_alpaca_secret s \<noteq> []))
     else Inl ValueError)"

definition reconciler_interval :: "settings \<Rightarrow> int" where
  "reconciler_interval s = (if broker_kind s = ''robinhood'' then cfg_interval_rh s else cfg_interval s)"

datatype 'm boot = Refused | Crashed exn | Running "'m chosen_broker" data_choice int

definition boot :: "exn + 'm \<Rightarrow> bool \<Rightarrow> uuid \<Rightarrow> settings \<Rightarrow> 'm boot" where
  "boot sdk tokens n s =
     (if \<not> cfg_alpaca_paper s then Refused
      else if 15 / 10 < cfg_mc s \<and> cfg_override s = [] then Refused
      else (case bindr (validate_settings s) (\<lambda>_. bindr (build_broker sdk tokens n s) (\<lambda>b.
              bindr (build_market_data s) (\<lambda>d. Inr (b, d)))) of
          Inl e \<Rightarrow> Crashed e
        | Inr (b, d) \<Rightarrow> Running b d (reconciler_interval s)))"

definition trades_for_real :: "'m chosen_broker \<Rightarrow> bool" where
  "trades_for_real b = (case b of Alpaca_Broker paper \<Rightarrow> \<not> paper | Robinhood_Broker r \<Rightarrow> armed r)"

text \<open>
  C35 Real money (\<^verbatim>\<open>app.py\<close> \<open>main\<close>, \<open>_build_broker\<close>): whenever the program gets as far as a broker, the
  broker places real orders exactly when Robinhood is chosen and its live flag is set.
\<close>

theorem real_money_needs_its_flag:
  assumes "boot sdk tokens n s = Running b d iv"
  shows "trades_for_real b \<longleftrightarrow> broker_kind s = ''robinhood'' \<and> cfg_rh_live s"
proof -
  have "build_broker sdk tokens n s = Inr b" "cfg_alpaca_paper s"
    using assms by (auto simp: boot_def bindr_Inr_iff split: if_splits sum.splits)
  then show ?thesis
    by (auto simp: build_broker_def build_robinhood_broker_def build_alpaca_broker_def trades_for_real_def armed_def new_robinhood_def
        bindr_Inr_iff split: if_splits)
qed

definition stock_settings :: settings where
  "stock_settings = \<lparr>cfg_broker_kind = ''alpaca'', cfg_alpaca_paper = True, cfg_alpaca_key = [], cfg_alpaca_secret = [],
     cfg_rh_live = False, cfg_data_source = ''yfinance'', cfg_mc = 1, cfg_override = [], cfg_interval = 60, cfg_interval_rh = 20\<rparr>"

theorem real_money_needs_its_flag_witness:
  "\<exists>b d. boot (Inr ()) True 0 (stock_settings\<lparr>cfg_broker_kind := ''robinhood'', cfg_rh_live := True\<rparr>) = Running b d 20 \<and> trades_for_real b"
proof -
  let ?s = "stock_settings\<lparr>cfg_broker_kind := ''robinhood'', cfg_rh_live := True\<rparr>"
  have k: "broker_kind ?s = ''robinhood''" by (simp add: broker_kind_def or_text_def stock_settings_def py_lower_def lower_char_def)
  have y: "py_lower ''yfinance'' = ''yfinance''" by (simp add: py_lower_def lower_char_def)
  let ?b = "Robinhood_Broker (new_robinhood (Some ()) True 0)"
  have l: "cfg_rh_live ?s" by simp
  have br: "build_broker (Inr ()) True 0 ?s = Inr ?b" by (simp only: build_broker_def k build_robinhood_broker_def l refl if_True not_True_eq_False if_False bindr.simps)
  have d: "build_market_data ?s = Inr (Yahoo_Feed False)" by (simp add: build_market_data_def y or_text_def stock_settings_def)
  have v: "validate_settings ?s = Inr ()" by (simp only: validate_settings_def k) simp
  have i: "reconciler_interval ?s = 20" by (simp only: reconciler_interval_def k) (simp add: stock_settings_def)
  have g: "cfg_alpaca_paper ?s" "\<not> 15 / 10 < cfg_mc ?s" by (simp_all add: stock_settings_def)
  have b: "boot (Inr ()) True 0 ?s = Running ?b (Yahoo_Feed False) 20"
    unfolding boot_def v br d i using g by simp
  from real_money_needs_its_flag [OF b] k have "trades_for_real ?b" by simp
  with b show ?thesis by blast
qed

text \<open>The guard on the capability looks at the setting; the store takes what its file holds.\<close>

lemma stored_capability_is_not_guarded:
  "\<exists>b d. boot sdk tokens n stock_settings = Running b d 60 \<and> rs_mc (new_store (Mc_file 3) (cfg_mc stock_settings)) = 3"
  by (auto simp: boot_def stock_settings_def validate_settings_def broker_kind_def or_text_def py_lower_def lower_char_def
      build_broker_def build_alpaca_broker_def build_market_data_def reconciler_interval_def new_store_def load_persisted_mc_def)

subsection \<open>Start and stop\<close>

text \<open>
  \<open>lf_log\<close> are the steps taken so far, in order. A guarded step is one whose exception is logged and ignored. The threads a step
  starts, and their joins, are left out.
\<close>

record life =
  lf_started :: bool
  lf_stopped :: bool
  lf_log :: "string list"

record run_options =
  ro_recover :: bool
  ro_stream :: bool
  ro_dashboard :: bool
  ro_scanner :: bool

fun run_steps :: "(string \<Rightarrow> bool) \<Rightarrow> (string \<times> bool) list \<Rightarrow> (life, unit) eff" where
  "run_steps fails [] = skip"
| "run_steps fails ((step, guarded) # rest) =
     andthen (modify (\<lambda>l. l\<lparr>lf_log := lf_log l @ [step]\<rparr>)) (\<lambda>_.
       if fails step \<and> \<not> guarded then raise RuntimeError else run_steps fails rest)"

definition start_steps :: "run_options \<Rightarrow> (string \<times> bool) list" where
  "start_steps ro =
     (if ro_recover ro then [(''oms.recover'', True)] else [])
     @ [(''alerts.start'', False), (''heartbeat.start'', False), (''equity_snapshotter.start'', False),
        (''budget_watcher.start'', False), (''reconciler.start'', False)]
     @ (if ro_stream ro then [(''broker.start_stream'', True)] else [])
     @ [(''register_jobs'', False), (''scheduler.start'', False), (''reallocation_catch_up'', False)]
     @ (if ro_dashboard ro then [(''dashboard.start'', False)] else [])
     @ (if ro_scanner ro then [(''volatility.start'', False)] else [])"

definition stop_steps :: "run_options \<Rightarrow> (string \<times> bool) list" where
  "stop_steps ro =
     (if ro_dashboard ro then [(''dashboard.shutdown'', True)] else [])
     @ [(''scheduler.shutdown'', True)]
     @ (if ro_stream ro then [(''broker.stop_stream'', True)] else [])
     @ [(''reconciler.stop'', True), (''budget_watcher.stop'', True), (''equity_snapshotter.stop'', True), (''heartbeat.stop'', True),
        (''alerts.stop'', True), (''memory.haiku.close'', True), (''memory.sonnet.close'', True), (''memory.opus.close'', True),
        (''memory.manager.close'', True), (''store.close'', True), (''telegram.close'', True), (''shutdown_summary'', True)]"

definition app_start :: "(string \<Rightarrow> bool) \<Rightarrow> run_options \<Rightarrow> (life, unit) eff" where
  "app_start fails ro l =
     (if lf_started l then (Inr (), l)
      else andthen (run_steps fails (start_steps ro)) (\<lambda>_. modify (\<lambda>l. l\<lparr>lf_started := True\<rparr>)) l)"

definition app_stop :: "(string \<Rightarrow> bool) \<Rightarrow> run_options \<Rightarrow> (life, unit) eff" where
  "app_stop fails ro l =
     (if lf_stopped l then (Inr (), l) else run_steps fails (stop_steps ro) (l\<lparr>lf_stopped := True\<rparr>))"

text \<open>\<^verbatim>\<open>main\<close> from the construction on: \<^verbatim>\<open>stop\<close> stands in the \<^verbatim>\<open>finally\<close> of the waiting loop, after \<^verbatim>\<open>start\<close>.\<close>

definition run_app :: "(string \<Rightarrow> bool) \<Rightarrow> run_options \<Rightarrow> (life, unit) eff" where
  "run_app fails ro = andthen (app_start fails ro) (\<lambda>_. app_stop fails ro)"

definition new_life :: life where
  "new_life = \<lparr>lf_started = False, lf_stopped = False, lf_log = []\<rparr>"

lemma run_steps_guarded:
  "\<forall>(s, g)\<in>set xs. g \<or> \<not> fails s \<Longrightarrow> run_steps fails xs l = (Inr (), l\<lparr>lf_log := lf_log l @ map fst xs\<rparr>)"
  by (induction xs arbitrary: l) (auto simp: eff_defs)

lemma run_steps_fails:
  "fails s \<Longrightarrow> \<forall>(t, g)\<in>set xs. g \<or> \<not> fails t \<Longrightarrow>
   run_steps fails (xs @ (s, False) # ys) l = (Inl RuntimeError, l\<lparr>lf_log := lf_log l @ map fst xs @ [s]\<rparr>)"
  by (induction xs arbitrary: l) (auto simp: eff_defs)

text \<open>Whatever raises, a stop takes all its steps, and a second one none.\<close>

lemma stop_takes_every_step:
  assumes "\<not> lf_stopped l"
  shows "app_stop fails ro l = (Inr (), l\<lparr>lf_stopped := True, lf_log := lf_log l @ map fst (stop_steps ro)\<rparr>)"
    and "snd (app_stop fails' ro (snd (app_stop fails ro l))) = snd (app_stop fails ro l)"
proof -
  have "\<forall>(s, g)\<in>set (stop_steps ro). g \<or> \<not> fails s" by (auto simp: stop_steps_def)
  then show s: "app_stop fails ro l = (Inr (), l\<lparr>lf_stopped := True, lf_log := lf_log l @ map fst (stop_steps ro)\<rparr>)"
    using assms by (simp add: app_stop_def run_steps_guarded)
  show "snd (app_stop fails' ro (snd (app_stop fails ro l))) = snd (app_stop fails ro l)"
    unfolding s by (simp add: app_stop_def)
qed

text \<open>
  A step that raises during the start leaves what is already running to itself: the stop is not reached.
\<close>

lemma failed_start_is_not_stopped:
  assumes "fails ''scheduler.start''" and "\<forall>s. fails s \<longrightarrow> s = ''scheduler.start''"
  shows "\<exists>l. run_app fails ro new_life = (Inl RuntimeError, l) \<and> ''reconciler.start'' \<in> set (lf_log l)
    \<and> set (lf_log l) \<inter> fst ` set (stop_steps ro) = {}"
proof -
  define pre where "pre = takeWhile (\<lambda>x. fst x \<noteq> ''scheduler.start'') (start_steps ro)"
  obtain post where p: "start_steps ro = pre @ (''scheduler.start'', False) # post"
    by (auto simp: start_steps_def pre_def)
  have "\<forall>(t, g)\<in>set pre. g \<or> \<not> fails t" using assms(2) by (auto simp: pre_def dest: set_takeWhileD)
  then have "run_app fails ro new_life = (Inl RuntimeError, new_life\<lparr>lf_log := lf_log new_life @ map fst pre @ [''scheduler.start'']\<rparr>)"
    using run_steps_fails [of fails "''scheduler.start''" pre post new_life] assms(1)
    by (simp add: run_app_def app_start_def p andthen_def new_life_def)
  moreover have "''reconciler.start'' \<in> fst ` set pre" by (auto simp: pre_def start_steps_def)
  moreover have "fst ` set pre \<inter> fst ` set (stop_steps ro) = {}" "''scheduler.start'' \<notin> fst ` set (stop_steps ro)"
    by (auto simp: pre_def start_steps_def stop_steps_def)
  ultimately show ?thesis by (auto simp: new_life_def)
qed

subsection \<open>Scheduled jobs\<close>

text \<open>
  A trigger of the scheduler as documented: it fires at every minute whose day of the week (Monday is 0), hour and
  minute are listed, in the trigger's zone; a field that is not given is full when it is above the given ones.
\<close>

datatype zone = Eastern | Utc

record trigger =
  tr_weekdays :: "int list"
  tr_hours :: "int list"
  tr_minutes :: "int list"
  tr_zone :: zone

datatype job =
    Observe agent_id
  | Deep_Dives nat
  | Opus_Init
  | Reserve_Check
  | Manager_Friday
  | Morning_Synthesis
  | Budget_Reset
  | News_Fetch
  | News_Nightly
  | Pnl_Snapshot
  | Sunday_Critique
  | Portfolio_Message

definition on_days :: "int list \<Rightarrow> int list \<Rightarrow> int list \<Rightarrow> trigger" where
  "on_days ds hs ms = \<lparr>tr_weekdays = ds, tr_hours = hs, tr_minutes = ms, tr_zone = Eastern\<rparr>"

definition weekdays_at :: "int \<Rightarrow> int \<Rightarrow> trigger" where
  "weekdays_at h m = on_days [0..4] [h] [m]"

definition job_table :: "(string \<times> trigger \<times> job) list" where
  "job_table =
     [(''haiku_news_scan'', weekdays_at 13 30, Observe HAIKU),
      (''haiku_close'', weekdays_at 15 55, Observe HAIKU),
      (''sonnet_eod'', weekdays_at 16 30, Observe SONNET),
      (''opus_thursday_deepdive'', on_days [3] [16] [30], Deep_Dives 0),
      (''opus_monday_init'', on_days [0] [9] [35], Observe OPUS),
      (''opus_daily_init'', weekdays_at 10 0, Opus_Init),
      (''manager_reserve_check'', on_days [0] [9] [40], Reserve_Check),
      (''manager_friday'', on_days [4] [17] [0], Manager_Friday),
      (''haiku_morning_synthesis'', weekdays_at 8 30, Morning_Synthesis),
      (''haiku_crypto'', \<lparr>tr_weekdays = [0..6], tr_hours = [0..23], tr_minutes = [0], tr_zone = Utc\<rparr>, Observe HAIKU),
      (''budget_reset'', \<lparr>tr_weekdays = [0..6], tr_hours = [0], tr_minutes = [0], tr_zone = Utc\<rparr>, Budget_Reset),
      (''news_fetch'', on_days [0..4] [9..16] [0, 30], News_Fetch),
      (''news_nightly'', on_days [0..6] [22] [0], News_Nightly),
      (''agent_pnl_snapshot'', weekdays_at 16 45, Pnl_Snapshot),
      (''manager_sunday_critique'', on_days [6] [18] [0], Sunday_Critique),
      (''portfolio_snapshot'', on_days [0..4] [9..16] [0], Portfolio_Message),
      (''portfolio_snapshot_weekend'', on_days [5, 6] [9] [0], Portfolio_Message)]"

definition all_job_ids :: "string set" where
  "all_job_ids = {''haiku_news_scan'', ''haiku_close'', ''sonnet_eod'', ''opus_thursday_deepdive'', ''opus_monday_init'',
     ''opus_daily_init'', ''manager_reserve_check'', ''manager_friday'', ''haiku_morning_synthesis'', ''haiku_crypto'',
     ''budget_reset'', ''news_fetch'', ''news_nightly'', ''portfolio_snapshot'', ''portfolio_snapshot_weekend'',
     ''agent_pnl_snapshot'', ''manager_sunday_critique''}"

definition hour_of :: "datetime \<Rightarrow> int" where "hour_of t = t div us_per_hour mod 24"
definition minute_of :: "datetime \<Rightarrow> int" where "minute_of t = t div (60 * 1000000) mod 60"

text \<open>\<open>behind\<close> is how many hours New York is behind UTC, four or five.\<close>

definition local_time :: "int \<Rightarrow> zone \<Rightarrow> datetime \<Rightarrow> datetime" where
  "local_time behind z t = (case z of Utc \<Rightarrow> t | Eastern \<Rightarrow> t - behind * us_per_hour)"

definition fires :: "int \<Rightarrow> trigger \<Rightarrow> datetime \<Rightarrow> bool" where
  "fires behind tr t = (let l = local_time behind (tr_zone tr) t in
     weekday (date_of l) \<in> set (tr_weekdays tr) \<and> hour_of l \<in> set (tr_hours tr) \<and> minute_of l \<in> set (tr_minutes tr))"

definition due :: "int \<Rightarrow> datetime \<Rightarrow> (string \<times> trigger \<times> job) list" where
  "due behind t = filter (\<lambda>(i, tr, j). fires behind tr t) job_table"

text \<open>Whose decisions a job asks for.\<close>

definition decides :: "job \<Rightarrow> agent_id option" where
  "decides j = (case j of Observe a \<Rightarrow> Some a | Deep_Dives _ \<Rightarrow> Some OPUS | Opus_Init \<Rightarrow> Some OPUS | _ \<Rightarrow> None)"

lemma minute_of_local: "minute_of (local_time behind z t) = minute_of t"
proof -
  have "(t - behind * us_per_hour) div (60 * 1000000) = t div (60 * 1000000) + - behind * 60"
    by (simp add: us_per_hour_def)
  then have "minute_of (t - behind * us_per_hour) = minute_of t" unfolding minute_of_def by (simp only: mod_mult_self1)
  then show ?thesis by (simp add: local_time_def split: zone.split)
qed

lemma registered_ids: "fst ` set job_table = all_job_ids" "distinct (map fst job_table)"
  by (simp_all add: job_table_def all_job_ids_def insert_commute)

lemma due_minute: "z \<in> set (due behind t) \<Longrightarrow> z \<in> set job_table \<and> minute_of t \<in> set (tr_minutes (fst (snd z)))"
  by (auto simp: due_def fires_def Let_def minute_of_local)

definition deciders :: "(string \<times> trigger \<times> job) list" where
  "deciders = filter (\<lambda>z. decides (snd (snd z)) \<noteq> None) job_table"

text \<open>Agent and minute determine the job.\<close>

lemma deciders_apart:
  "distinct (map (\<lambda>z. (decides (snd (snd z)), tr_minutes (fst (snd z)))) deciders)" "\<forall>z\<in>set deciders. \<exists>m. tr_minutes (fst (snd z)) = [m]"
  by (simp_all add: deciders_def job_table_def decides_def weekdays_at_def on_days_def)

text \<open>
  The schedule (\<^verbatim>\<open>app.py\<close> \<open>_register_jobs\<close>): in no minute, summer or winter, do two jobs ask the same agent for a
  decision.
\<close>

lemma no_agent_is_asked_twice_at_once:
  assumes "x \<in> set (due behind t)" and "y \<in> set (due behind t)"
    and "decides (snd (snd x)) = Some a" and "decides (snd (snd y)) = Some a"
  shows "x = y"
proof -
  have d: "x \<in> set deciders" "y \<in> set deciders" using due_minute assms by (auto simp: deciders_def)
  then have "tr_minutes (fst (snd x)) = [minute_of t]" "tr_minutes (fst (snd y)) = [minute_of t]"
    using deciders_apart(2) due_minute [OF assms(1)] due_minute [OF assms(2)] by fastforce+
  with d assms(3,4) deciders_apart(1) show ?thesis by (auto simp: distinct_map inj_on_def)
qed

lemma no_agent_is_asked_twice_at_once_example:
  "\<exists>x. x \<in> set (due 4 (at_time 0 20 30)) \<and> decides (snd (snd x)) = Some SONNET
    \<and> (\<forall>y. y \<in> set (due 4 (at_time 0 20 30)) \<and> decides (snd (snd y)) = Some SONNET \<longrightarrow> y = x)"
proof -
  let ?x = "(''sonnet_eod'', weekdays_at 16 30, Observe SONNET)"
  have "fires 4 (weekdays_at 16 30) (at_time 0 20 30)"
    by (simp add: fires_def weekdays_at_def on_days_def local_time_def at_time_def us_per_hour_def us_per_day_def
        weekday_def date_of_def hour_of_def minute_of_def Let_def)
  then have x: "?x \<in> set (due 4 (at_time 0 20 30))" by (simp add: due_def job_table_def)
  have d: "decides (snd (snd ?x)) = Some SONNET" by (simp add: decides_def)
  have "y = ?x" if "y \<in> set (due 4 (at_time 0 20 30))" "decides (snd (snd y)) = Some SONNET" for y
    by (rule no_agent_is_asked_twice_at_once [OF that(1) x that(2) d])
  with x d show ?thesis by blast
qed

text \<open>Sonnet and the weekly dives of Opus decide after the close: what they order waits for the next session.\<close>

lemma sonnet_decides_after_the_close:
  assumes "fires behind (weekdays_at 16 30) t"
  shows "\<not> market_open (local_time behind Eastern t)"
proof -
  let ?l = "local_time behind Eastern t"
  have h: "?l div us_per_hour mod 24 = 16" using assms by (simp add: fires_def weekdays_at_def on_days_def hour_of_def Let_def)
  have "?l div us_per_day = ?l div us_per_hour div 24" by (simp add: us_per_day_def us_per_hour_def div_mult2_eq)
  with h have "?l div us_per_hour = 24 * date_of ?l + 16" unfolding date_of_def using div_mult_mod_eq [of "?l div us_per_hour" 24] by simp
  moreover have "us_per_hour * (?l div us_per_hour) \<le> ?l" by (simp add: us_per_hour_def)
  ultimately have "date_of ?l * us_per_day + 16 * us_per_hour \<le> ?l" by (simp add: us_per_day_def us_per_hour_def)
  moreover have "dict_get_or nyse_early_closes d 16 * us_per_hour \<le> 16 * us_per_hour" for d
    by (simp add: nyse_early_closes_def dict_get_or_def us_per_hour_def)
  ultimately have "at_time d (dict_get_or nyse_early_closes d 16) 0 \<le> ?l" if "d = date_of ?l" for d
    using that by (simp add: at_time_def) (metis add_left_mono order_trans)
  then show ?thesis by (auto simp: market_open_def Let_def)
qed

subsection \<open>The flood filter\<close>

text \<open>
  \<open>lg_last\<close> is when a record of a key last passed, \<open>lg_held\<close> how many were suppressed since; times are seconds of the
  monotonic clock. The result is the text that passes. (A noted record loses its arguments: its text is then the
  format itself.)
\<close>

record log_filter =
  lg_min :: int
  lg_last :: "(string, rat) dict"
  lg_held :: "(string, nat) dict"

definition new_filter :: "int \<Rightarrow> log_filter" where
  "new_filter m = \<lparr>lg_min = m, lg_last = [], lg_held = []\<rparr>"

definition record_key :: "string \<Rightarrow> string \<Rightarrow> string" where
  "record_key name msg = name @ '':'' @ take 80 msg"

definition noted :: "int \<Rightarrow> nat \<Rightarrow> string \<Rightarrow> string" where
  "noted m n msg = (if n = 0 then msg
     else msg @ '' [+'' @ int_text (int n) @ '' identical suppressed in last '' @ int_text m @ ''s]'')"

definition filter_record :: "rat \<Rightarrow> string \<Rightarrow> string \<Rightarrow> log_filter \<Rightarrow> string option \<times> log_filter" where
  "filter_record now name msg f =
     (let k = record_key name msg; n = dict_get_or (lg_held f) k 0 in
      if (case dict_get (lg_last f) k of None \<Rightarrow> True | Some l \<Rightarrow> of_int (lg_min f) \<le> now - l)
      then (Some (noted (lg_min f) n msg), f\<lparr>lg_last := dict_set k now (lg_last f), lg_held := dict_del k (lg_held f)\<rparr>)
      else (None, f\<lparr>lg_held := dict_set k (Suc n) (lg_held f)\<rparr>))"

text \<open>What passes of a sequence of records: the name, the format of the record and the text that passed.\<close>

fun passed :: "(rat \<times> string \<times> string) list \<Rightarrow> log_filter \<Rightarrow> (string \<times> string \<times> string) list \<times> log_filter" where
  "passed [] f = ([], f)"
| "passed ((now, name, msg) # rs) f =
     (case filter_record now name msg f of (out, f1) \<Rightarrow> (case passed rs f1 of (es, f2) \<Rightarrow>
        ((case out of None \<Rightarrow> es | Some text \<Rightarrow> (name, msg, text) # es), f2)))"

text \<open>A reader of the log: the number that stands after the format and three more characters, zero if nothing follows.\<close>

definition number_read :: "string \<Rightarrow> string \<Rightarrow> nat" where
  "number_read msg text = (let note = drop (length msg) text in
     if note = [] then 0 else nat (digits_value (takeWhile is_digit (drop 3 note))))"

lemma uuid_text_reads: "digits_value (uuid_text n) = int n \<and> list_all is_digit (uuid_text n)"
proof (induction n rule: uuid_text.induct)
  case (1 n)
  have d: "digit_value (digit k) = int k \<and> is_digit (digit k)" if "k < 10" for k
    using that by (auto simp: digit_value_def is_digit_def digit_def Let_def)
  have snoc: "digits_value (xs @ [c]) = 10 * digits_value xs + digit_value c" for xs c by (simp add: digits_value_def)
  show ?case
  proof (cases "n < 10")
    case True
    then show ?thesis using d [of n] by (simp add: uuid_text.simps [of n] digits_value_def)
  next
    case False
    then show ?thesis using 1 d [of "n mod 10"] by (simp add: uuid_text.simps [of n] snoc) presburger
  qed
qed

lemma number_read_noted: "number_read msg (noted m n msg) = n"
proof -
  have "takeWhile is_digit (uuid_text n @ CHR '' '' # t) = uuid_text n" for t
    using uuid_text_reads [of n] by (simp add: takeWhile_append2 list_all_iff is_digit_def)
  then show ?thesis using uuid_text_reads [of n] by (simp add: number_read_def noted_def int_text_def)
qed

definition of_key :: "string \<Rightarrow> (string \<times> string \<times> string) list \<Rightarrow> (string \<times> string) list" where
  "of_key k es = map snd (filter (\<lambda>(name, msg, text). record_key name msg = k) es)"

lemma of_key_simps [simp]: "of_key k [] = []"
  "of_key k ((name, msg, text) # es) = (if record_key name msg = k then (msg, text) # of_key k es else of_key k es)"
  by (simp_all add: of_key_def)

text \<open>
  C36 No log record vanishes (\<^verbatim>\<open>app.py\<close> \<open>_RateLimitFilter\<close>): of the records of a key, each has passed, or is counted in
  the number that the text of a later one shows after its format, or is still held.
\<close>

theorem every_record_is_counted:
  "length (filter (\<lambda>(now, name, msg). record_key name msg = k) rs) =
     (let (es, f) = passed rs (new_filter m) in
        length (of_key k es) + sum_list (map (\<lambda>(msg, text). number_read msg text) (of_key k es)) + dict_get_or (lg_held f) k 0)"
proof -
  have "length (filter (\<lambda>(now, name, msg). record_key name msg = k) rs) + dict_get_or (lg_held f) k 0 =
     length (of_key k (fst (passed rs f))) + sum_list (map (\<lambda>(msg, text). number_read msg text) (of_key k (fst (passed rs f))))
       + dict_get_or (lg_held (snd (passed rs f))) k 0" for f
  proof (induction rs f rule: passed.induct)
    case (2 now name msg rs f)
    obtain out f1 where o: "filter_record now name msg f = (out, f1)" by (cases "filter_record now name msg f")
    have held: "dict_get_or (lg_held f1) k 0 + (case out of None \<Rightarrow> 0 | Some t \<Rightarrow> if record_key name msg = k then Suc (number_read msg t) else 0)
        = dict_get_or (lg_held f) k 0 + (if record_key name msg = k then 1 else 0)"
      using o by (auto simp: filter_record_def dict_get_or_def Let_def number_read_noted split: if_splits)
    obtain es f2 where p: "passed rs f1 = (es, f2)" by (cases "passed rs f1")
    show ?case using 2 [OF o [symmetric]] held by (cases out) (auto simp: o p)
  qed simp
  from this [of "new_filter m"] show ?thesis by (simp add: new_filter_def dict_get_or_def split: prod.split)
qed

text \<open>Records are identical when they agree in the first eighty characters of their format.\<close>

lemma long_messages_are_taken_for_identical:
  assumes "length p = 80"
  shows "fst (filter_record 1 name (p @ t) (snd (filter_record 0 name (p @ u) (new_filter 60)))) = None"
  using assms by (simp add: filter_record_def record_key_def new_filter_def dict_get_or_def Let_def)

subsection \<open>Jobs that join the parts\<close>

text \<open>The daily profit snapshot.\<close>

definition agent_pnl_snapshot :: "(symbol \<Rightarrow> exn + decimal option) \<Rightarrow> date \<Rightarrow> ledger \<Rightarrow> oms_store \<Rightarrow> pnl_table \<Rightarrow> pnl_table" where
  "agent_pnl_snapshot closes today g st t = write_all today (compute_daily_pnl g st closes) t"

text \<open>A day written again takes the place of the rows of the same day and agents.\<close>

lemma write_all_rows:
  "distinct (map fst bs) \<Longrightarrow> write_all d bs t = filter (\<lambda>((day, a), _). \<not> (day = d \<and> a \<in> fst ` set bs)) t @ map (\<lambda>(a, b). ((d, a), b)) bs"
proof (induction bs arbitrary: t)
  case (Cons x bs)
  obtain a b where x: "x = (a, b)" by (cases x)
  have "write_all d (x # bs) t = write_all d bs (filter (\<lambda>(k, _). k \<noteq> (d, a)) t @ [((d, a), b)])"
    by (simp add: write_all_def upsert_snapshot_def x)
  then show ?case using Cons by (auto simp: x intro!: filter_cong)
qed (simp add: write_all_def case_prod_unfold)

lemma pnl_snapshot_again: "agent_pnl_snapshot closes d g st (agent_pnl_snapshot closes d g st t) = agent_pnl_snapshot closes d g st t"
proof -
  have "distinct (map fst (compute_daily_pnl g st closes))" by (simp add: compute_daily_pnl_def comp_def sleeve_agents_def)
  then show ?thesis by (auto simp: agent_pnl_snapshot_def write_all_rows filter_empty_conv intro!: filter_True)
      (metis fst_conv image_eqI)+
qed

text \<open>The morning brief, from the ledger, the VIX, the profit table and the news.\<close>

definition haiku_morning_synthesis ::
  "brief_env \<Rightarrow> (decimal list \<Rightarrow> decimal) \<Rightarrow> desk_env \<Rightarrow> (string \<Rightarrow> exn + string) \<Rightarrow> pnl_table \<Rightarrow> news_db \<Rightarrow> desk \<Rightarrow> desk" where
  "haiku_morning_synthesis benv summed env reply t db d =
     (case live_vix (ve_latest_vix env) (de_now (ve_dispatch env)) d of ((v, vb), d1) \<Rightarrow>
        d1\<lparr>dk_memory := snd (synthesize reply (synthesis_message benv summed (de_now (ve_dispatch env)) v (Some vb)
             (positions_from_lot_ledger (ap_lots (dk_app d1))) t db) (dk_memory d1))\<rparr>)"

text \<open>The Manager's context with the closes of SPY; the provider keeps its cache between the calls.\<close>

definition build_manager_ctx ::
  "'f arith \<Rightarrow> (datetime \<Rightarrow> datetime \<Rightarrow> exn + bar list) option \<Rightarrow> context_sources \<Rightarrow> snapshot_db \<Rightarrow> news_db \<Rightarrow> tracker \<times> spy_cache
    \<Rightarrow> 'f context_blocks \<times> tracker \<times> spy_cache" where
  "build_manager_ctx ar feed cs db news st = (case st of (t, c) \<Rightarrow>
     (case daily_closes feed (cs_now cs) 60 c of (closes, c') \<Rightarrow>
       (case build_manager_context ar (cs\<lparr>cs_spy := Some (Inr closes)\<rparr>) db news t of (x, t') \<Rightarrow> (x, t', c'))))"

text \<open>The reallocation after a start; \<open>view\<close> is the outcome of building the Manager's state. Exceptions are caught.\<close>

definition catch_up_reallocation ::
  "manager_env \<Rightarrow> exn + agent_view \<Rightarrow> exn + (string, jval) dict \<Rightarrow> manager_state \<Rightarrow> manager_state" where
  "catch_up_reallocation env view out st = (case view of
       Inl _ \<Rightarrow> st
     | Inr v \<Rightarrow> snd (run_capital_reallocation_if_due env (date_of (av_timestamp v)) out st))"

text \<open>One round of the volatility loop.\<close>

definition volatility_tick :: "desk_env \<Rightarrow> bool \<Rightarrow> (symbol \<Rightarrow> exn + bar list) \<Rightarrow> datetime \<Rightarrow> desk \<Rightarrow> desk" where
  "volatility_tick env macro bars now d = (if market_open now then snd (scan_volatility_once env macro bars d) else d)"

record shutdown_summary =
  sh_at :: datetime
  sh_kill :: kill_switch_state
  sh_spent :: decimal
  sh_alerts :: nat
  sh_open :: nat

definition shutdown_summary_of :: "datetime \<Rightarrow> nat \<Rightarrow> desk \<Rightarrow> shutdown_summary" where
  "shutdown_summary_of now sent d = \<lparr>sh_at = now, sh_kill = ks_state (ap_kill (dk_app d)), sh_spent = bl_total (dk_budget d),
     sh_alerts = sent, sh_open = length (list_open_orders (ap_oms (dk_app d)))\<rparr>"

end
