(* ===== verification/Reports.thy ===== *)
theory Reports
  imports Alerts News Signals
begin

text \<open>
  Texts for people: the messages of \<^verbatim>\<open>ops/telegram.py\<close> with their escaping, the portfolio status of \<^verbatim>\<open>app.py\<close>, and the
  summaries of \<^verbatim>\<open>data/summarize.py\<close>. Number and date formats, and the signs outside ASCII, are parameters.
\<close>

subsection \<open>Telegram's markup\<close>

definition backslash :: char where "backslash = CHR 0x5C"

definition md_special :: "char \<Rightarrow> bool" where
  "md_special c \<longleftrightarrow> c \<in> set (''_*[]()~`>#+-=|{}.!'' @ [backslash])"

definition escape_md :: "string \<Rightarrow> string" where
  "escape_md t = concat (map (\<lambda>c. if md_special c then [backslash, c] else [c]) t)"

definition max_message :: nat where "max_message = 4096"

definition truncate_message :: "char \<Rightarrow> string \<Rightarrow> string" where
  "truncate_message dots t = (if length t \<le> max_message then t else take (max_message - 1) t @ [dots])"

text \<open>
  What Telegram documents of a text without entities: a reserved character is refused unless a backslash precedes it,
  and a backslash stands before a character of code 1 to 126.
\<close>

fun read_md :: "string \<Rightarrow> string option" where
  "read_md [] = Some []"
| "read_md (c # t) =
     (if c = backslash
      then (case t of
          [] \<Rightarrow> None
        | d # u \<Rightarrow> if 1 \<le> (of_char d :: nat) \<and> (of_char d :: nat) \<le> 126 then map_option ((#) d) (read_md u) else None)
      else if md_special c then None
      else map_option ((#) c) (read_md t))"

lemma md_special_code: "md_special c \<Longrightarrow> 1 \<le> (of_char c :: nat) \<and> (of_char c :: nat) \<le> 126"
  by (auto simp: md_special_def backslash_def)

lemma read_md_escaped: "read_md (escape_md t @ u) = map_option ((@) t) (read_md u)"
proof (induction t)
  case (Cons c t)
  have "c \<noteq> backslash" if "\<not> md_special c" using that by (auto simp: md_special_def)
  then show ?case using Cons md_special_code [of c] by (simp add: escape_md_def option.map_comp comp_def)
qed (simp add: escape_md_def option.map_ident)

text \<open>
  Escaping (\<^verbatim>\<open>ops/telegram.py\<close> \<open>_escape\<close>): Telegram shows an escaped text exactly as it was.
\<close>

lemma escaped_text_is_shown: "read_md (escape_md t) = Some t"
  using read_md_escaped [of t "[]"] by simp

text \<open>A report that is sent as it is, a weekly journal with a full stop, say, is refused.\<close>

lemma read_md_append: "read_md (t @ c # u) = None" if "backslash \<notin> set t" "md_special c" "c \<noteq> backslash"
  using that by (induction t) auto

lemma unescaped_report_is_refused:
  assumes "backslash \<notin> set t" and "CHR ''.'' \<in> set t"
  shows "read_md t = None"
proof -
  from split_list [OF assms(2)] obtain a b where t: "t = a @ CHR ''.'' # b" by blast
  show ?thesis unfolding t by (rule read_md_append) (use assms(1) in \<open>auto simp: t md_special_def backslash_def\<close>)
qed

text \<open>A cut can leave half an escape at the end.\<close>

lemma cut_escape_is_refused:
  assumes "\<not> (of_char dots :: nat) \<le> 126" and "length (escape_md t) = 4094" and "md_special c"
  shows "read_md (truncate_message dots (escape_md (t @ [c] @ u @ ''more''))) = None"
proof -
  let ?rest = "concat (map (\<lambda>c. if md_special c then [backslash, c] else [c]) (u @ ''more''))"
  have e: "escape_md (t @ [c] @ u @ ''more'') = escape_md t @ backslash # c # ?rest" using assms(3) by (simp add: escape_md_def)
  have "truncate_message dots (escape_md (t @ [c] @ u @ ''more'')) = escape_md t @ [backslash, dots]"
    unfolding e truncate_message_def max_message_def using assms(2) by (simp add: md_special_def)
  then show ?thesis using assms(1) by (simp add: read_md_escaped)
qed

subsection \<open>Messages\<close>

text \<open>The keys of suppression; \<open>telegram_send\<close> takes the key of a message for its text.\<close>

definition send_fill_notification :: "bool \<Rightarrow> int \<Rightarrow> string \<Rightarrow> symbol \<Rightarrow> string \<Rightarrow> telegram \<Rightarrow> bool \<times> telegram" where
  "send_fill_notification arrives now agent s side = telegram_send arrives now (''fill:'' @ agent @ '':'' @ s @ '':'' @ py_lower side)"

definition send_portfolio_snapshot :: "bool \<Rightarrow> int \<Rightarrow> string \<Rightarrow> telegram \<Rightarrow> bool \<times> telegram" where
  "send_portfolio_snapshot arrives now hour = telegram_send arrives now (''portfolio:'' @ hour)"

definition send_weekly_report :: "bool \<Rightarrow> int \<Rightarrow> string \<Rightarrow> telegram \<Rightarrow> bool \<times> telegram" where
  "send_weekly_report arrives now day = telegram_send arrives now (''weekly:'' @ day)"

text \<open>The message is suppressed for the window of the adapter, a minute, and not for the day.\<close>

lemma weekly_report_goes_out_again:
  assumes "tg_enabled t" and "tg_window t = dedupe_window" and "\<not> suppressed dedupe_window now (tg_last t) (''weekly:'' @ day)"
  shows "fst (send_weekly_report True (now + 60 * 1000000) day (snd (send_weekly_report True now day t)))"
  using assms by (simp add: send_weekly_report_def telegram_send_def suppressed_def dedupe_window_def)

text \<open>The status of the portfolio: net asset value, cash, the state of the switch, and a line per position.\<close>

record portfolio_status =
  pt_nav :: decimal
  pt_cash :: decimal
  pt_status :: string
  pt_lines :: "(symbol \<times> decimal \<times> decimal) list"

definition portfolio_status_of :: "kill_switch_state \<Rightarrow> broker_account \<Rightarrow> broker_position list \<Rightarrow> portfolio_status" where
  "portfolio_status_of k acct ps = \<lparr>pt_nav = ba_equity acct, pt_cash = ba_cash acct,
     pt_status = (if k = OK then ''LIVE'' else ''HALTED ('' @ kill_state_str k @ '')''),
     pt_lines = map (\<lambda>p. (bp_symbol p, bp_qty p, bp_current_price p)) (sort_key bp_symbol ps)\<rparr>"

definition portfolio_snapshot ::
  "bool \<Rightarrow> int \<Rightarrow> string \<Rightarrow> kill_switch_state \<Rightarrow> exn + broker_account \<Rightarrow> exn + broker_position list \<Rightarrow> telegram
    \<Rightarrow> portfolio_status option \<times> telegram" where
  "portfolio_snapshot arrives now hour k acct ps t =
     (if \<not> tg_enabled t then (None, t)
      else (case bindr acct (\<lambda>a. bindr ps (\<lambda>p. Inr (portfolio_status_of k a p))) of
          Inl _ \<Rightarrow> (None, t)
        | Inr st \<Rightarrow> (Some st, snd (send_portfolio_snapshot arrives now hour t))))"

subsection \<open>Summaries\<close>

text \<open>\<open>fit\<close> takes blocks while they fit, and tells whether one did not.\<close>

fun fit :: "nat \<Rightarrow> nat \<Rightarrow> string list \<Rightarrow> string list \<times> bool" where
  "fit room used [] = ([], False)"
| "fit room used (b # bs) =
     (if room < used + length b then ([], True)
      else (case fit room (used + length b) bs of (cs, over) \<Rightarrow> (b # cs, over)))"

record summary_env =
  sy_bar :: "bar \<Rightarrow> string"
  sy_day :: "datetime \<Rightarrow> string"
  sy_dash :: string
  sy_sentiment :: "rat \<Rightarrow> string"

definition bars_header :: "nat \<Rightarrow> symbol \<Rightarrow> string" where
  "bars_header n s = ''=== '' @ s @ '' price history (last '' @ int_text (int n) @ '' bars) ==='' @ [newline]"

definition cut_mark :: string where "cut_mark = ''  ... (truncated)'' @ [newline]"

definition summarize_bars :: "summary_env \<Rightarrow> bar list \<Rightarrow> symbol \<Rightarrow> nat \<Rightarrow> string" where
  "summarize_bars env bs s room =
     (let h = bars_header (length bs) s in
      case fit room (length h) (map (\<lambda>b. sy_bar env b @ [newline]) (rev bs)) of (ls, over) \<Rightarrow>
        h @ concat ls @ (if over then cut_mark else []))"

definition news_header :: "nat \<Rightarrow> string" where
  "news_header n = ''=== News ('' @ int_text (int n) @ '' items) ==='' @ [newline]"

definition news_block_of :: "summary_env \<Rightarrow> nat \<times> news_item \<Rightarrow> string" where
  "news_block_of env x = (case x of (i, it) \<Rightarrow>
     ''  '' @ int_text (int i + 1) @ ''. ['' @ py_upper (source_text (ni_source it)) @ ''] '' @ sy_day env (ni_published it) @ '' ''
       @ sy_dash env @ '' '' @ ni_headline it
       @ (case ni_sentiment it of None \<Rightarrow> [] | Some v \<Rightarrow> '' (sentiment: '' @ sy_sentiment env v @ '')'') @ [newline]
     @ (case ni_summary it of None \<Rightarrow> [] | Some t \<Rightarrow> if t = [] then [] else ''     '' @ take 200 t @ [newline]))"

definition summarize_news :: "summary_env \<Rightarrow> news_item list \<Rightarrow> nat \<Rightarrow> string" where
  "summarize_news env its room =
     (let h = news_header (length its) in
      h @ concat (fst (fit room (length h) (map (news_block_of env) (enumerate 0 (sort_key (\<lambda>it. - ni_published it) its))))))"

definition build_market_brief :: "summary_env \<Rightarrow> (symbol, bar list) dict \<Rightarrow> news_item list \<Rightarrow> nat \<Rightarrow> string" where
  "build_market_brief env bars its room =
     (let syms = sort (map fst bars); share = room * 6 div 10 div (if syms = [] then 1 else length syms) in
      join_text [newline] (map (\<lambda>s. summarize_bars env (dict_get_or bars s []) s share) syms) @ [newline]
      @ summarize_news env its (room * 4 div 10))"

lemma fit_room: "used + length (concat (fst (fit room used bs))) \<le> max used room"
  by (induction room used bs rule: fit.induct) (auto split: prod.split)

lemma bars_room: "length (summarize_bars env bs s room) \<le> max (length (bars_header (length bs) s)) room + length cut_mark"
  using fit_room [of "length (bars_header (length bs) s)" room "map (\<lambda>b. sy_bar env b @ [newline]) (rev bs)"]
  by (auto simp: summarize_bars_def Let_def split: prod.split)

lemma news_room: "length (summarize_news env its room) \<le> max (length (news_header (length its))) room"
  using fit_room [of "length (news_header (length its))" room] by (simp add: summarize_news_def Let_def)

lemma joined_length: "length (join_text [c] ws) \<le> length (concat ws) + length ws"
  by (induction "[c]" ws rule: join_text.induct) auto

text \<open>
  The length of a market brief (\<^verbatim>\<open>data/summarize.py\<close>): it exceeds its limit by at most the headers, and for
  each symbol the mark of truncation and a line break.
\<close>

lemma brief_length:
  "length (build_market_brief env bars its room) \<le>
     room + sum_list (map (\<lambda>s. length (bars_header (length (dict_get_or bars s [])) s)) (map fst bars))
       + length (news_header (length its)) + length bars * 20 + 1"
proof -
  define syms where "syms = sort (map fst bars)"
  define share where "share = room * 6 div 10 div (if syms = [] then 1 else length syms)"
  let ?h = "\<lambda>s. length (bars_header (length (dict_get_or bars s [])) s)"
  let ?w = "\<lambda>s. summarize_bars env (dict_get_or bars s []) s share"
  have w: "length (?w s) \<le> ?h s + share + 19" for s
    using bars_room [of env "dict_get_or bars s []" s share] by (simp add: cut_mark_def)
  have "length (concat (map ?w ss)) \<le> sum_list (map ?h ss) + length ss * (share + 19)" for ss
  proof (induction ss)
    case (Cons s ss)
    then show ?case using w [of s] by simp
  qed simp
  from this [of syms] joined_length [of newline "map ?w syms"]
  have "length (join_text [newline] (map ?w syms)) \<le> sum_list (map ?h syms) + length syms * share + length syms * 20"
    by (simp add: algebra_simps)
  moreover have "length syms * share \<le> room * 6 div 10"
    by (cases "syms = []") (simp_all only: share_def if_True if_False list.size mult_zero_left le0 times_div_less_eq_dividend)
  moreover have "sum_list (map ?h syms) = sum_list (map ?h (map fst bars))"
    unfolding sum_mset_sum_list [symmetric] mset_map syms_def mset_sort ..
  moreover have "length syms = length bars" by (simp add: syms_def)
  ultimately have "length (join_text [newline] (map ?w syms)) \<le> sum_list (map ?h (map fst bars)) + room * 6 div 10 + length bars * 20"
    by simp
  moreover have "room * 6 div 10 + room * 4 div 10 \<le> room" by linarith
  moreover have "length (summarize_news env its (room * 4 div 10)) \<le> length (news_header (length its)) + room * 4 div 10"
    using news_room [of env its "room * 4 div 10"] by simp
  ultimately show ?thesis
    unfolding build_market_brief_def Let_def syms_def [symmetric] share_def [symmetric] by simp
qed

end
