(* ===== verification/Market.thy ===== *)
theory Market
  imports Bar_Cache
begin

text \<open>
  The market-data feeds of \<^verbatim>\<open>data/market.py\<close> over arbitrary clients. Alpaca's client answers with bars by symbol; Yahoo's
  with frames whose cells can be not-a-number, here \<open>None\<close>, so that Yahoo's bars have optional prices.
\<close>

subsection \<open>Quotes\<close>

record quote =
  qt_symbol :: symbol
  qt_timestamp :: datetime
  qt_bid :: decimal
  qt_ask :: decimal
  qt_bid_size :: int
  qt_ask_size :: int

definition quote_mid :: "quote \<Rightarrow> decimal" where
  "quote_mid q = ddiv (dadd (qt_bid q) (qt_ask q)) 2"

subsection \<open>Alpaca\<close>

record raw_bar =
  rb_ts :: datetime
  rb_open :: decimal
  rb_high :: decimal
  rb_low :: decimal
  rb_close :: decimal
  rb_volume :: int
  rb_vwap :: "decimal option"

definition to_bar :: "symbol \<Rightarrow> raw_bar \<Rightarrow> bar" where
  "to_bar s r = \<lparr>b_symbol = s, b_timestamp = rb_ts r, b_open = rb_open r, b_high = rb_high r, b_low = rb_low r,
     b_close = rb_close r, b_volume = rb_volume r, b_vwap = rb_vwap r\<rparr>"

type_synonym bars_client = "symbol list \<Rightarrow> datetime \<Rightarrow> datetime \<Rightarrow> timeframe \<Rightarrow> exn + (symbol, raw_bar list) dict"

definition alpaca_bars :: "bars_client \<Rightarrow> symbol \<Rightarrow> datetime \<Rightarrow> datetime \<Rightarrow> timeframe \<Rightarrow> exn + bar list" where
  "alpaca_bars client s start till tf =
     bindr (client [s] start till tf) (\<lambda>d. Inr (map (to_bar s) (dict_get_or d s [])))"

definition alpaca_batch :: "bars_client \<Rightarrow> symbol list \<Rightarrow> datetime \<Rightarrow> datetime \<Rightarrow> timeframe \<Rightarrow> exn + bars" where
  "alpaca_batch client symbols start till tf =
     (if symbols = [] then Inr []
      else bindr (client symbols start till tf) (\<lambda>d.
        Inr (foldl (\<lambda>out s. dict_set s (map (to_bar s) (dict_get_or d s [])) out) [] symbols)))"

definition alpaca_latest_bar :: "(symbol \<Rightarrow> exn + (symbol, raw_bar) dict) \<Rightarrow> symbol \<Rightarrow> exn + bar option" where
  "alpaca_latest_bar client s = bindr (client s) (\<lambda>d. Inr (map_option (to_bar s) (dict_get d s)))"

record raw_quote =
  rq_ts :: datetime
  rq_bid :: decimal
  rq_ask :: decimal
  rq_bid_size :: int
  rq_ask_size :: int

definition to_quote :: "symbol \<Rightarrow> raw_quote \<Rightarrow> quote" where
  "to_quote s r = \<lparr>qt_symbol = s, qt_timestamp = rq_ts r, qt_bid = rq_bid r, qt_ask = rq_ask r,
     qt_bid_size = rq_bid_size r, qt_ask_size = rq_ask_size r\<rparr>"

definition alpaca_latest_quote :: "(symbol \<Rightarrow> exn + (symbol, raw_quote) dict) \<Rightarrow> symbol \<Rightarrow> exn + quote option" where
  "alpaca_latest_quote client s = bindr (client s) (\<lambda>d. Inr (map_option (to_quote s) (dict_get d s)))"

definition alpaca_snapshots :: "(symbol list \<Rightarrow> exn + (symbol, raw_bar option) dict) \<Rightarrow> symbol list \<Rightarrow> exn + (symbol, bar) dict" where
  "alpaca_snapshots client symbols = bindr (client symbols) (\<lambda>d.
     Inr (foldl (\<lambda>out (s, daily). case daily of None \<Rightarrow> out | Some r \<Rightarrow> dict_set s (to_bar s r) out) [] d))"

subsection \<open>Yahoo\<close>

record yahoo_cell =
  yc_ts :: datetime
  yc_open :: "decimal option"
  yc_high :: "decimal option"
  yc_low :: "decimal option"
  yc_close :: "decimal option"
  yc_volume :: "int option"

record yahoo_bar =
  yb_symbol :: symbol
  yb_timestamp :: datetime
  yb_open :: "decimal option"
  yb_high :: "decimal option"
  yb_low :: "decimal option"
  yb_close :: "decimal option"
  yb_volume :: int

definition yahoo_bar_of :: "symbol \<Rightarrow> yahoo_cell \<Rightarrow> yahoo_bar" where
  "yahoo_bar_of s c = \<lparr>yb_symbol = s, yb_timestamp = yc_ts c, yb_open = yc_open c, yb_high = yc_high c, yb_low = yc_low c,
     yb_close = yc_close c, yb_volume = (case yc_volume c of None \<Rightarrow> 0 | Some v \<Rightarrow> v)\<rparr>"

text \<open>The test for a gap in the batch looks at the opening and the closing price.\<close>

definition has_prices :: "yahoo_bar \<Rightarrow> bool" where
  "has_prices b \<longleftrightarrow> yb_open b \<noteq> None \<and> yb_close b \<noteq> None"

definition yahoo_crypto_map :: "(symbol, symbol) dict" where
  "yahoo_crypto_map = [(''BTCUSD'', ''BTC-USD''), (''ETHUSD'', ''ETH-USD''), (''SOLUSD'', ''SOL-USD'')]"

definition alpaca_crypto_map :: "(symbol, symbol) dict" where
  "alpaca_crypto_map = [(''BTCUSD'', ''BTC/USD''), (''ETHUSD'', ''ETH/USD''), (''SOLUSD'', ''SOL/USD'')]"

definition yf_symbol :: "symbol \<Rightarrow> symbol" where
  "yf_symbol s = dict_get_or yahoo_crypto_map s s"

definition is_crypto_pair :: "symbol \<Rightarrow> bool" where
  "is_crypto_pair s \<longleftrightarrow> dict_get alpaca_crypto_map s \<noteq> None"

text \<open>Crypto bars come from Alpaca's client when there is one; a failure is an empty answer.\<close>

type_synonym crypto_client = "symbol \<Rightarrow> datetime \<Rightarrow> datetime \<Rightarrow> exn + (symbol, raw_bar list) dict"

definition crypto_bar_of :: "symbol \<Rightarrow> raw_bar \<Rightarrow> yahoo_bar" where
  "crypto_bar_of s r = \<lparr>yb_symbol = s, yb_timestamp = rb_ts r, yb_open = Some (rb_open r), yb_high = Some (rb_high r),
     yb_low = Some (rb_low r), yb_close = Some (rb_close r), yb_volume = rb_volume r\<rparr>"

definition alpaca_crypto_bars :: "crypto_client option \<Rightarrow> symbol \<Rightarrow> datetime \<Rightarrow> datetime \<Rightarrow> yahoo_bar list" where
  "alpaca_crypto_bars crypto s start till = (case (crypto, dict_get alpaca_crypto_map s) of
       (Some client, Some pair) \<Rightarrow> (case client pair start till of
           Inl _ \<Rightarrow> []
         | Inr d \<Rightarrow> map (crypto_bar_of s) (dict_get_or d pair []))
     | _ \<Rightarrow> [])"

type_synonym history = "symbol \<Rightarrow> datetime \<Rightarrow> datetime \<Rightarrow> exn + yahoo_cell list"

definition yahoo_bars :: "crypto_client option \<Rightarrow> history \<Rightarrow> symbol \<Rightarrow> datetime \<Rightarrow> datetime \<Rightarrow> exn + yahoo_bar list" where
  "yahoo_bars crypto hist s start till =
     (let crypto_bars = (if is_crypto_pair s then alpaca_crypto_bars crypto s start till else []) in
      if crypto_bars \<noteq> [] then Inr crypto_bars
      else bindr (hist (yf_symbol s) start till) (\<lambda>cs. Inr (map (yahoo_bar_of s) cs)))"

text \<open>
  A frame of the batch call is flat or has a column group per ticker. Reading a flat one by ticker is a \<^verbatim>\<open>KeyError\<close>, and
  so is reading a price from a row of a grouped one, which skips the row.
\<close>

datatype frame = Flat "yahoo_cell list" | By_Ticker "(symbol, yahoo_cell list) dict"

definition frame_rows :: "bool \<Rightarrow> frame \<Rightarrow> symbol \<Rightarrow> yahoo_cell list" where
  "frame_rows single f t = (case f of
       Flat rows \<Rightarrow> if single then rows else []
     | By_Ticker d \<Rightarrow> if single then [] else dict_get_or d t [])"

type_synonym download = "symbol list \<Rightarrow> datetime \<Rightarrow> datetime \<Rightarrow> exn + frame option"

definition tickers_of :: "symbol list \<Rightarrow> (symbol, symbol) dict" where
  "tickers_of symbols = foldl (\<lambda>d s. dict_set (yf_symbol s) s d) [] symbols"

definition put_ticker :: "bool \<Rightarrow> frame \<Rightarrow> (symbol, yahoo_bar list) dict \<Rightarrow> symbol \<times> symbol \<Rightarrow> (symbol, yahoo_bar list) dict" where
  "put_ticker single f out x = (case x of (t, s) \<Rightarrow>
     (let bs = filter has_prices (map (yahoo_bar_of s) (frame_rows single f t)) in if bs = [] then out else dict_set s bs out))"

definition put_crypto :: "crypto_client option \<Rightarrow> datetime \<Rightarrow> datetime \<Rightarrow> (symbol, yahoo_bar list) dict \<Rightarrow> symbol \<Rightarrow> (symbol, yahoo_bar list) dict" where
  "put_crypto crypto start till out s =
     (let bs = (if is_crypto_pair s then alpaca_crypto_bars crypto s start till else []) in if bs = [] then out else dict_set s bs out)"

definition left_to_yahoo :: "crypto_client option \<Rightarrow> datetime \<Rightarrow> datetime \<Rightarrow> symbol list \<Rightarrow> symbol list" where
  "left_to_yahoo crypto start till symbols =
     filter (\<lambda>s. \<not> (is_crypto_pair s \<and> alpaca_crypto_bars crypto s start till \<noteq> [])) symbols"

definition yahoo_batch ::
  "crypto_client option \<Rightarrow> download \<Rightarrow> symbol list \<Rightarrow> datetime \<Rightarrow> datetime \<Rightarrow> exn + (symbol, yahoo_bar list) dict" where
  "yahoo_batch crypto dl symbols start till =
     (let out = foldl (put_crypto crypto start till) (foldl (\<lambda>d s. dict_set s [] d) [] symbols) symbols;
          rest = left_to_yahoo crypto start till symbols;
          tickers = tickers_of rest
      in if rest = [] then Inr out
         else bindr (dl (map fst tickers) start till) (\<lambda>f. Inr (case f of
           None \<Rightarrow> out
         | Some fr \<Rightarrow> foldl (put_ticker (length tickers = 1) fr) out tickers)))"

definition yahoo_latest_bar ::
  "crypto_client option \<Rightarrow> (symbol \<Rightarrow> exn + yahoo_cell list) \<Rightarrow> datetime \<Rightarrow> symbol \<Rightarrow> exn + yahoo_bar option" where
  "yahoo_latest_bar crypto recent now s =
     (let crypto_bars = (if is_crypto_pair s then alpaca_crypto_bars crypto s (now - 5 * us_per_day) now else []) in
      if crypto_bars \<noteq> [] then Inr (Some (last crypto_bars))
      else bindr (recent (yf_symbol s)) (\<lambda>cs. Inr (if cs = [] then None else Some (yahoo_bar_of s (last cs)))))"

text \<open>A quote of Yahoo's has the last close on both sides.\<close>

definition yahoo_latest_quote ::
  "crypto_client option \<Rightarrow> (symbol \<Rightarrow> exn + yahoo_cell list) \<Rightarrow> datetime \<Rightarrow> symbol \<Rightarrow> exn + (datetime \<times> decimal option \<times> decimal option) option" where
  "yahoo_latest_quote crypto recent now s =
     bindr (yahoo_latest_bar crypto recent now s) (\<lambda>b. Inr (map_option (\<lambda>b. (yb_timestamp b, yb_close b, yb_close b)) b))"

fun yahoo_snapshots_from ::
  "crypto_client option \<Rightarrow> (symbol \<Rightarrow> exn + yahoo_cell list) \<Rightarrow> datetime \<Rightarrow> (symbol, yahoo_bar) dict \<Rightarrow> symbol list \<Rightarrow>
   exn + (symbol, yahoo_bar) dict" where
  "yahoo_snapshots_from crypto recent now out [] = Inr out"
| "yahoo_snapshots_from crypto recent now out (s # ss) =
     bindr (yahoo_latest_bar crypto recent now s) (\<lambda>b.
       yahoo_snapshots_from crypto recent now (case b of None \<Rightarrow> out | Some x \<Rightarrow> dict_set s x out) ss)"

definition yahoo_snapshots ::
  "crypto_client option \<Rightarrow> (symbol \<Rightarrow> exn + yahoo_cell list) \<Rightarrow> datetime \<Rightarrow> symbol list \<Rightarrow> exn + (symbol, yahoo_bar) dict" where
  "yahoo_snapshots crypto recent now symbols = yahoo_snapshots_from crypto recent now [] symbols"

subsection \<open>The batch against the single call\<close>









text \<open>
  What the documentation of the download promises with its columns grouped by ticker: a column group for each ticker, for one
  ticker as for several, over the times at which any of them has a row. So a ticker's rows are those of the single call among
  rows without prices.
\<close>

definition priced :: "yahoo_cell \<Rightarrow> bool" where
  "priced c \<longleftrightarrow> yc_open c \<noteq> None \<and> yc_close c \<noteq> None"

definition grouped :: "(symbol list \<Rightarrow> symbol \<Rightarrow> yahoo_cell list) \<Rightarrow> symbol list \<Rightarrow> frame" where
  "grouped joint ts = By_Ticker (map (\<lambda>t. (t, joint ts t)) ts)"

lemma has_prices_bar [simp]: "has_prices (yahoo_bar_of s c) = priced c"
  by (simp add: has_prices_def priced_def yahoo_bar_of_def)





definition spy_rows :: "symbol \<Rightarrow> yahoo_cell list" where
  "spy_rows t = (if t = ''SPY'' then
       [\<lparr>yc_ts = 1, yc_open = Some 500, yc_high = Some 505, yc_low = Some 499, yc_close = Some 503, yc_volume = Some 9\<rparr>,
        \<lparr>yc_ts = 2, yc_open = None, yc_high = None, yc_low = None, yc_close = None, yc_volume = None\<rparr>] else [])"


text \<open>The single call keeps the rows without prices.\<close>

lemma single_call_keeps_gaps:
  "map_sum id (map yb_close) (yahoo_bars None (\<lambda>t a b. Inr (spy_rows t)) ''SPY'' 0 9) = (Inr [Some 503, None] :: exn + decimal option list)"
  by (simp add: yahoo_bars_def is_crypto_pair_def alpaca_crypto_map_def yf_symbol_def yahoo_crypto_map_def dict_get_or_def
      spy_rows_def yahoo_bar_of_def)

text \<open>So a batch of one equity has no bars for it.\<close>

lemma lone_equity_is_lost:
  assumes "\<not> is_crypto_pair s" and "\<And>ts. dl ts start till = Inr (Some (grouped joint ts))"
  shows "yahoo_batch crypto dl [s] start till = Inr [(s, [])]"
  using assms by (simp add: yahoo_batch_def left_to_yahoo_def tickers_of_def put_crypto_def put_ticker_def grouped_def frame_rows_def)

text \<open>A symbol that appears in the bars of an Alpaca batch was asked for, and no symbol asked for is missing.\<close>

lemma alpaca_batch_keys:
  assumes "alpaca_batch client symbols start till tf = Inr out"
  shows "fst ` set out = set symbols"
proof -
  have "fst ` set (foldl (\<lambda>out s. dict_set s (f s) out) acc symbols) = fst ` set acc \<union> set symbols"
    for f :: "symbol \<Rightarrow> bar list" and acc
    by (induction symbols arbitrary: acc) auto
  note keys = this
  from assms consider "symbols = []" "out = []"
    | d where "out = foldl (\<lambda>out s. dict_set s (map (to_bar s) (dict_get_or d s [])) out) [] symbols"
    by (auto simp: alpaca_batch_def bindr_Inr_iff split: if_splits)
  then show ?thesis by cases (simp_all only: keys, simp_all)
qed

end
