(* ===== verification/Server.thy ===== *)
theory Server
  imports Dashboard View
begin

text \<open>
  The JSON endpoints of \<^verbatim>\<open>dashboard/server.py\<close> over the data adapter of \<open>Dashboard\<close>, and the scores of
  \<^verbatim>\<open>agents/calibration.py\<close> they show. A floating-point number is a value of the parameter \<open>ar\<close>; \<open>fa_of\<close> is \<^verbatim>\<open>float\<close>
  of a decimal. The pages (HTML, CSS, JavaScript) are not modelled.
\<close>

subsection \<open>Calibration scores\<close>

definition outcome_score :: "string \<Rightarrow> rat" where
  "outcome_score s = (if s = ''win'' then 1 else if s = ''loss'' then 0 else 1 / 2)"

definition brier_term :: "'f arith \<Rightarrow> cal_row \<Rightarrow> 'f" where
  "brier_term ar r = fa_pow ar (fa_sub ar (fa_div ar (fa_num ar (of_int (cr_conviction r))) (fa_num ar 10))
     (fa_num ar (outcome_score (cr_outcome r)))) (fa_num ar 2)"

definition calibration_of :: "string option \<Rightarrow> cal_row list \<Rightarrow> cal_row list" where
  "calibration_of agent rows = filter (\<lambda>r. agent = None \<or> agent = Some (cr_agent r)) rows"

definition brier_score :: "'f arith \<Rightarrow> string option \<Rightarrow> cal_row list \<Rightarrow> 'f" where
  "brier_score ar agent rows = (let mine = calibration_of agent rows in
     if mine = [] then fa_num ar 0 else fa_div ar (fa_sum ar (map (brier_term ar) mine)) (fa_num ar (of_nat (length mine))))"

record 'f calibration_line =
  cb_bucket :: string
  cb_n :: nat
  cb_win_rate :: "'f option"
  cb_brier :: "'f option"

definition calibration_line_of :: "'f arith \<Rightarrow> string \<Rightarrow> cal_row list \<Rightarrow> 'f calibration_line" where
  "calibration_line_of ar b xs = (let n = fa_num ar (of_nat (length xs)) in
     \<lparr>cb_bucket = b, cb_n = length xs,
      cb_win_rate = (if xs = [] then None
        else Some (fa_div ar (fa_num ar (of_nat (length (filter (\<lambda>r. cr_outcome r = ''win'') xs)))) n)),
      cb_brier = (if xs = [] then None else Some (fa_div ar (fa_sum ar (map (brier_term ar) xs)) n))\<rparr>)"

definition calibration_table :: "'f arith \<Rightarrow> string option \<Rightarrow> cal_row list \<Rightarrow> 'f calibration_line list" where
  "calibration_table ar agent rows =
     map (\<lambda>b. calibration_line_of ar b (filter (\<lambda>r. bucket_of (cr_conviction r) = b) (calibration_of agent rows)))
       [''low (1-3)'', ''medium (4-6)'', ''high (7-10)'']"

subsection \<open>The snapshot\<close>

record 'f agent_summary =
  as_agent :: agent_id
  as_model :: string
  as_intents :: "intent_view list"
  as_brier :: 'f
  as_table :: "'f calibration_line list"

definition agent_summary_of ::
  "'f arith \<Rightarrow> agent_id list \<Rightarrow> agent_id \<Rightarrow> nat \<Rightarrow> memory_db \<Rightarrow> cal_row list option \<Rightarrow> 'f agent_summary" where
  "agent_summary_of ar mems a n m cal = \<lparr>as_agent = a, as_model = agent_model a, as_intents = agent_intents mems a n m,
     as_brier = (case cal of None \<Rightarrow> fa_num ar 0 | Some rows \<Rightarrow> brier_score ar (Some (agent_str a)) rows),
     as_table = (case cal of None \<Rightarrow> [] | Some rows \<Rightarrow> calibration_table ar (Some (agent_str a)) rows)\<rparr>"

record 'f agent_json =
  aj_agent :: agent_id
  aj_model :: string
  aj_brier :: 'f
  aj_intents :: "intent_view list"
  aj_performance :: "'f performance"
  aj_equity_live :: "'f option"
  aj_drawdown :: "('f \<times> dash_bucket) option"

record 'f position_json =
  pj_symbol :: symbol
  pj_qty :: 'f
  pj_side :: string
  pj_value :: 'f
  pj_unrealized :: "'f option"

definition latest_equity :: "'f arith \<Rightarrow> snapshot_db \<Rightarrow> (agent_id, 'f) dict" where
  "latest_equity ar db = foldl (\<lambda>d (_, a, q). dict_set a (fa_of ar q) d) [] (sleeve_curves db)"

definition agent_json_of ::
  "'f arith \<Rightarrow> (nat \<Rightarrow> nat \<Rightarrow> nat) \<Rightarrow> agent_id list \<Rightarrow> datetime \<Rightarrow> memory_db \<Rightarrow> cal_row list option \<Rightarrow> snapshot_db \<Rightarrow> agent_id \<Rightarrow> 'f agent_json" where
  "agent_json_of ar rounded mems now m cal db a =
     (let s = agent_summary_of ar mems a 3 m cal in
      \<lparr>aj_agent = as_agent s, aj_model = as_model s, aj_brier = as_brier s, aj_intents = as_intents s,
       aj_performance = agent_performance ar rounded a now db cal, aj_equity_live = dict_get (latest_equity ar db) a,
       aj_drawdown = dict_get (rev (map (\<lambda>(x, dd, b). (x, (dd, b))) (drawdown_status ar db))) a\<rparr>)"

definition position_json_of :: "'f arith \<Rightarrow> position_row \<Rightarrow> 'f position_json" where
  "position_json_of ar p = \<lparr>pj_symbol = pr_symbol p, pj_qty = fa_of ar (pr_qty p), pj_side = pr_side p,
     pj_value = fa_of ar (pr_value p), pj_unrealized = Some (fa_of ar (pr_unrealized p))\<rparr>"

definition agent_position_json :: "'f arith \<Rightarrow> dash_position \<Rightarrow> 'f position_json" where
  "agent_position_json ar p = \<lparr>pj_symbol = dp_symbol p, pj_qty = fa_of ar (dp_qty p), pj_side = ''long'',
     pj_value = fa_of ar (dp_value p), pj_unrealized = map_option (fa_of ar) (dp_unrealized p)\<rparr>"

record 'f snapshot_json =
  sj_top :: "'f top_strip_view"
  sj_agents :: "'f agent_json list"
  sj_positions :: "'f position_json list"
  sj_by_agent :: "(agent_id, 'f position_json list) dict"
  sj_spend :: spend_view

text \<open>The numbers of the top strip and of the spend are shown as floats; they are left decimals here.\<close>

definition snapshot_endpoint ::
  "'f arith \<Rightarrow> ('f \<Rightarrow> decimal) \<Rightarrow> (nat \<Rightarrow> nat \<Rightarrow> nat) \<Rightarrow> dash_static \<Rightarrow> (exn + live_values) option \<Rightarrow> decimal \<Rightarrow> budget_ledger option \<Rightarrow>
   agent_id list \<Rightarrow> memory_db \<Rightarrow> cal_row list option \<Rightarrow> lot list \<Rightarrow> snapshot_db \<Rightarrow> datetime \<Rightarrow> 'f snapshot_json" where
  "snapshot_endpoint ar dec_of rounded st live part budget mems m cal ls db now =
     \<lparr>sj_top = top_strip ar st live budget now db,
      sj_agents = map (agent_json_of ar rounded mems now m cal db) [HAIKU, SONNET, OPUS, MANAGER],
      sj_positions = map (position_json_of ar) (current_positions db),
      sj_by_agent = map (\<lambda>(a, ps). (a, map (agent_position_json ar) ps)) (positions_by_agent dec_of ar ls db),
      sj_spend = spend_breakdown part budget\<rparr>"

subsection \<open>The net asset value against SPY\<close>

record 'f nav_json =
  nj_nav :: "(datetime \<times> 'f) list"
  nj_spy :: "(date \<times> 'f) list"
  nj_nav_today :: "'f option"
  nj_spy_today :: "'f option"

definition nav_points :: "'f arith \<Rightarrow> snapshot_db \<Rightarrow> (datetime \<times> 'f) list" where
  "nav_points ar db = List.map_filter (\<lambda>(t, v). map_option (\<lambda>d. (t, fa_of ar d)) v) (nav_curve db)"

definition spy_line :: "'f arith \<Rightarrow> (datetime \<times> 'f) list \<Rightarrow> (date \<times> decimal) list \<Rightarrow> (date \<times> 'f) list" where
  "spy_line ar nav closes =
     (if nav = [] then []
      else (let xs = filter (\<lambda>(d, _). date_of (fst (hd nav)) \<le> d) closes in
        (case xs of
           [] \<Rightarrow> []
         | (_, c0) # _ \<Rightarrow> if fa_zero ar (fa_of ar c0) then []
             else map (\<lambda>(d, c). (d, fa_mul ar (fa_div ar (fa_of ar c) (fa_of ar c0)) (snd (hd nav)))) xs)))"

definition float_growth :: "'f arith \<Rightarrow> 'f \<Rightarrow> 'f \<Rightarrow> 'f option" where
  "float_growth ar x y = (if fa_zero ar x then None else Some (fa_div ar (fa_sub ar y x) x))"

definition spy_today :: "'f arith \<Rightarrow> (datetime \<times> 'f) list \<Rightarrow> (date \<times> decimal) list \<Rightarrow> 'f option" where
  "spy_today ar nav closes =
     (if nav = [] \<or> length closes < 2 then None
      else float_growth ar (fa_of ar (snd (closes ! (length closes - 2)))) (fa_of ar (snd (last closes))))"

definition nav_today :: "'f arith \<Rightarrow> (datetime \<times> 'f) list \<Rightarrow> 'f option" where
  "nav_today ar nav =
     (if nav = [] then None
      else (let pts = filter (\<lambda>(t, _). date_of t = date_of (fst (last nav))) nav in
        if 2 \<le> length pts then float_growth ar (snd (hd pts)) (snd (last pts)) else Some (fa_num ar 0)))"

definition nav_endpoint :: "'f arith \<Rightarrow> (date \<times> decimal) list \<Rightarrow> snapshot_db \<Rightarrow> 'f nav_json" where
  "nav_endpoint ar closes db = (let nav = nav_points ar db in
     \<lparr>nj_nav = nav, nj_spy = spy_line ar nav closes, nj_nav_today = nav_today ar nav, nj_spy_today = spy_today ar nav closes\<rparr>)"

definition sleeve_endpoint :: "'f arith \<Rightarrow> snapshot_db \<Rightarrow> (agent_id, (datetime \<times> 'f) list) dict" where
  "sleeve_endpoint ar db =
     foldl (\<lambda>d (t, a, q). dict_set a (dict_get_or d a [] @ [(t, fa_of ar q)]) d) [] (sleeve_curves db)"

subsection \<open>Activity\<close>

datatype activity = Fill_Row fill_view | Intent_Row intent_view

fun activity_ts :: "activity \<Rightarrow> datetime" where
  "activity_ts (Fill_Row f) = fv_ts f"
| "activity_ts (Intent_Row i) = iv_ts i"

definition merge_activity :: "fill_view list \<Rightarrow> intent_view list \<Rightarrow> activity list" where
  "merge_activity fs js = take 80 (sort_key (\<lambda>x. - activity_ts x) (map Fill_Row fs @ map Intent_Row js))"

definition activity_endpoint :: "oms_store \<Rightarrow> agent_id list \<Rightarrow> memory_db \<Rightarrow> exn + activity list" where
  "activity_endpoint st mems m =
     bindr (recent_fills st mems 50 m) (\<lambda>fs. Inr (merge_activity fs (recent_intents mems 50 m)))"

subsection \<open>Profit and loss\<close>

text \<open>\<open>arg\<close> is what \<^verbatim>\<open>int\<close> makes of the request's \<^verbatim>\<open>limit\<close>.\<close>

definition pnl_limit :: "int option \<Rightarrow> nat" where
  "pnl_limit arg = nat (max 1 (min (case arg of None \<Rightarrow> 10 | Some n \<Rightarrow> n) 60))"

definition pnl_endpoint :: "int option \<Rightarrow> pnl_table \<Rightarrow> ((date \<times> agent_id) \<times> pnl_breakdown) list" where
  "pnl_endpoint arg t = agent_pnl_recent (pnl_limit arg) t"

subsection \<open>The one write\<close>

text \<open>\<open>value\<close> is the decimal of the text of the body's value, if it has one. The answer is the status and the value in force.\<close>

definition post_capability :: "bool \<Rightarrow> bool \<Rightarrow> decimal option \<Rightarrow> runtime_store \<Rightarrow> (nat \<times> decimal option) \<times> runtime_store" where
  "post_capability override writes value r = (case value of
       None \<Rightarrow> ((400, None), r)
     | Some v \<Rightarrow> (let r' = set_master_capability override writes v r in ((200, Some (rs_mc r')), r')))"

subsection \<open>What is shown\<close>

lemma all_or_error_take: "all_or_error rs = Inr xs \<Longrightarrow> all_or_error (take n rs) = Inr (take n xs)"
proof (induction rs arbitrary: xs n)
  case (Cons r rs)
  then show ?case by (cases n) (auto simp: bindr_Inr_iff)
qed simp

lemma newest_fills:
  assumes "readable st" and "recent_fills st mems (length st) m = Inr F"
  shows "recent_fills st mems n m = Inr (take n F)"
proof -
  have len: "length (filter P (iter_all st)) \<le> length st" for P
    using iter_all_length [OF assms(1)] length_filter_le [of P "iter_all st"] by simp
  have "recent_by_kind FILL_RECEIVED n st = take n (recent_by_kind FILL_RECEIVED (length st) st)"
    using len by (simp add: recent_by_kind_filter [OF assms(1)])
  then show ?thesis
    using all_or_error_take assms(2) by (simp add: recent_fills_def take_map [symmetric])
qed

text \<open>
  C38 The activity list begins with the newest (\<^verbatim>\<open>dashboard/server.py\<close> \<open>activity\<close>). Of a log that can be read,
  whose fills are \<open>F\<close>, the last logged first: asking the log for fifty fills and each memory for fifty intents only, the
  dashboard shows first the fifty latest of the fifty fills logged last and of all the intents of all the agents; and where the
  fills are logged in the order of their times, the fifty latest of all the fills and all the intents. Entries may have the same
  time, as the intents of one observation do: then fills stand before intents, and each kind in the order in which it is listed.
\<close>

theorem activity_begins_with_the_newest:
  assumes "readable st" and "recent_fills st mems (length st) m = Inr F"
  shows "bindr (activity_endpoint st mems m) (\<lambda>rows. Inr (take 50 rows)) =
      Inr (take 50 (sort_key (\<lambda>x. - activity_ts x) (map Fill_Row (take 50 F) @ map Intent_Row (all_intents mems m)))) \<and>
    (sorted (map (\<lambda>f. - fv_ts f) F) \<longrightarrow>
      bindr (activity_endpoint st mems m) (\<lambda>rows. Inr (take 50 rows)) =
      Inr (take 50 (sort_key (\<lambda>x. - activity_ts x) (map Fill_Row F @ map Intent_Row (all_intents mems m)))))"
proof -
  let ?k = "\<lambda>x. - activity_ts x"
  let ?J = "all_intents mems m"
  have k: "?k \<circ> Intent_Row = (\<lambda>v. - iv_ts v)" "?k \<circ> Fill_Row = (\<lambda>v. - fv_ts v)" by (simp_all add: comp_def)
  have shown: "bindr (activity_endpoint st mems m) (\<lambda>rows. Inr (take 50 rows)) =
      (Inr (take 50 (sort_key ?k (map Fill_Row (take 50 F) @ map Intent_Row (take 50 (sort_key (\<lambda>v. - iv_ts v) ?J))))) :: exn + activity list)"
    using newest_fills [OF assms] by (simp add: activity_endpoint_def newest_intents_of_all merge_activity_def)
  have intents: "take 50 (sort_key ?k (xs @ map Intent_Row (take 50 (sort_key (\<lambda>v. - iv_ts v) ?J)))) = take 50 (sort_key ?k (xs @ map Intent_Row ?J))" for xs
    using top_of_sorted_end [of 50 ?k xs "map Intent_Row ?J"] by (simp add: sort_key_of_map k take_map)
  have fills: "take 50 (sort_key ?k (map Fill_Row (take 50 F) @ ys)) = take 50 (sort_key ?k (map Fill_Row F @ ys))"
    if "sorted (map (\<lambda>f. - fv_ts f) F)" for ys
    using top_of_sorted_start [of 50 ?k "map Fill_Row F" ys] that by (simp add: sort_key_of_map k take_map sort_key_id_if_sorted)
  show ?thesis by (simp add: shown intents fills)
qed

definition spy_fill :: fill where
  "spy_fill = \<lparr>f_id = 1, f_order_id = 7, f_agent_id = HAIKU, f_symbol = ''SPY'', f_side = BUY, f_qty = 2, f_price = 500,
     f_timestamp = 5, f_commission = 0, f_is_partial = False\<rparr>"

definition one_fill_log :: oms_store where
  "one_fill_log = append_event FILL_RECEIVED 7 (serialize_fill spy_fill) 5 []"

definition spy_fill_view :: fill_view where
  "spy_fill_view = \<lparr>fv_ts = 5, fv_order = 7, fv_symbol = ''SPY'', fv_side = ''buy'', fv_qty = 2, fv_price = 500, fv_cost = dmul 2 500,
     fv_agent = [], fv_rationale = []\<rparr>"

lemma one_fill: "recent_fills one_fill_log mems (length one_fill_log) m = Inr [spy_fill_view]"
proof -
  have "recent_by_kind FILL_RECEIVED 1 one_fill_log = [\<lparr>e_seq = 1, e_ts = 5, e_kind = FILL_RECEIVED, e_order_id = 7, e_payload = serialize_fill spy_fill\<rparr>]"
    by (simp add: recent_by_kind_def one_fill_log_def append_event_def map_filter_simps)
  moreover have "iter_for_order 7 one_fill_log = [\<lparr>e_seq = 1, e_ts = 5, e_kind = FILL_RECEIVED, e_order_id = 7, e_payload = serialize_fill spy_fill\<rparr>]"
    by (simp add: iter_for_order_def one_fill_log_def append_event_def map_filter_simps)
  moreover have "length one_fill_log = 1" by (simp add: one_fill_log_def append_event_def)
  ultimately show ?thesis
    by (simp add: recent_fills_def fill_view_of_def serialize_fill_def spy_fill_def spy_fill_view_def as_decimal_def payload_text_def
        lookup_intent_for_order_def)
qed

theorem activity_begins_with_the_newest_witness:
  "map_sum id (map activity_ts) (bindr (activity_endpoint one_fill_log [HAIKU, OPUS] busy_memory) (\<lambda>rows. Inr (take 50 rows))) = (Inr [5, 3, 3, 2] :: exn + int list)"
  using activity_begins_with_the_newest [of one_fill_log "[HAIKU, OPUS]" busy_memory "[spy_fill_view]", OF _ one_fill]
  by (simp add: busy_memory_def intent_at_def all_intents_def rows_of_def intent_view_of_def one_fill_log_def append_event_readable
      spy_fill_view_def readable_def append_event_def)

text \<open>The SPY line begins at the first net asset value, where a quotient of equal floats is one.\<close>

lemma spy_starts_at_the_first_nav:
  assumes "spy_line ar nav closes = x # xs" and "\<And>y. fa_mul ar (fa_div ar y y) v = v" and "snd (hd nav) = v"
  shows "snd x = v"
  using assms by (auto simp: spy_line_def Let_def split: if_splits list.splits)

lemma activity_is_capped: "length (merge_activity fs js) \<le> 80"
  by (simp add: merge_activity_def)

lemma pnl_limit_bounds: "1 \<le> pnl_limit arg \<and> pnl_limit arg \<le> 60"
  by (auto simp: pnl_limit_def split: option.split)

text \<open>A posted capability is answered as it is in force, is the one a restart finds, and stays under the cap without the key.\<close>

lemma posted_capability:
  assumes "post_capability override True value r = ((200, Some v), r')"
  shows "rs_mc (new_store (rs_file r') dflt) = v" and "\<not> override \<Longrightarrow> v \<le> 15 / 10"
  using assms store_reload store_capped by (auto simp: post_capability_def Let_def split: option.splits)

lemma refused_value_changes_nothing: "fst (fst (post_capability override writes value r)) = 400 \<Longrightarrow> snd (post_capability override writes value r) = r"
  by (simp add: post_capability_def Let_def split: option.splits)

text \<open>The agents shown are the four of the program, in a fixed order.\<close>

lemma agents_shown: "map aj_agent (sj_agents (snapshot_endpoint ar dec_of rounded st live part budget mems m cal ls db now)) = [HAIKU, SONNET, OPUS, MANAGER]"
  by (simp add: snapshot_endpoint_def agent_json_of_def agent_summary_of_def Let_def)

end
