(* ===== verification/Prompts.thy ===== *)
theory Prompts
  imports View News Reconciler
begin

text \<open>
  What the agents are asked: the fingerprints of their signals, by which \<^verbatim>\<open>app.py\<close> skips a cycle whose signals have not changed,
  and the messages of \<^verbatim>\<open>agents/haiku_agent.py\<close>, \<^verbatim>\<open>sonnet_agent.py\<close>, \<^verbatim>\<open>opus_agent.py\<close> and \<^verbatim>\<open>manager_agent.py\<close>. The formats of
  numbers and times, \<^verbatim>\<open>json.dumps\<close>, the hash, the signs outside ASCII and the closing questions are the parameter \<open>te\<close>.
\<close>

record text_env =
  tx_num :: "decimal \<Rightarrow> string"
  tx_float :: "nat \<Rightarrow> decimal \<Rightarrow> string"
  tx_fixed :: "nat \<Rightarrow> decimal \<Rightarrow> string"
  tx_percent :: "nat \<Rightarrow> decimal \<Rightarrow> string"
  tx_iso :: "datetime \<Rightarrow> string"
  tx_dumps :: "jval \<Rightarrow> string"
  tx_hash :: "string \<Rightarrow> string"
  tx_dash :: string
  tx_arrow :: string
  tx_haiku_question :: string
  tx_sonnet_question :: string
  tx_opus_question :: "nat option \<Rightarrow> string"
  tx_news :: prompt_env

subsection \<open>Fingerprints\<close>

text \<open>\<^verbatim>\<open>int\<close> of a decimal cuts towards zero.\<close>

definition to_int :: "decimal \<Rightarrow> int" where
  "to_int x = (if x < 0 then \<lceil>x\<rceil> else \<lfloor>x\<rfloor>)"

definition gross_cents :: "agent_view \<Rightarrow> int" where
  "gross_cents v = to_int (dmul (av_gross v) 100)"

definition position_text :: "text_env \<Rightarrow> broker_position \<Rightarrow> string" where
  "position_text te p = bp_symbol p @ CHR '':'' # tx_num te (bp_qty p)"

definition held_text :: "text_env \<Rightarrow> broker_position list \<Rightarrow> string" where
  "held_text te ps = join_char CHR '','' (sort (map (position_text te) ps))"

definition trend_bits :: "(symbol, trend) dict \<Rightarrow> symbol list \<Rightarrow> string" where
  "trend_bits d ss = concat (map (\<lambda>s. if (case dict_get d s of Some t \<Rightarrow> tn_in t | None \<Rightarrow> False) then ''1'' else ''0'') ss)"

definition rejections_text :: "text_env \<Rightarrow> agent_view \<Rightarrow> string" where
  "rejections_text te v = join_char CHR ''|''
     (sort (map (\<lambda>(t, s, _, why). tx_iso te t @ '':'' @ s @ '':'' @ why) (av_rejections v)))"

definition haiku_fingerprint :: "text_env \<Rightarrow> agent_view \<Rightarrow> string" where
  "haiku_fingerprint te v =
     ''eq='' @ trend_bits (compute_equity_trend (av_bars v)) haiku_etf_universe
     @ ''|cr='' @ trend_bits (compute_crypto_trend (av_bars v)) haiku_crypto_universe
     @ ''|held='' @ held_text te (av_positions v) @ ''|emg='' @ int_text (gross_cents v) @ ''|rej='' @ rejections_text te v"

definition top_ten :: "agent_view \<Rightarrow> symbol list" where
  "top_ten v = take 10 (map fst (ranked_factors (av_bars v)))"

definition sonnet_fingerprint :: "text_env \<Rightarrow> agent_view \<Rightarrow> string" where
  "sonnet_fingerprint te v = ''top10='' @ join_char CHR '','' (top_ten v)
     @ ''|held='' @ held_text te (av_positions v) @ ''|emg='' @ int_text (gross_cents v)"

definition opus_holdings :: "text_env \<Rightarrow> agent_view \<Rightarrow> (string \<times> string) list" where
  "opus_holdings te v = sort_key fst (sort_key snd (map (\<lambda>p. (py_upper (bp_symbol p), tx_fixed te 2 (bp_qty p))) (av_positions v)))"

definition opus_payload :: "text_env \<Rightarrow> memory_db \<Rightarrow> agent_view \<Rightarrow> jval" where
  "opus_payload te m v = VObject
     [(''emg'', VText (tx_fixed te 4 (av_gross v))),
      (''h'', VList (map (\<lambda>(s, q). VList [VText s, VText q]) (opus_holdings te v))),
      (''md'', VText (py_strip (mc_directive (av_manager v)))),
      (''w'', VList (map VText (sort (get_watchlist m))))]"

definition opus_fingerprint :: "text_env \<Rightarrow> memory_db \<Rightarrow> agent_view \<Rightarrow> string option" where
  "opus_fingerprint te m v = (if length (av_positions v) < target_holdings then None else Some (tx_hash te (tx_dumps te (opus_payload te m v))))"

definition signal_fingerprint :: "text_env \<Rightarrow> memory_db \<Rightarrow> agent_id \<Rightarrow> agent_view \<Rightarrow> string option" where
  "signal_fingerprint te m a v = (case a of
       HAIKU \<Rightarrow> Some (haiku_fingerprint te v)
     | SONNET \<Rightarrow> Some (sonnet_fingerprint te v)
     | OPUS \<Rightarrow> opus_fingerprint te m v
     | MANAGER \<Rightarrow> None)"

subsection \<open>Messages of the sleeves\<close>

definition opt_number :: "text_env \<Rightarrow> nat \<Rightarrow> decimal option \<Rightarrow> string" where
  "opt_number te n v = (case v of None \<Rightarrow> ''n/a'' | Some x \<Rightarrow> tx_float te n x)"

definition pad_right :: "nat \<Rightarrow> string \<Rightarrow> string" where
  "pad_right n s = s @ replicate (n - length s) CHR '' ''"

definition pad_left :: "nat \<Rightarrow> string \<Rightarrow> string" where
  "pad_left n s = replicate (n - length s) CHR '' '' @ s"

definition positions_text :: "text_env \<Rightarrow> broker_position list \<Rightarrow> string" where
  "positions_text te ps = (if ps = [] then ''flat'' else join_text '', '' (map (position_text te) ps))"

definition recent_text :: "text_env \<Rightarrow> (string \<times> symbol \<times> int \<times> string option \<times> string) list \<Rightarrow> string" where
  "recent_text te rows = (if rows = [] then ''No recent intents.''
     else join_char newline (map (\<lambda>(act, s, conv, out, why). ''  '' @ act @ '' '' @ s @ '' (conv='' @ int_text conv @ '') '' @ tx_arrow te @ '' ''
       @ opt_or ''None'' out @ '': '' @ why) rows))"

definition rejection_block :: "text_env \<Rightarrow> agent_view \<Rightarrow> string" where
  "rejection_block te v = (if av_rejections v = [] then ''Recent broker rejections: none''
     else join_char newline ((''Recent broker rejections (last 48h '' @ tx_dash te @ '' these orders did NOT fill):'')
       # map (\<lambda>(t, s, side, why). ''  ['' @ tx_iso te t @ ''] '' @ py_upper side @ '' '' @ s @ '' '' @ tx_dash te @ '' '' @ why) (av_rejections v)))"

definition trend_label :: "trend \<Rightarrow> string" where
  "trend_label t = (if tn_in t then ''IN'' else ''OUT'')"

definition etf_row :: "text_env \<Rightarrow> symbol \<times> trend \<Rightarrow> string" where
  "etf_row te x = (case x of (s, t) \<Rightarrow> ''  '' @ pad_right 6 s @ '' | last='' @ opt_number te 2 (tn_last t) @ '' | 10mo_sma=''
     @ opt_number te 2 (tn_sma t) @ '' | '' @ trend_label t)"

definition crypto_row :: "text_env \<Rightarrow> symbol \<times> trend \<Rightarrow> string" where
  "crypto_row te x = (case x of (s, t) \<Rightarrow> ''  '' @ pad_right 8 s @ '' | last='' @ opt_number te 2 (tn_last t) @ '' | 50d_sma=''
     @ opt_number te 2 (tn_sma t) @ '' | 14d_mom='' @ (case tn_momentum t of None \<Rightarrow> ''n/a%'' | Some x \<Rightarrow> tx_percent te 1 x) @ '' | '' @ trend_label t)"

text \<open>What the Manager left for the sleeve, with the text for an empty one.\<close>

definition regime_text :: "agent_view \<Rightarrow> string" where
  "regime_text v = or_text (mc_regime (av_manager v)) ''(none this week)''"
definition critique_text :: "agent_view \<Rightarrow> string" where
  "critique_text v = or_text (mc_critique (av_manager v)) ''(none)''"
definition morning_text :: "agent_view \<Rightarrow> string" where
  "morning_text v = or_text (mc_brief (av_manager v)) ''(no brief today)''"
definition directive_text :: "agent_view \<Rightarrow> string" where
  "directive_text v = or_text (mc_directive (av_manager v)) ''(no active directive)''"

definition haiku_context :: "text_env \<Rightarrow> memory_db \<Rightarrow> news_item list \<Rightarrow> agent_view \<Rightarrow> string" where
  "haiku_context te m news v =
     (let held = (\<lambda>universe. positions_text te (filter (\<lambda>p. bp_symbol p \<in> set universe) (av_positions v))) in
      join_char newline (
       [''=== HaikuAgent context @ '' @ tx_iso te (av_timestamp v) @ '' ==='', [],
        ''Portfolio state:'',
        ''  equity positions : '' @ held haiku_etf_universe,
        ''  crypto positions : '' @ held haiku_crypto_universe,
        ''  cash             : '' @ tx_float te 2 (ba_cash (av_account v)),
        ''  effective_max_gross: '' @ tx_float te 2 (av_gross v), [],
        ''ETF trend table (Faber 10-month SMA):'']
       @ map (etf_row te) (compute_equity_trend (av_bars v))
       @ [[], ''Crypto trend table (50d SMA + 14d momentum):'']
       @ map (crypto_row te) (compute_crypto_trend (av_bars v))
       @ [[], ''Manager regime: '' @ regime_text v, [],
          ''Manager morning brief (today): '' @ morning_text v, [],
          ''Manager directive (active): '' @ directive_text v, [],
          ''Recent intents:'' @ newline # recent_text te (recent_intents_summary HAIKU 3 m), [],
          ''Manager critique: '' @ critique_text v, [],
          rejection_block te v, [],
          format_news_block (tx_news te) 10 news, [],
          tx_haiku_question te]))"

definition candidate_row :: "text_env \<Rightarrow> bars \<Rightarrow> nat \<times> symbol \<times> decimal \<Rightarrow> string" where
  "candidate_row te bs x = (case x of (i, s, mom) \<Rightarrow> ''  '' @ pad_left 2 (int_text (int i + 1)) @ ''. '' @ pad_right 8 s @ '' | last=''
     @ opt_number te 4 (case dict_get (compute_factor_signals bs) s of None \<Rightarrow> None | Some f \<Rightarrow> fc_last f)
     @ '' | 12-1_mom='' @ tx_float te 4 mom)"

definition sonnet_context :: "text_env \<Rightarrow> memory_db \<Rightarrow> news_item list \<Rightarrow> agent_view \<Rightarrow> string" where
  "sonnet_context te m news v =
     (let rows = map (candidate_row te (av_bars v)) (enumerate 0 (take 25 (ranked_factors (av_bars v)))) in
      join_char newline (
       [''=== SonnetAgent context @ '' @ tx_iso te (av_timestamp v) @ '' ==='', [],
        ''Portfolio state:'',
        ''  positions          : '' @ positions_text te (av_positions v),
        ''  cash               : '' @ tx_float te 2 (ba_cash (av_account v)),
        ''  effective_max_gross: '' @ tx_float te 2 (av_gross v), [],
        ''Top factor-ranked candidates (12-1 momentum proxy):'']
       @ (if rows = [] then [''  (insufficient history)''] else rows)
       @ [[], ''Manager regime: '' @ regime_text v,
          ''Manager morning brief (today): '' @ morning_text v,
          ''Manager directive (active): '' @ directive_text v,
          ''Manager critique: '' @ critique_text v, [],
          ''Recent intents:'' @ newline # recent_text te (recent_intents_summary SONNET 5 m), [],
          format_news_block (tx_news te) 15 news, [],
          tx_sonnet_question te]))"

definition opus_daily_context :: "text_env \<Rightarrow> memory_db \<Rightarrow> bool \<Rightarrow> news_item list \<Rightarrow> agent_view \<Rightarrow> string" where
  "opus_daily_context te m initiation news v =
     (let n = length (av_positions v); watched = get_watchlist m in
      join_char newline
       [''=== OpusAgent daily check @ '' @ tx_iso te (av_timestamp v) @ '' ==='', [],
        ''MODE              : '' @ (if initiation then ''initiation'' else ''management''),
        ''Holdings count    : '' @ int_text (int n) @ '' / target '' @ int_text (int target_holdings),
        ''Holdings          : '' @ positions_text te (av_positions v),
        ''Watchlist         : '' @ (if watched = [] then ''(empty)'' else join_text '', '' watched),
        ''Cash              : '' @ tx_float te 2 (ba_cash (av_account v)),
        ''Effective max gross: '' @ tx_float te 2 (av_gross v), [],
        ''Manager regime: '' @ regime_text v,
        ''Manager morning brief (today): '' @ morning_text v,
        ''Manager directive (active): '' @ directive_text v,
        ''Manager critique: '' @ critique_text v, [],
        ''Recent intents:'' @ newline # recent_text te (recent_intents_summary OPUS 3 m), [],
        format_news_block (tx_news te) 20 news, [],
        tx_opus_question te (if initiation then Some (max 1 (target_holdings - n)) else None)])"

subsection \<open>Messages of the Manager\<close>

text \<open>\<open>block\<close> is the context of \<open>Analytics\<close> as a text, if there is one.\<close>

definition titled :: "text_env \<Rightarrow> string \<Rightarrow> agent_view \<Rightarrow> string" where
  "titled te title v = ''=== '' @ title @ '' @ '' @ tx_iso te (av_timestamp v) @ '' ===''"

definition block_lines :: "string option \<Rightarrow> string list" where
  "block_lines block = (case block of None \<Rightarrow> [] | Some b \<Rightarrow> [b, []])"

definition body_or_none :: "string option \<Rightarrow> string \<Rightarrow> string" where
  "body_or_none block dflt = or_text (opt_or dflt block) ''(no portfolio analytics available)''"

definition regime_context :: "text_env \<Rightarrow> string \<Rightarrow> string option \<Rightarrow> agent_view \<Rightarrow> string" where
  "regime_context te prior block v = join_char newline ([titled te ''Regime read'' v, []] @ block_lines block
     @ [''Portfolio equity  : '' @ tx_float te 2 (ba_equity (av_account v)),
        ''Kill switch       : '' @ kill_state_str (av_kill v),
        (case av_vix v of None \<Rightarrow> ''VIX: n/a'' | Some x \<Rightarrow> if x = 0 then ''VIX: n/a'' else ''VIX: '' @ tx_float te 2 x),
        ''Master capability : '' @ tx_float te 2 (av_capability v), [],
        ''Prior regime: '' @ or_text prior ''(none)'', [],
        ''Return regime_read.json only.''])"

definition critique_line :: "text_env \<Rightarrow> intent \<Rightarrow> string" where
  "critique_line te i = ''  id='' @ uuid_text (i_id i) @ '' agent='' @ agent_str (i_agent_id i) @ '' '' @ action_text (i_action i) @ '' ''
     @ i_symbol i @ '' weight='' @ tx_num te (i_target_weight i) @ '' conviction='' @ int_text (i_conviction i)
     @ '' rationale='' @ take 120 (i_rationale i)"

definition critique_context :: "text_env \<Rightarrow> intent list \<Rightarrow> string option \<Rightarrow> agent_view \<Rightarrow> string" where
  "critique_context te xs block v = join_char newline ([titled te ''Adversarial critique'' v, []] @ block_lines block
     @ [''Intents to critique:''] @ map (critique_line te) xs @ [[], ''Return critique.json only.''])"

definition reallocation_context :: "text_env \<Rightarrow> string \<Rightarrow> string option \<Rightarrow> agent_view \<Rightarrow> string" where
  "reallocation_context te weeks block v = join_char newline
     [titled te ''Capital reallocation'' v, [], body_or_none block weeks, [], ''Return reallocation.json only.'']"

definition risk_check_user_msg :: "text_env \<Rightarrow> intent \<Rightarrow> string option \<Rightarrow> agent_view \<Rightarrow> string" where
  "risk_check_user_msg te i block v = join_char newline ([titled te ''Risk check'' v, []] @ block_lines block
     @ [''Intent: id='' @ uuid_text (i_id i) @ '' agent='' @ agent_str (i_agent_id i) @ '' '' @ action_text (i_action i) @ '' '' @ i_symbol i
          @ '' weight='' @ tx_num te (i_target_weight i) @ '' conviction='' @ int_text (i_conviction i),
        ''Rationale: '' @ i_rationale i, [],
        ''Portfolio equity: '' @ tx_float te 2 (ba_equity (av_account v)),
        ''Kill switch: '' @ kill_state_str (av_kill v),
        ''Master capability: '' @ tx_float te 2 (av_capability v), [],
        ''Return risk_check.json only.''])"

definition drawdown_context :: "text_env \<Rightarrow> decimal \<Rightarrow> (string \<times> decimal) list \<Rightarrow> string option \<Rightarrow> agent_view \<Rightarrow> string" where
  "drawdown_context te dd parts block v = join_char newline ([titled te ''Drawdown response'' v, []] @ block_lines block
     @ [''Current drawdown  : '' @ tx_percent te 2 dd,
        ''Attribution       : '' @ join_text '', '' (map (\<lambda>(k, x). k @ '': '' @ tx_percent te 2 x) parts),
        ''Kill switch state : '' @ kill_state_str (av_kill v), [],
        ''Return drawdown_response.json only.''])"

definition journal_context :: "text_env \<Rightarrow> string \<Rightarrow> string option \<Rightarrow> agent_view \<Rightarrow> string" where
  "journal_context te week block v = join_char newline [titled te ''Weekly journal'' v, [], body_or_none block week, [],
     ''Return the weekly journal in markdown. Maximum 1500 words.'']"

text \<open>\<open>evidence\<close> is the indented JSON text.\<close>

definition capability_context :: "text_env \<Rightarrow> string \<Rightarrow> string option \<Rightarrow> agent_view \<Rightarrow> string" where
  "capability_context te evidence block v = join_char newline ([titled te ''Master capability proposal'' v, []] @ block_lines block
     @ [''Evidence:'' @ newline # evidence, ''Current master_capability: '' @ tx_float te 2 (av_capability v), [],
        ''Return mc_proposal.json only.''])"

subsection \<open>What a fingerprint tells\<close>

lemma digits_only: "c \<in> set (uuid_text n) \<Longrightarrow> c \<in> digit ` {..<10}"
proof (induction n rule: uuid_text.induct)
  case (1 n)
  show ?case
  proof (cases "n < 10")
    case True
    with 1(2) show ?thesis by (simp add: uuid_text.simps [of n])
  next
    case False
    with 1(2) have "c = digit (n mod 10) \<or> c \<in> set (uuid_text (n div 10))" by (simp add: uuid_text.simps [of n])
    with 1(1) [OF False] show ?thesis by (metis imageI lessThan_iff mod_less_divisor zero_less_numeral)
  qed
qed

lemma digit_code: "k < 10 \<Longrightarrow> (of_char (digit k) :: nat) = 48 + k"
  by (simp add: digit_def)

lemma int_text_chars: "c \<in> set (int_text i) \<Longrightarrow> c = CHR ''-'' \<or> c \<in> digit ` {..<10}"
  using digits_only by (auto simp: int_text_def split: if_splits)

lemma int_text_no_bar: "CHR ''|'' \<notin> set (int_text i)"
proof
  assume "CHR ''|'' \<in> set (int_text i)"
  with int_text_chars [of "CHR ''|''" i] obtain k where "k < 10" "CHR ''|'' = digit k" by auto
  from digit_code [OF this(1), folded this(2)] \<open>k < 10\<close> show False by simp
qed

lemma no_minus: "CHR ''-'' \<notin> set (uuid_text n)"
proof
  assume "CHR ''-'' \<in> set (uuid_text n)"
  with digits_only [of "CHR ''-''" n] obtain k where "k < 10" "CHR ''-'' = digit k" by auto
  from digit_code [OF this(1), folded this(2)] \<open>k < 10\<close> show False by simp
qed

lemma int_text_inj: "int_text i = int_text j \<Longrightarrow> i = j"
proof -
  assume e: "int_text i = int_text j"
  have ne: "uuid_text m \<noteq> CHR ''-'' # uuid_text n" for m n using no_minus [of m] by auto
  show "i = j"
  proof (cases "i < 0"; cases "j < 0")
    assume "i < 0" "j < 0"
    with e uuid_text_inj show ?thesis by (fastforce simp: int_text_def)
  next
    assume "\<not> i < 0" "\<not> j < 0"
    with e uuid_text_inj show ?thesis by (fastforce simp: int_text_def)
  qed (use e ne ne [symmetric] in \<open>simp_all add: int_text_def\<close>)
qed

lemma append_sep: "c \<notin> set xs \<Longrightarrow> c \<notin> set ys \<Longrightarrow> xs @ c # us = ys @ c # vs \<longleftrightarrow> xs = ys \<and> us = vs"
proof (induction xs arbitrary: ys)
  case Nil
  then show ?case by (cases ys) auto
next
  case (Cons x xs)
  then show ?case by (cases ys) auto
qed

lemma join_char_eq:
  assumes "join_char c ws = join_char c vs" and "\<forall>w\<in>set ws \<union> set vs. w \<noteq> [] \<and> c \<notin> set w"
  shows "ws = vs"
proof -
  have ne: "join_char c xs \<noteq> []" if "xs \<noteq> []" "\<forall>w\<in>set xs. w \<noteq> []" for xs
    using that by (cases "(c, xs)" rule: join_char.cases) auto
  show ?thesis
  proof (cases "ws = [] \<or> vs = []")
    case True
    then show ?thesis using assms ne [of ws] ne [of vs] by auto
  next
    case False
    then show ?thesis using assms split_join [of ws c] split_join [of vs c] by (metis UnCI)
  qed
qed

lemma join_char_chars: "c \<in> set (join_char d ws) \<Longrightarrow> c = d \<or> (\<exists>w\<in>set ws. c \<in> set w)"
  by (induction d ws rule: join_char.induct) auto

text \<open>
  Texts that can be read back: the text of a number tells the number, the one of a time with the colon behind it the time. The
  symbols, numbers and reasons are without the separators.
\<close>

definition texts_tell :: "text_env \<Rightarrow> bool" where
  "texts_tell te \<longleftrightarrow> inj (tx_num te) \<and> (\<forall>t u xs ys. tx_iso te t @ CHR '':'' # xs = tx_iso te u @ CHR '':'' # ys \<longrightarrow> t = u)"

lemma numbers_tell: "texts_tell te \<Longrightarrow> inj (tx_num te)"
  by (simp add: texts_tell_def)

definition plain_texts :: "text_env \<Rightarrow> agent_view \<Rightarrow> bool" where
  "plain_texts te v \<longleftrightarrow>
     (\<forall>p\<in>set (av_positions v). set (bp_symbol p) \<inter> set '',:|'' = {} \<and> set (tx_num te (bp_qty p)) \<inter> set '',|'' = {})
     \<and> (\<forall>s\<in>fst ` set (av_bars v). s \<noteq> [] \<and> set s \<inter> set '',|'' = {})
     \<and> (\<forall>(t, s, _, why)\<in>set (av_rejections v). CHR ''|'' \<notin> set (tx_iso te t) \<and> set s \<inter> set '':|'' = {} \<and> CHR ''|'' \<notin> set why)"

definition holdings_of :: "agent_view \<Rightarrow> (symbol \<times> decimal) multiset" where
  "holdings_of v = mset (map (\<lambda>p. (bp_symbol p, bp_qty p)) (av_positions v))"

definition rejections_of :: "agent_view \<Rightarrow> (datetime \<times> string \<times> string) multiset" where
  "rejections_of v = mset (map (\<lambda>(t, s, _, why). (t, s, why)) (av_rejections v))"

definition trends_seen :: "agent_view \<Rightarrow> bool list" where
  "trends_seen v = map (\<lambda>s. tn_in (equity_trend (av_bars v) s)) haiku_etf_universe @ map (\<lambda>s. tn_in (crypto_trend (av_bars v) s)) haiku_crypto_universe"

text \<open>What an agent decides by: trends and rejections for Haiku, the ten leading names for Sonnet, the holdings for both.\<close>

definition sleeve_signals ::
  "agent_id \<Rightarrow> agent_view \<Rightarrow> bool list \<times> symbol list \<times> (symbol \<times> decimal) multiset \<times> (datetime \<times> string \<times> string) multiset" where
  "sleeve_signals a v =
     ((if a = HAIKU then trends_seen v else []), (if a = SONNET then take 10 (map fst (ranked_factors (av_bars v))) else []), holdings_of v,
      (if a = HAIKU then rejections_of v else {#}))"

lemma dround_hundred: "dround (x * 100) = dround x * 100"
proof -
  have p: "pround (x * 100) = pround x * 100" if "0 < x" for x
  proof -
    have h: "(100 :: rat) = p10 2" by (simp add: p10_powi)
    have "p10 (dexp x) * p10 2 \<le> x * p10 2" "x * p10 2 < p10 (dexp x + 1) * p10 2"
      using dexp_bounds [OF that] by simp_all
    then have "dexp (x * 100) = dexp x + 2"
      unfolding h by (intro dexp_unique) (simp_all add: algebra_simps flip: p10_add)
    then have "pround (x * 100) = of_int (rhe (x * (p10 2 * p10 (27 - (dexp x + 2))))) * p10 (dexp x + 2 - 27)"
      by (simp add: pround_def Let_def h mult.assoc)
    also have "p10 2 * p10 (27 - (dexp x + 2)) = p10 (27 - dexp x)" by (simp flip: p10_add)
    also have "p10 (dexp x + 2 - 27) = p10 (dexp x - 27) * 100" by (simp add: h flip: p10_add)
    finally show ?thesis by (simp add: pround_def Let_def)
  qed
  show ?thesis using p [of x] p [of "- x"] by (auto simp: dround_def)
qed

text \<open>Caps with the same hundredths are closer than one hundredth.\<close>

lemma gross_cap_real: "effective_max_gross file a mc vix dd = Inr r \<Longrightarrow> 0 \<le> r \<and> dround r = r"
  by (auto simp: effective_max_gross_def Let_def max_def dmul_def split: if_splits)

lemma gross_cents_tell:
  assumes "gross_cents v = gross_cents w" and "0 \<le> av_gross v \<and> dround (av_gross v) = av_gross v"
    and "0 \<le> av_gross w \<and> dround (av_gross w) = av_gross w"
  shows "\<bar>av_gross v - av_gross w\<bar> < 1 / 100"
proof -
  have "gross_cents u = \<lfloor>av_gross u * 100\<rfloor>" if "0 \<le> av_gross u \<and> dround (av_gross u) = av_gross u" for u
    using that by (simp add: gross_cents_def to_int_def dmul_def dround_hundred)
  with assms have "\<lfloor>av_gross v * 100\<rfloor> = \<lfloor>av_gross w * 100\<rfloor>" by simp
  then show ?thesis by linarith
qed

lemma position_text_facts:
  assumes "plain_texts te v" "p \<in> set (av_positions v)"
  shows "position_text te p \<noteq> []" "CHR '','' \<notin> set (position_text te p)" "CHR ''|'' \<notin> set (position_text te p)"
  using assms by (auto simp: plain_texts_def position_text_def)

lemma held_text_no_bar: "plain_texts te v \<Longrightarrow> CHR ''|'' \<notin> set (held_text te (av_positions v))"
  using position_text_facts(3) by (auto simp: held_text_def dest!: join_char_chars)

lemma held_text_tells:
  assumes "held_text te (av_positions v) = held_text te (av_positions w)" "plain_texts te v" "plain_texts te w" "inj (tx_num te)"
  shows "holdings_of v = holdings_of w"
proof -
  let ?t = "position_text te" and ?f = "\<lambda>p. (bp_symbol p, bp_qty p)"
  have "sort (map ?t (av_positions v)) = sort (map ?t (av_positions w))"
    using assms(1) unfolding held_text_def
    by (rule join_char_eq) (use position_text_facts assms(2,3) in auto)
  then have m: "mset (map ?t (av_positions v)) = mset (map ?t (av_positions w))" by (metis mset_sort)
  define g where "g t = (takeWhile (\<lambda>c. c \<noteq> CHR '':'') t, inv (tx_num te) (tl (dropWhile (\<lambda>c. c \<noteq> CHR '':'') t)))" for t
  have g: "g (?t p) = ?f p" if "plain_texts te u" "p \<in> set (av_positions u)" for u p
  proof -
    have "\<forall>c\<in>set (bp_symbol p). c \<noteq> CHR '':''" using that by (auto simp: plain_texts_def)
    then show ?thesis using assms(4) by (simp add: g_def position_text_def takeWhile_append2 dropWhile_append2)
  qed
  have "holdings_of u = image_mset g (mset (map ?t (av_positions u)))" if "plain_texts te u" for u
    unfolding holdings_of_def mset_map [symmetric] map_map by (rule arg_cong [where f = mset], rule map_cong) (use g that in auto)
  with m assms(2,3) show ?thesis by simp
qed

lemma bits_tell: "trend_bits d ss = trend_bits e ss \<Longrightarrow> s \<in> set ss \<Longrightarrow>
   (case dict_get d s of Some t \<Rightarrow> tn_in t | None \<Rightarrow> False) = (case dict_get e s of Some t \<Rightarrow> tn_in t | None \<Rightarrow> False)"
  by (induction ss) (auto simp: trend_bits_def split: if_splits)

lemma bits_length: "length (trend_bits d ss) = length ss"
  by (induction ss) (auto simp: trend_bits_def)

lemma trend_of_map: "(case dict_get (map (\<lambda>s. (s, f s)) ss) s of Some t \<Rightarrow> tn_in t | None \<Rightarrow> False) \<longleftrightarrow> s \<in> set ss \<and> tn_in (f s)"
  by (induction ss) auto

lemma rejections_tell:
  assumes "rejections_text te v = rejections_text te w" "plain_texts te v" "plain_texts te w" "texts_tell te"
  shows "rejections_of v = rejections_of w"
proof -
  let ?t = "\<lambda>(t, s, why). tx_iso te t @ CHR '':'' # s @ CHR '':'' # why"
  define R where "R u = map (\<lambda>(t, s, _, why). (t, s, why)) (av_rejections u)" for u :: agent_view
  have plain: "CHR ''|'' \<notin> set (tx_iso te t) \<and> set s \<inter> set '':|'' = {} \<and> CHR ''|'' \<notin> set why" if "plain_texts te u" "(t, s, why) \<in> set (R u)" for u t s why
    using that by (fastforce simp: plain_texts_def R_def)
  have written: "rejections_text te u = join_char CHR ''|'' (sort (map ?t (R u)))" for u
    by (simp add: rejections_text_def R_def comp_def case_prod_unfold)
  have "sort (map ?t (R v)) = sort (map ?t (R w))"
    using assms(1) unfolding written
    by (rule join_char_eq) (use plain [OF assms(2)] plain [OF assms(3)] in auto)
  then have m: "mset (map ?t (R v)) = mset (map ?t (R w))" by (metis mset_sort)
  have "inj_on ?t (set (R v) \<union> set (R w))"
  proof (rule inj_onI)
    fix x y assume xy: "x \<in> set (R v) \<union> set (R w)" "y \<in> set (R v) \<union> set (R w)" "?t x = ?t y"
    obtain t s why u r ground where p: "x = (t, s, why)" "y = (u, r, ground)" by (cases x; cases y)
    have "CHR '':'' \<notin> set s" "CHR '':'' \<notin> set r" using xy p plain [OF assms(2)] plain [OF assms(3)] by fastforce+
    moreover have "t = u" using xy(3) assms(4) by (fastforce simp: p texts_tell_def)
    ultimately show "x = y" using xy(3) by (simp add: p append_sep)
  qed
  from inv_into_f_f [OF this]
  have "image_mset (inv_into (set (R v) \<union> set (R w)) ?t) (mset (map ?t (R u))) = mset (R u)" if "u \<in> {v, w}" for u
    using that unfolding mset_map [symmetric] map_map by (intro arg_cong [where f = mset] map_idI) auto
  from this [of v] this [of w] m show ?thesis by (simp add: rejections_of_def R_def)
qed

lemma haiku_fingerprint_tells:
  assumes "haiku_fingerprint te v = haiku_fingerprint te w" "plain_texts te v" "plain_texts te w" "texts_tell te"
  shows "sleeve_signals HAIKU v = sleeve_signals HAIKU w \<and> gross_cents v = gross_cents w"
proof -
  let ?e = "\<lambda>v. trend_bits (compute_equity_trend (av_bars v)) haiku_etf_universe"
  let ?c = "\<lambda>v. trend_bits (compute_crypto_trend (av_bars v)) haiku_crypto_universe"
  have split: "?e v = ?e w \<and> ?c v = ?c w \<and> held_text te (av_positions v) = held_text te (av_positions w)
      \<and> int_text (gross_cents v) = int_text (gross_cents w) \<and> rejections_text te v = rejections_text te w"
    using assms(1) held_text_no_bar [OF assms(2)] held_text_no_bar [OF assms(3)] int_text_no_bar
    by (simp add: haiku_fingerprint_def append_sep append_eq_append_conv bits_length)
  have "tn_in (equity_trend (av_bars v) s) = tn_in (equity_trend (av_bars w) s)" if "s \<in> set haiku_etf_universe" for s
    using bits_tell [OF conjunct1 [OF split] that] that by (simp add: compute_equity_trend_def trend_of_map)
  moreover have "tn_in (crypto_trend (av_bars v) s) = tn_in (crypto_trend (av_bars w) s)" if "s \<in> set haiku_crypto_universe" for s
    using bits_tell [OF conjunct1 [OF conjunct2 [OF split]] that] that by (simp add: compute_crypto_trend_def trend_of_map)
  ultimately have "trends_seen v = trends_seen w" by (simp add: trends_seen_def)
  moreover have "holdings_of v = holdings_of w" "rejections_of v = rejections_of w"
    using split held_text_tells [OF _ assms(2,3) numbers_tell [OF assms(4)]] rejections_tell [OF _ assms(2-4)] by blast+
  ultimately show ?thesis using split int_text_inj by (auto simp: sleeve_signals_def)
qed

lemma top_ten_words: "plain_texts te v \<Longrightarrow> s \<in> set (top_ten v) \<Longrightarrow> s \<noteq> [] \<and> CHR '','' \<notin> set s \<and> CHR ''|'' \<notin> set s"
proof -
  assume p: "plain_texts te v" and s: "s \<in> set (top_ten v)"
  have "s \<in> fst ` set (av_bars v)"
    using s by (auto simp: top_ten_def ranked_factors_def ranked_def map_filter_set compute_factor_signals_def image_iff dest!: in_set_takeD) force
  with p show ?thesis by (auto simp: plain_texts_def)
qed

lemma sonnet_fingerprint_tells:
  assumes "sonnet_fingerprint te v = sonnet_fingerprint te w" "plain_texts te v" "plain_texts te w" "texts_tell te"
  shows "sleeve_signals SONNET v = sleeve_signals SONNET w \<and> gross_cents v = gross_cents w"
proof -
  have bar: "CHR ''|'' \<notin> set (join_char CHR '','' (top_ten u))" if "plain_texts te u" for u
    using top_ten_words [OF that] by (auto dest!: join_char_chars)
  have split: "join_char CHR '','' (top_ten v) = join_char CHR '','' (top_ten w) \<and> held_text te (av_positions v) = held_text te (av_positions w)
      \<and> int_text (gross_cents v) = int_text (gross_cents w)"
    using assms(1) held_text_no_bar [OF assms(2)] held_text_no_bar [OF assms(3)] bar [OF assms(2)] bar [OF assms(3)]
    by (simp add: sonnet_fingerprint_def append_sep)
  from split have "top_ten v = top_ten w"
    by (intro join_char_eq [of "CHR '',''"]) (use top_ten_words assms(2,3) in auto)
  moreover have "holdings_of v = holdings_of w" using split held_text_tells [OF _ assms(2,3) numbers_tell [OF assms(4)]] by blast
  ultimately show ?thesis using split int_text_inj by (auto simp: sleeve_signals_def top_ten_def)
qed

text \<open>
  C39 A cycle skipped for unchanged signals (\<^verbatim>\<open>app.py\<close> \<open>dispatch_observation\<close>, \<open>signal_fingerprint\<close>): when Haiku or
  Sonnet has a record and is not asked because its fingerprint is the stored one, then, compared with the cycle whose fingerprint
  that is, the holdings, quantities included, are the same, the ten leading names in their order for Sonnet, and for Haiku the
  trends and the orders rejected, with times, symbols and reasons; and the gross cap, worked out by \<open>effective_max_gross\<close>,
  has moved by less than a hundredth. Texts can be read back.
\<close>

theorem skipped_cycle_has_the_old_signals:
  assumes "a \<in> {HAIKU, SONNET}" and "texts_tell te" and "plain_texts te v" and "plain_texts te v0"
    and "effective_max_gross file a mc vix dd = Inr (av_gross v)" and "effective_max_gross file0 a mc0 vix0 dd0 = Inr (av_gross v0)"
    and "dict_get (ap_records (dk_app d)) a \<noteq> None" and "\<not> is_asked a (signal_fingerprint te m a v) d"
    and "dict_get (ap_fingerprint (dk_app d)) a = signal_fingerprint te m0 a v0"
  shows "sleeve_signals a v = sleeve_signals a v0 \<and> \<bar>av_gross v - av_gross v0\<bar> < 1 / 100"
proof -
  have e: "signal_fingerprint te m a v = signal_fingerprint te m0 a v0" using assms(7-9) by (auto simp: is_asked_def)
  have "sleeve_signals a v = sleeve_signals a v0 \<and> gross_cents v = gross_cents v0"
    using assms(1) e haiku_fingerprint_tells [OF _ assms(3,4,2)] sonnet_fingerprint_tells [OF _ assms(3,4,2)]
    by (auto simp: signal_fingerprint_def)
  then show ?thesis using gross_cents_tell gross_cap_real [OF assms(5)] gross_cap_real [OF assms(6)] by blast
qed

text \<open>The order of the positions does not matter.\<close>

lemma held_text_order: "mset ps = mset qs \<Longrightarrow> held_text te ps = held_text te qs"
proof -
  assume "mset ps = mset qs"
  then have "sort (map (position_text te) ps) = sort (map (position_text te) qs)" by (intro properties_for_sort) simp_all
  then show ?thesis by (simp add: held_text_def)
qed

text \<open>An injective text of a fraction.\<close>

definition fraction_text :: "decimal \<Rightarrow> string" where
  "fraction_text x = (case quotient_of x of (a, b) \<Rightarrow> int_text a @ CHR ''/'' # int_text b)"

lemma int_text_no_slash: "CHR ''/'' \<notin> set (int_text i)"
proof
  assume "CHR ''/'' \<in> set (int_text i)"
  with int_text_chars [of "CHR ''/''" i] obtain k where "k < 10" "CHR ''/'' = digit k" by auto
  from digit_code [OF this(1), folded this(2)] \<open>k < 10\<close> show False by simp
qed

lemma fraction_text_inj: "inj fraction_text"
proof (rule injI)
  fix x y assume "fraction_text x = fraction_text y"
  then have "quotient_of x = quotient_of y"
    using int_text_inj int_text_no_slash by (cases "quotient_of x"; cases "quotient_of y") (auto simp: fraction_text_def append_sep)
  then show "x = y" by (metis quotient_of_inject)
qed

definition plain_te :: text_env where
  "plain_te = \<lparr>tx_num = fraction_text, tx_float = (\<lambda>_. fraction_text), tx_fixed = (\<lambda>_. fraction_text), tx_percent = (\<lambda>_. fraction_text),
     tx_iso = int_text, tx_dumps = (\<lambda>_. []), tx_hash = (\<lambda>t. t), tx_dash = ''-'', tx_arrow = ''->'', tx_haiku_question = [],
     tx_sonnet_question = [], tx_opus_question = (\<lambda>_. []), tx_news = \<lparr>pe_when = int_text, pe_iso = int_text, pe_dash = ''-''\<rparr>\<rparr>"

lemma plain_te_tells: "texts_tell plain_te"
proof -
  have "CHR '':'' \<notin> set (int_text i)" for i
  proof
    assume "CHR '':'' \<in> set (int_text i)"
    with int_text_chars [of "CHR '':''" i] obtain k where "k < 10" "CHR '':'' = digit k" by auto
    from digit_code [OF this(1), folded this(2)] \<open>k < 10\<close> show False by simp
  qed
  then show ?thesis using fraction_text_inj int_text_inj by (auto simp: texts_tell_def plain_te_def append_sep)
qed

definition holding_view :: "datetime \<Rightarrow> broker_position list \<Rightarrow> agent_view" where
  "holding_view t ps = \<lparr>av_timestamp = t, av_bars = [], av_positions = ps,
     av_account = \<lparr>ba_cash = 1000, ba_equity = 1000, ba_buying_power = 1000, ba_pattern_day_trader = False, ba_daytrade_count = 0\<rparr>,
     av_kill = OK, av_capability = 1, av_gross = 1, av_vix = None,
     av_manager = \<lparr>mc_regime = [], mc_brief = [], mc_directive = [], mc_critique = []\<rparr>, av_rejections = []\<rparr>"

definition qqq_position :: broker_position where
  "qqq_position = spy_position\<lparr>bp_symbol := ''QQQ'', bp_qty := 2\<rparr>"

lemma holding_view_plain: "set ps \<subseteq> {spy_position, qqq_position} \<Longrightarrow> plain_texts plain_te (holding_view t ps)"
proof -
  assume ps: "set ps \<subseteq> {spy_position, qqq_position}"
  have "45 \<le> (of_char c :: nat) \<and> (of_char c :: nat) \<le> 57" if "c \<in> set (fraction_text x)" for c x
    using that int_text_chars digit_code by (cases "quotient_of x") (fastforce simp: fraction_text_def)
  then have "set (fraction_text x) \<inter> set '',|'' = {}" for x by fastforce
  with ps show ?thesis by (auto simp: plain_texts_def holding_view_def plain_te_def spy_position_def qqq_position_def)
qed

lemma two_caps: "effective_max_gross No_weights SONNET 1 SWEET_SPOT NORMAL = Inr (125 / 100)"
    "effective_max_gross No_weights SONNET (1004 / 1000) SWEET_SPOT NORMAL = Inr (1255 / 1000)"
  by (simp_all add: effective_max_gross_def max_master_capability_def clamp_weight_def read_sleeve_weights_def dict_get_or_def dmul_def
      dround_small)

definition capped_view :: "decimal \<Rightarrow> datetime \<Rightarrow> broker_position list \<Rightarrow> agent_view" where
  "capped_view g t ps = (holding_view t ps)\<lparr>av_gross := g\<rparr>"

theorem skipped_cycle_has_the_old_signals_witness:
  "sleeve_signals SONNET (capped_view (1255 / 1000) 9 [qqq_position, spy_position]) =
     sleeve_signals SONNET (capped_view (125 / 100) 1 [spy_position, qqq_position]) \<and> \<bar>1255 / 1000 - 125 / 100 :: decimal\<bar> < 1 / 100"
proof -
  let ?v = "capped_view (1255 / 1000) 9 [qqq_position, spy_position]" and ?w = "capped_view (125 / 100) 1 [spy_position, qqq_position]"
  let ?app = "(sample_app (new_engine 60) (empty_ledger None))\<lparr>ap_fingerprint := [(SONNET, sonnet_fingerprint plain_te ?w)]\<rparr>"
  let ?d = "(sample_desk (new_engine 60) (empty_ledger None))\<lparr>dk_app := ?app\<rparr>"
  have "held_text plain_te [qqq_position, spy_position] = held_text plain_te [spy_position, qqq_position]" by (rule held_text_order) simp
  moreover have "gross_cents ?v = gross_cents ?w"
    by (simp add: gross_cents_def capped_view_def to_int_def dmul_def dround_small floor_eq_iff)
  ultimately have e: "sonnet_fingerprint plain_te ?v = sonnet_fingerprint plain_te ?w"
    by (simp add: sonnet_fingerprint_def capped_view_def holding_view_def top_ten_def)
  have p: "plain_texts plain_te ?v" "plain_texts plain_te ?w"
    using holding_view_plain [of "[qqq_position, spy_position]" 9] holding_view_plain [of "[spy_position, qqq_position]" 1]
    by (simp_all add: plain_texts_def capped_view_def)
  have g: "av_gross ?v = 1255 / 1000" "av_gross ?w = 125 / 100" by (simp_all add: capped_view_def)
  have f: "\<not> is_asked SONNET (signal_fingerprint plain_te empty_memory SONNET ?v) ?d"
    "dict_get (ap_fingerprint (dk_app ?d)) SONNET = signal_fingerprint plain_te empty_memory SONNET ?w"
    "dict_get (ap_records (dk_app ?d)) SONNET \<noteq> None"
    using e by (simp_all add: signal_fingerprint_def is_asked_def sample_app_def initial_records_def all_agents_def)
  show ?thesis
    using skipped_cycle_has_the_old_signals [OF _ plain_te_tells p _ _ f(3,1,2), unfolded g, OF _ two_caps(2,1)] by simp
qed

text \<open>A rejected order, a directive of the Manager, and the news do not wake Sonnet; the messages show Sonnet no rejections.\<close>

lemma sonnet_sleeps_through_rejections:
  "sonnet_fingerprint te (v\<lparr>av_rejections := rs, av_manager := mc\<rparr>) = sonnet_fingerprint te v"
  "sonnet_context te m news (v\<lparr>av_rejections := rs\<rparr>) = sonnet_context te m news v"
  by (simp_all add: sonnet_fingerprint_def top_ten_def gross_cents_def sonnet_context_def regime_text_def morning_text_def directive_text_def
      critique_text_def)

lemma haiku_sleeps_through_directives: "haiku_fingerprint te (v\<lparr>av_manager := mc\<rparr>) = haiku_fingerprint te v"
  by (simp add: haiku_fingerprint_def gross_cents_def rejections_text_def)

text \<open>Opus is asked in every cycle while its book is short, and shown no rejections either.\<close>

lemma opus_fills_its_book: "length (av_positions v) < target_holdings \<Longrightarrow> is_asked OPUS (signal_fingerprint te m OPUS v) d
    \<longleftrightarrow> dict_get (ap_records (dk_app d)) OPUS \<noteq> None"
  by (simp add: is_asked_def signal_fingerprint_def opus_fingerprint_def)

lemma opus_sees_no_rejections:
  "opus_daily_context te m ini news (v\<lparr>av_rejections := rs\<rparr>) = opus_daily_context te m ini news v"
  "opus_fingerprint te m (v\<lparr>av_rejections := rs\<rparr>) = opus_fingerprint te m v"
  by (simp_all add: opus_daily_context_def opus_fingerprint_def opus_payload_def opus_holdings_def regime_text_def morning_text_def
      directive_text_def critique_text_def)

end
