(* ===== verification/Files.thy ===== *)
theory Files
  imports Budget Universes Sizing Snapshots
begin

text \<open>
  How the program writes its small files, step by step, so that a crash can come between: through a file beside the target
  and a rename (\<^verbatim>\<open>ops/heartbeat.py\<close>, \<^verbatim>\<open>ops/journal.py\<close>, \<^verbatim>\<open>agents/manager_bridge.py\<close>) or in place
  (\<^verbatim>\<open>execution/budget.py\<close>, \<^verbatim>\<open>config/runtime_store.py\<close>). And the schema migration \<^verbatim>\<open>scripts/migrate_news_schema_v2.py\<close>.
\<close>

subsection \<open>Files\<close>

text \<open>
  \<^verbatim>\<open>write_text\<close> truncates the file and writes its text, of which any part may have arrived; a rename is one step, as
  POSIX promises of \<^verbatim>\<open>os.replace\<close>.
\<close>

type_synonym files = "string \<Rightarrow> string option"

datatype file_step = Put string string | Rename string string

fun take_step :: "file_step \<Rightarrow> files \<Rightarrow> files" where
  "take_step (Put p t) fs = fs(p := Some t)"
| "take_step (Rename p q) fs = (case fs p of None \<Rightarrow> fs | Some t \<Rightarrow> fs(p := None, q := Some t))"

definition run_files :: "file_step list \<Rightarrow> files \<Rightarrow> files" where
  "run_files xs fs = fold take_step xs fs"

definition write_text :: "string \<Rightarrow> string \<Rightarrow> file_step list" where
  "write_text p t = map (\<lambda>n. Put p (take n t)) [0..<Suc (length t)]"

definition temp_name :: "string \<Rightarrow> string" where
  "temp_name p = p @ ''.tmp''"

definition write_atomic :: "string \<Rightarrow> string \<Rightarrow> file_step list" where
  "write_atomic p t = write_text (temp_name p) t @ [Rename (temp_name p) p]"

text \<open>Who writes how. The ISO year and week, and the text of a date, are parameters.\<close>

definition pad_week :: "nat \<Rightarrow> string" where
  "pad_week w = (if w < 10 then ''0'' @ uuid_text w else uuid_text w)"

definition write_weekly_journal :: "string \<Rightarrow> nat \<Rightarrow> nat \<Rightarrow> string \<Rightarrow> file_step list" where
  "write_weekly_journal logs year week markdown = write_atomic (logs @ ''/WEEK_'' @ uuid_text year @ ''_'' @ pad_week week @ ''.md'') markdown"

definition write_daily_memo :: "string \<Rightarrow> agent_id \<Rightarrow> string \<Rightarrow> string \<Rightarrow> file_step list" where
  "write_daily_memo logs a day content = write_atomic (logs @ ''/daily/'' @ agent_str a @ ''_'' @ day @ ''.md'') content"

definition heartbeat_write :: "(heartbeat_file \<Rightarrow> string) \<Rightarrow> string \<Rightarrow> heartbeat_file \<Rightarrow> file_step list" where
  "heartbeat_write to_text p h = write_atomic p (to_text h)"

definition weights_write :: "(weights_file \<Rightarrow> string) \<Rightarrow> string \<Rightarrow> (agent_id, decimal) dict \<Rightarrow> file_step list" where
  "weights_write to_text p ws = write_atomic p (to_text (write_sleeve_weights ws))"

definition budget_write :: "(day_file \<Rightarrow> string) \<Rightarrow> string \<Rightarrow> date \<Rightarrow> budget_ledger \<Rightarrow> file_step list" where
  "budget_write to_text p wall b = write_text p (to_text (bl_file (flush_budget wall b)))"

definition capability_write :: "(mc_file \<Rightarrow> string) \<Rightarrow> string \<Rightarrow> decimal \<Rightarrow> file_step list" where
  "capability_write to_text p v = write_text p (to_text (Mc_file v))"

subsection \<open>Crashes\<close>

lemma run_files_simps [simp]: "run_files [] fs = fs" "run_files (xs @ ys) fs = run_files ys (run_files xs fs)"
  "run_files (x # xs) fs = run_files xs (take_step x fs)"
  by (simp_all add: run_files_def)

lemma puts: "run_files (map (\<lambda>n. Put p (f n)) ns) fs = (if ns = [] then fs else fs(p := Some (f (last ns))))"
  by (induction ns arbitrary: fs) auto

lemma write_text_run: "run_files (take k (write_text p t)) fs = (if k = 0 then fs else fs(p := Some (take (k - 1) t)))"
proof (cases "k \<le> length t")
  case True
  then have "take k [0..<Suc (length t)] = [0..<k]" by (simp add: take_upt del: upt_Suc)
  then show ?thesis by (simp only: write_text_def take_map puts) (cases k; simp)
next
  case False
  then have "take k [0..<Suc (length t)] = [0..<Suc (length t)]" by simp
  then show ?thesis using False by (simp only: write_text_def take_map puts) simp
qed

lemma write_text_length: "length (write_text p t) = Suc (length t)"
  by (simp add: write_text_def)

lemma temp_name_differs [simp]: "temp_name p \<noteq> p" "p \<noteq> temp_name p"
  by (simp_all add: temp_name_def)

lemma interrupted_whole:
  "run_files (take k (write_atomic p t)) fs p = (if k < length (write_atomic p t) then fs p else Some t)"
proof (cases "k \<le> length (write_text (temp_name p) t)")
  case True
  then show ?thesis
    by (simp add: write_atomic_def write_text_run)
next
  case False
  have "run_files (write_text (temp_name p) t) fs = fs(temp_name p := Some t)"
    using write_text_run [of "Suc (length t)" "temp_name p" t fs] by (simp add: write_text_length)
  then show ?thesis using False by (simp add: write_atomic_def write_text_length)
qed

text \<open>
  C40 An interrupted write (\<^verbatim>\<open>_write_atomic\<close> of \<^verbatim>\<open>ops/heartbeat.py\<close> and \<^verbatim>\<open>ops/journal.py\<close>, \<^verbatim>\<open>write_sleeve_weights\<close>): wherever
  a crash comes, the file is as before or holds the whole new text, and the latter exactly when every step was taken.
\<close>

theorem interrupted_write_leaves_a_whole_file:
  "run_files (take k (write_atomic p t)) fs p = (if k < length (write_atomic p t) then fs p else Some t)"
  by (rule interrupted_whole)

text \<open>What the agents' caps rest on after a crash: the old weights or the new ones.\<close>

lemma interrupted_reallocation:
  assumes "\<And>w. of_text (Some (to_text w)) = w" and "distinct (map fst ws)"
  shows "read_sleeve_weights (of_text (run_files (take k (weights_write to_text p ws)) fs p)) =
    (if k < length (weights_write to_text p ws) then read_sleeve_weights (of_text (fs p)) else ws)"
  using assms read_written_weights by (simp add: weights_write_def interrupted_whole)

text \<open>
  Written in place, a file can be found empty, which no JSON text is: the day's spending is forgotten, and the capability is the
  default again.
\<close>

lemma interrupted_flush_forgets_the_spending:
  assumes "of_text (Some []) = CorruptFile" and "to_text (bl_file (flush_budget wall b)) \<noteq> []"
  shows "\<exists>k < length (budget_write to_text p wall b). bl_total (load_budget (of_text (run_files (take k (budget_write to_text p wall b)) fs p)) limit now) = 0"
  using assms by (intro exI [of _ 1]) (simp add: budget_write_def write_text_run write_text_length load_budget_def)

lemma interrupted_setting_is_reverted:
  assumes "of_text (Some []) = Bad_mc_file" and "to_text (Mc_file v) \<noteq> []"
  shows "\<exists>k < length (capability_write to_text p v). rs_mc (new_store (of_text (run_files (take k (capability_write to_text p v)) fs p)) dflt) = dflt"
  using assms by (intro exI [of _ 1]) (simp add: capability_write_def write_text_run write_text_length new_store_def load_persisted_mc_def)

subsection \<open>The news schema\<close>

datatype column_status = Added | Exists

definition add_column :: "string \<Rightarrow> string list \<Rightarrow> column_status \<times> string list" where
  "add_column c cols = (if c \<in> set cols then (Exists, cols) else (Added, cols @ [c]))"

fun add_columns :: "string list \<Rightarrow> string list \<Rightarrow> column_status list \<times> string list" where
  "add_columns [] cols = ([], cols)"
| "add_columns (c # cs) cols = (case add_column c cols of (s, cols1) \<Rightarrow> (case add_columns cs cols1 of (ss, cols2) \<Rightarrow> (s # ss, cols2)))"

definition new_columns :: "string list" where
  "new_columns = [''impact'', ''affected_symbols'', ''surprise'', ''scored_at'']"

text \<open>\<open>table\<close> is \<open>None\<close> when there is no database.\<close>

definition migrate_news :: "string list option \<Rightarrow> (column_status list \<times> string list) option" where
  "migrate_news table = map_option (add_columns new_columns) table"

lemma add_columns_facts:
  "set (snd (add_columns cs cols)) = set cols \<union> set cs"
  "set cs \<subseteq> set cols \<Longrightarrow> add_columns cs cols = (replicate (length cs) Exists, cols)"
proof -
  show "set (snd (add_columns cs cols)) = set cols \<union> set cs"
  proof (induction cs arbitrary: cols)
    case (Cons c cs)
    show ?case using Cons [of cols] Cons [of "cols @ [c]"] by (auto simp: add_column_def case_prod_beta)
  qed simp
  show "set cs \<subseteq> set cols \<Longrightarrow> add_columns cs cols = (replicate (length cs) Exists, cols)"
    by (induction cs) (auto simp: add_column_def)
qed

text \<open>A second run adds nothing.\<close>

lemma migration_is_idempotent:
  assumes "migrate_news (Some cols) = Some (ss, cols')"
  shows "migrate_news (Some cols') = Some (replicate 4 Exists, cols')"
proof -
  have "set new_columns \<subseteq> set cols'" using assms add_columns_facts(1) [of new_columns cols] by (auto simp: migrate_news_def)
  then show ?thesis by (simp add: migrate_news_def add_columns_facts(2)) (simp add: new_columns_def)
qed

end
