(* ===== verification/Spec2Isabelle.thy ===== *)
theory Spec2Isabelle
  imports OMS_Reconcile Reconciler Fake_Broker Lots Budget Tax Approval Clock Dispatch Recorders Cycle Attribution Snapshots Alerts Backtest
    Robinhood Alpaca Manager Jobs News Feeds Repairs Analytics Dashboard Shell Reports Market Server Prompts Files
begin

text \<open>
  A model of the multi-agent trading platform: the trading core between the answers of the language models and the broker,
  and what feeds, schedules, records and shows it. Paths are relative to \<^verbatim>\<open>src/\<close>.

  \<^bold>\<open>The program.\<close> Four agents (three sleeves and a Manager) emit intents: a symbol, an
  action and a weight of their sleeve, parsed from a model's answer. \<^verbatim>\<open>app.py\<close> sends each intent through the risk gate, a review by
  the Manager, the planner, which sizes it into an order, the account guards and the order management
  system (OMS). The OMS keeps one state machine per order, writes every step to an append-only log, and talks
  to the broker; fills come back over an event bus and are booked in the tax-lot ledger and seen by the
  agent state tracker. A reconciler compares the books with the broker and trips the kill switch,
  which the risk gate asks. Every call of a language model is gated by a spend budget.

  \<^bold>\<open>Conventions.\<close> Exceptions are values of \<open>exn\<close>; an operation with state returns the state
  also when it raises (\<open>Effects\<close>), because Python keeps the mutations made before an exception.
  What a model answers is a text, read by a decoder that is a parameter. Decimals are rationals, every arithmetic operation
  rounding to 28 digits half-even (\<open>Decimals\<close>, \<open>Decimal_Sqrt\<close>), without overflow. Infinities and not-a-number come in by the
  numbers a text can spell (\<open>number\<close> in \<open>Agents\<close>); the Manager's reallocation is followed through with them, elsewhere an
  operation of the model ends, with the value \<open>NotFinite\<close>, where the program would go on computing with one. The numbers the
  brokers' adapters read are taken to be finite. A dict is an association list in insertion order. Ids come from a counter. Times are microseconds, dates day numbers. Clocks,
  files, broker answers, prices and the reviews of the Manager are parameters. Locks are not modelled: the
  operations hold them for their whole body, so each is one step. Logging is left out.

  \<^bold>\<open>Theories.\<close>
  \<^item> \<open>Prelude\<close>, \<open>Effects\<close>: dicts, exceptions, stateful operations with Hoare triples,
    and the contract of consumers that skip what they have seen. \<open>Decimals\<close>, \<open>Decimal_Sqrt\<close>: the
    decimal context. \<open>Core_Types\<close> (\<^verbatim>\<open>core/types.py\<close>), \<open>Events\<close> (\<^verbatim>\<open>core/events.py\<close>),
    \<open>Clock\<close> (\<^verbatim>\<open>core/clock.py\<close>), \<open>Universes\<close> (\<^verbatim>\<open>config/universes.py\<close>, \<^verbatim>\<open>config/runtime_store.py\<close>).
  \<^item> \<open>State_Machine\<close> (\<^verbatim>\<open>core/state_machine.py\<close>): the generic machine and the order machine,
    related to the life cycle of an order as an inductive relation.
  \<^item> \<open>Event_Log\<close> (\<^verbatim>\<open>execution/oms_store.py\<close> and the codec of \<^verbatim>\<open>execution/oms.py\<close>): the log and
    its round trips.
  \<^item> \<open>OMS\<close>, \<open>OMS_Invariants\<close>, \<open>OMS_Recovery\<close>, \<open>OMS_Reconcile\<close> (\<^verbatim>\<open>execution/oms.py\<close>): all
    operations; the well-formedness every operation keeps and the order in which states evolve; replaying
    the log, a simulation between the live state and the replayed one; catching up with the broker.
  \<^item> \<open>Broker\<close>, \<open>Fake_Broker\<close> (\<^verbatim>\<open>execution/broker.py\<close>, \<^verbatim>\<open>execution/fake_broker.py\<close>): the interface
    as a locale, and the in-memory broker as its interpretation.
  \<^item> \<open>Reconciler\<close> (\<^verbatim>\<open>execution/reconciler.py\<close>): one pass, its effect on the kill switch, adoption
    of orphans and what a second pass finds.
  \<^item> \<open>Lots\<close>, \<open>Tax\<close> (\<^verbatim>\<open>execution/lots.py\<close>, \<^verbatim>\<open>execution/tax.py\<close>): booking, conservation of
    holdings, order of consumption, the database copy, replay; the wash-sale records.
  \<^item> \<open>Kill_Switch\<close>, \<open>Approval\<close>, \<open>Budget\<close> (\<^verbatim>\<open>execution/kill_switch.py\<close>,
    \<^verbatim>\<open>execution/approval_queue.py\<close>, \<^verbatim>\<open>execution/budget.py\<close> with \<^verbatim>\<open>agents/llm.py\<close>).
  \<^item> \<open>Sizing\<close> (\<^verbatim>\<open>execution/sizing.py\<close>, the sleeve weights of \<^verbatim>\<open>agents/manager_bridge.py\<close>): caps as
    products of scalar tables (a locale, with an interpretation per table), the volatility estimator
    and the sizer.
  \<^item> \<open>Risk_Gate\<close> (\<^verbatim>\<open>execution/risk.py\<close>): the checks in order; what an allowed intent satisfies,
    as an equivalence with a policy stated without the order of the checks.
  \<^item> \<open>Planner\<close> (\<^verbatim>\<open>execution/planner.py\<close>): sizing against holdings and caps; planned sales are
    covered, planned purchases within the cap, a filled close leaves no open lot.
  \<^item> \<open>Tracker\<close> (\<^verbatim>\<open>execution/agent_state_tracker.py\<close>): equity, drawdown buckets and their recovery
    rule as runs of marks, the bench, saving and loading.
  \<^item> \<open>Dispatch\<close> (\<^verbatim>\<open>app.py\<close>): the composition; what has been checked when an order reaches the OMS.
  \<^item> \<open>Signals\<close> (\<^verbatim>\<open>agents/haiku_agent.py\<close>, \<^verbatim>\<open>agents/sonnet_agent.py\<close>, \<^verbatim>\<open>backtest/strategies.py\<close>,
    the snapshot of \<^verbatim>\<open>app.py\<close>): trends and momenta; the rules-only strategies hold what the agents
    are shown; the snapshot is total.
  \<^item> \<open>Memory\<close>, \<open>Agents\<close> (\<^verbatim>\<open>agents/memory.py\<close>, \<^verbatim>\<open>agents/json_utils.py\<close> and the three sleeve
    agents): the memory's tables; from an answer to intents that are well formed, within the agent's cap
    and logged; the watchlist and its round trip.
  \<^item> \<open>Recorders\<close> (\<^verbatim>\<open>agents/outcome_recorder.py\<close>, \<^verbatim>\<open>agents/calibration_recorder.py\<close>,
    \<^verbatim>\<open>agents/calibration.py\<close>): the outcome of an intent as the last conclusive event of its order; closed
    lots scored against the intent that opened them.
  \<^item> \<open>Attribution\<close> (\<^verbatim>\<open>ops/attribution.py\<close>, \<^verbatim>\<open>ops/agent_pnl_store.py\<close>): profit per agent from the
    log's fills, matched first in, first out, and its daily table; the books balance.
  \<^item> \<open>Snapshots\<close> (\<^verbatim>\<open>ops/equity_snapshotter.py\<close>, \<^verbatim>\<open>ops/heartbeat.py\<close>): the minute's tick that marks the
    sleeves, its tables and their retention.
  \<^item> \<open>Bar_Cache\<close> (\<^verbatim>\<open>data/bar_cache.py\<close>, the replaying feed of \<^verbatim>\<open>data/market.py\<close>, \<^verbatim>\<open>data/store.py\<close>): when the
    cached feed answers exactly like the feed behind it, and when it does not.
  \<^item> \<open>Backtest\<close> (\<^verbatim>\<open>backtest/engine.py\<close>): runs and folds over an abstract float arithmetic; no look-ahead,
    folds in order and apart, and that the harness ends.
  \<^item> \<open>Alerts\<close> (\<^verbatim>\<open>ops/alerts.py\<close>, \<^verbatim>\<open>ops/telegram.py\<close>): messages to the operator and their suppression.
  \<^item> \<open>Robinhood\<close> (\<^verbatim>\<open>execution/robinhood_broker.py\<close>): the adapter over an arbitrary endpoint; which calls it
    makes, the claims that keep threads apart, the order that is lost when its id comes in an envelope, dry-run fills as a further instance of the broker contract, and
    what recovery and submission make of its answers.
  \<^item> \<open>Alpaca\<close> (\<^verbatim>\<open>execution/alpaca_broker.py\<close>): the adapter over an arbitrary client library; the trade
    stream and the poll agree, and what a restart does to the stream.
  \<^item> \<open>Manager\<close> (\<^verbatim>\<open>agents/manager_bridge.py\<close>, \<^verbatim>\<open>agents/manager_agent.py\<close>, the Friday job of \<^verbatim>\<open>app.py\<close>): what
    becomes of the Manager's answers; the size and the cadence of reallocations, and the answer that breaks the cadence.
  \<^item> \<open>View\<close> (\<^verbatim>\<open>app.py\<close>): what an agent is shown, and a whole tick from there to the dispatch; the cap it is
    shown against the planner's.
  \<^item> \<open>Jobs\<close> (\<^verbatim>\<open>app.py\<close>): the midnight reset, the Manager's reserve, Opus' deep dives, the volatility scan and the
    Sunday critique; which of them end, repeat or fail to repeat what.
  \<^item> \<open>News\<close> (\<^verbatim>\<open>data/news_store.py\<close>, \<^verbatim>\<open>data/news_fetcher.py\<close>, \<^verbatim>\<open>data/doc_pack.py\<close>, \<^verbatim>\<open>agents/news_scorer.py\<close>,
    \<^verbatim>\<open>agents/haiku_synthesizer.py\<close>, the news jobs of \<^verbatim>\<open>app.py\<close>, the news block of \<^verbatim>\<open>agents/base.py\<close>): the store, the rate limiter, the
    scorer's queue, and what of a text from outside can reach a prompt.
  \<^item> \<open>Feeds\<close> (\<^verbatim>\<open>data/news.py\<close>): replies of the services as news items; which of them can ever be scored.
  \<^item> \<open>Repairs\<close> (\<^verbatim>\<open>scripts/\<close>, \<^verbatim>\<open>ops/migrate_lot_symbols.py\<close>): what the repair scripts do to log and lots, and what the
    next recovery makes of it.
  \<^item> \<open>Analytics\<close> (\<^verbatim>\<open>ops/manager_analytics.py\<close>): the values shown to the Manager, and what they leave out.
  \<^item> \<open>Dashboard\<close> (\<^verbatim>\<open>dashboard/data.py\<close>, \<^verbatim>\<open>dashboard/spy.py\<close>): the read-only views over the stores.
  \<^item> \<open>Prompts\<close> (the fingerprints and messages of \<^verbatim>\<open>agents/haiku_agent.py\<close>, \<^verbatim>\<open>sonnet_agent.py\<close>, \<^verbatim>\<open>opus_agent.py\<close>,
    \<^verbatim>\<open>manager_agent.py\<close>): what an agent that is skipped for unchanged signals has not missed, and what does not wake it. \<open>signal_fingerprint\<close>
    is the value \<open>View\<close> leaves open as \<open>ve_fingerprint\<close>.
  \<^item> \<open>Shell\<close> (\<^verbatim>\<open>app.py\<close>, \<^verbatim>\<open>config/settings.py\<close>): the guards of the start, the choice of broker and data, the steps of start and
    stop and which of them a failure skips, the schedule, the filter of log records and the note it leaves, the jobs that join the other parts.
  \<^item> \<open>Reports\<close> (\<^verbatim>\<open>ops/telegram.py\<close>, \<^verbatim>\<open>data/summarize.py\<close>): escaping, truncation and suppression of messages to people,
    the length of summaries.
  \<^item> \<open>Market\<close> (\<^verbatim>\<open>data/market.py\<close>): the Alpaca and Yahoo feeds over arbitrary clients; where batch and single call
    agree, and the batch of one ticker that loses its bars.
  \<^item> \<open>Server\<close> (\<^verbatim>\<open>dashboard/server.py\<close>, the scores of \<^verbatim>\<open>agents/calibration.py\<close>): the endpoints behind the pages.
  \<^item> \<open>Files\<close> (\<^verbatim>\<open>ops/journal.py\<close>, \<^verbatim>\<open>scripts/migrate_news_schema_v2.py\<close> and the writers of the other small files): what a crash
    between two steps of a write leaves.
  \<^item> \<open>Cycle\<close>: an agent's answer inside one dispatched observation, and what a failure of either does.

  \<^bold>\<open>Bounds.\<close> No definition uses fuel: loops are structural recursions or folds,
  recursions with a measure, or, in \<open>Backtest\<close>, a \<open>while_option\<close> that is proved to end. Exactness of sums of
  quantities is stated for books on a grid of \<open>10 ^ - k\<close> that fits 28 digits (\<open>grid_book\<close>);
  the broker's nine decimal places leave room for nineteen digits before the point.

  \<^bold>\<open>Not modelled.\<close> The client libraries of brokers, market data and messengers, whose answers are parameters; the JSON
  decoder, number and date formats, hashes; threads, the wiring of the objects and the set-up of logging in \<^verbatim>\<open>app.py\<close>; the page
  (HTML, CSS, JavaScript) of \<^verbatim>\<open>dashboard/server.py\<close>; \<^verbatim>\<open>data/cache.py\<close>, a wrapper of the diskcache package; the
  liquidation's broker calls; \<^verbatim>\<open>ops/diag_agent_inputs.py\<close>, \<^verbatim>\<open>scripts/robinhood_mcp_connect.py\<close>, \<^verbatim>\<open>backtest/run_baseline.py\<close> and
  \<^verbatim>\<open>research/\<close>, which print, log in or measure; floating-point arithmetic, which is the abstract one of \<open>Backtest\<close>.
  \<open>Dispatch\<close> collects the outcomes it records itself; the handlers of the bus that write to agents' memories are modelled by
  themselves in \<open>Recorders\<close>.
\<close>

end
